(* ===== verification/Text.thy ===== *)
theory Text
  imports Prelude
begin

text \<open>
  Text handling of Rust's standard library that the program's parsers rest on: UTF-8
  validation and lossy decoding, trimming, decimal and hexadecimal formatting, and
  \<open>parse\<close> for the integer types.
\<close>

subsection \<open>UTF-8 validation\<close>

text \<open>
  The length of the well-formed scalar value at the front of a byte string
  (\<open>core::str::validations\<close>), and, where there is none, the length of the maximal
  ill-formed part that \<open>from_utf8_lossy\<close> replaces by one U+FFFD.
\<close>

definition second_ok :: "nat \<Rightarrow> nat \<Rightarrow> bool" where
  "second_ok a b \<longleftrightarrow>
     (if a = 224 then 160 \<le> b \<and> b \<le> 191
      else if a = 237 then 128 \<le> b \<and> b \<le> 159
      else if a = 240 then 144 \<le> b \<and> b \<le> 191
      else if a = 244 then 128 \<le> b \<and> b \<le> 143
      else 128 \<le> b \<and> b \<le> 191)"

definition utf8_width :: "nat \<Rightarrow> nat" where
  "utf8_width a =
     (if a < 128 then 1
      else if 194 \<le> a \<and> a \<le> 223 then 2
      else if 224 \<le> a \<and> a \<le> 239 then 3
      else if 240 \<le> a \<and> a \<le> 244 then 4
      else 0)"

text \<open>\<open>Inr n\<close>: a scalar value of \<open>n\<close> bytes; \<open>Inl n\<close>: an ill-formed part of \<open>n\<close> bytes.\<close>

definition utf8_front :: "char \<Rightarrow> string \<Rightarrow> nat + nat" where
  "utf8_front c cs =
     (let a = byte c; w = utf8_width a in
      if w = 0 then Inl 1
      else if w = 1 then Inr 1
      else case cs of
        [] \<Rightarrow> Inl 1
      | b # bs \<Rightarrow>
          if \<not> second_ok a (byte b) then Inl 1
          else if w = 2 then Inr 2
          else (case bs of
            [] \<Rightarrow> Inl 2
          | d # ds \<Rightarrow>
              if \<not> is_cont d then Inl 2
              else if w = 3 then Inr 3
              else (case ds of
                [] \<Rightarrow> Inl 3
              | e # es \<Rightarrow> if \<not> is_cont e then Inl 3 else Inr 4)))"

lemma utf8_front_pos: "utf8_front c cs = Inr n \<Longrightarrow> 0 < n" "utf8_front c cs = Inl n \<Longrightarrow> 0 < n"
  by (auto simp: utf8_front_def Let_def split: if_splits list.splits)

function valid_utf8 :: "string \<Rightarrow> bool" where
  "valid_utf8 [] = True"
| "valid_utf8 (c # cs) =
     (case utf8_front c cs of
        Inl _ \<Rightarrow> False
      | Inr n \<Rightarrow> valid_utf8 (drop (n - 1) cs))"
  by pat_completeness auto
termination
  by (relation "measure length") auto

function utf8_lossy :: "string \<Rightarrow> string" where
  "utf8_lossy [] = []"
| "utf8_lossy (c # cs) =
     (case utf8_front c cs of
        Inl n \<Rightarrow> [CHR 0xEF, CHR 0xBF, CHR 0xBD] @ utf8_lossy (drop (n - 1) cs)
      | Inr n \<Rightarrow> c # take (n - 1) cs @ utf8_lossy (drop (n - 1) cs))"
  by pat_completeness auto
termination
  by (relation "measure length") auto

lemma utf8_lossy_valid: "valid_utf8 s \<Longrightarrow> utf8_lossy s = s"
  by (induction s rule: valid_utf8.induct) (auto split: sum.splits)

lemma valid_utf8_ascii: "list_all (\<lambda>c. byte c < 128) s \<Longrightarrow> valid_utf8 s"
proof (induction s)
  case (Cons c cs)
  then have "utf8_front c cs = Inr 1"
    by (simp add: utf8_front_def utf8_width_def)
  with Cons show ?case by simp
qed simp

subsection \<open>Trimming\<close>

text \<open>The scalar values with the Unicode White\_Space property, as UTF-8.\<close>

definition unicode_whitespace :: "string list" where
  "unicode_whitespace =
     [[CHR 0x09], [CHR 0x0A], [CHR 0x0B], [CHR 0x0C], [CHR 0x0D], [CHR 0x20],
      [CHR 0xC2, CHR 0x85], [CHR 0xC2, CHR 0xA0], [CHR 0xE1, CHR 0x9A, CHR 0x80],
      [CHR 0xE2, CHR 0x80, CHR 0x80], [CHR 0xE2, CHR 0x80, CHR 0x81],
      [CHR 0xE2, CHR 0x80, CHR 0x82], [CHR 0xE2, CHR 0x80, CHR 0x83],
      [CHR 0xE2, CHR 0x80, CHR 0x84], [CHR 0xE2, CHR 0x80, CHR 0x85],
      [CHR 0xE2, CHR 0x80, CHR 0x86], [CHR 0xE2, CHR 0x80, CHR 0x87],
      [CHR 0xE2, CHR 0x80, CHR 0x88], [CHR 0xE2, CHR 0x80, CHR 0x89],
      [CHR 0xE2, CHR 0x80, CHR 0x8A], [CHR 0xE2, CHR 0x80, CHR 0xA8],
      [CHR 0xE2, CHR 0x80, CHR 0xA9], [CHR 0xE2, CHR 0x80, CHR 0xAF],
      [CHR 0xE2, CHR 0x81, CHR 0x9F], [CHR 0xE3, CHR 0x80, CHR 0x80]]"

definition is_space :: "string \<Rightarrow> bool" where
  "is_space g \<longleftrightarrow> g \<in> set unicode_whitespace"

definition trim_end :: "string \<Rightarrow> string" where
  "trim_end s = concat (rev (dropWhile is_space (rev (utf8_chars s))))"

definition trim :: "string \<Rightarrow> string" where
  "trim s = concat (dropWhile is_space (rev (dropWhile is_space (rev (utf8_chars s)))))"

subsection \<open>Decimal and hexadecimal\<close>

function dec_of_nat :: "nat \<Rightarrow> string" where
  "dec_of_nat n =
     (if n < 10 then [''0123456789'' ! n]
      else dec_of_nat (n div 10) @ [''0123456789'' ! (n mod 10)])"
  by pat_completeness auto
termination
  by (relation "measure id") auto

declare dec_of_nat.simps [simp del]

definition pad_zero :: "nat \<Rightarrow> string \<Rightarrow> string" where
  "pad_zero w s = replicate (w - length s) (CHR ''0'') @ s"

definition hex_digit :: "nat \<Rightarrow> char" where
  "hex_digit n = ''0123456789abcdef'' ! n"

text \<open>The format \<open>{byte:02x}\<close>\<close>

definition hex_byte :: "char \<Rightarrow> string" where
  "hex_byte c = [hex_digit (byte c div 16), hex_digit (byte c mod 16)]"

fun digits_value :: "nat \<Rightarrow> string \<Rightarrow> nat option" where
  "digits_value acc [] = Some acc"
| "digits_value acc (c # cs) =
     (if is_digit c then digits_value (acc * 10 + (byte c - 48)) cs else None)"

definition parse_digits :: "string \<Rightarrow> nat option" where
  "parse_digits s = (if s = [] then None else digits_value 0 s)"

text \<open>
  \<open>str::parse::<u32>\<close> and its kin: an optional \<open>+\<close>, at least one digit, no overflow.
\<close>

definition parse_unsigned :: "nat \<Rightarrow> string \<Rightarrow> nat option" where
  "parse_unsigned limit s =
     (case parse_digits (case s of c # cs \<Rightarrow> if c = CHR ''+'' then cs else s | [] \<Rightarrow> s) of
        None \<Rightarrow> None
      | Some n \<Rightarrow> if n \<le> limit then Some n else None)"

definition parse_u32 :: "string \<Rightarrow> nat option" where
  "parse_u32 = parse_unsigned u32_max"

definition parse_i64 :: "string \<Rightarrow> int option" where
  "parse_i64 s =
     (case s of
        [] \<Rightarrow> None
      | c # cs \<Rightarrow>
          if c = CHR ''-'' then
            (case parse_digits cs of
               None \<Rightarrow> None
             | Some n \<Rightarrow> if i64_min \<le> - int n then Some (- int n) else None)
          else
            (case parse_digits (if c = CHR ''+'' then cs else s) of
               None \<Rightarrow> None
             | Some n \<Rightarrow> if int n \<le> i64_max then Some (int n) else None))"

subsection \<open>Facts the components share\<close>

lemma byte_nth_digits: "n < 10 \<Longrightarrow> byte (''0123456789'' ! n) = 48 + n"
  by (auto simp: less_Suc_eq numeral_eq_Suc)

lemma byte_hex_digit: "n < 16 \<Longrightarrow> byte (hex_digit n) = (if n < 10 then 48 + n else 87 + n)"
  by (auto simp: hex_digit_def less_Suc_eq numeral_eq_Suc)

lemma hex_digit_lower: "n < 16 \<Longrightarrow> is_lower_hex (hex_digit n)"
  by (auto simp: byte_simps byte_hex_digit)

lemma hex_digit_inject:
  assumes "m < 16" "n < 16" "hex_digit m = hex_digit n"
  shows "m = n"
proof -
  have "(if m < 10 then 48 + m else 87 + m) = (if n < 10 then 48 + n else 87 + n)"
    using assms by (metis byte_hex_digit)
  then show ?thesis by (simp split: if_splits)
qed

lemma byte_nibble [simp]: "byte c div 16 < 16"
  by (rule less_mult_imp_div_less) simp

lemma length_hex_byte [simp]: "length (hex_byte c) = 2"
  by (simp add: hex_byte_def)

lemma hex_byte_inject: "hex_byte c = hex_byte d \<longleftrightarrow> c = d"
proof
  assume eq: "hex_byte c = hex_byte d"
  from eq have "hex_digit (byte c div 16) = hex_digit (byte d div 16)"
    and "hex_digit (byte c mod 16) = hex_digit (byte d mod 16)"
    by (simp_all add: hex_byte_def)
  then have "byte c div 16 = byte d div 16" "byte c mod 16 = byte d mod 16"
    by (simp_all add: hex_digit_inject)
  then have "byte c = byte d" by (metis div_mult_mod_eq)
  then show "c = d" by (simp add: byte_inject)
qed simp

lemma hex_byte_chars: "x \<in> set (hex_byte c) \<Longrightarrow> is_lower_hex x"
  by (auto simp: hex_byte_def intro!: hex_digit_lower)

lemma concat_hex_inject: "concat (map hex_byte xs) = concat (map hex_byte ys) \<longleftrightarrow> xs = ys"
proof (induction xs arbitrary: ys)
  case Nil
  then show ?case by (cases ys) (auto simp: hex_byte_def)
next
  case (Cons x xs)
  then show ?case
    by (cases ys) (auto simp: append_eq_append_conv hex_byte_inject, simp add: hex_byte_def)
qed

lemma length_concat_hex [simp]: "length (concat (map hex_byte xs)) = 2 * length xs"
  by (induction xs) auto

lemma dec_of_nat_digit: "c \<in> set (dec_of_nat n) \<Longrightarrow> is_digit c"
proof (induction n rule: dec_of_nat.induct)
  case (1 n)
  show ?case
  proof (cases "n < 10")
    case True
    with 1 show ?thesis
      by (simp add: dec_of_nat.simps [of n] is_digit_def byte_nth_digits)
  next
    case False
    with 1 show ?thesis
      by (auto simp: dec_of_nat.simps [of n] is_digit_def byte_nth_digits)
  qed
qed

lemma digits_value_append:
  "digits_value a (s @ t) = (case digits_value a s of None \<Rightarrow> None | Some b \<Rightarrow> digits_value b t)"
  by (induction s arbitrary: a) auto

lemma dec_of_nat_not_Nil [simp]: "dec_of_nat n \<noteq> []"
  by (subst dec_of_nat.simps) simp

text \<open>Printing a number and parsing it back.\<close>

lemma digits_value_dec: "digits_value 0 (dec_of_nat n) = Some n"
proof (induction n rule: dec_of_nat.induct)
  case (1 n)
  show ?case
  proof (cases "n < 10")
    case True
    then show ?thesis
      by (simp add: dec_of_nat.simps [of n] is_digit_def byte_nth_digits)
  next
    case False
    with 1 have "digits_value 0 (dec_of_nat (n div 10)) = Some (n div 10)" by simp
    with False show ?thesis
      by (simp add: dec_of_nat.simps [of n] digits_value_append is_digit_def byte_nth_digits)
  qed
qed

lemma parse_digits_dec: "parse_digits (dec_of_nat n) = Some n"
  by (simp add: parse_digits_def digits_value_dec)

lemma dec_of_nat_inject: "dec_of_nat m = dec_of_nat n \<longleftrightarrow> m = n"
  by (metis digits_value_dec option.inject)

lemma digits_value_zeros: "digits_value 0 (replicate k (CHR ''0'') @ s) = digits_value 0 s"
  by (induction k) (auto simp: is_digit_def)

lemma digits_value_pad: "digits_value 0 (pad_zero w (dec_of_nat n)) = Some n"
  unfolding pad_zero_def digits_value_zeros by (rule digits_value_dec)

lemma pad_zero_inject: "pad_zero w (dec_of_nat m) = pad_zero w (dec_of_nat n) \<longleftrightarrow> m = n"
proof
  assume eq: "pad_zero w (dec_of_nat m) = pad_zero w (dec_of_nat n)"
  have "Some m = digits_value 0 (pad_zero w (dec_of_nat m))"
    by (rule digits_value_pad [symmetric])
  also have "\<dots> = digits_value 0 (pad_zero w (dec_of_nat n))"
    by (rule arg_cong [OF eq])
  also have "\<dots> = Some n"
    by (rule digits_value_pad)
  finally show "m = n" by (rule option.inject [THEN iffD1])
qed (rule arg_cong)

lemma pad_zero_digit: "c \<in> set (pad_zero w (dec_of_nat n)) \<Longrightarrow> is_digit c"
  using dec_of_nat_digit [of c n] by (auto simp: pad_zero_def is_digit_def)

lemma pad_zero_length: "w \<le> length (pad_zero w s)"
  by (simp add: pad_zero_def)

end
