(* ===== verification/Names.thy ===== *)
theory Names
  imports Text
begin

text \<open>
  File-system names (\<open>src/name.rs\<close>): a session or stream identity becomes one path
  component that is safe to create below a fixed parent and from which no other identity can
  be mistaken. A path is the list of its components below the root; \<open>path_join\<close> and
  \<open>path_parent\<close> are \<open>Path::join\<close> and \<open>Path::parent\<close>.
\<close>

subsection \<open>Paths\<close>

type_synonym path = "string list"

datatype component = RootDir | CurDir | ParentDir | Normal string

definition path_is_absolute :: "string \<Rightarrow> bool" where
  "path_is_absolute s \<longleftrightarrow> starts_with ''/'' s"

text \<open>
  \<open>Path::components\<close> on Unix: repeated separators and inner \<open>.\<close> disappear, a leading
  \<open>.\<close> is \<open>CurDir\<close>; a prefix component never occurs.
\<close>

fun component_of :: "string \<Rightarrow> component" where
  "component_of s = (if s = ''..'' then ParentDir else Normal s)"

definition path_components :: "string \<Rightarrow> component list" where
  "path_components s =
     (let parts = split_on (CHR ''/'') s;
          rest = map component_of (filter (\<lambda>p. p \<noteq> [] \<and> p \<noteq> ''.'') parts)
      in if path_is_absolute s then RootDir # rest
         else if hd parts = ''.'' then CurDir # rest
         else rest)"

definition path_join :: "path \<Rightarrow> string \<Rightarrow> path" where
  "path_join parent s =
     (let names = filter (\<lambda>p. p \<noteq> [] \<and> p \<noteq> ''.'') (split_on (CHR ''/'') s)
      in if path_is_absolute s then names else parent @ names)"

definition path_parent :: "path \<Rightarrow> path option" where
  "path_parent p = (if p = [] then None else Some (butlast p))"

subsection \<open>Derived names\<close>

definition MAX_COMPONENT_BYTES :: nat where "MAX_COMPONENT_BYTES = 200"

datatype DerivedName = DerivedName (as_str: string)

datatype NameError =
    Empty
  | ContainsNul
  | Absolute
  | Traversal
  | TooLong (actual: nat) (limit: nat)
  | EscapesParent

definition session_filename :: "DerivedName \<Rightarrow> string" where
  "session_filename n = ''tmux_'' @ as_str n @ ''_screen.jsonl''"

definition join_checked :: "DerivedName \<Rightarrow> path \<Rightarrow> NameError + path" where
  "join_checked n parent =
     (let child = path_join parent (as_str n)
      in if path_parent child \<noteq> Some parent then Inl EscapesParent else Inr child)"

fun name_error_text :: "NameError \<Rightarrow> string" where
  "name_error_text Empty = ''identity must not be empty''"
| "name_error_text ContainsNul = ''identity must not contain NUL''"
| "name_error_text Absolute = ''identity must not be an absolute path''"
| "name_error_text Traversal = ''identity must not contain path traversal''"
| "name_error_text (TooLong a l) =
     ''derived identity is '' @ dec_of_nat a @ '' bytes; the limit is '' @ dec_of_nat l @ '' bytes''"
| "name_error_text EscapesParent = ''derived identity escapes its parent''"

definition canonical_first :: "char \<Rightarrow> bool" where
  [byte_simps]: "canonical_first c \<longleftrightarrow> is_lower c \<or> is_digit c"

definition canonical_rest :: "char \<Rightarrow> bool" where
  [byte_simps]: "canonical_rest c \<longleftrightarrow> is_lower c \<or> is_digit c \<or> c \<in> set ''._-''"

definition canonical :: "string \<Rightarrow> bool" where
  "canonical raw \<longleftrightarrow>
     (case raw of [] \<Rightarrow> True | c # cs \<Rightarrow> canonical_first c \<and> list_all canonical_rest cs)"

definition keeps_char :: "char \<Rightarrow> bool" where
  [byte_simps]: "keeps_char c \<longleftrightarrow> is_alnum c \<or> c \<in> set ''._-''"

text \<open>One scalar value: kept when it is one of the allowed ASCII characters.\<close>

definition replace_char :: "string \<Rightarrow> string" where
  "replace_char g = (case g of [c] \<Rightarrow> if keeps_char c then [c] else ''_'' | _ \<Rightarrow> ''_'')"

definition replaced :: "string \<Rightarrow> string" where
  "replaced raw = concat (map replace_char (utf8_chars raw))"

definition has_traversal :: "string \<Rightarrow> bool" where
  "has_traversal raw \<longleftrightarrow>
     list_ex (\<lambda>part. part = ''.'' \<or> part = ''..'') (split_on (CHR ''/'') raw)
     \<or> list_ex (\<lambda>c. c = ParentDir \<or> c = RootDir) (path_components raw)"

definition derive_component :: "string \<Rightarrow> NameError + DerivedName" where
  "derive_component raw =
     (if raw = [] then Inl Empty
      else if NUL \<in> set raw then Inl ContainsNul
      else if path_is_absolute raw then Inl Absolute
      else if has_traversal raw then Inl Traversal
      else
        let component =
              (if canonical raw then replaced raw
               else replaced raw @ ''~'' @ concat (map hex_byte raw))
        in if length component > MAX_COMPONENT_BYTES
           then Inl (TooLong (length component) MAX_COMPONENT_BYTES)
           else Inr (DerivedName component))"

definition valid_activity_filename :: "string \<Rightarrow> string \<Rightarrow> bool" where
  "valid_activity_filename name stem \<longleftrightarrow>
     (if name = stem @ ''_desktop_activity.jsonl''
      then derive_component name = Inr (DerivedName name)
      else (case Option.bind (strip_prefix (stem @ ''_'') name)
                   (strip_suffix ''_desktop_activity.jsonl'') of
              None \<Rightarrow> False
            | Some i \<Rightarrow> i \<noteq> [] \<and> derive_component name = Inr (DerivedName name)))"

text \<open>The component test \<open>exact_component\<close> of \<open>src/sync.rs\<close>.\<close>

definition exact_component :: "string \<Rightarrow> DerivedName option" where
  "exact_component value =
     (case derive_component value of
        Inl _ \<Rightarrow> None
      | Inr n \<Rightarrow> if as_str n = value then Some n else None)"

subsection \<open>The alphabet of a derived name\<close>

lemma canonical_rest_ascii: "canonical_rest c \<Longrightarrow> byte c < 128"
  by (auto simp: byte_simps)

lemma canonical_chars: "canonical raw \<Longrightarrow> list_all canonical_rest raw"
  by (auto simp: canonical_def canonical_first_def canonical_rest_def split: list.splits)

lemma canonical_rest_keeps: "canonical_rest c \<Longrightarrow> keeps_char c"
  by (auto simp: byte_simps)

lemma takeWhile_ascii: "list_all (\<lambda>c. byte c < 128) s \<Longrightarrow> takeWhile is_cont s = []"
  by (cases s) (auto simp: is_cont_def)

lemma dropWhile_ascii: "list_all (\<lambda>c. byte c < 128) s \<Longrightarrow> dropWhile is_cont s = s"
  by (cases s) (auto simp: is_cont_def)

lemma utf8_chars_ascii: "list_all (\<lambda>c. byte c < 128) s \<Longrightarrow> utf8_chars s = map (\<lambda>c. [c]) s"
  by (induction s) (auto simp: takeWhile_ascii dropWhile_ascii)

lemma replaced_keeps:
  "list_all canonical_rest s \<Longrightarrow> replaced s = s"
proof -
  assume all: "list_all canonical_rest s"
  then have "list_all (\<lambda>c. byte c < 128) s"
    by (auto simp: list_all_iff canonical_rest_ascii)
  then have "replaced s = concat (map (\<lambda>c. replace_char [c]) s)"
    by (simp add: replaced_def utf8_chars_ascii comp_def)
  also have "\<dots> = s"
    using all by (induction s) (auto simp: replace_char_def canonical_rest_keeps)
  finally show ?thesis .
qed

lemma replace_char_alphabet: "x \<in> set (replace_char g) \<Longrightarrow> keeps_char x"
  by (auto simp: replace_char_def byte_simps split: list.splits if_splits)

lemma replaced_alphabet: "x \<in> set (replaced raw) \<Longrightarrow> keeps_char x"
  by (auto simp: replaced_def replace_char_alphabet)

lemma tilde_not_kept: "\<not> keeps_char (CHR ''~'')"
  by (simp add: byte_simps)

lemma utf8_chars_not_Nil: "g \<in> set (utf8_chars s) \<Longrightarrow> g \<noteq> []"
  by (induction s rule: utf8_chars.induct) auto

subsection \<open>Shape of the result\<close>

lemma derive_component_Inr:
  assumes "derive_component raw = Inr n"
  shows "raw \<noteq> []" "NUL \<notin> set raw" "\<not> path_is_absolute raw" "\<not> has_traversal raw"
    "as_str n = (if canonical raw then raw else replaced raw @ ''~'' @ concat (map hex_byte raw))"
    "length (as_str n) \<le> MAX_COMPONENT_BYTES"
  using assms
  by (auto simp: derive_component_def Let_def replaced_keeps canonical_chars split: if_splits)

definition name_char :: "char \<Rightarrow> bool" where
  [byte_simps]: "name_char c \<longleftrightarrow> keeps_char c \<or> c = CHR ''~''"

lemma derived_alphabet:
  assumes "derive_component raw = Inr n"
  shows "list_all name_char (as_str n)"
proof -
  have "canonical raw \<Longrightarrow> list_all name_char raw"
    using canonical_chars [of raw] by (auto simp: list_all_iff name_char_def canonical_rest_keeps)
  moreover have "list_all name_char (replaced raw @ ''~'' @ concat (map hex_byte raw))"
    by (auto simp: list_all_iff name_char_def dest!: replaced_alphabet hex_byte_chars)
      (auto simp: byte_simps)
  ultimately show ?thesis using derive_component_Inr(5) [OF assms] by auto
qed

lemma name_char_not_slash: "name_char c \<Longrightarrow> c \<noteq> CHR ''/''"
  by (auto simp: byte_simps)

lemma name_chars_no_slash: "list_all name_char s \<Longrightarrow> CHR ''/'' \<notin> set s"
  by (auto simp: list_all_iff dest: name_char_not_slash)

lemma canonical_not_dots:
  "canonical s \<Longrightarrow> s \<noteq> ''.'' \<and> s \<noteq> ''..''"
  by (auto simp: canonical_def byte_simps)

lemma derived_not_dots:
  assumes "derive_component raw = Inr n"
  shows "as_str n \<noteq> []" "as_str n \<noteq> ''.''" "as_str n \<noteq> ''..''"
proof -
  have tilde: "CHR ''~'' \<in> set (as_str n) \<or> canonical raw \<and> as_str n = raw"
    using derive_component_Inr(5) [OF assms] by (auto split: if_splits)
  then show "as_str n \<noteq> []" "as_str n \<noteq> ''.''" "as_str n \<noteq> ''..''"
    using derive_component_Inr(1) [OF assms] canonical_not_dots [of raw] by auto
qed

subsection \<open>No aliasing\<close>

text \<open>ASCII lower-casing, as a case-insensitive file system compares names.\<close>

definition to_lower :: "char \<Rightarrow> char" where
  [byte_simps]: "to_lower c = (if is_upper c then char_of (byte c + 32) else c)"

lemma to_lower_tilde: "to_lower c = CHR ''~'' \<longleftrightarrow> c = CHR ''~''"
proof (cases "is_upper c")
  case True
  then have upper: "65 \<le> byte c \<and> byte c \<le> 90" by (simp add: is_upper_def)
  then have "byte (to_lower c) = byte c + 32" using True by (simp add: to_lower_def)
  with upper have "byte (to_lower c) \<le> 122" by simp
  moreover have "byte (CHR ''~'') = (126::nat)" by simp
  ultimately have "to_lower c \<noteq> CHR ''~''" by auto
  moreover have "c \<noteq> CHR ''~''" using upper by auto
  ultimately show ?thesis by simp
qed (simp add: to_lower_def)

lemma to_lower_id: "is_lower_hex c \<or> canonical_rest c \<Longrightarrow> to_lower c = c"
  by (auto simp: byte_simps)

lemma map_to_lower_id:
  "list_all (\<lambda>c. is_lower_hex c \<or> canonical_rest c) s \<Longrightarrow> map to_lower s = s"
  by (induction s) (auto simp: to_lower_id)

lemma append_sep_eq:
  assumes "a @ x # b = c @ x # d" "x \<notin> set a" "x \<notin> set c"
  shows "b = d"
  using assms
proof (induction a arbitrary: c)
  case Nil
  then show ?case by (cases c) auto
next
  case (Cons y a)
  then show ?case by (cases c) auto
qed

lemma lowered_canonical:
  "canonical raw \<Longrightarrow> map to_lower raw = raw \<and> CHR ''~'' \<notin> set raw"
  using canonical_chars [of raw]
  by (auto simp: list_all_iff intro!: map_idI to_lower_id) (auto simp: byte_simps)

lemma lowered_hex:
  "map to_lower (concat (map hex_byte raw)) = concat (map hex_byte raw)"
  by (rule map_to_lower_id) (auto simp: list_all_iff dest: hex_byte_chars)

lemma lowered_replaced: "CHR ''~'' \<notin> set (map to_lower (replaced raw))"
proof
  assume "CHR ''~'' \<in> set (map to_lower (replaced raw))"
  then obtain x where "x \<in> set (replaced raw)" "to_lower x = CHR ''~''" by fastforce
  then have "keeps_char (CHR ''~'')"
    using replaced_alphabet [of x raw] by (simp only: to_lower_tilde)
  then show False using tilde_not_kept by blast
qed

lemma lowered_component_inject:
  assumes a: "derive_component a = Inr m" and b: "derive_component b = Inr n"
    and eq: "map to_lower (as_str m) = map to_lower (as_str n)"
  shows "a = b"
proof -
  let ?enc = "\<lambda>raw. map to_lower (replaced raw) @ CHR ''~'' # concat (map hex_byte raw)"
  have low: "map to_lower (as_str k) = (if canonical raw then raw else ?enc raw)"
    if "derive_component raw = Inr k" for raw k
    using derive_component_Inr(5) [OF that]
    by (auto simp: lowered_canonical lowered_hex to_lower_tilde)
  have "(if canonical a then a else ?enc a) = (if canonical b then b else ?enc b)"
    using eq low [OF a] low [OF b] by simp
  moreover have "a = b" if "?enc a = ?enc b"
    using append_sep_eq [OF that lowered_replaced lowered_replaced] by (simp add: concat_hex_inject)
  moreover have "canonical raw \<Longrightarrow> raw \<noteq> ?enc raw'" for raw raw'
    using lowered_canonical [of raw] by auto
  ultimately show ?thesis by (metis (full_types))
qed

lemma session_filename_inject: "session_filename m = session_filename n \<longleftrightarrow> m = n"
  by (cases m; cases n) (simp add: session_filename_def)

text \<open>Two identities with the same session file are the same identity.\<close>

lemma derived_filename_inject:
  assumes "derive_component a = Inr m" "derive_component b = Inr n"
    and "session_filename m = session_filename n"
  shows "a = b"
  using assms lowered_component_inject [of a m b n] by (simp add: session_filename_inject)

text \<open>
  C1. Different identities never share a file name, not even where the file system ignores
  the case of ASCII letters.
\<close>

theorem derived_names_never_alias:
  assumes "a \<noteq> b" "derive_component a = Inr m" "derive_component b = Inr n"
  shows "map to_lower (session_filename m) \<noteq> map to_lower (session_filename n)"
proof
  assume "map to_lower (session_filename m) = map to_lower (session_filename n)"
  then have "map to_lower (as_str m) = map to_lower (as_str n)"
    by (simp add: session_filename_def)
  with assms show False using lowered_component_inject by blast
qed

theorem derived_names_never_alias_witness:
  "map to_lower (session_filename (DerivedName ''Main~4d61696e''))
   \<noteq> map to_lower (session_filename (DerivedName ''main''))"
  by (rule derived_names_never_alias [of "''Main''" "''main''"]) (simp, code_simp+)

subsection \<open>Containment\<close>

lemma path_join_plain:
  "CHR ''/'' \<notin> set s \<Longrightarrow> s \<noteq> [] \<Longrightarrow> s \<noteq> ''.'' \<Longrightarrow> path_join p s = p @ [s]"
  by (cases s) (auto simp: path_join_def path_is_absolute_def starts_with_def split_on_no_sep Let_def)

lemma join_checked_derived:
  assumes "derive_component raw = Inr n"
  shows "join_checked n p = Inr (p @ [as_str n])"
  using derived_not_dots [OF assms] name_chars_no_slash [OF derived_alphabet [OF assms]]
  by (simp add: join_checked_def Let_def path_join_plain path_parent_def)

text \<open>
  A derived name is one path component: joined below any directory it names a direct
  child of it, so an identity chosen by tmux or by a configuration file cannot leave the
  directory its files belong to; and it is not a dot name and fits the length bound.
\<close>

theorem derived_name_stays_below_parent:
  assumes "derive_component raw = Inr n"
  shows "join_checked n parent = Inr (parent @ [as_str n])
    \<and> as_str n \<notin> {'''', ''.'', ''..''} \<and> list_all name_char (as_str n)
    \<and> length (as_str n) \<le> MAX_COMPONENT_BYTES"
  using derived_not_dots [OF assms] derived_alphabet [OF assms] join_checked_derived [OF assms]
    derive_component_Inr(6) [OF assms] by simp

theorem derived_name_stays_below_parent_witness:
  "join_checked (DerivedName ''my_session_name~6d792f73657373696f6e206e616d65'') [''captures'']
   = Inr [''captures'', ''my_session_name~6d792f73657373696f6e206e616d65'']"
  using derived_name_stays_below_parent
    [of "''my/session name''" "DerivedName ''my_session_name~6d792f73657373696f6e206e616d65''"
      "[''captures'']"]
  by (simp, code_simp)

subsection \<open>Fixed points\<close>

lemma canonical_no_slash: "canonical s \<Longrightarrow> CHR ''/'' \<notin> set s"
  using canonical_chars [of s] by (auto simp: list_all_iff byte_simps)

lemma canonical_no_nul: "canonical s \<Longrightarrow> NUL \<notin> set s"
  using canonical_chars [of s] by (auto simp: list_all_iff byte_simps)

lemma canonical_no_traversal:
  assumes "canonical s" "s \<noteq> []"
  shows "\<not> path_is_absolute s" "\<not> has_traversal s"
proof -
  show "\<not> path_is_absolute s"
    using assms by (auto simp: path_is_absolute_def starts_with_iff canonical_def byte_simps)
  then show "\<not> has_traversal s"
    using assms canonical_not_dots [of s] canonical_no_slash [of s]
    by (simp add: has_traversal_def path_components_def split_on_no_sep)
qed

lemma derive_canonical:
  assumes "canonical s" "s \<noteq> []" "length s \<le> MAX_COMPONENT_BYTES"
  shows "derive_component s = Inr (DerivedName s)"
  using assms canonical_no_traversal [OF assms(1,2)] canonical_no_nul [of s] canonical_chars [of s]
  by (simp add: derive_component_def Let_def replaced_keeps)

lemma derive_fixed_iff:
  "derive_component s = Inr (DerivedName s)
   \<longleftrightarrow> canonical s \<and> s \<noteq> [] \<and> length s \<le> MAX_COMPONENT_BYTES"
proof
  assume fixed: "derive_component s = Inr (DerivedName s)"
  have "canonical s"
  proof (rule ccontr)
    assume "\<not> canonical s"
    with derive_component_Inr(5) [OF fixed]
    have eq: "s = replaced s @ ''~'' @ concat (map hex_byte s)" by simp
    have "length s = length (replaced s @ ''~'' @ concat (map hex_byte s))"
      by (rule arg_cong [OF eq])
    then show False by simp
  qed
  then show "canonical s \<and> s \<noteq> [] \<and> length s \<le> MAX_COMPONENT_BYTES"
    using derive_component_Inr(1,6) [OF fixed] by simp
qed (simp add: derive_canonical)

lemma exact_component_iff:
  "exact_component s = Some n
   \<longleftrightarrow> n = DerivedName s \<and> canonical s \<and> s \<noteq> [] \<and> length s \<le> MAX_COMPONENT_BYTES"
proof -
  have "exact_component s = Some n \<longleftrightarrow> n = DerivedName s \<and> derive_component s = Inr (DerivedName s)"
    by (cases n) (auto simp: exact_component_def split: sum.splits)
  then show ?thesis by (simp add: derive_fixed_iff)
qed

end
