(* ===== verification/Fs.thy ===== *)
theory Fs
  imports Names "HOL-Library.AList"
begin

text \<open>
  The file system under the program: an inode store with injected outcomes. Every system
  call consumes one outcome of a schedule, and fails (a write after storing a prefix of its
  bytes) where the schedule says so, so that a theorem over all worlds covers every failure
  at every point. A computation is a function from a state to a result, \<open>Inl\<close> the error,
  and the state after it; \<open>bindE\<close> is the \<open>?\<close> operator. \<open>wpE\<close> is the weakest
  precondition the component proofs run on, with the rules of each call in \<open>wp_intros\<close>.
\<close>

named_theorems wp_intros \<open>weakest-precondition rules of the system calls\<close>
named_theorems world_simps \<open>observations of an updated world\<close>

subsection \<open>Fallible state-passing computations\<close>

type_synonym ('s, 'e, 'a) comp = "'s \<Rightarrow> ('e + 'a) \<times> 's"

definition returnE :: "'a \<Rightarrow> ('s, 'e, 'a) comp" where
  "returnE x s = (Inr x, s)"

definition throwE :: "'e \<Rightarrow> ('s, 'e, 'a) comp" where
  "throwE e s = (Inl e, s)"

definition bindE :: "('s, 'e, 'a) comp \<Rightarrow> ('a \<Rightarrow> ('s, 'e, 'b) comp) \<Rightarrow> ('s, 'e, 'b) comp" where
  "bindE m f s = (case m s of (Inl e, s') \<Rightarrow> (Inl e, s') | (Inr x, s') \<Rightarrow> f x s')"

definition map_errE :: "('e \<Rightarrow> 'f) \<Rightarrow> ('s, 'e, 'a) comp \<Rightarrow> ('s, 'f, 'a) comp" where
  "map_errE g m s = (case m s of (Inl e, s') \<Rightarrow> (Inl (g e), s') | (Inr x, s') \<Rightarrow> (Inr x, s'))"

text \<open>Running a computation whose error is inspected rather than propagated.\<close>

definition tryE :: "('s, 'e, 'a) comp \<Rightarrow> (('e + 'a) \<Rightarrow> ('s, 'f, 'b) comp) \<Rightarrow> ('s, 'f, 'b) comp" where
  "tryE m f s = (case m s of (r, s') \<Rightarrow> f r s')"

definition getsE :: "('s \<Rightarrow> 'a) \<Rightarrow> ('s, 'e, 'a) comp" where
  "getsE f s = (Inr (f s), s)"

definition modifyE :: "('s \<Rightarrow> 's) \<Rightarrow> ('s, 'e, unit) comp" where
  "modifyE f s = (Inr (), f s)"

fun forE :: "('x \<Rightarrow> ('s, 'e, unit) comp) \<Rightarrow> 'x list \<Rightarrow> ('s, 'e, unit) comp" where
  "forE f [] = returnE ()"
| "forE f (x # xs) = bindE (f x) (\<lambda>_. forE f xs)"

definition wpE ::
  "('s, 'e, 'a) comp \<Rightarrow> ('a \<Rightarrow> 's \<Rightarrow> bool) \<Rightarrow> ('e \<Rightarrow> 's \<Rightarrow> bool) \<Rightarrow> 's \<Rightarrow> bool" where
  "wpE m Q R s = (case m s of (Inr x, s') \<Rightarrow> Q x s' | (Inl e, s') \<Rightarrow> R e s')"

lemma wpE_return [simp]: "wpE (returnE x) Q R = Q x"
  by (simp add: fun_eq_iff wpE_def returnE_def)

lemma wpE_throw [simp]: "wpE (throwE e) Q R = R e"
  by (simp add: fun_eq_iff wpE_def throwE_def)

lemma wpE_bind [simp]: "wpE (bindE m f) Q R = wpE m (\<lambda>x. wpE (f x) Q R) R"
  by (simp add: fun_eq_iff wpE_def bindE_def split: prod.splits sum.splits)

lemma wpE_map_err [simp]: "wpE (map_errE g m) Q R = wpE m Q (\<lambda>e. R (g e))"
  by (simp add: fun_eq_iff wpE_def map_errE_def split: prod.splits sum.splits)

lemma wpE_try [simp]:
  "wpE (tryE m f) Q R = wpE m (\<lambda>x. wpE (f (Inr x)) Q R) (\<lambda>e. wpE (f (Inl e)) Q R)"
  by (simp add: fun_eq_iff wpE_def tryE_def split: prod.splits sum.splits)

lemma wpE_gets [simp]: "wpE (getsE f) Q R = (\<lambda>s. Q (f s) s)"
  by (simp add: fun_eq_iff wpE_def getsE_def)

lemma wpE_modify [simp]: "wpE (modifyE f) Q R = (\<lambda>s. Q () (f s))"
  by (simp add: fun_eq_iff wpE_def modifyE_def)

lemma wpE_mono:
  assumes "wpE m Q R s" "\<And>x t. Q x t \<Longrightarrow> Q' x t" "\<And>e t. R e t \<Longrightarrow> R' e t"
  shows "wpE m Q' R' s"
  using assms by (auto simp: wpE_def split: prod.splits sum.splits)

lemma wpE_conj: "wpE m Q R s \<Longrightarrow> wpE m Q' R' s \<Longrightarrow> wpE m (\<lambda>x t. Q x t \<and> Q' x t) (\<lambda>e t. R e t \<and> R' e t) s"
  by (auto simp: wpE_def split: prod.splits sum.splits)

lemma wpE_run: "wpE m Q R s \<Longrightarrow> m s = (r, t) \<Longrightarrow> (case r of Inr x \<Rightarrow> Q x t | Inl e \<Rightarrow> R e t)"
  by (auto simp: wpE_def split: sum.splits)

lemma wpE_forE:
  assumes step: "\<And>x s. x \<in> set xs \<Longrightarrow> I s \<Longrightarrow> wpE (f x) (\<lambda>_. I) R s" and "I s"
  shows "wpE (forE f xs) (\<lambda>_. I) R s"
  using assms
proof (induction xs arbitrary: s)
  case (Cons x xs)
  have "wpE (f x) (\<lambda>_. wpE (forE f xs) (\<lambda>_. I) R) R s"
    by (rule wpE_mono [OF Cons.prems(1)]) (use Cons in auto)
  then show ?case by simp
qed simp

lemmas comp_defs = returnE_def throwE_def bindE_def map_errE_def tryE_def getsE_def modifyE_def

subsection \<open>The world\<close>

text \<open>\<open>std::io::ErrorKind\<close>, as far as the program tells kinds apart.\<close>

datatype io_error = NotFound | AlreadyExists | LoopLink | IsADirectory | NotADirectory
  | DirectoryNotEmpty | IoOther string

datatype node = NFile nat | NDir nat | NLink path

datatype outcome = Succeed | Fail nat

text \<open>The process-wide fault switch of \<open>storage.rs\<close>, off in production.\<close>

datatype AtomicWriteFault = FailBeforeRename | FailAfterRename

record AtomicWriteFaultState =
  af_fault :: "AtomicWriteFault option"
  af_target :: "path option"
  af_prefix :: "path option"
  af_remaining :: nat

record world =
  w_names :: "(path \<times> node) list"
  w_data :: "(nat \<times> bytes) list"
  w_mode :: "(nat \<times> nat) list"
  w_next :: nat
  w_outcomes :: "outcome list"
  w_pid :: nat
  w_counter :: nat
  w_fault :: AtomicWriteFaultState

type_synonym ('e, 'a) io = "(world, 'e, 'a) comp"

definition node_at :: "world \<Rightarrow> path \<Rightarrow> node option" where
  "node_at w p = map_of (w_names w) p"

definition contents :: "world \<Rightarrow> nat \<Rightarrow> bytes" where
  "contents w i = (case map_of (w_data w) i of None \<Rightarrow> [] | Some b \<Rightarrow> b)"

definition mode_of :: "world \<Rightarrow> nat \<Rightarrow> nat" where
  "mode_of w i = (case map_of (w_mode w) i of None \<Rightarrow> 0 | Some m \<Rightarrow> m)"

text \<open>The bytes of the regular file at a path.\<close>

definition view :: "world \<Rightarrow> path \<Rightarrow> bytes option" where
  "view w p = (case node_at w p of Some (NFile i) \<Rightarrow> Some (contents w i) | _ \<Rightarrow> None)"

definition is_dir :: "world \<Rightarrow> path \<Rightarrow> bool" where
  "is_dir w p \<longleftrightarrow> (case node_at w p of Some (NDir _) \<Rightarrow> True | _ \<Rightarrow> False)"

fun node_ino :: "node \<Rightarrow> nat option" where
  "node_ino (NFile i) = Some i"
| "node_ino (NDir i) = Some i"
| "node_ino (NLink _) = None"

text \<open>Every inode has one name, and inodes to come are fresh.\<close>

definition world_ok :: "world \<Rightarrow> bool" where
  "world_ok w \<longleftrightarrow>
     (\<forall>p n i. node_at w p = Some n \<longrightarrow> node_ino n = Some i \<longrightarrow> i < w_next w
        \<and> (\<forall>q m. node_at w q = Some m \<longrightarrow> node_ino m = Some i \<longrightarrow> p = q))"

text \<open>The same of a concrete world, by evaluation.\<close>

definition world_check :: "world \<Rightarrow> bool" where
  "world_check w \<longleftrightarrow>
     list_all (\<lambda>(p, n). case node_ino n of None \<Rightarrow> True | Some i \<Rightarrow> i < w_next w
       \<and> list_all (\<lambda>(q, m). node_ino m = Some i \<longrightarrow> p = q) (w_names w)) (w_names w)"

lemma world_ok_checked:
  assumes "world_check w"
  shows "world_ok w"
  unfolding world_ok_def
proof (intro allI impI conjI)
  fix p n i assume 1: "node_at w p = Some n" "node_ino n = Some i"
  then have mem: "(p, n) \<in> set (w_names w)" by (simp add: node_at_def map_of_SomeD)
  with 1 assms show "i < w_next w" by (auto simp: world_check_def list_all_iff)
  fix q m assume 2: "node_at w q = Some m" "node_ino m = Some i"
  then have "(q, m) \<in> set (w_names w)" by (simp add: node_at_def map_of_SomeD)
  with 1 2 mem assms show "p = q" by (fastforce simp: world_check_def list_all_iff)
qed

subsection \<open>State changes\<close>

definition tick :: "world \<Rightarrow> world" where
  "tick w = w\<lparr>w_outcomes := tl (w_outcomes w)\<rparr>"

definition outcome_now :: "world \<Rightarrow> outcome" where
  "outcome_now w = (case w_outcomes w of [] \<Rightarrow> Succeed | o1 # _ \<Rightarrow> o1)"

definition put_data :: "nat \<Rightarrow> bytes \<Rightarrow> world \<Rightarrow> world" where
  "put_data i b w = w\<lparr>w_data := AList.update i b (w_data w)\<rparr>"

definition put_mode :: "nat \<Rightarrow> nat \<Rightarrow> world \<Rightarrow> world" where
  "put_mode i m w = w\<lparr>w_mode := AList.update i m (w_mode w)\<rparr>"

definition put_node :: "path \<Rightarrow> node \<Rightarrow> world \<Rightarrow> world" where
  "put_node p n w = w\<lparr>w_names := AList.update p n (w_names w)\<rparr>"

definition del_node :: "path \<Rightarrow> world \<Rightarrow> world" where
  "del_node p w = w\<lparr>w_names := AList.delete p (w_names w)\<rparr>"

definition new_file :: "path \<Rightarrow> world \<Rightarrow> world" where
  "new_file p w = w\<lparr>w_names := AList.update p (NFile (w_next w)) (w_names w),
     w_data := AList.update (w_next w) [] (w_data w), w_next := Suc (w_next w)\<rparr>"

definition new_dir :: "path \<Rightarrow> world \<Rightarrow> world" where
  "new_dir p w = w\<lparr>w_names := AList.update p (NDir (w_next w)) (w_names w), w_next := Suc (w_next w)\<rparr>"

text \<open>Renaming moves everything below the old name.\<close>

definition under :: "path \<Rightarrow> path \<Rightarrow> bool" where
  "under d p \<longleftrightarrow> take (length d) p = d"

definition move_path :: "path \<Rightarrow> path \<Rightarrow> path \<Rightarrow> path" where
  "move_path p q x = (if under p x then q @ drop (length p) x else x)"

definition move_tree :: "path \<Rightarrow> path \<Rightarrow> world \<Rightarrow> world" where
  "move_tree p q w = w\<lparr>w_names := map (\<lambda>(x, n). (move_path p q x, n)) (AList.delete q (w_names w))\<rparr>"

subsection \<open>System calls\<close>

definition EIO :: io_error where "EIO = IoOther ''Input/output error''"

definition sys :: "(nat \<Rightarrow> world \<Rightarrow> world) \<Rightarrow> (io_error, 'a) io \<Rightarrow> (io_error, 'a) io" where
  "sys damage m w =
     (case outcome_now w of
        Fail k \<Rightarrow> (Inl EIO, damage k (tick w))
      | Succeed \<Rightarrow> m (tick w))"

abbreviation syscall :: "(io_error, 'a) io \<Rightarrow> (io_error, 'a) io" where
  "syscall \<equiv> sys (\<lambda>_ w. w)"

definition fs_lstat :: "path \<Rightarrow> (io_error, node) io" where
  "fs_lstat p = syscall (\<lambda>w. case node_at w p of None \<Rightarrow> (Inl NotFound, w) | Some n \<Rightarrow> (Inr n, w))"

text \<open>\<open>O_CREAT | O_RDWR | O_NOFOLLOW\<close>\<close>

definition fs_open_create :: "path \<Rightarrow> (io_error, nat) io" where
  "fs_open_create p = syscall (\<lambda>w.
     case node_at w p of
       Some (NFile i) \<Rightarrow> (Inr i, w)
     | Some (NDir _) \<Rightarrow> (Inl IsADirectory, w)
     | Some (NLink _) \<Rightarrow> (Inl LoopLink, w)
     | None \<Rightarrow> if is_dir w (butlast p) then (Inr (w_next w), new_file p w) else (Inl NotFound, w))"

text \<open>\<open>O_CREAT | O_EXCL | O_WRONLY | O_NOFOLLOW\<close>\<close>

definition fs_open_excl :: "path \<Rightarrow> (io_error, nat) io" where
  "fs_open_excl p = syscall (\<lambda>w.
     if node_at w p \<noteq> None then (Inl AlreadyExists, w)
     else if is_dir w (butlast p) then (Inr (w_next w), new_file p w) else (Inl NotFound, w))"

text \<open>\<open>O_RDONLY | O_NOFOLLOW\<close>: a directory opens too.\<close>

definition fs_open_read :: "path \<Rightarrow> (io_error, node) io" where
  "fs_open_read p = syscall (\<lambda>w.
     case node_at w p of
       None \<Rightarrow> (Inl NotFound, w)
     | Some (NLink _) \<Rightarrow> (Inl LoopLink, w)
     | Some n \<Rightarrow> (Inr n, w))"

text \<open>Resolution of symbolic links, at most forty in a row.\<close>

primrec resolve :: "nat \<Rightarrow> world \<Rightarrow> path \<Rightarrow> io_error + node" where
  "resolve 0 w p = Inl LoopLink"
| "resolve (Suc n) w p =
     (case node_at w p of
        None \<Rightarrow> Inl NotFound
      | Some (NLink q) \<Rightarrow> resolve n w q
      | Some m \<Rightarrow> Inr m)"

text \<open>\<open>fs::read\<close>\<close>

definition fs_read :: "path \<Rightarrow> (io_error, bytes) io" where
  "fs_read p = syscall (\<lambda>w.
     case resolve 40 w p of
       Inl e \<Rightarrow> (Inl e, w)
     | Inr (NFile i) \<Rightarrow> (Inr (contents w i), w)
     | Inr _ \<Rightarrow> (Inl IsADirectory, w))"

definition fs_read_fd :: "nat \<Rightarrow> (io_error, bytes) io" where
  "fs_read_fd i = syscall (\<lambda>w. (Inr (contents w i), w))"

definition fs_len :: "nat \<Rightarrow> (io_error, nat) io" where
  "fs_len i = syscall (\<lambda>w. (Inr (length (contents w i)), w))"

definition overwrite :: "nat \<Rightarrow> bytes \<Rightarrow> bytes \<Rightarrow> bytes" where
  "overwrite off new old =
     take off old @ replicate (off - length old) NUL @ new @ drop (off + length new) old"

text \<open>\<open>write_all\<close> at the cursor \<open>off\<close>; a failure may leave a prefix behind.\<close>

definition fs_write :: "nat \<Rightarrow> nat \<Rightarrow> bytes \<Rightarrow> (io_error, unit) io" where
  "fs_write i off b =
     sys (\<lambda>k w. put_data i (overwrite off (take k b) (contents w i)) w)
       (\<lambda>w. (Inr (), put_data i (overwrite off b (contents w i)) w))"

definition resize :: "nat \<Rightarrow> bytes \<Rightarrow> bytes" where
  "resize n b = take n b @ replicate (n - length b) NUL"

definition fs_set_len :: "nat \<Rightarrow> nat \<Rightarrow> (io_error, unit) io" where
  "fs_set_len i n = syscall (\<lambda>w. (Inr (), put_data i (resize n (contents w i)) w))"

definition fs_chmod_fd :: "nat \<Rightarrow> nat \<Rightarrow> (io_error, unit) io" where
  "fs_chmod_fd i m = syscall (\<lambda>w. (Inr (), put_mode i m w))"

definition fs_chmod :: "path \<Rightarrow> nat \<Rightarrow> (io_error, unit) io" where
  "fs_chmod p m = syscall (\<lambda>w.
     case resolve 40 w p of
       Inl e \<Rightarrow> (Inl e, w)
     | Inr n \<Rightarrow> (case node_ino n of None \<Rightarrow> (Inl NotFound, w) | Some i \<Rightarrow> (Inr (), put_mode i m w)))"

text \<open>\<open>fsync\<close> and \<open>lseek\<close> change nothing the model observes.\<close>

definition fs_fsync :: "(io_error, unit) io" where
  "fs_fsync = syscall (\<lambda>w. (Inr (), w))"

definition fs_seek :: "(io_error, unit) io" where
  "fs_seek = syscall (\<lambda>w. (Inr (), w))"

definition fs_open_dir :: "path \<Rightarrow> (io_error, unit) io" where
  "fs_open_dir p = syscall (\<lambda>w.
     case node_at w p of
       None \<Rightarrow> (Inl NotFound, w)
     | Some (NDir _) \<Rightarrow> (Inr (), w)
     | Some (NLink _) \<Rightarrow> (Inl LoopLink, w)
     | Some (NFile _) \<Rightarrow> (Inl NotADirectory, w))"

text \<open>\<open>File::open\<close> of a path that is then only synced.\<close>

definition fs_open_any :: "path \<Rightarrow> (io_error, unit) io" where
  "fs_open_any p = syscall (\<lambda>w. case resolve 40 w p of Inl e \<Rightarrow> (Inl e, w) | Inr _ \<Rightarrow> (Inr (), w))"

definition has_children :: "world \<Rightarrow> path \<Rightarrow> bool" where
  "has_children w d \<longleftrightarrow> list_ex (\<lambda>(x, _). x \<noteq> [] \<and> butlast x = d) (w_names w)"

definition fs_rename :: "path \<Rightarrow> path \<Rightarrow> (io_error, unit) io" where
  "fs_rename p q = syscall (\<lambda>w.
     case node_at w p of
       None \<Rightarrow> (Inl NotFound, w)
     | Some n \<Rightarrow>
         if \<not> is_dir w (butlast q) then (Inl NotFound, w)
         else if p = q then (Inr (), w)
         else (case (n, node_at w q) of
             (NDir _, Some (NDir _)) \<Rightarrow>
               if has_children w q then (Inl DirectoryNotEmpty, w) else (Inr (), move_tree p q w)
           | (NDir _, Some _) \<Rightarrow> (Inl NotADirectory, w)
           | (NDir _, None) \<Rightarrow>
               if under p q then (Inl (IoOther ''Invalid argument''), w) else (Inr (), move_tree p q w)
           | (_, Some (NDir _)) \<Rightarrow> (Inl IsADirectory, w)
           | (_, _) \<Rightarrow> (Inr (), put_node q n (del_node p w))))"

definition fs_remove_file :: "path \<Rightarrow> (io_error, unit) io" where
  "fs_remove_file p = syscall (\<lambda>w.
     case node_at w p of
       None \<Rightarrow> (Inl NotFound, w)
     | Some (NDir _) \<Rightarrow> (Inl IsADirectory, w)
     | Some _ \<Rightarrow> (Inr (), del_node p w))"

definition fs_remove_dir :: "path \<Rightarrow> (io_error, unit) io" where
  "fs_remove_dir p = syscall (\<lambda>w.
     case node_at w p of
       None \<Rightarrow> (Inl NotFound, w)
     | Some (NDir _) \<Rightarrow>
         if has_children w p then (Inl DirectoryNotEmpty, w) else (Inr (), del_node p w)
     | Some _ \<Rightarrow> (Inl NotADirectory, w))"

definition fs_create_dir :: "path \<Rightarrow> (io_error, unit) io" where
  "fs_create_dir p = syscall (\<lambda>w.
     if node_at w p \<noteq> None then (Inl AlreadyExists, w)
     else if is_dir w (butlast p) then (Inr (), new_dir p w) else (Inl NotFound, w))"

definition dir_entries :: "world \<Rightarrow> path \<Rightarrow> (string \<times> node) list" where
  "dir_entries w d =
     map (\<lambda>(x, n). (last x, n)) (filter (\<lambda>(x, _). x \<noteq> [] \<and> butlast x = d) (w_names w))"

text \<open>\<open>fs::read_dir\<close>: the entries in the order of the directory.\<close>

definition fs_read_dir :: "path \<Rightarrow> (io_error, (string \<times> node) list) io" where
  "fs_read_dir p = syscall (\<lambda>w.
     case resolve 40 w p of
       Inl e \<Rightarrow> (Inl e, w)
     | Inr (NDir _) \<Rightarrow> (Inr (dir_entries w p), w)
     | Inr _ \<Rightarrow> (Inl NotADirectory, w))"

subsection \<open>Observing an updated world\<close>

lemma tick_obs [world_simps]:
  "node_at (tick w) = node_at w" "contents (tick w) = contents w" "mode_of (tick w) = mode_of w"
  "view (tick w) = view w" "is_dir (tick w) = is_dir w" "world_ok (tick w) = world_ok w"
  "w_next (tick w) = w_next w" "w_names (tick w) = w_names w" "w_counter (tick w) = w_counter w"
  "w_pid (tick w) = w_pid w" "w_fault (tick w) = w_fault w"
  by (auto simp: tick_def node_at_def contents_def mode_of_def view_def is_dir_def world_ok_def
      fun_eq_iff split: option.splits node.splits)

lemma resolve_tick [world_simps]: "resolve n (tick w) p = resolve n w p"
  by (induction n arbitrary: p) (auto simp: world_simps split: option.splits node.splits)

lemma put_data_obs [world_simps]:
  "node_at (put_data i b w) = node_at w" "mode_of (put_data i b w) = mode_of w"
  "contents (put_data i b w) = (contents w)(i := b)"
  "is_dir (put_data i b w) = is_dir w" "world_ok (put_data i b w) = world_ok w"
  "w_next (put_data i b w) = w_next w" "w_counter (put_data i b w) = w_counter w"
  "w_pid (put_data i b w) = w_pid w" "w_fault (put_data i b w) = w_fault w"
  by (auto simp: put_data_def node_at_def contents_def mode_of_def is_dir_def world_ok_def
      fun_eq_iff update_conv')

lemma put_mode_obs [world_simps]:
  "node_at (put_mode i m w) = node_at w" "contents (put_mode i m w) = contents w"
  "mode_of (put_mode i m w) = (mode_of w)(i := m)"
  "view (put_mode i m w) = view w" "is_dir (put_mode i m w) = is_dir w"
  "world_ok (put_mode i m w) = world_ok w" "w_next (put_mode i m w) = w_next w"
  "w_counter (put_mode i m w) = w_counter w" "w_pid (put_mode i m w) = w_pid w"
  "w_fault (put_mode i m w) = w_fault w"
  by (auto simp: put_mode_def node_at_def contents_def mode_of_def view_def is_dir_def world_ok_def
      fun_eq_iff update_conv' split: option.splits node.splits)

lemma put_node_obs [world_simps]:
  "node_at (put_node p n w) = (node_at w)(p \<mapsto> n)" "contents (put_node p n w) = contents w"
  "mode_of (put_node p n w) = mode_of w" "w_next (put_node p n w) = w_next w"
  "w_counter (put_node p n w) = w_counter w" "w_pid (put_node p n w) = w_pid w"
  "w_fault (put_node p n w) = w_fault w"
  by (auto simp: put_node_def node_at_def contents_def mode_of_def fun_eq_iff update_conv')

lemma del_node_obs [world_simps]:
  "node_at (del_node p w) = (node_at w)(p := None)" "contents (del_node p w) = contents w"
  "mode_of (del_node p w) = mode_of w" "w_next (del_node p w) = w_next w"
  "w_counter (del_node p w) = w_counter w" "w_pid (del_node p w) = w_pid w"
  "w_fault (del_node p w) = w_fault w"
  by (auto simp: del_node_def node_at_def contents_def mode_of_def fun_eq_iff delete_conv')

lemma new_file_obs [world_simps]:
  "node_at (new_file p w) = (node_at w)(p \<mapsto> NFile (w_next w))"
  "contents (new_file p w) = (contents w)(w_next w := [])"
  "mode_of (new_file p w) = mode_of w" "w_next (new_file p w) = Suc (w_next w)"
  "w_counter (new_file p w) = w_counter w" "w_pid (new_file p w) = w_pid w"
  "w_fault (new_file p w) = w_fault w"
  by (auto simp: new_file_def node_at_def contents_def mode_of_def fun_eq_iff update_conv')

lemma new_dir_obs [world_simps]:
  "node_at (new_dir p w) = (node_at w)(p \<mapsto> NDir (w_next w))" "contents (new_dir p w) = contents w"
  "mode_of (new_dir p w) = mode_of w" "w_next (new_dir p w) = Suc (w_next w)"
  "w_counter (new_dir p w) = w_counter w" "w_pid (new_dir p w) = w_pid w"
  "w_fault (new_dir p w) = w_fault w"
  by (auto simp: new_dir_def node_at_def contents_def mode_of_def fun_eq_iff update_conv')

text \<open>Well-formedness and file contents after each change.\<close>

lemma world_okD:
  "world_ok w \<Longrightarrow> node_at w p = Some n \<Longrightarrow> node_ino n = Some i \<Longrightarrow> i < w_next w"
  "world_ok w \<Longrightarrow> node_at w p = Some n \<Longrightarrow> node_ino n = Some i
   \<Longrightarrow> node_at w q = Some m \<Longrightarrow> node_ino m = Some i \<Longrightarrow> p = q"
  by (auto simp: world_ok_def)

lemma view_put_data:
  assumes ok: "world_ok w" and p: "node_at w p = Some (NFile i)"
  shows "view (put_data i b w) = (view w)(p \<mapsto> b)"
proof
  fix x
  have "x = p" if "node_at w x = Some (NFile i)"
    by (rule world_okD(2) [OF ok that _ p]) simp_all
  with p show "view (put_data i b w) x = ((view w)(p \<mapsto> b)) x"
    unfolding view_def put_data_obs by (cases "x = p") (auto split: option.split node.split)
qed

lemma view_new_file:
  assumes ok: "world_ok w"
  shows "view (new_file p w) = (view w)(p \<mapsto> [])"
proof
  fix x
  have "i \<noteq> w_next w" if "node_at w x = Some (NFile i)" for i
    using world_okD(1) [OF ok that] by auto
  then show "view (new_file p w) x = ((view w)(p \<mapsto> [])) x"
    unfolding view_def new_file_obs by (cases "x = p") (auto split: option.split node.split)
qed

lemma view_new_dir: "view (new_dir p w) = (view w)(p := None)"
  by (auto simp: fun_eq_iff view_def world_simps split: option.splits node.splits)

lemma view_del_node: "view (del_node p w) = (view w)(p := None)"
  by (auto simp: fun_eq_iff view_def world_simps split: option.splits node.splits)

lemma view_put_file: "view (put_node p (NFile i) w) = (view w)(p \<mapsto> contents w i)"
  by (auto simp: fun_eq_iff view_def world_simps split: option.splits node.splits)

lemma is_dir_new_file: "is_dir (new_file p w) = (is_dir w)(p := False)"
  by (auto simp: fun_eq_iff is_dir_def world_simps split: option.splits node.splits)

lemma is_dir_del_node: "is_dir (del_node p w) = (is_dir w)(p := False)"
  by (auto simp: fun_eq_iff is_dir_def world_simps split: option.splits node.splits)

lemma is_dir_new_dir: "is_dir (new_dir p w) = (is_dir w)(p := True)"
  by (auto simp: fun_eq_iff is_dir_def world_simps split: option.splits node.splits)

lemma is_dir_put_file: "is_dir (put_node p (NFile i) w) = (is_dir w)(p := False)"
  by (auto simp: fun_eq_iff is_dir_def world_simps split: option.splits node.splits)

lemma world_ok_new_file: "world_ok w \<Longrightarrow> world_ok (new_file p w)"
  by (auto simp: world_ok_def world_simps less_Suc_eq)

lemma world_ok_new_dir: "world_ok w \<Longrightarrow> world_ok (new_dir p w)"
  by (auto simp: world_ok_def world_simps less_Suc_eq)

lemma world_ok_del_node: "world_ok w \<Longrightarrow> world_ok (del_node p w)"
  by (auto simp: world_ok_def world_simps)

lemma world_ok_rename:
  "world_ok w \<Longrightarrow> node_at w p = Some n \<Longrightarrow> world_ok (put_node q n (del_node p w))"
  unfolding world_ok_def by (auto simp: world_simps)

lemma view_SomeD: "view w p = Some b \<Longrightarrow> \<exists>i. node_at w p = Some (NFile i) \<and> contents w i = b"
  by (auto simp: view_def split: option.splits node.splits)

lemma view_file: "node_at w p = Some (NFile i) \<Longrightarrow> view w p = Some (contents w i)"
  by (simp add: view_def)

lemmas world_upd = view_new_file view_new_dir view_del_node view_put_file is_dir_new_file
  is_dir_del_node is_dir_new_dir is_dir_put_file world_ok_new_file world_ok_new_dir
  world_ok_del_node

subsection \<open>Rules of the system calls\<close>

lemma wp_sys:
  "(\<And>k. R EIO (damage k (tick w))) \<Longrightarrow> wpE m Q R (tick w) \<Longrightarrow> wpE (sys damage m) Q R w"
  by (auto simp: wpE_def sys_def split: outcome.splits)

lemma wp_lstat [wp_intros]:
  assumes "R EIO (tick w)" "node_at w p = None \<Longrightarrow> R NotFound (tick w)"
    "\<And>n. node_at w p = Some n \<Longrightarrow> Q n (tick w)"
  shows "wpE (fs_lstat p) Q R w"
  unfolding fs_lstat_def
  by (rule wp_sys) (use assms in \<open>auto simp: wpE_def world_simps split: option.splits\<close>)

lemma wp_open_create [wp_intros]:
  assumes "\<And>e. R e (tick w)"
    "\<And>i. node_at w p = Some (NFile i) \<Longrightarrow> Q i (tick w)"
    "node_at w p = None \<Longrightarrow> is_dir w (butlast p) \<Longrightarrow> Q (w_next w) (new_file p (tick w))"
  shows "wpE (fs_open_create p) Q R w"
  unfolding fs_open_create_def
  by (rule wp_sys) (use assms in \<open>auto simp: wpE_def world_simps split: option.splits node.splits\<close>)

lemma wp_open_excl [wp_intros]:
  assumes "\<And>e. R e (tick w)"
    "node_at w p = None \<Longrightarrow> is_dir w (butlast p) \<Longrightarrow> Q (w_next w) (new_file p (tick w))"
  shows "wpE (fs_open_excl p) Q R w"
  unfolding fs_open_excl_def
  by (rule wp_sys) (use assms in \<open>auto simp: wpE_def world_simps split: option.splits node.splits\<close>)

lemma wp_open_read [wp_intros]:
  assumes "R EIO (tick w)" "node_at w p = None \<Longrightarrow> R NotFound (tick w)"
    "\<And>q. node_at w p = Some (NLink q) \<Longrightarrow> R LoopLink (tick w)"
    "\<And>n. node_at w p = Some n \<Longrightarrow> (\<forall>q. n \<noteq> NLink q) \<Longrightarrow> Q n (tick w)"
  shows "wpE (fs_open_read p) Q R w"
  unfolding fs_open_read_def
  by (rule wp_sys) (use assms in \<open>auto simp: wpE_def world_simps split: option.splits node.splits\<close>)

lemma wp_read [wp_intros]:
  assumes "\<And>e. R e (tick w)" "\<And>i. resolve 40 w p = Inr (NFile i) \<Longrightarrow> Q (contents w i) (tick w)"
  shows "wpE (fs_read p) Q R w"
  unfolding fs_read_def
  by (rule wp_sys) (use assms in \<open>auto simp: wpE_def world_simps split: sum.splits node.splits\<close>)

lemma wp_read_fd [wp_intros]:
  assumes "R EIO (tick w)" "Q (contents w i) (tick w)"
  shows "wpE (fs_read_fd i) Q R w"
  unfolding fs_read_fd_def by (rule wp_sys) (use assms in \<open>auto simp: wpE_def world_simps\<close>)

lemma wp_len [wp_intros]:
  assumes "R EIO (tick w)" "Q (length (contents w i)) (tick w)"
  shows "wpE (fs_len i) Q R w"
  unfolding fs_len_def by (rule wp_sys) (use assms in \<open>auto simp: wpE_def world_simps\<close>)

lemma wp_write [wp_intros]:
  assumes "\<And>k. R EIO (put_data i (overwrite off (take k b) (contents w i)) (tick w))"
    "Q () (put_data i (overwrite off b (contents w i)) (tick w))"
  shows "wpE (fs_write i off b) Q R w"
  unfolding fs_write_def by (rule wp_sys) (use assms in \<open>auto simp: wpE_def world_simps\<close>)

lemma wp_set_len [wp_intros]:
  assumes "R EIO (tick w)" "Q () (put_data i (resize n (contents w i)) (tick w))"
  shows "wpE (fs_set_len i n) Q R w"
  unfolding fs_set_len_def by (rule wp_sys) (use assms in \<open>auto simp: wpE_def world_simps\<close>)

lemma wp_chmod_fd [wp_intros]:
  assumes "R EIO (tick w)" "Q () (put_mode i m (tick w))"
  shows "wpE (fs_chmod_fd i m) Q R w"
  unfolding fs_chmod_fd_def by (rule wp_sys) (use assms in \<open>auto simp: wpE_def world_simps\<close>)

lemma wp_chmod [wp_intros]:
  assumes "\<And>e. R e (tick w)"
    "\<And>n i. resolve 40 w p = Inr n \<Longrightarrow> node_ino n = Some i \<Longrightarrow> Q () (put_mode i m (tick w))"
  shows "wpE (fs_chmod p m) Q R w"
  unfolding fs_chmod_def
  by (rule wp_sys) (use assms in \<open>auto simp: wpE_def world_simps split: sum.splits option.splits\<close>)

lemma wp_fsync [wp_intros]: "R EIO (tick w) \<Longrightarrow> Q () (tick w) \<Longrightarrow> wpE fs_fsync Q R w"
  unfolding fs_fsync_def by (rule wp_sys) (auto simp: wpE_def)

lemma wp_seek [wp_intros]: "R EIO (tick w) \<Longrightarrow> Q () (tick w) \<Longrightarrow> wpE fs_seek Q R w"
  unfolding fs_seek_def by (rule wp_sys) (auto simp: wpE_def)

lemma wp_open_dir [wp_intros]:
  assumes "\<And>e. R e (tick w)" "is_dir w p \<Longrightarrow> Q () (tick w)"
  shows "wpE (fs_open_dir p) Q R w"
  unfolding fs_open_dir_def
  by (rule wp_sys)
    (use assms in \<open>auto simp: wpE_def world_simps is_dir_def split: option.splits node.splits\<close>)

lemma wp_open_any [wp_intros]:
  assumes "\<And>e. R e (tick w)" "Q () (tick w)"
  shows "wpE (fs_open_any p) Q R w"
  unfolding fs_open_any_def
  by (rule wp_sys) (use assms in \<open>auto simp: wpE_def world_simps split: sum.splits\<close>)

lemma wp_remove_file [wp_intros]:
  assumes "\<And>e. R e (tick w)"
    "node_at w p \<noteq> None \<Longrightarrow> \<not> is_dir w p \<Longrightarrow> Q () (del_node p (tick w))"
  shows "wpE (fs_remove_file p) Q R w"
  unfolding fs_remove_file_def
  by (rule wp_sys)
    (use assms in \<open>auto simp: wpE_def world_simps is_dir_def split: option.splits node.splits\<close>)

lemma wp_remove_dir [wp_intros]:
  assumes "\<And>e. R e (tick w)"
    "is_dir w p \<Longrightarrow> \<not> has_children w p \<Longrightarrow> Q () (del_node p (tick w))"
  shows "wpE (fs_remove_dir p) Q R w"
  unfolding fs_remove_dir_def
  by (rule wp_sys)
    (use assms in \<open>auto simp: wpE_def world_simps is_dir_def has_children_def
       split: option.splits node.splits\<close>)

lemma wp_create_dir [wp_intros]:
  assumes "\<And>e. R e (tick w)"
    "node_at w p = None \<Longrightarrow> is_dir w (butlast p) \<Longrightarrow> Q () (new_dir p (tick w))"
  shows "wpE (fs_create_dir p) Q R w"
  unfolding fs_create_dir_def by (rule wp_sys) (use assms in \<open>auto simp: wpE_def world_simps\<close>)

text \<open>Renaming a regular file over a path that holds no directory.\<close>

lemma wp_rename_file:
  assumes "\<And>e. R e (tick w)" "node_at w p = Some (NFile i)" "p \<noteq> q"
    "is_dir w (butlast q) \<Longrightarrow> \<not> is_dir w q \<Longrightarrow> Q () (put_node q (NFile i) (del_node p (tick w)))"
  shows "wpE (fs_rename p q) Q R w"
  unfolding fs_rename_def
  by (rule wp_sys)
    (use assms in \<open>auto simp: wpE_def world_simps is_dir_def split: option.splits node.splits\<close>)

lemma wp_rename_dir:
  assumes "\<And>e. R e (tick w)" "node_at w p = Some (NDir i)" "p \<noteq> q"
    "is_dir w (butlast q) \<Longrightarrow> node_at w q = None \<or> (is_dir w q \<and> \<not> has_children w q)
      \<Longrightarrow> Q () (move_tree p q (tick w))"
  shows "wpE (fs_rename p q) Q R w"
  unfolding fs_rename_def
  by (rule wp_sys)
    (use assms in \<open>auto simp: wpE_def world_simps is_dir_def has_children_def
       split: option.splits node.splits\<close>)

subsection \<open>Moving a directory\<close>

lemma map_of_map_key:
  "inj_on f (insert k (fst ` set xs)) \<Longrightarrow> map_of (map (\<lambda>(x, n). (f x, n)) xs) (f k) = map_of xs k"
proof (induction xs)
  case (Cons a xs)
  obtain x n where a: "a = (x, n)" by fastforce
  have "inj_on f (insert k (fst ` set xs))" by (rule inj_on_subset [OF Cons.prems]) auto
  moreover have "f x = f k \<longleftrightarrow> x = k" using Cons.prems a by (auto simp: inj_on_def)
  ultimately show ?case using Cons.IH a by auto
qed simp

lemma under_append: "under d x \<longleftrightarrow> (\<exists>r. x = d @ r)"
  by (auto simp: under_def) (metis append_take_drop_id)

text \<open>Moving \<open>p\<close> to a free sibling \<open>q\<close>.\<close>

lemma node_at_move_tree:
  assumes free: "\<And>r. node_at w (q @ r) = None" and len: "length p = length q" and neq: "p \<noteq> q"
  shows "node_at (move_tree p q w) x =
    (if under q x then node_at w (p @ drop (length q) x) else if under p x then None else node_at w x)"
proof -
  let ?f = "move_path p q" and ?xs = "AList.delete q (w_names w)"
  have mo: "map_of ?xs y = node_at w y" for y
    using free [of "[]"] by (simp add: node_at_def delete_conv' fun_upd_idem)
  have keys: "\<not> under q k" if "k \<in> fst ` set ?xs" for k
  proof
    assume "under q k"
    then obtain r where "k = q @ r" by (auto simp: under_append)
    then have "map_of ?xs k = None" using mo free by simp
    with that show False by (simp add: map_of_eq_None_iff)
  qed
  have inj: "inj_on ?f {x. \<not> under q x}"
    by (auto simp: inj_on_def move_path_def under_append split: if_splits)
  have look: "node_at (move_tree p q w) (?f k) = node_at w k" if "\<not> under q k" for k
  proof -
    have "inj_on ?f (insert k (fst ` set ?xs))"
      by (rule inj_on_subset [OF inj]) (use that keys in auto)
    then show ?thesis
      using map_of_map_key [of ?f k ?xs] mo by (simp add: node_at_def move_tree_def)
  qed
  have disjoint: "\<not> under q (p @ r)" for r
    using len neq by (auto simp: under_append append_eq_append_conv)
  consider (new) r where "x = q @ r" | (old) "under p x" "\<not> under q x" | (other) "\<not> under p x" "\<not> under q x"
    by (auto simp: under_append)
  then show ?thesis
  proof cases
    case new
    have "?f (p @ r) = q @ r" by (simp add: move_path_def under_def)
    with look [OF disjoint [of r]] new show ?thesis by (auto simp: under_append)
  next
    case old
    have "x \<notin> ?f ` fst ` set ?xs"
      using old by (auto simp: move_path_def under_append split: if_splits)
    then have "map_of (map (\<lambda>(x, n). (?f x, n)) ?xs) x = None"
      by (auto simp: map_of_eq_None_iff image_image case_prod_beta)
    with old show ?thesis by (simp add: node_at_def move_tree_def)
  next
    case other
    then have "?f x = x" by (simp add: move_path_def)
    with look [of x] other show ?thesis by simp
  qed
qed

lemma contents_move_tree [world_simps]: "contents (move_tree p q w) = contents w"
  "mode_of (move_tree p q w) = mode_of w" "w_next (move_tree p q w) = w_next w"
  by (simp_all add: move_tree_def contents_def mode_of_def fun_eq_iff)

lemma view_move_tree:
  assumes "\<And>r. node_at w (q @ r) = None" "length p = length q" "p \<noteq> q"
  shows "view (move_tree p q w) (q @ r) = view w (p @ r)"
    "\<not> under p x \<Longrightarrow> \<not> under q x \<Longrightarrow> view (move_tree p q w) x = view w x"
  using node_at_move_tree [OF assms]
  by (auto simp: view_def world_simps under_append split: option.split node.split)

lemma world_ok_move_tree:
  assumes ok: "world_ok w" and m: "\<And>r. node_at w (q @ r) = None" "length p = length q" "p \<noteq> q"
  shows "world_ok (move_tree p q w)"
proof -
  note look = node_at_move_tree [OF m]
  define g where "g x = (if under q x then p @ drop (length q) x else x)" for x
  have g: "node_at w (g x) = Some n" if "node_at (move_tree p q w) x = Some n" for x n
    using that by (auto simp: look g_def split: if_splits)
  have inj: "x = y" if "g x = g y" "node_at (move_tree p q w) x \<noteq> None" "node_at (move_tree p q w) y \<noteq> None" for x y
    using that by (auto simp: look g_def under_append split: if_splits)
  show ?thesis
    unfolding world_ok_def
  proof (intro allI impI conjI)
    fix x n i assume x: "node_at (move_tree p q w) x = Some n" "node_ino n = Some i"
    show "i < w_next (move_tree p q w)" using world_okD(1) [OF ok g [OF x(1)] x(2)] by (simp add: world_simps)
    fix y m assume y: "node_at (move_tree p q w) y = Some m" "node_ino m = Some i"
    have "g x = g y" by (rule world_okD(2) [OF ok g [OF x(1)] x(2) g [OF y(1)] y(2)])
    then show "x = y" using inj x y by simp
  qed
qed

end
