(* ===== verification/Storage.thy ===== *)
theory Storage
  imports Fs
begin

text \<open>
  The durable storage of a segment (\<open>src/storage.rs\<close>): its metadata, the atomic
  replacement of a file, and \<open>FileStorage\<close>, whose \<open>append_frame\<close> either makes a frame and
  the metadata naming it durable together, or rolls both back, or says that it could not.
  JSON encoding is a parameter (\<open>serde_json\<close>).
\<close>

subsection \<open>Ordered maps\<close>

text \<open>A \<open>BTreeMap\<close> keyed by strings: its entries in key order.\<close>

fun bt_insert :: "string \<Rightarrow> 'v \<Rightarrow> (string \<times> 'v) list \<Rightarrow> (string \<times> 'v) list" where
  "bt_insert k v [] = [(k, v)]"
| "bt_insert k v ((k', v') # r) =
     (if k = k' then (k, v) # r
      else if k < k' then (k, v) # (k', v') # r
      else (k', v') # bt_insert k v r)"

lemma map_of_bt_insert [simp]: "map_of (bt_insert k v m) = (map_of m)(k \<mapsto> v)"
  by (induction m) (auto simp: fun_eq_iff)

lemma set_bt_insert: "set (bt_insert k v m) \<subseteq> insert (k, v) (set m)"
  by (induction m) (auto split: if_splits)

subsection \<open>Metadata\<close>

datatype MetadataLifecycle = Creating | Open | Finalizing

record SessionMetadata =
  sm_session :: string
  sm_filename :: string
  sm_last_frame_id :: nat
  sm_durable_offset :: nat

record SegmentMetadata =
  schema_version :: nat
  lifecycle :: MetadataLifecycle
  incomplete_name :: string
  finalized_dir :: string
  start_wall_unix_nanos :: int
  local_offset_seconds :: int
  md_tz :: "string option"
  elapsed_nanos :: nat
  last_durable_frame_id :: nat
  durable_frame_count :: nat
  has_durable_frames :: bool
  activity_durable_offset :: nat
  sessions :: "(string \<times> SessionMetadata) list"

definition SCHEMA_VERSION :: nat where "SCHEMA_VERSION = 1"

record CaptureTime =
  ct_tz :: "string option"
  utc_offset_seconds :: int

datatype CaptureTimeLoad = CtAbsent | CtPresent CaptureTime | CtUnreadable

datatype StorageError =
    SerializeError string
  | InvalidTarget path
  | OffsetMismatch path (expected_offset: nat) (actual_offset: nat)
  | StorageIo (io_stage: string) path io_error
  | Recoverable StorageError
  | Poisoned (operation: StorageError) (rollback_error: StorageError)
  | RollbackGroup "StorageError option" "StorageError option"

fun is_poisoned_error :: "StorageError \<Rightarrow> bool" where
  "is_poisoned_error (Poisoned _ _) = True"
| "is_poisoned_error _ = False"

fun is_recoverable :: "StorageError \<Rightarrow> bool" where
  "is_recoverable (Recoverable _) = True"
| "is_recoverable _ = False"

text \<open>\<open>SegmentMetadata::to_bytes\<close>: the JSON document and a line feed.\<close>

definition to_bytes ::
  "(SegmentMetadata \<Rightarrow> string + bytes) \<Rightarrow> SegmentMetadata \<Rightarrow> StorageError + bytes" where
  "to_bytes json m = (case json m of Inl e \<Rightarrow> Inl (SerializeError e) | Inr b \<Rightarrow> Inr (b @ [LF]))"

subsection \<open>Atomic replacement\<close>

definition stage_io :: "string \<Rightarrow> path \<Rightarrow> (io_error, 'a) io \<Rightarrow> (StorageError, 'a) io" where
  "stage_io stage path m = map_errE (StorageIo stage path) m"

definition sync_directory :: "path \<Rightarrow> (StorageError, unit) io" where
  "sync_directory p = stage_io ''fsync directory'' p (bindE (fs_open_any p) (\<lambda>_. fs_fsync))"

text \<open>The injected fault one write consumes, with its target and prefix filters.\<close>

definition take_write_fault ::
  "path \<Rightarrow> AtomicWriteFaultState \<Rightarrow> AtomicWriteFault option \<times> AtomicWriteFaultState" where
  "take_write_fault p s =
     (let left = af_remaining s - 1; spent = s\<lparr>af_remaining := left\<rparr> in
      case af_target s of
        Some t \<Rightarrow>
          if t = p then
            (af_fault s, if left = 0 then spent\<lparr>af_fault := None, af_target := None\<rparr> else spent)
          else (None, s)
      | None \<Rightarrow>
          (case af_prefix s of
             Some d \<Rightarrow>
               if under d p then
                 (af_fault s, if left = 0 then spent\<lparr>af_fault := None, af_prefix := None\<rparr> else spent)
               else (None, s)
           | None \<Rightarrow>
               if af_fault s \<noteq> None then
                 (af_fault s, if left = 0 then spent\<lparr>af_fault := None\<rparr> else spent)
               else (None, s)))"

definition set_atomic_write_fault ::
  "AtomicWriteFault option \<Rightarrow> AtomicWriteFaultState" where
  "set_atomic_write_fault f =
     \<lparr>af_fault = f, af_target = None, af_prefix = None, af_remaining = (if f \<noteq> None then 1 else 0)\<rparr>"

definition set_atomic_write_fault_for_path ::
  "path \<Rightarrow> AtomicWriteFault option \<Rightarrow> AtomicWriteFaultState" where
  "set_atomic_write_fault_for_path p f =
     \<lparr>af_fault = f, af_target = map_option (\<lambda>_. p) f, af_prefix = None,
      af_remaining = (if f \<noteq> None then 1 else 0)\<rparr>"

definition set_atomic_write_fault_for_prefix ::
  "path \<Rightarrow> AtomicWriteFault \<Rightarrow> nat \<Rightarrow> AtomicWriteFaultState" where
  "set_atomic_write_fault_for_prefix p f count =
     \<lparr>af_fault = Some f, af_target = None, af_prefix = Some p, af_remaining = count\<rparr>"

definition write_fault :: "path \<Rightarrow> ('e, AtomicWriteFault option) io" where
  "write_fault p w =
     (case take_write_fault p (w_fault w) of (f, s) \<Rightarrow> (Inr f, w\<lparr>w_fault := s\<rparr>))"

text \<open>\<open>TEMP_COUNTER.fetch_add(1)\<close>\<close>

definition fetch_temp :: "('e, nat) io" where
  "fetch_temp w = (Inr (w_counter w), w\<lparr>w_counter := Suc (w_counter w) mod Suc u64_max\<rparr>)"

definition temp_name :: "string \<Rightarrow> nat \<Rightarrow> nat \<Rightarrow> string" where
  "temp_name name pid n = ''.'' @ name @ ''.'' @ dec_of_nat pid @ ''.'' @ dec_of_nat n @ ''.tmp''"

lemma wp_fetch_temp [simp]:
  "wpE fetch_temp Q R w = Q (w_counter w) (w\<lparr>w_counter := Suc (w_counter w) mod Suc u64_max\<rparr>)"
  by (simp add: wpE_def fetch_temp_def)

definition injected_before :: "path \<Rightarrow> StorageError" where
  "injected_before p = StorageIo ''injected atomic write fault before rename'' p
     (IoOther ''injected atomic write fault before rename'')"

definition injected_after :: "path \<Rightarrow> StorageError" where
  "injected_after p = StorageIo ''injected atomic write fault after rename'' p
     (IoOther ''injected atomic write fault after rename'')"

text \<open>The closure whose result \<open>atomic_write_bytes\<close> inspects.\<close>

definition write_temporary :: "path \<Rightarrow> path \<Rightarrow> path \<Rightarrow> bytes \<Rightarrow> (StorageError, unit) io" where
  "write_temporary path temporary parent b =
     bindE (write_fault path) (\<lambda>fault.
     bindE (stage_io ''create metadata temporary'' temporary (fs_open_excl temporary)) (\<lambda>i.
     bindE (stage_io ''set metadata permissions'' temporary (fs_chmod_fd i 384)) (\<lambda>_.
     bindE (stage_io ''write metadata'' temporary (fs_write i 0 b)) (\<lambda>_.
     bindE (stage_io ''fsync metadata'' temporary fs_fsync) (\<lambda>_.
     if fault = Some FailBeforeRename then throwE (injected_before path)
     else
       bindE (stage_io ''rename metadata'' path (fs_rename temporary path)) (\<lambda>_.
       if fault = Some FailAfterRename then throwE (injected_after path)
       else sync_directory parent))))))"

definition replace_file :: "path \<Rightarrow> path \<Rightarrow> bytes \<Rightarrow> (StorageError, unit) io" where
  "replace_file path parent b =
     (if path = [] then throwE (InvalidTarget path)
      else
        bindE (getsE w_pid) (\<lambda>pid.
        bindE fetch_temp (\<lambda>n.
        let temporary = path_join parent (temp_name (utf8_lossy (last path)) pid n) in
        tryE (write_temporary path temporary parent b) (\<lambda>result.
          case result of
            Inr _ \<Rightarrow> returnE ()
          | Inl e \<Rightarrow> tryE (fs_remove_file temporary) (\<lambda>_. throwE e)))))"

definition atomic_write_bytes :: "path \<Rightarrow> path \<Rightarrow> bytes \<Rightarrow> (StorageError, unit) io" where
  "atomic_write_bytes path parent b =
     tryE (fs_lstat path) (\<lambda>found.
       case found of
         Inr (NFile _) \<Rightarrow> replace_file path parent b
       | Inr _ \<Rightarrow> throwE (InvalidTarget path)
       | Inl NotFound \<Rightarrow> replace_file path parent b
       | Inl source \<Rightarrow> throwE (StorageIo ''inspect atomic write target'' path source))"

definition atomic_write_metadata ::
  "(SegmentMetadata \<Rightarrow> string + bytes) \<Rightarrow> path \<Rightarrow> path \<Rightarrow> SegmentMetadata \<Rightarrow> (StorageError, unit) io" where
  "atomic_write_metadata json path parent m =
     (case to_bytes json m of
        Inl e \<Rightarrow> throwE e
      | Inr b \<Rightarrow> atomic_write_bytes path parent b)"

subsection \<open>Opening existing files\<close>

text \<open>\<open>open_regular_readonly\<close>: the inode of a regular file; a link is refused at open.\<close>

definition open_regular_readonly :: "path \<Rightarrow> (StorageError, nat) io" where
  "open_regular_readonly p =
     bindE (stage_io ''open regular file'' p (fs_open_read p)) (\<lambda>n.
     bindE (stage_io ''inspect regular file'' p fs_seek) (\<lambda>_.
     case n of NFile i \<Rightarrow> returnE i | _ \<Rightarrow> throwE (InvalidTarget p)))"

definition open_directory_readonly :: "path \<Rightarrow> (StorageError, unit) io" where
  "open_directory_readonly p =
     bindE (stage_io ''open directory'' p (fs_open_dir p)) (\<lambda>_.
     stage_io ''inspect directory'' p fs_seek)"

definition capture_time_path :: "path \<Rightarrow> string \<Rightarrow> path" where
  "capture_time_path stream_dir name = path_join stream_dir (name @ ''.zone.json'')"

definition write_capture_time ::
  "(CaptureTime \<Rightarrow> string + bytes) \<Rightarrow> path \<Rightarrow> string \<Rightarrow> CaptureTime \<Rightarrow> (StorageError, unit) io" where
  "write_capture_time json stream_dir name ct =
     (case json ct of
        Inl e \<Rightarrow> throwE (SerializeError e)
      | Inr b \<Rightarrow> atomic_write_bytes (capture_time_path stream_dir name) stream_dir b)"

definition load_capture_time ::
  "(bytes \<Rightarrow> CaptureTime option) \<Rightarrow> path \<Rightarrow> (unit, CaptureTimeLoad) io" where
  "load_capture_time parse p =
     tryE (open_regular_readonly p) (\<lambda>opened.
       case opened of
         Inl (StorageIo _ _ NotFound) \<Rightarrow> returnE CtAbsent
       | Inl _ \<Rightarrow> returnE CtUnreadable
       | Inr i \<Rightarrow> tryE (fs_read_fd i) (\<lambda>r.
           case r of
             Inl _ \<Rightarrow> returnE CtUnreadable
           | Inr b \<Rightarrow> (case parse b of
               Some ct \<Rightarrow> returnE (CtPresent ct) | None \<Rightarrow> returnE CtUnreadable)))"

subsection \<open>FileStorage\<close>

datatype StorageStage = Append | Flush | JsonFsync | Metadata | Rollback

record FileStorage =
  segment_dir :: path
  metadata_path :: path
  stream_dir :: path
  handles :: "(string \<times> nat) list"
  faults :: "StorageStage list"

type_synonym ('h, 'e, 'a) sto = "('h \<times> world, 'e, 'a) comp"

definition on_world :: "('e, 'a) io \<Rightarrow> ('h, 'e, 'a) sto" where
  "on_world m s = (case s of (st, w) \<Rightarrow> (case m w of (r, w') \<Rightarrow> (r, (st, w'))))"

record AppendFrame =
  af_filename :: string
  af_previous_offset :: nat
  af_bytes :: bytes
  af_proposed :: SegmentMetadata

definition with_faults :: "path \<Rightarrow> path \<Rightarrow> path \<Rightarrow> StorageStage list \<Rightarrow> FileStorage" where
  "with_faults seg meta stream plan =
     \<lparr>segment_dir = seg, metadata_path = meta, stream_dir = stream, handles = [], faults = plan\<rparr>"

fun stage_name :: "StorageStage \<Rightarrow> string" where
  "stage_name Append = ''Append''"
| "stage_name Flush = ''Flush''"
| "stage_name JsonFsync = ''JsonFsync''"
| "stage_name Metadata = ''Metadata''"
| "stage_name Rollback = ''Rollback''"

text \<open>\<open>FaultPlan::fail\<close>\<close>

definition plan_fail :: "StorageStage \<Rightarrow> (FileStorage, io_error, unit) sto" where
  "plan_fail stage s =
     (case s of (st, w) \<Rightarrow>
        (case faults st of
           [] \<Rightarrow> (Inr (), s)
         | f # fs \<Rightarrow>
             if f = stage then
               (Inl (IoOther (''injected '' @ stage_name stage @ '' failure'')), (st\<lparr>faults := fs\<rparr>, w))
             else (Inr (), s)))"

definition stage_sto :: "string \<Rightarrow> path \<Rightarrow> (io_error, 'a) io \<Rightarrow> (FileStorage, StorageError, 'a) sto" where
  "stage_sto stage path m = on_world (stage_io stage path m)"

definition open_handle :: "path \<Rightarrow> string \<Rightarrow> (FileStorage, StorageError, nat) sto" where
  "open_handle path filename =
     bindE (stage_sto ''open JSONL'' path (fs_open_create path)) (\<lambda>i.
     bindE (stage_sto ''set JSONL permissions'' path (fs_chmod_fd i 384)) (\<lambda>_.
     bindE (stage_sto ''inspect JSONL'' path (fs_len i)) (\<lambda>_.
     bindE (modifyE (\<lambda>(st, w). (st\<lparr>handles := bt_insert filename i (handles st)\<rparr>, w))) (\<lambda>_.
     returnE i))))"

definition handle :: "string \<Rightarrow> (FileStorage, StorageError, nat) sto" where
  "handle filename =
     bindE (getsE fst) (\<lambda>st.
     case map_of (handles st) filename of
       Some i \<Rightarrow> returnE i
     | None \<Rightarrow> open_handle (path_join (segment_dir st) filename) filename)"

definition rollback :: "string \<Rightarrow> nat \<Rightarrow> (FileStorage, StorageError, unit) sto" where
  "rollback filename offset =
     bindE (getsE fst) (\<lambda>st.
     let path = path_join (segment_dir st) filename in
     bindE (map_errE (StorageIo ''rollback injection'' path) (plan_fail Rollback)) (\<lambda>_.
     case map_of (handles st) filename of
       None \<Rightarrow> returnE ()
     | Some i \<Rightarrow>
         bindE (stage_sto ''truncate rollback'' path (fs_set_len i offset)) (\<lambda>_.
         bindE (stage_sto ''seek rollback'' path fs_seek) (\<lambda>_.
         stage_sto ''fsync rollback'' path fs_fsync))))"

text \<open>Storing the bytes of a frame once its file is open and has the expected length.\<close>

definition store_frame ::
  "io_error + unit \<Rightarrow> io_error + unit \<Rightarrow> io_error + unit \<Rightarrow> path \<Rightarrow> nat \<Rightarrow> AppendFrame
   \<Rightarrow> (FileStorage, StorageError, unit) sto" where
  "store_frame append_fault flush_fault fsync_fault path i frame =
     (case append_fault of
        Inl source \<Rightarrow>
          bindE (stage_sto ''partial append'' path
            (fs_write i (af_previous_offset frame)
               (take ((length (af_bytes frame) + 1) div 2) (af_bytes frame)))) (\<lambda>_.
          throwE (StorageIo ''append injection'' path source))
      | Inr _ \<Rightarrow>
          bindE (stage_sto ''append'' path (fs_write i (af_previous_offset frame) (af_bytes frame))) (\<lambda>_.
          case flush_fault of
            Inl source \<Rightarrow> throwE (StorageIo ''flush injection'' path source)
          | Inr _ \<Rightarrow>
              (case fsync_fault of
                 Inl source \<Rightarrow> throwE (StorageIo ''JSONL fsync injection'' path source)
               | Inr _ \<Rightarrow>
                   bindE (stage_sto ''fsync JSONL'' path fs_fsync) (\<lambda>_.
                   bindE (getsE fst) (\<lambda>st. on_world (sync_directory (segment_dir st)))))))"

definition append_at ::
  "io_error + unit \<Rightarrow> io_error + unit \<Rightarrow> io_error + unit \<Rightarrow> path \<Rightarrow> AppendFrame
   \<Rightarrow> (FileStorage, StorageError, unit) sto" where
  "append_at append_fault flush_fault fsync_fault path frame =
     bindE (handle (af_filename frame)) (\<lambda>i.
     bindE (stage_sto ''inspect append offset'' path (fs_len i)) (\<lambda>n.
     if n \<noteq> af_previous_offset frame
     then throwE (OffsetMismatch path (af_previous_offset frame) n)
     else
       bindE (stage_sto ''seek append'' path fs_seek) (\<lambda>_.
       store_frame append_fault flush_fault fsync_fault path i frame)))"

definition append_inner :: "AppendFrame \<Rightarrow> (FileStorage, StorageError, unit) sto" where
  "append_inner frame =
     bindE (getsE fst) (\<lambda>st.
     let path = path_join (segment_dir st) (af_filename frame) in
     tryE (plan_fail Append) (\<lambda>append_fault.
     tryE (plan_fail Flush) (\<lambda>flush_fault.
     tryE (plan_fail JsonFsync) (\<lambda>fsync_fault.
     append_at append_fault flush_fault fsync_fault path frame))))"

text \<open>Undoing a frame whose metadata could not be written.\<close>

definition undo_frame ::
  "StorageError \<Rightarrow> bytes \<Rightarrow> AppendFrame \<Rightarrow> (FileStorage, StorageError, SegmentMetadata) sto" where
  "undo_frame metadata_error previous frame =
     bindE (getsE fst) (\<lambda>st.
     tryE (rollback (af_filename frame) (af_previous_offset frame)) (\<lambda>json.
     tryE (on_world (atomic_write_bytes (metadata_path st) (stream_dir st) previous)) (\<lambda>meta.
     case (json, meta) of
       (Inr _, Inr _) \<Rightarrow> throwE (Recoverable metadata_error)
     | (Inl j, Inr _) \<Rightarrow> throwE (Poisoned metadata_error (RollbackGroup (Some j) None))
     | (Inr _, Inl m) \<Rightarrow> throwE (Poisoned metadata_error (RollbackGroup None (Some m)))
     | (Inl j, Inl m) \<Rightarrow> throwE (Poisoned metadata_error (RollbackGroup (Some j) (Some m))))))"

text \<open>Writing the metadata that names a stored frame.\<close>

definition publish_frame ::
  "(SegmentMetadata \<Rightarrow> string + bytes) \<Rightarrow> bytes \<Rightarrow> AppendFrame
   \<Rightarrow> (FileStorage, StorageError, SegmentMetadata) sto" where
  "publish_frame json previous frame =
     bindE (getsE fst) (\<lambda>st.
     tryE (bindE (map_errE (StorageIo ''metadata injection'' (metadata_path st)) (plan_fail Metadata))
            (\<lambda>_. on_world (atomic_write_metadata json (metadata_path st) (stream_dir st)
                    (af_proposed frame)))) (\<lambda>written.
     case written of
       Inl e \<Rightarrow> undo_frame e previous frame
     | Inr _ \<Rightarrow> returnE (af_proposed frame)))"

definition append_frame ::
  "(SegmentMetadata \<Rightarrow> string + bytes) \<Rightarrow> AppendFrame
   \<Rightarrow> (FileStorage, StorageError, SegmentMetadata) sto" where
  "append_frame json frame =
     bindE (getsE fst) (\<lambda>st.
     bindE (stage_sto ''read previous metadata'' (metadata_path st) (fs_read (metadata_path st))) (\<lambda>previous.
     tryE (append_inner frame) (\<lambda>appended.
     case appended of
       Inl append_error \<Rightarrow>
         tryE (rollback (af_filename frame) (af_previous_offset frame)) (\<lambda>rolled.
         case rolled of
           Inr _ \<Rightarrow> throwE (Recoverable append_error)
         | Inl e \<Rightarrow> throwE (Poisoned append_error e))
     | Inr _ \<Rightarrow> publish_frame json previous frame)))"

definition write_metadata ::
  "(SegmentMetadata \<Rightarrow> string + bytes) \<Rightarrow> SegmentMetadata \<Rightarrow> (FileStorage, StorageError, unit) sto" where
  "write_metadata json m =
     bindE (getsE fst) (\<lambda>st. on_world (atomic_write_metadata json (metadata_path st) (stream_dir st) m))"

text \<open>The handles are given up before the first one is synced.\<close>

definition sync_and_close :: "(FileStorage, StorageError, unit) sto" where
  "sync_and_close =
     bindE (getsE fst) (\<lambda>st.
     bindE (modifyE (\<lambda>(st, w). (st\<lparr>handles := []\<rparr>, w))) (\<lambda>_.
     forE (\<lambda>(filename, i). stage_sto ''final fsync'' (path_join (segment_dir st) filename) fs_fsync)
       (handles st)))"

definition open_handle_count :: "FileStorage \<Rightarrow> nat" where
  "open_handle_count st = length (handles st)"

subsection \<open>What a write leaves alone\<close>

definition only_touches :: "path set \<Rightarrow> world \<Rightarrow> world \<Rightarrow> bool" where
  "only_touches S w w' \<longleftrightarrow>
     world_ok w' \<and> is_dir w' = is_dir w
     \<and> (\<forall>q. q \<notin> S \<longrightarrow> node_at w' q = node_at w q \<and> view w' q = view w q)"

text \<open>The hidden files \<open>atomic_write_bytes\<close> writes before it renames them.\<close>

definition temporaries :: "path \<Rightarrow> path set" where
  "temporaries parent = {q. \<exists>s. q = parent @ [CHR ''.'' # s]}"

text \<open>A name that \<open>Path::join\<close> appends as one component.\<close>

definition plain_name :: "string \<Rightarrow> bool" where
  "plain_name s \<longleftrightarrow> CHR ''/'' \<notin> set s \<and> s \<noteq> [] \<and> s \<noteq> ''.'' \<and> valid_utf8 s"

lemma only_touches_refl: "world_ok w \<Longrightarrow> only_touches S w w"
  by (simp add: only_touches_def)

lemma only_touches_trans:
  "only_touches S w w' \<Longrightarrow> only_touches S w' w'' \<Longrightarrow> only_touches S w w''"
  by (simp add: only_touches_def)

lemma only_touches_mono: "only_touches S w w' \<Longrightarrow> S \<subseteq> T \<Longrightarrow> only_touches T w w'"
  by (auto simp: only_touches_def)

lemma only_touches_tick: "only_touches S (tick w) w' = only_touches S w w'"
  by (simp add: only_touches_def world_simps)

lemma path_join_plain_name: "plain_name s \<Longrightarrow> path_join p s = p @ [s]"
  by (simp add: plain_name_def path_join_plain)

lemma digit_not_slash: "is_digit c \<Longrightarrow> c \<noteq> CHR ''/''"
  by (auto simp: is_digit_def)

lemma dec_no_slash: "CHR ''/'' \<notin> set (dec_of_nat n)"
  using dec_of_nat_digit [of "CHR ''/''" n] digit_not_slash by blast

lemma temp_join:
  "plain_name s \<Longrightarrow> path_join parent (temp_name s pid n) = parent @ [temp_name s pid n]"
  using dec_no_slash [of pid] dec_no_slash [of n]
  by (intro path_join_plain) (auto simp: plain_name_def temp_name_def)

lemma temp_in_temporaries: "parent @ [temp_name s pid n] \<in> temporaries parent"
  by (auto simp: temporaries_def temp_name_def)

lemma temp_differs: "parent @ [temp_name s pid n] \<noteq> parent @ [s]"
proof
  assume "parent @ [temp_name s pid n] = parent @ [s]"
  then have "length (temp_name s pid n) = length s" by simp
  then show False by (simp add: temp_name_def)
qed

lemma process_obs [world_simps]:
  "node_at (w\<lparr>w_counter := c\<rparr>) = node_at w" "contents (w\<lparr>w_counter := c\<rparr>) = contents w"
  "is_dir (w\<lparr>w_counter := c\<rparr>) = is_dir w" "view (w\<lparr>w_counter := c\<rparr>) = view w"
  "world_ok (w\<lparr>w_counter := c\<rparr>) = world_ok w"
  "node_at (w\<lparr>w_fault := f\<rparr>) = node_at w" "contents (w\<lparr>w_fault := f\<rparr>) = contents w"
  "is_dir (w\<lparr>w_fault := f\<rparr>) = is_dir w" "view (w\<lparr>w_fault := f\<rparr>) = view w"
  "world_ok (w\<lparr>w_fault := f\<rparr>) = world_ok w" "w_next (w\<lparr>w_fault := f\<rparr>) = w_next w"
  "w_next (w\<lparr>w_counter := c\<rparr>) = w_next w"
  by (auto simp: node_at_def contents_def is_dir_def view_def world_ok_def fun_eq_iff
      split: option.splits node.splits)

subsection \<open>The atomic replacement\<close>

text \<open>The world while the temporary file \<open>t\<close> holds \<open>b\<close>.\<close>

definition staged :: "world \<Rightarrow> path \<Rightarrow> bytes \<Rightarrow> world \<Rightarrow> bool" where
  "staged w t b w' \<longleftrightarrow>
     node_at w t = None \<and> node_at w' = (node_at w)(t \<mapsto> NFile (w_next w))
     \<and> contents w' = (contents w)(w_next w := b) \<and> is_dir w' = is_dir w \<and> world_ok w'"

lemma staged_start:
  "world_ok w \<Longrightarrow> node_at w t = None \<Longrightarrow> staged w t [] (new_file t w)"
  by (auto simp: staged_def world_simps world_upd is_dir_def fun_eq_iff)

lemma staged_view:
  assumes "world_ok w" "staged w t b w'"
  shows "view w' = (view w)(t \<mapsto> b)"
proof
  fix x
  have "i \<noteq> w_next w" if "node_at w x = Some (NFile i)" for i
    using world_okD(1) [OF assms(1) that] by auto
  then show "view w' x = ((view w)(t \<mapsto> b)) x"
    using assms(2) unfolding view_def staged_def
    by (cases "x = t") (auto split: option.split node.split)
qed

lemma staged_abort: "world_ok w \<Longrightarrow> staged w t b w' \<Longrightarrow> only_touches {p, t} w w'"
  using staged_view [of w t b w'] by (auto simp: only_touches_def staged_def)

lemma staged_commit:
  assumes "world_ok w" "staged w t b w'" "p \<noteq> t" "\<not> is_dir w p"
  shows "only_touches {p, t} w (put_node p (NFile (w_next w)) (del_node t w'))"
    and "view (put_node p (NFile (w_next w)) (del_node t w')) p = Some b"
proof -
  have t: "node_at w' t = Some (NFile (w_next w))" and ok: "world_ok w'"
    and dirs: "is_dir w' = is_dir w" "\<not> is_dir w t"
    using assms(2) by (auto simp: staged_def is_dir_def)
  let ?u = "put_node p (NFile (w_next w)) (del_node t w')"
  have "view ?u p = Some (contents w' (w_next w))"
    by (simp add: world_upd world_simps)
  then show "view ?u p = Some b" using assms(2) by (simp add: staged_def)
  have "is_dir ?u = is_dir w" using assms(4) dirs by (auto simp: world_upd fun_eq_iff)
  then show "only_touches {p, t} w ?u"
    using staged_view [OF assms(1,2)] world_ok_rename [OF ok t] assms(2)
    by (auto simp: only_touches_def world_upd staged_def world_simps)
qed

lemma staged_obs:
  "staged w t b (tick w') = staged w t b w'" "staged w t b (put_mode i m w') = staged w t b w'"
  "staged (tick w) t b w' = staged w t b w'" "staged (w\<lparr>w_fault := f\<rparr>) t b w' = staged w t b w'"
  by (simp_all add: staged_def world_simps)

lemma staged_put:
  "staged w t b w' \<Longrightarrow> staged w t b' (put_data (w_next w) b' w')"
  by (simp add: staged_def world_simps)

lemma overwrite_empty: "overwrite 0 b [] = b"
  by (simp add: overwrite_def)

text \<open>Outcome of a write: done, or the target holds its old or its new bytes.\<close>

definition replaced_ok :: "path set \<Rightarrow> path \<Rightarrow> bytes \<Rightarrow> world \<Rightarrow> world \<Rightarrow> bool" where
  "replaced_ok S p b w w' \<longleftrightarrow> only_touches S w w' \<and> view w' p = Some b"

definition replaced_err :: "path set \<Rightarrow> path \<Rightarrow> bytes \<Rightarrow> world \<Rightarrow> world \<Rightarrow> bool" where
  "replaced_err S p b w w' \<longleftrightarrow> only_touches S w w' \<and> (view w' p = view w p \<or> view w' p = Some b)"

lemma wp_write_fault [wp_intros]:
  "(\<And>f s. Q f (w\<lparr>w_fault := s\<rparr>)) \<Longrightarrow> wpE (write_fault p) Q R w"
  by (simp add: wpE_def write_fault_def split: prod.splits)

lemma wp_sync_directory:
  assumes "\<And>e w'. only_touches {} w w' \<Longrightarrow> R e w'" "\<And>w'. only_touches {} w w' \<Longrightarrow> Q () w'"
    and "world_ok w"
  shows "wpE (sync_directory p) Q R w"
  unfolding sync_directory_def stage_io_def
  by (simp, intro wp_intros assms) (simp_all add: only_touches_def world_simps assms(3))

lemma wp_rename_staged:
  assumes st: "staged w t b w'" and "world_ok w" "p \<noteq> t" "\<not> is_dir w p"
    and err: "\<And>e. staged w t b (tick w') \<Longrightarrow> R e (tick w')"
    and ok: "\<And>u. only_touches {p, t} w u \<Longrightarrow> view u p = Some b \<Longrightarrow> Q () u"
  shows "wpE (fs_rename t p) Q R w'"
proof -
  have t: "node_at w' t = Some (NFile (w_next w))" using st by (simp add: staged_def)
  have "staged w t b (tick w')" using st by (simp add: staged_obs)
  then show ?thesis
    using assms(2-4) by (intro wp_rename_file [OF _ t]) (auto intro!: err ok staged_commit)
qed

lemma write_temporary_spec:
  assumes ok: "world_ok w" and "p \<noteq> t" and nodir: "\<not> is_dir w p"
  shows "wpE (write_temporary p t parent b)
    (\<lambda>_. replaced_ok {p, t} p b w) (\<lambda>_. replaced_err {p, t} p b w) w"
proof -
  note abort = staged_abort [OF ok, where p = p]
  have same: "view w' p = view w p" if "staged w t c w'" for c w'
    using staged_view [OF ok that] assms(2) by simp
  have start: "staged w t [] (new_file t (tick (w\<lparr>w_fault := s\<rparr>)))" if "node_at w t = None" for s
    using staged_start [of "tick (w\<lparr>w_fault := s\<rparr>)" t] that ok by (simp add: staged_obs world_simps)
  have err: "replaced_err {p, t} p b w w'" if "staged w t c w'" for c w'
    using abort [OF that] same [OF that] by (simp add: replaced_err_def)
  have quiet: "replaced_err {p, t} p b w (tick (w\<lparr>w_fault := s\<rparr>))" for s
    using ok by (simp add: replaced_err_def only_touches_def world_simps)
  have sync: "wpE (sync_directory parent) (\<lambda>_. replaced_ok {p, t} p b w)
      (\<lambda>_. replaced_err {p, t} p b w) u"
    if u: "only_touches {p, t} w u" "view u p = Some b" for u
  proof (rule wp_sync_directory)
    show "world_ok u" using u by (simp add: only_touches_def)
    fix u' assume "only_touches {} u u'"
    then have "only_touches {p, t} w u'" "view u' p = Some b"
      using u only_touches_trans [OF u(1)] only_touches_mono [of "{}" u u' "{p, t}"]
      by (auto simp: only_touches_def)
    then show "replaced_ok {p, t} p b w u'" "replaced_err {p, t} p b w u'"
      by (simp_all add: replaced_ok_def replaced_err_def)
  qed
  have commit: "wpE (fs_rename t p)
      (\<lambda>_. wpE (if f = Some FailAfterRename then throwE (injected_after p) else sync_directory parent)
        (\<lambda>_. replaced_ok {p, t} p b w) (\<lambda>_. replaced_err {p, t} p b w))
      (\<lambda>e. replaced_err {p, t} p b w) w'" if st: "staged w t b w'" for f w'
  proof (rule wp_rename_staged [OF st ok assms(2) nodir])
    show "staged w t b (tick w') \<Longrightarrow> replaced_err {p, t} p b w (tick w')" by (rule err)
    show "wpE (if f = Some FailAfterRename then throwE (injected_after p) else sync_directory parent)
        (\<lambda>_. replaced_ok {p, t} p b w) (\<lambda>_. replaced_err {p, t} p b w) u"
      if "only_touches {p, t} w u" "view u p = Some b" for u
      using sync [OF that] that by (simp add: replaced_err_def)
  qed
  have fill: "staged w t c (put_data (w_next w) (overwrite 0 c (contents u (w_next w))) u)"
    if "staged w t [] u" for c u
    using staged_put [OF that, of c] that by (simp add: staged_def overwrite_empty)
  let ?base = "\<lambda>s. put_mode (w_next w) 384 (tick (new_file t (tick (w\<lparr>w_fault := s\<rparr>))))"
  let ?full = "\<lambda>s c. put_data (w_next w) (overwrite 0 c (contents (?base s) (w_next w))) (tick (?base s))"
  have full: "staged w t c (?full s c)" if "node_at w t = None" for s c
    using fill [of "tick (?base s)" c] start [OF that, of s] by (simp add: staged_obs world_simps)
  show ?thesis
    unfolding write_temporary_def stage_io_def wpE_bind wpE_map_err
  proof (intro wp_intros quiet; simp only: process_obs)
    fix s k f
    assume n: "node_at w t = None"
    show "replaced_err {p, t} p b w (tick (new_file t (tick (w\<lparr>w_fault := s\<rparr>))))"
      by (rule err [of "[]"]) (simp add: staged_obs start [OF n])
    show "replaced_err {p, t} p b w (?full s (take k b))" by (rule err [OF full [OF n]])
    have filled: "staged w t b (tick (?full s b))" by (simp add: staged_obs full [OF n])
    then show "replaced_err {p, t} p b w (tick (?full s b))" by (rule err)
    show "wpE (if f = Some FailBeforeRename then throwE (injected_before p)
          else bindE (map_errE (StorageIo ''rename metadata'' p) (fs_rename t p))
            (\<lambda>_. if f = Some FailAfterRename then throwE (injected_after p) else sync_directory parent))
        (\<lambda>_. replaced_ok {p, t} p b w) (\<lambda>_. replaced_err {p, t} p b w) (tick (?full s b))"
      using commit [OF filled] err [OF filled] by simp
  qed
qed

definition write_scope :: "path \<Rightarrow> path \<Rightarrow> path set" where
  "write_scope parent p = insert p (temporaries parent)"

lemma replaced_mono:
  "replaced_ok S p b w u \<Longrightarrow> S \<subseteq> T \<Longrightarrow> replaced_ok T p b w u"
  "replaced_err S p b w u \<Longrightarrow> S \<subseteq> T \<Longrightarrow> replaced_err T p b w u"
  by (auto simp: replaced_ok_def replaced_err_def intro: only_touches_mono)

lemma replaced_err_remove:
  assumes "replaced_err {p, t} p b w u" "p \<noteq> t" "\<not> is_dir u t"
  shows "replaced_err {p, t} p b w (del_node t (tick u))"
proof -
  have "is_dir (del_node t (tick u)) = is_dir u"
    using assms(3) by (auto simp: world_upd world_simps fun_eq_iff)
  with assms show ?thesis
    by (auto simp: replaced_err_def only_touches_def world_upd world_simps)
qed

text \<open>The target and the temporaries of its own name.\<close>

definition own_scope :: "path \<Rightarrow> string \<Rightarrow> path set" where
  "own_scope parent n = insert (parent @ [n]) {q. \<exists>pid k. q = parent @ [temp_name n pid k]}"

lemma own_scope_sub: "own_scope parent n \<subseteq> write_scope parent (parent @ [n])"
  using temp_in_temporaries by (auto simp: own_scope_def write_scope_def)

lemma replace_file_exact:
  assumes ok: "world_ok w" and n: "plain_name n" and nodir: "\<not> is_dir w (parent @ [n])"
  shows "wpE (replace_file (parent @ [n]) parent b)
    (\<lambda>_. replaced_ok (own_scope parent n) (parent @ [n]) b w)
    (\<lambda>_. replaced_err (own_scope parent n) (parent @ [n]) b w) w"
proof -
  let ?p = "parent @ [n]"
  let ?t = "parent @ [temp_name n (w_pid w) (w_counter w)]"
  let ?w = "w\<lparr>w_counter := Suc (w_counter w) mod Suc u64_max\<rparr>"
  have sub: "{?p, ?t} \<subseteq> own_scope parent n"
    by (auto simp: own_scope_def)
  have neq: "?p \<noteq> ?t" by (rule temp_differs [symmetric])
  have join: "path_join parent (temp_name (utf8_lossy n) (w_pid w) (w_counter w)) = ?t"
    using n by (simp add: plain_name_def utf8_lossy_valid temp_join)
  have spec: "wpE (write_temporary ?p ?t parent b) (\<lambda>_. replaced_ok {?p, ?t} ?p b ?w)
      (\<lambda>_. replaced_err {?p, ?t} ?p b ?w) ?w"
    by (rule write_temporary_spec) (use ok neq nodir in \<open>auto simp: world_simps\<close>)
  have same: "replaced_ok S p c ?w = replaced_ok S p c w" "replaced_err S p c ?w = replaced_err S p c w"
    for S p c by (simp_all add: fun_eq_iff replaced_ok_def replaced_err_def only_touches_def world_simps)
  have cleanup: "wpE (fs_remove_file ?t) (\<lambda>_. replaced_err (own_scope parent n) ?p b w)
      (\<lambda>_. replaced_err (own_scope parent n) ?p b w) u"
    if u: "replaced_err {?p, ?t} ?p b w u" for u
  proof (rule wp_remove_file)
    have "replaced_err {?p, ?t} ?p b w (tick u)"
      using u by (simp add: replaced_err_def only_touches_def world_simps)
    then show "replaced_err (own_scope parent n) ?p b w (tick u)" by (rule replaced_mono(2) [OF _ sub])
    assume "\<not> is_dir u ?t"
    then show "replaced_err (own_scope parent n) ?p b w (del_node ?t (tick u))"
      by (rule replaced_mono(2) [OF replaced_err_remove [OF u neq] sub])
  qed
  show ?thesis
    unfolding replace_file_def
    apply (simp add: join Let_def)
    apply (rule wpE_mono [OF spec])
    by (auto simp: same intro: replaced_mono(1) [OF _ sub] cleanup)
qed

lemma atomic_write_exact:
  assumes ok: "world_ok w" and n: "plain_name n"
  shows "wpE (atomic_write_bytes (parent @ [n]) parent b)
    (\<lambda>_. replaced_ok (own_scope parent n) (parent @ [n]) b w)
    (\<lambda>_. replaced_err (own_scope parent n) (parent @ [n]) b w) w"
proof -
  let ?p = "parent @ [n]"
  have same: "replaced_ok S p c (tick w) = replaced_ok S p c w" "replaced_err S p c (tick w) = replaced_err S p c w"
    for S p c by (simp_all add: fun_eq_iff replaced_ok_def replaced_err_def only_touches_def world_simps)
  have quiet: "replaced_err S p c w (tick w)" for S p c
    using ok by (simp add: replaced_err_def only_touches_def world_simps)
  have go: "wpE (replace_file ?p parent b) (\<lambda>_. replaced_ok (own_scope parent n) ?p b w)
      (\<lambda>_. replaced_err (own_scope parent n) ?p b w) (tick w)" if "\<not> is_dir w ?p"
    using replace_file_exact [of "tick w" n parent b] ok n that by (simp add: same world_simps)
  show ?thesis
    unfolding atomic_write_bytes_def wpE_try
    by (intro wp_intros; simp add: EIO_def quiet go is_dir_def split: node.splits)
qed

lemma atomic_write_bytes_spec:
  assumes ok: "world_ok w" and n: "plain_name n"
  shows "wpE (atomic_write_bytes (parent @ [n]) parent b)
    (\<lambda>_. replaced_ok (write_scope parent (parent @ [n])) (parent @ [n]) b w)
    (\<lambda>_. replaced_err (write_scope parent (parent @ [n])) (parent @ [n]) b w) w"
  by (rule wpE_mono [OF atomic_write_exact [OF assms]]) (simp_all add: replaced_mono [OF _ own_scope_sub])

lemma atomic_write_metadata_spec:
  assumes "world_ok w" "plain_name n"
  shows "wpE (atomic_write_metadata json (parent @ [n]) parent m)
    (\<lambda>_ u. \<exists>b. to_bytes json m = Inr b \<and> replaced_ok (write_scope parent (parent @ [n])) (parent @ [n]) b w u)
    (\<lambda>_ u. \<exists>b. replaced_err (write_scope parent (parent @ [n])) (parent @ [n]) b w u) w"
proof (cases "to_bytes json m")
  case (Inl e)
  then show ?thesis using assms(1)
    by (auto simp: atomic_write_metadata_def replaced_err_def only_touches_refl)
next
  case (Inr b)
  then show ?thesis
    unfolding atomic_write_metadata_def
    by (auto intro: wpE_mono [OF atomic_write_bytes_spec [OF assms]])
qed

subsection \<open>Appending a frame\<close>

definition file_bytes :: "world \<Rightarrow> path \<Rightarrow> bytes" where
  "file_bytes w p = (case view w p of None \<Rightarrow> [] | Some b \<Rightarrow> b)"

text \<open>
  The layout a segment's storage works on: its directory and its metadata file lie beside
  each other in the stream directory, and every open handle is the file of its name.
\<close>

definition layout_ok :: "FileStorage \<Rightarrow> bool" where
  "layout_ok st \<longleftrightarrow>
     (\<exists>s m. segment_dir st = stream_dir st @ [s] \<and> metadata_path st = stream_dir st @ [m] \<and> plain_name m)"

lemma layout_ok_obs [simp]:
  "layout_ok (st\<lparr>handles := h\<rparr>) = layout_ok st" "layout_ok (st\<lparr>faults := fs\<rparr>) = layout_ok st"
  by (simp_all add: layout_ok_def)

definition storage_ok :: "FileStorage \<Rightarrow> world \<Rightarrow> bool" where
  "storage_ok st w \<longleftrightarrow>
     world_ok w \<and> layout_ok st
     \<and> (\<forall>f i. map_of (handles st) f = Some i \<longrightarrow> node_at w (segment_dir st @ [f]) = Some (NFile i))"

definition same_paths :: "FileStorage \<Rightarrow> FileStorage \<Rightarrow> bool" where
  "same_paths st st' \<longleftrightarrow> segment_dir st' = segment_dir st \<and> metadata_path st' = metadata_path st
     \<and> stream_dir st' = stream_dir st"

text \<open>During an append to \<open>f\<close>: only that file changed, and it holds \<open>c\<close>.\<close>

definition appending :: "FileStorage \<Rightarrow> world \<Rightarrow> string \<Rightarrow> bytes \<Rightarrow> FileStorage \<times> world \<Rightarrow> bool" where
  "appending st0 w0 f c s \<longleftrightarrow>
     (case s of (st, w) \<Rightarrow> same_paths st0 st \<and> storage_ok st w
        \<and> only_touches {segment_dir st0 @ [f]} w0 w \<and> file_bytes w (segment_dir st0 @ [f]) = c)"

lemma wpE_on_world [simp]:
  "wpE (on_world m) Q R = (\<lambda>(st, w). wpE m (\<lambda>x w'. Q x (st, w')) (\<lambda>e w'. R e (st, w')) w)"
  by (auto simp: fun_eq_iff wpE_def on_world_def split: prod.splits sum.splits)

lemma wp_plan_fail [wp_intros]:
  assumes "\<And>e fs. R e (st\<lparr>faults := fs\<rparr>, w)" "Q () (st, w)"
  shows "wpE (plan_fail s) Q R (st, w)"
  using assms by (auto simp: wpE_def plan_fail_def split: list.splits)

lemma file_bytes_file: "node_at w p = Some (NFile i) \<Longrightarrow> file_bytes w p = contents w i"
  by (simp add: file_bytes_def view_def)

lemma file_bytes_tick [world_simps]: "file_bytes (tick w) = file_bytes w"
  by (simp add: file_bytes_def world_simps fun_eq_iff)

lemma storage_ok_obs:
  "storage_ok (st\<lparr>faults := fs\<rparr>) w = storage_ok st w" "storage_ok st (tick w) = storage_ok st w"
  "storage_ok st (put_mode i m w) = storage_ok st w" "storage_ok st (put_data i b w) = storage_ok st w"
  by (simp_all add: storage_ok_def world_simps)

lemma appending_obs [simp]:
  "appending st0 w0 f c (st\<lparr>faults := fs\<rparr>, w) = appending st0 w0 f c (st, w)"
  "appending st0 w0 f c (st, tick w) = appending st0 w0 f c (st, w)"
  "appending st0 w0 f c (st, put_mode i m w) = appending st0 w0 f c (st, w)"
  by (simp_all add: appending_def same_paths_def storage_ok_obs only_touches_def world_simps file_bytes_def)

lemma appending_handle:
  "appending st0 w0 f c (st, w) \<Longrightarrow> map_of (handles st) f = Some i
   \<Longrightarrow> node_at w (segment_dir st0 @ [f]) = Some (NFile i) \<and> contents w i = c"
  by (auto simp: appending_def storage_ok_def same_paths_def file_bytes_file)

lemma only_touches_put:
  assumes "only_touches {p} w0 w" "node_at w p = Some (NFile i)"
  shows "only_touches {p} w0 (put_data i b w)"
  using assms view_put_data [of w p i b] by (auto simp: only_touches_def world_simps)

text \<open>Writing through the handle of \<open>f\<close>.\<close>

lemma appending_put:
  assumes a: "appending st0 w0 f c (st, w)" and h: "map_of (handles st) f = Some i"
  shows "appending st0 w0 f b (st, put_data i b w)"
proof -
  have n: "node_at w (segment_dir st0 @ [f]) = Some (NFile i)" using appending_handle [OF a h] by simp
  then show ?thesis
    using a only_touches_put [of "segment_dir st0 @ [f]" w0 w i b] n
    by (auto simp: appending_def storage_ok_obs file_bytes_file world_simps)
qed

lemma appending_start:
  assumes "storage_ok st w"
  shows "appending st w f (file_bytes w (segment_dir st @ [f])) (st, w)"
  using assms by (simp add: appending_def same_paths_def storage_ok_def only_touches_refl)

text \<open>A file the append creates is empty.\<close>

lemma appending_create:
  assumes a: "appending st0 w0 f c (st, w)" and new: "node_at w (segment_dir st0 @ [f]) = None"
  shows "appending st0 w0 f c (st, new_file (segment_dir st0 @ [f]) w)" "c = []"
proof -
  let ?p = "segment_dir st0 @ [f]"
  show c: "c = []" using a new by (simp add: appending_def file_bytes_def view_def)
  have ok: "world_ok w" using a by (simp add: appending_def storage_ok_def)
  have "is_dir w ?p = False" using new by (simp add: is_dir_def)
  then have "only_touches {?p} w0 (new_file ?p w)"
    using a ok by (auto simp: appending_def only_touches_def world_upd world_simps fun_eq_iff)
  moreover have "storage_ok st (new_file ?p w)"
    using a new ok by (auto simp: appending_def same_paths_def storage_ok_def world_upd world_simps)
  ultimately show "appending st0 w0 f c (st, new_file ?p w)"
    using a ok c by (simp add: appending_def file_bytes_def world_upd)
qed

lemma appending_register:
  assumes a: "appending st0 w0 f c (st, w)" and n: "node_at w (segment_dir st0 @ [f]) = Some (NFile i)"
  shows "appending st0 w0 f c (st\<lparr>handles := bt_insert f i (handles st)\<rparr>, w)"
  using assms by (auto simp: appending_def same_paths_def storage_ok_def)

lemma appending_segment_dir: "appending st0 w0 f c (st, w) \<Longrightarrow> segment_dir st = segment_dir st0"
  by (simp add: appending_def same_paths_def)

lemma handle_spec:
  assumes a: "appending st0 w0 f c (st, w)" and f: "plain_name f"
  shows "wpE (handle f)
    (\<lambda>i s. appending st0 w0 f c s \<and> map_of (handles (fst s)) f = Some i)
    (\<lambda>_ s. appending st0 w0 f c s \<and> map_of (handles (fst s)) f = None) (st, w)"
proof (cases "map_of (handles st) f")
  case (Some i)
  with a show ?thesis by (simp add: handle_def)
next
  case None
  let ?p = "segment_dir st0 @ [f]"
  have opened: "wpE (fs_chmod_fd i 384)
      (\<lambda>_. wpE (fs_len i)
         (\<lambda>_ w'. appending st0 w0 f c (st\<lparr>handles := bt_insert f i (handles st)\<rparr>, w'))
         (\<lambda>_ w'. appending st0 w0 f c (st, w'))) (\<lambda>_ w'. appending st0 w0 f c (st, w')) u"
    if u: "appending st0 w0 f c (st, u)" "node_at u ?p = Some (NFile i)" for u i
    using u by (intro wp_intros) (simp_all add: appending_register world_simps)
  have create: "appending st0 w0 f c (st, new_file ?p (tick w))" if "node_at w ?p = None"
    using appending_create(1) [of st0 w0 f c st "tick w"] a that by (simp add: world_simps)
  show ?thesis
    unfolding handle_def open_handle_def stage_sto_def stage_io_def
    by (simp add: None appending_segment_dir [OF a] path_join_plain_name [OF f])
      (intro wp_intros; (rule opened)?; simp add: a create appending_register world_simps)
qed

lemma overwrite_end: "overwrite (length c) b c = c @ b"
  by (simp add: overwrite_def)

lemma resize_prefix: "resize (length c) (c @ x) = c"
  by (simp add: resize_def)

text \<open>A failed append leaves a prefix of the frame behind, through an open handle only.\<close>

definition torn :: "FileStorage \<Rightarrow> world \<Rightarrow> string \<Rightarrow> bytes \<Rightarrow> FileStorage \<times> world \<Rightarrow> bool" where
  "torn st0 w0 f c s \<longleftrightarrow>
     (\<exists>x. appending st0 w0 f (c @ x) s \<and> (map_of (handles (fst s)) f = None \<longrightarrow> x = []))"

lemma torn_quiet: "appending st0 w0 f c (st, w) \<Longrightarrow> torn st0 w0 f c (st, w)"
  unfolding torn_def by (rule exI [of _ "[]"]) simp

lemma torn_write:
  "appending st0 w0 f (c @ x) (st, w) \<Longrightarrow> map_of (handles st) f = Some i \<Longrightarrow> torn st0 w0 f c (st, w)"
  by (auto simp: torn_def)

lemma appending_write:
  assumes "appending st0 w0 f c (st, w)" "map_of (handles st) f = Some i" "n = length c"
  shows "appending st0 w0 f (c @ b) (st, put_data i (overwrite n b (contents w i)) (tick w))"
proof -
  have "contents w i = c" using appending_handle [OF assms(1,2)] by simp
  then have eq: "overwrite n b (contents w i) = c @ b" by (simp add: assms(3) overwrite_end)
  show ?thesis unfolding eq by (rule appending_put [OF _ assms(2)]) (use assms(1) in simp)
qed

lemma appending_quiet:
  assumes "appending st0 w0 f c (st, w)" "only_touches {} w w'"
  shows "appending st0 w0 f c (st, w')"
proof -
  have "view w' = view w" "node_at w' = node_at w" "world_ok w'"
    using assms(2) by (auto simp: only_touches_def)
  then show ?thesis
    using assms only_touches_trans [OF _ only_touches_mono [OF assms(2)]]
    by (auto simp: appending_def storage_ok_def file_bytes_def)
qed

lemma wp_sync_directory_appending:
  assumes a: "appending st0 w0 f c (st, w)"
    and "\<And>e w'. appending st0 w0 f c (st, w') \<Longrightarrow> R e w'" "\<And>w'. appending st0 w0 f c (st, w') \<Longrightarrow> Q () w'"
  shows "wpE (sync_directory p) Q R w"
proof (rule wp_sync_directory)
  show "world_ok w" using a by (simp add: appending_def storage_ok_def)
qed (use assms(2,3) appending_quiet [OF a] in blast)+

lemma store_frame_spec:
  assumes a: "appending st0 w0 f c (st, w)" and h: "map_of (handles st) f = Some i"
    and n: "af_previous_offset frame = length c"
  shows "wpE (store_frame af ff sf p i frame)
    (\<lambda>_ s. appending st0 w0 f (c @ af_bytes frame) s \<and> torn st0 w0 f c s) (\<lambda>_. torn st0 w0 f c) (st, w)"
proof -
  note wrote = appending_write [OF a h n]
  have torn: "torn st0 w0 f c (st, put_data i (overwrite (af_previous_offset frame) b (contents w i)) (tick w))"
    for b by (rule torn_write [OF wrote h])
  have stored: "appending st0 w0 f (c @ b) (st, u) \<Longrightarrow> torn st0 w0 f c (st, u)" for b u
    using torn_write [OF _ h] by blast
  show ?thesis
    unfolding store_frame_def stage_sto_def stage_io_def
    by (cases af; cases ff; cases sf; simp;
        intro wp_intros wp_sync_directory_appending
          [where c = "c @ af_bytes frame" and ?st0.0 = st0 and ?w0.0 = w0 and f = f and st = st];
        (intro conjI)?; simp add: torn wrote stored [of "af_bytes frame"])
qed

lemma append_at_spec:
  assumes a: "appending st0 w0 f c (st, w)" and f: "plain_name f"
    and n: "af_previous_offset frame = length c" "af_filename frame = f"
  shows "wpE (append_at af ff sf p frame)
    (\<lambda>_ s. appending st0 w0 f (c @ af_bytes frame) s \<and> torn st0 w0 f c s) (\<lambda>_. torn st0 w0 f c) (st, w)"
  unfolding append_at_def n(2) wpE_bind
proof (rule wpE_mono [OF handle_spec [OF a f]], goal_cases)
  case (1 i s)
  obtain st2 w2 where s: "s = (st2, w2)" by fastforce
  with 1 have 2: "appending st0 w0 f c (st2, w2)" "map_of (handles st2) f = Some i" by simp_all
  have len: "length (contents w2 i) = length c" using appending_handle [OF 2] by simp
  have t: "torn st0 w0 f c (st2, tick w2)" "torn st0 w0 f c (st2, tick (tick w2))"
    using 2(1) by (auto intro!: torn_quiet)
  have st: "wpE (store_frame af ff sf p i frame)
      (\<lambda>_ s. appending st0 w0 f (c @ af_bytes frame) s \<and> torn st0 w0 f c s) (\<lambda>_. torn st0 w0 f c) (st2, tick (tick w2))"
    by (rule store_frame_spec [OF _ 2(2) n(1)]) (use 2 in simp)
  show ?case
    unfolding s stage_sto_def stage_io_def
    by (simp, intro wp_intros; simp add: t n(1) len; intro wp_intros; simp add: t st)
next
  case (2 e s)
  then show ?case by (cases s) (simp add: torn_quiet)
qed

lemma append_inner_spec:
  assumes "appending st0 w0 f c (st, w)" "plain_name f"
    "af_previous_offset frame = length c" "af_filename frame = f"
  shows "wpE (append_inner frame)
    (\<lambda>_ s. appending st0 w0 f (c @ af_bytes frame) s \<and> torn st0 w0 f c s) (\<lambda>_. torn st0 w0 f c) (st, w)"
  unfolding append_inner_def Let_def wpE_bind wpE_gets wpE_try
  by (intro wp_intros; rule append_at_spec; simp add: assms)

lemma rollback_spec:
  assumes t: "torn st0 w0 f c (st, w)"
  shows "wpE (rollback f (length c)) (\<lambda>_. appending st0 w0 f c) (\<lambda>_ s. \<exists>b. appending st0 w0 f b s) (st, w)"
proof -
  obtain x where a: "appending st0 w0 f (c @ x) (st, w)"
    and none: "map_of (handles st) f = None \<Longrightarrow> x = []" using t by (auto simp: torn_def)
  have any: "\<exists>b. appending st0 w0 f b (st, w)" using a by blast
  show ?thesis
  proof (cases "map_of (handles st) f")
    case None
    with a none show ?thesis
      unfolding rollback_def Let_def by (simp, intro wp_intros) auto
  next
    case (Some i)
    have "appending st0 w0 f c (st, put_data i (resize (length c) (contents w i)) (tick w))"
      using appending_put [of st0 w0 f "c @ x" st "tick w" i] a Some appending_handle [OF a Some]
      by (simp add: resize_prefix)
    with any Some show ?thesis
      unfolding rollback_def stage_sto_def stage_io_def Let_def
      by (simp, intro wp_intros; auto; intro wp_intros; auto)
  qed
qed

definition append_scope :: "FileStorage \<Rightarrow> string \<Rightarrow> path set" where
  "append_scope st f = insert (segment_dir st @ [f]) (write_scope (stream_dir st) (metadata_path st))"

text \<open>After the metadata write: the frame's file holds \<open>c\<close>, the metadata file one of \<open>M\<close>.\<close>

definition appended ::
  "FileStorage \<Rightarrow> world \<Rightarrow> string \<Rightarrow> bytes \<Rightarrow> bytes option set \<Rightarrow> FileStorage \<times> world \<Rightarrow> bool" where
  "appended st0 w0 f c M s \<longleftrightarrow>
     (case s of (st, w) \<Rightarrow> same_paths st0 st \<and> storage_ok st w
        \<and> only_touches (append_scope st0 f) w0 w
        \<and> file_bytes w (segment_dir st0 @ [f]) = c \<and> view w (metadata_path st0) \<in> M)"

lemma same_paths_layout: "same_paths st0 st \<Longrightarrow> layout_ok st = layout_ok st0"
  by (simp add: same_paths_def layout_ok_def)

lemma layout_disjoint:
  assumes "layout_ok st"
  shows "segment_dir st @ [h] \<notin> write_scope (stream_dir st) (metadata_path st)"
    "metadata_path st \<noteq> segment_dir st @ [h]"
  using assms by (auto simp: layout_ok_def write_scope_def temporaries_def)

lemma appended_after_write:
  assumes a: "same_paths st0 st" "storage_ok st w" "only_touches (append_scope st0 f) w0 w"
    and "file_bytes w (segment_dir st0 @ [f]) = c"
    and t: "only_touches (write_scope (stream_dir st0) (metadata_path st0)) w u"
    and "view u (metadata_path st0) \<in> M"
  shows "appended st0 w0 f c M (st, u)"
proof -
  have lay: "layout_ok st" using a(2) by (simp add: storage_ok_def)
  have "segment_dir st0 @ [h] \<notin> write_scope (stream_dir st0) (metadata_path st0)" for h
    using layout_disjoint(1) [OF lay] a(1) by (simp add: same_paths_def)
  then have keep: "node_at u (segment_dir st0 @ [h]) = node_at w (segment_dir st0 @ [h])"
      "view u (segment_dir st0 @ [h]) = view w (segment_dir st0 @ [h])" for h
    using t by (auto simp: only_touches_def)
  have "storage_ok st u"
    using a t keep by (auto simp: storage_ok_def same_paths_def only_touches_def)
  moreover have "only_touches (append_scope st0 f) w0 u"
    by (rule only_touches_trans [OF a(3) only_touches_mono [OF t]]) (auto simp: append_scope_def)
  ultimately show ?thesis using assms keep by (simp add: appended_def file_bytes_def)
qed

lemma appending_scope:
  assumes a: "appending st0 w0 f c (st, w)"
  shows "only_touches (append_scope st0 f) w0 w" "view w (metadata_path st0) = view w0 (metadata_path st0)"
    "same_paths st0 st" "storage_ok st w" "file_bytes w (segment_dir st0 @ [f]) = c"
proof -
  have "layout_ok st0"
    using a same_paths_layout by (auto simp: appending_def storage_ok_def)
  then show "view w (metadata_path st0) = view w0 (metadata_path st0)"
    using a layout_disjoint(2) by (auto simp: appending_def only_touches_def)
  show "only_touches (append_scope st0 f) w0 w"
    using a by (auto simp: appending_def append_scope_def elim!: only_touches_mono)
qed (use a in \<open>simp_all add: appending_def\<close>)

lemma appending_appended:
  "appending st0 w0 f c s \<Longrightarrow> view w0 (metadata_path st0) \<in> M \<Longrightarrow> appended st0 w0 f c M s"
  using appending_scope [of st0 w0 f c "fst s" "snd s"] by (cases s) (simp add: appended_def)

lemma appended_mono: "appended st0 w0 f c M s \<Longrightarrow> M \<subseteq> N \<Longrightarrow> appended st0 w0 f c N s"
  by (auto simp: appended_def)

text \<open>Writing the metadata file within an append.\<close>

lemma metadata_write_spec:
  assumes a: "same_paths st0 st" "storage_ok st w" "only_touches (append_scope st0 f) w0 w"
    and c: "file_bytes w (segment_dir st0 @ [f]) = c"
  shows "wpE (atomic_write_bytes (metadata_path st0) (stream_dir st0) b)
    (\<lambda>_ u. appended st0 w0 f c {Some b} (st, u))
    (\<lambda>_ u. appended st0 w0 f c {view w (metadata_path st0), Some b} (st, u)) w"
proof -
  obtain m where m: "metadata_path st0 = stream_dir st0 @ [m]" "plain_name m" and ok: "world_ok w"
    using a(1,2) by (auto simp: storage_ok_def layout_ok_def same_paths_def)
  show ?thesis
    using appended_after_write [OF a c]
    by (intro wpE_mono [OF atomic_write_bytes_spec [OF ok m(2), of "stream_dir st0" b, folded m(1)]])
      (auto simp: replaced_ok_def replaced_err_def)
qed

text \<open>What a failed append promises: unless poisoned, nothing of the frame is left.\<close>

definition append_failed ::
  "FileStorage \<Rightarrow> world \<Rightarrow> string \<Rightarrow> bytes \<Rightarrow> bytes \<Rightarrow> StorageError \<Rightarrow> FileStorage \<times> world \<Rightarrow> bool" where
  "append_failed st0 w0 f c m0 e s \<longleftrightarrow>
     (\<exists>b. appended st0 w0 f b UNIV s)
     \<and> (\<not> is_poisoned_error e \<longrightarrow> appended st0 w0 f c {Some m0} s)"

lemma append_failed_clean:
  "appended st0 w0 f c {Some m0} s \<Longrightarrow> append_failed st0 w0 f c m0 e s"
  by (auto simp: append_failed_def intro: appended_mono)

lemma append_failed_poisoned:
  "appended st0 w0 f b M s \<Longrightarrow> append_failed st0 w0 f c m0 (Poisoned x y) s"
  by (auto simp: append_failed_def intro: appended_mono)

lemma undo_frame_spec:
  assumes a: "same_paths st0 st" "storage_ok st u" "only_touches (append_scope st0 f) w0 u"
    and x: "file_bytes u (segment_dir st0 @ [f]) = c @ x" "map_of (handles st) f = None \<Longrightarrow> x = []"
    and n: "af_previous_offset frame = length c" "af_filename frame = f"
  shows "wpE (undo_frame e m0 frame) Q (append_failed st0 w0 f c m0) (st, u)"
proof -
  have paths: "segment_dir st = segment_dir st0" "metadata_path st = metadata_path st0"
    "stream_dir st = stream_dir st0" using a(1) by (simp_all add: same_paths_def)
  have "appending st u f (c @ x) (st, u)"
    using appending_start [OF a(2), of f] x(1) paths by simp
  then have torn: "torn st u f c (st, u)" using x(2) by (auto simp: torn_def)
  have meta: "wpE (atomic_write_bytes (metadata_path st0) (stream_dir st0) m0)
      (\<lambda>_ v. appended st0 w0 f b {Some m0} (st1, v)) (\<lambda>_ v. appended st0 w0 f b UNIV (st1, v)) u1"
    if ap: "appending st u f b (st1, u1)" for b st1 u1
  proof -
    have "same_paths st0 st1" "storage_ok st1 u1" "file_bytes u1 (segment_dir st0 @ [f]) = b"
      using ap a(1) by (auto simp: appending_def same_paths_def)
    moreover have "only_touches (append_scope st0 f) w0 u1"
      using ap paths only_touches_trans [OF a(3) only_touches_mono [of "{segment_dir st0 @ [f]}"]]
      by (auto simp: appending_def append_scope_def)
    ultimately show ?thesis
      by (intro wpE_mono [OF metadata_write_spec]) (auto intro: appended_mono)
  qed
  show ?thesis
    unfolding undo_frame_def n wpE_bind wpE_gets wpE_try fst_conv paths
  proof (rule wpE_mono [OF rollback_spec [OF torn]], goal_cases)
    case (1 y s)
    then show ?case
      by (cases s) (auto intro!: wpE_mono [OF meta [of c]] append_failed_clean append_failed_poisoned)
  next
    case (2 j s)
    then obtain b where "appending st u f b s" by blast
    then show ?case
      by (cases s) (auto intro!: wpE_mono [OF meta [of b]] append_failed_poisoned)
  qed
qed

lemma resolve_file: "node_at w p = Some (NFile i) \<Longrightarrow> resolve 40 w p = Inr (NFile i)"
  by (simp add: numeral_eq_Suc)

text \<open>Storing the metadata of an appended frame, or undoing it.\<close>

lemma publish_frame_spec:
  assumes a: "appending st0 w0 f (c @ af_bytes frame) (st, w)" and t: "torn st0 w0 f c (st, w)"
    and m0: "view w0 (metadata_path st0) = Some m0"
    and n: "af_previous_offset frame = length c" "af_filename frame = f"
  shows "wpE (publish_frame json m0 frame)
    (\<lambda>m s. m = af_proposed frame
       \<and> (\<exists>b. to_bytes json m = Inr b \<and> appended st0 w0 f (c @ af_bytes frame) {Some b} s))
    (append_failed st0 w0 f c m0) (st, w)"
    (is "wpE _ ?Q ?R _")
proof -
  note sc = appending_scope [OF a]
  have paths: "metadata_path st = metadata_path st0" "stream_dir st = stream_dir st0"
    using sc(3) by (simp_all add: same_paths_def)
  have none: "map_of (handles st) f = None \<Longrightarrow> af_bytes frame = []"
    using t sc(5) by (auto simp: torn_def appending_def)
  have undo: "wpE (undo_frame e m0 frame) ?Q ?R (st\<lparr>faults := fs\<rparr>, w)" for e fs
    by (rule undo_frame_spec [OF _ _ sc(1,5) _ n])
      (use sc(3,4) none in \<open>auto simp: same_paths_def storage_ok_obs\<close>)
  have undo': "wpE (undo_frame e m0 frame) ?Q ?R (st, u)"
    if u: "appended st0 w0 f (c @ af_bytes frame) M (st, u)" for e u M
    by (rule undo_frame_spec [OF _ _ _ _ none n]) (use u in \<open>auto simp: appended_def\<close>)
  have stored: "wpE (atomic_write_metadata json (metadata_path st0) (stream_dir st0) (af_proposed frame))
        (\<lambda>_ u. ?Q (af_proposed frame) (st, u)) (\<lambda>e u. wpE (undo_frame e m0 frame) ?Q ?R (st, u)) w"
  proof (cases "to_bytes json (af_proposed frame)")
    case (Inl e)
    with undo [of _ "faults st"] show ?thesis by (simp add: atomic_write_metadata_def)
  next
    case (Inr b)
    show ?thesis
      unfolding atomic_write_metadata_def Inr sum.case
      by (intro wpE_mono [OF metadata_write_spec [OF sc(3,4,1,5), of b]], simp) (rule undo')
  qed
  show ?thesis
    unfolding publish_frame_def wpE_bind wpE_gets wpE_try wpE_map_err fst_conv paths
    by (intro wp_intros; simp add: undo stored [simplified])
qed

lemma append_frame_spec:
  assumes ok: "storage_ok st w" and f: "plain_name f" "af_filename frame = f"
    and m0: "view w (metadata_path st) = Some m0"
    and c: "file_bytes w (segment_dir st @ [f]) = c" "af_previous_offset frame = length c"
  shows "wpE (append_frame json frame)
    (\<lambda>m s. m = af_proposed frame \<and> (\<exists>b. to_bytes json m = Inr b
       \<and> appended st w f (c @ af_bytes frame) {Some b} s))
    (append_failed st w f c m0) (st, w)"
    (is "wpE _ ?Q ?R _")
proof -
  obtain i where i: "node_at w (metadata_path st) = Some (NFile i)" "contents w i = m0"
    using view_SomeD [OF m0] by blast
  have start: "appending st w f c (st, tick w)" using appending_start [OF ok, of f] c(1) by simp
  have quiet: "?R e (st, tick w)" for e
    using appending_appended [OF start, of "{Some m0}"] m0 by (simp add: append_failed_clean)
  have clean: "?R (Recoverable e) s" if "appending st w f c s" for s e
    using appending_appended [OF that, of "{Some m0}"] m0 by (simp add: append_failed_clean)
  have bad: "?R (Poisoned e e') s" if "appending st w f b s" for s b e e'
    using appending_appended [OF that, of UNIV] by (auto intro: append_failed_poisoned)
  have roll: "wpE (rollback f (length c)) (\<lambda>_. ?R (Recoverable e)) (\<lambda>e'. ?R (Poisoned e e')) s"
    if "torn st w f c s" for e s
    using that clean bad by (cases s) (auto intro!: wpE_mono [OF rollback_spec])
  have inner: "wpE (append_inner frame) (\<lambda>_. wpE (publish_frame json m0 frame) ?Q ?R)
      (\<lambda>e. wpE (rollback f (length c)) (\<lambda>_. ?R (Recoverable e)) (\<lambda>e'. ?R (Poisoned e e'))) (st, tick w)"
    by (rule wpE_mono [OF append_inner_spec [OF start f(1) c(2) f(2)]])
      (auto intro: publish_frame_spec [OF _ _ m0 c(2) f(2)] roll)
  show ?thesis
    unfolding append_frame_def stage_sto_def stage_io_def wpE_bind wpE_gets fst_conv wpE_on_world
      wpE_map_err split_conv wpE_try f(2) c(2)
  proof (intro wp_intros quiet)
    fix j assume "resolve 40 w (metadata_path st) = Inr (NFile j)"
    then have j: "contents w j = m0" using i by (simp add: resolve_file)
    show "wpE (append_inner frame)
     (\<lambda>y. wpE (case Inr y of
          Inl append_error \<Rightarrow> tryE (rollback f (length c)) (\<lambda>rolled.
            case rolled of Inl e \<Rightarrow> throwE (Poisoned append_error e) | Inr _ \<Rightarrow> throwE (Recoverable append_error))
        | Inr _ \<Rightarrow> publish_frame json (contents w j) frame) ?Q ?R)
     (\<lambda>y. wpE (case Inl y of
          Inl append_error \<Rightarrow> tryE (rollback f (length c)) (\<lambda>rolled.
            case rolled of Inl e \<Rightarrow> throwE (Poisoned append_error e) | Inr _ \<Rightarrow> throwE (Recoverable append_error))
        | Inr _ \<Rightarrow> publish_frame json (contents w j) frame) ?Q ?R) (st, tick w)"
      using inner by (simp add: j)
  qed
qed

text \<open>
  C3. A file is replaced atomically: whatever system call of \<open>atomic_write_bytes\<close> fails, and
  however, the target holds its old bytes or the new ones, never a mixture; success means
  the new ones; and no file other than the target and hidden temporaries changes.
\<close>

theorem atomic_write_is_atomic:
  assumes "world_ok w" "plain_name n" "p = parent @ [n]"
  shows "case atomic_write_bytes p parent b w of
      (Inr _, w') \<Rightarrow> view w' p = Some b \<and> only_touches (write_scope parent p) w w'
    | (Inl _, w') \<Rightarrow> (view w' p = view w p \<or> view w' p = Some b)
        \<and> only_touches (write_scope parent p) w w'"
  using atomic_write_bytes_spec [OF assms(1,2), of parent b] assms(3)
  by (auto simp: wpE_def replaced_ok_def replaced_err_def split: prod.splits sum.splits)

definition no_write_fault :: AtomicWriteFaultState where
  "no_write_fault = set_atomic_write_fault None"

text \<open>A stream directory with an open segment and its metadata.\<close>

definition sample_world :: "outcome list \<Rightarrow> world" where
  "sample_world os =
     \<lparr>w_names = [([], NDir 0), ([''s''], NDir 1), ([''s'', ''x.incomplete''], NDir 2),
        ([''s'', ''x.incomplete.meta''], NFile 3)],
      w_data = [(3, ''{}'' @ [LF])], w_mode = [], w_next = 4, w_outcomes = os, w_pid = 7, w_counter = 0,
      w_fault = no_write_fault\<rparr>"

definition sample_storage :: FileStorage where
  "sample_storage = with_faults [''s'', ''x.incomplete''] [''s'', ''x.incomplete.meta''] [''s''] []"

lemma sample_world_ok: "world_ok (sample_world os)"
  by (rule world_ok_checked) (simp add: world_check_def sample_world_def)

lemma sample_storage_fields [simp]:
  "segment_dir sample_storage = [''s'', ''x.incomplete'']" "stream_dir sample_storage = [''s'']"
  "metadata_path sample_storage = [''s'', ''x.incomplete.meta'']" "handles sample_storage = []"
  by (simp_all add: sample_storage_def with_faults_def)

lemma plain_ascii:
  assumes "list_all (\<lambda>c. byte c < 128 \<and> c \<noteq> CHR ''/'') s" "s \<noteq> []" "s \<noteq> ''.''"
  shows "plain_name s"
proof -
  have "list_all (\<lambda>c. byte c < 128) s" using assms(1) by (simp add: list_all_iff)
  then have "valid_utf8 s" by (rule valid_utf8_ascii)
  moreover have "CHR ''/'' \<notin> set s" using assms(1) by (auto simp: list_all_iff)
  ultimately show ?thesis using assms(2,3) by (simp add: plain_name_def)
qed

lemma sample_storage_ok: "storage_ok sample_storage (sample_world os)"
  by (auto simp: storage_ok_def layout_ok_def sample_world_ok intro!: plain_ascii)

theorem atomic_write_is_atomic_witness:
  "case atomic_write_bytes [''s'', ''x.incomplete.meta''] [''s''] ''new''
        (sample_world [Succeed, Succeed, Succeed, Fail 1]) of
      (Inr _, w') \<Rightarrow> view w' [''s'', ''x.incomplete.meta''] = Some ''new''
        \<and> only_touches (write_scope [''s''] [''s'', ''x.incomplete.meta'']) (sample_world [Succeed, Succeed, Succeed, Fail 1]) w'
    | (Inl _, w') \<Rightarrow> (view w' [''s'', ''x.incomplete.meta'']
          = view (sample_world [Succeed, Succeed, Succeed, Fail 1]) [''s'', ''x.incomplete.meta'']
        \<or> view w' [''s'', ''x.incomplete.meta''] = Some ''new'')
        \<and> only_touches (write_scope [''s''] [''s'', ''x.incomplete.meta'']) (sample_world [Succeed, Succeed, Succeed, Fail 1]) w'"
  by (rule atomic_write_is_atomic [of _ "''x.incomplete.meta''"])
    (simp_all add: sample_world_ok plain_ascii)


text \<open>A frame for the sample storage.\<close>

definition sample_metadata :: SegmentMetadata where
  "sample_metadata =
     \<lparr>schema_version = 1, lifecycle = Open, incomplete_name = ''x.incomplete'', finalized_dir = ''x_001'',
      start_wall_unix_nanos = 0, local_offset_seconds = 0, md_tz = None, elapsed_nanos = 1000000000,
      last_durable_frame_id = 0, durable_frame_count = 0, has_durable_frames = False,
      activity_durable_offset = 0, sessions = []\<rparr>"

definition sample_frame :: AppendFrame where
  "sample_frame = \<lparr>af_filename = ''tmux_main_screen.jsonl'', af_previous_offset = 0, af_bytes = ''row'',
     af_proposed = sample_metadata\<rparr>"

lemma sample_frame_fields [simp]:
  "af_filename sample_frame = ''tmux_main_screen.jsonl''" "af_previous_offset sample_frame = 0"
  "af_bytes sample_frame = ''row''" "af_proposed sample_frame = sample_metadata"
  by (simp_all add: sample_frame_def)

lemma sample_views:
  "view (sample_world os) [''s'', ''x.incomplete.meta''] = Some (''{}'' @ [LF])"
  "file_bytes (sample_world os) [''s'', ''x.incomplete'', ''tmux_main_screen.jsonl''] = []"
  by (simp_all add: file_bytes_def view_def node_at_def contents_def sample_world_def)


subsection \<open>The interface\<close>

text \<open>
  The trait \<open>DurableStorage\<close>: what a segment relies on. \<open>home\<close> gives the segment's directory,
  its metadata file and the stream directory, \<open>ready\<close> the storage's invariant.
\<close>

locale durable_storage =
  fixes append :: "AppendFrame \<Rightarrow> ('h, StorageError, SegmentMetadata) sto"
    and persist :: "SegmentMetadata \<Rightarrow> ('h, StorageError, unit) sto"
    and close :: "('h, StorageError, unit) sto"
    and ready :: "'h \<Rightarrow> world \<Rightarrow> bool"
    and home :: "'h \<Rightarrow> path \<times> path \<times> path"
    and enc :: "SegmentMetadata \<Rightarrow> StorageError + bytes"
  assumes ready_layout: "ready h w \<Longrightarrow> home h = (d, m, s)
      \<Longrightarrow> world_ok w \<and> (\<exists>x y. d = s @ [x] \<and> m = s @ [y] \<and> plain_name y)"
    and append_law: "ready h w \<Longrightarrow> home h = (d, m, s) \<Longrightarrow> plain_name (af_filename fr)
      \<Longrightarrow> view w m = Some m0 \<Longrightarrow> length (file_bytes w (d @ [af_filename fr])) = af_previous_offset fr
      \<Longrightarrow> wpE (append fr)
        (\<lambda>x (h', w'). x = af_proposed fr \<and> ready h' w' \<and> home h' = home h
           \<and> only_touches (insert (d @ [af_filename fr]) (write_scope s m)) w w'
           \<and> file_bytes w' (d @ [af_filename fr]) = file_bytes w (d @ [af_filename fr]) @ af_bytes fr
           \<and> (\<exists>b. enc x = Inr b \<and> view w' m = Some b))
        (\<lambda>e (h', w'). ready h' w' \<and> home h' = home h
           \<and> only_touches (insert (d @ [af_filename fr]) (write_scope s m)) w w'
           \<and> (is_poisoned_error e
               \<or> file_bytes w' (d @ [af_filename fr]) = file_bytes w (d @ [af_filename fr])
                 \<and> view w' m = Some m0)) (h, w)"
    and persist_law: "ready h w \<Longrightarrow> home h = (d, m, s)
      \<Longrightarrow> wpE (persist md)
        (\<lambda>_ (h', w'). ready h' w' \<and> home h' = home h \<and> only_touches (write_scope s m) w w'
           \<and> (\<exists>b. enc md = Inr b \<and> view w' m = Some b))
        (\<lambda>_ (h', w'). ready h' w' \<and> home h' = home h \<and> only_touches (write_scope s m) w w') (h, w)"
    and close_law: "ready h w
      \<Longrightarrow> wpE close (\<lambda>_ (h', w'). ready h' w' \<and> home h' = home h \<and> only_touches {} w w')
        (\<lambda>_ (h', w'). ready h' w' \<and> home h' = home h \<and> only_touches {} w w') (h, w)"

lemma write_metadata_spec:
  assumes ok: "storage_ok st w"
  shows "wpE (write_metadata json md)
    (\<lambda>_ (st', w'). storage_ok st' w' \<and> same_paths st st'
       \<and> only_touches (write_scope (stream_dir st) (metadata_path st)) w w'
       \<and> (\<exists>b. to_bytes json md = Inr b \<and> view w' (metadata_path st) = Some b))
    (\<lambda>_ (st', w'). storage_ok st' w' \<and> same_paths st st'
       \<and> only_touches (write_scope (stream_dir st) (metadata_path st)) w w') (st, w)"
proof -
  obtain m where m: "metadata_path st = stream_dir st @ [m]" "plain_name m" and w: "world_ok w"
    using ok by (auto simp: storage_ok_def layout_ok_def)
  have keep: "storage_ok st u" if t: "only_touches (write_scope (stream_dir st) (metadata_path st)) w u" for u
    using ok t layout_disjoint(1) [of st] by (auto simp: storage_ok_def only_touches_def)
  show ?thesis
    unfolding write_metadata_def wpE_bind wpE_gets wpE_on_world split_conv fst_conv
    using atomic_write_metadata_spec [OF w m(2), of json "stream_dir st" md] keep
    unfolding m(1) [symmetric]
    by (elim wpE_mono) (auto simp: replaced_ok_def replaced_err_def same_paths_def)
qed

lemma sync_and_close_spec:
  assumes ok: "storage_ok st w"
  shows "wpE sync_and_close
    (\<lambda>_ (st', w'). storage_ok st' w' \<and> same_paths st st' \<and> handles st' = [] \<and> only_touches {} w w')
    (\<lambda>_ (st', w'). storage_ok st' w' \<and> same_paths st st' \<and> only_touches {} w w') (st, w)"
proof -
  let ?I = "\<lambda>s. case s of (st', w') \<Rightarrow> st' = st\<lparr>handles := []\<rparr> \<and> only_touches {} w w'"
  have inv: "storage_ok (st\<lparr>handles := []\<rparr>) w' \<and> same_paths st (st\<lparr>handles := []\<rparr>)"
    if "only_touches {} w w'" for w'
    using ok that by (auto simp: storage_ok_def same_paths_def only_touches_def)
  have loop: "wpE (forE (\<lambda>(f, i). stage_sto ''final fsync'' (path_join (segment_dir st) f) fs_fsync) (handles st))
      (\<lambda>_. ?I) (\<lambda>_. ?I) (st\<lparr>handles := []\<rparr>, w)"
  proof (rule wpE_forE)
    fix x s assume I: "?I s"
    then show "wpE (case x of (f, i) \<Rightarrow> stage_sto ''final fsync'' (path_join (segment_dir st) f) fs_fsync)
        (\<lambda>_. ?I) (\<lambda>_. ?I) s"
      by (cases x; cases s; simp add: stage_sto_def stage_io_def; intro wp_intros;
          simp add: only_touches_def world_simps)
  qed (use ok in \<open>simp add: storage_ok_def only_touches_refl\<close>)
  show ?thesis
    unfolding sync_and_close_def
    by (simp, rule wpE_mono [OF loop]) (auto simp: inv)
qed

interpretation file_storage: durable_storage "append_frame json" "write_metadata json" sync_and_close
  storage_ok "\<lambda>st. (segment_dir st, metadata_path st, stream_dir st)" "to_bytes json" for json
proof (unfold_locales, goal_cases)
  case (1 h w d m s)
  then show ?case by (auto simp: storage_ok_def layout_ok_def)
next
  case (2 h w d m s fr m0)
  then have "wpE (append_frame json fr)
    (\<lambda>x s. x = af_proposed fr \<and> (\<exists>b. to_bytes json x = Inr b
       \<and> appended h w (af_filename fr) (file_bytes w (d @ [af_filename fr]) @ af_bytes fr) {Some b} s))
    (append_failed h w (af_filename fr) (file_bytes w (d @ [af_filename fr])) m0) (h, w)"
    by (intro append_frame_spec) auto
  then show ?case
    using 2 by (elim wpE_mono) (auto simp: appended_def append_failed_def same_paths_def append_scope_def)
next
  case (3 h w d m s md)
  then show ?case
    by (auto simp: same_paths_def intro!: wpE_mono [OF write_metadata_spec [of h w json md]])
next
  case (4 h w)
  then show ?case
    by (auto simp: same_paths_def intro!: wpE_mono [OF sync_and_close_spec [of h w]])
qed

end
