(* ===== verification/Paths.thy ===== *)
theory Paths
  imports Fs
begin

text \<open>
  Where the program keeps its data (\<open>src/paths.rs\<close>, \<open>src/paths/linux.rs\<close>,
  \<open>src/paths/macos.rs\<close>) and how it creates its private directories.
\<close>

datatype PlatformKind = Linux | Macos

definition pairing_platform :: "PlatformKind \<Rightarrow> string" where
  "pairing_platform k = (case k of Linux \<Rightarrow> ''linux'' | Macos \<Rightarrow> ''macos'')"

record PlatformPaths =
  data_root :: path
  config_root :: path

datatype PathError =
    MissingHome
  | PathName NameError
  | PathInvalidTarget path
  | PathIo path io_error

text \<open>\<open>PathBuf::from\<close> of an environment value.\<close>

definition path_of :: "string \<Rightarrow> path" where
  "path_of s = path_join [] s"

definition nonempty :: "string option \<Rightarrow> string option" where
  "nonempty v = (case v of None \<Rightarrow> None | Some s \<Rightarrow> if s = [] then None else Some s)"

definition linux_root :: "(string \<Rightarrow> string option) \<Rightarrow> string \<Rightarrow> string \<Rightarrow> PathError + path" where
  "linux_root env var below =
     (case nonempty (env ''HOME'') of
        None \<Rightarrow> Inl MissingHome
      | Some home \<Rightarrow>
          Inr (path_join
            (case nonempty (env var) of
               Some d \<Rightarrow> path_of d
             | None \<Rightarrow> path_join (path_of home) below) ''solstone-tmux''))"

definition linux_data_root :: "(string \<Rightarrow> string option) \<Rightarrow> PathError + path" where
  "linux_data_root env = linux_root env ''XDG_DATA_HOME'' ''.local/share''"

definition linux_config_root :: "(string \<Rightarrow> string option) \<Rightarrow> PathError + path" where
  "linux_config_root env = linux_root env ''XDG_CONFIG_HOME'' ''.config''"

definition macos_root :: "(string \<Rightarrow> string option) \<Rightarrow> PathError + path" where
  "macos_root env =
     (case nonempty (env ''HOME'') of
        None \<Rightarrow> Inl MissingHome
      | Some home \<Rightarrow> Inr (path_join (path_of home) ''Library/Application Support/solstone-tmux''))"

definition resolve_data_root :: "PlatformKind \<Rightarrow> (string \<Rightarrow> string option) \<Rightarrow> PathError + path" where
  "resolve_data_root k env = (case k of Linux \<Rightarrow> linux_data_root env | Macos \<Rightarrow> macos_root env)"

definition resolve_config_root :: "PlatformKind \<Rightarrow> (string \<Rightarrow> string option) \<Rightarrow> PathError + path" where
  "resolve_config_root k env = (case k of Linux \<Rightarrow> linux_config_root env | Macos \<Rightarrow> macos_root env)"

definition resolve_paths :: "PlatformKind \<Rightarrow> (string \<Rightarrow> string option) \<Rightarrow> PathError + PlatformPaths" where
  "resolve_paths k env =
     (case resolve_data_root k env of
        Inl e \<Rightarrow> Inl e
      | Inr d \<Rightarrow> (case resolve_config_root k env of
          Inl e \<Rightarrow> Inl e
        | Inr c \<Rightarrow> Inr \<lparr>data_root = d, config_root = c\<rparr>))"

definition resolve_stream_paths ::
  "PlatformKind \<Rightarrow> (string \<Rightarrow> string option) \<Rightarrow> string \<Rightarrow> PathError + DerivedName \<times> PlatformPaths" where
  "resolve_stream_paths k env stream =
     (case derive_component stream of
        Inl e \<Rightarrow> Inl (PathName e)
      | Inr n \<Rightarrow> (case resolve_paths k env of Inl e \<Rightarrow> Inl e | Inr p \<Rightarrow> Inr (n, p)))"

subsection \<open>Private directories\<close>

text \<open>Octal 700 and 777.\<close>

definition DIR_MODE :: nat where "DIR_MODE = 448"
definition MODE_BITS :: nat where "MODE_BITS = 512"

definition set_and_verify_mode :: "path \<Rightarrow> nat \<Rightarrow> bool \<Rightarrow> (PathError, unit) io" where
  "set_and_verify_mode p mode directory =
     bindE (map_errE (PathIo p) (fs_chmod p mode)) (\<lambda>_.
     bindE (map_errE (PathIo p) (fs_lstat p)) (\<lambda>n.
     bindE (getsE (\<lambda>w. case node_ino n of None \<Rightarrow> 0 | Some i \<Rightarrow> mode_of w i)) (\<lambda>found.
     if (case n of NLink _ \<Rightarrow> True | NDir _ \<Rightarrow> \<not> directory | NFile _ \<Rightarrow> directory)
        \<or> found mod MODE_BITS \<noteq> mode
     then throwE (PathInvalidTarget p)
     else returnE ())))"

text \<open>The loop that climbs to the first existing ancestor; the missing ones, innermost first.\<close>

function missing_dirs :: "path \<Rightarrow> path \<Rightarrow> (PathError, path list) io" where
  "missing_dirs target current =
     tryE (fs_lstat current) (\<lambda>found.
       case found of
         Inr (NDir _) \<Rightarrow> returnE []
       | Inr _ \<Rightarrow> throwE (PathInvalidTarget current)
       | Inl NotFound \<Rightarrow>
           if current = [] then throwE (PathInvalidTarget target)
           else bindE (missing_dirs target (butlast current)) (\<lambda>more. returnE (current # more))
       | Inl e \<Rightarrow> throwE (PathIo current e))"
  by pat_completeness auto
termination
  by (relation "measure (\<lambda>(_, c). length c)") auto

declare missing_dirs.simps [simp del]

definition create_private :: "path \<Rightarrow> (PathError, unit) io" where
  "create_private d =
     bindE (map_errE (PathIo d) (fs_create_dir d)) (\<lambda>_. set_and_verify_mode d DIR_MODE True)"

definition ensure_directory :: "path \<Rightarrow> bool \<Rightarrow> (PathError, unit) io" where
  "ensure_directory p enforce_existing_mode =
     (if p = [] then throwE (PathInvalidTarget p)
      else
        bindE (missing_dirs p p) (\<lambda>missing.
        bindE (forE create_private (rev missing)) (\<lambda>_.
        if enforce_existing_mode \<or> missing \<noteq> []
        then set_and_verify_mode p DIR_MODE True else returnE ())))"

definition ensure_private_directory :: "path \<Rightarrow> (PathError, unit) io" where
  "ensure_private_directory p = ensure_directory p True"

definition ensure_service_directory :: "path \<Rightarrow> (PathError, unit) io" where
  "ensure_service_directory p = ensure_directory p False"

subsection \<open>What the directories promise\<close>

definition private_dir :: "world \<Rightarrow> path \<Rightarrow> bool" where
  "private_dir w p \<longleftrightarrow>
     (case node_at w p of Some (NDir i) \<Rightarrow> mode_of w i mod MODE_BITS = DIR_MODE | _ \<Rightarrow> False)"

text \<open>Directories and modes may appear; no file changes and no node is lost.\<close>

definition dirs_only :: "world \<Rightarrow> world \<Rightarrow> bool" where
  "dirs_only w w' \<longleftrightarrow>
     world_ok w' \<and> (\<forall>p n. node_at w p = Some n \<longrightarrow> node_at w' p = Some n)
     \<and> view w' = view w \<and> (\<forall>p. node_at w p = None \<longrightarrow> node_at w' p \<noteq> None \<longrightarrow> is_dir w' p)"

lemma dirs_only_refl: "world_ok w \<Longrightarrow> dirs_only w w"
  by (simp add: dirs_only_def)

lemma dirs_only_dir: "dirs_only w w' \<Longrightarrow> is_dir w p \<Longrightarrow> is_dir w' p"
  by (auto simp: dirs_only_def is_dir_def split: option.splits node.splits)

lemma dirs_only_trans:
  assumes "dirs_only w w'" "dirs_only w' w''"
  shows "dirs_only w w''"
proof -
  have "is_dir w'' p" if "node_at w p = None" "node_at w'' p \<noteq> None" for p
  proof (cases "node_at w' p = None")
    case True
    with that assms(2) show ?thesis by (simp add: dirs_only_def)
  next
    case False
    with that assms(1) have "is_dir w' p" by (simp add: dirs_only_def)
    with assms(2) show ?thesis by (rule dirs_only_dir)
  qed
  with assms show ?thesis by (simp add: dirs_only_def)
qed

lemma dirs_only_obs:
  "dirs_only w (tick w') = dirs_only w w'" "dirs_only w (put_mode i m w') = dirs_only w w'"
  by (simp_all add: dirs_only_def world_simps)

lemma dirs_only_new:
  assumes "dirs_only w w'" "node_at w' p = None"
  shows "dirs_only w (new_dir p w')"
proof -
  have "view w' p = None" using assms(2) by (simp add: view_def)
  with assms show ?thesis
    by (auto simp: dirs_only_def world_simps world_upd fun_eq_iff)
qed

lemma set_and_verify_spec:
  assumes "dirs_only w0 w"
  shows "wpE (set_and_verify_mode p DIR_MODE True)
    (\<lambda>_ w'. dirs_only w0 w' \<and> private_dir w' p) (\<lambda>_ w'. dirs_only w0 w') w"
  unfolding set_and_verify_mode_def wpE_bind wpE_map_err wpE_gets
  by (intro wp_intros)
    (use assms in \<open>auto simp: dirs_only_obs private_dir_def world_simps split: node.splits\<close>)

lemma missing_dirs_spec:
  assumes "dirs_only w0 w"
  shows "wpE (missing_dirs t c) (\<lambda>_ w'. dirs_only w0 w') (\<lambda>_ w'. dirs_only w0 w') w"
  using assms
proof (induction t c arbitrary: w rule: missing_dirs.induct)
  case (1 t c)
  have "wpE (missing_dirs t (butlast c)) (\<lambda>_ w'. dirs_only w0 w') (\<lambda>_ w'. dirs_only w0 w') (tick w)"
    if "c \<noteq> []" by (rule "1.IH") (use 1 that in \<open>simp_all add: dirs_only_obs\<close>)
  with 1(2) show ?case
    unfolding missing_dirs.simps [of t c] wpE_try
    by (intro wp_intros) (auto simp: dirs_only_obs EIO_def split: node.splits)
qed

lemma create_private_spec:
  assumes "dirs_only w0 w"
  shows "wpE (create_private d) (\<lambda>_ w'. dirs_only w0 w') (\<lambda>_ w'. dirs_only w0 w') w"
  unfolding create_private_def wpE_bind wpE_map_err
  using assms
  by (intro wp_intros wpE_mono [OF set_and_verify_spec])
    (auto simp: dirs_only_obs world_simps intro: dirs_only_new)

lemma ensure_private_directory_spec:
  assumes "world_ok w"
  shows "wpE (ensure_private_directory p) (\<lambda>_ w'. dirs_only w w' \<and> private_dir w' p)
      (\<lambda>_ w'. dirs_only w w') w"
proof (cases "p = []")
  case False
  have loop: "wpE (forE create_private ds) (\<lambda>_. dirs_only w) (\<lambda>_. dirs_only w) u"
    if "dirs_only w u" for ds u
    using that by (intro wpE_forE create_private_spec) auto
  have "wpE (forE create_private ds)
     (\<lambda>_. wpE (set_and_verify_mode p DIR_MODE True)
        (\<lambda>_ w'. dirs_only w w' \<and> private_dir w' p) (\<lambda>_. dirs_only w)) (\<lambda>_. dirs_only w) u"
    if "dirs_only w u" for ds u
    by (rule wpE_mono [OF loop [OF that]]) (auto intro: set_and_verify_spec)
  with False assms show ?thesis
    by (auto simp: ensure_private_directory_def ensure_directory_def dirs_only_refl
        intro!: wpE_mono [OF missing_dirs_spec])
qed (use assms in \<open>simp add: ensure_private_directory_def ensure_directory_def dirs_only_refl\<close>)

text \<open>
  Success of \<open>ensure_private_directory\<close> means the path is a real directory with mode
  0700; success or not, no file content changes and no existing node is replaced, and every
  node that appears is a directory.
\<close>

theorem ensure_private_directory_is_private:
  assumes "world_ok w"
  shows "case ensure_private_directory p w of
      (Inr _, w') \<Rightarrow> private_dir w' p \<and> dirs_only w w'
    | (Inl _, w') \<Rightarrow> dirs_only w w'"
  using ensure_private_directory_spec [OF assms, of p]
  by (auto simp: wpE_def split: prod.splits sum.splits)

definition bare_world :: "outcome list \<Rightarrow> world" where
  "bare_world os =
     \<lparr>w_names = [([], NDir 0), ([''home''], NDir 1)], w_data = [], w_mode = [(1, 493)], w_next = 2,
      w_outcomes = os, w_pid = 7, w_counter = 0,
      w_fault = \<lparr>af_fault = None, af_target = None, af_prefix = None, af_remaining = 0\<rparr>\<rparr>"

lemma bare_world_ok: "world_ok (bare_world os)"
  by (rule world_ok_checked) (simp add: world_check_def bare_world_def)

theorem ensure_private_directory_is_private_witness:
  "case ensure_private_directory [''home'', ''a'', ''b''] (bare_world []) of
      (Inr _, w') \<Rightarrow> private_dir w' [''home'', ''a'', ''b''] \<and> dirs_only (bare_world []) w'
    | (Inl _, w') \<Rightarrow> dirs_only (bare_world []) w'"
  by (rule ensure_private_directory_is_private) (rule bare_world_ok)

lemma ensure_private_directory_runs:
  "case ensure_private_directory [''home'', ''a'', ''b''] (bare_world []) of (r, w') \<Rightarrow> r = Inr ()"
  by code_simp

end
