(* ===== verification/Model.thy ===== *)
theory Model
  imports Text
begin

text \<open>
  The data the observer takes from tmux and hands to a segment (\<open>src/model.rs\<close>). Indices and
  sizes are \<open>u32\<close>, client activity times \<open>i64\<close>.
\<close>

record ClientInfo =
  ci_session :: string
  ci_activity :: int

record WindowInfo =
  win_id :: string
  win_index :: nat
  win_name :: string
  win_active :: bool

record PaneInfo =
  pane_id :: string
  pane_index :: nat
  pane_left :: nat
  pane_top :: nat
  pane_width :: nat
  pane_height :: nat
  pane_active :: bool
  cursor_x :: nat
  cursor_y :: nat
  cursor_visible :: bool
  alternate_on :: bool
  pane_in_mode :: bool
  pane_content :: string

record CaptureResult =
  cap_session :: string
  cap_window :: WindowInfo
  cap_windows :: "WindowInfo list"
  cap_panes :: "PaneInfo list"
  output_only :: bool

record PollOutcome =
  captures :: "CaptureResult list"
  activity_jsonl :: bytes

end
