(* ===== verification/Serialize.thy ===== *)
theory Serialize
  imports Model
begin

text \<open>
  What a frame and an activity row say (\<open>src/serialize.rs\<close>): the envelope built from a
  capture, and the formatter that keeps the JSON text ASCII. The walk of \<open>serde_json\<close> over a
  value, with its number formatting, is a parameter; \<open>'ts\<close> is the floating-point timestamp.
\<close>

subsection \<open>The envelope\<close>

record ActiveWindow =
  aw_id :: string
  aw_index :: nat
  aw_name :: string

record PaneRow =
  pr_id :: string
  pr_index :: nat
  pr_left :: nat
  pr_top :: nat
  pr_width :: nat
  pr_height :: nat
  pr_active :: bool
  pr_cursor_x :: "nat option"
  pr_cursor_y :: "nat option"
  pr_cursor_visible :: "bool option"
  pr_alternate_on :: bool
  pr_in_mode :: bool
  pr_content :: string

record TmuxContent =
  tc_session :: string
  tc_window :: ActiveWindow
  tc_windows :: "WindowInfo list"
  tc_panes :: "PaneRow list"

record Analysis =
  visual_description :: string
  primary :: string
  secondary :: string
  overlap :: bool

record 'ts Envelope =
  env_frame_id :: nat
  env_timestamp :: 'ts
  env_requests :: "unit list"
  env_analysis :: Analysis
  env_content :: TmuxContent

definition then_some :: "bool \<Rightarrow> 'a \<Rightarrow> 'a option" where
  "then_some b x = (if b then Some x else None)"

definition pane_row :: "PaneInfo \<Rightarrow> bool \<Rightarrow> PaneRow" where
  "pane_row p with_cursor =
     \<lparr>pr_id = pane_id p, pr_index = pane_index p, pr_left = pane_left p, pr_top = pane_top p,
      pr_width = pane_width p, pr_height = pane_height p, pr_active = pane_active p,
      pr_cursor_x = then_some with_cursor (cursor_x p),
      pr_cursor_y = then_some with_cursor (cursor_y p),
      pr_cursor_visible = then_some with_cursor (cursor_visible p),
      pr_alternate_on = alternate_on p, pr_in_mode = pane_in_mode p, pr_content = pane_content p\<rparr>"

definition describe :: "CaptureResult \<Rightarrow> string" where
  "describe r =
     ''Terminal session '' @ [CHR 0x27] @ cap_session r @ [CHR 0x27] @ '' with ''
     @ dec_of_nat (length (cap_panes r)) @ '' ''
     @ (if length (cap_panes r) = 1 then ''pane'' else ''panes'')
     @ '' in window '' @ [CHR 0x27] @ win_name (cap_window r) @ [CHR 0x27]"

definition envelope :: "CaptureResult \<Rightarrow> nat \<Rightarrow> 'ts \<Rightarrow> 'ts Envelope" where
  "envelope r frame_id timestamp =
     \<lparr>env_frame_id = frame_id, env_timestamp = timestamp, env_requests = [],
      env_analysis = \<lparr>visual_description = describe r, primary = ''tmux'', secondary = ''none'',
                      overlap = False\<rparr>,
      env_content =
        \<lparr>tc_session = cap_session r,
         tc_window = \<lparr>aw_id = win_id (cap_window r), aw_index = win_index (cap_window r),
                      aw_name = win_name (cap_window r)\<rparr>,
         tc_windows = cap_windows r,
         tc_panes = map (\<lambda>p. pane_row p (\<not> output_only r)) (cap_panes r)\<rparr>\<rparr>"

definition serialize_frame ::
  "('ts Envelope \<Rightarrow> string + bytes) \<Rightarrow> CaptureResult \<Rightarrow> nat \<Rightarrow> 'ts \<Rightarrow> string + bytes" where
  "serialize_frame print r frame_id timestamp =
     (case print (envelope r frame_id timestamp) of
        Inl e \<Rightarrow> Inl e
      | Inr b \<Rightarrow> Inr (b @ [LF]))"

subsection \<open>Activity rows\<close>

record TerminalActivity =
  ta_v :: nat
  ta_t :: string
  ta_kind :: string
  ta_method :: string
  ta_ts :: int
  ta_end_ts :: int
  ta_session :: string
  ta_window :: string
  ta_pane_title :: "string option"
  ta_cwd :: "string option"
  ta_exe :: "string option"

record AvailabilityActivity =
  aa_v :: nat
  aa_t :: string
  aa_kind :: string
  aa_capability :: string
  aa_status :: string
  aa_method :: string
  aa_ts :: int
  aa_end_ts :: int

definition terminal_activity ::
  "int \<Rightarrow> string \<Rightarrow> string \<Rightarrow> string option \<Rightarrow> string option \<Rightarrow> string option \<Rightarrow> TerminalActivity" where
  "terminal_activity ts session window title cwd exe =
     \<lparr>ta_v = 1, ta_t = ''desktop_activity'', ta_kind = ''terminal'', ta_method = ''tmux'',
      ta_ts = ts, ta_end_ts = ts, ta_session = session, ta_window = window,
      ta_pane_title = title, ta_cwd = cwd, ta_exe = exe\<rparr>"

definition availability_activity :: "int \<Rightarrow> string \<Rightarrow> AvailabilityActivity" where
  "availability_activity ts status =
     \<lparr>aa_v = 1, aa_t = ''desktop_activity'', aa_kind = ''availability'', aa_capability = ''terminal'',
      aa_status = status, aa_method = ''tmux'', aa_ts = ts, aa_end_ts = ts\<rparr>"

text \<open>A row is one line; its serialisation cannot fail, so the printer is total.\<close>

definition activity_line :: "('row \<Rightarrow> bytes) \<Rightarrow> 'row \<Rightarrow> bytes" where
  "activity_line print row = print row @ [LF]"

subsection \<open>The formatter\<close>

text \<open>Characters are scalar values. \<open>{n:04x}\<close>:\<close>

definition hex4 :: "nat \<Rightarrow> string" where
  "hex4 n = [hex_digit (n div 4096 mod 16), hex_digit (n div 256 mod 16),
             hex_digit (n div 16 mod 16), hex_digit (n mod 16)]"

definition u_escape :: "nat \<Rightarrow> string" where
  "u_escape n = [CHR 0x5C, CHR ''u''] @ hex4 n"

definition write_char :: "nat \<Rightarrow> string" where
  "write_char c =
     (if c < 128 then [char_of c]
      else if c \<le> 65535 then u_escape c
      else let adjusted = c - 65536 in
        u_escape (55296 + adjusted div 1024) @ u_escape (56320 + adjusted mod 1024))"

definition write_string_fragment :: "nat list \<Rightarrow> string" where
  "write_string_fragment cs = concat (map write_char cs)"

datatype CharEscape = Quote | ReverseSolidus | Solidus | Backspace | FormFeed | LineFeed
  | CarriageReturn | Tab | AsciiControl nat

definition write_char_escape :: "CharEscape \<Rightarrow> string" where
  "write_char_escape e =
     (case e of
        Quote \<Rightarrow> [CHR 0x5C, CHR 0x22]
      | ReverseSolidus \<Rightarrow> [CHR 0x5C, CHR 0x5C]
      | Solidus \<Rightarrow> ''/''
      | Backspace \<Rightarrow> [CHR 0x5C, CHR ''b'']
      | FormFeed \<Rightarrow> [CHR 0x5C, CHR ''f'']
      | LineFeed \<Rightarrow> [CHR 0x5C, CHR ''n'']
      | CarriageReturn \<Rightarrow> [CHR 0x5C, CHR ''r'']
      | Tab \<Rightarrow> [CHR 0x5C, CHR ''t'']
      | AsciiControl b \<Rightarrow> u_escape b)"

definition begin_item :: "bool \<Rightarrow> string" where
  "begin_item is_first = (if is_first then [] else '', '')"

definition begin_object_value :: string where
  "begin_object_value = '': ''"

subsection \<open>Reading a JSON string back\<close>

text \<open>
  The specification side: what a JSON reader makes of the text between the quotes. A unit
  outside the surrogate range is a character; a high surrogate needs its low one.
\<close>

definition hex_value :: "char \<Rightarrow> nat option" where
  "hex_value c =
     (if is_digit c then Some (byte c - 48)
      else if 97 \<le> byte c \<and> byte c \<le> (102::nat) then Some (byte c - 87) else None)"

definition unit_of :: "char \<Rightarrow> char \<Rightarrow> char \<Rightarrow> char \<Rightarrow> nat option" where
  "unit_of a b c d =
     (case (hex_value a, hex_value b, hex_value c, hex_value d) of
        (Some w, Some x, Some y, Some z) \<Rightarrow> Some (((w * 16 + x) * 16 + y) * 16 + z)
      | _ \<Rightarrow> None)"

definition simple_escape :: "char \<Rightarrow> nat option" where
  "simple_escape c =
     map_of [(CHR 0x22, 34), (CHR 0x5C, 92), (CHR ''/'', 47), (CHR ''b'', 8), (CHR ''f'', 12),
             (CHR ''n'', 10), (CHR ''r'', 13), (CHR ''t'', 9)] c"

text \<open>The front of the text: one code unit and the rest.\<close>

fun read_unit :: "string \<Rightarrow> (nat \<times> string) option" where
  "read_unit [] = None"
| "read_unit (c # cs) =
     (if c = CHR 0x22 \<or> byte c < (32::nat) then None
      else if c \<noteq> CHR 0x5C then Some (byte c, cs)
      else (case cs of
          e # r \<Rightarrow>
            if e = CHR ''u'' then
              (case r of
                 h1 # h2 # h3 # h4 # r' \<Rightarrow> map_option (\<lambda>u. (u, r')) (unit_of h1 h2 h3 h4)
               | _ \<Rightarrow> None)
            else map_option (\<lambda>u. (u, r)) (simple_escape e)
        | [] \<Rightarrow> None))"

definition is_high :: "nat \<Rightarrow> bool" where "is_high u \<longleftrightarrow> 55296 \<le> u \<and> u < 56320"
definition is_low :: "nat \<Rightarrow> bool" where "is_low u \<longleftrightarrow> 56320 \<le> u \<and> u < 57344"

definition read_char :: "string \<Rightarrow> (nat \<times> string) option" where
  "read_char s =
     (case read_unit s of
        None \<Rightarrow> None
      | Some (u, r) \<Rightarrow>
          if is_low u then None
          else if \<not> is_high u then Some (u, r)
          else (case read_unit r of
              None \<Rightarrow> None
            | Some (l, r') \<Rightarrow>
                if is_low l then Some (65536 + (u - 55296) * 1024 + (l - 56320), r') else None))"

lemma read_unit_shorter: "read_unit s = Some (u, r) \<Longrightarrow> length r < length s"
  by (induction s rule: read_unit.induct) (auto split: if_splits list.splits option.splits)

lemma read_char_shorter: "read_char s = Some (u, r) \<Longrightarrow> length r < length s"
  by (auto simp: read_char_def split: option.splits prod.splits if_splits dest!: read_unit_shorter)

function read_text :: "string \<Rightarrow> nat list option" where
  "read_text s =
     (if s = [] then Some []
      else case read_char s of
        None \<Rightarrow> None
      | Some (c, r) \<Rightarrow> map_option (Cons c) (read_text r))"
  by pat_completeness auto
termination
  by (relation "measure length") (auto dest: read_char_shorter)

declare read_text.simps [simp del]

subsection \<open>The round trip\<close>

lemma hex_value_digit: "n < 16 \<Longrightarrow> hex_value (hex_digit n) = Some n"
  by (auto simp: hex_value_def is_digit_def byte_hex_digit)

lemma nibbles: "((n div 4096 * 16 + n div 256 mod 16) * 16 + n div 16 mod 16) * 16 + n mod 16 = (n::nat)"
proof -
  have "n div 16 div 16 = n div 256" "n div 256 div 16 = n div 4096"
    by (simp_all add: div_mult2_eq [symmetric])
  then show ?thesis
    using div_mult_mod_eq [of n 16] div_mult_mod_eq [of "n div 16" 16]
      div_mult_mod_eq [of "n div 256" 16] by simp
qed

lemma unit_of_hex4:
  "n < 65536 \<Longrightarrow> hex4 n = [a, b, c, d] \<Longrightarrow> unit_of a b c d = Some n"
  using nibbles [of n] by (auto simp: unit_of_def hex4_def hex_value_digit)

lemma read_u_escape: "n < 65536 \<Longrightarrow> read_unit (u_escape n @ r) = Some (n, r)"
  using unit_of_hex4 [of n] by (simp add: u_escape_def hex4_def)

text \<open>A scalar value that \<open>serde_json\<close> passes to a fragment.\<close>

definition fragment_char :: "nat \<Rightarrow> bool" where
  "fragment_char c \<longleftrightarrow> 32 \<le> c \<and> c \<le> 1114111 \<and> \<not> is_high c \<and> \<not> is_low c \<and> c \<noteq> 34 \<and> c \<noteq> 92"

lemma byte_char_of: "c < 256 \<Longrightarrow> byte (char_of c) = (c::nat)"
  by simp

lemma char_of_eq: "c < 256 \<Longrightarrow> char_of (c::nat) = d \<longleftrightarrow> c = byte d"
  by (metis byte_char_of char_of_char)

lemma read_write_char:
  assumes "fragment_char c"
  shows "read_char (write_char c @ r) = Some (c, r)"
proof -
  consider "c < 128" | "128 \<le> c" "c \<le> 65535" | "65536 \<le> c" by linarith
  then show ?thesis
  proof cases
    case 1
    then have "char_of c \<noteq> CHR 0x22" "char_of c \<noteq> CHR 0x5C" "byte (char_of c) = c"
      using assms by (simp_all add: char_of_eq fragment_char_def)
    with 1 assms show ?thesis
      by (simp add: read_char_def write_char_def fragment_char_def is_low_def is_high_def)
  next
    case 2
    with assms show ?thesis
      by (simp add: read_char_def write_char_def read_u_escape fragment_char_def)
  next
    case 3
    let ?a = "c - 65536"
    have "?a div 1024 < 1024" "?a mod 1024 < 1024"
      using assms 3 by (auto simp: fragment_char_def less_mult_imp_div_less)
    then have "is_high (55296 + ?a div 1024)" "is_low (56320 + ?a mod 1024)"
      "\<not> is_low (55296 + ?a div 1024)" "55296 + ?a div 1024 < 65536" "56320 + ?a mod 1024 < 65536"
      by (auto simp: is_high_def is_low_def)
    with 3 show ?thesis
      by (simp add: read_char_def write_char_def Let_def read_u_escape)
  qed
qed

lemma write_char_ascii: "fragment_char c \<Longrightarrow> x \<in> set (write_char c) \<Longrightarrow> byte x < (128::nat)"
proof -
  have hex: "n < 16 \<Longrightarrow> byte (hex_digit n) < (128::nat)" for n
    by (simp add: byte_hex_digit)
  show "fragment_char c \<Longrightarrow> x \<in> set (write_char c) \<Longrightarrow> byte x < (128::nat)"
    by (auto simp: write_char_def u_escape_def hex4_def hex Let_def split: if_splits)
qed

text \<open>
  C6. The text of a frame survives: a string fragment is written in ASCII only, with no line
  feed, and a JSON reader gets exactly the original characters back, supplementary ones
  through their surrogate pairs.
\<close>

theorem fragment_round_trip:
  assumes "list_all fragment_char cs"
  shows "read_text (write_string_fragment cs) = Some cs
    \<and> list_all (\<lambda>x. byte x < (128::nat)) (write_string_fragment cs)"
proof
  show "list_all (\<lambda>x. byte x < (128::nat)) (write_string_fragment cs)"
    using assms write_char_ascii by (auto simp: list_all_iff write_string_fragment_def)
  show "read_text (write_string_fragment cs) = Some cs"
    using assms
  proof (induction cs)
    case (Cons c cs)
    have "write_char c \<noteq> []" by (simp add: write_char_def u_escape_def Let_def)
    with Cons show ?case
      by (subst read_text.simps) (simp add: write_string_fragment_def read_write_char)
  qed (simp add: write_string_fragment_def read_text.simps)
qed

theorem fragment_round_trip_witness:
  "read_text (write_string_fragment [97, 233, 8364, 128512]) = Some [97, 233, 8364, 128512]
   \<and> list_all (\<lambda>x. byte x < (128::nat)) (write_string_fragment [97, 233, 8364, 128512])"
  by (rule fragment_round_trip) (simp add: fragment_char_def is_high_def is_low_def)

text \<open>Each escape reads back as the character it stands for.\<close>

definition escaped_char :: "CharEscape \<Rightarrow> nat" where
  "escaped_char e = (case e of Quote \<Rightarrow> 34 | ReverseSolidus \<Rightarrow> 92 | Solidus \<Rightarrow> 47 | Backspace \<Rightarrow> 8
     | FormFeed \<Rightarrow> 12 | LineFeed \<Rightarrow> 10 | CarriageReturn \<Rightarrow> 13 | Tab \<Rightarrow> 9 | AsciiControl b \<Rightarrow> b)"

lemma escape_round_trip:
  "(\<And>b. e = AsciiControl b \<Longrightarrow> b < 32) \<Longrightarrow> read_char (write_char_escape e @ r) = Some (escaped_char e, r)"
  by (cases e)
    (simp_all add: read_char_def write_char_escape_def escaped_char_def simple_escape_def
      is_low_def is_high_def read_u_escape)

text \<open>An output-only frame carries no cursor.\<close>

lemma output_only_no_cursor:
  "output_only r \<Longrightarrow> p \<in> set (tc_panes (env_content (envelope r i t)))
   \<Longrightarrow> pr_cursor_x p = None \<and> pr_cursor_y p = None \<and> pr_cursor_visible p = None"
  by (auto simp: envelope_def pane_row_def then_some_def)

end
