(* ===== verification/Segment.thy ===== *)
theory Segment
  imports Storage Paths Serialize
begin

text \<open>
  A segment being recorded (\<open>src/segment.rs\<close>): one growing file per tmux session in the
  directory \<open>STEM.incomplete\<close>, described by the metadata file beside it, until it is renamed
  to \<open>STEM_LEN\<close>. The operations take the three operations of \<open>DurableStorage\<close> as arguments,
  as the code holds a \<open>Box<dyn DurableStorage>\<close>. Times are nanoseconds.
\<close>

datatype AppendOutcome = Appended (frame_id_of: nat) | Unchanged

datatype SegmentClose = Finalized path | RemovedEmpty

record 'h SegmentState =
  sg_stream_dir :: path
  sg_incomplete_dir :: path
  sg_metadata_path :: path
  sg_metadata :: SegmentMetadata
  sg_storage :: 'h
  sg_digests :: "(string \<times> nat) list"
  sg_start_monotonic :: nat
  sg_interval :: nat
  sg_poisoned :: bool
  sg_closed :: "SegmentClose option"

text \<open>\<open>SegPanic\<close> stands for the panic of \<open>segment_stem\<close> on a name without its suffix.\<close>

datatype SegmentError =
    SegPath PathError
  | SegName NameError
  | SegSerialize string
  | SegStorage StorageError
  | SegCollision path
  | SegIo (seg_operation: string) path io_error
  | SegPoisoned
  | SegClosed
  | SegNotEmpty
  | SegFrameIdOverflow
  | SegActivityOffsetOverflow
  | SegPanic

fun is_recoverable_append :: "SegmentError \<Rightarrow> bool" where
  "is_recoverable_append (SegStorage (Recoverable _)) = True"
| "is_recoverable_append _ = False"

subsection \<open>Names and lengths\<close>

definition NANOS :: nat where "NANOS = 1000000000"

definition as_secs :: "nat \<Rightarrow> nat" where "as_secs d = d div NANOS"

definition clamp :: "nat \<Rightarrow> nat \<Rightarrow> nat \<Rightarrow> nat" where "clamp lo hi x = max lo (min hi x)"

definition segment_length :: "nat \<Rightarrow> nat \<Rightarrow> nat" where
  "segment_length elapsed interval = clamp 1 (max 1 (as_secs interval)) (as_secs elapsed)"

definition duration_nanos :: "nat \<Rightarrow> nat" where
  "duration_nanos d = min d u64_max"

definition segment_stem :: "string \<Rightarrow> string option" where
  "segment_stem name = strip_suffix ''.incomplete'' name"

definition finalized_name :: "string \<Rightarrow> nat \<Rightarrow> string" where
  "finalized_name stem elapsed = stem @ ''_'' @ pad_zero 3 (dec_of_nat (as_secs elapsed))"

definition record_length :: "SegmentMetadata \<Rightarrow> nat \<Rightarrow> nat \<Rightarrow> SegmentMetadata option" where
  "record_length m elapsed interval =
     (let len = segment_length elapsed interval * NANOS in
      case segment_stem (incomplete_name m) of
        None \<Rightarrow> None
      | Some stem \<Rightarrow>
          Some (m\<lparr>elapsed_nanos := duration_nanos len, finalized_dir := finalized_name stem len\<rparr>))"

definition activity_filename :: "string \<Rightarrow> string" where
  "activity_filename stem = stem @ ''_desktop_activity.jsonl''"

text \<open>What is hashed to tell whether a session's screen changed; \<open>DefaultHasher\<close> is a parameter.\<close>

definition digest_text :: "CaptureResult \<Rightarrow> string" where
  "digest_text c =
     join_with [LF] (win_id (cap_window c) # map pane_content (sort_key pane_id (cap_panes c)))"

definition capture_digest :: "(string \<Rightarrow> nat) \<Rightarrow> CaptureResult \<Rightarrow> nat" where
  "capture_digest hash c = hash (digest_text c)"

subsection \<open>Creation\<close>

definition initial_metadata ::
  "string \<Rightarrow> int \<Rightarrow> int \<Rightarrow> string option \<Rightarrow> SegmentMetadata" where
  "initial_metadata incomplete start_wall local_offset tz =
     \<lparr>schema_version = SCHEMA_VERSION, lifecycle = Creating, incomplete_name = incomplete,
      finalized_dir = '''', start_wall_unix_nanos = start_wall, local_offset_seconds = local_offset,
      md_tz = (case tz of None \<Rightarrow> None | Some n \<Rightarrow> if n = [] then None else Some n),
      elapsed_nanos = 0, last_durable_frame_id = 0, durable_frame_count = 0,
      has_durable_frames = False, activity_durable_offset = 0, sessions = []\<rparr>"

text \<open>\<open>fs::symlink_metadata(p).is_ok()\<close>\<close>

definition occupied :: "path \<Rightarrow> ('e, bool) io" where
  "occupied p = tryE (fs_lstat p) (\<lambda>r. returnE (case r of Inl _ \<Rightarrow> False | Inr _ \<Rightarrow> True))"

definition create_with_faults ::
  "(SegmentMetadata \<Rightarrow> string + bytes) \<Rightarrow> path \<Rightarrow> string \<Rightarrow> int \<Rightarrow> nat \<Rightarrow> int \<Rightarrow> string option \<Rightarrow> nat
   \<Rightarrow> StorageStage list \<Rightarrow> (SegmentError, FileStorage SegmentState) io" where
  "create_with_faults json stream stem start_wall start_monotonic local_offset tz interval plan =
     bindE (map_errE SegPath (ensure_private_directory stream)) (\<lambda>_.
     let incomplete = stem @ ''.incomplete'';
         dir = path_join stream incomplete;
         meta = path_join stream (stem @ ''.incomplete.meta'') in
     bindE (occupied dir) (\<lambda>taken.
     bindE (if taken then returnE True else occupied meta) (\<lambda>taken.
     if taken then throwE (SegCollision dir)
     else
       case record_length (initial_metadata incomplete start_wall local_offset tz) 0 interval of
         None \<Rightarrow> throwE SegPanic
       | Some m \<Rightarrow>
           bindE (map_errE SegStorage (atomic_write_metadata json meta stream m)) (\<lambda>_.
           bindE (map_errE SegPath (ensure_private_directory dir)) (\<lambda>_.
           bindE (map_errE SegStorage (sync_directory stream)) (\<lambda>_.
           let opened = m\<lparr>lifecycle := Open\<rparr> in
           bindE (map_errE SegStorage (atomic_write_metadata json meta stream opened)) (\<lambda>_.
           returnE
             \<lparr>sg_stream_dir = stream, sg_incomplete_dir = dir, sg_metadata_path = meta,
              sg_metadata = opened, sg_storage = with_faults dir meta stream plan, sg_digests = [],
              sg_start_monotonic = start_monotonic, sg_interval = interval, sg_poisoned = False,
              sg_closed = None\<rparr>)))))))"

subsection \<open>Appending\<close>

type_synonym ('h, 'e, 'a) seg = "('h SegmentState \<times> world, 'e, 'a) comp"

definition on_storage :: "('h, 'e, 'a) sto \<Rightarrow> ('h, 'e, 'a) seg" where
  "on_storage m s =
     (case s of (g, w) \<Rightarrow> (case m (sg_storage g, w) of (r, (h, w')) \<Rightarrow> (r, (g\<lparr>sg_storage := h\<rparr>, w'))))"

text \<open>\<open>a + b\<close> on \<open>u64\<close> in a release build\<close>

definition wrapping_add_u64 :: "nat \<Rightarrow> nat \<Rightarrow> nat" where
  "wrapping_add_u64 a b = (a + b) mod Suc u64_max"

definition session_offset :: "SegmentMetadata \<Rightarrow> string \<Rightarrow> nat" where
  "session_offset m s = (case map_of (sessions m) s of None \<Rightarrow> 0 | Some sm \<Rightarrow> sm_durable_offset sm)"

text \<open>The frame a capture appends, and the errors that come before any storage is touched.\<close>

definition capture_frame ::
  "(CaptureResult \<Rightarrow> nat \<Rightarrow> 'ts \<Rightarrow> string + bytes) \<Rightarrow> 'h SegmentState \<Rightarrow> CaptureResult \<Rightarrow> 'ts \<Rightarrow> nat
   \<Rightarrow> SegmentError + nat \<times> AppendFrame" where
  "capture_frame ser g capture timestamp now =
     (case derive_component (cap_session capture) of
        Inl e \<Rightarrow> Inl (SegName e)
      | Inr component \<Rightarrow>
          let m = sg_metadata g;
              previous = session_offset m (cap_session capture) in
          (case checked_add_u64 (last_durable_frame_id m) 1 of
             None \<Rightarrow> Inl SegFrameIdOverflow
           | Some frame_id \<Rightarrow>
               (case ser capture frame_id timestamp of
                  Inl e \<Rightarrow> Inl (SegSerialize e)
                | Inr b \<Rightarrow>
                    (case record_length m (now - sg_start_monotonic g) (sg_interval g) of
                       None \<Rightarrow> Inl SegPanic
                     | Some measured \<Rightarrow>
                         Inr (frame_id,
                           \<lparr>af_filename = session_filename component, af_previous_offset = previous,
                            af_bytes = b,
                            af_proposed = measured
                              \<lparr>last_durable_frame_id := frame_id,
                               durable_frame_count := wrapping_add_u64 (durable_frame_count m) 1,
                               has_durable_frames := True,
                               sessions := bt_insert (cap_session capture)
                                 \<lparr>sm_session = cap_session capture,
                                  sm_filename = session_filename component,
                                  sm_last_frame_id = frame_id,
                                  sm_durable_offset = wrapping_add_u64 previous (length b)\<rparr>
                                 (sessions m)\<rparr>\<rparr>)))))"

text \<open>Handing a frame to the storage; a poisoned storage poisons the segment.\<close>

definition commit_frame ::
  "(AppendFrame \<Rightarrow> ('h, StorageError, SegmentMetadata) sto) \<Rightarrow> AppendFrame
   \<Rightarrow> ('h SegmentState \<Rightarrow> 'h SegmentState) \<Rightarrow> ('h, SegmentError, unit) seg" where
  "commit_frame app frame note_it =
     tryE (on_storage (app frame)) (\<lambda>durable.
       case durable of
         Inl e \<Rightarrow>
           bindE (modifyE (\<lambda>(g, w). (if is_poisoned_error e then g\<lparr>sg_poisoned := True\<rparr> else g, w))) (\<lambda>_.
           throwE (SegStorage e))
       | Inr m \<Rightarrow> modifyE (\<lambda>(g, w). (note_it (g\<lparr>sg_metadata := m\<rparr>), w)))"

definition append_capture ::
  "(AppendFrame \<Rightarrow> ('h, StorageError, SegmentMetadata) sto)
   \<Rightarrow> (CaptureResult \<Rightarrow> nat \<Rightarrow> 'ts \<Rightarrow> string + bytes) \<Rightarrow> (string \<Rightarrow> nat) \<Rightarrow> CaptureResult \<Rightarrow> 'ts \<Rightarrow> nat
   \<Rightarrow> ('h, SegmentError, AppendOutcome) seg" where
  "append_capture app ser hash capture timestamp now =
     bindE (getsE fst) (\<lambda>g.
     if sg_poisoned g then throwE SegPoisoned
     else if sg_closed g \<noteq> None then throwE SegClosed
     else
       let digest = capture_digest hash capture in
       if map_of (sg_digests g) (cap_session capture) = Some digest then returnE Unchanged
       else
         case capture_frame ser g capture timestamp now of
           Inl e \<Rightarrow> throwE e
         | Inr (frame_id, frame) \<Rightarrow>
             bindE (commit_frame app frame
               (\<lambda>g. g\<lparr>sg_digests := AList.update (cap_session capture) digest (sg_digests g)\<rparr>)) (\<lambda>_.
             returnE (Appended frame_id)))"

definition activity_frame :: "'h SegmentState \<Rightarrow> bytes \<Rightarrow> nat \<Rightarrow> SegmentError + AppendFrame" where
  "activity_frame g b now =
     (let m = sg_metadata g in
      case segment_stem (incomplete_name m) of
        None \<Rightarrow> Inl SegPanic
      | Some stem \<Rightarrow>
          (case checked_add_u64 (activity_durable_offset m) (length b) of
             None \<Rightarrow> Inl SegActivityOffsetOverflow
           | Some offset \<Rightarrow>
               (case record_length (m\<lparr>activity_durable_offset := offset\<rparr>)
                       (now - sg_start_monotonic g) (sg_interval g) of
                  None \<Rightarrow> Inl SegPanic
                | Some proposed \<Rightarrow>
                    Inr \<lparr>af_filename = activity_filename stem,
                         af_previous_offset = activity_durable_offset m, af_bytes = b,
                         af_proposed = proposed\<rparr>)))"

definition append_activity ::
  "(AppendFrame \<Rightarrow> ('h, StorageError, SegmentMetadata) sto) \<Rightarrow> bytes \<Rightarrow> nat
   \<Rightarrow> ('h, SegmentError, unit) seg" where
  "append_activity app b now =
     bindE (getsE fst) (\<lambda>g.
     if b = [] then returnE ()
     else if sg_poisoned g then throwE SegPoisoned
     else if sg_closed g \<noteq> None then throwE SegClosed
     else case activity_frame g b now of
        Inl e \<Rightarrow> throwE e
      | Inr frame \<Rightarrow> commit_frame app frame (\<lambda>g. g))"

definition rotation_due :: "'h SegmentState \<Rightarrow> nat \<Rightarrow> nat \<Rightarrow> bool" where
  "rotation_due g now interval \<longleftrightarrow> now - sg_start_monotonic g \<ge> interval"

subsection \<open>Closing\<close>

definition remove_entry :: "path \<Rightarrow> string \<times> node \<Rightarrow> (SegmentError, unit) io" where
  "remove_entry dir entry =
     (case entry of (name, kind) \<Rightarrow>
        let p = dir @ [name] in
        bindE (map_errE (SegIo ''inspect confirmed-empty file'' p) (fs_lstat p)) (\<lambda>n.
        bindE (getsE (\<lambda>w. case n of NFile i \<Rightarrow> length (contents w i) | _ \<Rightarrow> 0)) (\<lambda>len.
        case (kind, n) of
          (NFile _, NFile _) \<Rightarrow>
            if len \<noteq> 0 then throwE SegNotEmpty
            else map_errE (SegIo ''remove zero-length JSONL'' p) (fs_remove_file p)
        | _ \<Rightarrow> throwE SegNotEmpty)))"

definition remove_empty_files :: "path \<Rightarrow> path \<Rightarrow> path \<Rightarrow> (SegmentError, unit) io" where
  "remove_empty_files dir meta stream =
     bindE (map_errE (SegIo ''scan confirmed-empty segment'' dir) (fs_read_dir dir)) (\<lambda>entries.
     bindE (forE (remove_entry dir) entries) (\<lambda>_.
     bindE (map_errE (SegIo ''remove confirmed-empty segment'' dir) (fs_remove_dir dir)) (\<lambda>_.
     bindE (map_errE SegStorage (sync_directory stream)) (\<lambda>_.
     bindE (map_errE (SegIo ''remove confirmed-empty metadata'' meta) (fs_remove_file meta)) (\<lambda>_.
     map_errE SegStorage (sync_directory stream))))))"

definition lift_world :: "('e, 'a) io \<Rightarrow> ('h, 'e, 'a) seg" where
  "lift_world m s = (case s of (g, w) \<Rightarrow> (case m w of (r, w') \<Rightarrow> (r, (g, w'))))"

definition confirmed_empty :: "SegmentMetadata \<Rightarrow> bool" where
  "confirmed_empty m \<longleftrightarrow>
     \<not> (has_durable_frames m \<or> activity_durable_offset m \<noteq> 0 \<or> durable_frame_count m \<noteq> 0
        \<or> list_ex (\<lambda>(_, sm). sm_durable_offset sm \<noteq> 0) (sessions m))"

definition remove_confirmed_empty ::
  "('h, StorageError, unit) sto \<Rightarrow> ('h, SegmentError, SegmentClose) seg" where
  "remove_confirmed_empty close =
     bindE (getsE fst) (\<lambda>g.
     case sg_closed g of
       Some c \<Rightarrow> returnE c
     | None \<Rightarrow>
         if \<not> confirmed_empty (sg_metadata g) then throwE SegNotEmpty
         else
           bindE (map_errE SegStorage (on_storage close)) (\<lambda>_.
           bindE (lift_world (remove_empty_files (sg_incomplete_dir g) (sg_metadata_path g) (sg_stream_dir g))) (\<lambda>_.
           bindE (modifyE (\<lambda>(g, w). (g\<lparr>sg_closed := Some RemovedEmpty\<rparr>, w))) (\<lambda>_.
           returnE RemovedEmpty))))"

text \<open>The file-system half of \<open>finalize\<close>, once the storage is closed.\<close>

definition publish_segment ::
  "(CaptureTime \<Rightarrow> string + bytes) \<Rightarrow> path \<Rightarrow> path \<Rightarrow> path \<Rightarrow> SegmentMetadata \<Rightarrow> (SegmentError, path) io" where
  "publish_segment json_ct stream dir meta m =
     (let finalized = path_join stream (finalized_dir m) in
      bindE (occupied finalized) (\<lambda>taken.
      if taken then throwE (SegCollision finalized)
      else
        bindE (map_errE (SegIo ''rename finalized segment'' dir) (fs_rename dir finalized)) (\<lambda>_.
        bindE (map_errE SegStorage (sync_directory stream)) (\<lambda>_.
        bindE (map_errE SegStorage (write_capture_time json_ct stream (finalized_dir m)
            \<lparr>ct_tz = md_tz m, utc_offset_seconds = local_offset_seconds m\<rparr>)) (\<lambda>_.
        bindE (map_errE (SegIo ''remove finalized metadata'' meta) (fs_remove_file meta)) (\<lambda>_.
        bindE (map_errE SegStorage (sync_directory stream)) (\<lambda>_.
        returnE finalized)))))))"

text \<open>The rest of \<open>finalize\<close>, from the measured metadata \<open>m\<close> on.\<close>

definition seal_segment ::
  "(SegmentMetadata \<Rightarrow> ('h, StorageError, unit) sto) \<Rightarrow> ('h, StorageError, unit) sto
   \<Rightarrow> (CaptureTime \<Rightarrow> string + bytes) \<Rightarrow> SegmentMetadata \<Rightarrow> ('h, SegmentError, SegmentClose) seg" where
  "seal_segment persist close json_ct m =
     bindE (getsE fst) (\<lambda>g.
     bindE (modifyE (\<lambda>(g, w). (g\<lparr>sg_metadata := m\<rparr>, w))) (\<lambda>_.
     bindE (map_errE SegStorage (on_storage (persist m))) (\<lambda>_.
     bindE (map_errE SegStorage (on_storage close)) (\<lambda>_.
     bindE (lift_world (publish_segment json_ct (sg_stream_dir g) (sg_incomplete_dir g)
              (sg_metadata_path g) m)) (\<lambda>finalized.
     bindE (modifyE (\<lambda>(g, w). (g\<lparr>sg_closed := Some (Finalized finalized)\<rparr>, w))) (\<lambda>_.
     returnE (Finalized finalized)))))))"

definition finalize ::
  "(SegmentMetadata \<Rightarrow> ('h, StorageError, unit) sto) \<Rightarrow> ('h, StorageError, unit) sto
   \<Rightarrow> (CaptureTime \<Rightarrow> string + bytes) \<Rightarrow> nat \<Rightarrow> ('h, SegmentError, SegmentClose) seg" where
  "finalize persist close json_ct now =
     bindE (getsE fst) (\<lambda>g.
     case sg_closed g of
       Some c \<Rightarrow> returnE c
     | None \<Rightarrow>
         if sg_poisoned g then throwE SegPoisoned
         else if \<not> has_durable_frames (sg_metadata g) \<and> activity_durable_offset (sg_metadata g) = 0
         then remove_confirmed_empty close
         else
           case record_length (sg_metadata g) (now - sg_start_monotonic g) (sg_interval g) of
             None \<Rightarrow> throwE SegPanic
           | Some measured \<Rightarrow> seal_segment persist close json_ct (measured\<lparr>lifecycle := Finalizing\<rparr>))"

subsection \<open>Bounds\<close>

lemma segment_length_bounds:
  "1 \<le> segment_length d i \<and> segment_length d i \<le> max 1 (as_secs i)"
  by (auto simp: segment_length_def clamp_def)

lemma segment_length_exact:
  "1 \<le> as_secs d \<Longrightarrow> as_secs d \<le> as_secs i \<Longrightarrow> segment_length d i = as_secs d"
  by (auto simp: segment_length_def clamp_def)

lemma as_secs_mult [simp]: "as_secs (n * NANOS) = n"
  by (simp add: as_secs_def NANOS_def)

lemma segment_stem_Some: "segment_stem name = Some stem \<longleftrightarrow> name = stem @ ''.incomplete''"
  by (simp add: segment_stem_def strip_suffix_Some)

lemma record_length_Some:
  "record_length m d i = Some m' \<Longrightarrow>
     \<exists>stem. incomplete_name m = stem @ ''.incomplete''
       \<and> m' = m\<lparr>elapsed_nanos := duration_nanos (segment_length d i * NANOS),
               finalized_dir := stem @ ''_'' @ pad_zero 3 (dec_of_nat (segment_length d i))\<rparr>"
  by (auto simp: record_length_def finalized_name_def segment_stem_Some Let_def split: option.splits)

text \<open>The length a finalized name states is the clamped one, and reads back from the name.\<close>

lemma finalized_name_length:
  "parse_digits (drop (length stem + 1) (finalized_name stem (n * NANOS))) = Some n"
proof -
  have "pad_zero 3 (dec_of_nat n) \<noteq> []" by (simp add: pad_zero_def)
  then show ?thesis by (simp add: finalized_name_def parse_digits_def digits_value_pad)
qed

subsection \<open>The invariant of an open segment\<close>

text \<open>
  Every session's file is as long as the metadata says (absent where the metadata knows no
  frame), the activity file likewise.
\<close>

definition files_match :: "SegmentMetadata \<Rightarrow> path \<Rightarrow> world \<Rightarrow> bool" where
  "files_match m dir w \<longleftrightarrow>
     (\<forall>s n. derive_component s = Inr n
        \<longrightarrow> length (file_bytes w (dir @ [session_filename n])) = session_offset m s)
     \<and> (\<forall>stem. segment_stem (incomplete_name m) = Some stem
        \<longrightarrow> length (file_bytes w (dir @ [activity_filename stem])) = activity_durable_offset m)"

definition row_ok :: "nat \<Rightarrow> string \<times> SessionMetadata \<Rightarrow> bool" where
  "row_ok hi x \<longleftrightarrow>
     sm_session (snd x) = fst x
     \<and> (\<exists>n. derive_component (fst x) = Inr n \<and> sm_filename (snd x) = session_filename n)
     \<and> 1 \<le> sm_last_frame_id (snd x) \<and> sm_last_frame_id (snd x) \<le> hi"

lemma row_ok_mono: "row_ok a x \<Longrightarrow> a \<le> b \<Longrightarrow> row_ok b x"
  by (auto simp: row_ok_def)

definition counters_ok :: "SegmentMetadata \<Rightarrow> bool" where
  "counters_ok m \<longleftrightarrow>
     last_durable_frame_id m = durable_frame_count m
     \<and> has_durable_frames m = (0 < durable_frame_count m)
     \<and> durable_frame_count m \<le> u64_max
     \<and> (\<forall>x \<in> set (sessions m). row_ok (last_durable_frame_id m) x)"

definition stem_ok :: "SegmentMetadata \<Rightarrow> bool" where
  "stem_ok m \<longleftrightarrow> (\<exists>stem. segment_stem (incomplete_name m) = Some stem \<and> plain_name (activity_filename stem))"

definition segment_ok ::
  "('h \<Rightarrow> world \<Rightarrow> bool) \<Rightarrow> ('h \<Rightarrow> path \<times> path \<times> path) \<Rightarrow> (SegmentMetadata \<Rightarrow> StorageError + bytes)
   \<Rightarrow> 'h SegmentState \<times> world \<Rightarrow> bool" where
  "segment_ok ready home enc s \<longleftrightarrow>
     (case s of (g, w) \<Rightarrow>
        ready (sg_storage g) w
        \<and> home (sg_storage g) = (sg_incomplete_dir g, sg_metadata_path g, sg_stream_dir g)
        \<and> stem_ok (sg_metadata g) \<and> counters_ok (sg_metadata g)
        \<and> files_match (sg_metadata g) (sg_incomplete_dir g) w
        \<and> (\<exists>b. enc (sg_metadata g) = Inr b \<and> view w (sg_metadata_path g) = Some b))"

subsection \<open>File names of a segment\<close>

lemma session_filename_plain:
  assumes "derive_component raw = Inr n"
  shows "plain_name (session_filename n)"
proof -
  have "list_all name_char (as_str n)" by (rule derived_alphabet [OF assms])
  then have "list_all (\<lambda>c. byte c < 128 \<and> c \<noteq> CHR ''/'') (as_str n)"
    by (auto simp: list_all_iff byte_simps)
  then show ?thesis by (intro plain_ascii) (auto simp: session_filename_def)
qed

lemma activity_not_session: "activity_filename stem \<noteq> session_filename n"
proof
  assume "activity_filename stem = session_filename n"
  then have "rev (activity_filename stem) = rev (session_filename n)" by simp
  then show False by (simp add: activity_filename_def session_filename_def)
qed

text \<open>A file of the segment that an append to another file leaves alone.\<close>

lemma append_scope_sibling:
  assumes "d = s @ [x]" "m = s @ [y]" "f \<noteq> f'"
  shows "d @ [f'] \<notin> insert (d @ [f]) (write_scope s m)"
  using assms by (auto simp: write_scope_def temporaries_def)

lemma only_touches_sibling:
  assumes "only_touches (insert (d @ [f]) (write_scope s m)) w w'"
    and "d = s @ [x]" "m = s @ [y]" "f \<noteq> f'"
  shows "file_bytes w' (d @ [f']) = file_bytes w (d @ [f'])"
  using assms(1) append_scope_sibling [OF assms(2-4)] by (simp add: only_touches_def file_bytes_def)

lemma wpE_on_storage [simp]:
  "wpE (on_storage m) Q R =
     (\<lambda>(g, w). wpE m (\<lambda>x (h, w'). Q x (g\<lparr>sg_storage := h\<rparr>, w')) (\<lambda>e (h, w'). R e (g\<lparr>sg_storage := h\<rparr>, w'))
        (sg_storage g, w))"
  by (auto simp: fun_eq_iff wpE_def on_storage_def split: prod.splits sum.splits)

lemma wpE_lift_world [simp]:
  "wpE (lift_world m) Q R = (\<lambda>(g, w). wpE m (\<lambda>x w'. Q x (g, w')) (\<lambda>e w'. R e (g, w')) w)"
  by (auto simp: fun_eq_iff wpE_def lift_world_def split: prod.splits sum.splits)

subsection \<open>Appending keeps the invariant\<close>

definition same_segment :: "'h SegmentState \<Rightarrow> 'h SegmentState \<Rightarrow> bool" where
  "same_segment g g' \<longleftrightarrow>
     sg_incomplete_dir g' = sg_incomplete_dir g \<and> sg_metadata_path g' = sg_metadata_path g
     \<and> sg_stream_dir g' = sg_stream_dir g \<and> sg_interval g' = sg_interval g
     \<and> sg_start_monotonic g' = sg_start_monotonic g \<and> sg_closed g' = sg_closed g"

text \<open>The file \<open>f\<close> of the directory grew by \<open>b\<close>, every other file is as it was.\<close>

definition grew :: "path \<Rightarrow> string \<Rightarrow> bytes \<Rightarrow> world \<Rightarrow> world \<Rightarrow> bool" where
  "grew d f b w w' \<longleftrightarrow>
     (\<forall>f'. file_bytes w' (d @ [f']) = file_bytes w (d @ [f']) @ (if f' = f then b else []))"

definition still :: "path \<Rightarrow> world \<Rightarrow> world \<Rightarrow> bool" where
  "still d w w' \<longleftrightarrow> (\<forall>f. file_bytes w' (d @ [f]) = file_bytes w (d @ [f]))"

lemma files_match_still: "files_match m d w \<Longrightarrow> still d w w' \<Longrightarrow> files_match m d w'"
  by (simp add: files_match_def still_def)

lemma files_match_session:
  assumes m: "files_match m d w" and g: "grew d (session_filename n) b w w'"
    and n: "derive_component s = Inr n"
    and off: "\<And>t. session_offset m' t = (if t = s then session_offset m s + length b else session_offset m t)"
    and same: "incomplete_name m' = incomplete_name m" "activity_durable_offset m' = activity_durable_offset m"
  shows "files_match m' d w'"
  unfolding files_match_def
proof (intro conjI allI impI)
  fix t k assume t: "derive_component t = Inr k"
  have "t = s \<longleftrightarrow> session_filename k = session_filename n"
    using derived_filename_inject [OF t n] t n by (auto simp: session_filename_inject)
  then show "length (file_bytes w' (d @ [session_filename k])) = session_offset m' t"
    using m g t off by (auto simp: files_match_def grew_def)
next
  fix stem assume "segment_stem (incomplete_name m') = Some stem"
  then show "length (file_bytes w' (d @ [activity_filename stem])) = activity_durable_offset m'"
    using m g same activity_not_session [of stem n] by (auto simp: files_match_def grew_def)
qed

lemma files_match_activity:
  assumes m: "files_match m d w" and g: "grew d (activity_filename stem) b w w'"
    and stem: "segment_stem (incomplete_name m) = Some stem"
    and off: "activity_durable_offset m' = activity_durable_offset m + length b"
    and same: "incomplete_name m' = incomplete_name m" "sessions m' = sessions m"
  shows "files_match m' d w'"
  using assms activity_not_session [of stem, THEN not_sym]
  by (auto simp: files_match_def grew_def session_offset_def)

context durable_storage
begin

abbreviation "ok_segment \<equiv> segment_ok ready home enc"

lemma commit_frame_spec:
  assumes seg: "ok_segment (g, w)" and live: "\<not> sg_poisoned g"
    and f: "plain_name (af_filename frame)"
    and len: "length (file_bytes w (sg_incomplete_dir g @ [af_filename frame])) = af_previous_offset frame"
    and note_it: "\<And>g. same_segment g (note_it g) \<and> sg_storage (note_it g) = sg_storage g
      \<and> sg_metadata (note_it g) = sg_metadata g \<and> sg_poisoned (note_it g) = sg_poisoned g"
  shows "wpE (commit_frame append frame note_it)
    (\<lambda>_ (g', w'). same_segment g g' \<and> \<not> sg_poisoned g' \<and> ready (sg_storage g') w'
       \<and> home (sg_storage g') = home (sg_storage g) \<and> sg_metadata g' = af_proposed frame
       \<and> grew (sg_incomplete_dir g) (af_filename frame) (af_bytes frame) w w'
       \<and> (\<exists>b. enc (af_proposed frame) = Inr b \<and> view w' (sg_metadata_path g) = Some b))
    (\<lambda>e (g', w'). same_segment g g' \<and> sg_metadata g' = sg_metadata g
       \<and> (sg_poisoned g' \<or> ok_segment (g', w') \<and> still (sg_incomplete_dir g) w w')) (g, w)"
proof -
  let ?d = "sg_incomplete_dir g" and ?m = "sg_metadata_path g" and ?s = "sg_stream_dir g"
  obtain m0 where home: "home (sg_storage g) = (?d, ?m, ?s)" and r: "ready (sg_storage g) w"
    and m0: "enc (sg_metadata g) = Inr m0" "view w ?m = Some m0"
    and fm: "files_match (sg_metadata g) ?d w"
    using seg by (auto simp: segment_ok_def)
  obtain x y where xy: "?d = ?s @ [x]" "?m = ?s @ [y]"
    using ready_layout [OF r home] by blast
  have sib: "file_bytes w' (?d @ [f']) = file_bytes w (?d @ [f'])"
    if "only_touches (insert (?d @ [af_filename frame]) (write_scope ?s ?m)) w w'"
      "f' \<noteq> af_filename frame" for w' f'
    by (rule only_touches_sibling [OF that(1) xy]) (use that in auto)
  show ?thesis
    unfolding commit_frame_def wpE_try wpE_on_storage split_conv
    apply (rule wpE_mono [OF append_law [OF r home f m0(2) len]])
    subgoal for p s
      using note_it [of "g\<lparr>sg_storage := fst s, sg_metadata := p\<rparr>"] sib live
      by (cases s) (auto simp: grew_def same_segment_def)
    subgoal for e s
    proof (cases s)
      case (Pair h' w')
      assume p: "case s of (h', w') \<Rightarrow> ready h' w' \<and> home h' = home (sg_storage g)
           \<and> only_touches (insert (?d @ [af_filename frame]) (write_scope ?s ?m)) w w'
           \<and> (is_poisoned_error e
               \<or> file_bytes w' (?d @ [af_filename frame]) = file_bytes w (?d @ [af_filename frame])
                 \<and> view w' ?m = Some m0)"
      have "still ?d w w'" if "\<not> is_poisoned_error e"
        unfolding still_def
      proof
        fix f show "file_bytes w' (?d @ [f]) = file_bytes w (?d @ [f])"
          using p Pair sib that by (cases "f = af_filename frame") auto
      qed
      then show ?thesis
        using p Pair seg live m0 files_match_still [OF fm]
        by (auto simp: segment_ok_def same_segment_def)
    qed
    done
qed

lemma session_file_length:
  assumes "ok_segment (g, w)" "derive_component s = Inr n"
  shows "length (file_bytes w (sg_incomplete_dir g @ [session_filename n])) = session_offset (sg_metadata g) s"
  using assms by (auto simp: segment_ok_def files_match_def)

lemma append_capture_spec:
  assumes seg: "ok_segment (g, w)" and live: "\<not> sg_poisoned g" and opened: "sg_closed g = None"
    and fits: "\<forall>i b. ser capture i ts = Inr b
      \<longrightarrow> session_offset (sg_metadata g) (cap_session capture) + length b \<le> u64_max"
  shows "wpE (append_capture append ser hash capture ts now)
    (\<lambda>r (g', w'). case r of
        Unchanged \<Rightarrow> g' = g \<and> w' = w
          \<and> map_of (sg_digests g) (cap_session capture) = Some (capture_digest hash capture)
      | Appended i \<Rightarrow> ok_segment (g', w') \<and> same_segment g g' \<and> \<not> sg_poisoned g'
          \<and> i = Suc (last_durable_frame_id (sg_metadata g))
          \<and> (\<exists>n b. derive_component (cap_session capture) = Inr n \<and> ser capture i ts = Inr b
               \<and> grew (sg_incomplete_dir g) (session_filename n) b w w'))
    (\<lambda>e (g', w'). same_segment g g' \<and> sg_metadata g' = sg_metadata g
       \<and> (sg_poisoned g' \<or> ok_segment (g', w') \<and> still (sg_incomplete_dir g) w w')) (g, w)"
    (is "wpE _ ?Q ?R _")
proof (cases "capture_frame ser g capture ts now")
  case (Inl e)
  then show ?thesis
    using seg live opened by (simp add: append_capture_def Let_def same_segment_def still_def)
next
  case (Inr p)
  obtain i frame where p: "p = (i, frame)" by fastforce
  let ?m = "sg_metadata g" and ?s = "cap_session capture"
  from Inr p obtain n b measured where n: "derive_component ?s = Inr n"
    and i: "i = Suc (last_durable_frame_id ?m)" "i \<le> u64_max"
    and b: "ser capture i ts = Inr b"
    and me: "record_length ?m (now - sg_start_monotonic g) (sg_interval g) = Some measured"
    and frame: "frame = \<lparr>af_filename = session_filename n, af_previous_offset = session_offset ?m ?s,
        af_bytes = b, af_proposed = measured
          \<lparr>last_durable_frame_id := i, durable_frame_count := wrapping_add_u64 (durable_frame_count ?m) 1,
           has_durable_frames := True,
           sessions := bt_insert ?s \<lparr>sm_session = ?s, sm_filename = session_filename n, sm_last_frame_id = i,
              sm_durable_offset = wrapping_add_u64 (session_offset ?m ?s) (length b)\<rparr> (sessions ?m)\<rparr>\<rparr>"
    by (auto simp: capture_frame_def Let_def checked_add_u64_Some split: sum.splits option.splits)
  let ?p = "af_proposed frame"
  obtain el fin where measured: "measured = ?m\<lparr>elapsed_nanos := el, finalized_dir := fin\<rparr>"
    using record_length_Some [OF me] by blast
  have cnt: "counters_ok ?m" "stem_ok ?m" and fm: "files_match ?m (sg_incomplete_dir g) w"
    using seg by (auto simp: segment_ok_def)
  have off: "wrapping_add_u64 (session_offset ?m ?s) (length b) = session_offset ?m ?s + length b"
  proof -
    have "session_offset ?m ?s + length b \<le> u64_max" using fits b by blast
    then show ?thesis by (simp add: wrapping_add_u64_def)
  qed
  have sess: "sessions ?p = bt_insert ?s \<lparr>sm_session = ?s, sm_filename = session_filename n, sm_last_frame_id = i,
              sm_durable_offset = session_offset ?m ?s + length b\<rparr> (sessions ?m)"
    "incomplete_name ?p = incomplete_name ?m" "activity_durable_offset ?p = activity_durable_offset ?m"
    "last_durable_frame_id ?p = i" "has_durable_frames ?p"
    "durable_frame_count ?p = wrapping_add_u64 (durable_frame_count ?m) 1"
    by (simp_all add: frame off measured)
  have cnt': "counters_ok ?p"
    unfolding counters_ok_def
  proof (intro conjI ballI)
    have "durable_frame_count ?p = i"
      using cnt(1) i by (simp add: sess wrapping_add_u64_def counters_ok_def)
    then show "last_durable_frame_id ?p = durable_frame_count ?p"
      "has_durable_frames ?p = (0 < durable_frame_count ?p)" "durable_frame_count ?p \<le> u64_max"
      using i by (simp_all add: sess)
    fix x assume x: "x \<in> set (sessions ?p)"
    have "x = (?s, \<lparr>sm_session = ?s, sm_filename = session_filename n, sm_last_frame_id = i,
              sm_durable_offset = session_offset ?m ?s + length b\<rparr>) \<or> x \<in> set (sessions ?m)"
      using subsetD [OF set_bt_insert x [unfolded sess(1)]] by (simp only: insert_iff)
    then show "row_ok (last_durable_frame_id ?p) x"
    proof
      assume "x \<in> set (sessions ?m)"
      then have "row_ok (last_durable_frame_id ?m) x"
        using cnt(1) unfolding counters_ok_def by blast
      then show ?thesis by (rule row_ok_mono) (simp add: sess i)
    qed (use n i in \<open>simp add: sess row_ok_def\<close>)
  qed
  have stem': "stem_ok ?p" using cnt(2) by (simp add: stem_ok_def sess)
  have offs: "session_offset ?p t = (if t = ?s then session_offset ?m ?s + length b else session_offset ?m t)" for t
    by (simp add: session_offset_def sess)
  have commit: "wpE (commit_frame append frame
        (\<lambda>g. g\<lparr>sg_digests := AList.update ?s (capture_digest hash capture) (sg_digests g)\<rparr>))
      (\<lambda>_ (g', w'). same_segment g g' \<and> \<not> sg_poisoned g' \<and> ready (sg_storage g') w'
       \<and> home (sg_storage g') = home (sg_storage g) \<and> sg_metadata g' = ?p
       \<and> grew (sg_incomplete_dir g) (af_filename frame) (af_bytes frame) w w'
       \<and> (\<exists>b. enc ?p = Inr b \<and> view w' (sg_metadata_path g) = Some b)) ?R (g, w)"
    by (rule commit_frame_spec [OF seg live])
      (use session_filename_plain [OF n] session_file_length [OF seg n] in \<open>simp_all add: frame same_segment_def\<close>)
  have step: "?Q (Appended i) s"
    if "case s of (g', w') \<Rightarrow> same_segment g g' \<and> \<not> sg_poisoned g' \<and> ready (sg_storage g') w'
       \<and> home (sg_storage g') = home (sg_storage g) \<and> sg_metadata g' = ?p
       \<and> grew (sg_incomplete_dir g) (af_filename frame) (af_bytes frame) w w'
       \<and> (\<exists>b. enc ?p = Inr b \<and> view w' (sg_metadata_path g) = Some b)" for s
    using that seg n b i cnt' stem' files_match_session [OF fm _ n offs sess(2,3)]
    by (cases s) (auto simp: segment_ok_def same_segment_def frame)
  have final: "wpE (commit_frame append frame
        (\<lambda>g. g\<lparr>sg_digests := AList.update ?s (capture_digest hash capture) (sg_digests g)\<rparr>))
      (\<lambda>_. ?Q (Appended i)) ?R (g, w)"
    by (rule wpE_mono [OF commit]) (rule step, assumption+)
  show ?thesis
    unfolding append_capture_def Let_def wpE_bind wpE_gets fst_conv
    using live opened Inr p final by simp
qed

lemma append_activity_spec:
  assumes seg: "ok_segment (g, w)" and live: "\<not> sg_poisoned g" and opened: "sg_closed g = None"
    and b: "b \<noteq> []" and stem: "segment_stem (incomplete_name (sg_metadata g)) = Some stem"
  shows "wpE (append_activity append b now)
    (\<lambda>_ (g', w'). ok_segment (g', w') \<and> same_segment g g' \<and> \<not> sg_poisoned g'
       \<and> grew (sg_incomplete_dir g) (activity_filename stem) b w w')
    (\<lambda>e (g', w'). same_segment g g' \<and> sg_metadata g' = sg_metadata g
       \<and> (sg_poisoned g' \<or> ok_segment (g', w') \<and> still (sg_incomplete_dir g) w w')) (g, w)"
    (is "wpE _ ?Q ?R _")
proof (cases "activity_frame g b now")
  case (Inl e)
  then show ?thesis
    using seg live opened b by (simp add: append_activity_def Let_def same_segment_def still_def)
next
  case (Inr frame)
  let ?m = "sg_metadata g"
  from Inr stem obtain proposed where off: "activity_durable_offset ?m + length b \<le> u64_max"
    and me: "record_length (?m\<lparr>activity_durable_offset := activity_durable_offset ?m + length b\<rparr>)
        (now - sg_start_monotonic g) (sg_interval g) = Some proposed"
    and frame: "frame = \<lparr>af_filename = activity_filename stem,
        af_previous_offset = activity_durable_offset ?m, af_bytes = b, af_proposed = proposed\<rparr>"
    by (auto simp: activity_frame_def Let_def checked_add_u64_Some split: option.splits)
  let ?p = "af_proposed frame"
  obtain el fin where p: "proposed = ?m\<lparr>activity_durable_offset := activity_durable_offset ?m + length b,
      elapsed_nanos := el, finalized_dir := fin\<rparr>"
    using record_length_Some [OF me] by auto
  have ok: "counters_ok ?p" "stem_ok ?p" "sessions ?p = sessions ?m" "incomplete_name ?p = incomplete_name ?m"
    "activity_durable_offset ?p = activity_durable_offset ?m + length b"
    using seg by (auto simp: segment_ok_def counters_ok_def stem_ok_def frame p)
  have fm: "files_match ?m (sg_incomplete_dir g) w" and plain: "plain_name (activity_filename stem)"
    using seg stem by (auto simp: segment_ok_def stem_ok_def)
  have len: "length (file_bytes w (sg_incomplete_dir g @ [activity_filename stem])) = activity_durable_offset ?m"
    using fm stem by (simp add: files_match_def)
  have commit: "wpE (commit_frame append frame (\<lambda>g. g))
      (\<lambda>_ (g', w'). same_segment g g' \<and> \<not> sg_poisoned g' \<and> ready (sg_storage g') w'
       \<and> home (sg_storage g') = home (sg_storage g) \<and> sg_metadata g' = ?p
       \<and> grew (sg_incomplete_dir g) (af_filename frame) (af_bytes frame) w w'
       \<and> (\<exists>b. enc ?p = Inr b \<and> view w' (sg_metadata_path g) = Some b)) ?R (g, w)"
    by (rule commit_frame_spec [OF seg live]) (use plain len in \<open>simp_all add: frame same_segment_def\<close>)
  have step: "?Q u s"
    if "case s of (g', w') \<Rightarrow> same_segment g g' \<and> \<not> sg_poisoned g' \<and> ready (sg_storage g') w'
       \<and> home (sg_storage g') = home (sg_storage g) \<and> sg_metadata g' = ?p
       \<and> grew (sg_incomplete_dir g) (af_filename frame) (af_bytes frame) w w'
       \<and> (\<exists>b. enc ?p = Inr b \<and> view w' (sg_metadata_path g) = Some b)" for s and u :: unit
    using that seg ok files_match_activity [OF fm _ stem ok(5,4,3)]
    by (cases s) (auto simp: segment_ok_def same_segment_def frame)
  have final: "wpE (commit_frame append frame (\<lambda>g. g)) ?Q ?R (g, w)"
    by (rule wpE_mono [OF commit]) (rule step, assumption+)
  show ?thesis
    unfolding append_activity_def Let_def wpE_bind wpE_gets fst_conv
    using live opened Inr b final by simp
qed

end

subsection \<open>Publishing a finished segment\<close>

text \<open>The files of the directory \<open>d\<close> of \<open>w\<close> are those of \<open>r\<close> in \<open>w'\<close>.\<close>

definition kept :: "path \<Rightarrow> world \<Rightarrow> path \<Rightarrow> world \<Rightarrow> bool" where
  "kept d w r w' \<longleftrightarrow> world_ok w' \<and> (\<forall>f. view w' (r @ [f]) = view w (d @ [f]))"

lemma kept_quiet:
  assumes "kept d w r u" "only_touches S u u'" "\<And>f. r @ [f] \<notin> S"
  shows "kept d w r u'"
  using assms by (simp add: kept_def only_touches_def)

lemma kept_tick [simp]: "kept d w r (tick u) = kept d w r u"
  by (simp add: kept_def world_simps)

lemma kept_del: "kept d w r u \<Longrightarrow> (\<And>f. r @ [f] \<noteq> p) \<Longrightarrow> kept d w r (del_node p u)"
  by (simp add: kept_def world_upd)

text \<open>
  The names a segment uses in its stream directory: the recording directory, its metadata,
  the finalized directory (free) and the zone file.
\<close>

definition names_ok :: "path \<Rightarrow> path \<Rightarrow> path \<Rightarrow> string \<Rightarrow> world \<Rightarrow> bool" where
  "names_ok s d meta fin w \<longleftrightarrow>
     (\<exists>x y i. d = s @ [x] \<and> meta = s @ [y] \<and> node_at w d = Some (NDir i) \<and> x \<noteq> fin)
     \<and> plain_name fin \<and> plain_name (fin @ ''.zone.json'')
     \<and> s @ [fin] \<notin> write_scope s meta
     \<and> (\<forall>r. node_at w (s @ fin # r) = None)"

lemma wp_occupied:
  "(node_at w p \<noteq> None \<Longrightarrow> Q True (tick w)) \<Longrightarrow> Q False (tick w) \<Longrightarrow> wpE (occupied p) Q R w"
  unfolding occupied_def by (simp, intro wp_intros) auto

lemma publish_segment_spec:
  assumes ok: "world_ok w" and n: "names_ok s d meta (finalized_dir m) w"
  shows "wpE (publish_segment json_ct s d meta m)
    (\<lambda>p w'. p = s @ [finalized_dir m] \<and> kept d w p w' \<and> node_at w' meta = None)
    (\<lambda>_ w'. kept d w d w' \<or> kept d w (s @ [finalized_dir m]) w') w"
    (is "wpE _ ?Q ?R _")
proof -
  let ?fin = "finalized_dir m"
  let ?q = "s @ [?fin]"
  obtain x y i where xy: "d = s @ [x]" "meta = s @ [y]" "node_at w d = Some (NDir i)" "x \<noteq> ?fin"
    and plain: "plain_name ?fin" "plain_name (?fin @ ''.zone.json'')"
    and free: "\<And>r. node_at w (?q @ r) = None"
    using n by (auto simp: names_ok_def)
  have mv: "length d = length ?q" "d \<noteq> ?q" using xy by simp_all
  have free': "node_at (tick (tick w)) (?q @ r) = None" for r by (simp only: tick_obs free)
  let ?u = "move_tree d ?q (tick (tick w))"
  have u: "kept d w ?q ?u" "world_ok ?u"
    using view_move_tree(1) [OF free' mv] world_ok_move_tree [OF _ free' mv] ok
    by (simp_all add: kept_def world_simps)
  have quiet: "kept d w ?q v'" if "only_touches (write_scope s (s @ [z])) v v'" "kept d w ?q v" for v v' z
    by (rule kept_quiet [OF that(2,1)]) (auto simp: write_scope_def temporaries_def)
  have quiet0: "kept d w ?q v'" if "only_touches {} v v'" "kept d w ?q v" for v v'
    by (rule kept_quiet [OF that(2,1)]) auto
  have sync: "wpE (sync_directory s) (\<lambda>_ v'. P v') (\<lambda>_. ?R e) v"
    if "kept d w ?q v" "world_ok v" "\<And>v'. kept d w ?q v' \<Longrightarrow> only_touches {} v v' \<Longrightarrow> P v'" for v P e
    by (rule wp_sync_directory) (use that quiet0 [of v] in auto)
  have zone: "wpE (write_capture_time json_ct s ?fin ct) (\<lambda>_ v'. kept d w ?q v' \<and> world_ok v') (\<lambda>_ v'. kept d w ?q v') v"
    if v: "kept d w ?q v" "world_ok v" for v ct
  proof (cases "json_ct ct")
    case (Inl e)
    with v show ?thesis by (simp add: write_capture_time_def)
  next
    case (Inr b)
    have p: "capture_time_path s ?fin = s @ [?fin @ ''.zone.json'']"
      using plain(2) by (simp add: capture_time_path_def path_join_plain_name)
    show ?thesis
      unfolding write_capture_time_def Inr sum.case p
      by (rule wpE_mono [OF atomic_write_bytes_spec [OF v(2) plain(2)]])
        (auto simp: replaced_ok_def replaced_err_def only_touches_def intro: quiet [OF _ v(1)])
  qed
  have last: "wpE (sync_directory s) (\<lambda>_ v'. ?Q ?q v') (\<lambda>_. ?R e) (del_node meta (tick v))"
    if v: "kept d w ?q v" "world_ok v" for v e
  proof (rule sync)
    show "kept d w ?q (del_node meta (tick v))" by (rule kept_del) (use v xy in auto)
    show "world_ok (del_node meta (tick v))" using v by (simp add: world_upd world_simps)
  qed (auto simp: only_touches_def world_simps)
  have rest: "wpE (sync_directory s) (\<lambda>_. wpE (write_capture_time json_ct s ?fin ct)
      (\<lambda>_. wpE (fs_remove_file meta) (\<lambda>_. wpE (sync_directory s) (\<lambda>_ v'. ?Q ?q v') (\<lambda>e. ?R (SegStorage e)))
          (\<lambda>e. ?R (SegIo op meta e))) (\<lambda>e. ?R (SegStorage e))) (\<lambda>e. ?R (SegStorage e)) ?u" for ct op
    apply (rule sync [OF u])
    apply (rule wpE_mono [OF zone], assumption)
      apply (auto simp: only_touches_def) [1]
     apply (intro wp_intros)
      apply simp
     apply (rule last; simp)
    apply simp
    done
  show ?thesis
    unfolding publish_segment_def Let_def path_join_plain_name [OF plain(1)] wpE_bind wpE_map_err
    apply (rule wp_occupied)
    subgoal using free [of "[]"] by simp
    apply (simp only: if_False wpE_bind wpE_map_err)
    apply (rule wp_rename_dir [where i = i])
       apply (simp add: kept_def world_simps ok)
      apply (simp only: tick_obs xy(3))
     apply (rule mv(2))
    using rest by simp
qed

lemma names_ok_touch:
  assumes n: "names_ok s d meta fin w" and t: "only_touches (write_scope s meta) w w'"
  shows "names_ok s d meta fin w'"
proof -
  obtain x y where xy: "d = s @ [x]" "meta = s @ [y]" "is_dir w d" "x \<noteq> fin"
    and rest: "plain_name fin" "plain_name (fin @ ''.zone.json'')" "s @ [fin] \<notin> write_scope s meta"
    and free: "\<And>r. node_at w (s @ fin # r) = None"
    using n by (auto simp: names_ok_def is_dir_def)
  have "is_dir w' d" using t xy(3) by (simp add: only_touches_def)
  then have "\<exists>i. node_at w' d = Some (NDir i)"
    by (auto simp: is_dir_def split: option.splits node.splits)
  moreover have "node_at w' (s @ fin # r) = None" for r
  proof -
    have "s @ fin # r \<notin> write_scope s meta"
      using rest(3) xy(2) by (cases r) (auto simp: write_scope_def temporaries_def)
    then show ?thesis using t free by (simp add: only_touches_def)
  qed
  ultimately show ?thesis using xy rest by (auto simp: names_ok_def)
qed

context durable_storage
begin

lemma finalize_spec:
  assumes seg: "ok_segment (g, w)" and live: "\<not> sg_poisoned g" and opened: "sg_closed g = None"
    and content: "has_durable_frames (sg_metadata g) \<or> activity_durable_offset (sg_metadata g) \<noteq> 0"
    and me: "record_length (sg_metadata g) (now - sg_start_monotonic g) (sg_interval g) = Some measured"
    and n: "names_ok (sg_stream_dir g) (sg_incomplete_dir g) (sg_metadata_path g) (finalized_dir measured) w"
  shows "wpE (finalize persist close json_ct now)
    (\<lambda>c (g', w'). c = Finalized (sg_stream_dir g @ [finalized_dir measured]) \<and> sg_closed g' = Some c
       \<and> kept (sg_incomplete_dir g) w (sg_stream_dir g @ [finalized_dir measured]) w'
       \<and> node_at w' (sg_metadata_path g) = None)
    (\<lambda>_ (g', w'). sg_closed g' = None
       \<and> (kept (sg_incomplete_dir g) w (sg_incomplete_dir g) w'
          \<or> kept (sg_incomplete_dir g) w (sg_stream_dir g @ [finalized_dir measured]) w')) (g, w)"
    (is "wpE _ ?Q ?R _")
proof -
  let ?d = "sg_incomplete_dir g" and ?meta = "sg_metadata_path g" and ?s = "sg_stream_dir g"
  let ?fin = "finalized_dir measured"
  let ?m = "measured\<lparr>lifecycle := Finalizing\<rparr>"
  let ?T = "only_touches (write_scope ?s ?meta) w"
  have home: "home (sg_storage g) = (?d, ?meta, ?s)" and r: "ready (sg_storage g) w"
    using seg by (auto simp: segment_ok_def)
  obtain x y where xy: "?d = ?s @ [x]" "?meta = ?s @ [y]" "plain_name y"
    using ready_layout [OF r home] by blast
  have here: "kept ?d w ?d u" if "?T u" for u
  proof -
    have "?d @ [f] \<notin> write_scope ?s ?meta" for f
      using xy(1,2) by (auto simp: write_scope_def temporaries_def)
    then show ?thesis using that by (simp add: kept_def only_touches_def)
  qed
  have publish: "wpE (publish_segment json_ct ?s ?d ?meta ?m)
      (\<lambda>p u'. ?Q (Finalized p) (g'\<lparr>sg_closed := Some (Finalized p)\<rparr>, u')) (\<lambda>e u'. ?R e (g', u')) u"
    if t: "?T u" and g': "sg_closed g' = None" for u g'
  proof (rule wpE_mono [OF publish_segment_spec])
    show "world_ok u" using t by (simp add: only_touches_def)
    show "names_ok ?s ?d ?meta (finalized_dir ?m) u" using names_ok_touch [OF n t] by simp
  qed (use here [OF t] g' in \<open>auto simp: kept_def\<close>)
  have done_close: "wpE close
     (\<lambda>_ (h', u'). wpE (publish_segment json_ct ?s ?d ?meta ?m)
        (\<lambda>p u''. ?Q (Finalized p) (g\<lparr>sg_metadata := ?m, sg_storage := h', sg_closed := Some (Finalized p)\<rparr>, u''))
        (\<lambda>e u''. ?R e (g\<lparr>sg_metadata := ?m, sg_storage := h'\<rparr>, u'')) u')
     (\<lambda>e (h', u'). ?R (SegStorage e) (g\<lparr>sg_metadata := ?m, sg_storage := h'\<rparr>, u')) (h, u)"
    if t: "?T u" and h: "ready h u" for h u
  proof -
    have t': "?T u'" if "only_touches {} u u'" for u'
      by (rule only_touches_trans [OF t only_touches_mono [OF that]]) simp
    show ?thesis
      apply (rule wpE_mono [OF close_law [OF h]])
      subgoal for _ p
        using publish [of "snd p" "g\<lparr>sg_metadata := ?m, sg_storage := fst p\<rparr>"] t' opened
        by (cases p) simp
      subgoal for _ p
        using t' here opened by (cases p) auto
      done
  qed
  have "wpE (persist ?m)
     (\<lambda>_ s. case s of (h, u) \<Rightarrow> wpE close
         (\<lambda>_ (h', u'). wpE (publish_segment json_ct ?s ?d ?meta ?m)
            (\<lambda>p u''. ?Q (Finalized p) (g\<lparr>sg_metadata := ?m, sg_storage := h', sg_closed := Some (Finalized p)\<rparr>, u''))
            (\<lambda>e u''. ?R e (g\<lparr>sg_metadata := ?m, sg_storage := h'\<rparr>, u'')) u')
         (\<lambda>e (h', u'). ?R (SegStorage e) (g\<lparr>sg_metadata := ?m, sg_storage := h'\<rparr>, u')) (h, u))
     (\<lambda>e s. case s of (h, u) \<Rightarrow> ?R (SegStorage e) (g\<lparr>sg_metadata := ?m, sg_storage := h\<rparr>, u)) (sg_storage g, w)"
    apply (rule wpE_mono [OF persist_law [OF r home]])
    subgoal for _ p using done_close [of "snd p" "fst p"] by (cases p) simp
    subgoal for _ p using here opened by (cases p) auto
    done
  then have seal: "wpE (seal_segment persist close json_ct ?m) ?Q ?R (g, w)"
    by (simp add: seal_segment_def case_prod_beta)
  show ?thesis
    unfolding finalize_def wpE_bind wpE_gets fst_conv opened option.case me
    using live content seal by auto
qed

end

subsection \<open>Removing an empty segment\<close>

text \<open>No file with content disappears, the metadata file apart.\<close>

definition no_loss :: "path \<Rightarrow> world \<Rightarrow> world \<Rightarrow> bool" where
  "no_loss meta w w' \<longleftrightarrow> (\<forall>p b. view w p = Some b \<longrightarrow> b \<noteq> [] \<longrightarrow> p \<noteq> meta \<longrightarrow> view w' p = Some b)"

lemma no_loss_tick [simp]: "no_loss meta w (tick u) = no_loss meta w u"
  by (simp add: no_loss_def world_simps)

lemma no_loss_del:
  assumes "no_loss meta w u" "view u p = None \<or> view u p = Some [] \<or> p = meta"
  shows "no_loss meta w (del_node p u)"
  unfolding no_loss_def world_upd
proof (intro allI impI)
  fix q b assume q: "view w q = Some b" "b \<noteq> []" "q \<noteq> meta"
  then have "view u q = Some b" using assms(1) by (simp add: no_loss_def)
  then show "((view u)(p := None)) q = Some b" using assms(2) q by auto
qed

lemma no_loss_touch: "no_loss meta w u \<Longrightarrow> only_touches {} u u' \<Longrightarrow> no_loss meta w u'"
  by (simp add: no_loss_def only_touches_def)

abbreviation nl :: "path \<Rightarrow> world \<Rightarrow> world \<Rightarrow> bool" where
  "nl meta w u \<equiv> no_loss meta w u \<and> world_ok u"

lemma remove_entry_spec:
  assumes "nl meta w u"
  shows "wpE (remove_entry dir e) (\<lambda>_. nl meta w) (\<lambda>_. nl meta w) u"
  using assms unfolding remove_entry_def
  by (cases e; simp add: Let_def; intro wp_intros;
      (auto simp: world_simps split: node.splits; intro wp_intros;
       auto simp: world_simps world_upd intro!: no_loss_del simp: view_def))

lemma forE_nl:
  assumes "nl meta w u"
  shows "wpE (forE (remove_entry dir) es) (\<lambda>_. nl meta w) (\<lambda>_. nl meta w) u"
  using assms by (intro wpE_forE remove_entry_spec)

lemma wp_read_dir:
  "(\<And>e. R e (tick w)) \<Longrightarrow> Q (dir_entries w p) (tick w) \<Longrightarrow> wpE (fs_read_dir p) Q R w"
  unfolding fs_read_dir_def
  by (rule wp_sys)
    (auto simp: wpE_def world_simps dir_entries_def split: sum.splits node.splits)

lemma sync_nl:
  assumes "nl meta w u"
  shows "wpE (sync_directory p) (\<lambda>_. nl meta w) (\<lambda>_. nl meta w) u"
  by (rule wp_sync_directory) (use assms no_loss_touch in \<open>auto simp: only_touches_def\<close>)

lemma remove_empty_files_spec:
  assumes start: "nl meta w u"
  shows "wpE (remove_empty_files dir meta stream) (\<lambda>_. nl meta w) (\<lambda>_. nl meta w) u"
proof -
  have gone: "wpE (fs_remove_file meta) (\<lambda>_. nl meta w) (\<lambda>_. nl meta w) v" if "nl meta w v" for v
    by (intro wp_intros) (use that in \<open>auto simp: world_simps world_upd intro!: no_loss_del\<close>)
  have rmdir: "wpE (fs_remove_dir dir) (\<lambda>_. nl meta w) (\<lambda>_. nl meta w) v" if "nl meta w v" for v
    by (intro wp_intros)
      (use that in \<open>auto simp: world_simps world_upd is_dir_def view_def
        split: option.splits node.splits intro!: no_loss_del\<close>)
  show ?thesis
    unfolding remove_empty_files_def wpE_bind wpE_map_err
    apply (rule wp_read_dir)
     apply (use start in \<open>simp add: world_simps\<close>)
    apply (rule wpE_mono [OF forE_nl [where meta = meta and w = w]])
      apply (use start in \<open>simp add: world_simps\<close>)
     apply (rule wpE_mono [OF rmdir], assumption)
      apply (rule wpE_mono [OF sync_nl [where meta = meta and w = w]], assumption)
       apply (rule wpE_mono [OF gone], assumption)
        apply (rule sync_nl; assumption)
    apply assumption+
    done
qed

text \<open>
  Removing a segment as empty never destroys a recorded byte, however wrong its metadata:
  every file with content other than the metadata file keeps it, whatever fails.
\<close>

theorem remove_empty_loses_nothing:
  assumes "storage_ok (sg_storage g) w" "view w p = Some b" "b \<noteq> []" "p \<noteq> sg_metadata_path g"
  shows "view (snd (snd (remove_confirmed_empty sync_and_close (g, w)))) p = Some b"
proof -
  let ?meta = "sg_metadata_path g"
  have start: "nl ?meta w w" using assms(1) by (simp add: no_loss_def storage_ok_def)
  have close: "wpE sync_and_close (\<lambda>_ s. nl ?meta w (snd s)) (\<lambda>_ s. nl ?meta w (snd s)) (sg_storage g, w)"
    by (rule wpE_mono [OF sync_and_close_spec [OF assms(1)]])
      (use start no_loss_touch in \<open>auto simp: only_touches_def\<close>)
  have rm: "wpE (remove_empty_files d ?meta s) (\<lambda>_. nl ?meta w) (\<lambda>_. nl ?meta w) u" if "nl ?meta w u" for d s u
    using that by (rule remove_empty_files_spec)
  have "wpE (remove_confirmed_empty sync_and_close)
      (\<lambda>_ s. nl ?meta w (snd s)) (\<lambda>_ s. nl ?meta w (snd s)) (g, w)"
    unfolding remove_confirmed_empty_def wpE_bind wpE_gets
    using start
    by (auto split: option.split intro!: wpE_mono [OF close] wpE_mono [OF rm])
  then have "nl ?meta w (snd (snd (remove_confirmed_empty sync_and_close (g, w))))"
    by (auto simp: wpE_def split: prod.splits sum.splits)
  with assms show ?thesis by (simp add: no_loss_def)
qed

subsection \<open>The properties of a segment\<close>

abbreviation storage_home :: "FileStorage \<Rightarrow> path \<times> path \<times> path" where
  "storage_home st \<equiv> (segment_dir st, metadata_path st, stream_dir st)"

text \<open>
  C7. Appending a capture keeps the segment's invariant. When it reports an appended frame,
  that frame has the next identifier, its bytes follow what the session's file held, and the
  file of every other session and the activity file are untouched; when it reports an
  unchanged screen nothing happened; when it fails and the segment is not poisoned, no file
  and no metadata changed.
\<close>

theorem append_capture_keeps_segment:
  assumes "segment_ok storage_ok storage_home (to_bytes json) (g, w)"
    and "\<not> sg_poisoned g" "sg_closed g = None"
    and "\<forall>i b. ser capture i ts = Inr b
      \<longrightarrow> session_offset (sg_metadata g) (cap_session capture) + length b \<le> u64_max"
  shows "case append_capture (append_frame json) ser hash capture ts now (g, w) of
      (Inr Unchanged, g', w') \<Rightarrow> g' = g \<and> w' = w
        \<and> map_of (sg_digests g) (cap_session capture) = Some (capture_digest hash capture)
    | (Inr (Appended i), g', w') \<Rightarrow>
        segment_ok storage_ok storage_home (to_bytes json) (g', w')
        \<and> i = Suc (last_durable_frame_id (sg_metadata g))
        \<and> (\<exists>n b. derive_component (cap_session capture) = Inr n \<and> ser capture i ts = Inr b
             \<and> grew (sg_incomplete_dir g) (session_filename n) b w w')
    | (Inl _, g', w') \<Rightarrow> sg_metadata g' = sg_metadata g
        \<and> (sg_poisoned g' \<or> segment_ok storage_ok storage_home (to_bytes json) (g', w')
             \<and> still (sg_incomplete_dir g) w w')"
  using file_storage.append_capture_spec
    [where json = json and ser = ser and hash = hash and now = now and ts = ts, OF assms]
  by (auto simp: wpE_def split: prod.splits sum.splits AppendOutcome.splits)

definition sample_segment :: "FileStorage SegmentState" where
  "sample_segment =
     \<lparr>sg_stream_dir = [''s''], sg_incomplete_dir = [''s'', ''x.incomplete''],
      sg_metadata_path = [''s'', ''x.incomplete.meta''], sg_metadata = sample_metadata,
      sg_storage = sample_storage, sg_digests = [], sg_start_monotonic = 0, sg_interval = 300 * NANOS,
      sg_poisoned = False, sg_closed = None\<rparr>"

definition sample_capture :: CaptureResult where
  "sample_capture =
     \<lparr>cap_session = ''main'', cap_window = \<lparr>win_id = ''@1'', win_index = 0, win_name = ''sh'', win_active = True\<rparr>,
      cap_windows = [], cap_panes = [], output_only = False\<rparr>"

lemma sample_no_files: "file_bytes (sample_world os) [''s'', ''x.incomplete'', f] = []"
  by (simp add: file_bytes_def view_def node_at_def sample_world_def)

lemma sample_segment_ok:
  "segment_ok storage_ok storage_home (to_bytes (\<lambda>_. Inr ''{}'')) (sample_segment, sample_world os)"
proof -
  have stem: "segment_stem (incomplete_name sample_metadata) = Some ''x''"
    by (simp add: segment_stem_Some sample_metadata_def)
  have "files_match sample_metadata [''s'', ''x.incomplete''] (sample_world os)"
    by (simp add: files_match_def sample_no_files session_offset_def sample_metadata_def)
  moreover have "counters_ok sample_metadata"
    by (simp add: counters_ok_def sample_metadata_def)
  moreover have "stem_ok sample_metadata"
    using stem by (auto simp: stem_ok_def activity_filename_def intro!: plain_ascii)
  ultimately show ?thesis
    by (simp add: segment_ok_def sample_segment_def sample_storage_ok to_bytes_def sample_views)
qed

theorem append_capture_keeps_segment_witness:
  "case append_capture (append_frame (\<lambda>_. Inr ''{}'')) (\<lambda>c i t. Inr ''row'') length sample_capture () 0
      (sample_segment, sample_world []) of
      (Inr Unchanged, g', w') \<Rightarrow> g' = sample_segment \<and> w' = sample_world []
        \<and> map_of (sg_digests sample_segment) (cap_session sample_capture)
          = Some (capture_digest length sample_capture)
    | (Inr (Appended i), g', w') \<Rightarrow>
        segment_ok storage_ok storage_home (to_bytes (\<lambda>_. Inr ''{}'')) (g', w')
        \<and> i = Suc (last_durable_frame_id (sg_metadata sample_segment))
        \<and> (\<exists>n b. derive_component (cap_session sample_capture) = Inr n
             \<and> (\<lambda>c i t. Inr ''row'') sample_capture i () = (Inr b :: string + bytes)
             \<and> grew (sg_incomplete_dir sample_segment) (session_filename n) b (sample_world []) w')
    | (Inl _, g', w') \<Rightarrow> sg_metadata g' = sg_metadata sample_segment
        \<and> (sg_poisoned g' \<or> segment_ok storage_ok storage_home (to_bytes (\<lambda>_. Inr ''{}'')) (g', w')
             \<and> still (sg_incomplete_dir sample_segment) (sample_world []) w')"
  by (rule append_capture_keeps_segment [OF sample_segment_ok])
    (simp_all add: sample_segment_def session_offset_def sample_metadata_def u64_max_def)

text \<open>
  C8. Closing a segment with content. Success means every file of the recording directory is
  found unchanged under the finalized name, whose metadata file is gone; if any step fails,
  all files are still complete, in the recording directory or in the finalized one.
\<close>

theorem finalize_keeps_recordings:
  assumes "segment_ok storage_ok storage_home (to_bytes json) (g, w)"
    and "\<not> sg_poisoned g" "sg_closed g = None"
    and "has_durable_frames (sg_metadata g) \<or> activity_durable_offset (sg_metadata g) \<noteq> 0"
    and "record_length (sg_metadata g) (now - sg_start_monotonic g) (sg_interval g) = Some measured"
    and "names_ok (sg_stream_dir g) (sg_incomplete_dir g) (sg_metadata_path g) (finalized_dir measured) w"
  shows "case finalize (write_metadata json) sync_and_close json_ct now (g, w) of
      (Inr c, g', w') \<Rightarrow> c = Finalized (sg_stream_dir g @ [finalized_dir measured])
        \<and> sg_closed g' = Some c
        \<and> kept (sg_incomplete_dir g) w (sg_stream_dir g @ [finalized_dir measured]) w'
        \<and> node_at w' (sg_metadata_path g) = None
    | (Inl _, g', w') \<Rightarrow> sg_closed g' = None
        \<and> (kept (sg_incomplete_dir g) w (sg_incomplete_dir g) w'
          \<or> kept (sg_incomplete_dir g) w (sg_stream_dir g @ [finalized_dir measured]) w')"
  using file_storage.finalize_spec [where json = json and json_ct = json_ct, OF assms]
  by (auto simp: wpE_def split: prod.splits sum.splits)

text \<open>The sample after its first frame.\<close>

definition busy_metadata :: SegmentMetadata where
  "busy_metadata = sample_metadata\<lparr>activity_durable_offset := 3\<rparr>"

definition busy_world :: "outcome list \<Rightarrow> world" where
  "busy_world os =
     \<lparr>w_names = [([], NDir 0), ([''s''], NDir 1), ([''s'', ''x.incomplete''], NDir 2),
        ([''s'', ''x.incomplete.meta''], NFile 3),
        ([''s'', ''x.incomplete'', ''x_desktop_activity.jsonl''], NFile 4)],
      w_data = [(3, ''{}'' @ [LF]), (4, ''row'')], w_mode = [], w_next = 5, w_outcomes = os, w_pid = 7,
      w_counter = 0, w_fault = no_write_fault\<rparr>"

definition busy_segment :: "FileStorage SegmentState" where
  "busy_segment = sample_segment\<lparr>sg_metadata := busy_metadata\<rparr>"

lemma busy_segment_ok:
  "segment_ok storage_ok storage_home (to_bytes (\<lambda>_. Inr ''{}'')) (busy_segment, busy_world os)"
proof -
  have stem: "segment_stem (incomplete_name busy_metadata) = Some ''x''"
    by (simp add: segment_stem_Some busy_metadata_def sample_metadata_def)
  have views: "view (busy_world os) [''s'', ''x.incomplete.meta''] = Some (''{}'' @ [LF])"
    "file_bytes (busy_world os) [''s'', ''x.incomplete'', ''x_desktop_activity.jsonl''] = ''row''"
    by (simp_all add: file_bytes_def view_def node_at_def contents_def busy_world_def)
  have none: "file_bytes (busy_world os) [''s'', ''x.incomplete'', session_filename n] = []" for n
    using activity_not_session [of "''x''" n]
    by (simp add: file_bytes_def view_def node_at_def busy_world_def activity_filename_def)
  have ok: "world_ok (busy_world os)"
    by (rule world_ok_checked) (simp add: world_check_def busy_world_def)
  have "storage_ok sample_storage (busy_world os)"
    by (auto simp: storage_ok_def layout_ok_def ok intro!: plain_ascii)
  moreover have "files_match busy_metadata [''s'', ''x.incomplete''] (busy_world os)"
    using stem views(2) none
    by (simp add: files_match_def session_offset_def busy_metadata_def sample_metadata_def activity_filename_def)
  moreover have "counters_ok busy_metadata"
    by (simp add: counters_ok_def busy_metadata_def sample_metadata_def)
  moreover have "stem_ok busy_metadata"
    using stem by (auto simp: stem_ok_def activity_filename_def intro!: plain_ascii)
  ultimately show ?thesis
    by (simp add: segment_ok_def busy_segment_def sample_segment_def to_bytes_def views)
qed

definition sealed_metadata :: SegmentMetadata where
  "sealed_metadata = busy_metadata\<lparr>elapsed_nanos := 65000000000, finalized_dir := ''x_065''\<rparr>"

lemma busy_measured:
  "record_length busy_metadata (65 * NANOS) (300 * NANOS) = Some sealed_metadata"
proof -
  have "segment_stem (incomplete_name busy_metadata) = Some ''x''"
    by (simp add: segment_stem_Some busy_metadata_def sample_metadata_def)
  moreover have "segment_length (65 * NANOS) (300 * NANOS) = 65"
    by (simp add: segment_length_def clamp_def)
  moreover have "finalized_name ''x'' (65 * NANOS) = ''x_065''"
    unfolding finalized_name_def as_secs_mult by code_simp
  ultimately show ?thesis
    by (simp add: record_length_def duration_nanos_def u64_max_def NANOS_def sealed_metadata_def)
qed

lemma busy_names: "names_ok [''s''] [''s'', ''x.incomplete''] [''s'', ''x.incomplete.meta''] ''x_065'' (busy_world os)"
  by (auto simp: names_ok_def write_scope_def temporaries_def node_at_def busy_world_def intro!: plain_ascii)

theorem finalize_keeps_recordings_witness:
  "case finalize (write_metadata (\<lambda>_. Inr ''{}'')) sync_and_close (\<lambda>_. Inr ''{}'') (65 * NANOS)
      (busy_segment, busy_world [Succeed, Fail 0]) of
      (Inr c, g', w') \<Rightarrow> c = Finalized (sg_stream_dir busy_segment @ [finalized_dir sealed_metadata])
        \<and> sg_closed g' = Some c
        \<and> kept (sg_incomplete_dir busy_segment) (busy_world [Succeed, Fail 0])
            (sg_stream_dir busy_segment @ [finalized_dir sealed_metadata]) w'
        \<and> node_at w' (sg_metadata_path busy_segment) = None
    | (Inl _, g', w') \<Rightarrow> sg_closed g' = None
        \<and> (kept (sg_incomplete_dir busy_segment) (busy_world [Succeed, Fail 0]) (sg_incomplete_dir busy_segment) w'
          \<or> kept (sg_incomplete_dir busy_segment) (busy_world [Succeed, Fail 0])
              (sg_stream_dir busy_segment @ [finalized_dir sealed_metadata]) w')"
  by (rule finalize_keeps_recordings [OF busy_segment_ok])
    (simp_all add: busy_segment_def sample_segment_def busy_measured, simp_all add: busy_metadata_def
      sealed_metadata_def busy_names)

theorem remove_empty_loses_nothing_witness:
  "view (snd (snd (remove_confirmed_empty sync_and_close (sample_segment, busy_world []))))
     [''s'', ''x.incomplete'', ''x_desktop_activity.jsonl''] = Some ''row''"
proof (rule remove_empty_loses_nothing)
  show "storage_ok (sg_storage sample_segment) (busy_world [])"
    using busy_segment_ok [of "[]"] by (simp add: segment_ok_def busy_segment_def sample_segment_def)
qed (simp_all add: view_def node_at_def contents_def busy_world_def sample_segment_def)

text \<open>
  The length in a finalized segment's name is the measured duration in whole seconds,
  bounded to at least one second and at most the segment interval, and is what a reader of
  the name gets back.
\<close>

theorem finalized_length_in_bounds:
  assumes "record_length m d interval = Some m'"
  shows "\<exists>stem n. segment_stem (incomplete_name m) = Some stem \<and> 1 \<le> n \<and> n \<le> max 1 (as_secs interval)
    \<and> (1 \<le> as_secs d \<longrightarrow> as_secs d \<le> as_secs interval \<longrightarrow> n = as_secs d)
    \<and> strip_prefix (stem @ ''_'') (finalized_dir m') \<noteq> None
    \<and> parse_digits (drop (length stem + 1) (finalized_dir m')) = Some n"
proof -
  obtain stem where stem: "incomplete_name m = stem @ ''.incomplete''"
    and fin: "finalized_dir m' = finalized_name stem (segment_length d interval * NANOS)"
    using assms by (auto simp: record_length_def segment_stem_Some Let_def split: option.splits)
  let ?n = "segment_length d interval"
  have "strip_prefix (stem @ ''_'') (finalized_dir m') = Some (pad_zero 3 (dec_of_nat ?n))"
    by (simp add: strip_prefix_Some fin finalized_name_def)
  then show ?thesis
    using segment_length_bounds [of d interval] segment_length_exact [of d interval]
      finalized_name_length [of stem ?n] stem
    by (intro exI [of _ stem] exI [of _ ?n]) (simp add: segment_stem_Some fin)
qed

theorem finalized_length_in_bounds_witness:
  "\<exists>stem n. segment_stem (incomplete_name busy_metadata) = Some stem \<and> 1 \<le> n
    \<and> n \<le> max 1 (as_secs (300 * NANOS))
    \<and> (1 \<le> as_secs (65 * NANOS) \<longrightarrow> as_secs (65 * NANOS) \<le> as_secs (300 * NANOS) \<longrightarrow> n = as_secs (65 * NANOS))
    \<and> strip_prefix (stem @ ''_'') (finalized_dir sealed_metadata) \<noteq> None
    \<and> parse_digits (drop (length stem + 1) (finalized_dir sealed_metadata)) = Some n"
  by (rule finalized_length_in_bounds [OF busy_measured])

end
