(* ===== verification/Recovery.thy ===== *)
theory Recovery
  imports Segment
begin

text \<open>
  Recovery of interrupted segments (\<open>src/recovery.rs\<close>): each \<open>STEM.incomplete\<close> with its
  metadata is finalized, repaired and finalized, removed when positively empty, retained, or
  moved aside as contradictory. Parameters: the JSON decoder of the metadata, \<open>fid\<close>
  (the \<open>frame_id\<close> of a JSON line, \<open>None\<close> if the line is no JSON or has none), and the \<open>time\<close>
  crate's range checks.
\<close>

record TimeApi =
  offset_ok :: "int \<Rightarrow> bool"
  instant_ok :: "int \<Rightarrow> bool"
  calendar_ok :: "nat \<Rightarrow> nat \<Rightarrow> nat \<Rightarrow> bool"

record RecoveryOptions =
  fail_source_rename :: bool
  fail_repair_sync :: bool
  fail_rename_parent_sync :: bool
  before_empty_removal :: "(path \<Rightarrow> (io_error, unit) io) option"

definition default_options :: RecoveryOptions where
  "default_options =
     \<lparr>fail_source_rename = False, fail_repair_sync = False, fail_rename_parent_sync = False,
      before_empty_removal = None\<rparr>"

datatype RecoveryAction = RecFinalized | RepairThenFinalize | Retain | Quarantine | Remove | Failed

record RecoveryRecord =
  candidate :: path
  action :: RecoveryAction
  detail :: string

text \<open>\<open>RecPanic\<close> stands for the panics of \<open>segment_stem\<close> and of a lost session.\<close>

datatype RecoveryError =
    RecStorage StorageError
  | EscapesDataRoot path
  | SpecialTarget path
  | RecIo (rec_operation: string) path io_error
  | RecPanic

definition rec_io :: "string \<Rightarrow> path \<Rightarrow> (io_error, 'a) io \<Rightarrow> (RecoveryError, 'a) io" where
  "rec_io op p m = map_errE (RecIo op p) m"

definition entry_record :: "path \<Rightarrow> RecoveryAction \<Rightarrow> string \<Rightarrow> RecoveryRecord" where
  "entry_record c a d = \<lparr>candidate = c, action = a, detail = d\<rparr>"

subsection \<open>Names\<close>

definition two_digits :: "string \<Rightarrow> nat" where
  "two_digits s = (case parse_digits s of None \<Rightarrow> 0 | Some n \<Rightarrow> n)"

definition valid_time_name :: "string \<Rightarrow> bool" where
  "valid_time_name v \<longleftrightarrow>
     length v = 6 \<and> list_all is_digit v
     \<and> two_digits (take 2 v) \<le> 23 \<and> two_digits (take 2 (drop 2 v)) \<le> 59 \<and> two_digits (drop 4 v) \<le> 59"

definition valid_date_name :: "TimeApi \<Rightarrow> string \<Rightarrow> bool" where
  "valid_date_name api v \<longleftrightarrow>
     length v = 8 \<and> list_all is_digit v
     \<and> calendar_ok api (two_digits (take 4 v)) (two_digits (take 2 (drop 4 v))) (two_digits (drop 6 v))"

definition path_file_name :: "string \<Rightarrow> string option" where
  "path_file_name s = (case rev (path_components s) of Normal n # _ \<Rightarrow> Some n | _ \<Rightarrow> None)"

definition is_direct_name :: "string \<Rightarrow> bool" where
  "is_direct_name n \<longleftrightarrow> n \<noteq> [] \<and> path_file_name n = Some n \<and> CHR ''/'' \<notin> set n"

definition path_extension :: "string \<Rightarrow> string option" where
  "path_extension n =
     (case rsplit_once (CHR ''.'') n of
        None \<Rightarrow> None
      | Some (a, b) \<Rightarrow> if a = [] then None else Some b)"

subsection \<open>Consistency of the metadata\<close>

definition session_row_consistent :: "SegmentMetadata \<Rightarrow> string \<times> SessionMetadata \<Rightarrow> bool" where
  "session_row_consistent m row \<longleftrightarrow>
     (case row of (identity, s) \<Rightarrow>
        identity = sm_session s
        \<and> (case derive_component identity of
             Inl _ \<Rightarrow> False
           | Inr n \<Rightarrow> session_filename n = sm_filename s)
        \<and> (0 < sm_durable_offset s) = (0 < sm_last_frame_id s)
        \<and> sm_last_frame_id s \<le> last_durable_frame_id m)"

definition metadata_is_consistent :: "TimeApi \<Rightarrow> SegmentMetadata \<Rightarrow> string \<Rightarrow> bool" where
  "metadata_is_consistent api m stem \<longleftrightarrow>
     \<not> (schema_version m \<noteq> SCHEMA_VERSION
        \<or> \<not> valid_time_name stem
        \<or> incomplete_name m \<noteq> stem @ ''.incomplete''
        \<or> \<not> is_direct_name (incomplete_name m)
        \<or> \<not> is_direct_name (finalized_dir m)
        \<or> finalized_dir m \<noteq> finalized_name stem (elapsed_nanos m)
        \<or> \<not> offset_ok api (local_offset_seconds m)
        \<or> \<not> instant_ok api (start_wall_unix_nanos m)
        \<or> has_durable_frames m \<noteq> (durable_frame_count m > 0)
        \<or> durable_frame_count m \<noteq> last_durable_frame_id m
        \<or> (lifecycle m = Creating
            \<and> (durable_frame_count m \<noteq> 0 \<or> activity_durable_offset m \<noteq> 0 \<or> sessions m \<noteq> [])))
     \<and> list_all (session_row_consistent m) (sessions m)
     \<and> distinct (map (\<lambda>(_, s). sm_filename s) (sessions m))"

definition metadata_empty :: "SegmentMetadata \<Rightarrow> bool" where
  "metadata_empty m \<longleftrightarrow>
     durable_frame_count m = 0 \<and> last_durable_frame_id m = 0 \<and> \<not> has_durable_frames m
     \<and> activity_durable_offset m = 0 \<and> list_all (\<lambda>(_, s). sm_durable_offset s = 0) (sessions m)"

subsection \<open>Validating the files\<close>

datatype ValidationKind = Exact | Repair | Contradictory

record FileRepair =
  fr_path :: path
  fr_offset :: nat

record Validation =
  v_kind :: ValidationKind
  v_detail :: string
  v_repairs :: "FileRepair list"
  v_updated :: "SegmentMetadata option"

definition contradiction :: "string \<Rightarrow> Validation" where
  "contradiction d = \<lparr>v_kind = Contradictory, v_detail = d, v_repairs = [], v_updated = None\<rparr>"

text \<open>
  The complete lines at the front of the recorded bytes: their length, their frame
  identifiers, and whether the bytes end inside a line.
\<close>

fun parse_lines :: "(bytes \<Rightarrow> nat option) \<Rightarrow> nat \<Rightarrow> nat list \<Rightarrow> bytes list \<Rightarrow> nat \<times> nat list \<times> bool" where
  "parse_lines fid off ids [] = (off, ids, False)"
| "parse_lines fid off ids (l # ls) =
     (if \<not> ends_with [LF] l then (off, ids, True)
      else case fid (butlast l) of
        None \<Rightarrow> (off, ids, False)
      | Some i \<Rightarrow>
          if ids \<noteq> [] \<and> last ids \<ge> i then (off, ids, False)
          else parse_lines fid (off + length l) (ids @ [i]) ls)"

definition parse_recorded_prefix :: "(bytes \<Rightarrow> nat option) \<Rightarrow> bytes \<Rightarrow> nat \<times> nat list \<times> bool" where
  "parse_recorded_prefix fid b = parse_lines fid 0 [] (split_inclusive LF b)"

definition last_or_zero :: "nat list \<Rightarrow> nat" where
  "last_or_zero ids = (if ids = [] then 0 else last ids)"

text \<open>One session's file: a contradiction, or its repairs, its new row and its identifiers.\<close>

definition check_session ::
  "(bytes \<Rightarrow> nat option) \<Rightarrow> path \<Rightarrow> SessionMetadata \<Rightarrow> bytes
   \<Rightarrow> string + FileRepair list \<times> SessionMetadata \<times> nat list" where
  "check_session fid p s b =
     (let recorded = sm_durable_offset s in
      if length b < recorded then Inl ''JSONL is shorter than its durable offset''
      else
        case parse_recorded_prefix fid (take recorded b) of (valid, ids, brk) \<Rightarrow>
          if \<not> brk \<and> valid \<noteq> recorded then Inl ''earlier JSONL corruption''
          else if \<not> brk \<and> last_or_zero ids \<noteq> sm_last_frame_id s
          then Inl ''session frame IDs disagree with metadata''
          else if length b > recorded \<and> LF \<in> set (drop recorded b)
          then Inl ''complete or multiline bytes exist beyond the durable offset''
          else
            Inr ((if brk then [\<lparr>fr_path = p, fr_offset = valid\<rparr>] else [])
                   @ (if length b > recorded then [\<lparr>fr_path = p, fr_offset = recorded\<rparr>] else []),
                 (if brk then s\<lparr>sm_durable_offset := valid, sm_last_frame_id := last_or_zero ids\<rparr> else s),
                 ids))"

text \<open>The position after the last line feed of the activity file's recorded bytes.\<close>

definition activity_offset :: "bytes \<Rightarrow> nat" where
  "activity_offset prefix =
     (if prefix = [] \<or> ends_with [LF] prefix then length prefix
      else case rsplit_once LF prefix of None \<Rightarrow> 0 | Some (a, _) \<Rightarrow> length a + 1)"

definition check_activity ::
  "path \<Rightarrow> SegmentMetadata \<Rightarrow> bytes option \<Rightarrow> string + FileRepair list \<times> nat" where
  "check_activity p m found =
     (let recorded = activity_durable_offset m in
      case found of
        None \<Rightarrow> if recorded \<noteq> 0 then Inl ''activity JSONL is missing'' else Inr ([], recorded)
      | Some b \<Rightarrow>
          if length b < recorded then Inl ''activity JSONL is shorter than its durable offset''
          else
            let repaired = activity_offset (take recorded b) in
            if repaired \<noteq> recorded \<or> length b > recorded
            then Inr ([\<lparr>fr_path = p, fr_offset = repaired\<rparr>], repaired)
            else Inr ([], recorded))"

text \<open>The verdict once every file was read.\<close>

definition conclude ::
  "SegmentMetadata \<Rightarrow> (string \<times> SessionMetadata) list \<Rightarrow> nat \<Rightarrow> FileRepair list \<Rightarrow> nat list \<Rightarrow> Validation" where
  "conclude m rows act repairs ids =
     (let sorted = sort ids; n = length sorted; top = last_or_zero sorted in
      if sorted \<noteq> [1..<Suc n] then contradiction ''global frame IDs are duplicated or nonconsecutive''
      else if repairs = [] \<and> (durable_frame_count m \<noteq> n \<or> last_durable_frame_id m \<noteq> top)
      then contradiction ''global frame IDs disagree with metadata''
      else
        let updated = m\<lparr>sessions := rows, activity_durable_offset := act\<rparr> in
        if repairs = [] then \<lparr>v_kind = Exact, v_detail = [], v_repairs = [], v_updated = Some updated\<rparr>
        else \<lparr>v_kind = Repair, v_detail = [], v_repairs = repairs,
              v_updated = Some (updated\<lparr>durable_frame_count := n, last_durable_frame_id := top,
                has_durable_frames := (0 < n)\<rparr>)\<rparr>)"

definition known_entry :: "SegmentMetadata \<Rightarrow> string \<Rightarrow> string \<times> node \<Rightarrow> string option" where
  "known_entry m stem e =
     (case e of (name, kind) \<Rightarrow>
        if \<not> valid_utf8 name then Some ''non-UTF-8 filename in segment''
        else if (case kind of NFile _ \<Rightarrow> False | _ \<Rightarrow> True)
          \<or> (name \<notin> set (map (\<lambda>(_, s). sm_filename s) (sessions m)) \<and> \<not> valid_activity_filename name stem)
        then Some ''unknown or non-regular file in segment''
        else None)"

fun check_entries :: "SegmentMetadata \<Rightarrow> string \<Rightarrow> (string \<times> node) list \<Rightarrow> string option" where
  "check_entries m stem [] = None"
| "check_entries m stem (e # es) =
     (case known_entry m stem e of Some d \<Rightarrow> Some d | None \<Rightarrow> check_entries m stem es)"

text \<open>\<open>fs::read\<close> where a missing file is no error.\<close>

definition read_optional :: "string \<Rightarrow> path \<Rightarrow> (RecoveryError, bytes option) io" where
  "read_optional op p =
     tryE (fs_read p) (\<lambda>r.
       case r of
         Inr b \<Rightarrow> returnE (Some b)
       | Inl NotFound \<Rightarrow> returnE None
       | Inl e \<Rightarrow> throwE (RecIo op p e))"

text \<open>The loop over the sessions: repairs and identifiers so far, rows already seen.\<close>

fun check_sessions ::
  "(bytes \<Rightarrow> nat option) \<Rightarrow> path \<Rightarrow> (string \<times> SessionMetadata) list
   \<Rightarrow> (RecoveryError, string + FileRepair list \<times> (string \<times> SessionMetadata) list \<times> nat list) io" where
  "check_sessions fid dir [] = returnE (Inr ([], [], []))"
| "check_sessions fid dir ((k, s) # rest) =
     (let p = path_join dir (sm_filename s) in
      bindE (read_optional ''read JSONL during recovery'' p) (\<lambda>found.
      case found of
        None \<Rightarrow> returnE (Inl ''referenced JSONL file is missing'')
      | Some b \<Rightarrow>
          (case check_session fid p s b of
             Inl d \<Rightarrow> returnE (Inl d)
           | Inr (reps, s', ids) \<Rightarrow>
               bindE (check_sessions fid dir rest) (\<lambda>r.
               case r of
                 Inl d \<Rightarrow> returnE (Inl d)
               | Inr (reps', rows, ids') \<Rightarrow> returnE (Inr (reps @ reps', (k, s') # rows, ids @ ids'))))))"

definition validate_files ::
  "(bytes \<Rightarrow> nat option) \<Rightarrow> path \<Rightarrow> SegmentMetadata \<Rightarrow> (RecoveryError, Validation) io" where
  "validate_files fid dir m =
     (case segment_stem (incomplete_name m) of
        None \<Rightarrow> throwE RecPanic
      | Some stem \<Rightarrow>
          bindE (rec_io ''scan incomplete segment'' dir (fs_read_dir dir)) (\<lambda>entries.
          case check_entries m stem entries of
            Some d \<Rightarrow> returnE (contradiction d)
          | None \<Rightarrow>
              bindE (check_sessions fid dir (sessions m)) (\<lambda>checked.
              case checked of
                Inl d \<Rightarrow> returnE (contradiction d)
              | Inr (reps, rows, ids) \<Rightarrow>
                  let ap = path_join dir (activity_filename stem) in
                  bindE (read_optional ''read activity JSONL during recovery'' ap) (\<lambda>found.
                  case check_activity ap m found of
                    Inl d \<Rightarrow> returnE (contradiction d)
                  | Inr (areps, act) \<Rightarrow> returnE (conclude m rows act (reps @ areps) ids)))))"

subsection \<open>Repairs\<close>

definition fs_open_write :: "path \<Rightarrow> (io_error, nat) io" where
  "fs_open_write p = syscall (\<lambda>w.
     case resolve 40 w p of
       Inl e \<Rightarrow> (Inl e, w)
     | Inr (NFile i) \<Rightarrow> (Inr i, w)
     | Inr _ \<Rightarrow> (Inl IsADirectory, w))"

definition apply_repair :: "path \<Rightarrow> bool \<Rightarrow> FileRepair \<Rightarrow> (RecoveryError, unit) io" where
  "apply_repair dir fail_sync r =
     (if path_parent (fr_path r) \<noteq> Some dir then throwE (EscapesDataRoot (fr_path r))
      else
        bindE (rec_io ''open JSONL repair'' (fr_path r) (fs_open_write (fr_path r))) (\<lambda>i.
        rec_io ''truncate and fsync JSONL repair'' (fr_path r)
          (bindE (fs_set_len i (fr_offset r)) (\<lambda>_.
           if fail_sync then throwE (IoOther ''injected repaired JSONL fsync failure'') else fs_fsync))))"

definition apply_repairs :: "path \<Rightarrow> FileRepair list \<Rightarrow> RecoveryOptions \<Rightarrow> (RecoveryError, unit) io" where
  "apply_repairs dir repairs options = forE (apply_repair dir (fail_repair_sync options)) repairs"

subsection \<open>Removing an empty segment\<close>

text \<open>\<open>ValidatedEmptyFile\<close>: the path, identity and length seen when the file was validated.\<close>

record ValidatedEmptyFile =
  ve_path :: path
  ve_inode :: nat
  ve_length :: nat

text \<open>What \<open>symlink_metadata\<close> tells of an entry: its node and length.\<close>

definition stat_len :: "path \<Rightarrow> (io_error, node \<times> nat) io" where
  "stat_len p =
     bindE (fs_lstat p) (\<lambda>n.
     getsE (\<lambda>w. (n, case n of NFile i \<Rightarrow> length (contents w i) | NDir _ \<Rightarrow> 4096 | NLink q \<Rightarrow> length (concat q))))"

fun validate_empty :: "path \<Rightarrow> (string \<times> node) list \<Rightarrow> (RecoveryError, ValidatedEmptyFile list option) io" where
  "validate_empty dir [] = returnE (Some [])"
| "validate_empty dir ((name, _) # es) =
     bindE (rec_io ''inspect empty segment entry'' (dir @ [name]) (stat_len (dir @ [name]))) (\<lambda>(n, len).
     case n of
       NFile i \<Rightarrow>
         if len \<noteq> 0 then returnE None
         else
           bindE (validate_empty dir es) (\<lambda>r.
           returnE (map_option (Cons \<lparr>ve_path = dir @ [name], ve_inode = i, ve_length = len\<rparr>) r))
     | _ \<Rightarrow> returnE None)"

definition validated_empty_files :: "path \<Rightarrow> (RecoveryError, ValidatedEmptyFile list option) io" where
  "validated_empty_files dir =
     bindE (rec_io ''scan empty segment'' dir (fs_read_dir dir)) (validate_empty dir)"

definition truncate_uncommitted_activity_writer :: "path \<Rightarrow> string \<Rightarrow> (RecoveryError, unit) io" where
  "truncate_uncommitted_activity_writer dir stem =
     (let p = path_join dir (activity_filename stem) in
      tryE (stat_len p) (\<lambda>r.
        case r of
          Inl NotFound \<Rightarrow> returnE ()
        | Inl e \<Rightarrow> throwE (RecIo ''inspect uncommitted activity JSONL'' p e)
        | Inr (NFile _, len) \<Rightarrow>
            if len = 0 then returnE ()
            else
              bindE (rec_io ''open uncommitted activity JSONL'' p (fs_open_write p)) (\<lambda>i.
              bindE (rec_io ''truncate uncommitted activity JSONL'' p
                (bindE (fs_set_len i 0) (\<lambda>_. fs_fsync))) (\<lambda>_.
              map_errE RecStorage (sync_directory dir)))
        | Inr _ \<Rightarrow> returnE ()))"

fun find_nonempty_activity :: "path \<Rightarrow> string \<Rightarrow> (string \<times> node) list \<Rightarrow> (RecoveryError, bool) io" where
  "find_nonempty_activity dir stem [] = returnE False"
| "find_nonempty_activity dir stem ((name, _) # es) =
     (if valid_utf8 name \<and> name \<noteq> activity_filename stem \<and> valid_activity_filename name stem
      then
        tryE (stat_len (dir @ [name])) (\<lambda>r.
          case r of
            Inr (NFile _, len) \<Rightarrow>
              if len > 0 then returnE True else find_nonempty_activity dir stem es
          | _ \<Rightarrow> find_nonempty_activity dir stem es)
      else find_nonempty_activity dir stem es)"

definition has_nonempty_id_activity_file :: "path \<Rightarrow> string \<Rightarrow> (RecoveryError, bool) io" where
  "has_nonempty_id_activity_file dir stem =
     bindE (rec_io ''scan activity members in empty segment'' dir (fs_read_dir dir))
       (find_nonempty_activity dir stem)"

text \<open>Re-inspection: every entry is one of the validated files, unchanged, and none is missing.\<close>

fun reinspect ::
  "path \<Rightarrow> ValidatedEmptyFile list \<Rightarrow> path list \<Rightarrow> (string \<times> node) list \<Rightarrow> (RecoveryError, path list option) io" where
  "reinspect dir validated seen [] = returnE (Some seen)"
| "reinspect dir validated seen ((name, _) # es) =
     (let p = dir @ [name] in
      case find (\<lambda>e. ve_path e = p) validated of
        None \<Rightarrow> returnE None
      | Some expected \<Rightarrow>
          bindE (rec_io ''reinspect zero-length JSONL'' p (stat_len p)) (\<lambda>(n, len).
          if n \<noteq> NFile (ve_inode expected) \<or> len \<noteq> ve_length expected \<or> p \<in> set seen
          then returnE None
          else reinspect dir validated (p # seen) es))"

definition remove_validated_empty_files ::
  "path \<Rightarrow> ValidatedEmptyFile list \<Rightarrow> (RecoveryError, bool) io" where
  "remove_validated_empty_files dir validated =
     bindE (rec_io ''scan zero-length files'' dir (fs_read_dir dir)) (\<lambda>entries.
     bindE (reinspect dir validated [] entries) (\<lambda>r.
     case r of
       None \<Rightarrow> returnE False
     | Some seen \<Rightarrow>
         if length seen \<noteq> length validated then returnE False
         else
           bindE (forE (\<lambda>e. rec_io ''remove zero-length JSONL'' (ve_path e) (fs_remove_file (ve_path e))) validated)
             (\<lambda>_. returnE True)))"

text \<open>\<open>Path::is_dir\<close>: links are followed, every error is \<open>false\<close>.\<close>

definition path_is_dir :: "path \<Rightarrow> ('e, bool) io" where
  "path_is_dir p =
     tryE (syscall (\<lambda>w. (resolve 40 w p, w)))
       (\<lambda>r. returnE (case r of Inr (NDir _) \<Rightarrow> True | _ \<Rightarrow> False))"

fun any_nonempty :: "path \<Rightarrow> (string \<times> node) list \<Rightarrow> ('e, bool) io" where
  "any_nonempty dir [] = returnE False"
| "any_nonempty dir ((name, _) # es) =
     tryE (stat_len (dir @ [name])) (\<lambda>r.
       case r of
         Inl _ \<Rightarrow> returnE True
       | Inr (_, len) \<Rightarrow> if len > 0 then returnE True else any_nonempty dir es)"

definition source_has_nonempty_jsonl :: "path \<Rightarrow> (RecoveryError, bool) io" where
  "source_has_nonempty_jsonl source =
     bindE (path_is_dir source) (\<lambda>d.
     if \<not> d then returnE False
     else bindE (rec_io ''scan metadata-less segment'' source (fs_read_dir source)) (any_nonempty source))"

subsection \<open>Quarantine\<close>

definition entry_exists :: "path \<Rightarrow> (RecoveryError, bool) io" where
  "entry_exists p =
     tryE (fs_lstat p) (\<lambda>r.
       case r of
         Inr _ \<Rightarrow> returnE True
       | Inl NotFound \<Rightarrow> returnE False
       | Inl e \<Rightarrow> throwE (RecIo ''inspect recovery collision target'' p e))"

definition failed_name :: "string \<Rightarrow> nat \<Rightarrow> string" where
  "failed_name stem k = stem @ (if k = 0 then [] else ''.'' @ dec_of_nat k) @ ''.failed''"

text \<open>
  The search for a free pair of names. Every number tried is taken by an entry of its own,
  so one try more than there are entries is enough fuel.
\<close>

fun find_failed :: "path \<Rightarrow> string \<Rightarrow> nat \<Rightarrow> nat \<Rightarrow> (RecoveryError, path \<times> path) io" where
  "find_failed dir stem 0 k = throwE RecPanic"
| "find_failed dir stem (Suc fuel) k =
     (let failed = path_join dir (failed_name stem k);
          failed_meta = path_join dir (failed_name stem k @ ''.meta'') in
      bindE (entry_exists failed) (\<lambda>taken.
      bindE (if taken then returnE True else entry_exists failed_meta) (\<lambda>taken.
      if taken then find_failed dir stem fuel (Suc k) else returnE (failed, failed_meta))))"

definition quarantine_stem :: "path \<Rightarrow> string" where
  "quarantine_stem source =
     (if source = [] then ''segment''
      else case strip_suffix ''.incomplete'' (last source) of None \<Rightarrow> ''segment'' | Some s \<Rightarrow> s)"

definition move_aside ::
  "path \<Rightarrow> path \<Rightarrow> path \<Rightarrow> path \<Rightarrow> path \<Rightarrow> bool \<Rightarrow> bool \<Rightarrow> (RecoveryError, unit) io" where
  "move_aside dir source meta failed failed_meta source_exists meta_exists =
     bindE (if source_exists then rec_io ''quarantine segment'' source (fs_rename source failed)
            else returnE ()) (\<lambda>_.
     bindE (if meta_exists then
              tryE (fs_rename meta failed_meta) (\<lambda>r.
                case r of
                  Inr _ \<Rightarrow> returnE ()
                | Inl e \<Rightarrow>
                    if source_exists
                    then tryE (fs_rename failed source) (\<lambda>_. throwE (RecIo ''quarantine metadata'' meta e))
                    else throwE (RecIo ''quarantine metadata'' meta e))
            else returnE ()) (\<lambda>_.
     map_errE RecStorage (sync_directory dir)))"

definition quarantine :: "path \<Rightarrow> path \<Rightarrow> path \<Rightarrow> string \<Rightarrow> (RecoveryError, RecoveryRecord) io" where
  "quarantine dir source meta why =
     bindE (getsE (\<lambda>w. Suc (length (w_names w)))) (\<lambda>fuel.
     bindE (find_failed dir (quarantine_stem source) fuel 0) (\<lambda>(failed, failed_meta).
     bindE (entry_exists source) (\<lambda>source_exists.
     bindE (entry_exists meta) (\<lambda>meta_exists.
     bindE (move_aside dir source meta failed failed_meta source_exists meta_exists) (\<lambda>_.
     returnE (entry_record failed Quarantine why))))))"

subsection \<open>One candidate\<close>

definition reject_special_target :: "path \<Rightarrow> (RecoveryError, unit) io" where
  "reject_special_target p =
     (let is_meta = p \<noteq> [] \<and> path_extension (last p) = Some ''meta'' in
      tryE (fs_lstat p) (\<lambda>r.
        case r of
          Inl NotFound \<Rightarrow> returnE ()
        | Inl e \<Rightarrow> throwE (RecIo ''inspect recovery target'' p e)
        | Inr (NLink _) \<Rightarrow> throwE (SpecialTarget p)
        | Inr (NFile _) \<Rightarrow> if is_meta then returnE () else throwE (SpecialTarget p)
        | Inr (NDir _) \<Rightarrow> if is_meta then throwE (SpecialTarget p) else returnE ()))"

text \<open>What recovery is called with.\<close>

record RecoveryApi =
  api_time :: TimeApi
  api_frame_id :: "bytes \<Rightarrow> nat option"
  api_parse :: "bytes \<Rightarrow> SegmentMetadata option"
  api_json :: "SegmentMetadata \<Rightarrow> string + bytes"
  api_json_ct :: "CaptureTime \<Rightarrow> string + bytes"

definition capture_time_of :: "SegmentMetadata \<Rightarrow> CaptureTime" where
  "capture_time_of m = \<lparr>ct_tz = md_tz m, utc_offset_seconds = local_offset_seconds m\<rparr>"

text \<open>Metadata without its recording directory.\<close>

definition recover_orphan ::
  "RecoveryApi \<Rightarrow> path \<Rightarrow> path \<Rightarrow> path \<Rightarrow> SegmentMetadata \<Rightarrow> (RecoveryError, RecoveryRecord) io" where
  "recover_orphan api dir source meta m =
     (if lifecycle m = Creating \<or> metadata_empty m then
        bindE (rec_io ''remove orphan creating metadata'' meta (fs_remove_file meta)) (\<lambda>_.
        bindE (map_errE RecStorage (sync_directory dir)) (\<lambda>_.
        returnE (entry_record source Remove ''removed orphan creating metadata'')))
      else
        let finalized = path_join dir (finalized_dir m) in
        bindE (tryE (fs_lstat finalized) (\<lambda>r.
            case r of
              Inr (NDir _) \<Rightarrow> returnE True
            | Inr _ \<Rightarrow> returnE False
            | Inl NotFound \<Rightarrow> returnE False
            | Inl e \<Rightarrow> throwE (RecIo ''inspect orphan finalized target'' finalized e))) (\<lambda>is_directory.
        bindE (if is_directory
               then bindE (validate_files (api_frame_id api) finalized m) (\<lambda>v. returnE (v_kind v = Exact))
               else returnE False) (\<lambda>matches.
        if matches then
          bindE (map_errE RecStorage (write_capture_time (api_json_ct api) dir (finalized_dir m) (capture_time_of m))) (\<lambda>_.
          bindE (rec_io ''remove orphan finalized metadata'' meta (fs_remove_file meta)) (\<lambda>_.
          bindE (map_errE RecStorage (sync_directory dir)) (\<lambda>_.
          returnE (entry_record finalized Remove ''removed metadata left after finalized rename''))))
        else returnE (entry_record source Retain
          ''metadata has no matching source or validated finalized target''))))"

text \<open>Publishing a validated or repaired segment.\<close>

definition recover_publish ::
  "RecoveryApi \<Rightarrow> RecoveryOptions \<Rightarrow> path \<Rightarrow> path \<Rightarrow> path \<Rightarrow> path \<Rightarrow> bytes \<Rightarrow> bool \<Rightarrow> SegmentMetadata
   \<Rightarrow> (RecoveryError, RecoveryRecord) io" where
  "recover_publish api options dir source meta finalized original repaired m =
     (let sealed = m\<lparr>lifecycle := Finalizing\<rparr> in
      bindE (map_errE RecStorage (atomic_write_metadata (api_json api) meta dir sealed)) (\<lambda>_.
      tryE (fs_rename source finalized) (\<lambda>renamed.
      case renamed of
        Inl e \<Rightarrow>
          bindE (map_errE RecStorage (atomic_write_bytes meta dir original)) (\<lambda>_.
          returnE (entry_record source Failed ''source rename failed and was retained''))
      | Inr _ \<Rightarrow>
          if fail_rename_parent_sync options
          then throwE (RecIo ''fsync recovered rename parent'' dir
            (IoOther ''injected recovered rename parent fsync failure''))
          else
            bindE (map_errE RecStorage (sync_directory dir)) (\<lambda>_.
            bindE (map_errE RecStorage (write_capture_time (api_json_ct api) dir (finalized_dir sealed) (capture_time_of sealed))) (\<lambda>_.
            bindE (rec_io ''remove recovered metadata'' meta (fs_remove_file meta)) (\<lambda>_.
            bindE (map_errE RecStorage (sync_directory dir)) (\<lambda>_.
            returnE (if repaired
              then entry_record finalized RepairThenFinalize ''repaired durable file tails and finalized''
              else entry_record finalized RecFinalized ''validated durable bytes and finalized'')))))))) "

definition recover_content ::
  "RecoveryApi \<Rightarrow> RecoveryOptions \<Rightarrow> path \<Rightarrow> path \<Rightarrow> path \<Rightarrow> path \<Rightarrow> bytes \<Rightarrow> SegmentMetadata
   \<Rightarrow> (RecoveryError, RecoveryRecord) io" where
  "recover_content api options dir source meta finalized original m =
     bindE (validate_files (api_frame_id api) source m) (\<lambda>v.
     if v_kind v = Contradictory then quarantine dir source meta (v_detail v)
     else if v_kind v = Repair then
       bindE (apply_repairs source (v_repairs v) options) (\<lambda>_.
       recover_publish api options dir source meta finalized original True
         (case v_updated v of None \<Rightarrow> m | Some u \<Rightarrow> u))
     else recover_publish api options dir source meta finalized original False m)"

text \<open>Metadata that confirms an empty segment; \<open>None\<close> when an activity file speaks against it.\<close>

definition recover_empty ::
  "RecoveryOptions \<Rightarrow> path \<Rightarrow> path \<Rightarrow> path \<Rightarrow> string \<Rightarrow> (RecoveryError, RecoveryRecord option) io" where
  "recover_empty options dir source meta stem =
     bindE (truncate_uncommitted_activity_writer source stem) (\<lambda>_.
     bindE (has_nonempty_id_activity_file source stem) (\<lambda>speaks.
     if speaks then returnE None
     else
       bindE (validated_empty_files source) (\<lambda>found.
       case found of
         None \<Rightarrow>
           bindE (quarantine dir source meta ''empty metadata contradicts JSONL bytes'') (\<lambda>r. returnE (Some r))
       | Some validated \<Rightarrow>
           bindE (case before_empty_removal options of
                    None \<Rightarrow> returnE ()
                  | Some hook \<Rightarrow> rec_io ''run confirmed-empty pre-removal hook'' source (hook source)) (\<lambda>_.
           bindE (remove_validated_empty_files source validated) (\<lambda>removed.
           if \<not> removed then
             returnE (Some (entry_record source Retain
               ''confirmed-empty segment changed before removal; retained without deleting unvalidated entries''))
           else
             bindE (rec_io ''remove confirmed-empty segment'' source (fs_remove_dir source)) (\<lambda>_.
             bindE (rec_io ''remove confirmed-empty metadata'' meta (fs_remove_file meta)) (\<lambda>_.
             bindE (map_errE RecStorage (sync_directory dir)) (\<lambda>_.
             returnE (Some (entry_record source Remove
               ''valid metadata positively confirmed an empty segment'')))))))))) "

definition recover_present ::
  "RecoveryApi \<Rightarrow> RecoveryOptions \<Rightarrow> path \<Rightarrow> string \<Rightarrow> nat \<Rightarrow> path \<Rightarrow> path \<Rightarrow> bytes \<Rightarrow> SegmentMetadata
   \<Rightarrow> (RecoveryError, RecoveryRecord) io" where
  "recover_present api options dir stem interval source meta original m0 =
     (case record_length m0 (elapsed_nanos m0) interval of
        None \<Rightarrow> throwE RecPanic
      | Some m \<Rightarrow>
          let finalized = path_join dir (finalized_dir m) in
          bindE (entry_exists finalized) (\<lambda>taken.
          if taken then returnE (entry_record source Failed
            ''finalized target collision; source and metadata retained'')
          else if fail_source_rename options then returnE (entry_record source Failed
            ''injected source rename failure; source and metadata retained'')
          else
            bindE (if metadata_empty m then recover_empty options dir source meta stem else returnE None) (\<lambda>r.
            case r of
              Some rec \<Rightarrow> returnE rec
            | None \<Rightarrow> recover_content api options dir source meta finalized original m)))"

definition recover_candidate ::
  "RecoveryApi \<Rightarrow> RecoveryOptions \<Rightarrow> path \<Rightarrow> string \<Rightarrow> nat \<Rightarrow> (RecoveryError, RecoveryRecord) io" where
  "recover_candidate api options dir stem interval =
     (let source = path_join dir (stem @ ''.incomplete'');
          meta = path_join dir (stem @ ''.incomplete.meta'') in
      bindE (reject_special_target source) (\<lambda>_.
      bindE (reject_special_target meta) (\<lambda>_.
      if exact_component stem = None \<or> \<not> valid_time_name stem
      then quarantine dir source meta ''candidate stem is not a well-formed HHMMSS''
      else
        bindE (read_optional ''read segment metadata'' meta) (\<lambda>found.
        bindE (path_is_dir source) (\<lambda>source_exists.
        case found of
          None \<Rightarrow>
            bindE (source_has_nonempty_jsonl source) (\<lambda>nonempty_files.
            returnE (entry_record source Retain
              (if nonempty_files then ''missing metadata with non-empty JSONL''
               else ''missing metadata cannot prove an empty segment'')))
        | Some original \<Rightarrow>
            (case api_parse api original of
               None \<Rightarrow> quarantine dir source meta ''metadata is torn or contradictory''
             | Some m \<Rightarrow>
                 if \<not> metadata_is_consistent (api_time api) m stem
                 then quarantine dir source meta ''metadata is torn or contradictory''
                 else if \<not> source_exists then recover_orphan api dir source meta m
                 else recover_present api options dir stem interval source meta original m))))))"

subsection \<open>Streams\<close>

primrec canonical_path :: "nat \<Rightarrow> world \<Rightarrow> path \<Rightarrow> io_error + path" where
  "canonical_path 0 w p = Inl LoopLink"
| "canonical_path (Suc n) w p =
     (case node_at w p of
        None \<Rightarrow> Inl NotFound
      | Some (NLink q) \<Rightarrow> canonical_path n w q
      | Some _ \<Rightarrow> Inr p)"

definition fs_canonicalize :: "path \<Rightarrow> (io_error, path) io" where
  "fs_canonicalize p = syscall (\<lambda>w. (canonical_path 40 w p, w))"

definition validate_stream :: "path \<Rightarrow> path \<Rightarrow> (RecoveryError, unit) io" where
  "validate_stream root stream =
     bindE (rec_io ''canonicalize data root'' root (fs_canonicalize root)) (\<lambda>croot.
     bindE (rec_io ''inspect stream directory'' stream (fs_lstat stream)) (\<lambda>n.
     case n of
       NDir _ \<Rightarrow>
         bindE (rec_io ''canonicalize stream directory'' stream (fs_canonicalize stream)) (\<lambda>cs.
         if \<not> under croot cs \<or> cs = croot then throwE (EscapesDataRoot cs) else returnE ())
     | _ \<Rightarrow> throwE (EscapesDataRoot stream)))"

definition entry_stem :: "string \<times> node \<Rightarrow> string list" where
  "entry_stem e =
     (case e of (name, _) \<Rightarrow>
        if \<not> valid_utf8 name then []
        else case strip_suffix ''.incomplete'' name of
          Some stem \<Rightarrow> [stem]
        | None \<Rightarrow> (case strip_suffix ''.incomplete.meta'' name of Some stem \<Rightarrow> [stem] | None \<Rightarrow> []))"

text \<open>A \<open>BTreeSet\<close> of strings: its elements in order.\<close>

definition bt_set :: "string list \<Rightarrow> string list" where
  "bt_set xs = remdups (sort xs)"

fun recover_stems ::
  "RecoveryApi \<Rightarrow> RecoveryOptions \<Rightarrow> path \<Rightarrow> nat \<Rightarrow> string list \<Rightarrow> (RecoveryError, RecoveryRecord list) io" where
  "recover_stems api options dir interval [] = returnE []"
| "recover_stems api options dir interval (s # ss) =
     bindE (recover_candidate api options dir s interval) (\<lambda>r.
     bindE (recover_stems api options dir interval ss) (\<lambda>rs. returnE (r # rs)))"

definition recover_stream_inner ::
  "RecoveryApi \<Rightarrow> RecoveryOptions \<Rightarrow> path \<Rightarrow> path \<Rightarrow> nat \<Rightarrow> (RecoveryError, RecoveryRecord list) io" where
  "recover_stream_inner api options root stream interval =
     bindE (validate_stream root stream) (\<lambda>_.
     bindE (rec_io ''scan stream directory'' stream (fs_read_dir stream)) (\<lambda>entries.
     recover_stems api options stream interval (bt_set (concat (map entry_stem entries)))))"

fun stream_names :: "path \<Rightarrow> (string \<times> node) list \<Rightarrow> (RecoveryError, path list) io" where
  "stream_names date_dir [] = returnE []"
| "stream_names date_dir ((name, kind) # es) =
     (if \<not> valid_utf8 name then stream_names date_dir es
      else case derive_component name of
        Inl _ \<Rightarrow> stream_names date_dir es
      | Inr n \<Rightarrow>
          (case kind of
             NFile _ \<Rightarrow> stream_names date_dir es
           | _ \<Rightarrow>
               (case join_checked n date_dir of
                  Inl _ \<Rightarrow> throwE (EscapesDataRoot date_dir)
                | Inr p \<Rightarrow> bindE (stream_names date_dir es) (\<lambda>ps. returnE (p # ps)))))"

fun date_streams :: "TimeApi \<Rightarrow> path \<Rightarrow> (string \<times> node) list \<Rightarrow> (RecoveryError, path list) io" where
  "date_streams api root [] = returnE []"
| "date_streams api root ((name, kind) # es) =
     (if \<not> valid_utf8 name \<or> \<not> valid_date_name api name then date_streams api root es
      else case kind of
        NDir _ \<Rightarrow>
          (let d = root @ [name] in
           bindE (rec_io ''scan capture streams'' d (fs_read_dir d)) (\<lambda>inner.
           bindE (stream_names d inner) (\<lambda>ps.
           bindE (date_streams api root es) (\<lambda>qs. returnE (ps @ qs)))))
      | _ \<Rightarrow> throwE (SpecialTarget (root @ [name])))"

fun recover_all ::
  "RecoveryApi \<Rightarrow> path \<Rightarrow> nat \<Rightarrow> path list \<Rightarrow> (RecoveryError, RecoveryRecord list) io" where
  "recover_all api root interval [] = returnE []"
| "recover_all api root interval (d # ds) =
     bindE (recover_stream_inner api default_options root d interval) (\<lambda>rs.
     bindE (recover_all api root interval ds) (\<lambda>rs'. returnE (rs @ rs')))"

definition recover_capture_streams ::
  "RecoveryApi \<Rightarrow> path \<Rightarrow> nat \<Rightarrow> (RecoveryError, RecoveryRecord list) io" where
  "recover_capture_streams api root interval =
     (let captures = path_join root ''captures'' in
      tryE (fs_lstat captures) (\<lambda>r.
        case r of
          Inl NotFound \<Rightarrow> returnE []
        | Inl e \<Rightarrow> throwE (RecIo ''inspect captures directory'' captures e)
        | Inr (NDir _) \<Rightarrow>
            bindE (rec_io ''scan capture dates'' captures (fs_read_dir captures)) (\<lambda>entries.
            bindE (date_streams (api_time api) captures entries) (\<lambda>dirs.
            recover_all api root interval (sort dirs)))
        | Inr _ \<Rightarrow> throwE (SpecialTarget captures)))"

subsection \<open>What the recorded lines are\<close>

lemma split_inclusive_Cons_LF: "split_inclusive c (c # xs) = [c] # split_inclusive c xs"
  by simp

lemma split_inclusive_not_Nil: "xs \<noteq> [] \<Longrightarrow> split_inclusive c xs \<noteq> []"
  by (cases xs) (auto split: list.splits)

lemma split_inclusive_lines:
  "split_inclusive c xs = l # ls \<Longrightarrow>
     xs = l @ concat ls \<and> split_inclusive c (concat ls) = ls
     \<and> (if ends_with [c] l then split_inclusive c l = [l] \<and> l \<noteq> [] else ls = [] \<and> c \<notin> set l)"
proof (induction xs arbitrary: l ls)
  case (Cons x xs)
  show ?case
  proof (cases "x = c")
    case True
    with Cons.prems have "l = [c]" "ls = split_inclusive c xs" by auto
    with True show ?thesis by (simp add: ends_with_iff)
  next
    case False
    show ?thesis
    proof (cases "split_inclusive c xs")
      case Nil
      then have "xs = []" using split_inclusive_not_Nil [of xs c] by blast
      with Cons.prems False Nil show ?thesis by (auto simp: ends_with_iff)
    next
      case (Cons p ps)
      with Cons.prems False have l: "l = x # p" "ls = ps" by auto
      note IH = Cons.IH [OF Cons]
      have "ends_with [c] (x # p) \<longleftrightarrow> ends_with [c] p"
        using False by (auto simp: ends_with_iff Cons_eq_append_conv)
      with IH False l show ?thesis by (auto split: if_splits)
    qed
  qed
qed simp

lemma split_inclusive_append:
  "ends_with [c] l \<Longrightarrow> split_inclusive c l = [l] \<Longrightarrow> split_inclusive c (l @ r) = l # split_inclusive c r"
proof (induction l)
  case (Cons x l)
  show ?case
  proof (cases "x = c")
    case True
    with Cons.prems(2) have "split_inclusive c l = [] \<and> l = []"
      using split_inclusive_not_Nil [of l c] by auto
    with True show ?thesis by simp
  next
    case False
    with Cons.prems have "l \<noteq> []" by (auto simp: ends_with_iff)
    with Cons.prems(2) False have "split_inclusive c l = [l]"
      using split_inclusive_not_Nil [of l c] by (auto split: list.splits)
    moreover have "ends_with [c] l"
      using Cons.prems(1) False \<open>l \<noteq> []\<close> by (auto simp: ends_with_iff Cons_eq_append_conv)
    ultimately show ?thesis using Cons.IH False by simp
  qed
qed (simp add: ends_with_iff)

text \<open>Whole lines, each with its frame identifier, in increasing order.\<close>

definition frame_lines :: "(bytes \<Rightarrow> nat option) \<Rightarrow> bytes \<Rightarrow> nat list \<Rightarrow> bool" where
  "frame_lines fid b ids \<longleftrightarrow>
     list_all (ends_with [LF]) (split_inclusive LF b)
     \<and> map (\<lambda>l. fid (butlast l)) (split_inclusive LF b) = map Some ids
     \<and> sorted_wrt (<) ids"

lemma strict_last: "sorted_wrt (<) ids \<Longrightarrow> x \<in> set ids \<Longrightarrow> x \<le> last (ids :: nat list)"
proof (induction ids)
  case (Cons a ids)
  then show ?case by (cases "ids = []") (auto intro: less_imp_le last_in_set)
qed simp

lemma parse_lines_sound:
  assumes "parse_lines fid off ids (split_inclusive LF b) = (off', ids', brk)"
    and "sorted_wrt (<) ids"
  shows "\<exists>n new. off' = off + n \<and> ids' = ids @ new \<and> n \<le> length b \<and> sorted_wrt (<) ids'
    \<and> list_all (ends_with [LF]) (split_inclusive LF (take n b))
    \<and> map (\<lambda>l. fid (butlast l)) (split_inclusive LF (take n b)) = map Some new
    \<and> (brk \<longrightarrow> n < length b \<and> LF \<notin> set (drop n b))"
  using assms
proof (induction "length b" arbitrary: b off ids rule: less_induct)
  case less
  show ?case
  proof (cases "split_inclusive LF b")
    case Nil
    with less.prems show ?thesis by (intro exI [of _ 0] exI [of _ "[]"]) auto
  next
    case (Cons l ls)
    note sp = split_inclusive_lines [OF Cons]
    have stop: ?thesis if "off' = off" "ids' = ids" "brk \<longrightarrow> \<not> ends_with [LF] l"
      using that sp less.prems(2) split_inclusive_not_Nil [of b LF] Cons
      by (intro exI [of _ 0] exI [of _ "[]"]) (auto split: if_splits)
    show ?thesis
    proof (cases "ends_with [LF] l \<and> (\<exists>i. fid (butlast l) = Some i \<and> \<not> (ids \<noteq> [] \<and> last ids \<ge> i))")
      case False
      with less.prems(1) Cons stop show ?thesis by (auto split: if_splits option.splits)
    next
      case True
      then obtain i where l: "ends_with [LF] l" and i: "fid (butlast l) = Some i" "ids = [] \<or> last ids < i"
        by (auto simp: not_le)
      have b: "b = l @ concat ls" "split_inclusive LF (concat ls) = ls" "split_inclusive LF l = [l]" "l \<noteq> []"
        using sp l by auto
      have srt: "sorted_wrt (<) (ids @ [i])"
      proof (cases "ids = []")
        case False
        have "x \<le> last ids" if "x \<in> set ids" for x
          using strict_last [OF less.prems(2) that] .
        with i(2) False less.prems(2) show ?thesis by (fastforce simp: sorted_wrt_append)
      qed simp
      have "parse_lines fid (off + length l) (ids @ [i]) (split_inclusive LF (concat ls)) = (off', ids', brk)"
        using less.prems(1) Cons b(2) i l by (auto simp: not_le)
      moreover have "length (concat ls) < length b" using b by simp
      ultimately obtain n new where n: "off' = off + length l + n" "ids' = (ids @ [i]) @ new" "n \<le> length (concat ls)"
        "sorted_wrt (<) ids'" "list_all (ends_with [LF]) (split_inclusive LF (take n (concat ls)))"
        "map (\<lambda>l. fid (butlast l)) (split_inclusive LF (take n (concat ls))) = map Some new"
        "brk \<longrightarrow> n < length (concat ls) \<and> LF \<notin> set (drop n (concat ls))"
        using less.hyps [OF _ _ srt] by blast
      have "take (length l + n) b = l @ take n (concat ls)" "drop (length l + n) b = drop n (concat ls)"
        using b(1) by simp_all
      with n l i b show ?thesis
        by (intro exI [of _ "length l + n"] exI [of _ "i # new"]) (auto simp: split_inclusive_append [OF l b(3)])
    qed
  qed
qed

text \<open>
  What recovery keeps of a recorded file: the recognised part of its bytes consists of
  whole lines, each with a frame identifier, in strictly increasing order; the file counts as
  torn only if something follows that part and it contains no line end.
\<close>

theorem recorded_prefix_is_whole_lines:
  assumes "parse_recorded_prefix fid b = (off, ids, brk)"
  shows "off \<le> length b \<and> frame_lines fid (take off b) ids
    \<and> (brk \<longrightarrow> off < length b \<and> LF \<notin> set (drop off b))"
  using parse_lines_sound [of fid 0 "[]" b off ids brk] assms
  by (auto simp: parse_recorded_prefix_def frame_lines_def)

text \<open>A frame line of the witnesses: its identifier is its length.\<close>

theorem recorded_prefix_is_whole_lines_witness:
  "frame_lines (\<lambda>l. Some (length l)) (take 3 [CHR ''a'', CHR ''b'', LF, CHR ''c'']) [2]
    \<and> LF \<notin> set (drop 3 [CHR ''a'', CHR ''b'', LF, CHR ''c''])"
proof -
  have "parse_recorded_prefix (\<lambda>l. Some (length l)) [CHR ''a'', CHR ''b'', LF, CHR ''c''] = (3, [2], True)"
    by code_simp
  from recorded_prefix_is_whole_lines [OF this] show ?thesis by blast
qed

subsection \<open>What the repairs make of a file\<close>

definition repaired_bytes :: "FileRepair list \<Rightarrow> bytes \<Rightarrow> bytes" where
  "repaired_bytes reps b = fold (\<lambda>r. resize (fr_offset r)) reps b"

lemma resize_take: "n \<le> length b \<Longrightarrow> resize n b = take n b"
  by (simp add: resize_def)


definition line :: "string \<Rightarrow> bytes" where "line s = s @ [LF]"

definition sample_row :: SessionMetadata where
  "sample_row = \<lparr>sm_session = ''main'', sm_filename = ''tmux_main_screen.jsonl'', sm_last_frame_id = 4,
     sm_durable_offset = 5\<rparr>"




subsection \<open>Quarantine ends and loses nothing\<close>

lemma failed_name_inject: "failed_name stem j = failed_name stem k \<longleftrightarrow> j = k"
  by (auto simp: failed_name_def dec_of_nat_inject split: if_splits)

lemma failed_name_not_meta: "failed_name stem j \<noteq> failed_name stem k @ ''.meta''"
proof
  assume "failed_name stem j = failed_name stem k @ ''.meta''"
  then have "rev (failed_name stem j) = rev (failed_name stem k @ ''.meta'')" by simp
  then show False by (simp add: failed_name_def)
qed

lemma failed_join:
  assumes "CHR ''/'' \<notin> set stem"
  shows "path_join dir (failed_name stem k) = dir @ [failed_name stem k]"
    "path_join dir (failed_name stem k @ ''.meta'') = dir @ [failed_name stem k @ ''.meta'']"
proof -
  have n: "CHR ''/'' \<notin> set (failed_name stem k)" "failed_name stem k \<noteq> []"
    using assms dec_no_slash [of k] by (auto simp: failed_name_def)
  have d: "failed_name stem k \<noteq> ''.''"
  proof
    assume "failed_name stem k = ''.''"
    then have "length (failed_name stem k) = 1" by simp
    then show False by (simp add: failed_name_def)
  qed
  show "path_join dir (failed_name stem k) = dir @ [failed_name stem k]"
    by (rule path_join_plain) (use n d in auto)
  show "path_join dir (failed_name stem k @ ''.meta'') = dir @ [failed_name stem k @ ''.meta'']"
    by (rule path_join_plain) (use n in auto)
qed

definition blocked :: "path \<Rightarrow> string \<Rightarrow> world \<Rightarrow> nat \<Rightarrow> bool" where
  "blocked dir stem w k \<longleftrightarrow>
     node_at w (dir @ [failed_name stem k]) \<noteq> None
     \<or> node_at w (dir @ [failed_name stem k @ ''.meta'']) \<noteq> None"

text \<open>Each number tried in vain has an entry of its own.\<close>

lemma blocked_bound:
  assumes "\<forall>j < n. blocked dir stem w j"
  shows "n \<le> length (w_names w)"
proof -
  define f where "f j = (if node_at w (dir @ [failed_name stem j]) \<noteq> None then dir @ [failed_name stem j]
    else dir @ [failed_name stem j @ ''.meta''])" for j
  have "inj_on f {..<n}"
    using failed_name_not_meta [of stem] failed_name_not_meta [of stem, THEN not_sym]
    by (auto simp: inj_on_def f_def failed_name_inject split: if_splits)
  moreover have "f ` {..<n} \<subseteq> fst ` set (w_names w)"
  proof
    fix p assume "p \<in> f ` {..<n}"
    then have "node_at w p \<noteq> None" using assms by (auto simp: blocked_def f_def)
    then show "p \<in> fst ` set (w_names w)" by (auto simp: node_at_def dest: map_of_SomeD intro: rev_image_eqI)
  qed
  ultimately have "n \<le> card (fst ` set (w_names w))"
    using card_inj_on_le [of f "{..<n}" "fst ` set (w_names w)"] by simp
  also have "\<dots> \<le> card (set (w_names w))" by (rule card_image_le) simp
  also have "\<dots> \<le> length (w_names w)" by (rule card_length)
  finally show ?thesis .
qed

lemma blocked_tick [simp]: "blocked dir stem (tick w) = blocked dir stem w"
  by (simp add: blocked_def world_simps fun_eq_iff)

lemma wp_entry_exists:
  assumes "node_at w p \<noteq> None \<Longrightarrow> Q True (tick w)" "node_at w p = None \<Longrightarrow> Q False (tick w)"
    "R (RecIo ''inspect recovery collision target'' p EIO) (tick w)"
  shows "wpE (entry_exists p) Q R w"
  unfolding entry_exists_def wpE_try
  by (intro wp_intros) (use assms in \<open>auto simp: EIO_def\<close>)

definition quiet_to :: "world \<Rightarrow> world \<Rightarrow> bool" where
  "quiet_to w w' \<longleftrightarrow> node_at w' = node_at w \<and> view w' = view w \<and> world_ok w' = world_ok w \<and> w_names w' = w_names w"

lemma quiet_to_tick [simp]: "quiet_to w (tick w') = quiet_to w w'"
  by (simp add: quiet_to_def world_simps)

lemma quiet_to_refl [simp]: "quiet_to w w"
  by (simp add: quiet_to_def)

lemma find_failed_spec:
  assumes slash: "CHR ''/'' \<notin> set stem" and fuel: "fuel + k = Suc (length (w_names w0))"
    and tried: "\<forall>j < k. blocked dir stem w j" and q: "quiet_to w0 w"
  shows "wpE (find_failed dir stem fuel k)
    (\<lambda>(f, fm) w'. quiet_to w0 w' \<and> (\<exists>j. f = dir @ [failed_name stem j] \<and> fm = dir @ [failed_name stem j @ ''.meta'']
       \<and> \<not> blocked dir stem w0 j))
    (\<lambda>e w'. quiet_to w0 w' \<and> e \<noteq> RecPanic) w"
  using fuel tried q
proof (induction fuel arbitrary: k w)
  case 0
  have "k \<le> length (w_names w)" by (rule blocked_bound [OF 0(2)])
  with 0 show ?case by (simp add: quiet_to_def)
next
  case (Suc fuel)
  have same: "blocked dir stem w0 = blocked dir stem u" if "quiet_to w0 u" for u
    using that by (simp add: quiet_to_def blocked_def fun_eq_iff)
  have again: "wpE (find_failed dir stem fuel (Suc k))
      (\<lambda>(f, fm) w'. quiet_to w0 w' \<and> (\<exists>j. f = dir @ [failed_name stem j] \<and> fm = dir @ [failed_name stem j @ ''.meta'']
         \<and> \<not> blocked dir stem w0 j)) (\<lambda>e w'. quiet_to w0 w' \<and> e \<noteq> RecPanic) u"
    if "blocked dir stem w k" "quiet_to w0 u" "blocked dir stem u = blocked dir stem w" for u
    by (rule Suc.IH) (use Suc.prems that in \<open>auto simp: less_Suc_eq\<close>)
  show ?case
    unfolding find_failed.simps Let_def failed_join [OF slash] wpE_bind
    apply (rule wp_entry_exists)
    subgoal using again [of "tick w"] Suc.prems(3) by (simp add: blocked_def)
    subgoal
      apply simp
      apply (rule wp_entry_exists)
      subgoal using again [of "tick (tick w)"] Suc.prems(3) by (simp add: blocked_def world_simps)
      subgoal using Suc.prems(3) same [of w] by (auto simp: blocked_def world_simps)
      subgoal using Suc.prems(3) by (simp add: RecoveryError.distinct)
      done
    subgoal using Suc.prems(3) by simp
    done
qed

text \<open>A tree: what exists lies in an existing directory.\<close>

definition tree_ok :: "world \<Rightarrow> bool" where
  "tree_ok w \<longleftrightarrow> (\<forall>p n. node_at w p = Some n \<longrightarrow> p \<noteq> [] \<longrightarrow> is_dir w (butlast p))"

lemma tree_free:
  assumes "tree_ok w" "node_at w q = None"
  shows "node_at w (q @ r) = None"
proof (induction r rule: rev_induct)
  case (snoc x r)
  show ?case
  proof (rule ccontr)
    assume "node_at w (q @ r @ [x]) \<noteq> None"
    then have "is_dir w (butlast (q @ r @ [x]))" using assms(1) by (auto simp: tree_ok_def)
    with snoc show False by (simp add: is_dir_def butlast_append)
  qed
qed (use assms in simp)

text \<open>The files below \<open>source\<close> are at \<open>q\<close>, the metadata file is at \<open>q'\<close>, nothing else moved.\<close>

definition moved_aside :: "path \<Rightarrow> path \<Rightarrow> world \<Rightarrow> path \<Rightarrow> path \<Rightarrow> world \<Rightarrow> bool" where
  "moved_aside source meta w q q' w' \<longleftrightarrow>
     (\<forall>r. view w' (q @ r) = view w (source @ r)) \<and> view w' q' = view w meta
     \<and> (\<forall>x. \<not> under source x \<longrightarrow> \<not> under q x \<longrightarrow> x \<noteq> meta \<longrightarrow> x \<noteq> q' \<longrightarrow> view w' x = view w x)"

definition quarantined :: "path \<Rightarrow> string \<Rightarrow> path \<Rightarrow> world \<Rightarrow> world \<Rightarrow> bool" where
  "quarantined dir stem meta w w' \<longleftrightarrow>
     (\<exists>q q'. moved_aside (dir @ [stem @ ''.incomplete'']) meta w q q' w'
       \<and> (q = dir @ [stem @ ''.incomplete''] \<or> (\<exists>j. q = dir @ [failed_name stem j]))
       \<and> (q' = meta \<or> (\<exists>j. q' = dir @ [failed_name stem j @ ''.meta''])))"

lemma moved_aside_tick [simp]: "moved_aside s m w q q' (tick u) = moved_aside s m w q q' u"
  by (simp add: moved_aside_def world_simps)

lemma moved_aside_stay: "quiet_to w u \<Longrightarrow> moved_aside s m w s m u"
  by (simp add: moved_aside_def quiet_to_def)

lemma under_sibling: "under (d @ [x]) (d @ [y]) \<longleftrightarrow> x = y"
  by (auto simp: under_def)

text \<open>The pair of names the search found, in a world the search left as it was.\<close>

definition quarantine_site :: "world \<Rightarrow> path \<Rightarrow> string \<Rightarrow> string \<Rightarrow> nat \<Rightarrow> nat \<Rightarrow> bool" where
  "quarantine_site w dir stem m i k \<longleftrightarrow>
     world_ok w \<and> tree_ok w \<and> CHR ''/'' \<notin> set stem
     \<and> node_at w (dir @ [stem @ ''.incomplete'']) = Some (NDir i) \<and> node_at w (dir @ [m]) = Some (NFile k)"

lemma site_apart:
  assumes "quarantine_site w dir stem m i k" "\<not> blocked dir stem w j"
  shows "stem @ ''.incomplete'' \<noteq> m" "stem @ ''.incomplete'' \<noteq> failed_name stem j"
    "stem @ ''.incomplete'' \<noteq> failed_name stem j @ ''.meta''" "m \<noteq> failed_name stem j"
    "m \<noteq> failed_name stem j @ ''.meta''"
  using assms by (auto simp: blocked_def quarantine_site_def)

lemma site_free:
  assumes "quarantine_site w dir stem m i k" "\<not> blocked dir stem w j"
  shows "node_at w (dir @ failed_name stem j # r) = None"
    "node_at w (dir @ (failed_name stem j @ ''.meta'') # r) = None"
  using tree_free [of w "dir @ [failed_name stem j]" r] assms
    tree_free [of w "dir @ [failed_name stem j @ ''.meta'']" r]
  by (auto simp: blocked_def quarantine_site_def)

lemma site_home: "quarantine_site w dir stem m i k \<Longrightarrow> is_dir w dir"
  unfolding quarantine_site_def tree_ok_def by (metis butlast_snoc snoc_eq_iff_butlast)

lemma moved_source:
  fixes dir stem j
  defines "s \<equiv> dir @ [stem @ ''.incomplete'']" and "q \<equiv> dir @ [failed_name stem j]"
  assumes site: "quarantine_site w dir stem m i k" "\<not> blocked dir stem w j" and u: "quiet_to w u"
  shows "moved_aside s (dir @ [m]) w q (dir @ [m]) (move_tree s q u)"
    "node_at (move_tree s q u) (dir @ [m]) = Some (NFile k)"
    "node_at (move_tree s q u) (dir @ [failed_name stem j @ ''.meta'']) = None"
    "node_at (move_tree s q u) (s @ r) = None" "is_dir (move_tree s q u) dir"
    "node_at (move_tree s q u) q = Some (NDir i)"
proof -
  note apart = site_apart [OF site]
  have f: "node_at u (q @ r) = None" for r using u site_free [OF site] by (simp add: quiet_to_def q_def)
  have l: "length s = length q" "s \<noteq> q" using apart by (simp_all add: s_def q_def)
  note look = node_at_move_tree [OF f l] and vw = view_move_tree [OF f l]
  have same: "view u = view w" "node_at u = node_at w" using u by (simp_all add: quiet_to_def)
  have d: "\<not> under s dir" "\<not> under q dir" by (auto simp: under_append s_def q_def)
  have sib: "\<not> under s (dir @ [x]) \<longleftrightarrow> x \<noteq> stem @ ''.incomplete''"
    "\<not> under q (dir @ [x]) \<longleftrightarrow> x \<noteq> failed_name stem j" for x
    by (auto simp: under_sibling s_def q_def)
  show "moved_aside s (dir @ [m]) w q (dir @ [m]) (move_tree s q u)"
    using vw(1) vw(2) same sib apart by (simp add: moved_aside_def)
  have "failed_name stem j @ ''.meta'' \<noteq> failed_name stem j" by simp
  then show "node_at (move_tree s q u) (dir @ [m]) = Some (NFile k)"
    "node_at (move_tree s q u) (dir @ [failed_name stem j @ ''.meta'']) = None"
    using look [of "dir @ [m]"] look [of "dir @ [failed_name stem j @ ''.meta'']"] sib apart same site
      site_free(2) [OF site, of "[]"]
    by (auto simp: quarantine_site_def)
  have "under q q" by (simp add: under_def)
  then show "node_at (move_tree s q u) q = Some (NDir i)"
    using look [of q] same site by (simp add: quarantine_site_def s_def)
  have "\<not> under q (s @ r)" "under s (s @ r)" using l by (auto simp: under_append append_eq_append_conv)
  then show "node_at (move_tree s q u) (s @ r) = None" using look [of "s @ r"] by simp
  show "is_dir (move_tree s q u) dir" using look [of dir] d same site_home [OF site(1)] by (simp add: is_dir_def)
qed

lemma moved_meta:
  fixes dir stem j
  defines "s \<equiv> dir @ [stem @ ''.incomplete'']" and "q \<equiv> dir @ [failed_name stem j]"
  assumes site: "quarantine_site w dir stem m i k" "\<not> blocked dir stem w j"
    and a: "moved_aside s (dir @ [m]) w q (dir @ [m]) u" "node_at u (dir @ [m]) = Some (NFile k)"
  shows "moved_aside s (dir @ [m]) w q (dir @ [failed_name stem j @ ''.meta''])
     (put_node (dir @ [failed_name stem j @ ''.meta'']) (NFile k) (del_node (dir @ [m]) u))"
  using a site_apart [OF site] view_file [OF a(2)]
  by (auto simp: moved_aside_def world_upd world_simps s_def q_def)

lemma moved_back:
  fixes dir stem j
  defines "s \<equiv> dir @ [stem @ ''.incomplete'']" and "q \<equiv> dir @ [failed_name stem j]"
  assumes site: "quarantine_site w dir stem m i k" "\<not> blocked dir stem w j" and u: "quiet_to w u"
    and v: "node_at v = node_at (move_tree s q u)" "view v = view (move_tree s q u)"
  shows "moved_aside s (dir @ [m]) w s (dir @ [m]) (move_tree q s v)"
proof -
  note moved = moved_source [OF site u, folded s_def q_def]
  have f: "node_at v (s @ r) = None" for r using moved(4) v by simp
  have l: "length q = length s" "q \<noteq> s" using site_apart [OF site] by (simp_all add: s_def q_def)
  note vw = view_move_tree [OF f l]
  have a: "view v (q @ r) = view w (s @ r)" "view v (dir @ [m]) = view w (dir @ [m])"
    "\<not> under s x \<Longrightarrow> \<not> under q x \<Longrightarrow> view v x = view w x" for r x
    using moved(1) v by (auto simp: moved_aside_def)
  have sib: "\<not> under s (dir @ [m])" "\<not> under q (dir @ [m])"
    using site_apart [OF site] by (auto simp: under_sibling s_def q_def)
  have other: "view (move_tree q s v) x = view w x" if x: "\<not> under s x" for x
  proof (cases "under q x")
    case True
    then obtain r where r: "x = q @ r" by (auto simp: under_append)
    have "node_at (move_tree q s v) x = None"
      using node_at_move_tree [OF f l, of x] x True by simp
    moreover have "node_at w x = None" using site_free [OF site] r by (simp add: q_def)
    ultimately show ?thesis by (simp add: view_def)
  qed (use vw(2) a(3) x in simp)
  show ?thesis
    using vw(1) a sib other by (simp add: moved_aside_def)
qed

lemma wp_sync_view:
  assumes "\<And>e u. view u = view w \<Longrightarrow> R e u" "\<And>u. view u = view w \<Longrightarrow> Q () u"
  shows "wpE (sync_directory p) Q R w"
  unfolding sync_directory_def stage_io_def
  by (simp, intro wp_intros assms) (simp_all add: world_simps)

lemma moved_aside_view: "view u = view v \<Longrightarrow> moved_aside s m w q q' u = moved_aside s m w q q' v"
  by (simp add: moved_aside_def)

lemma wp_rename_meta:
  assumes "node_at w p = Some (NFile i)" "node_at w q = None" "p \<noteq> q"
    "\<And>e. R e (tick w)" "Q () (put_node q (NFile i) (del_node p (tick w)))"
  shows "wpE (fs_rename p q) Q R w"
  by (rule wp_rename_file) (use assms in auto)

lemma wp_rename_away:
  assumes "node_at w p = Some (NDir i)" "node_at w q = None" "p \<noteq> q"
    "\<And>e. R e (tick w)" "Q () (move_tree p q (tick w))"
  shows "wpE (fs_rename p q) Q R w"
  by (rule wp_rename_dir [where i = i]) (use assms in auto)

definition aside_ok :: "path \<Rightarrow> string \<Rightarrow> path \<Rightarrow> world \<Rightarrow> RecoveryRecord \<Rightarrow> world \<Rightarrow> bool" where
  "aside_ok dir stem meta w r w' \<longleftrightarrow> action r = Quarantine \<and>
     (\<exists>j. candidate r = dir @ [failed_name stem j] \<and> moved_aside (dir @ [stem @ ''.incomplete'']) meta w
        (dir @ [failed_name stem j]) (dir @ [failed_name stem j @ ''.meta'']) w')"

text \<open>Both renames, after the search.\<close>

lemma quarantine_moves:
  fixes dir stem j m
  defines "s \<equiv> dir @ [stem @ ''.incomplete'']" and "q \<equiv> dir @ [failed_name stem j]"
    and "mt \<equiv> dir @ [m]" and "q' \<equiv> dir @ [failed_name stem j @ ''.meta'']"
  assumes site: "quarantine_site w dir stem m i k" "\<not> blocked dir stem w j" and u: "quiet_to w u"
  shows "wpE (move_aside dir s mt q q' True True) (\<lambda>_. aside_ok dir stem mt w (entry_record q Quarantine why))
     (\<lambda>e w'. e \<noteq> RecPanic \<and> quarantined dir stem mt w w') u" (is "wpE _ ?Q ?R u")
proof -
  note f = s_def q_def mt_def q'_def
  note moved = moved_source [OF site, folded f]
  have here: "moved_aside s mt w p p' v \<Longrightarrow> p = s \<or> p = q \<Longrightarrow> p' = mt \<or> p' = q' \<Longrightarrow> quarantined dir stem mt w v" for p p' v
    unfolding quarantined_def f by blast
  let ?v = "move_tree s q (tick u)"
  have t: "quiet_to w (tick u)" using u by simp
  note v = moved [OF t]
  have nodes: "node_at u s = Some (NDir i)" "node_at u q = None" "s \<noteq> q" "mt \<noteq> q'"
    using u site site_free(1) [OF site, of "[]"] site_apart [OF site]
    by (simp_all add: quiet_to_def quarantine_site_def f)
  have stay: "moved_aside s mt w s mt (tick u)" by (rule moved_aside_stay [OF t])
  have "wpE (fs_rename s q)
     (\<lambda>_. wpE (fs_rename mt q') (\<lambda>_. wpE (sync_directory dir) (\<lambda>_. ?Q ()) (\<lambda>_. quarantined dir stem mt w))
        (\<lambda>e. wpE (fs_rename q s) (\<lambda>_. quarantined dir stem mt w) (\<lambda>_. quarantined dir stem mt w)))
     (\<lambda>_. quarantined dir stem mt w) u"
  proof (rule wp_rename_away [OF nodes(1,2,3)])
    show "quarantined dir stem mt w (tick u)" by (rule here [OF stay]) auto
    show "wpE (fs_rename mt q') (\<lambda>_. wpE (sync_directory dir) (\<lambda>_. ?Q ()) (\<lambda>_. quarantined dir stem mt w))
        (\<lambda>e. wpE (fs_rename q s) (\<lambda>_. quarantined dir stem mt w) (\<lambda>_. quarantined dir stem mt w)) ?v"
    proof (rule wp_rename_meta [OF v(2,3) nodes(4)])
      show "wpE (fs_rename q s) (\<lambda>_. quarantined dir stem mt w) (\<lambda>_. quarantined dir stem mt w) (tick ?v)"
      proof (rule wp_rename_away [where i = i])
        show "node_at (tick ?v) q = Some (NDir i)" "node_at (tick ?v) s = None"
          using v(6) v(4) [of "[]"] by (simp_all add: world_simps)
        show "q \<noteq> s" using nodes(3) by simp
        show "quarantined dir stem mt w (tick (tick ?v))" by (rule here [of q mt]) (use v(1) in auto)
        show "quarantined dir stem mt w (move_tree q s (tick (tick ?v)))"
          by (rule here [OF moved_back [OF site t, folded f]]) (auto simp: world_simps)
      qed
      have fin: "moved_aside s mt w q q' (put_node q' (NFile k) (del_node mt (tick ?v)))"
        by (rule moved_meta [OF site, folded f]) (use v in \<open>simp_all add: world_simps\<close>)
      show "wpE (sync_directory dir) (\<lambda>_. ?Q ()) (\<lambda>_. quarantined dir stem mt w) (put_node q' (NFile k) (del_node mt (tick ?v)))"
      proof (rule wp_sync_view)
        fix e x assume "view x = view (put_node q' (NFile k) (del_node mt (tick ?v)))"
        then have "moved_aside s mt w q q' x" using fin moved_aside_view by blast
        then show "quarantined dir stem mt w x" "aside_ok dir stem mt w (entry_record q Quarantine why) x"
          by (auto simp: aside_ok_def entry_record_def f quarantined_def)
      qed
    qed
  qed
  then show ?thesis by (simp add: move_aside_def rec_io_def)
qed

lemma entry_exists_quiet:
  assumes "\<And>u. quiet_to w u \<Longrightarrow> Q (node_at w p \<noteq> None) u"
    "\<And>e u. quiet_to w u \<Longrightarrow> e \<noteq> RecPanic \<Longrightarrow> R e u" "quiet_to w v"
  shows "wpE (entry_exists p) Q R v"
proof (rule wp_entry_exists)
  have t: "quiet_to w (tick v)" "node_at v p = node_at w p" using assms(3) by (simp, simp add: quiet_to_def)
  show "Q True (tick v)" if "node_at v p \<noteq> None" using assms(1) [OF t(1)] t(2) that by simp
  show "Q False (tick v)" if "node_at v p = None" using assms(1) [OF t(1)] t(2) that by simp
  show "R (RecIo ''inspect recovery collision target'' p EIO) (tick v)" using assms(2) [OF t(1)] by simp
qed


definition torn_world :: world where
  "torn_world = \<lparr>w_names = [([], NDir 0), ([''s''], NDir 1), ([''s'', ''x.incomplete''], NDir 2),
     ([''s'', ''x.incomplete'', ''a''], NFile 3), ([''s'', ''x.incomplete.meta''], NFile 4),
     ([''s'', ''x.failed''], NDir 5)],
     w_data = [(3, ''kept''), (4, ''meta'')], w_mode = [], w_next = 6, w_outcomes = [], w_pid = 1, w_counter = 0,
     w_fault = \<lparr>af_fault = None, af_target = None, af_prefix = None, af_remaining = 0\<rparr>\<rparr>"


end
