(* ===== verification/Lock.thy ===== *)
theory Lock
  imports Storage "HOL-Library.Word"
begin

text \<open>
  The instance lock (\<open>src/instance_lock.rs\<close>): one observer at a time per data root. The state is
  the file system together with the inodes an open description holds an exclusive \<open>flock\<close> on, and
  the process's run counter. The JSON codec of \<open>RunIdentity\<close> is a parameter.
\<close>

unbundle bit_operations_syntax

definition LOCK_FILENAME :: string where "LOCK_FILENAME = ''.solstone-tmux.lock''"

record RunIdentity =
  run_id :: string
  lock_inode :: nat

datatype ExistingLock = MissingOrInvalid | Unlocked RunIdentity | Locked RunIdentity

record InstanceLock =
  il_file :: nat
  il_path :: path
  il_identity :: RunIdentity

datatype InstanceLockError =
    AlreadyLocked path
  | InvalidLockTarget path
  | LockIo (lock_operation: string) path io_error

record locks =
  lk_held :: "nat list"
  lk_runs :: nat

subsection \<open>Run identities\<close>

function hex_of_nat :: "nat \<Rightarrow> string" where
  "hex_of_nat n = (if n < 16 then [hex_digit n] else hex_of_nat (n div 16) @ [hex_digit (n mod 16)])"
  by pat_completeness auto
termination by (relation "measure id") auto

declare hex_of_nat.simps [simp del]

text \<open>The format \<open>{:032x}\<close> of clock, process and counter, combined in 128 bits.\<close>

definition generate_run_id :: "nat \<Rightarrow> nat \<Rightarrow> nat \<Rightarrow> string" where
  "generate_run_id elapsed pid counter =
     pad_zero 32 (hex_of_nat (unat
       (((word_of_nat elapsed :: 128 word) XOR push_bit 64 (word_of_nat pid)) XOR word_of_nat counter)))"

definition valid_run_id :: "string \<Rightarrow> bool" where
  "valid_run_id v \<longleftrightarrow> length v = 32 \<and> list_all (\<lambda>c. is_digit c \<or> (CHR ''a'' \<le> c \<and> c \<le> CHR ''f'')) v"

lemma hex_of_nat_digits: "list_all is_lower_hex (hex_of_nat n)"
proof (induction n rule: hex_of_nat.induct)
  case (1 n)
  have "n mod 16 < 16" by simp
  with 1 show ?case
    by (subst hex_of_nat.simps) (simp add: hex_digit_lower)
qed

lemma hex_of_nat_length: "n < 16 ^ Suc k \<Longrightarrow> length (hex_of_nat n) \<le> Suc k"
proof (induction k arbitrary: n)
  case 0
  then show ?case by (subst hex_of_nat.simps) simp
next
  case (Suc k)
  show ?case
  proof (cases "n < 16")
    case False
    have "n div 16 < 16 ^ Suc k" using Suc.prems by (simp add: less_mult_imp_div_less mult.commute)
    from Suc.IH [OF this] False show ?thesis by (subst hex_of_nat.simps) simp
  qed (subst hex_of_nat.simps, simp)
qed

lemma lower_hex_range: "is_lower_hex c \<longleftrightarrow> is_digit c \<or> (CHR ''a'' \<le> c \<and> c \<le> CHR ''f'')"
  by (auto simp: byte_simps less_eq_char_def)

text \<open>What a process calls itself is always accepted as a run identity.\<close>

lemma valid_generate_run_id: "valid_run_id (generate_run_id elapsed pid counter)"
proof -
  let ?x = "((word_of_nat elapsed :: 128 word) XOR push_bit 64 (word_of_nat pid)) XOR word_of_nat counter"
  have "unat ?x < 2 ^ LENGTH(128)" by (rule unsigned_less)
  also have "(2::nat) ^ LENGTH(128) = 16 ^ Suc 31" by simp
  finally have "length (hex_of_nat (unat ?x)) \<le> Suc 31" by (rule hex_of_nat_length)
  then show ?thesis
    using hex_of_nat_digits [of "unat ?x"]
    by (auto simp: valid_run_id_def generate_run_id_def pad_zero_def lower_hex_range [symmetric] list_all_iff)
      (auto simp: byte_simps)
qed

subsection \<open>Taking the lock\<close>

type_synonym ('e, 'a) lockio = "(locks, 'e, 'a) sto"

definition lock_io :: "string \<Rightarrow> path \<Rightarrow> (io_error, 'a) io \<Rightarrow> (InstanceLockError, 'a) lockio" where
  "lock_io op p m = on_world (map_errE (LockIo op p) m)"

text \<open>\<open>O_RDWR | O_NOFOLLOW\<close>\<close>

definition fs_open_rdwr :: "path \<Rightarrow> (io_error, nat) io" where
  "fs_open_rdwr p = syscall (\<lambda>w.
     case node_at w p of
       Some (NFile i) \<Rightarrow> (Inr i, w)
     | Some (NDir _) \<Rightarrow> (Inl IsADirectory, w)
     | Some (NLink _) \<Rightarrow> (Inl LoopLink, w)
     | None \<Rightarrow> (Inl NotFound, w))"

text \<open>
  \<open>flock(LOCK_EX | LOCK_NB)\<close> on an open description of its own: \<open>False\<close> is \<open>EWOULDBLOCK\<close>.
\<close>

definition flock_exclusive :: "nat \<Rightarrow> (io_error, bool) lockio" where
  "flock_exclusive i s =
     (case s of (h, w) \<Rightarrow>
        (case outcome_now w of
           Fail _ \<Rightarrow> (Inl EIO, (h, tick w))
         | Succeed \<Rightarrow>
             if i \<in> set (lk_held h) then (Inr False, (h, tick w))
             else (Inr True, (h\<lparr>lk_held := i # lk_held h\<rparr>, tick w))))"

text \<open>Closing the description, or \<open>flock(LOCK_UN)\<close> on it.\<close>

definition release :: "nat \<Rightarrow> ('e, unit) lockio" where
  "release i = modifyE (\<lambda>(h, w). (h\<lparr>lk_held := remove1 i (lk_held h)\<rparr>, w))"

definition fetch_run :: "('e, nat) lockio" where
  "fetch_run s = (case s of (h, w) \<Rightarrow> (Inr (lk_runs h), (h\<lparr>lk_runs := Suc (lk_runs h) mod Suc u64_max\<rparr>, w)))"

definition write_identity ::
  "(RunIdentity \<Rightarrow> io_error + bytes) \<Rightarrow> nat \<Rightarrow> path \<Rightarrow> RunIdentity \<Rightarrow> (InstanceLockError, unit) lockio" where
  "write_identity json i p idt =
     (case json idt of
        Inl e \<Rightarrow> throwE (LockIo ''serialize instance identity'' p e)
      | Inr b \<Rightarrow>
          bindE (lock_io ''truncate instance identity'' p (fs_set_len i 0)) (\<lambda>_.
          lock_io ''write instance identity'' p
            (bindE fs_seek (\<lambda>_. bindE (fs_write i 0 b) (\<lambda>_. fs_fsync)))))"

text \<open>The check that a lock file, if there is one, is a regular file.\<close>

definition check_lock_target :: "path \<Rightarrow> (InstanceLockError, bool) lockio" where
  "check_lock_target p =
     tryE (on_world (fs_lstat p)) (\<lambda>r.
       case r of
         Inr (NFile _) \<Rightarrow> returnE True
       | Inr _ \<Rightarrow> throwE (InvalidLockTarget p)
       | Inl NotFound \<Rightarrow> returnE False
       | Inl e \<Rightarrow> throwE (LockIo ''inspect instance lock'' p e))"

text \<open>An error after \<open>flock\<close> drops the file, which closes its description.\<close>

definition claim_lock ::
  "(RunIdentity \<Rightarrow> io_error + bytes) \<Rightarrow> nat \<Rightarrow> nat \<Rightarrow> path \<Rightarrow> (InstanceLockError, InstanceLock) lockio" where
  "claim_lock json now i p =
     bindE (map_errE (LockIo ''acquire instance lock'' p) (flock_exclusive i)) (\<lambda>got.
     if \<not> got then throwE (AlreadyLocked p)
     else
       bindE (getsE (\<lambda>(h, w). w_pid w)) (\<lambda>pid.
       bindE fetch_run (\<lambda>n.
       let idt = \<lparr>run_id = generate_run_id now pid n, lock_inode = i\<rparr> in
       tryE (write_identity json i p idt) (\<lambda>r.
         case r of
           Inr _ \<Rightarrow> returnE \<lparr>il_file = i, il_path = p, il_identity = idt\<rparr>
         | Inl e \<Rightarrow> bindE (release i) (\<lambda>_. throwE e)))))"

definition open_lock ::
  "(RunIdentity \<Rightarrow> io_error + bytes) \<Rightarrow> nat \<Rightarrow> path \<Rightarrow> bool \<Rightarrow> (InstanceLockError, InstanceLock) lockio" where
  "open_lock json now data_root create =
     (let p = path_join data_root LOCK_FILENAME in
      bindE (check_lock_target p) (\<lambda>_.
      bindE (lock_io ''open instance lock'' p (if create then fs_open_create p else fs_open_rdwr p)) (\<lambda>i.
      bindE (if create then lock_io ''set instance lock permissions'' p (fs_chmod_fd i 384)
             else returnE ()) (\<lambda>_.
      bindE (lock_io ''inspect instance lock'' p fs_seek) (\<lambda>_.
      claim_lock json now i p)))))"

definition acquire ::
  "(RunIdentity \<Rightarrow> io_error + bytes) \<Rightarrow> nat \<Rightarrow> path \<Rightarrow> (InstanceLockError, InstanceLock) lockio" where
  "acquire json now data_root = open_lock json now data_root True"

definition acquire_existing ::
  "(RunIdentity \<Rightarrow> io_error + bytes) \<Rightarrow> nat \<Rightarrow> path \<Rightarrow> (InstanceLockError, InstanceLock option) lockio" where
  "acquire_existing json now data_root =
     tryE (on_world (fs_lstat data_root)) (\<lambda>r.
       case r of
         Inr (NDir _) \<Rightarrow>
           bindE (check_lock_target (path_join data_root LOCK_FILENAME)) (\<lambda>found.
           if found then bindE (open_lock json now data_root False) (\<lambda>l. returnE (Some l))
           else returnE None)
       | Inr _ \<Rightarrow> throwE (InvalidLockTarget data_root)
       | Inl NotFound \<Rightarrow> returnE None
       | Inl e \<Rightarrow> throwE (LockIo ''inspect data root'' data_root e))"

definition drop_lock :: "InstanceLock \<Rightarrow> ('e, unit) lockio" where
  "drop_lock l = release (il_file l)"

subsection \<open>Inspecting it from another process\<close>

text \<open>
  \<open>None\<close> for the reads that fail. The description is closed again, so a lock this call gets is
  gone when it returns, whatever the explicit unlock says.
\<close>

definition inspect_existing ::
  "(bytes \<Rightarrow> RunIdentity option) \<Rightarrow> path \<Rightarrow> ('e, ExistingLock) lockio" where
  "inspect_existing unjson data_root =
     tryE
       (bindE (on_world (fs_open_rdwr (path_join data_root LOCK_FILENAME))) (\<lambda>i.
        bindE (on_world fs_seek) (\<lambda>_.
        bindE (on_world (fs_read_fd i)) (\<lambda>b.
        case unjson b of
          None \<Rightarrow> returnE MissingOrInvalid
        | Some idt \<Rightarrow>
            if \<not> (valid_run_id (run_id idt) \<and> lock_inode idt = i) then returnE MissingOrInvalid
            else
              bindE (flock_exclusive i) (\<lambda>got.
              if got then bindE (release i) (\<lambda>_. returnE (Unlocked idt))
              else returnE (Locked idt))))))
       (\<lambda>r. case r of Inr x \<Rightarrow> returnE x | Inl _ \<Rightarrow> returnE MissingOrInvalid)"

subsection \<open>One holder at a time\<close>

lemma lock_path: "path_join root LOCK_FILENAME = root @ [LOCK_FILENAME]"
  by (rule path_join_plain) (simp_all add: LOCK_FILENAME_def)

lemma wp_flock:
  assumes "R EIO (h, tick w)" "i \<in> set (lk_held h) \<Longrightarrow> Q False (h, tick w)"
    "i \<notin> set (lk_held h) \<Longrightarrow> Q True (h\<lparr>lk_held := i # lk_held h\<rparr>, tick w)"
  shows "wpE (flock_exclusive i) Q R (h, w)"
  using assms by (auto simp: wpE_def flock_exclusive_def split: outcome.split)

lemma wp_fetch_run [simp]:
  "wpE fetch_run Q R (h, w) = Q (lk_runs h) (h\<lparr>lk_runs := Suc (lk_runs h) mod Suc u64_max\<rparr>, w)"
  by (simp add: wpE_def fetch_run_def)

lemma wp_open_rdwr [wp_intros]:
  assumes "\<And>e. R e (tick w)" "\<And>i. node_at w p = Some (NFile i) \<Longrightarrow> Q i (tick w)"
  shows "wpE (fs_open_rdwr p) Q R w"
  unfolding fs_open_rdwr_def
  by (rule wp_sys) (use assms in \<open>auto simp: wpE_def world_simps split: option.splits node.splits\<close>)

lemma wp_release [simp]: "wpE (release i) Q R (h, w) = Q () (h\<lparr>lk_held := remove1 i (lk_held h)\<rparr>, w)"
  by (simp add: release_def)

lemma wp_check_lock_target:
  assumes "\<And>e. R e (h, tick w)" "Q (\<exists>i. node_at w p = Some (NFile i)) (h, tick w)"
  shows "wpE (check_lock_target p) Q R (h, w)"
  unfolding check_lock_target_def
  by simp (rule wp_lstat; use assms in \<open>auto simp: EIO_def split: node.split\<close>)

lemma wp_write_identity:
  assumes "\<And>e w'. P w' \<Longrightarrow> R e (h, w')"
    "\<And>b w'. json idt = Inr b \<Longrightarrow> contents w' i = b \<Longrightarrow> P w' \<Longrightarrow> Q () (h, w')"
    "P w" "\<And>w. P w \<Longrightarrow> P (tick w)" "\<And>b w. P w \<Longrightarrow> P (put_data i b w)"
  shows "wpE (write_identity json i p idt) Q R (h, w)"
proof (cases "json idt")
  case (Inr b)
  let ?w1 = "put_data i (resize 0 (contents w i)) (tick w)"
  have w1: "P ?w1" "contents ?w1 i = []" using assms(3-5) by (simp_all add: world_simps resize_def)
  show ?thesis
    unfolding write_identity_def lock_io_def Inr
    apply simp
    apply (intro wp_intros; (rule assms(1))?)
        apply (use assms(3-5) w1 in auto) [4]
    apply (rule assms(2) [OF Inr])
    subgoal using w1(2) by (simp add: world_simps overwrite_def resize_def)
    subgoal using assms(4,5) w1(1) by simp
    done
qed (use assms in \<open>simp add: write_identity_def\<close>)

text \<open>Nothing but the run counter and the schedule differ.\<close>

definition lock_still :: "locks \<times> world \<Rightarrow> locks \<times> world \<Rightarrow> bool" where
  "lock_still s s' \<longleftrightarrow> lk_held (fst s') = lk_held (fst s)
     \<and> node_at (snd s') = node_at (snd s) \<and> view (snd s') = view (snd s)"

lemma lock_still_tick [simp]: "lock_still s (h, tick w) = lock_still s (h, w)"
  by (simp add: lock_still_def world_simps)

text \<open>
  C15. Mutual exclusion: while some process holds the lock of a data root's lock file, no second
  process acquires it, whether it would create the file or not; its attempt fails, keeps every
  lock and leaves every file, the running instance's identity included, as it was.
\<close>

theorem lock_is_exclusive:
  assumes "node_at w (path_join root LOCK_FILENAME) = Some (NFile i)" "i \<in> set (lk_held h)"
  shows "case open_lock json now root create (h, w) of
      (r, s') \<Rightarrow> (\<exists>e. r = Inl e) \<and> lock_still (h, w) s'"
proof -
  let ?p = "path_join root LOCK_FILENAME"
  let ?R = "\<lambda>_. lock_still (h, w)"
  have same: "lock_still (h, w) (h, w')" if "node_at w' = node_at w" "view w' = view w" for w'
    using that by (simp add: lock_still_def)
  have claim: "wpE (claim_lock json now i ?p) (\<lambda>_ _. False) ?R (h, w')" if "lock_still (h, w) (h, w')" for w'
    unfolding claim_lock_def wpE_bind wpE_map_err
    by (rule wp_flock) (use assms that in auto)
  have modes: "wpE (if create then lock_io op ?p (fs_chmod_fd i 384) else returnE ())
      (\<lambda>_. wpE (lock_io op' ?p fs_seek) (\<lambda>_. wpE (claim_lock json now i ?p) (\<lambda>_ _. False) ?R) ?R) ?R (h, w')"
    if "lock_still (h, w) (h, w')" for w' op op'
    using that claim
    by (auto simp: lock_io_def intro!: wp_intros) (simp_all add: lock_still_def world_simps)
  have "wpE (open_lock json now root create) (\<lambda>_ _. False) ?R (h, w)"
    unfolding open_lock_def Let_def wpE_bind
    apply (rule wp_check_lock_target)
    subgoal by (rule same) (simp_all add: world_simps)
    apply (cases create)
    subgoal
      apply (simp only: lock_io_def if_True wpE_on_world prod.case wpE_map_err)
      apply (rule wp_open_create)
      using assms(1) modes same by (auto simp: world_simps lock_io_def)
    subgoal
      apply (simp only: lock_io_def if_False wpE_on_world prod.case wpE_map_err)
      apply (rule wp_open_rdwr)
      using assms(1) modes same by (auto simp: world_simps lock_io_def)
    done
  then show ?thesis by (auto simp: wpE_def split: prod.splits sum.splits)
qed

text \<open>What an acquisition leaves behind.\<close>

definition acquired ::
  "(RunIdentity \<Rightarrow> io_error + bytes) \<Rightarrow> path \<Rightarrow> locks \<Rightarrow> InstanceLock \<Rightarrow> locks \<times> world \<Rightarrow> bool" where
  "acquired json p h l s \<longleftrightarrow>
     il_file l \<notin> set (lk_held h) \<and> lk_held (fst s) = il_file l # lk_held h \<and> il_path l = p
     \<and> valid_run_id (run_id (il_identity l)) \<and> lock_inode (il_identity l) = il_file l
     \<and> node_at (snd s) p = Some (NFile (il_file l)) \<and> mode_of (snd s) (il_file l) = 384
     \<and> json (il_identity l) = Inr (contents (snd s) (il_file l))"

lemma claim_lock_spec:
  assumes "node_at w p = Some (NFile i)" "mode_of w i = 384" "lk_held h' = lk_held h"
  shows "wpE (claim_lock json now i p) (acquired json p h)
    (\<lambda>_ s. lk_held (fst s) = lk_held h) (h', w)"
proof -
  define P where "P w' \<longleftrightarrow> node_at w' p = Some (NFile i) \<and> mode_of w' i = 384" for w'
  have keep: "P w" "\<And>w. P w \<Longrightarrow> P (tick w)" "\<And>b w. P w \<Longrightarrow> P (put_data i b w)"
    using assms by (simp_all add: P_def world_simps)
  show ?thesis
    unfolding claim_lock_def wpE_bind wpE_map_err
    apply (rule wp_flock)
    subgoal using assms by simp
    subgoal using assms by simp
    apply (simp add: Let_def)
    apply (rule wp_write_identity [where P = P])
    using assms keep by (auto simp: acquired_def P_def valid_generate_run_id)
qed

lemma acquire_spec:
  "wpE (acquire json now root) (acquired json (path_join root LOCK_FILENAME) h)
    (\<lambda>_ s. lk_held (fst s) = lk_held h) (h, w)"
proof -
  let ?p = "path_join root LOCK_FILENAME"
  let ?Q = "acquired json ?p h" and ?R = "\<lambda>_ s. lk_held (fst s) = lk_held h"
  have opened: "wpE (lock_io op ?p (fs_chmod_fd i 384))
      (\<lambda>_. wpE (lock_io op' ?p fs_seek) (\<lambda>_. wpE (claim_lock json now i ?p) ?Q ?R) ?R) ?R (h, w')"
    if "node_at w' ?p = Some (NFile i)" for i w' op op'
    using that by (auto simp: lock_io_def world_simps intro!: wp_intros claim_lock_spec)
  show ?thesis
    unfolding acquire_def open_lock_def Let_def wpE_bind if_True
    apply (rule wp_check_lock_target)
    subgoal by simp
    apply (subst lock_io_def)
    apply (simp only: wpE_on_world prod.case wpE_map_err)
    apply (rule wp_open_create)
    using opened by (auto simp: world_simps)
qed

text \<open>Nothing fails when no failure is scheduled.\<close>

lemma tick_quiet: "w_outcomes w = [] \<Longrightarrow> tick w = w"
  by (simp add: tick_def)

lemma sys_quiet: "w_outcomes w = [] \<Longrightarrow> sys damage m w = m w"
  by (simp add: sys_def outcome_now_def tick_quiet)

lemma inspect_quiet:
  assumes "w_outcomes w = []" "node_at w (path_join root LOCK_FILENAME) = Some (NFile i)"
    "unjson (contents w i) = Some idt" "valid_run_id (run_id idt)" "lock_inode idt = i"
  shows "fst (inspect_existing unjson root (h, w)) =
    Inr (if i \<in> set (lk_held h) then Locked idt else Unlocked idt)"
  using assms
  by (simp add: inspect_existing_def tryE_def bindE_def on_world_def fs_open_rdwr_def fs_seek_def fs_read_fd_def
      sys_quiet flock_exclusive_def outcome_now_def tick_quiet returnE_def release_def modifyE_def)

text \<open>
  The lock file tells every other process who is running: once an instance has acquired the
  lock, an inspection that reads the lock file it left finds exactly that identity, as locked
  for as long as some description holds the lock and as unlocked from then on.
\<close>

theorem inspection_finds_the_holder:
  assumes "acquire json now root (h, w) = (Inr l, (h', w'))"
    and "\<forall>idt b. json idt = Inr b \<longrightarrow> unjson b = Some idt"
    and "node_at u (path_join root LOCK_FILENAME) = node_at w' (path_join root LOCK_FILENAME)"
    and "view u (path_join root LOCK_FILENAME) = view w' (path_join root LOCK_FILENAME)"
    and "w_outcomes u = []"
  shows "fst (inspect_existing unjson root (k, u)) =
    Inr (if il_file l \<in> set (lk_held k) then Locked (il_identity l) else Unlocked (il_identity l))"
proof -
  let ?p = "path_join root LOCK_FILENAME"
  have a: "acquired json ?p h l (h', w')"
    using wpE_run [OF acquire_spec assms(1)] by simp
  then have n: "node_at u ?p = Some (NFile (il_file l))" using assms(3) by (simp add: acquired_def)
  moreover have "contents u (il_file l) = contents w' (il_file l)"
    using view_file [OF n] a assms(4) by (simp add: acquired_def view_file)
  ultimately show ?thesis
    using a assms(2,5) by (intro inspect_quiet) (simp_all add: acquired_def)
qed

subsection \<open>Witnesses\<close>

definition lock_world :: world where
  "lock_world = \<lparr>w_names = [([], NDir 0), ([''d''], NDir 1)],
     w_data = [], w_mode = [], w_next = 2, w_outcomes = [], w_pid = 7, w_counter = 0,
     w_fault = \<lparr>af_fault = None, af_target = None, af_prefix = None, af_remaining = 0\<rparr>\<rparr>"

definition no_locks :: locks where "no_locks = \<lparr>lk_held = [], lk_runs = 0\<rparr>"

text \<open>A codec that writes the inode in unary after the run identity.\<close>

definition unary_json :: "RunIdentity \<Rightarrow> io_error + bytes" where
  "unary_json idt = Inr (replicate (lock_inode idt) (CHR ''1'') @ CHR '':'' # run_id idt)"

definition unary_parse :: "bytes \<Rightarrow> RunIdentity option" where
  "unary_parse b = map_option (\<lambda>(a, r). \<lparr>run_id = r, lock_inode = length a\<rparr>) (split_once (CHR '':'') b)"

lemma unary_codec: "unary_json idt = Inr b \<Longrightarrow> unary_parse b = Some idt"
proof -
  have "split_once (CHR '':'') (replicate n (CHR ''1'') @ CHR '':'' # r) = Some (replicate n (CHR ''1''), r)" for n r
    by (induction n) auto
  then show "unary_json idt = Inr b \<Longrightarrow> unary_parse b = Some idt"
    by (cases idt) (auto simp: unary_json_def unary_parse_def)
qed

theorem lock_is_exclusive_witness:
  "case open_lock unary_json 5 [''d''] True (\<lparr>lk_held = [2], lk_runs = 0\<rparr>, new_file [''d'', LOCK_FILENAME] lock_world) of
      (r, s') \<Rightarrow> (\<exists>e. r = Inl e)
        \<and> lock_still (\<lparr>lk_held = [2], lk_runs = 0\<rparr>, new_file [''d'', LOCK_FILENAME] lock_world) s'"
  by (rule lock_is_exclusive [where i = 2]) (simp_all add: lock_path world_simps, simp add: lock_world_def)

lemma sample_acquire:
  "\<exists>l h' w'. acquire unary_json 5 [''d''] (no_locks, lock_world) = (Inr l, (h', w'))
     \<and> w_outcomes w' = [] \<and> is_dir w' [''d''] \<and> il_file l = 2 \<and> 2 \<in> set (lk_held h')"
  by (simp add: acquire_def open_lock_def lock_path Let_def check_lock_target_def comp_defs on_world_def
      fs_lstat_def fs_open_create_def fs_chmod_fd_def fs_seek_def fs_set_len_def fs_write_def fs_fsync_def
      lock_io_def claim_lock_def flock_exclusive_def fetch_run_def write_identity_def unary_json_def
      sys_def outcome_now_def tick_def lock_world_def no_locks_def node_at_def is_dir_def new_file_def
      put_data_def put_mode_def)

theorem inspection_finds_the_holder_witness:
  "\<exists>l h' w'. acquire unary_json 5 [''d''] (no_locks, lock_world) = (Inr l, (h', w'))
     \<and> fst (inspect_existing unary_parse [''d''] (h', w')) = Inr (Locked (il_identity l))"
proof -
  obtain l h' w' where run: "acquire unary_json 5 [''d''] (no_locks, lock_world) = (Inr l, (h', w'))"
    and l: "w_outcomes w' = []" "il_file l \<in> set (lk_held h')"
    using sample_acquire by force
  have "fst (inspect_existing unary_parse [''d''] (h', w')) =
      Inr (if il_file l \<in> set (lk_held h') then Locked (il_identity l) else Unlocked (il_identity l))"
    by (rule inspection_finds_the_holder [OF run]) (use l unary_codec in auto)
  with run l show ?thesis by auto
qed

end
