(* ===== verification/Health.thy ===== *)
theory Health
  imports Lock
begin

text \<open>
  Sync health (\<open>src/health.rs\<close>): the facts the sync worker keeps, the one rule that turns them
  into a state, the snapshot file another process reads, and what that process may conclude.
  The JSON codec of the snapshot is a parameter; clock values are seconds as \<^typ>\<open>int\<close>.
\<close>

subsection \<open>Codes and states\<close>

datatype DiagnosticCode =
    SetupInputInvalid | SetupUnavailable | PairingFailed | PrivateStateInvalid | PrivateStateIo
  | HealthSnapshotIo | BridgeUnavailable | JournalUnavailable | JournalTimeout
  | JournalResponseTooLarge | JournalContractInvalid | ConfiguredStreamMismatch
  | LocalSegmentInvalid | RequestTooLarge | JournalRejected | JournalRevoked | SyncTaskExited
  | SyncTaskPanicked | SyncTaskCancelled | SyncTaskTimedOut | IndicatorUpdateFailed

fun diagnostic_name :: "DiagnosticCode \<Rightarrow> string" where
  "diagnostic_name SetupInputInvalid = ''setup_input_invalid''"
| "diagnostic_name SetupUnavailable = ''setup_unavailable''"
| "diagnostic_name PairingFailed = ''pairing_failed''"
| "diagnostic_name PrivateStateInvalid = ''private_state_invalid''"
| "diagnostic_name PrivateStateIo = ''private_state_io''"
| "diagnostic_name HealthSnapshotIo = ''health_snapshot_io''"
| "diagnostic_name BridgeUnavailable = ''bridge_unavailable''"
| "diagnostic_name JournalUnavailable = ''journal_unavailable''"
| "diagnostic_name JournalTimeout = ''journal_timeout''"
| "diagnostic_name JournalResponseTooLarge = ''journal_response_too_large''"
| "diagnostic_name JournalContractInvalid = ''journal_contract_invalid''"
| "diagnostic_name ConfiguredStreamMismatch = ''configured_stream_mismatch''"
| "diagnostic_name LocalSegmentInvalid = ''local_segment_invalid''"
| "diagnostic_name RequestTooLarge = ''request_too_large''"
| "diagnostic_name JournalRejected = ''journal_rejected''"
| "diagnostic_name JournalRevoked = ''journal_revoked''"
| "diagnostic_name SyncTaskExited = ''sync_task_exited''"
| "diagnostic_name SyncTaskPanicked = ''sync_task_panicked''"
| "diagnostic_name SyncTaskCancelled = ''sync_task_cancelled''"
| "diagnostic_name SyncTaskTimedOut = ''sync_task_timed_out''"
| "diagnostic_name IndicatorUpdateFailed = ''indicator_update_failed''"

fun diagnostic_message :: "DiagnosticCode \<Rightarrow> string" where
  "diagnostic_message SetupInputInvalid = ''setup input is invalid''"
| "diagnostic_message SetupUnavailable = ''setup is unavailable; stop solstone-tmux and try again''"
| "diagnostic_message PairingFailed =
    ''private network pairing failed; check the pairing link and try setup again''"
| "diagnostic_message PrivateStateInvalid = ''private network state is invalid''"
| "diagnostic_message PrivateStateIo = ''private network state could not be accessed''"
| "diagnostic_message HealthSnapshotIo = ''sync health snapshot could not be written''"
| "diagnostic_message BridgeUnavailable = ''the private network is unavailable''"
| "diagnostic_message JournalUnavailable = ''paired journal is unavailable''"
| "diagnostic_message JournalTimeout = ''paired journal request timed out''"
| "diagnostic_message JournalResponseTooLarge = ''paired journal response exceeds the supported size''"
| "diagnostic_message JournalContractInvalid = ''journal response did not match the contract''"
| "diagnostic_message ConfiguredStreamMismatch = ''set stream to the hostname-derived tmux name and restart''"
| "diagnostic_message LocalSegmentInvalid = ''local segment is invalid''"
| "diagnostic_message RequestTooLarge = ''local request exceeds the bridge limit''"
| "diagnostic_message JournalRejected = ''journal request was rejected''"
| "diagnostic_message JournalRevoked =
    ''this device can'' @ [CHR 0x27] @ ''t connect to your journal with its saved pairing; run setup with a new pairing link''"
| "diagnostic_message SyncTaskExited = ''sync task exited unexpectedly''"
| "diagnostic_message SyncTaskPanicked = ''sync task failed: panic''"
| "diagnostic_message SyncTaskCancelled = ''sync task failed: task was cancelled''"
| "diagnostic_message SyncTaskTimedOut = ''sync task did not stop within the shutdown deadline''"
| "diagnostic_message IndicatorUpdateFailed = ''indicator update failed''"

datatype HealthState =
    Unpaired | Held | Connected | Syncing | Connecting | Offline | UpdateNeeded | Revoked

fun health_name :: "HealthState \<Rightarrow> string" where
  "health_name Unpaired = ''unpaired''"
| "health_name Held = ''held''"
| "health_name Connected = ''connected''"
| "health_name Syncing = ''syncing''"
| "health_name Connecting = ''connecting''"
| "health_name Offline = ''offline''"
| "health_name UpdateNeeded = ''update_needed''"
| "health_name Revoked = ''revoked''"

definition HEALTH_FILENAME :: string where "HEALTH_FILENAME = ''sync-health.json''"
definition HEALTH_SCHEMA_VERSION :: nat where "HEALTH_SCHEMA_VERSION = 1"
definition HEALTH_STALE_SECONDS :: int where "HEALTH_STALE_SECONDS = 180"
definition HEALTH_FUTURE_TOLERANCE_SECONDS :: int where "HEALTH_FUTURE_TOLERANCE_SECONDS = 60"

text \<open>\<open>sync::PERIODIC_SYNC_INTERVAL\<close> and \<open>journal::SYSTEM_STATUS_TIMEOUT\<close>, in seconds\<close>

definition PERIODIC_SYNC_INTERVAL :: int where "PERIODIC_SYNC_INTERVAL = 60"
definition SYSTEM_STATUS_TIMEOUT :: int where "SYSTEM_STATUS_TIMEOUT = 5"

definition CONNECTED_LEASE_SECONDS :: int where
  "CONNECTED_LEASE_SECONDS = PERIODIC_SYNC_INTERVAL + SYSTEM_STATUS_TIMEOUT + 1"

definition OFFLINE_AFTER_SECONDS :: int where "OFFLINE_AFTER_SECONDS = 30"

lemmas health_limits = HEALTH_STALE_SECONDS_def HEALTH_FUTURE_TOLERANCE_SECONDS_def
  CONNECTED_LEASE_SECONDS_def PERIODIC_SYNC_INTERVAL_def SYSTEM_STATUS_TIMEOUT_def OFFLINE_AFTER_SECONDS_def

subsection \<open>The facts and the rule\<close>

record SyncFacts =
  sf_paired :: bool
  sf_held :: bool
  sf_sync_in_progress :: bool
  sf_pending_segments :: nat
  sf_last_contact :: "int option"
  sf_last_sync :: "int option"
  sf_error_count :: nat
  sf_error_code :: "DiagnosticCode option"
  sf_episode :: "int option"

definition default_facts :: SyncFacts where
  "default_facts = \<lparr>sf_paired = False, sf_held = False, sf_sync_in_progress = False, sf_pending_segments = 0,
     sf_last_contact = None, sf_last_sync = None, sf_error_count = 0, sf_error_code = None, sf_episode = None\<rparr>"

definition successful_contact :: "int \<Rightarrow> SyncFacts \<Rightarrow> SyncFacts" where
  "successful_contact now f = f\<lparr>sf_last_contact := Some now, sf_error_count := 0, sf_error_code := None\<rparr>"

definition successful_sync :: "int \<Rightarrow> SyncFacts \<Rightarrow> SyncFacts" where
  "successful_sync now f = (successful_contact now f)\<lparr>sf_last_sync := Some now\<rparr>"

definition sync_failed :: "DiagnosticCode \<Rightarrow> SyncFacts \<Rightarrow> SyncFacts" where
  "sync_failed code f = f\<lparr>sf_error_count := sat_add_u32 (sf_error_count f) 1, sf_error_code := Some code\<rparr>"

definition within_lease :: "int \<Rightarrow> int \<Rightarrow> bool" where
  "within_lease contact now \<longleftrightarrow> sat_sub_i64 now contact \<le> CONNECTED_LEASE_SECONDS"

text \<open>\<open>Option::is_some_and\<close> and the order of \<open>Option<i64>\<close>: \<open>None\<close> is least.\<close>

definition is_some_and :: "'a option \<Rightarrow> ('a \<Rightarrow> bool) \<Rightarrow> bool" where
  "is_some_and x P \<longleftrightarrow> (case x of None \<Rightarrow> False | Some y \<Rightarrow> P y)"

fun option_max :: "int option \<Rightarrow> int option \<Rightarrow> int option" where
  "option_max None y = y"
| "option_max x None = x"
| "option_max (Some x) (Some y) = Some (max x y)"

definition link_up :: "SyncFacts \<Rightarrow> int \<Rightarrow> bool" where
  "link_up f now \<longleftrightarrow>
     sf_paired f \<and> is_some_and (sf_last_contact f) (\<lambda>c. within_lease c now)
     \<and> (sf_error_code f = None \<or> sf_error_code f = Some JournalTimeout)"

definition state_at :: "SyncFacts \<Rightarrow> int \<Rightarrow> HealthState" where
  "state_at f now =
     (if link_up f now \<and> sf_sync_in_progress f then Syncing
      else if sf_error_code f \<in> set [Some JournalContractInvalid, Some ConfiguredStreamMismatch,
                Some PrivateStateInvalid, Some PrivateStateIo, Some HealthSnapshotIo] then UpdateNeeded
      else if sf_held f then Held
      else if \<not> sf_paired f then Unpaired
      else if sf_error_code f = Some JournalRevoked then Revoked
      else if link_up f now then Connected
      else (case option_max (sf_last_contact f) (sf_episode f) of
              Some since \<Rightarrow> if sat_sub_i64 now since < OFFLINE_AFTER_SECONDS then Connecting else Offline
            | None \<Rightarrow> Offline))"

subsection \<open>The snapshot\<close>

record HealthSnapshot =
  hs_schema_version :: nat
  hs_run_id :: string
  hs_lock_inode :: nat
  hs_updated_at :: int
  hs_state :: HealthState
  hs_paired :: bool
  hs_sync_in_progress :: bool
  hs_pending_segments :: nat
  hs_last_contact :: "int option"
  hs_last_sync :: "int option"
  hs_error_count :: nat
  hs_error_code :: "DiagnosticCode option"

definition state_now :: "HealthSnapshot \<Rightarrow> int \<Rightarrow> HealthState" where
  "state_now s now =
     (case hs_state s of
        Connected \<Rightarrow> if is_some_and (hs_last_contact s) (\<lambda>c. within_lease c now) then Connected else Offline
      | Syncing \<Rightarrow> if is_some_and (hs_last_contact s) (\<lambda>c. within_lease c now) then Syncing else Offline
      | Connecting \<Rightarrow> if sat_sub_i64 now (hs_updated_at s) \<ge> OFFLINE_AFTER_SECONDS then Offline else Connecting
      | state \<Rightarrow> state)"

definition snapshot_of :: "RunIdentity \<Rightarrow> SyncFacts \<Rightarrow> int \<Rightarrow> HealthSnapshot" where
  "snapshot_of idt f now =
     \<lparr>hs_schema_version = HEALTH_SCHEMA_VERSION, hs_run_id = run_id idt, hs_lock_inode = lock_inode idt,
      hs_updated_at = now, hs_state = state_at f now, hs_paired = sf_paired f,
      hs_sync_in_progress = sf_sync_in_progress f, hs_pending_segments = sf_pending_segments f,
      hs_last_contact = sf_last_contact f, hs_last_sync = sf_last_sync f,
      hs_error_count = sf_error_count f, hs_error_code = sf_error_code f\<rparr>"

text \<open>\<open>HealthWriter::write\<close>: every failure is the one code.\<close>

definition write_health ::
  "(HealthSnapshot \<Rightarrow> bytes option) \<Rightarrow> path \<Rightarrow> RunIdentity \<Rightarrow> SyncFacts \<Rightarrow> int \<Rightarrow> (DiagnosticCode, unit) io" where
  "write_health json data_root idt f now =
     (case json (snapshot_of idt f now) of
        None \<Rightarrow> throwE HealthSnapshotIo
      | Some b \<Rightarrow> map_errE (\<lambda>_. HealthSnapshotIo)
          (atomic_write_bytes (path_join data_root HEALTH_FILENAME) data_root b))"

datatype StatusHealth = StatusUnknown | StatusStale | StatusLive HealthState

fun status_name :: "StatusHealth \<Rightarrow> string" where
  "status_name StatusUnknown = ''unknown''"
| "status_name StatusStale = ''stale''"
| "status_name (StatusLive state) = health_name state"

definition valid_snapshot :: "HealthSnapshot \<Rightarrow> bool" where
  "valid_snapshot s \<longleftrightarrow>
     hs_schema_version s = HEALTH_SCHEMA_VERSION \<and> length (hs_run_id s) = 32
     \<and> list_all (\<lambda>c. is_digit c \<or> (CHR ''a'' \<le> c \<and> c \<le> CHR ''f'')) (hs_run_id s)
     \<and> (case hs_state s of
          Unpaired \<Rightarrow> \<not> hs_paired s \<and> \<not> hs_sync_in_progress s
        | Held \<Rightarrow> hs_paired s \<and> \<not> hs_sync_in_progress s
        | Syncing \<Rightarrow> hs_paired s \<and> hs_sync_in_progress s \<and> hs_last_contact s \<noteq> None
        | Connected \<Rightarrow> hs_paired s \<and> \<not> hs_sync_in_progress s \<and> hs_last_contact s \<noteq> None
            \<and> (hs_error_code s = None \<or> hs_error_code s = Some JournalTimeout)
        | UpdateNeeded \<Rightarrow> True
        | Connecting \<Rightarrow> hs_paired s
        | Offline \<Rightarrow> hs_paired s
        | Revoked \<Rightarrow> hs_paired s)"

definition read_snapshot ::
  "(bytes \<Rightarrow> HealthSnapshot option) \<Rightarrow> path \<Rightarrow> ('e, HealthSnapshot option) io" where
  "read_snapshot unjson data_root =
     tryE (open_regular_readonly (path_join data_root HEALTH_FILENAME)) (\<lambda>r.
       case r of
         Inl _ \<Rightarrow> returnE None
       | Inr i \<Rightarrow> tryE (fs_read_fd i) (\<lambda>r. case r of Inl _ \<Rightarrow> returnE None | Inr b \<Rightarrow> returnE (unjson b)))"

text \<open>The snapshot checked against the lock: its writer must be the running instance.\<close>

definition judge_snapshot :: "HealthSnapshot \<Rightarrow> ExistingLock \<Rightarrow> int \<Rightarrow> StatusHealth" where
  "judge_snapshot s lock now =
     (case lock of
        Unlocked _ \<Rightarrow> StatusStale
      | MissingOrInvalid \<Rightarrow> StatusUnknown
      | Locked idt \<Rightarrow>
          if hs_run_id s \<noteq> run_id idt \<or> hs_lock_inode s \<noteq> lock_inode idt
             \<or> hs_updated_at s > now + HEALTH_FUTURE_TOLERANCE_SECONDS
             \<or> sat_sub_i64 now (hs_updated_at s) > HEALTH_STALE_SECONDS
          then StatusStale else StatusLive (state_now s now))"

definition read_status_health ::
  "(bytes \<Rightarrow> HealthSnapshot option) \<Rightarrow> (bytes \<Rightarrow> RunIdentity option) \<Rightarrow> path \<Rightarrow> int
   \<Rightarrow> ('e, StatusHealth) lockio" where
  "read_status_health unjson unlock data_root now =
     tryE (on_world (fs_lstat data_root)) (\<lambda>r.
       case r of
         Inr (NDir _) \<Rightarrow>
           bindE (on_world (read_snapshot unjson data_root)) (\<lambda>found.
           case found of
             None \<Rightarrow> returnE StatusUnknown
           | Some s \<Rightarrow>
               if \<not> valid_snapshot s then returnE StatusUnknown
               else bindE (inspect_existing unlock data_root) (\<lambda>lock. returnE (judge_snapshot s lock now)))
       | _ \<Rightarrow> returnE StatusUnknown)"

subsection \<open>What a reader may conclude\<close>

text \<open>The facts the sync worker keeps: it never sends while held or unpaired.\<close>

definition facts_ok :: "SyncFacts \<Rightarrow> bool" where
  "facts_ok f \<longleftrightarrow> (sf_held f \<longrightarrow> sf_paired f) \<and> (sf_sync_in_progress f \<longrightarrow> sf_paired f \<and> \<not> sf_held f)"

lemma facts_ok_updates:
  "facts_ok (successful_contact now f) = facts_ok f" "facts_ok (successful_sync now f) = facts_ok f"
  "facts_ok (sync_failed code f) = facts_ok f" "facts_ok default_facts"
  by (simp_all add: facts_ok_def successful_contact_def successful_sync_def sync_failed_def default_facts_def)

text \<open>Every state is the first of the rule's conditions that holds.\<close>

lemma state_at_cases:
  obtains
    (Syncing) "state_at f now = Syncing" "link_up f now" "sf_sync_in_progress f"
  | (UpdateNeeded) "state_at f now = UpdateNeeded"
  | (Held) "state_at f now = Held" "sf_held f"
  | (Unpaired) "state_at f now = Unpaired" "\<not> sf_paired f" "\<not> sf_held f"
  | (Revoked) "state_at f now = Revoked" "sf_paired f"
  | (Connected) "state_at f now = Connected" "link_up f now" "\<not> sf_sync_in_progress f"
  | (Reaching) "state_at f now = Connecting \<or> state_at f now = Offline" "sf_paired f" "\<not> link_up f now"
proof -
  let ?update = "sf_error_code f \<in> set [Some JournalContractInvalid, Some ConfiguredStreamMismatch,
    Some PrivateStateInvalid, Some PrivateStateIo, Some HealthSnapshotIo]"
  let ?reach = "case option_max (sf_last_contact f) (sf_episode f) of
    Some since \<Rightarrow> if sat_sub_i64 now since < OFFLINE_AFTER_SECONDS then Connecting else Offline | None \<Rightarrow> Offline"
  have range: "?reach = Connecting \<or> ?reach = Offline" by (simp split: option.split)
  consider "link_up f now \<and> sf_sync_in_progress f"
    | "\<not> (link_up f now \<and> sf_sync_in_progress f)" ?update
    | "\<not> (link_up f now \<and> sf_sync_in_progress f)" "\<not> ?update" "sf_held f"
    | "\<not> (link_up f now \<and> sf_sync_in_progress f)" "\<not> ?update" "\<not> sf_held f" "\<not> sf_paired f"
    | "\<not> (link_up f now \<and> sf_sync_in_progress f)" "\<not> ?update" "\<not> sf_held f" "sf_paired f"
      "sf_error_code f = Some JournalRevoked"
    | "\<not> (link_up f now \<and> sf_sync_in_progress f)" "\<not> ?update" "\<not> sf_held f" "sf_paired f"
      "sf_error_code f \<noteq> Some JournalRevoked" "link_up f now"
    | "\<not> (link_up f now \<and> sf_sync_in_progress f)" "\<not> ?update" "\<not> sf_held f" "sf_paired f"
      "sf_error_code f \<noteq> Some JournalRevoked" "\<not> link_up f now"
    by blast
  then show thesis
  proof cases
    case 1 then show ?thesis by (intro Syncing) (simp_all only: state_at_def if_True simp_thms)
  next
    case 2 then show ?thesis by (intro UpdateNeeded) (simp only: state_at_def if_True if_False)
  next
    case 3 then show ?thesis by (intro Held) (simp_all only: state_at_def if_True if_False)
  next
    case 4 then show ?thesis by (intro Unpaired) (simp_all only: state_at_def if_True if_False not_False_eq_True)
  next
    case 5 then show ?thesis by (intro Revoked) (simp_all only: state_at_def if_True if_False not_True_eq_False simp_thms)
  next
    case 6 then show ?thesis
      by (intro Connected) (simp_all only: state_at_def if_True if_False not_True_eq_False simp_thms)
  next
    case 7
    then have "state_at f now = ?reach" by (simp only: state_at_def if_False simp_thms if_True)
    with 7 range show ?thesis by (intro Reaching) simp_all
  qed
qed

lemma valid_written_snapshot:
  assumes "facts_ok f" "valid_run_id (run_id idt)"
  shows "valid_snapshot (snapshot_of idt f now)"
proof -
  have "case state_at f now of
          Unpaired \<Rightarrow> \<not> sf_paired f \<and> \<not> sf_sync_in_progress f
        | Held \<Rightarrow> sf_paired f \<and> \<not> sf_sync_in_progress f
        | Syncing \<Rightarrow> sf_paired f \<and> sf_sync_in_progress f \<and> sf_last_contact f \<noteq> None
        | Connected \<Rightarrow> sf_paired f \<and> \<not> sf_sync_in_progress f \<and> sf_last_contact f \<noteq> None
            \<and> (sf_error_code f = None \<or> sf_error_code f = Some JournalTimeout)
        | UpdateNeeded \<Rightarrow> True | Connecting \<Rightarrow> sf_paired f | Offline \<Rightarrow> sf_paired f | Revoked \<Rightarrow> sf_paired f"
    by (cases rule: state_at_cases [of f now])
      (use assms(1) in \<open>auto simp: facts_ok_def link_up_def is_some_and_def split: option.splits\<close>)
  then show ?thesis
    using assms(2) by (simp add: valid_snapshot_def snapshot_of_def valid_run_id_def split: HealthState.splits)
qed

subsection \<open>The rule and the reader\<close>

text \<open>Facts of the past: neither the last answer nor the current attempt began after \<open>t\<close>.\<close>

definition facts_by :: "int \<Rightarrow> SyncFacts \<Rightarrow> bool" where
  "facts_by t f \<longleftrightarrow> (\<forall>c. sf_last_contact f = Some c \<longrightarrow> c \<le> t) \<and> (\<forall>e. sf_episode f = Some e \<longrightarrow> e \<le> t)"

lemma within_lease_iff: "within_lease c now \<longleftrightarrow> now - c \<le> 66"
  by (simp add: within_lease_def health_limits sat_sub_i64_le i64_max_def i64_min_def)

lemma offline_iff: "sat_sub_i64 now c < OFFLINE_AFTER_SECONDS \<longleftrightarrow> now - c < 30"
  "sat_sub_i64 now c \<ge> OFFLINE_AFTER_SECONDS \<longleftrightarrow> now - c \<ge> 30"
  by (simp_all add: health_limits sat_sub_i64_less sat_sub_i64_ge i64_max_def i64_min_def)

lemma stale_iff: "sat_sub_i64 now c > HEALTH_STALE_SECONDS \<longleftrightarrow> now - c > 180"
  by (simp add: health_limits sat_sub_i64_le i64_max_def i64_min_def flip: not_le)

lemma link_up_earlier: "link_up f now \<Longrightarrow> t \<le> now \<Longrightarrow> link_up f t"
  by (auto simp: link_up_def is_some_and_def within_lease_iff split: option.splits)

lemma link_up_later: "link_up f t \<Longrightarrow>
  link_up f now = is_some_and (sf_last_contact f) (\<lambda>c. within_lease c now)"
  by (auto simp: link_up_def)

definition reach :: "SyncFacts \<Rightarrow> int \<Rightarrow> HealthState" where
  "reach f now =
     (case option_max (sf_last_contact f) (sf_episode f) of
        Some since \<Rightarrow> if sat_sub_i64 now since < OFFLINE_AFTER_SECONDS then Connecting else Offline
      | None \<Rightarrow> Offline)"

lemma reach_range: "reach f now = Connecting \<or> reach f now = Offline"
  by (simp add: reach_def split: option.split)

lemma state_at_down:
  "\<not> link_up f now \<Longrightarrow> state_at f now =
     (if sf_error_code f \<in> set [Some JournalContractInvalid, Some ConfiguredStreamMismatch,
           Some PrivateStateInvalid, Some PrivateStateIo, Some HealthSnapshotIo] then UpdateNeeded
      else if sf_held f then Held else if \<not> sf_paired f then Unpaired
      else if sf_error_code f = Some JournalRevoked then Revoked else reach f now)"
  by (simp only: state_at_def reach_def if_False simp_thms)

lemma reach_steps:
  assumes "facts_by t f" "t \<le> now"
  shows "reach f t = Offline \<Longrightarrow> reach f now = Offline" "reach f now = Connecting \<Longrightarrow> now < t + 30"
proof -
  have since: "s \<le> t" if "option_max (sf_last_contact f) (sf_episode f) = Some s" for s
    using that assms(1) by (cases "sf_last_contact f"; cases "sf_episode f") (auto simp: facts_by_def)
  show "reach f t = Offline \<Longrightarrow> reach f now = Offline" "reach f now = Connecting \<Longrightarrow> now < t + 30"
    using assms(2) since by (auto simp: reach_def offline_iff split: option.splits if_splits)
qed

text \<open>
  Between two writes of the snapshot a reader may apply its own clock: at any later time it
  shows what the rule itself would say of the same facts, with two exceptions. It may still show
  connecting, for at most thirty seconds after the write, when the rule already says offline; and
  once the lease has run out it shows offline although the rule, if a new attempt began less than
  thirty seconds ago, says connecting. So connected and syncing are never shown wrongly.
\<close>

theorem reader_agrees_with_rule:
  assumes ok: "facts_ok f" and past: "facts_by t f" "t \<le> now"
  shows "state_now (snapshot_of idt f t) now = state_at f now
    \<or> state_now (snapshot_of idt f t) now = Connecting \<and> state_at f now = Offline \<and> now < t + 30
    \<or> state_now (snapshot_of idt f t) now = Offline \<and> state_at f now = Connecting
        \<and> (\<exists>e. sf_episode f = Some e \<and> now < e + 30) \<and> \<not> link_up f now \<and> link_up f t"
proof (cases "link_up f t")
  case True
  note later = link_up_later [OF True, of now]
  show ?thesis
  proof (cases "link_up f now")
    case now: True
    have "state_at f now = state_at f t" using True now by (simp add: state_at_def)
    moreover have "state_now (snapshot_of idt f t) now = state_at f t"
      using now True later
      by (cases rule: state_at_cases [of f t]) (auto simp: state_now_def snapshot_of_def)
    ultimately show ?thesis by simp
  next
    case False
    obtain c where c: "sf_last_contact f = Some c" "now - c > 66"
      using True False later by (auto simp: link_up_def is_some_and_def within_lease_iff split: option.splits)
    have code: "sf_error_code f = None \<or> sf_error_code f = Some JournalTimeout" "sf_paired f"
      using True by (auto simp: link_up_def)
    then show ?thesis
      using ok True False c
      by (cases "sf_episode f")
        (auto simp: facts_ok_def state_at_def state_now_def snapshot_of_def is_some_and_def within_lease_iff offline_iff)
  qed
next
  case False
  then have down: "\<not> link_up f now" using link_up_earlier past(2) by blast
  note steps = reach_steps [OF past]
  show ?thesis
  proof (cases "state_at f t = Connecting \<or> state_at f t = Offline")
    case True
    then have "state_at f t = reach f t" "state_at f now = reach f now"
      using False down by (auto simp: state_at_down split: if_splits)
    then show ?thesis
      using steps reach_range [of f t] reach_range [of f now]
      by (auto simp: state_now_def snapshot_of_def offline_iff)
  next
    case other: False
    then have same: "state_at f now = state_at f t" "state_at f t \<noteq> Connected" "state_at f t \<noteq> Syncing"
      using reach_range [of f t] False down by (auto simp: state_at_down split: if_splits)
    with other show ?thesis by (simp add: state_now_def snapshot_of_def split: HealthState.split)
  qed
qed

subsection \<open>Writing and reading back\<close>

lemma health_path: "path_join root HEALTH_FILENAME = root @ [HEALTH_FILENAME]"
  by (rule path_join_plain) (simp_all add: HEALTH_FILENAME_def)

lemma read_snapshot_quiet:
  assumes "w_outcomes w = []" "view w (path_join root HEALTH_FILENAME) = Some b"
  shows "read_snapshot unjson root w = (Inr (unjson b), w)"
proof -
  obtain i where "node_at w (path_join root HEALTH_FILENAME) = Some (NFile i)" "contents w i = b"
    using view_SomeD [OF assms(2)] by blast
  then show ?thesis
    using assms(1)
    by (simp add: read_snapshot_def open_regular_readonly_def stage_io_def comp_defs fs_open_read_def fs_seek_def
        fs_read_fd_def sys_quiet)
qed

lemma health_filename_plain: "plain_name HEALTH_FILENAME"
  by (rule plain_ascii) (simp_all add: HEALTH_FILENAME_def)

lemma bindE_fst:
  "bindE m f s = (case fst (m s) of Inl e \<Rightarrow> (Inl e, snd (m s)) | Inr x \<Rightarrow> f x (snd (m s)))"
  by (auto simp: bindE_def split: prod.splits sum.splits)

text \<open>
  The status another process reads is the one the running instance wrote: if the write
  succeeded and the reader finds that snapshot and the lock file of the instance, then, as long
  as the lock is held and the snapshot is neither older than 180 seconds nor more than 60 seconds
  ahead, it reports the recorded state as it holds now; without the holder it reports stale.
\<close>

theorem health_round_trip:
  assumes lock: "acquire lock_json start root (h0, w0) = (Inr l, (h1, w1))"
    and written: "write_health json root (il_identity l) f t w2 = (Inr (), w3)"
    and facts: "facts_ok f" and ok: "world_ok w2"
    and codecs: "\<forall>idt b. lock_json idt = Inr b \<longrightarrow> unlock b = Some idt" "\<forall>s b. json s = Some b \<longrightarrow> unjson b = Some s"
    and lock_file: "node_at u (path_join root LOCK_FILENAME) = node_at w1 (path_join root LOCK_FILENAME)"
      "view u (path_join root LOCK_FILENAME) = view w1 (path_join root LOCK_FILENAME)"
    and found: "view u (path_join root HEALTH_FILENAME) = view w3 (path_join root HEALTH_FILENAME)"
    and quiet: "w_outcomes u = []" and root: "is_dir u root"
  shows "fst (read_status_health unjson unlock root now (k, u)) = Inr
    (if il_file l \<notin> set (lk_held k) \<or> t > now + 60 \<or> now - t > 180 then StatusStale
     else StatusLive (state_now (snapshot_of (il_identity l) f t) now))"
proof -
  let ?s = "snapshot_of (il_identity l) f t"
  obtain b where b: "json ?s = Some b"
    using written by (auto simp: write_health_def throwE_def split: option.splits)
  have "wpE (write_health json root (il_identity l) f t)
      (\<lambda>_ w'. view w' (path_join root HEALTH_FILENAME) = Some b) (\<lambda>_ _. True) w2"
    unfolding write_health_def b option.case wpE_map_err health_path
    by (rule wpE_mono [OF atomic_write_bytes_spec [OF ok health_filename_plain]]) (auto simp: replaced_ok_def)
  from wpE_run [OF this written] found have v: "view u (path_join root HEALTH_FILENAME) = Some b" by simp
  have u: "unjson b = Some ?s" using codecs(2) b by blast
  note read = read_snapshot_quiet [OF quiet v, of unjson, unfolded u]
  have idt: "valid_run_id (run_id (il_identity l))"
    using wpE_run [OF acquire_spec lock] by (simp add: acquired_def)
  obtain d where dir: "node_at u root = Some (NDir d)" using root by (auto simp: is_dir_def split: option.splits node.splits)
  have n: "node_at u (path_join root LOCK_FILENAME) = Some (NFile (il_file l))"
    "unlock (contents u (il_file l)) = Some (il_identity l)" "lock_inode (il_identity l) = il_file l"
  proof -
    let ?p = "path_join root LOCK_FILENAME"
    have a: "acquired lock_json ?p h0 l (h1, w1)" using wpE_run [OF acquire_spec lock] by simp
    then show n: "node_at u ?p = Some (NFile (il_file l))" using lock_file by (simp add: acquired_def)
    have "contents u (il_file l) = contents w1 (il_file l)"
      using view_file [OF n] a lock_file by (simp add: acquired_def view_file)
    then show "unlock (contents u (il_file l)) = Some (il_identity l)" using a codecs(1) by (simp add: acquired_def)
    show "lock_inode (il_identity l) = il_file l" using a by (simp add: acquired_def)
  qed
  note seen = inspect_quiet [where unjson = unlock, OF quiet n(1,2) idt n(3), of k]
  have "valid_snapshot ?s" by (rule valid_written_snapshot [OF facts idt])
  with dir quiet show ?thesis
    by (simp add: read_status_health_def tryE_def bindE_fst on_world_def fs_lstat_def sys_quiet returnE_def read seen)
      (simp add: judge_snapshot_def snapshot_of_def stale_iff HEALTH_FUTURE_TOLERANCE_SECONDS_def)
qed

subsection \<open>Witnesses\<close>

definition sample_facts :: SyncFacts where
  "sample_facts = default_facts\<lparr>sf_paired := True, sf_last_contact := Some 90, sf_episode := Some 10\<rparr>"

definition sample_identity :: RunIdentity where
  "sample_identity = \<lparr>run_id = replicate 32 (CHR ''0''), lock_inode = 2\<rparr>"

theorem reader_agrees_with_rule_witness:
  "state_now (snapshot_of sample_identity sample_facts 100) 200 = state_at sample_facts 200
    \<or> state_now (snapshot_of sample_identity sample_facts 100) 200 = Connecting
        \<and> state_at sample_facts 200 = Offline \<and> (200::int) < 100 + 30
    \<or> state_now (snapshot_of sample_identity sample_facts 100) 200 = Offline
        \<and> state_at sample_facts 200 = Connecting
        \<and> (\<exists>e. sf_episode sample_facts = Some e \<and> 200 < e + 30)
        \<and> \<not> link_up sample_facts 200 \<and> link_up sample_facts 100"
  by (rule reader_agrees_with_rule) (simp_all add: facts_ok_def facts_by_def sample_facts_def default_facts_def)

definition only_json :: "HealthSnapshot \<Rightarrow> HealthSnapshot \<Rightarrow> bytes option" where
  "only_json s0 s = (if s = s0 then Some ''h'' else None)"

lemma sample_replace:
  "fst (atomic_write_bytes [''d'', HEALTH_FILENAME] [''d''] ''h'' lock_world) = Inr ()"
proof -
  have t: "temp_name (utf8_lossy HEALTH_FILENAME) 7 0 = ''.sync-health.json.7.0.tmp''"
    using utf8_lossy_valid [of HEALTH_FILENAME] health_filename_plain
    by (simp add: temp_name_def HEALTH_FILENAME_def plain_name_def dec_of_nat.simps)
  have j: "path_join [''d''] ''.sync-health.json.7.0.tmp'' = [''d'', ''.sync-health.json.7.0.tmp'']"
    by (subst path_join_plain) simp_all
  have n: "HEALTH_FILENAME \<noteq> ''.sync-health.json.7.0.tmp''" "''.sync-health.json.7.0.tmp'' \<noteq> HEALTH_FILENAME"
    by (simp_all add: HEALTH_FILENAME_def)
  have r: "resolve 40 w p = (case node_at w p of None \<Rightarrow> Inl NotFound | Some (NLink q) \<Rightarrow> resolve 39 w q
      | Some m \<Rightarrow> Inr m)" for w p
    using resolve.simps(2) [of 39 w p] by simp
  show ?thesis
    by (simp add: atomic_write_bytes_def replace_file_def write_temporary_def stage_io_def comp_defs fetch_temp_def
        write_fault_def take_write_fault_def Let_def fs_lstat_def fs_open_excl_def fs_chmod_fd_def fs_write_def
        fs_fsync_def fs_rename_def sync_directory_def fs_open_any_def sys_def outcome_now_def tick_def node_at_def
        is_dir_def new_file_def put_data_def put_mode_def put_node_def del_node_def lock_world_def t j n r)
qed

lemma sample_write:
  "\<exists>w3. write_health (only_json (snapshot_of idt f t)) [''d''] idt f t lock_world = (Inr (), w3)"
proof -
  obtain w3 where "atomic_write_bytes [''d'', HEALTH_FILENAME] [''d''] ''h'' lock_world = (Inr (), w3)"
    using sample_replace by (metis prod.collapse)
  then have "write_health (only_json (snapshot_of idt f t)) [''d''] idt f t lock_world = (Inr (), w3)"
    by (simp add: write_health_def only_json_def health_path map_errE_def)
  then show ?thesis by blast
qed

definition with_health :: "bytes \<Rightarrow> world \<Rightarrow> world" where
  "with_health b w = put_node [''d'', HEALTH_FILENAME] (NFile 99) (put_data 99 b w)"

theorem health_round_trip_witness:
  "\<exists>l h1 w1 b. acquire unary_json 5 [''d''] (no_locks, lock_world) = (Inr l, (h1, w1))
     \<and> fst (read_status_health (\<lambda>_. Some (snapshot_of (il_identity l) sample_facts 100)) unary_parse [''d''] 120
         (h1, with_health b w1)) = Inr (StatusLive Connected)"
proof -
  obtain l h1 w1 where run: "acquire unary_json 5 [''d''] (no_locks, lock_world) = (Inr l, (h1, w1))"
    and q: "w_outcomes w1 = []" "is_dir w1 [''d'']" "il_file l = 2" "2 \<in> set (lk_held h1)"
    using sample_acquire by blast
  let ?s = "snapshot_of (il_identity l) sample_facts 100"
  obtain w3 where w: "write_health (only_json ?s) [''d''] (il_identity l) sample_facts 100 lock_world = (Inr (), w3)"
    using sample_write by blast
  have ok: "world_ok lock_world" by (rule world_ok_checked) code_simp
  have names: "HEALTH_FILENAME \<noteq> LOCK_FILENAME" by (simp add: HEALTH_FILENAME_def LOCK_FILENAME_def)
  have "wpE (write_health (only_json ?s) [''d''] (il_identity l) sample_facts 100)
      (\<lambda>_ w'. view w' [''d'', HEALTH_FILENAME] = Some ''h'') (\<lambda>_ _. True) lock_world"
    using atomic_write_bytes_spec [OF ok health_filename_plain, of "[''d'']" "''h''"]
    by (simp add: write_health_def only_json_def health_path) (erule wpE_mono; simp add: replaced_ok_def)
  from wpE_run [OF this w] have v: "view w3 [''d'', HEALTH_FILENAME] = Some ''h''" by simp
  have u: "node_at (with_health ''h'' w1) = (node_at w1)([''d'', HEALTH_FILENAME] \<mapsto> NFile 99)"
    "contents (with_health ''h'' w1) = (contents w1)(99 := ''h'')" "w_outcomes (with_health ''h'' w1) = []"
    using q by (simp_all add: with_health_def world_simps) (simp add: put_node_def put_data_def)
  have a: "node_at w1 [''d'', LOCK_FILENAME] = Some (NFile 2)"
    using wpE_run [OF acquire_spec run] q by (simp add: acquired_def lock_path)
  have "fst (read_status_health (\<lambda>_. Some ?s) unary_parse [''d''] 120 (h1, with_health ''h'' w1)) = Inr
    (if il_file l \<notin> set (lk_held h1) \<or> 100 > 120 + (60::int) \<or> 120 - 100 > (180::int) then StatusStale
     else StatusLive (state_now ?s 120))"
  proof (rule health_round_trip [OF run w])
    show "facts_ok sample_facts" by (simp add: facts_ok_def sample_facts_def default_facts_def)
    show "view (with_health ''h'' w1) (path_join [''d''] LOCK_FILENAME) = view w1 (path_join [''d''] LOCK_FILENAME)"
      using a names by (simp add: view_def u lock_path)
    show "view (with_health ''h'' w1) (path_join [''d''] HEALTH_FILENAME) = view w3 (path_join [''d''] HEALTH_FILENAME)"
      using v by (simp add: view_def u health_path)
  qed (use names unary_codec q in \<open>auto simp: ok u lock_path only_json_def is_dir_def split: if_splits\<close>)
  moreover have "state_now ?s 120 = Connected"
    by (simp add: state_now_def snapshot_of_def state_at_def link_up_def is_some_and_def within_lease_iff
        sample_facts_def default_facts_def)
  ultimately show ?thesis using run q by auto
qed

end
