(* ===== verification/Journal.thy ===== *)
theory Journal
  imports Health "HOL-Library.Multiset"
begin

text \<open>
  The journal client (\<open>src/journal.rs\<close>): what it sends, how it reads an answer, and when it
  believes that the journal holds a file. Parameters: the HTTP client (\<open>http\<close>), URL resolution
  (\<open>join\<close>), the multipart headers (\<open>build\<close>), JSON decoding into the derived structures, and the
  SHA-256 of a byte string in hexadecimal (\<open>sha\<close>). The concurrent staging of a file's bytes is
  in the theory \<open>Upload\<close>.
\<close>

subsection \<open>Reasons, faults, errors\<close>

definition INGEST_PATH :: string where "INGEST_PATH = ''/app/devices/ingest''"
definition SYSTEM_STATUS_PATH :: string where "SYSTEM_STATUS_PATH = ''/api/system/status''"
definition CLIENTS_SELF_PATH :: string where "CLIENTS_SELF_PATH = ''/app/network/api/clients/self''"
definition RELAY_ACCESS_PATH :: string where "RELAY_ACCESS_PATH = ''/app/network/api/relay/access''"
definition LOCAL_ENDPOINTS_PATH :: string where "LOCAL_ENDPOINTS_PATH = ''/app/network/local-endpoints''"
definition OPTIONAL_RESPONSE_BODY_BYTES :: nat where "OPTIONAL_RESPONSE_BODY_BYTES = 64 * 1024"
definition MAX_RESPONSE_BODY_BYTES :: nat where "MAX_RESPONSE_BODY_BYTES = 4 * 1024 * 1024"
definition MAX_MULTIPART_PART_BYTES :: nat where "MAX_MULTIPART_PART_BYTES = 64 * 1024 * 1024"
definition MAX_REQUEST_BODY_BYTES :: nat where "MAX_REQUEST_BODY_BYTES = 128 * 1024 * 1024"

datatype JournalStatusClass = ClientClass | ServerClass | UnexpectedClass

datatype JournalReasonCode =
    AuthKeyInvalid | AuthRequired | ContentConflict | FeatureUnavailable | IngestContractInvalid
  | IngestNoFiles | IngestSidecarConflict | IngestStorageFailed | InvalidDay
  | InvalidSegmentOrStream | LocalRequestOnly | MissingRequiredField | LinkedDeviceRequired
  | PlRevoked | ProtocolVersionFuture | ProtocolVersionLegacy | SegmentRemoved
  | SettingsOperationFailed

fun wire_str :: "JournalReasonCode \<Rightarrow> string" where
  "wire_str AuthKeyInvalid = ''auth_key_invalid''"
| "wire_str AuthRequired = ''auth_required''"
| "wire_str ContentConflict = ''content_conflict''"
| "wire_str FeatureUnavailable = ''feature_unavailable''"
| "wire_str IngestContractInvalid = ''ingest_contract_invalid''"
| "wire_str IngestNoFiles = ''ingest_no_files''"
| "wire_str IngestSidecarConflict = ''ingest_sidecar_conflict''"
| "wire_str IngestStorageFailed = ''ingest_storage_failed''"
| "wire_str InvalidDay = ''invalid_day''"
| "wire_str InvalidSegmentOrStream = ''invalid_segment_or_stream''"
| "wire_str LocalRequestOnly = ''local_request_only''"
| "wire_str MissingRequiredField = ''missing_required_field''"
| "wire_str LinkedDeviceRequired = ''linked_device_required''"
| "wire_str PlRevoked = ''pl_revoked''"
| "wire_str ProtocolVersionFuture = ''protocol_version_future''"
| "wire_str ProtocolVersionLegacy = ''protocol_version_legacy''"
| "wire_str SegmentRemoved = ''segment_removed''"
| "wire_str SettingsOperationFailed = ''settings_operation_failed''"

definition parse_reason :: "string \<Rightarrow> JournalReasonCode option" where
  "parse_reason v =
     (if v = ''auth_key_invalid'' then Some AuthKeyInvalid
      else if v = ''auth_required'' then Some AuthRequired
      else if v = ''content_conflict'' then Some ContentConflict
      else if v = ''feature_unavailable'' then Some FeatureUnavailable
      else if v = ''ingest_contract_invalid'' then Some IngestContractInvalid
      else if v = ''ingest_no_files'' then Some IngestNoFiles
      else if v = ''ingest_sidecar_conflict'' then Some IngestSidecarConflict
      else if v = ''ingest_storage_failed'' then Some IngestStorageFailed
      else if v = ''invalid_day'' then Some InvalidDay
      else if v = ''invalid_segment_or_stream'' then Some InvalidSegmentOrStream
      else if v = ''local_request_only'' then Some LocalRequestOnly
      else if v = ''missing_required_field'' then Some MissingRequiredField
      else if v = ''linked_device_required'' then Some LinkedDeviceRequired
      else if v = ''pl_revoked'' then Some PlRevoked
      else if v = ''protocol_version_future'' then Some ProtocolVersionFuture
      else if v = ''protocol_version_legacy'' then Some ProtocolVersionLegacy
      else if v = ''segment_removed'' then Some SegmentRemoved
      else if v = ''settings_operation_failed'' then Some SettingsOperationFailed
      else None)"

record JournalError =
  je_diagnostic :: DiagnosticCode
  je_status_class :: "JournalStatusClass option"
  je_reason_code :: "JournalReasonCode option"
  je_http_status :: "nat option"

definition local_error :: "DiagnosticCode \<Rightarrow> JournalError" where
  "local_error d = \<lparr>je_diagnostic = d, je_status_class = None, je_reason_code = None, je_http_status = None\<rparr>"

datatype UploadStatus = UpOk | UpDuplicate | UpCollision | UpConflict | UpFailed

datatype ReceiptFault =
    DescriptorsAbsent | MalformedDescriptor | DuplicateSubmitted | MissingDescriptor
  | ExtraDescriptor | Sha256Mismatch | Sha256Encoding | SizeMismatch | UnknownDisposition
  | MissingDisposition | ReceivedNotWritten | UploadNotAcknowledged

fun fault_name :: "ReceiptFault \<Rightarrow> string" where
  "fault_name DescriptorsAbsent = ''descriptors_absent''"
| "fault_name MalformedDescriptor = ''malformed_descriptor''"
| "fault_name DuplicateSubmitted = ''duplicate_submitted''"
| "fault_name MissingDescriptor = ''missing_descriptor''"
| "fault_name ExtraDescriptor = ''extra_descriptor''"
| "fault_name Sha256Mismatch = ''sha256_mismatch''"
| "fault_name Sha256Encoding = ''sha256_encoding''"
| "fault_name SizeMismatch = ''size_mismatch''"
| "fault_name UnknownDisposition = ''unknown_disposition''"
| "fault_name MissingDisposition = ''missing_disposition''"
| "fault_name ReceivedNotWritten = ''received_not_written''"
| "fault_name UploadNotAcknowledged = ''upload_not_acknowledged''"

record AcknowledgedFile =
  ak_submitted :: string
  ak_written :: string
  ak_size :: nat
  ak_sha256 :: string
  ak_disposition :: string

datatype Receipt = Absent | Invalid ReceiptFault | Valid "AcknowledgedFile list"

record ParsedDescriptor =
  pd_submitted :: string
  pd_written :: string
  pd_size :: nat
  pd_sha256 :: string
  pd_disposition :: string

record UploadResult =
  ur_status :: UploadStatus
  ur_authoritative_key :: "string option"
  ur_descriptors :: "(ReceiptFault + ParsedDescriptor list) option"

record LocalFile =
  lf_name :: string
  lf_size :: nat
  lf_sha256 :: string

subsection \<open>Reading an answer\<close>

text \<open>A \<open>serde_json::Value\<close>: \<open>JU64\<close> are the numbers \<open>as_u64\<close> accepts, \<open>JNumber\<close> the others.\<close>

datatype json = JNull | JBool bool | JU64 nat | JNumber string | JStr string | JArray "json list"
  | JObject "(string \<times> json) list"

fun as_str_json :: "json \<Rightarrow> string option" where
  "as_str_json (JStr s) = Some s"
| "as_str_json _ = None"

fun as_u64 :: "json \<Rightarrow> nat option" where
  "as_u64 (JU64 n) = Some n"
| "as_u64 _ = None"

record UploadResponse =
  up_status :: UploadStatus
  up_segment :: "string option"
  up_existing_segment :: "string option"
  up_file_descriptors :: "json option"

definition field_str :: "(string \<times> json) list \<Rightarrow> string \<Rightarrow> ReceiptFault + string" where
  "field_str obj k =
     (case Option.bind (map_of obj k) as_str_json of None \<Rightarrow> Inl MalformedDescriptor | Some s \<Rightarrow> Inr s)"

definition field_u64 :: "(string \<times> json) list \<Rightarrow> string \<Rightarrow> ReceiptFault + nat" where
  "field_u64 obj k =
     (case Option.bind (map_of obj k) as_u64 of None \<Rightarrow> Inl MalformedDescriptor | Some n \<Rightarrow> Inr n)"

text \<open>\<open>Result::and_then\<close>, the \<open>?\<close> operator without state\<close>

definition andR :: "'e + 'a \<Rightarrow> ('a \<Rightarrow> 'e + 'b) \<Rightarrow> 'e + 'b" where
  "andR m f = (case m of Inl e \<Rightarrow> Inl e | Inr x \<Rightarrow> f x)"

definition parse_disposition :: "(string \<times> json) list \<Rightarrow> ReceiptFault + string" where
  "parse_disposition obj =
     (case map_of obj ''disposition'' of
        None \<Rightarrow> Inl MissingDisposition
      | Some v \<Rightarrow>
          (case as_str_json v of
             None \<Rightarrow> Inl MalformedDescriptor
           | Some d \<Rightarrow>
               if d \<noteq> ''written'' \<and> d \<noteq> ''already_held'' \<and> d \<noteq> ''received_not_written''
               then Inl UnknownDisposition else Inr d))"

definition parse_descriptor :: "json \<Rightarrow> ReceiptFault + ParsedDescriptor" where
  "parse_descriptor item =
     (case item of
        JObject obj \<Rightarrow>
          andR (field_str obj ''submitted'') (\<lambda>submitted.
          andR (field_str obj ''written'') (\<lambda>written.
          andR (field_u64 obj ''size'') (\<lambda>size.
          andR (field_str obj ''sha256'') (\<lambda>sha.
          if length sha \<noteq> 64 \<or> \<not> list_all is_hexdigit sha then Inl MalformedDescriptor
          else if list_ex is_upper sha then Inl Sha256Encoding
          else
            andR (parse_disposition obj) (\<lambda>disposition.
            Inr \<lparr>pd_submitted = submitted, pd_written = written, pd_size = size, pd_sha256 = sha,
                 pd_disposition = disposition\<rparr>)))))
      | _ \<Rightarrow> Inl MalformedDescriptor)"

fun parse_descriptors :: "json list \<Rightarrow> ReceiptFault + ParsedDescriptor list" where
  "parse_descriptors [] = Inr []"
| "parse_descriptors (item # items) =
     andR (parse_descriptor item) (\<lambda>d. andR (parse_descriptors items) (\<lambda>ds. Inr (d # ds)))"

definition parse_descriptor_shape :: "json \<Rightarrow> ReceiptFault + ParsedDescriptor list" where
  "parse_descriptor_shape v =
     (case v of JArray items \<Rightarrow> parse_descriptors items | _ \<Rightarrow> Inl MalformedDescriptor)"

definition valid_day :: "string \<Rightarrow> bool" where
  "valid_day d \<longleftrightarrow> length d = 8 \<and> list_all is_digit d"

definition valid_component :: "string \<Rightarrow> bool" where
  "valid_component v \<longleftrightarrow> (case derive_component v of Inl _ \<Rightarrow> False | Inr d \<Rightarrow> as_str d = v)"

definition required_key :: "string option \<Rightarrow> JournalError + string option" where
  "required_key v =
     (case v of
        Some k \<Rightarrow> if valid_component k then Inr (Some k) else Inl (local_error JournalContractInvalid)
      | None \<Rightarrow> Inl (local_error JournalContractInvalid))"

definition decode_upload_response ::
  "(bytes \<Rightarrow> UploadResponse option) \<Rightarrow> bytes \<Rightarrow> JournalError + UploadResult" where
  "decode_upload_response unjson body =
     (case unjson body of
        None \<Rightarrow> Inl (local_error JournalContractInvalid)
      | Some r \<Rightarrow>
          andR (case up_status r of
                  UpOk \<Rightarrow> required_key (up_segment r)
                | UpCollision \<Rightarrow> required_key (up_segment r)
                | UpDuplicate \<Rightarrow> required_key (up_existing_segment r)
                | UpConflict \<Rightarrow> Inr None
                | UpFailed \<Rightarrow> Inr None) (\<lambda>key.
          Inr \<lparr>ur_status = up_status r, ur_authoritative_key = key,
               ur_descriptors =
                 (case up_file_descriptors r of
                    None \<Rightarrow> None
                  | Some v \<Rightarrow> if v = JNull then None else Some (parse_descriptor_shape v))\<rparr>))"

text \<open>\<open>decode_system_status_response\<close>: \<open>unjson\<close> yields \<open>ok\<close> and \<open>version.current\<close>.\<close>

definition decode_system_status_response ::
  "(bytes \<Rightarrow> (bool \<times> string option) option) \<Rightarrow> bytes \<Rightarrow> JournalError + string option" where
  "decode_system_status_response unjson body =
     (case unjson body of
        None \<Rightarrow> Inl (local_error JournalContractInvalid)
      | Some (ok, current) \<Rightarrow>
          if \<not> ok then Inl (local_error JournalContractInvalid)
          else Inr (case current of Some c \<Rightarrow> if c = [] then None else Some c | None \<Rightarrow> None))"

text \<open>\<open>unjson\<close> yields \<open>reason_code\<close> of a well-formed error document.\<close>

definition classify_error_response :: "(bytes \<Rightarrow> string option) \<Rightarrow> nat \<Rightarrow> bytes \<Rightarrow> JournalError" where
  "classify_error_response unjson status body =
     (let status_class = (if 400 \<le> status \<and> status \<le> 499 then ClientClass
                          else if 500 \<le> status \<and> status \<le> 599 then ServerClass else UnexpectedClass);
          reason = Option.bind (unjson body) parse_reason in
      \<lparr>je_diagnostic = (if reason = None \<and> status_class = ServerClass then JournalUnavailable else JournalRejected),
       je_status_class = Some status_class, je_reason_code = reason, je_http_status = Some status\<rparr>)"

subsection \<open>Believing a receipt\<close>

text \<open>The checks of \<open>assess_receipt\<close> in their order. A \<open>HashMap\<close> collected from a list keeps the
  last entry of a name, hence the reversed lookup.\<close>

definition local_by_name :: "LocalFile list \<Rightarrow> string \<Rightarrow> LocalFile option" where
  "local_by_name files n = map_of (rev (map (\<lambda>f. (lf_name f, f)) files)) n"

fun check_digests :: "LocalFile list \<Rightarrow> ParsedDescriptor list \<Rightarrow> ReceiptFault + AcknowledgedFile list" where
  "check_digests files [] = Inr []"
| "check_digests files (d # ds) =
     (case local_by_name files (pd_submitted d) of
        None \<Rightarrow> Inl ExtraDescriptor
      | Some f \<Rightarrow>
          if pd_size d \<noteq> lf_size f then Inl SizeMismatch
          else if pd_sha256 d \<noteq> lf_sha256 f then Inl Sha256Mismatch
          else andR (check_digests files ds) (\<lambda>as.
            Inr (\<lparr>ak_submitted = pd_submitted d, ak_written = pd_written d, ak_size = pd_size d,
                  ak_sha256 = pd_sha256 d, ak_disposition = pd_disposition d\<rparr> # as)))"

definition assess_descriptors :: "ParsedDescriptor list \<Rightarrow> LocalFile list \<Rightarrow> Receipt" where
  "assess_descriptors ds files =
     (if \<not> distinct (map pd_submitted ds) then Invalid DuplicateSubmitted
      else if list_ex (\<lambda>d. pd_disposition d = ''received_not_written'') ds then Invalid ReceivedNotWritten
      else if length ds > length files then Invalid ExtraDescriptor
      else if length ds < length files then Invalid MissingDescriptor
      else if list_ex (\<lambda>d. local_by_name files (pd_submitted d) = None) ds then Invalid ExtraDescriptor
      else if list_ex (\<lambda>f. lf_name f \<notin> set (map pd_submitted ds)) files then Invalid MissingDescriptor
      else (case check_digests files ds of Inl fault \<Rightarrow> Invalid fault | Inr as \<Rightarrow> Valid as))"

definition assess_receipt :: "UploadResult \<Rightarrow> LocalFile list \<Rightarrow> Receipt" where
  "assess_receipt r files =
     (if ur_status r = UpConflict \<or> ur_status r = UpFailed then Invalid UploadNotAcknowledged
      else (case ur_descriptors r of
              None \<Rightarrow> Absent
            | Some (Inl fault) \<Rightarrow> Invalid fault
            | Some (Inr ds) \<Rightarrow> assess_descriptors ds files))"

subsection \<open>Requests\<close>

text \<open>A \<open>Url\<close>, as far as the confinement check looks at it.\<close>

record Url =
  u_scheme :: string
  u_host :: "string option"
  u_port :: "nat option"
  u_path :: string
  u_query :: "string option"
  u_fragment :: "string option"

definition confine_path :: "(string \<Rightarrow> Url option) \<Rightarrow> Url \<Rightarrow> string \<Rightarrow> DiagnosticCode + Url" where
  "confine_path join origin path =
     (if \<not> starts_with ''/'' path \<or> starts_with ''//'' path
         \<or> list_ex (\<lambda>c. c \<in> {CHR ''?'', CHR ''#'', CHR 0x5C, CR, LF}) path
      then Inl JournalContractInvalid
      else
        (case join path of
           None \<Rightarrow> Inl JournalContractInvalid
         | Some url \<Rightarrow>
             if u_scheme url \<noteq> u_scheme origin \<or> u_host url \<noteq> u_host origin \<or> u_port url \<noteq> u_port origin
                \<or> u_query url \<noteq> None \<or> u_fragment url \<noteq> None
             then Inl JournalContractInvalid else Inr url))"

datatype http_failure = HttpTimeout | HttpFailure

record http_response =
  rs_status :: nat
  rs_content_length :: "nat option"
  rs_length_header :: "string option"
  rs_chunks :: "(http_failure + bytes) list"

datatype http_body = NoBody | JsonBody bytes | Multipart bytes "(string \<times> nat \<times> bytes) list"

record http_request =
  rq_method :: string
  rq_url :: Url
  rq_source :: "string option"
  rq_body :: http_body

type_synonym http = "http_request \<Rightarrow> http_failure + http_response"

fun request_diagnostic :: "http_failure \<Rightarrow> DiagnosticCode \<Rightarrow> DiagnosticCode" where
  "request_diagnostic HttpTimeout fallback = JournalTimeout"
| "request_diagnostic HttpFailure fallback = fallback"

definition declared_length :: "http_response \<Rightarrow> nat option" where
  "declared_length r =
     (case rs_content_length r of
        Some n \<Rightarrow> Some n
      | None \<Rightarrow> Option.bind (rs_length_header r) (parse_unsigned u64_max))"

fun collect_chunks :: "nat \<Rightarrow> bytes \<Rightarrow> (http_failure + bytes) list \<Rightarrow> JournalError + bytes" where
  "collect_chunks maxb body [] = Inr body"
| "collect_chunks maxb body (Inl f # _) = Inl (local_error (request_diagnostic f JournalUnavailable))"
| "collect_chunks maxb body (Inr c # cs) =
     (case checked_add_u64 (length body) (length c) of
        None \<Rightarrow> Inl (local_error JournalResponseTooLarge)
      | Some n \<Rightarrow>
          if n > maxb then Inl (local_error JournalResponseTooLarge)
          else collect_chunks maxb (body @ c) cs)"

definition collect_response_body_limited :: "http_response \<Rightarrow> nat \<Rightarrow> JournalError + bytes" where
  "collect_response_body_limited r maxb =
     (if is_some_and (declared_length r) (\<lambda>n. n > maxb) then Inl (local_error JournalResponseTooLarge)
      else collect_chunks maxb [] (rs_chunks r))"

text \<open>One request: confined URL, transport errors by cause, the answer's head.\<close>

definition send_request ::
  "(string \<Rightarrow> Url option) \<Rightarrow> Url \<Rightarrow> http \<Rightarrow> string \<Rightarrow> string \<Rightarrow> http_body \<Rightarrow> JournalError + http_response" where
  "send_request join origin http verb path body =
     (case confine_path join origin path of
        Inl d \<Rightarrow> Inl (local_error d)
      | Inr url \<Rightarrow>
          (case http \<lparr>rq_method = verb, rq_url = url, rq_source = None, rq_body = body\<rparr> of
             Inl f \<Rightarrow> Inl (local_error (request_diagnostic f JournalUnavailable))
           | Inr r \<Rightarrow> Inr r))"

definition system_status_with_limits ::
  "(string \<Rightarrow> Url option) \<Rightarrow> Url \<Rightarrow> http \<Rightarrow> (bytes \<Rightarrow> string option) \<Rightarrow> (bytes \<Rightarrow> (bool \<times> string option) option)
   \<Rightarrow> nat \<Rightarrow> JournalError + string option" where
  "system_status_with_limits join origin http unerror unstatus max_bytes =
     andR (send_request join origin http ''GET'' SYSTEM_STATUS_PATH NoBody) (\<lambda>r.
     andR (collect_response_body_limited r max_bytes) (\<lambda>body.
     if rs_status r \<noteq> 200 then Inl (classify_error_response unerror (rs_status r) body)
     else decode_system_status_response unstatus body))"

definition system_status where
  "system_status join origin http unerror unstatus =
     system_status_with_limits join origin http unerror unstatus MAX_RESPONSE_BODY_BYTES"

definition optional_system_status where
  "optional_system_status join origin http unerror unstatus =
     system_status_with_limits join origin http unerror unstatus OPTIONAL_RESPONSE_BODY_BYTES"

text \<open>The status and body of an optional document, whatever the status.\<close>

definition fetch_optional ::
  "(string \<Rightarrow> Url option) \<Rightarrow> Url \<Rightarrow> http \<Rightarrow> string \<Rightarrow> string \<Rightarrow> http_body \<Rightarrow> JournalError + nat \<times> bytes" where
  "fetch_optional join origin http verb path body =
     andR (send_request join origin http verb path body) (\<lambda>r.
     andR (collect_response_body_limited r OPTIONAL_RESPONSE_BODY_BYTES) (\<lambda>b. Inr (rs_status r, b)))"

definition get_clients_self where
  "get_clients_self join origin http = fetch_optional join origin http ''GET'' CLIENTS_SELF_PATH NoBody"

definition put_clients_self where
  "put_clients_self join origin http body =
     fetch_optional join origin http ''PUT'' CLIENTS_SELF_PATH (JsonBody body)"

definition get_relay_access where
  "get_relay_access join origin http = fetch_optional join origin http ''GET'' RELAY_ACCESS_PATH NoBody"

definition get_local_endpoints where
  "get_local_endpoints join origin http = fetch_optional join origin http ''GET'' LOCAL_ENDPOINTS_PATH NoBody"

definition get_about ::
  "(string \<Rightarrow> Url option) \<Rightarrow> Url \<Rightarrow> http \<Rightarrow> (bytes \<Rightarrow> 'about option) \<Rightarrow> JournalError + 'about option" where
  "get_about join origin http decode =
     andR (send_request join origin http ''GET'' ''/api/system/about'' NoBody) (\<lambda>r.
     if rs_status r \<noteq> 200 then Inr None
     else andR (collect_response_body_limited r OPTIONAL_RESPONSE_BODY_BYTES) (\<lambda>b. Inr (decode b)))"

subsection \<open>Preparing files\<close>

record PreparedFile =
  pf_descriptor :: LocalFile
  pf_file :: nat

definition segment_invalid :: JournalError where
  "segment_invalid = local_error LocalSegmentInvalid"

definition seg_io :: "('e, 'a) io \<Rightarrow> (JournalError, 'a) io" where
  "seg_io m = map_errE (\<lambda>_. segment_invalid) m"

definition stream_sha256_hex :: "(bytes \<Rightarrow> string) \<Rightarrow> nat \<Rightarrow> (io_error, string) io" where
  "stream_sha256_hex sha i = bindE fs_seek (\<lambda>_. bindE (fs_read_fd i) (\<lambda>b. returnE (sha b)))"

definition prepare_file :: "(bytes \<Rightarrow> string) \<Rightarrow> path \<Rightarrow> (JournalError, PreparedFile) io" where
  "prepare_file sha path =
     (if path = [] \<or> last path = ''..'' \<or> \<not> valid_utf8 (last path) then throwE segment_invalid
      else
        let parent = butlast path; name = last path in
        (case derive_component name of
           Inl _ \<Rightarrow> throwE segment_invalid
         | Inr d \<Rightarrow>
             if as_str d \<noteq> name \<or> join_checked d parent \<noteq> Inr path then throwE segment_invalid
             else
               bindE (seg_io (open_regular_readonly path)) (\<lambda>i.
               bindE (seg_io (fs_len i)) (\<lambda>size.
               bindE (seg_io (stream_sha256_hex sha i)) (\<lambda>digest.
               bindE (seg_io fs_seek) (\<lambda>_.
               returnE \<lparr>pf_descriptor = \<lparr>lf_name = name, lf_size = size, lf_sha256 = digest\<rparr>, pf_file = i\<rparr>))))))"

fun prepare_all :: "(bytes \<Rightarrow> string) \<Rightarrow> path list \<Rightarrow> (JournalError, PreparedFile list) io" where
  "prepare_all sha [] = returnE []"
| "prepare_all sha (p # ps) =
     bindE (prepare_file sha p) (\<lambda>f. bindE (prepare_all sha ps) (\<lambda>fs. returnE (f # fs)))"

definition prepare_files :: "(bytes \<Rightarrow> string) \<Rightarrow> path list \<Rightarrow> (JournalError, PreparedFile list) io" where
  "prepare_files sha paths = (if paths = [] then throwE segment_invalid else prepare_all sha paths)"

definition inventory_files :: "(bytes \<Rightarrow> string) \<Rightarrow> path list \<Rightarrow> (JournalError, LocalFile list) io" where
  "inventory_files sha paths =
     bindE (prepare_files sha paths) (\<lambda>fs. returnE (map pf_descriptor fs))"

subsection \<open>Uploading\<close>

record UploadEnvelope =
  ue_day :: string
  ue_segment :: string
  ue_source :: string
  ue_files :: "string list"
  ue_meta :: "CaptureTime option"

text \<open>The headers of a built multipart request: \<open>Transfer-Encoding\<close> present, and each
  \<open>Content-Length\<close> that is visible ASCII.\<close>

record built_headers =
  bh_transfer_encoding :: bool
  bh_content_length :: "string option list"

definition validate_multipart_request :: "built_headers \<Rightarrow> JournalError + nat" where
  "validate_multipart_request h =
     (if bh_transfer_encoding h then Inl (local_error JournalContractInvalid)
      else (case bh_content_length h of
              [] \<Rightarrow> Inl (local_error JournalContractInvalid)
            | v # vs \<Rightarrow>
                (case Option.bind v (parse_unsigned u64_max) of
                   None \<Rightarrow> Inl (local_error JournalContractInvalid)
                 | Some n \<Rightarrow>
                     if vs \<noteq> [] then Inl (local_error JournalContractInvalid)
                     else if n > MAX_REQUEST_BODY_BYTES then Inl (local_error RequestTooLarge)
                     else Inr n)))"

definition plan_upload ::
  "(UploadEnvelope \<Rightarrow> bytes option) \<Rightarrow> string \<Rightarrow> string \<Rightarrow> string \<Rightarrow> CaptureTime option \<Rightarrow> LocalFile list
   \<Rightarrow> JournalError + bytes" where
  "plan_upload json day segment source meta files =
     (if list_ex (\<lambda>f. lf_size f > MAX_MULTIPART_PART_BYTES) files then Inl (local_error RequestTooLarge)
      else (case json \<lparr>ue_day = day, ue_segment = segment, ue_source = source, ue_files = map lf_name files,
                        ue_meta = meta\<rparr> of
              None \<Rightarrow> Inl (local_error JournalContractInvalid)
            | Some b \<Rightarrow> if length b > MAX_MULTIPART_PART_BYTES then Inl (local_error RequestTooLarge) else Inr b))"

text \<open>The bytes the producers stream (theory \<open>Upload\<close>), read while the request is sent; a file
  that cannot be read ends its part early.\<close>

fun stream_files :: "PreparedFile list \<Rightarrow> (JournalError, (string \<times> nat \<times> bytes) list) io" where
  "stream_files [] = returnE []"
| "stream_files (f # fs) =
     tryE (fs_read_fd (pf_file f)) (\<lambda>r.
       bindE (stream_files fs) (\<lambda>parts.
       returnE ((lf_name (pf_descriptor f), lf_size (pf_descriptor f), case r of Inr b \<Rightarrow> b | Inl _ \<Rightarrow> []) # parts)))"

definition finish_upload ::
  "(bytes \<Rightarrow> string option) \<Rightarrow> (bytes \<Rightarrow> UploadResponse option) \<Rightarrow> http_response \<Rightarrow> JournalError + UploadResult" where
  "finish_upload unerror unupload r =
     andR (collect_response_body_limited r MAX_RESPONSE_BODY_BYTES) (\<lambda>body.
     if rs_status r \<noteq> 200 then Inl (classify_error_response unerror (rs_status r) body)
     else decode_upload_response unupload body)"

definition ofR :: "'e + 'a \<Rightarrow> ('e, 'a) io" where
  "ofR r = (case r of Inl e \<Rightarrow> throwE e | Inr x \<Rightarrow> returnE x)"

definition ingest_upload ::
  "(string \<Rightarrow> Url option) \<Rightarrow> Url \<Rightarrow> http \<Rightarrow> (bytes \<Rightarrow> string) \<Rightarrow> (UploadEnvelope \<Rightarrow> bytes option)
   \<Rightarrow> (Url \<Rightarrow> bytes \<Rightarrow> LocalFile list \<Rightarrow> built_headers option) \<Rightarrow> (bytes \<Rightarrow> string option)
   \<Rightarrow> (bytes \<Rightarrow> UploadResponse option) \<Rightarrow> string \<Rightarrow> string \<Rightarrow> path list \<Rightarrow> string \<Rightarrow> CaptureTime option
   \<Rightarrow> (JournalError, UploadResult) io" where
  "ingest_upload join origin http sha json build unerror unupload day segment paths source meta =
     (if \<not> valid_day day \<or> \<not> valid_component segment \<or> paths = [] then throwE segment_invalid
      else
        bindE (prepare_files sha paths) (\<lambda>prepared.
        let files = map pf_descriptor prepared in
        bindE (ofR (plan_upload json day segment source meta files)) (\<lambda>envelope.
        bindE (ofR (case confine_path join origin INGEST_PATH of Inl d \<Rightarrow> Inl (local_error d) | Inr u \<Rightarrow> Inr u)) (\<lambda>url.
        bindE (ofR (case build url envelope files of None \<Rightarrow> Inl segment_invalid | Some h \<Rightarrow> Inr h)) (\<lambda>headers.
        bindE (ofR (validate_multipart_request headers)) (\<lambda>_.
        bindE (stream_files prepared) (\<lambda>parts.
        ofR (case http \<lparr>rq_method = ''POST'', rq_url = url, rq_source = Some source, rq_body = Multipart envelope parts\<rparr> of
               Inl f \<Rightarrow> Inl (local_error (request_diagnostic f JournalUnavailable))
             | Inr r \<Rightarrow> finish_upload unerror unupload r))))))))"

subsection \<open>Reasons\<close>

lemma parse_reason_iff: "parse_reason v = Some c \<longleftrightarrow> v = wire_str c"
  by (cases c) (auto simp: parse_reason_def)

subsection \<open>Receipts\<close>

definition ack_of :: "ParsedDescriptor \<Rightarrow> AcknowledgedFile" where
  "ack_of d = \<lparr>ak_submitted = pd_submitted d, ak_written = pd_written d, ak_size = pd_size d,
     ak_sha256 = pd_sha256 d, ak_disposition = pd_disposition d\<rparr>"

text \<open>What a descriptor claims of a file, and what the file is.\<close>

definition claim_of :: "ParsedDescriptor \<Rightarrow> string \<times> nat \<times> string" where
  "claim_of d = (pd_submitted d, pd_size d, pd_sha256 d)"

definition fact_of :: "LocalFile \<Rightarrow> string \<times> nat \<times> string" where
  "fact_of f = (lf_name f, lf_size f, lf_sha256 f)"

lemma local_by_name_iff:
  assumes "distinct (map lf_name files)"
  shows "local_by_name files n = Some f \<longleftrightarrow> f \<in> set files \<and> lf_name f = n"
proof -
  have "distinct (map fst (rev (map (\<lambda>f. (lf_name f, f)) files)))"
    using assms by (simp add: rev_map [symmetric] comp_def)
  from map_of_eq_Some_iff [OF this] show ?thesis by (auto simp: local_by_name_def)
qed

lemma check_digests_iff:
  assumes "distinct (map lf_name files)"
  shows "check_digests files ds = Inr as
    \<longleftrightarrow> as = map ack_of ds \<and> (\<forall>d \<in> set ds. claim_of d \<in> fact_of ` set files)"
proof (induction ds arbitrary: as)
  case (Cons d ds)
  have "claim_of d \<in> fact_of ` set files
      \<longleftrightarrow> (\<exists>f. local_by_name files (pd_submitted d) = Some f \<and> pd_size d = lf_size f \<and> pd_sha256 d = lf_sha256 f)"
    using local_by_name_iff [OF assms] unfolding claim_of_def fact_of_def image_iff by (metis prod.inject)
  then show ?case
    using Cons.IH by (auto simp: andR_def ack_of_def split: option.splits sum.splits)
qed auto

lemma claims_match:
  assumes "distinct (map lf_name files)"
  shows "mset (map claim_of ds) = mset (map fact_of files) \<longleftrightarrow>
    distinct (map pd_submitted ds) \<and> length ds = length files \<and> (\<forall>d \<in> set ds. claim_of d \<in> fact_of ` set files)"
    (is "?eq \<longleftrightarrow> ?dist \<and> ?len \<and> ?sub")
proof
  have names: "map pd_submitted ds = map fst (map claim_of ds)" "map lf_name files = map fst (map fact_of files)"
    by (simp_all add: claim_of_def fact_of_def comp_def)
  { assume eq: ?eq
    then have "mset (map fst (map claim_of ds)) = mset (map fst (map fact_of files))" by (metis mset_map)
    with names assms have ?dist by (metis mset_eq_imp_distinct_iff)
    moreover have ?len using eq by (metis length_map mset_eq_length)
    moreover have "set (map claim_of ds) = set (map fact_of files)" using eq by (rule mset_eq_setD)
    ultimately show "?dist \<and> ?len \<and> ?sub" by auto }
  assume r: "?dist \<and> ?len \<and> ?sub"
  then have d: "distinct (map claim_of ds)" "distinct (map fact_of files)"
    using assms names by (metis distinct_map)+
  have "set (map claim_of ds) \<subseteq> set (map fact_of files)" using r by auto
  moreover have "card (set (map claim_of ds)) = card (set (map fact_of files))"
    using r d by (simp only: distinct_card length_map)
  ultimately have "set (map claim_of ds) = set (map fact_of files)" by (intro card_subset_eq) auto
  then show ?eq using set_eq_iff_mset_eq_distinct [OF d] by blast
qed

lemma assess_descriptors_iff:
  assumes "distinct (map lf_name files)"
  shows "assess_descriptors ds files = Valid as \<longleftrightarrow>
    as = map ack_of ds \<and> (\<forall>d \<in> set ds. pd_disposition d \<noteq> ''received_not_written'')
    \<and> mset (map claim_of ds) = mset (map fact_of files)"
proof -
  have known: "local_by_name files (pd_submitted d) \<noteq> None" if "claim_of d \<in> fact_of ` set files" for d
    using that local_by_name_iff [OF assms] by (auto simp: claim_of_def fact_of_def)
  have named: "lf_name f \<in> set (map pd_submitted ds)"
    if "mset (map claim_of ds) = mset (map fact_of files)" "f \<in> set files" for f
  proof -
    have "fact_of f \<in> set (map claim_of ds)" using mset_eq_setD [OF that(1)] that(2) by auto
    then show ?thesis by (auto simp: claim_of_def fact_of_def)
  qed
  show ?thesis
  proof
    assume v: "assess_descriptors ds files = Valid as"
    then have c: "distinct (map pd_submitted ds)" "\<not> list_ex (\<lambda>d. pd_disposition d = ''received_not_written'') ds"
      "length ds = length files" "check_digests files ds = Inr as"
      by (simp_all add: assess_descriptors_def split: if_splits sum.splits)
    with check_digests_iff [OF assms, of ds as] claims_match [OF assms, of ds]
    show "as = map ack_of ds \<and> (\<forall>d \<in> set ds. pd_disposition d \<noteq> ''received_not_written'')
        \<and> mset (map claim_of ds) = mset (map fact_of files)"
      by (auto simp: list_ex_iff)
  next
    assume c: "as = map ack_of ds \<and> (\<forall>d \<in> set ds. pd_disposition d \<noteq> ''received_not_written'')
        \<and> mset (map claim_of ds) = mset (map fact_of files)"
    then have m: "distinct (map pd_submitted ds)" "length ds = length files"
      "\<forall>d \<in> set ds. claim_of d \<in> fact_of ` set files"
      using claims_match [OF assms, of ds] by blast+
    have "\<not> list_ex (\<lambda>d. local_by_name files (pd_submitted d) = None) ds"
      "\<not> list_ex (\<lambda>f. lf_name f \<notin> set (map pd_submitted ds)) files"
      "\<not> list_ex (\<lambda>d. pd_disposition d = ''received_not_written'') ds"
      using known named c m(3) unfolding list_ex_iff by blast+
    moreover have "check_digests files ds = Inr as"
      using check_digests_iff [OF assms, of ds as] c m(3) by blast
    ultimately show "assess_descriptors ds files = Valid as"
      using m(1,2) by (simp add: assess_descriptors_def)
  qed
qed

text \<open>
  C20. When a receipt is believed: for files of different names, the receipt is valid exactly if
  the journal reports success and its descriptors, in whatever order, claim precisely the local
  files with their sizes and digests, none of them as received but not written.
\<close>

theorem receipt_valid_iff:
  assumes "distinct (map lf_name files)"
  shows "assess_receipt r files = Valid as \<longleftrightarrow>
    (\<exists>ds. ur_status r \<in> {UpOk, UpDuplicate, UpCollision} \<and> ur_descriptors r = Some (Inr ds)
      \<and> as = map ack_of ds \<and> (\<forall>d \<in> set ds. pd_disposition d \<noteq> ''received_not_written'')
      \<and> mset (map claim_of ds) = mset (map fact_of files))"
  using assess_descriptors_iff [OF assms, of _ as]
  by (cases "ur_status r") (auto simp: assess_receipt_def split: option.splits sum.splits)

definition sample_descriptor :: ParsedDescriptor where
  "sample_descriptor = \<lparr>pd_submitted = ''a.jsonl'', pd_written = ''b.jsonl'', pd_size = 3,
     pd_sha256 = replicate 64 (CHR ''0''), pd_disposition = ''written''\<rparr>"

definition sample_file :: LocalFile where
  "sample_file = \<lparr>lf_name = ''a.jsonl'', lf_size = 3, lf_sha256 = replicate 64 (CHR ''0'')\<rparr>"

definition sample_result :: UploadResult where
  "sample_result = \<lparr>ur_status = UpOk, ur_authoritative_key = Some ''k'',
     ur_descriptors = Some (Inr [sample_descriptor])\<rparr>"

theorem receipt_valid_iff_witness:
  "assess_receipt sample_result [sample_file] = Valid [ack_of sample_descriptor]"
proof -
  have "distinct (map lf_name [sample_file])" by simp
  from receipt_valid_iff [OF this] show ?thesis
    by (simp add: sample_result_def claim_of_def fact_of_def sample_descriptor_def sample_file_def)
qed

lemma lower_hexdigit: "is_hexdigit c \<Longrightarrow> \<not> is_upper c \<Longrightarrow> is_lower_hex c"
  by (auto simp: byte_simps)

lemma parse_descriptor_sound:
  "parse_descriptor item = Inr d \<Longrightarrow> length (pd_sha256 d) = 64 \<and> list_all is_lower_hex (pd_sha256 d)
    \<and> pd_disposition d \<in> {''written'', ''already_held'', ''received_not_written''}"
  by (auto simp: parse_descriptor_def parse_disposition_def andR_def list_all_iff list_ex_iff lower_hexdigit
      split: json.splits sum.splits if_splits option.splits)

lemma parse_descriptors_sound: "parse_descriptors items = Inr ds \<Longrightarrow> d \<in> set ds \<Longrightarrow> \<exists>i. parse_descriptor i = Inr d"
  by (induction items arbitrary: ds) (auto simp: andR_def split: sum.splits)

lemma exact_name:
  assumes "derive_component s = Inr d" "as_str d = s"
  shows "canonical s \<and> s \<noteq> [] \<and> length s \<le> MAX_COMPONENT_BYTES"
  using assms exact_component_iff [of s d] by (auto simp: exact_component_def)

text \<open>
  C21. What a decoded answer can contain: every descriptor has a digest of 64 lower-case
  hexadecimal digits and one of the three dispositions, and an answer of success names the key
  the journal stored the segment under, which is a plain path component.
\<close>

theorem decoded_answer_is_well_formed:
  assumes "decode_upload_response unjson body = Inr r"
  shows "(\<forall>ds d. ur_descriptors r = Some (Inr ds) \<longrightarrow> d \<in> set ds \<longrightarrow>
      length (pd_sha256 d) = 64 \<and> list_all is_lower_hex (pd_sha256 d)
      \<and> pd_disposition d \<in> {''written'', ''already_held'', ''received_not_written''})
    \<and> (ur_status r \<in> {UpOk, UpDuplicate, UpCollision} \<longrightarrow>
        (\<exists>k. ur_authoritative_key r = Some k \<and> canonical k \<and> k \<noteq> [] \<and> length k \<le> MAX_COMPONENT_BYTES))"
proof -
  obtain u where u: "unjson body = Some u"
    and ds: "ur_descriptors r = (case up_file_descriptors u of None \<Rightarrow> None
      | Some v \<Rightarrow> if v = JNull then None else Some (parse_descriptor_shape v))"
    using assms
    by (auto simp: decode_upload_response_def andR_def split: option.splits sum.splits UploadStatus.splits)
  have key: "ur_status r \<in> {UpOk, UpDuplicate, UpCollision} \<longrightarrow> (\<exists>v. required_key v = Inr (ur_authoritative_key r))"
    using assms
    by (auto simp: decode_upload_response_def andR_def split: option.splits sum.splits UploadStatus.splits)
  have "canonical k \<and> k \<noteq> [] \<and> length k \<le> MAX_COMPONENT_BYTES" if "valid_component k" for k
    using that exact_name [of k] by (auto simp: valid_component_def split: sum.splits)
  moreover have "\<exists>k. x = Some k \<and> valid_component k" if "required_key v = Inr x" for v x
    using that by (auto simp: required_key_def split: option.splits if_splits)
  ultimately have "ur_status r \<in> {UpOk, UpDuplicate, UpCollision} \<longrightarrow>
      (\<exists>k. ur_authoritative_key r = Some k \<and> canonical k \<and> k \<noteq> [] \<and> length k \<le> MAX_COMPONENT_BYTES)"
    using key by meson
  moreover have "length (pd_sha256 d) = 64 \<and> list_all is_lower_hex (pd_sha256 d)
      \<and> pd_disposition d \<in> {''written'', ''already_held'', ''received_not_written''}"
    if "ur_descriptors r = Some (Inr l)" "d \<in> set l" for l d
  proof -
    have "\<exists>items. parse_descriptors items = Inr l"
      using that(1) ds by (auto simp: parse_descriptor_shape_def split: option.splits json.splits if_splits)
    then show ?thesis using parse_descriptors_sound [OF _ that(2)] parse_descriptor_sound by blast
  qed
  ultimately show ?thesis by blast
qed

theorem decoded_answer_is_well_formed_witness:
  "length (pd_sha256 sample_descriptor) = 64 \<and> list_all is_lower_hex (pd_sha256 sample_descriptor)
    \<and> (\<exists>k. ur_authoritative_key sample_result = Some k \<and> canonical k)"
proof -
  let ?item = "JObject [(''submitted'', JStr ''a.jsonl''), (''written'', JStr ''b.jsonl''), (''size'', JU64 3),
    (''sha256'', JStr (replicate 64 (CHR ''0''))), (''disposition'', JStr ''written'')]"
  let ?u = "\<lparr>up_status = UpOk, up_segment = Some ''k'', up_existing_segment = None,
    up_file_descriptors = Some (JArray [?item])\<rparr>"
  have p: "parse_descriptor ?item = Inr sample_descriptor" by code_simp
  have k: "valid_component ''k''" by code_simp
  have "decode_upload_response (\<lambda>_. Some ?u) [] = Inr sample_result"
    unfolding decode_upload_response_def
    using p k by (simp add: andR_def parse_descriptor_shape_def required_key_def sample_result_def)
  from decoded_answer_is_well_formed [OF this] show ?thesis by (auto simp: sample_result_def)
qed

subsection \<open>Bounded answers\<close>

lemma collect_chunks_iff:
  assumes "maxb \<le> u64_max" "length body \<le> maxb"
  shows "collect_chunks maxb body chunks = Inr b \<longleftrightarrow>
    (\<exists>cs. chunks = map Inr cs \<and> b = body @ concat cs \<and> length b \<le> maxb)"
  using assms(2)
proof (induction chunks arbitrary: body)
  case Nil
  then show ?case by auto
next
  case (Cons x chunks)
  show ?case
  proof (cases x)
    case (Inl f)
    then show ?thesis by auto
  next
    case (Inr c)
    show ?thesis
    proof (cases "length body + length c \<le> maxb")
      case True
      then have "collect_chunks maxb body (x # chunks) = collect_chunks maxb (body @ c) chunks"
        using assms(1) Inr by (simp add: checked_add_u64_def)
      moreover have "(\<exists>cs. x # chunks = map Inr cs \<and> b = body @ concat cs \<and> length b \<le> maxb) \<longleftrightarrow>
          (\<exists>cs. chunks = map Inr cs \<and> b = (body @ c) @ concat cs \<and> length b \<le> maxb)"
        unfolding Inr Cons_eq_map_conv by fastforce
      ultimately show ?thesis using Cons.IH [of "body @ c"] True by simp
    next
      case False
      then have "\<nexists>b'. collect_chunks maxb body (x # chunks) = Inr b'"
        using Inr by (auto simp: checked_add_u64_def)
      moreover have "maxb < length (body @ concat cs)" if "x # chunks = map Inr cs" for cs
        using that False Inr by (auto simp: Cons_eq_map_conv)
      ultimately show ?thesis by (metis not_le)
    qed
  qed
qed

text \<open>
  Answers are bounded: with a limit the platform can count to, a body is accepted exactly if
  no declared length exceeds the limit, every chunk arrived, and together they fit; it is then
  the chunks in order, so never longer than the limit.
\<close>

theorem response_body_bounded:
  assumes "maxb \<le> u64_max"
  shows "collect_response_body_limited r maxb = Inr b \<longleftrightarrow>
    (\<forall>n. declared_length r = Some n \<longrightarrow> n \<le> maxb)
    \<and> (\<exists>cs. rs_chunks r = map Inr cs \<and> b = concat cs \<and> length b \<le> maxb)"
  using collect_chunks_iff [OF assms, of "[]" "rs_chunks r" b]
  by (auto simp: collect_response_body_limited_def is_some_and_def not_less split: option.splits)

theorem response_body_bounded_witness:
  "collect_response_body_limited \<lparr>rs_status = 200, rs_content_length = None, rs_length_header = Some ''2'',
     rs_chunks = [Inr ''a'', Inr ''b'']\<rparr> 4 = Inr ''ab''"
proof -
  let ?r = "\<lparr>rs_status = 200, rs_content_length = None, rs_length_header = Some ''2'', rs_chunks = [Inr ''a'', Inr ''b'']\<rparr>"
  have d: "declared_length ?r = Some 2" by (simp add: declared_length_def parse_unsigned_def parse_digits_def is_digit_def u64_max_def)
  have m: "(4::nat) \<le> u64_max" by (simp add: u64_max_def)
  have "\<exists>cs. rs_chunks ?r = map Inr cs \<and> ''ab'' = concat cs \<and> length ''ab'' \<le> 4"
    by (rule exI [of _ "[''a'', ''b'']"]) simp
  then show ?thesis using response_body_bounded [OF m, of ?r "''ab''"] d by simp
qed

subsection \<open>Prepared files\<close>

definition prepared :: "(bytes \<Rightarrow> string) \<Rightarrow> path \<Rightarrow> world \<Rightarrow> PreparedFile \<Rightarrow> bool" where
  "prepared sha path w f \<longleftrightarrow>
     (\<exists>b. view w path = Some b \<and> node_at w path = Some (NFile (pf_file f))
       \<and> pf_descriptor f = \<lparr>lf_name = last path, lf_size = length b, lf_sha256 = sha b\<rparr>)
     \<and> path \<noteq> [] \<and> canonical (last path) \<and> last path \<noteq> [] \<and> length (last path) \<le> MAX_COMPONENT_BYTES"

definition same_files :: "world \<Rightarrow> world \<Rightarrow> bool" where
  "same_files w w' \<longleftrightarrow> view w' = view w \<and> node_at w' = node_at w \<and> contents w' = contents w"

lemma same_files_tick [simp]: "same_files w (tick u) = same_files w u"
  by (simp add: same_files_def world_simps)

lemma same_files_refl [simp]: "same_files w w"
  by (simp add: same_files_def)

lemma prepared_same: "same_files w u \<Longrightarrow> prepared sha p u f = prepared sha p w f"
  by (simp add: same_files_def prepared_def)

lemma prepare_file_spec:
  "wpE (prepare_file sha path) (\<lambda>f w'. prepared sha path w f \<and> same_files w w') (\<lambda>_. same_files w) w"
proof -
  have io: "wpE (seg_io (open_regular_readonly path))
     (\<lambda>i. wpE (seg_io (fs_len i)) (\<lambda>size. wpE (seg_io (stream_sha256_hex sha i)) (\<lambda>digest. wpE (seg_io fs_seek)
        (\<lambda>_ w'. prepared sha path w \<lparr>pf_descriptor = \<lparr>lf_name = last path, lf_size = size, lf_sha256 = digest\<rparr>, pf_file = i\<rparr>
           \<and> same_files w w') (\<lambda>_. same_files w)) (\<lambda>_. same_files w)) (\<lambda>_. same_files w)) (\<lambda>_. same_files w) w"
    if "canonical (last path) \<and> last path \<noteq> [] \<and> length (last path) \<le> MAX_COMPONENT_BYTES" "path \<noteq> []"
    unfolding seg_io_def open_regular_readonly_def stage_io_def stream_sha256_hex_def
    apply simp
    apply (rule wp_open_read; simp?)
    apply (rule wp_seek; simp?)
    apply (simp split: node.split)
    apply (intro allI impI conjI)
    apply (intro wp_intros; simp)
    using that by (auto simp: prepared_def view_def world_simps)
  show ?thesis
    using io exact_name [of "last path"] by (auto simp: prepare_file_def Let_def split: sum.split)
qed

lemma prepare_all_spec:
  "wpE (prepare_all sha paths)
    (\<lambda>fs w'. list_all2 (\<lambda>p f. prepared sha p w f) paths fs \<and> same_files w w') (\<lambda>_. same_files w) w"
proof (induction paths arbitrary: w)
  case (Cons p ps)
  have "wpE (prepare_all sha ps) (\<lambda>fs w'. list_all2 (\<lambda>p f. prepared sha p w f) (p # ps) (f # fs) \<and> same_files w w')
      (\<lambda>_. same_files w) u" if "prepared sha p w f" "same_files w u" for f u
    by (rule wpE_mono [OF Cons.IH [of u]])
      (use that prepared_same [OF that(2)] in \<open>auto simp: same_files_def list_all2_iff\<close>)
  then show ?case
    by simp (rule wpE_mono [OF prepare_file_spec [of sha p w]]; auto)
qed simp

text \<open>
  An inventory describes the files it was asked about, one entry per path and in that order:
  the entry's name is the path's last component and canonical, its size and digest are those of
  the bytes there; nothing on disk changes, whether it succeeds or not.
\<close>

theorem inventory_describes_files:
  "case inventory_files sha paths w of
      (Inr files, w') \<Rightarrow> same_files w w' \<and> paths \<noteq> [] \<and>
        list_all2 (\<lambda>p f. \<exists>b. view w p = Some b \<and> canonical (last p)
          \<and> f = \<lparr>lf_name = last p, lf_size = length b, lf_sha256 = sha b\<rparr>) paths files
    | (Inl _, w') \<Rightarrow> same_files w w'"
proof -
  have ne: "wpE (prepare_files sha paths)
      (\<lambda>fs w'. paths \<noteq> [] \<and> list_all2 (\<lambda>p f. prepared sha p w f) paths fs \<and> same_files w w') (\<lambda>_. same_files w) w"
    unfolding prepare_files_def by simp (intro impI wpE_mono [OF prepare_all_spec]; auto)
  have "wpE (inventory_files sha paths)
      (\<lambda>files w'. same_files w w' \<and> paths \<noteq> [] \<and>
        list_all2 (\<lambda>p f. \<exists>b. view w p = Some b \<and> canonical (last p)
          \<and> f = \<lparr>lf_name = last p, lf_size = length b, lf_sha256 = sha b\<rparr>) paths files) (\<lambda>_. same_files w) w"
    unfolding inventory_files_def wpE_bind wpE_return
    by (rule wpE_mono [OF ne]) (auto simp: list.rel_map prepared_def elim!: list.rel_mono_strong)
  then show ?thesis by (auto simp: wpE_def split: prod.splits sum.splits)
qed

end
