(* ===== verification/Effects.thy ===== *)
theory Effects
  imports Storage Paths
begin

text \<open>
  What a computation leaves alone. \<open>quietE\<close>: inspecting and reading files uses up outcomes of the
  schedule and changes nothing else. \<open>keepsE\<close>: an invariant of the state survives, whatever fails;
  \<open>givesE\<close>: and what is returned has a property.
  \<open>confinedE\<close>: no file outside a set of paths changes. Each is closed under the combinators, so that
  a function of the program is recognised by the rules in \<open>quiet_intros\<close>, \<open>keeps_intros\<close> and
  \<open>confined_intros\<close>. \<open>early_return\<close> is a function body with early returns and \<open>ignoreE\<close> is
  \<open>let _ = \<dots>\<close>.
\<close>

subsection \<open>Computations that only look\<close>

text \<open>Only outcomes of the schedule are used up: every file, directory and mode is as before.\<close>

definition only_ticks :: "world \<Rightarrow> world \<Rightarrow> bool" where
  "only_ticks w u \<longleftrightarrow> u = w\<lparr>w_outcomes := w_outcomes u\<rparr>"

definition quietE :: "('e, 'a) io \<Rightarrow> bool" where
  "quietE m \<longleftrightarrow> (\<forall>w. only_ticks w (snd (m w)))"

named_theorems quiet_intros \<open>computations that only look\<close>

lemma only_ticks_refl [simp]: "only_ticks w w"
  by (simp add: only_ticks_def)

lemma only_ticks_tick [simp]: "only_ticks w (tick u) = only_ticks w u"
  by (cases w; cases u) (auto simp: only_ticks_def tick_def)

lemma only_ticks_trans: "only_ticks w u \<Longrightarrow> only_ticks u v \<Longrightarrow> only_ticks w v"
  by (cases w; cases u; cases v) (auto simp: only_ticks_def)

lemma only_ticks_obs:
  assumes "only_ticks w u"
  shows "node_at u = node_at w" "contents u = contents w" "view u = view w" "is_dir u = is_dir w"
    "world_ok u = world_ok w" "w_names u = w_names w" "dir_entries u = dir_entries w"
    "w_next u = w_next w" "mode_of u = mode_of w" "w_pid u = w_pid w" "w_counter u = w_counter w"
    "has_children u = has_children w"
proof -
  obtain os where u: "u = w\<lparr>w_outcomes := os\<rparr>" using assms by (auto simp: only_ticks_def)
  show "node_at u = node_at w" "contents u = contents w" "view u = view w" "is_dir u = is_dir w"
    "world_ok u = world_ok w" "w_names u = w_names w" "dir_entries u = dir_entries w"
    "w_next u = w_next w" "mode_of u = mode_of w" "w_pid u = w_pid w" "w_counter u = w_counter w"
    "has_children u = has_children w"
    by (auto simp: u node_at_def contents_def view_def is_dir_def world_ok_def dir_entries_def
        mode_of_def has_children_def fun_eq_iff split: option.splits node.splits)
qed

lemma quiet_return [quiet_intros]: "quietE (returnE x)"
  by (simp add: quietE_def returnE_def)

lemma quiet_throw [quiet_intros]: "quietE (throwE x)"
  by (simp add: quietE_def throwE_def)

lemma quiet_try [quiet_intros]:
  assumes "quietE m" "\<And>r. quietE (f r)"
  shows "quietE (tryE m f)"
  unfolding quietE_def
proof
  fix w
  obtain r u where m: "m w = (r, u)" by fastforce
  with assms(1) have "only_ticks w u" unfolding quietE_def by (metis snd_conv)
  moreover have "only_ticks u (snd (f r u))" using assms(2) by (simp add: quietE_def)
  ultimately show "only_ticks w (snd (tryE m f w))" by (simp add: tryE_def m only_ticks_trans)
qed

lemma bindE_try: "bindE m f = tryE m (\<lambda>r. case r of Inl e \<Rightarrow> throwE e | Inr x \<Rightarrow> f x)"
  by (auto simp: fun_eq_iff bindE_def tryE_def throwE_def split: prod.splits sum.splits)

lemma map_errE_try: "map_errE g m = tryE m (\<lambda>r. case r of Inl e \<Rightarrow> throwE (g e) | Inr x \<Rightarrow> returnE x)"
  by (auto simp: fun_eq_iff map_errE_def tryE_def throwE_def returnE_def split: prod.splits sum.splits)

lemma quiet_bind [quiet_intros]: "quietE m \<Longrightarrow> (\<And>x. quietE (f x)) \<Longrightarrow> quietE (bindE m f)"
  unfolding bindE_try by (intro quiet_intros) (auto intro: quiet_intros split: sum.splits)

lemma quiet_map_err [quiet_intros]: "quietE m \<Longrightarrow> quietE (map_errE g m)"
  unfolding map_errE_try by (intro quiet_intros) (auto intro: quiet_intros split: sum.splits)

lemma quiet_sys:
  assumes "\<And>w. snd (m w) = w"
  shows "quietE (syscall m)"
  using assms by (simp add: quietE_def sys_def split: outcome.split)

lemma quiet_calls [quiet_intros]:
  "quietE (fs_lstat p)" "quietE (fs_open_read p)" "quietE (fs_read p)" "quietE (fs_read_fd i)"
  "quietE (fs_len i)" "quietE fs_fsync" "quietE fs_seek" "quietE (fs_open_dir p)"
  "quietE (fs_open_any p)" "quietE (fs_read_dir p)"
  unfolding fs_lstat_def fs_open_read_def fs_read_def fs_read_fd_def fs_len_def fs_fsync_def
    fs_seek_def fs_open_dir_def fs_open_any_def fs_read_dir_def
  by (rule quiet_sys; simp split: option.splits node.splits sum.splits)+

lemma quiet_opens [quiet_intros]:
  "quietE (open_regular_readonly p)" "quietE (open_directory_readonly p)" "quietE (sync_directory p)"
  unfolding open_regular_readonly_def open_directory_readonly_def sync_directory_def stage_io_def
  by (auto intro!: quiet_intros split: node.splits)

lemma quiet_snd: "quietE m \<Longrightarrow> m w = (r, u) \<Longrightarrow> only_ticks w u"
  by (metis quietE_def snd_conv)

text \<open>A rule about the result of a computation that only looks may forget the world.\<close>

lemma wp_quiet:
  assumes "quietE m" "wpE m (\<lambda>x _. Q x) (\<lambda>e _. R e) w"
  shows "wpE m (\<lambda>x u. Q x \<and> only_ticks w u) (\<lambda>e u. R e \<and> only_ticks w u) w"
  using assms(2) quiet_snd [OF assms(1), of w] by (auto simp: wpE_def split: prod.splits sum.splits)

text \<open>Branches\<close>

lemma quiet_if [quiet_intros]:
  "(c \<Longrightarrow> quietE a) \<Longrightarrow> (\<not> c \<Longrightarrow> quietE b) \<Longrightarrow> quietE (if c then a else b)"
  by simp

lemma quiet_cases [quiet_intros]:
  "(\<And>x. v = Inl x \<Longrightarrow> quietE (f x)) \<Longrightarrow> (\<And>x. v = Inr x \<Longrightarrow> quietE (g x)) \<Longrightarrow> quietE (case v of Inl x \<Rightarrow> f x | Inr x \<Rightarrow> g x)"
  "(q = None \<Longrightarrow> quietE a) \<Longrightarrow> (\<And>x. q = Some x \<Longrightarrow> quietE (h x)) \<Longrightarrow> quietE (case q of None \<Rightarrow> a | Some x \<Rightarrow> h x)"
  "(\<And>x y. u = (x, y) \<Longrightarrow> quietE (k x y)) \<Longrightarrow> quietE (case u of (x, y) \<Rightarrow> k x y)"
  "quietE a \<Longrightarrow> quietE b \<Longrightarrow> quietE (case e of NotFound \<Rightarrow> a | _ \<Rightarrow> b)"
  by (auto split: sum.splits option.splits prod.splits io_error.splits)

subsection \<open>Early returns\<close>

definition early_return :: "('s, 'a, 'a) comp \<Rightarrow> ('s, 'e, 'a) comp" where
  "early_return m = tryE m (\<lambda>r. case r of Inl x \<Rightarrow> returnE x | Inr x \<Rightarrow> returnE x)"

lemma wpE_early_return [simp]: "wpE (early_return m) Q R = wpE m Q Q"
  by (simp add: early_return_def)

lemma quiet_early_return [quiet_intros]: "quietE m \<Longrightarrow> quietE (early_return m)"
  unfolding early_return_def by (intro quiet_intros) (auto intro: quiet_intros split: sum.splits)

subsection \<open>Ignored results\<close>

definition ignoreE :: "('s, 'e, 'a) comp \<Rightarrow> ('s, 'f, unit) comp" where
  "ignoreE m = tryE m (\<lambda>_. returnE ())"

definition unitE :: "('s, 'e, 'a) comp \<Rightarrow> ('s, unit, 'a) comp" where
  "unitE m = map_errE (\<lambda>_. ()) m"

lemma wpE_ignoreE [simp]: "wpE (ignoreE m) Q R = wpE m (\<lambda>_. Q ()) (\<lambda>_. Q ())"
  by (simp add: ignoreE_def)

lemma wpE_unitE [simp]: "wpE (unitE m) Q R = wpE m Q (\<lambda>_. R ())"
  by (simp add: unitE_def)

lemma quiet_unitE [quiet_intros]: "quietE m \<Longrightarrow> quietE (unitE m)"
  unfolding unitE_def by (rule quiet_map_err)

lemma quiet_ignoreE [quiet_intros]: "quietE m \<Longrightarrow> quietE (ignoreE m)"
  unfolding ignoreE_def by (intro quiet_intros)

subsection \<open>Invariants\<close>

definition keepsE :: "('s \<Rightarrow> bool) \<Rightarrow> ('s, 'e, 'a) comp \<Rightarrow> bool" where
  "keepsE I m \<longleftrightarrow> (\<forall>s. I s \<longrightarrow> I (snd (m s)))"

named_theorems keeps_intros \<open>computations that keep an invariant\<close>

lemma wpE_state: "wpE m (\<lambda>_. P) (\<lambda>_. P) s \<longleftrightarrow> P (snd (m s))"
proof -
  obtain r t where "m s = (r, t)" by fastforce
  then show ?thesis by (cases r) (simp_all add: wpE_def)
qed

lemma keepsE_wp: "keepsE I m \<longleftrightarrow> (\<forall>s. I s \<longrightarrow> wpE m (\<lambda>_. I) (\<lambda>_. I) s)"
  by (simp add: keepsE_def wpE_state)

lemma keepsE_I: "(\<And>s. I s \<Longrightarrow> wpE m (\<lambda>_. I) (\<lambda>_. I) s) \<Longrightarrow> keepsE I m"
  by (simp add: keepsE_wp)

lemma keepsE_D: "keepsE I m \<Longrightarrow> I s \<Longrightarrow> wpE m (\<lambda>_. I) (\<lambda>_. I) s"
  by (simp add: keepsE_wp)

lemma keeps_simple [keeps_intros]:
  "keepsE I (returnE x)" "keepsE I (throwE e)" "keepsE I (getsE f)"
  by (simp_all add: keepsE_def returnE_def throwE_def getsE_def)

lemma keeps_try [keeps_intros]: "keepsE I m \<Longrightarrow> (\<And>r. keepsE I (f r)) \<Longrightarrow> keepsE I (tryE m f)"
  by (auto simp: keepsE_def tryE_def split: prod.splits)

lemma keeps_if [keeps_intros]:
  "(c \<Longrightarrow> keepsE I a) \<Longrightarrow> (\<not> c \<Longrightarrow> keepsE I b) \<Longrightarrow> keepsE I (if c then a else b)"
  by simp

lemma keeps_cases [keeps_intros]:
  "(\<And>x. v = Inl x \<Longrightarrow> keepsE I (f x)) \<Longrightarrow> (\<And>x. v = Inr x \<Longrightarrow> keepsE I (g x)) \<Longrightarrow> keepsE I (case v of Inl x \<Rightarrow> f x | Inr x \<Rightarrow> g x)"
  "(q = None \<Longrightarrow> keepsE I a) \<Longrightarrow> (\<And>x. q = Some x \<Longrightarrow> keepsE I (h x)) \<Longrightarrow> keepsE I (case q of None \<Rightarrow> a | Some x \<Rightarrow> h x)"
  "(\<And>x y. u = (x, y) \<Longrightarrow> keepsE I (k x y)) \<Longrightarrow> keepsE I (case u of (x, y) \<Rightarrow> k x y)"
  "keepsE I a \<Longrightarrow> keepsE I b \<Longrightarrow> keepsE I (case e of NotFound \<Rightarrow> a | _ \<Rightarrow> b)"
  by (auto split: sum.splits option.splits prod.splits io_error.splits)

lemma keeps_bind [keeps_intros]: "keepsE I m \<Longrightarrow> (\<And>x. keepsE I (f x)) \<Longrightarrow> keepsE I (bindE m f)"
  unfolding bindE_try by (intro keeps_intros) assumption+

lemma keeps_wrappers [keeps_intros]:
  "keepsE I m \<Longrightarrow> keepsE I (map_errE g m)" "keepsE I m \<Longrightarrow> keepsE I (unitE m)"
  "keepsE I m \<Longrightarrow> keepsE I (ignoreE m)" "keepsE I m' \<Longrightarrow> keepsE I (early_return m')"
  by (auto simp: map_errE_try unitE_def ignoreE_def early_return_def intro!: keeps_intros)

subsection \<open>Confinement\<close>

definition confined :: "path set \<Rightarrow> world \<Rightarrow> world \<Rightarrow> bool" where
  "confined S w u \<longleftrightarrow> world_ok u \<and> (\<forall>p. p \<notin> S \<longrightarrow> view u p = view w p)"

definition confinedE :: "path set \<Rightarrow> ('e, 'a) io \<Rightarrow> bool" where
  "confinedE S m \<longleftrightarrow> (\<forall>w. world_ok w \<longrightarrow> confined S w (snd (m w)))"

named_theorems confined_intros \<open>computations that change no file outside a set of paths\<close>

lemma confined_trans: "confined S w u \<Longrightarrow> confined S u v \<Longrightarrow> confined S w v"
  by (simp add: confined_def)

lemma confined_refl: "world_ok w \<Longrightarrow> confined S w w"
  by (simp add: confined_def)

lemma confinedE_keeps: "confinedE S m \<longleftrightarrow> (\<forall>w. keepsE (confined S w) m)"
proof
  assume m: "confinedE S m"
  show "\<forall>w. keepsE (confined S w) m"
    unfolding keepsE_def
  proof (intro allI impI)
    fix w u assume u: "confined S w u"
    then have "world_ok u" by (simp add: confined_def)
    with m have "confined S u (snd (m u))" by (simp add: confinedE_def)
    with u show "confined S w (snd (m u))" by (rule confined_trans)
  qed
qed (auto simp: confinedE_def keepsE_def confined_refl)

lemma confinedE_I: "(\<And>w. world_ok w \<Longrightarrow> wpE m (\<lambda>_. confined S w) (\<lambda>_. confined S w) w) \<Longrightarrow> confinedE S m"
  by (simp add: confinedE_def wpE_state)

lemma confinedE_D: "confinedE S m \<Longrightarrow> world_ok w \<Longrightarrow> wpE m (\<lambda>_. confined S w) (\<lambda>_. confined S w) w"
  by (simp add: confinedE_def wpE_state)

lemma confined_mono: "confinedE S m \<Longrightarrow> S \<subseteq> T \<Longrightarrow> confinedE T m"
  by (auto simp: confinedE_def confined_def)

text \<open>The closure rules are those of an invariant.\<close>

lemma confined_combine [confined_intros]:
  "confinedE S (returnE x)" "confinedE S (throwE e)"
  "confinedE S m \<Longrightarrow> (\<And>r. confinedE S (f r)) \<Longrightarrow> confinedE S (tryE m f)"
  "confinedE S m \<Longrightarrow> (\<And>x. confinedE S (g x)) \<Longrightarrow> confinedE S (bindE m g)"
  "confinedE S m \<Longrightarrow> confinedE S (map_errE h m)" "confinedE S m \<Longrightarrow> confinedE S (unitE m)"
  "confinedE S m \<Longrightarrow> confinedE S (ignoreE m)" "confinedE S m' \<Longrightarrow> confinedE S (early_return m')"
  unfolding confinedE_keeps by (intro allI keeps_intros; blast)+

lemma confined_branches [confined_intros]:
  "(c \<Longrightarrow> confinedE S a) \<Longrightarrow> (\<not> c \<Longrightarrow> confinedE S b) \<Longrightarrow> confinedE S (if c then a else b)"
  "(\<And>x. v = Inl x \<Longrightarrow> confinedE S (f x)) \<Longrightarrow> (\<And>x. v = Inr x \<Longrightarrow> confinedE S (g x)) \<Longrightarrow> confinedE S (case v of Inl x \<Rightarrow> f x | Inr x \<Rightarrow> g x)"
  "(q = None \<Longrightarrow> confinedE S a) \<Longrightarrow> (\<And>x. q = Some x \<Longrightarrow> confinedE S (h x)) \<Longrightarrow> confinedE S (case q of None \<Rightarrow> a | Some x \<Rightarrow> h x)"
  "(\<And>x y. u = (x, y) \<Longrightarrow> confinedE S (k x y)) \<Longrightarrow> confinedE S (case u of (x, y) \<Rightarrow> k x y)"
  by (auto split: sum.splits option.splits prod.splits)

lemma confined_quiet: "quietE m \<Longrightarrow> confinedE S m"
proof -
  assume "quietE m"
  then have "only_ticks w (snd (m w))" for w by (simp add: quietE_def)
  from only_ticks_obs(3,5) [OF this] show ?thesis by (simp add: confinedE_def confined_def)
qed

lemmas confined_looks [confined_intros] = quiet_calls [THEN confined_quiet] quiet_opens [THEN confined_quiet]

lemma confined_remove_file [confined_intros]: "p \<in> S \<Longrightarrow> confinedE S (fs_remove_file p)"
  by (rule confinedE_I, rule wp_remove_file) (auto simp: confined_def world_simps world_upd)

lemma confined_ensure_private [confined_intros]: "confinedE S (ensure_private_directory p)"
  by (rule confinedE_I, rule wpE_mono [OF ensure_private_directory_spec]) (auto simp: confined_def dirs_only_def)

lemma confined_chmod_fd [confined_intros]: "confinedE S (fs_chmod_fd i m)"
  by (rule confinedE_I, rule wp_chmod_fd) (simp_all add: confined_def world_simps)

lemma confined_open_create [confined_intros]: "p \<in> S \<Longrightarrow> confinedE S (fs_open_create p)"
  by (rule confinedE_I, rule wp_open_create) (auto simp: confined_def world_simps world_upd)

text \<open>A directory is no file.\<close>

lemma confined_remove_dir [confined_intros]: "confinedE S (fs_remove_dir p)"
proof (rule confinedE_I, rule wp_remove_dir)
  fix w assume ok: "world_ok w" and d: "is_dir w p"
  have "view w p = None" using d by (auto simp: view_def is_dir_def split: option.splits node.splits)
  then have "view (del_node p (tick w)) = view w"
    by (auto simp: view_del_node world_simps fun_eq_iff)
  with ok show "confined S w (del_node p (tick w))"
    by (simp add: confined_def world_simps world_upd)
qed (simp add: confined_def world_simps)

lemma confined_atomic_write:
  assumes "plain_name n" "write_scope parent (parent @ [n]) \<subseteq> S"
  shows "confinedE S (atomic_write_bytes (parent @ [n]) parent b)"
proof (rule confinedE_I)
  fix w assume "world_ok w"
  from atomic_write_bytes_spec [OF this assms(1), of parent b]
  show "wpE (atomic_write_bytes (parent @ [n]) parent b) (\<lambda>_. confined S w) (\<lambda>_. confined S w) w"
    by (rule wpE_mono) (use assms(2) in \<open>auto simp: confined_def replaced_ok_def replaced_err_def only_touches_def\<close>)
qed

text \<open>An invariant that depends only on files out of reach is kept.\<close>

lemma keeps_confined:
  assumes "confinedE S m" "\<And>w u. I w \<Longrightarrow> confined S w u \<Longrightarrow> I u" "\<And>w. I w \<Longrightarrow> world_ok w"
  shows "keepsE I m"
  using assms by (auto simp: keepsE_def confinedE_def)

subsection \<open>Invariants with results\<close>

text \<open>The invariant is kept, and a result has the property.\<close>

definition givesE :: "('s \<Rightarrow> bool) \<Rightarrow> ('a \<Rightarrow> bool) \<Rightarrow> ('s, 'e, 'a) comp \<Rightarrow> bool" where
  "givesE I P m \<longleftrightarrow> (\<forall>s. I s \<longrightarrow> wpE m (\<lambda>x s. P x \<and> I s) (\<lambda>_. I) s)"

named_theorems gives_intros \<open>computations that keep an invariant and return what they should\<close>

lemma givesE_I: "(\<And>s. I s \<Longrightarrow> wpE m (\<lambda>x s. P x \<and> I s) (\<lambda>_. I) s) \<Longrightarrow> givesE I P m"
  by (simp add: givesE_def)

lemma givesE_D: "givesE I P m \<Longrightarrow> I s \<Longrightarrow> wpE m (\<lambda>x s. P x \<and> I s) (\<lambda>_. I) s"
  by (simp add: givesE_def)

lemma gives_keeps: "givesE I P m \<Longrightarrow> keepsE I m"
  unfolding givesE_def keepsE_wp by (blast intro: wpE_mono)

lemma keeps_gives: "keepsE I m \<Longrightarrow> (\<And>x. P x) \<Longrightarrow> givesE I P m"
  by (simp add: givesE_def keepsE_wp)

lemma gives_mono: "givesE I P m \<Longrightarrow> (\<And>x. P x \<Longrightarrow> Q x) \<Longrightarrow> givesE I Q m"
  unfolding givesE_def by (blast intro: wpE_mono)

lemma gives_simple [gives_intros]: "P x \<Longrightarrow> givesE I P (returnE x)" "givesE I P (throwE e)"
  by (simp_all add: givesE_def)

lemma gives_bind: "givesE I P m \<Longrightarrow> (\<And>x. P x \<Longrightarrow> givesE I Q (f x)) \<Longrightarrow> givesE I Q (bindE m f)"
  unfolding givesE_def by (fastforce elim: wpE_mono)

lemma keeps_bind_gives: "givesE I P m \<Longrightarrow> (\<And>x. P x \<Longrightarrow> keepsE I (f x)) \<Longrightarrow> keepsE I (bindE m f)"
  unfolding givesE_def keepsE_wp by (fastforce elim: wpE_mono)

lemma keeps_try_gives:
  "givesE I P m \<Longrightarrow> (\<And>x. P x \<Longrightarrow> keepsE I (f (Inr x))) \<Longrightarrow> (\<And>e. keepsE I (f (Inl e))) \<Longrightarrow> keepsE I (tryE m f)"
  unfolding givesE_def keepsE_wp by (fastforce elim: wpE_mono)

lemma gives_after [gives_intros]: "keepsE I m \<Longrightarrow> (\<And>x. givesE I P (f x)) \<Longrightarrow> givesE I P (bindE m f)"
  by (rule gives_bind [where P = "\<lambda>_. True"]) (auto intro: keeps_gives)

lemma gives_try [gives_intros]: "keepsE I m \<Longrightarrow> (\<And>x. givesE I P (f x)) \<Longrightarrow> givesE I P (tryE m f)"
  unfolding givesE_def keepsE_wp by (fastforce elim: wpE_mono)

lemma gives_try_gives:
  "givesE I P m \<Longrightarrow> (\<And>x. P x \<Longrightarrow> givesE I Q (f (Inr x))) \<Longrightarrow> (\<And>e. givesE I Q (f (Inl e))) \<Longrightarrow> givesE I Q (tryE m f)"
  unfolding givesE_def by (fastforce elim: wpE_mono)

lemma gives_map_err [gives_intros]: "givesE I P m \<Longrightarrow> givesE I P (map_errE g m)"
  by (simp add: givesE_def)

lemma gives_branches [gives_intros]:
  "(c \<Longrightarrow> givesE I P a) \<Longrightarrow> (\<not> c \<Longrightarrow> givesE I P b) \<Longrightarrow> givesE I P (if c then a else b)"
  "(\<And>x. v = Inl x \<Longrightarrow> givesE I P (f x)) \<Longrightarrow> (\<And>x. v = Inr x \<Longrightarrow> givesE I P (g x)) \<Longrightarrow> givesE I P (case v of Inl x \<Rightarrow> f x | Inr x \<Rightarrow> g x)"
  "(\<And>x y. u = (x, y) \<Longrightarrow> givesE I P (k x y)) \<Longrightarrow> givesE I P (case u of (x, y) \<Rightarrow> k x y)"
  by (auto split: sum.splits prod.splits)

text \<open>A function body with early returns: what is thrown is a result too.\<close>

lemma gives_early_return:
  "(\<And>s. I s \<Longrightarrow> wpE m (\<lambda>x s. P x \<and> I s) (\<lambda>x s. P x \<and> I s) s) \<Longrightarrow> givesE I P (early_return m)"
  by (simp add: givesE_def)

end
