(* ===== verification/Candidates.thy ===== *)
theory Candidates
  imports Recovery Journal Effects "HOL-Library.Product_Lexorder"
begin

text \<open>
  Finding what to upload (\<open>src/sync.rs\<close>, \<open>scan_candidates\<close> to \<open>is_plain_directory\<close>): which
  directories below the capture root are segments, in which order they are tried, which files a
  segment consists of, and the identities by which a file is recognised again before it is
  deleted. Parameters: the calendar (\<open>TimeApi\<close>) and the part of a file's metadata the model has
  no state for (\<open>stamp\<close>: device and times).
\<close>
subsection \<open>Names\<close>

record SegmentCandidate =
  sc_day :: string
  sc_stream :: string
  sc_segment :: string

definition parse_day :: "TimeApi \<Rightarrow> string \<Rightarrow> (nat \<times> nat \<times> nat) option" where
  "parse_day api v =
     (if length v \<noteq> 8 \<or> \<not> list_all is_digit v then None
      else
        let year = two_digits (take 4 v); month = two_digits (take 2 (drop 4 v)); day = two_digits (drop 6 v) in
        if 1 \<le> month \<and> month \<le> 12 \<and> calendar_ok api year month day then Some (year, month, day) else None)"

definition valid_segment_name :: "string \<Rightarrow> bool" where
  "valid_segment_name v \<longleftrightarrow>
     (case split_once (CHR ''_'') v of
        None \<Rightarrow> False
      | Some (time_part, duration) \<Rightarrow>
          \<not> (length time_part \<noteq> 6 \<or> length duration < 3
             \<or> \<not> list_all is_digit time_part \<or> \<not> list_all is_digit duration)
          \<and> two_digits (take 2 time_part) \<le> 23 \<and> two_digits (take 2 (drop 2 time_part)) \<le> 59
          \<and> two_digits (drop 4 time_part) \<le> 59)"

definition valid_capture_filename :: "string \<Rightarrow> bool" where
  "valid_capture_filename v \<longleftrightarrow>
     (case Option.bind (strip_prefix ''tmux_'' v) (strip_suffix ''_screen.jsonl'') of
        None \<Rightarrow> False
      | Some session \<Rightarrow> exact_component v \<noteq> None \<and> exact_component session \<noteq> None)"

subsection \<open>Metadata\<close>

record Stamp =
  st_device :: nat
  st_mtime :: int
  st_mtime_nsec :: int
  st_ctime :: int
  st_ctime_nsec :: int

record Metadata =
  mt_inode :: nat
  mt_size :: nat
  mt_stamp :: Stamp

record FileIdentity =
  fi_name :: string
  fi_device :: nat
  fi_inode :: nat
  fi_size :: nat
  fi_mtime :: int
  fi_mtime_nsec :: int
  fi_ctime :: int
  fi_ctime_nsec :: int

type_synonym stamp = "world \<Rightarrow> nat \<Rightarrow> Stamp"

text \<open>\<open>File::metadata\<close> of an open file\<close>

definition fs_metadata :: "stamp \<Rightarrow> nat \<Rightarrow> (io_error, Metadata) io" where
  "fs_metadata stamp i = syscall (\<lambda>w.
     (Inr \<lparr>mt_inode = i, mt_size = length (contents w i), mt_stamp = stamp w i\<rparr>, w))"

definition metadata_matches :: "Metadata \<Rightarrow> FileIdentity \<Rightarrow> bool" where
  "metadata_matches m e \<longleftrightarrow>
     st_device (mt_stamp m) = fi_device e \<and> mt_inode m = fi_inode e \<and> mt_size m = fi_size e"

definition is_plain_directory :: "node \<Rightarrow> bool" where
  "is_plain_directory n \<longleftrightarrow> (case n of NDir _ \<Rightarrow> True | _ \<Rightarrow> False)"

definition is_plain_file :: "node \<Rightarrow> bool" where
  "is_plain_file n \<longleftrightarrow> (case n of NFile _ \<Rightarrow> True | _ \<Rightarrow> False)"

text \<open>The kind of a directory entry, and of what is at its path now.\<close>

definition plain_directory_entry :: "node \<Rightarrow> path \<Rightarrow> ('e, bool) io" where
  "plain_directory_entry kind p =
     tryE (fs_lstat p) (\<lambda>r.
       returnE (case r of Inl _ \<Rightarrow> False | Inr n \<Rightarrow> is_plain_directory kind \<and> is_plain_directory n))"

definition plain_regular_entry :: "node \<Rightarrow> path \<Rightarrow> ('e, bool) io" where
  "plain_regular_entry kind p =
     tryE (fs_lstat p) (\<lambda>r.
       returnE (case r of Inl _ \<Rightarrow> False | Inr n \<Rightarrow> is_plain_file kind \<and> is_plain_file n))"

subsection \<open>Scanning\<close>

definition nothing :: "(io_error, 'a) io \<Rightarrow> (unit, 'a) io" where
  "nothing m = map_errE (\<lambda>_. ()) m"

fun scan_segments :: "path \<Rightarrow> string \<Rightarrow> string \<Rightarrow> (string \<times> node) list \<Rightarrow> (unit, SegmentCandidate list) io" where
  "scan_segments stream_path day stream [] = returnE []"
| "scan_segments stream_path day stream ((segment, kind) # es) =
     (if \<not> valid_utf8 segment then throwE ()
      else if \<not> valid_segment_name segment then scan_segments stream_path day stream es
      else
        bindE (plain_directory_entry kind (stream_path @ [segment])) (\<lambda>plain.
        if \<not> plain then throwE ()
        else
          bindE (scan_segments stream_path day stream es) (\<lambda>cs.
          returnE (\<lparr>sc_day = day, sc_stream = stream, sc_segment = segment\<rparr> # cs))))"

fun scan_streams :: "path \<Rightarrow> string \<Rightarrow> (string \<times> node) list \<Rightarrow> (unit, SegmentCandidate list) io" where
  "scan_streams day_path day [] = returnE []"
| "scan_streams day_path day ((stream_name, kind) # es) =
     (if \<not> valid_utf8 stream_name then scan_streams day_path day es
      else case derive_component stream_name of
        Inl _ \<Rightarrow> scan_streams day_path day es
      | Inr stream \<Rightarrow>
          if is_plain_file kind then scan_streams day_path day es
          else
            bindE (plain_directory_entry kind (day_path @ [stream_name])) (\<lambda>plain.
            if \<not> plain then throwE ()
            else case join_checked stream day_path of
              Inl _ \<Rightarrow> throwE ()
            | Inr stream_path \<Rightarrow>
                if stream_path \<noteq> day_path @ [stream_name] then throwE ()
                else
                  bindE (nothing (fs_read_dir stream_path)) (\<lambda>inner.
                  bindE (scan_segments stream_path day (as_str stream) inner) (\<lambda>cs.
                  bindE (scan_streams day_path day es) (\<lambda>cs'. returnE (cs @ cs'))))))"

fun scan_days :: "TimeApi \<Rightarrow> path \<Rightarrow> (string \<times> node) list \<Rightarrow> (unit, SegmentCandidate list) io" where
  "scan_days api root [] = returnE []"
| "scan_days api root ((day, kind) # es) =
     (if \<not> valid_utf8 day then throwE ()
      else if parse_day api day = None then scan_days api root es
      else
        bindE (plain_directory_entry kind (root @ [day])) (\<lambda>plain.
        if \<not> plain then throwE ()
        else case derive_component day of
          Inl _ \<Rightarrow> throwE ()
        | Inr derived_day \<Rightarrow>
            (case join_checked derived_day root of
               Inl _ \<Rightarrow> throwE ()
             | Inr day_path \<Rightarrow>
                 if day_path \<noteq> root @ [day] then throwE ()
                 else
                   bindE (nothing (fs_read_dir day_path)) (\<lambda>inner.
                   bindE (scan_streams day_path day inner) (\<lambda>cs.
                   bindE (scan_days api root es) (\<lambda>cs'. returnE (cs @ cs')))))))"

text \<open>Newest first: descending by day, then segment, then stream.\<close>

definition candidate_key :: "SegmentCandidate \<Rightarrow> string \<times> string \<times> string" where
  "candidate_key c = (sc_day c, sc_segment c, sc_stream c)"

definition newest_first :: "SegmentCandidate list \<Rightarrow> SegmentCandidate list" where
  "newest_first cs = rev (sort_key candidate_key (rev cs))"

definition scan_candidates :: "TimeApi \<Rightarrow> path \<Rightarrow> (unit, SegmentCandidate list) io" where
  "scan_candidates api root =
     tryE (fs_lstat root) (\<lambda>r.
       case r of
         Inr n \<Rightarrow>
           if is_plain_directory n
           then bindE (nothing (fs_read_dir root)) (\<lambda>entries.
                bindE (scan_days api root entries) (\<lambda>cs. returnE (newest_first cs)))
           else throwE ()
       | Inl NotFound \<Rightarrow> returnE []
       | Inl _ \<Rightarrow> throwE ())"
subsection \<open>The files of a segment\<close>

datatype ResolvedSegmentFiles = RsFound "path list" | RsEmpty | RsMissing | RsInvalid

definition candidate_paths :: "TimeApi \<Rightarrow> path \<Rightarrow> SegmentCandidate \<Rightarrow> (path \<times> path \<times> path) option" where
  "candidate_paths api root c =
     (if parse_day api (sc_day c) = None then None
      else
        Option.bind (exact_component (sc_day c)) (\<lambda>day.
        Option.bind (exact_component (sc_stream c)) (\<lambda>stream.
        Option.bind (exact_component (sc_segment c)) (\<lambda>segment.
        if \<not> valid_segment_name (sc_segment c) then None
        else (case join_checked day root of
            Inl _ \<Rightarrow> None
          | Inr day_path \<Rightarrow>
              (case join_checked stream day_path of
                 Inl _ \<Rightarrow> None
               | Inr stream_path \<Rightarrow>
                   (case join_checked segment stream_path of
                      Inl _ \<Rightarrow> None
                    | Inr segment_path \<Rightarrow> Some (day_path, stream_path, segment_path))))))))"

fun plain_directories :: "path list \<Rightarrow> (ResolvedSegmentFiles, unit) io" where
  "plain_directories [] = returnE ()"
| "plain_directories (p # ps) =
     tryE (fs_lstat p) (\<lambda>r.
       case r of
         Inl NotFound \<Rightarrow> throwE RsMissing
       | Inl _ \<Rightarrow> throwE RsInvalid
       | Inr n \<Rightarrow> if is_plain_directory n then plain_directories ps else throwE RsInvalid)"

text \<open>The stream and the segment directory of a candidate.\<close>

definition locate_candidate ::
  "TimeApi \<Rightarrow> path \<Rightarrow> SegmentCandidate \<Rightarrow> (ResolvedSegmentFiles, path \<times> path) io" where
  "locate_candidate api root c =
     tryE (fs_lstat root) (\<lambda>r.
       case r of
         Inl _ \<Rightarrow> throwE RsMissing
       | Inr n \<Rightarrow>
           if \<not> is_plain_directory n then throwE RsInvalid
           else case candidate_paths api root c of
             None \<Rightarrow> throwE RsInvalid
           | Some (day_path, stream_path, segment_path) \<Rightarrow>
               bindE (plain_directories [day_path, stream_path, segment_path]) (\<lambda>_.
               returnE (stream_path, segment_path)))"

definition read_segment_dir :: "path \<Rightarrow> (ResolvedSegmentFiles, (string \<times> node) list) io" where
  "read_segment_dir p = map_errE (\<lambda>e. if e = NotFound then RsMissing else RsInvalid) (fs_read_dir p)"

definition valid_member :: "string \<Rightarrow> string \<Rightarrow> bool" where
  "valid_member segment name \<longleftrightarrow>
     valid_capture_filename name
     \<or> (case map_option fst (split_once (CHR ''_'') segment) of
          None \<Rightarrow> False | Some stem \<Rightarrow> valid_activity_filename name stem)"

fun segment_members ::
  "path \<Rightarrow> string \<Rightarrow> (string \<times> node) list \<Rightarrow> (ResolvedSegmentFiles, path list) io" where
  "segment_members segment_path segment [] = returnE []"
| "segment_members segment_path segment ((name, kind) # es) =
     (if \<not> valid_utf8 name \<or> \<not> valid_member segment name then throwE RsInvalid
      else
        bindE (plain_regular_entry kind (segment_path @ [name])) (\<lambda>plain.
        if \<not> plain then throwE RsInvalid
        else case exact_component name of
          None \<Rightarrow> throwE RsInvalid
        | Some component \<Rightarrow>
            (case join_checked component segment_path of
               Inl _ \<Rightarrow> throwE RsInvalid
             | Inr p \<Rightarrow>
                 if p \<noteq> segment_path @ [name] then throwE RsInvalid
                 else bindE (segment_members segment_path segment es) (\<lambda>ps. returnE (p # ps)))))"

definition resolve_segment_files ::
  "TimeApi \<Rightarrow> path \<Rightarrow> SegmentCandidate \<Rightarrow> ('e, ResolvedSegmentFiles) io" where
  "resolve_segment_files api root c =
     early_return (
       bindE (locate_candidate api root c) (\<lambda>(_, segment_path).
       bindE (read_segment_dir segment_path) (\<lambda>entries.
       bindE (segment_members segment_path (sc_segment c) entries) (\<lambda>files.
       if files = [] then returnE RsEmpty else returnE (RsFound (sort files))))))"

subsection \<open>Identities\<close>

definition file_identity :: "stamp \<Rightarrow> path \<Rightarrow> (unit, FileIdentity) io" where
  "file_identity stamp p =
     bindE (map_errE (\<lambda>_. ()) (open_regular_readonly p)) (\<lambda>i.
     bindE (nothing (fs_metadata stamp i)) (\<lambda>m.
     if p = [] \<or> last p = ''..'' \<or> \<not> valid_utf8 (last p) then throwE ()
     else returnE \<lparr>fi_name = last p, fi_device = st_device (mt_stamp m), fi_inode = mt_inode m,
       fi_size = mt_size m, fi_mtime = st_mtime (mt_stamp m), fi_mtime_nsec = st_mtime_nsec (mt_stamp m),
       fi_ctime = st_ctime (mt_stamp m), fi_ctime_nsec = st_ctime_nsec (mt_stamp m)\<rparr>))"

text \<open>\<open>None\<close> is the error \<open>()\<close>.\<close>

fun file_identities :: "stamp \<Rightarrow> path list \<Rightarrow> (unit, FileIdentity list) io" where
  "file_identities stamp [] = returnE []"
| "file_identities stamp (p # ps) =
     bindE (file_identity stamp p) (\<lambda>i. bindE (file_identities stamp ps) (\<lambda>is. returnE (i # is)))"

subsection \<open>Looking changes nothing\<close>

lemma quiet_metadata [quiet_intros]: "quietE (fs_metadata stamp i)"
  unfolding fs_metadata_def by (rule quiet_sys) simp

lemma quiet_entries [quiet_intros]:
  "quietE (plain_directory_entry kind p)" "quietE (plain_regular_entry kind p)"
  unfolding plain_directory_entry_def plain_regular_entry_def by (intro quiet_intros)+

lemma quiet_nothing [quiet_intros]: "quietE m \<Longrightarrow> quietE (nothing m)"
  unfolding nothing_def by (rule quiet_map_err)

lemma quiet_scan_segments [quiet_intros]: "quietE (scan_segments p d s es)"
  by (induction p d s es rule: scan_segments.induct) (simp_all add: quiet_intros)

lemma quiet_scan_streams [quiet_intros]: "quietE (scan_streams p d es)"
proof (induction es)
  case (Cons e es)
  then show ?case
    by (cases e) (simp only: scan_streams.simps, intro quiet_intros)
qed (simp add: quiet_intros)

lemma quiet_scan_days [quiet_intros]: "quietE (scan_days api p es)"
proof (induction es)
  case (Cons e es)
  then show ?case
    by (cases e) (simp only: scan_days.simps, intro quiet_intros)
qed (simp add: quiet_intros)

lemma quiet_scan_candidates [quiet_intros]: "quietE (scan_candidates api root)"
  unfolding scan_candidates_def by (intro quiet_intros)

lemma quiet_plain_directories [quiet_intros]: "quietE (plain_directories ps)"
  by (induction ps) (simp_all add: quiet_intros)

lemma quiet_locate [quiet_intros]: "quietE (locate_candidate api root c)"
  unfolding locate_candidate_def by (intro quiet_intros)

lemma quiet_members [quiet_intros]: "quietE (segment_members p s es)"
proof (induction es)
  case (Cons e es)
  then show ?case
    by (cases e) (simp only: segment_members.simps, intro quiet_intros)
qed (simp add: quiet_intros)

lemma quiet_resolve [quiet_intros]: "quietE (resolve_segment_files api root c)"
  unfolding resolve_segment_files_def read_segment_dir_def by (intro quiet_intros)

lemma quiet_identities [quiet_intros]: "quietE (file_identity stamp p)" "quietE (file_identities stamp ps)"
proof -
  show one: "quietE (file_identity stamp p)" for p
    unfolding file_identity_def by (auto intro!: quiet_intros)
  show "quietE (file_identities stamp ps)"
    by (induction ps) (auto intro!: quiet_intros one)
qed
subsection \<open>Which sessions can be uploaded\<close>

lemma strip_session_name:
  "Option.bind (strip_prefix ''tmux_'' (session_filename n)) (strip_suffix ''_screen.jsonl'') = Some (as_str n)"
proof -
  have "strip_prefix ''tmux_'' (session_filename n) = Some (as_str n @ ''_screen.jsonl'')"
    unfolding strip_prefix_Some session_filename_def by simp
  moreover have "strip_suffix ''_screen.jsonl'' (as_str n @ ''_screen.jsonl'') = Some (as_str n)"
    unfolding strip_suffix_Some by simp
  ultimately show ?thesis by simp
qed

lemma canonical_session_filename:
  "canonical (session_filename n) \<longleftrightarrow> list_all canonical_rest (as_str n)"
  by (simp add: session_filename_def canonical_def byte_simps)

lemma tilde_not_canonical_rest: "\<not> canonical_rest (CHR ''~'')"
  by (simp add: byte_simps)

text \<open>
  C26. The names of session files and the names the uploader accepts agree only on part of the
  sessions: the file of a recorded session is a valid member of a segment exactly if the identity
  of the session is canonical (lower-case letters, digits, dot, underscore and hyphen, beginning
  with a letter or digit) and at most 182 bytes long. Any other session is recorded under a name
  the uploader rejects.
\<close>

theorem uploadable_sessions:
  assumes "derive_component identity = Inr n"
  shows "valid_capture_filename (session_filename n) \<longleftrightarrow> canonical identity \<and> length identity \<le> 182"
proof (cases "canonical identity")
  case True
  then have n: "as_str n = identity" "identity \<noteq> []"
    using derive_component_Inr [OF assms] by simp_all
  have c: "canonical (session_filename n)"
    using canonical_chars [OF True] by (simp add: canonical_session_filename n)
  have "valid_capture_filename (session_filename n)
    \<longleftrightarrow> exact_component (session_filename n) \<noteq> None \<and> exact_component (as_str n) \<noteq> None"
    by (simp add: valid_capture_filename_def strip_session_name)
  also have "exact_component (session_filename n) \<noteq> None \<longleftrightarrow> length identity \<le> 182"
    using c n by (auto simp: exact_component_iff session_filename_def MAX_COMPONENT_BYTES_def)
  also have "length identity \<le> 182 \<and> exact_component (as_str n) \<noteq> None \<longleftrightarrow> length identity \<le> 182"
    using True n by (auto simp: exact_component_iff MAX_COMPONENT_BYTES_def)
  finally show ?thesis using True by simp
next
  case False
  then have "CHR ''~'' \<in> set (as_str n)" using derive_component_Inr(5) [OF assms] by simp
  then have "\<not> list_all canonical_rest (as_str n)"
    using tilde_not_canonical_rest by (auto simp: list_all_iff)
  then have "\<not> canonical (session_filename n)" by (simp add: canonical_session_filename)
  then show ?thesis
    using False by (auto simp: valid_capture_filename_def strip_session_name exact_component_iff)
qed

theorem uploadable_sessions_witness:
  "derive_component ''Work'' = Inr (DerivedName ''Work~576f726b'')
   \<and> \<not> valid_capture_filename (session_filename (DerivedName ''Work~576f726b''))"
proof -
  have d: "derive_component ''Work'' = Inr (DerivedName ''Work~576f726b'')" by code_simp
  moreover have "\<not> canonical ''Work''" by code_simp
  ultimately show ?thesis using uploadable_sessions [OF d] by simp
qed

subsection \<open>What a scan finds\<close>

lemma wp_plain_directory:
  assumes "\<And>b. b \<Longrightarrow> is_plain_directory kind \<and> is_dir w p \<Longrightarrow> Q b (tick w)" "Q False (tick w)"
  shows "wpE (plain_directory_entry kind p) Q R w"
  unfolding plain_directory_entry_def wpE_try wpE_return
proof (rule wp_lstat)
  fix n assume n: "node_at w p = Some n"
  show "Q (case Inr n of Inl _ \<Rightarrow> False | Inr n \<Rightarrow> is_plain_directory kind \<and> is_plain_directory n) (tick w)"
  proof (cases "is_plain_directory kind \<and> is_plain_directory n")
    case True
    then have "is_dir w p" using n by (auto simp: is_plain_directory_def is_dir_def split: node.splits)
    then show ?thesis using True assms(1) by simp
  next
    case False
    then show ?thesis using assms(2) by (simp only: sum.case)
  qed
qed (simp_all add: assms)

lemma wp_plain_regular:
  assumes "\<And>b i. b \<Longrightarrow> is_plain_file kind \<Longrightarrow> node_at w p = Some (NFile i) \<Longrightarrow> Q b (tick w)" "Q False (tick w)"
  shows "wpE (plain_regular_entry kind p) Q R w"
  unfolding plain_regular_entry_def wpE_try wpE_return
proof (rule wp_lstat)
  fix n assume n: "node_at w p = Some n"
  show "Q (case Inr n of Inl _ \<Rightarrow> False | Inr n \<Rightarrow> is_plain_file kind \<and> is_plain_file n) (tick w)"
  proof (cases "is_plain_file kind \<and> is_plain_file n")
    case True
    then obtain i where "n = NFile i" by (auto simp: is_plain_file_def split: node.splits)
    then show ?thesis using True assms(1) n by simp
  next
    case False
    then show ?thesis using assms(2) by (simp only: sum.case)
  qed
qed (simp_all add: assms)

lemma wp_list_dir:
  assumes "is_dir w p" "R EIO (tick w)" "Q (dir_entries w p) (tick w)"
  shows "wpE (fs_read_dir p) Q R w"
proof -
  obtain i where i: "node_at w p = Some (NDir i)"
    using assms(1) by (auto simp: is_dir_def split: option.splits node.splits)
  have r: "resolve 40 w p = Inr (NDir i)" using i resolve.simps(2) [of 39 w p] by simp
  show ?thesis
    unfolding fs_read_dir_def
    by (rule wp_sys) (use assms r in \<open>auto simp: wpE_def world_simps dir_entries_def\<close>)
qed

lemma dir_entries_complete: "node_at w (d @ [n]) = Some k \<Longrightarrow> (n, k) \<in> set (dir_entries w d)"
  by (force simp: dir_entries_def node_at_def dest: map_of_SomeD)

text \<open>A segment in the capture tree.\<close>

definition segment_in :: "world \<Rightarrow> path \<Rightarrow> SegmentCandidate \<Rightarrow> bool" where
  "segment_in w day_path c \<longleftrightarrow>
     exact_component (sc_stream c) \<noteq> None \<and> valid_segment_name (sc_segment c)
     \<and> is_dir w (day_path @ [sc_stream c]) \<and> is_dir w (day_path @ [sc_stream c, sc_segment c])"

definition a_segment :: "TimeApi \<Rightarrow> world \<Rightarrow> path \<Rightarrow> SegmentCandidate \<Rightarrow> bool" where
  "a_segment api w root c \<longleftrightarrow>
     is_dir w root \<and> parse_day api (sc_day c) \<noteq> None \<and> is_dir w (root @ [sc_day c])
     \<and> segment_in w (root @ [sc_day c]) c"

definition found_segments ::
  "world \<Rightarrow> path \<Rightarrow> string \<Rightarrow> string \<Rightarrow> (string \<times> node) list \<Rightarrow> SegmentCandidate list \<Rightarrow> bool" where
  "found_segments w p day stream es cs \<longleftrightarrow>
     (\<forall>c \<in> set cs. sc_day c = day \<and> sc_stream c = stream \<and> valid_segment_name (sc_segment c)
        \<and> is_dir w (p @ [sc_segment c]))
     \<and> (\<forall>g k. (g, k) \<in> set es \<longrightarrow> valid_segment_name g \<longrightarrow>
        \<lparr>sc_day = day, sc_stream = stream, sc_segment = g\<rparr> \<in> set cs)"

lemma found_segments_skip:
  "found_segments w p day stream es cs \<Longrightarrow> \<not> valid_segment_name g
   \<Longrightarrow> found_segments w p day stream ((g, k) # es) cs"
  unfolding found_segments_def by auto

lemma found_segments_more:
  assumes "found_segments w p day stream es cs" "valid_segment_name g" "is_dir w (p @ [g])"
  shows "found_segments w p day stream ((g, k) # es) (\<lparr>sc_day = day, sc_stream = stream, sc_segment = g\<rparr> # cs)"
  using assms unfolding found_segments_def by auto

lemma scan_segments_spec:
  assumes "only_ticks w u"
  shows "wpE (scan_segments p day stream es)
    (\<lambda>cs _. found_segments w p day stream es cs) (\<lambda>_ _. True) u"
  using assms
proof (induction es arbitrary: u)
  case Nil
  then show ?case by (simp add: found_segments_def)
next
  case (Cons e es)
  obtain g k where e: "e = (g, k)" by fastforce
  have t: "only_ticks w (tick u)" using Cons.prems by simp
  show ?case
  proof (cases "valid_utf8 g \<and> valid_segment_name g")
    case True
    then show ?thesis
      unfolding e by simp
        (rule wp_plain_directory; auto simp: only_ticks_obs [OF Cons.prems]
          intro!: wpE_mono [OF Cons.IH [OF t]] found_segments_more)
  next
    case False
    then show ?thesis
      using Cons.IH [OF Cons.prems] found_segments_skip unfolding e by (auto elim!: wpE_mono)
  qed
qed
text \<open>What the loop over the streams of a day contributes.\<close>

definition found_streams ::
  "world \<Rightarrow> path \<Rightarrow> string \<Rightarrow> (string \<times> node) list \<Rightarrow> SegmentCandidate list \<Rightarrow> bool" where
  "found_streams w dp day es cs \<longleftrightarrow>
     (\<forall>c \<in> set cs. sc_day c = day \<and> segment_in w dp c)
     \<and> (\<forall>c i. sc_day c = day \<longrightarrow> segment_in w dp c \<longrightarrow> (sc_stream c, NDir i) \<in> set es \<longrightarrow> c \<in> set cs)"

lemma found_streamsD:
  assumes "found_streams w dp day es cs"
  shows "c \<in> set cs \<Longrightarrow> sc_day c = day \<and> segment_in w dp c"
    "sc_day c = day \<Longrightarrow> segment_in w dp c \<Longrightarrow> (sc_stream c, NDir i) \<in> set es \<Longrightarrow> c \<in> set cs"
  using assms unfolding found_streams_def by blast+

lemma found_streams_skip:
  assumes f: "found_streams w dp day es cs" and s: "exact_component s = None \<or> is_plain_file k"
  shows "found_streams w dp day ((s, k) # es) cs"
  unfolding found_streams_def
proof (intro conjI ballI allI impI)
  fix c i assume c: "sc_day c = day" "segment_in w dp c" and e: "(sc_stream c, NDir i) \<in> set ((s, k) # es)"
  from s have "(sc_stream c, NDir i) \<noteq> (s, k)"
    using c(2) unfolding segment_in_def is_plain_file_def by auto
  with e have "(sc_stream c, NDir i) \<in> set es" by (metis set_ConsD)
  with found_streamsD(2) [OF f c] show "c \<in> set cs" .
qed (use found_streamsD(1) [OF f] in blast)+

lemma found_streams_more:
  assumes f: "found_streams w dp day es cs'"
    and g: "found_segments w (dp @ [s]) day s (dir_entries w (dp @ [s])) cs"
    and s: "exact_component s \<noteq> None" "is_dir w (dp @ [s])"
  shows "found_streams w dp day ((s, k) # es) (cs @ cs')"
proof -
  have new: "sc_day c = day \<and> segment_in w dp c" if "c \<in> set cs" for c
    using g s that unfolding found_segments_def segment_in_def by fastforce
  have "c \<in> set (cs @ cs')"
    if c: "sc_day c = day" "segment_in w dp c" and e: "(sc_stream c, NDir i) \<in> set ((s, k) # es)" for c i
  proof (cases "sc_stream c = s")
    case True
    have "is_dir w ((dp @ [s]) @ [sc_segment c])" using c(2) True by (simp add: segment_in_def)
    then obtain j where "node_at w ((dp @ [s]) @ [sc_segment c]) = Some (NDir j)"
      by (auto simp: is_dir_def split: option.splits node.splits)
    from dir_entries_complete [OF this] c(2) g
    have "\<lparr>sc_day = day, sc_stream = s, sc_segment = sc_segment c\<rparr> \<in> set cs"
      unfolding segment_in_def found_segments_def by blast
    moreover have "c = \<lparr>sc_day = day, sc_stream = s, sc_segment = sc_segment c\<rparr>"
      using c(1) True by (cases c) simp
    ultimately show ?thesis by simp
  next
    case False
    with e have "(sc_stream c, NDir i) \<in> set es" by simp
    with found_streamsD(2) [OF f c] show ?thesis by simp
  qed
  with new found_streamsD(1) [OF f] show ?thesis
    unfolding found_streams_def by (metis Un_iff set_append)
qed

lemma join_exact: "derive_component s = Inr d \<Longrightarrow> join_checked d p = Inr (p @ [s]) \<longleftrightarrow> exact_component s = Some d"
  by (simp add: join_checked_derived exact_component_def)

lemma exact_utf8: "exact_component s \<noteq> None \<Longrightarrow> valid_utf8 s"
proof -
  assume "exact_component s \<noteq> None"
  then have "canonical s" by (auto simp: exact_component_iff)
  then have "list_all (\<lambda>c. byte c < 128) s"
    using canonical_chars [of s] by (auto simp: list_all_iff canonical_rest_ascii)
  then show ?thesis by (rule valid_utf8_ascii)
qed

lemma scan_streams_spec:
  assumes "only_ticks w u"
  shows "wpE (scan_streams dp day es) (\<lambda>cs _. found_streams w dp day es cs) (\<lambda>_ _. True) u"
  using assms
proof (induction es arbitrary: u)
  case Nil
  then show ?case by (simp add: found_streams_def)
next
  case (Cons e es)
  obtain s k where e: "e = (s, k)" by fastforce
  have t: "only_ticks w (tick u)" "only_ticks w (tick (tick u))" using Cons.prems by simp_all
  have skip: "wpE (scan_streams dp day es) (\<lambda>cs _. found_streams w dp day (e # es) cs) (\<lambda>_ _. True) u"
    if "exact_component s = None \<or> is_plain_file k"
    unfolding e by (rule wpE_mono [OF Cons.IH [OF Cons.prems]]) (simp_all add: found_streams_skip that)
  show ?case
  proof (cases "valid_utf8 s \<and> (\<exists>d. derive_component s = Inr d) \<and> \<not> is_plain_file k")
    case False
    then have "exact_component s = None \<or> is_plain_file k"
      using exact_utf8 [of s] by (auto simp: exact_component_def split: sum.splits)
    with skip False show ?thesis unfolding e by (auto split: sum.split)
  next
    case True
    then obtain d where d: "derive_component s = Inr d" by blast
    have stream: "wpE (scan_segments (dp @ [s]) day s (dir_entries w (dp @ [s])))
        (\<lambda>cs. wpE (scan_streams dp day es) (\<lambda>cs' _. found_streams w dp day ((s, k) # es) (cs @ cs')) (\<lambda>_ _. True))
        (\<lambda>_ _. True) (tick (tick u))"
      if "exact_component s \<noteq> None" "is_dir w (dp @ [s])"
    proof (rule wpE_mono [OF wp_quiet [OF quiet_scan_segments scan_segments_spec [OF t(2)]]])
      fix cs v
      assume a: "found_segments w (dp @ [s]) day s (dir_entries w (dp @ [s])) cs \<and> only_ticks (tick (tick u)) v"
      then have v: "only_ticks w v" using t(2) only_ticks_trans by blast
      show "wpE (scan_streams dp day es) (\<lambda>cs' _. found_streams w dp day ((s, k) # es) (cs @ cs')) (\<lambda>_ _. True) v"
        by (rule wpE_mono [OF Cons.IH [OF v]])
          (rule found_streams_more [OF _ conjunct1 [OF a] that], assumption, rule TrueI)
    qed simp
    have inner: "wpE (nothing (fs_read_dir (dp @ [s])))
        (\<lambda>inner. wpE (scan_segments (dp @ [s]) day s inner)
          (\<lambda>cs. wpE (scan_streams dp day es) (\<lambda>cs' _. found_streams w dp day ((s, k) # es) (cs @ cs')) (\<lambda>_ _. True))
          (\<lambda>_ _. True)) (\<lambda>_ _. True) (tick u)"
      if "exact_component s \<noteq> None" "is_dir w (dp @ [s])"
      unfolding nothing_def wpE_map_err
      by (rule wp_list_dir) (use stream [OF that] that only_ticks_obs [OF t(1)] in simp_all)
    have after: "wpE (if \<not> b then throwE () else case join_checked d dp of Inl _ \<Rightarrow> throwE ()
        | Inr p \<Rightarrow> if p \<noteq> dp @ [s] then throwE () else
            bindE (nothing (fs_read_dir p)) (\<lambda>inner. bindE (scan_segments p day (as_str d) inner) (\<lambda>cs.
            bindE (scan_streams dp day es) (\<lambda>cs'. returnE (cs @ cs')))))
        (\<lambda>cs _. found_streams w dp day (e # es) cs) (\<lambda>_ _. True) (tick u)"
      if "b \<Longrightarrow> is_dir w (dp @ [s])" for b
    proof (cases "b \<and> as_str d = s")
      case True
      then have x: "exact_component s \<noteq> None" "join_checked d dp = Inr (dp @ [s])"
        using d by (auto simp: exact_component_def join_checked_derived)
      with True inner [OF x(1)] that show ?thesis by (simp add: e)
    next
      case False
      then show ?thesis using d by (auto simp: join_checked_derived)
    qed
    have "wpE (plain_directory_entry k (dp @ [s])) (\<lambda>b. wpE (if \<not> b then throwE ()
        else case join_checked d dp of Inl _ \<Rightarrow> throwE ()
        | Inr p \<Rightarrow> if p \<noteq> dp @ [s] then throwE () else
            bindE (nothing (fs_read_dir p)) (\<lambda>inner. bindE (scan_segments p day (as_str d) inner) (\<lambda>cs.
            bindE (scan_streams dp day es) (\<lambda>cs'. returnE (cs @ cs')))))
        (\<lambda>cs _. found_streams w dp day (e # es) cs) (\<lambda>_ _. True)) (\<lambda>_ _. True) u"
      by (rule wp_plain_directory; rule after) (use only_ticks_obs(4) [OF Cons.prems] in auto)
    then show ?thesis
      unfolding e scan_streams.simps using True d by (simp only: sum.case if_False not_not if_True wpE_bind simp_thms)
  qed
qed
definition found_days ::
  "TimeApi \<Rightarrow> world \<Rightarrow> path \<Rightarrow> (string \<times> node) list \<Rightarrow> SegmentCandidate list \<Rightarrow> bool" where
  "found_days api w root es cs \<longleftrightarrow>
     (\<forall>c \<in> set cs. parse_day api (sc_day c) \<noteq> None \<and> is_dir w (root @ [sc_day c])
        \<and> segment_in w (root @ [sc_day c]) c)
     \<and> (\<forall>c i. parse_day api (sc_day c) \<noteq> None \<longrightarrow> segment_in w (root @ [sc_day c]) c
        \<longrightarrow> (sc_day c, NDir i) \<in> set es \<longrightarrow> c \<in> set cs)"

lemma found_daysD:
  assumes "found_days api w root es cs"
  shows "c \<in> set cs \<Longrightarrow> parse_day api (sc_day c) \<noteq> None \<and> is_dir w (root @ [sc_day c])
        \<and> segment_in w (root @ [sc_day c]) c"
    "parse_day api (sc_day c) \<noteq> None \<Longrightarrow> segment_in w (root @ [sc_day c]) c
      \<Longrightarrow> (sc_day c, NDir i) \<in> set es \<Longrightarrow> c \<in> set cs"
  using assms unfolding found_days_def by blast+

lemma found_days_skip:
  assumes f: "found_days api w root es cs" and d: "parse_day api d = None"
  shows "found_days api w root ((d, k) # es) cs"
  unfolding found_days_def
proof (intro conjI ballI allI impI)
  fix c i assume c: "parse_day api (sc_day c) \<noteq> None" "segment_in w (root @ [sc_day c]) c"
    and e: "(sc_day c, NDir i) \<in> set ((d, k) # es)"
  from d c(1) have "(sc_day c, NDir i) \<noteq> (d, k)" by auto
  with e have "(sc_day c, NDir i) \<in> set es" by (metis set_ConsD)
  with found_daysD(2) [OF f c] show "c \<in> set cs" .
qed (use found_daysD(1) [OF f] in blast)+

lemma found_days_more:
  assumes f: "found_days api w root es cs'"
    and g: "found_streams w (root @ [d]) d (dir_entries w (root @ [d])) cs"
    and d: "parse_day api d \<noteq> None" "is_dir w (root @ [d])"
  shows "found_days api w root ((d, k) # es) (cs @ cs')"
proof -
  have new: "parse_day api (sc_day c) \<noteq> None \<and> is_dir w (root @ [sc_day c])
      \<and> segment_in w (root @ [sc_day c]) c" if "c \<in> set cs" for c
    using found_streamsD(1) [OF g that] d by simp
  have "c \<in> set (cs @ cs')"
    if c: "parse_day api (sc_day c) \<noteq> None" "segment_in w (root @ [sc_day c]) c"
      and e: "(sc_day c, NDir i) \<in> set ((d, k) # es)" for c i
  proof (cases "sc_day c = d")
    case True
    have "is_dir w ((root @ [d]) @ [sc_stream c])" using c(2) True by (simp add: segment_in_def)
    then obtain j where "node_at w ((root @ [d]) @ [sc_stream c]) = Some (NDir j)"
      by (auto simp: is_dir_def split: option.splits node.splits)
    from found_streamsD(2) [OF g True _ dir_entries_complete [OF this]] c(2) True
    show ?thesis by simp
  next
    case False
    with e have "(sc_day c, NDir i) \<in> set es" by simp
    with found_daysD(2) [OF f c] show ?thesis by simp
  qed
  with new found_daysD(1) [OF f] show ?thesis
    unfolding found_days_def by (metis Un_iff set_append)
qed

lemma scan_days_spec:
  assumes "only_ticks w u"
  shows "wpE (scan_days api root es) (\<lambda>cs _. found_days api w root es cs) (\<lambda>_ _. True) u"
  using assms
proof (induction es arbitrary: u)
  case Nil
  then show ?case by (simp add: found_days_def)
next
  case (Cons e es)
  obtain d k where e: "e = (d, k)" by fastforce
  have t: "only_ticks w (tick u)" "only_ticks w (tick (tick u))" using Cons.prems by simp_all
  show ?case
  proof (cases "valid_utf8 d \<and> parse_day api d \<noteq> None")
    case False
    then show ?thesis
      using Cons.IH [OF Cons.prems] found_days_skip unfolding e by (auto elim!: wpE_mono)
  next
    case True
    then have p: "parse_day api d \<noteq> None" by simp
    have days: "wpE (scan_streams (root @ [d]) d (dir_entries w (root @ [d])))
        (\<lambda>cs. wpE (scan_days api root es) (\<lambda>cs' _. found_days api w root (e # es) (cs @ cs')) (\<lambda>_ _. True))
        (\<lambda>_ _. True) (tick (tick u))"
      if d: "is_dir w (root @ [d])"
    proof (rule wpE_mono [OF wp_quiet [OF quiet_scan_streams scan_streams_spec [OF t(2)]]])
      fix cs v
      assume a: "found_streams w (root @ [d]) d (dir_entries w (root @ [d])) cs \<and> only_ticks (tick (tick u)) v"
      then have v: "only_ticks w v" using t(2) only_ticks_trans by blast
      show "wpE (scan_days api root es) (\<lambda>cs' _. found_days api w root (e # es) (cs @ cs')) (\<lambda>_ _. True) v"
        unfolding e by (rule wpE_mono [OF Cons.IH [OF v]])
          (rule found_days_more [OF _ conjunct1 [OF a] p d], assumption, rule TrueI)
    qed simp
    have inner: "wpE (nothing (fs_read_dir (root @ [d])))
        (\<lambda>inner. wpE (scan_streams (root @ [d]) d inner)
          (\<lambda>cs. wpE (scan_days api root es) (\<lambda>cs' _. found_days api w root (e # es) (cs @ cs')) (\<lambda>_ _. True))
          (\<lambda>_ _. True)) (\<lambda>_ _. True) (tick u)" if "is_dir w (root @ [d])"
      unfolding nothing_def wpE_map_err
      by (rule wp_list_dir) (use days [OF that] that only_ticks_obs [OF t(1)] in simp_all)
    show ?thesis
      unfolding e scan_days.simps using True
      apply (simp only: not_True_eq_False if_False simp_thms wpE_bind)
      apply (rule wp_plain_directory)
      subgoal for b
        using inner e by (auto simp: only_ticks_obs [OF Cons.prems] split: sum.split)
      by simp
  qed
qed

lemma wp_scan_candidates:
  "wpE (scan_candidates api root)
    (\<lambda>cs _. (is_dir w root \<longrightarrow> (\<exists>cs'. cs = newest_first cs' \<and> found_days api w root (dir_entries w root) cs'))
       \<and> (\<not> is_dir w root \<longrightarrow> cs = [])) (\<lambda>_ _. True) w"
  unfolding scan_candidates_def wpE_try
proof (rule wp_lstat)
  fix n assume n: "node_at w root = Some n"
  show "wpE (case Inr n of Inl NotFound \<Rightarrow> returnE [] | Inl _ \<Rightarrow> throwE ()
      | Inr n \<Rightarrow> if is_plain_directory n then bindE (nothing (fs_read_dir root)) (\<lambda>entries.
          bindE (scan_days api root entries) (\<lambda>cs. returnE (newest_first cs))) else throwE ())
    (\<lambda>cs _. (is_dir w root \<longrightarrow> (\<exists>cs'. cs = newest_first cs' \<and> found_days api w root (dir_entries w root) cs'))
       \<and> (\<not> is_dir w root \<longrightarrow> cs = [])) (\<lambda>_ _. True) (tick w)"
  proof (cases "is_plain_directory n")
    case True
    then have d: "is_dir w root" using n by (auto simp: is_plain_directory_def is_dir_def split: node.splits)
    have t: "only_ticks w (tick (tick w))" by simp
    have same: "dir_entries (tick w) = dir_entries w" "is_dir (tick w) = is_dir w"
      using only_ticks_obs [of w "tick w"] by simp_all
    show ?thesis
      using True d by (simp add: nothing_def)
        (rule wp_list_dir; auto simp: same intro!: wpE_mono [OF scan_days_spec [OF t]])
  qed simp
qed (auto simp: EIO_def is_dir_def)

lemma set_newest_first: "set (newest_first cs) = set cs"
  by (simp add: newest_first_def)

lemma sorted_newest_first: "sorted_wrt (\<lambda>a b. candidate_key b \<le> candidate_key a) (newest_first cs)"
  using sorted_sort_key [of candidate_key "rev cs"]
  by (simp add: newest_first_def sorted_wrt_rev sorted_map)

lemma scan_spec:
  "wpE (scan_candidates api root)
      (\<lambda>cs w'. (set cs = {c. a_segment api w root c} \<and> sorted_wrt (\<lambda>a b. candidate_key b \<le> candidate_key a) cs)
        \<and> only_ticks w w') (\<lambda>_ w'. True \<and> only_ticks w w') w"
proof -
  have days: "set cs = {c. a_segment api w root c}"
    if d: "is_dir w root" and f: "found_days api w root (dir_entries w root) cs" for cs
  proof -
    have "c \<in> set cs" if c: "a_segment api w root c" for c
    proof -
      have "is_dir w (root @ [sc_day c])" using c by (simp add: a_segment_def)
      then obtain j where "node_at w (root @ [sc_day c]) = Some (NDir j)"
        by (auto simp: is_dir_def split: option.splits node.splits)
      from found_daysD(2) [OF f _ _ dir_entries_complete [OF this]] c show ?thesis
        by (simp add: a_segment_def)
    qed
    with found_daysD(1) [OF f] d show ?thesis unfolding a_segment_def by blast
  qed
  have found: "set cs = {c. a_segment api w root c} \<and> sorted_wrt (\<lambda>a b. candidate_key b \<le> candidate_key a) cs"
    if r: "(is_dir w root \<longrightarrow> (\<exists>cs'. cs = newest_first cs' \<and> found_days api w root (dir_entries w root) cs'))
       \<and> (\<not> is_dir w root \<longrightarrow> cs = [])" for cs
  proof (cases "is_dir w root")
    case True
    then obtain cs' where "cs = newest_first cs'" "found_days api w root (dir_entries w root) cs'" using r by blast
    with days [OF True] show ?thesis by (metis set_newest_first sorted_newest_first)
  next
    case False
    then have "\<not> a_segment api w root c" for c by (simp add: a_segment_def)
    with False r show ?thesis by simp
  qed
  show ?thesis
    by (intro wp_quiet quiet_intros wpE_mono [OF wp_scan_candidates]) (erule found, rule TrueI)
qed

text \<open>
  C27. A scan that succeeds finds every segment and nothing else, newest first: the candidates
  are exactly the directories root/day/stream/segment whose day is a date of the calendar, whose
  stream is a derived name and whose name is a segment's, in descending order of day, segment
  and stream. A scan changes nothing on disk, whatever fails.
\<close>

theorem scan_finds_the_segments:
  "case scan_candidates api root w of
      (Inr cs, w') \<Rightarrow> only_ticks w w' \<and> set cs = {c. a_segment api w root c}
        \<and> sorted_wrt (\<lambda>a b. candidate_key b \<le> candidate_key a) cs
    | (Inl _, w') \<Rightarrow> only_ticks w w'"
  using scan_spec [of api root w] by (auto simp: wpE_def split: prod.splits sum.splits)

subsection \<open>What a segment resolves to\<close>

lemma join_exact_component: "exact_component s = Some d \<Longrightarrow> join_checked d p = Inr (p @ [s])"
  using join_checked_derived [of s d p] by (auto simp: exact_component_def split: sum.splits if_splits)

definition segment_dir_of :: "path \<Rightarrow> SegmentCandidate \<Rightarrow> path" where
  "segment_dir_of root c = root @ [sc_day c, sc_stream c, sc_segment c]"

lemma candidate_paths_Some:
  assumes "candidate_paths api root c = Some (dp, sp, gp)"
  shows "gp = segment_dir_of root c" "sp = root @ [sc_day c, sc_stream c]" "dp = root @ [sc_day c]"
    "parse_day api (sc_day c) \<noteq> None" "exact_component (sc_stream c) \<noteq> None"
    "exact_component (sc_segment c) \<noteq> None" "valid_segment_name (sc_segment c)"
  using assms
  by (auto simp: candidate_paths_def segment_dir_of_def join_exact_component
      split: if_splits sum.splits dest!: bind_eq_Some_conv [THEN iffD1])

lemma plain_directories_spec:
  "only_ticks w u \<Longrightarrow> wpE (plain_directories ps) (\<lambda>_ _. \<forall>p \<in> set ps. is_dir w p)
     (\<lambda>e _. e \<in> {RsMissing, RsInvalid}) u"
proof (induction ps arbitrary: u)
  case (Cons p ps)
  have t: "only_ticks w (tick u)" using Cons.prems by simp
  have "is_dir w p" if "node_at u p = Some n" "is_plain_directory n" for n
    using that only_ticks_obs [OF Cons.prems] by (auto simp: is_dir_def is_plain_directory_def split: node.splits)
  then show ?case
    unfolding plain_directories.simps wpE_try
    by (intro wp_intros) (auto simp: EIO_def intro!: wpE_mono [OF Cons.IH [OF t]])
qed simp

lemma locate_spec:
  "wpE (locate_candidate api root c)
    (\<lambda>q _. q = (root @ [sc_day c, sc_stream c], segment_dir_of root c)
       \<and> a_segment api w root c \<and> exact_component (sc_segment c) \<noteq> None)
    (\<lambda>e _. e \<in> {RsMissing, RsInvalid}) w"
proof -
  have inner: "wpE (case candidate_paths api root c of None \<Rightarrow> throwE RsInvalid
      | Some (day_path, stream_path, segment_path) \<Rightarrow>
          bindE (plain_directories [day_path, stream_path, segment_path]) (\<lambda>_. returnE (stream_path, segment_path)))
    (\<lambda>q _. q = (root @ [sc_day c, sc_stream c], segment_dir_of root c)
       \<and> a_segment api w root c \<and> exact_component (sc_segment c) \<noteq> None)
    (\<lambda>e _. e \<in> {RsMissing, RsInvalid}) (tick w)" if root: "is_dir w root"
  proof (cases "candidate_paths api root c")
    case (Some q)
    then obtain dp sp gp where q: "candidate_paths api root c = Some (dp, sp, gp)" by (cases q) auto
    note c = candidate_paths_Some [OF q]
    show ?thesis
      unfolding q option.case prod.case wpE_bind
      by (rule wpE_mono [OF plain_directories_spec [of w "tick w"]])
        (use c root in \<open>auto simp: a_segment_def segment_in_def segment_dir_of_def\<close>)
  qed simp
  have "is_dir w root" if "node_at w root = Some n" "is_plain_directory n" for n
    using that by (auto simp: is_dir_def is_plain_directory_def split: node.splits)
  with inner show ?thesis
    unfolding locate_candidate_def wpE_try
    by (intro wp_lstat) (auto simp del: plain_directories.simps)
qed

lemma segment_members_spec:
  assumes "only_ticks w u"
  shows "wpE (segment_members gp seg es)
    (\<lambda>ps _. ps = map (\<lambda>(n, _). gp @ [n]) es
       \<and> (\<forall>n k. (n, k) \<in> set es \<longrightarrow> valid_member seg n \<and> exact_component n \<noteq> None
          \<and> (\<exists>i. node_at w (gp @ [n]) = Some (NFile i))))
    (\<lambda>e _. e = RsInvalid) u"
  using assms
proof (induction es arbitrary: u)
  case (Cons e es)
  obtain n k where e: "e = (n, k)" by fastforce
  have t: "only_ticks w (tick u)" using Cons.prems by simp
  show ?case
  proof (cases "valid_utf8 n \<and> valid_member seg n")
    case False
    then show ?thesis by (auto simp: e)
  next
    case True
    have after: "wpE (if \<not> b then throwE RsInvalid else case exact_component n of None \<Rightarrow> throwE RsInvalid
        | Some component \<Rightarrow> (case join_checked component gp of Inl _ \<Rightarrow> throwE RsInvalid
             | Inr p \<Rightarrow> if p \<noteq> gp @ [n] then throwE RsInvalid
                 else bindE (segment_members gp seg es) (\<lambda>ps. returnE (p # ps))))
      (\<lambda>ps _. ps = map (\<lambda>(n, _). gp @ [n]) (e # es)
       \<and> (\<forall>n k. (n, k) \<in> set (e # es) \<longrightarrow> valid_member seg n \<and> exact_component n \<noteq> None
          \<and> (\<exists>i. node_at w (gp @ [n]) = Some (NFile i))))
      (\<lambda>e _. e = RsInvalid) (tick u)"
      if b: "b \<Longrightarrow> \<exists>i. node_at w (gp @ [n]) = Some (NFile i)" for b
    proof (cases "b \<and> exact_component n \<noteq> None")
      case True
      then obtain d where d: "exact_component n = Some d" "b" by auto
      with b \<open>valid_utf8 n \<and> valid_member seg n\<close> show ?thesis
        by (simp add: join_exact_component e) (rule wpE_mono [OF Cons.IH [OF t]]; auto)
    qed auto
    have regular: "\<exists>i. node_at w (gp @ [n]) = Some (NFile i)" if "node_at u (gp @ [n]) = Some (NFile i)" for i
      using that only_ticks_obs [OF Cons.prems] by simp
    show ?thesis
      using True unfolding e segment_members.simps
      apply (simp only: simp_thms if_False wpE_bind)
      apply (rule wp_plain_regular; rule after [unfolded e])
      using regular by auto
  qed
qed simp

definition member_names :: "world \<Rightarrow> path \<Rightarrow> string list" where
  "member_names w gp = map fst (dir_entries w gp)"

lemma dir_entries_paths: "map (\<lambda>(n, _). gp @ [n]) es = map (\<lambda>n. gp @ [n]) (map fst es)"
  by (induction es) auto

lemma sort_Nil_iff: "sort xs = [] \<longleftrightarrow> xs = []"
  by (metis length_0_conv length_sort)

definition resolved :: "TimeApi \<Rightarrow> world \<Rightarrow> path \<Rightarrow> SegmentCandidate \<Rightarrow> path list \<Rightarrow> bool" where
  "resolved api w root c ps \<longleftrightarrow>
     (let gp = segment_dir_of root c in
      a_segment api w root c \<and> exact_component (sc_segment c) \<noteq> None
      \<and> ps = sort (map (\<lambda>n. gp @ [n]) (member_names w gp))
      \<and> (\<forall>n \<in> set (member_names w gp). valid_member (sc_segment c) n \<and> exact_component n \<noteq> None
          \<and> (\<exists>i. node_at w (gp @ [n]) = Some (NFile i))))"

definition resolution :: "TimeApi \<Rightarrow> world \<Rightarrow> path \<Rightarrow> SegmentCandidate \<Rightarrow> ResolvedSegmentFiles \<Rightarrow> bool" where
  "resolution api w root c r \<longleftrightarrow>
     (case r of
        RsFound ps \<Rightarrow> ps \<noteq> [] \<and> resolved api w root c ps
      | RsEmpty \<Rightarrow> resolved api w root c [] \<and> member_names w (segment_dir_of root c) = []
      | _ \<Rightarrow> True)"

lemma resolve_spec:
  "wpE (resolve_segment_files api root c) (\<lambda>r w'. resolution api w root c r \<and> only_ticks w w')
    (\<lambda>_ w'. False \<and> only_ticks w w') w"
proof -
  let ?Q = "\<lambda>r (_::world). resolution api w root c r"
  let ?gp = "segment_dir_of root c"
  have members: "wpE (segment_members ?gp (sc_segment c) (dir_entries w ?gp))
      (\<lambda>files. wpE (if files = [] then returnE RsEmpty else returnE (RsFound (sort files))) ?Q ?Q) ?Q u"
    if "only_ticks w u" "a_segment api w root c" "exact_component (sc_segment c) \<noteq> None" for u
    by (rule wpE_mono [OF segment_members_spec [OF that(1)]])
      (use that(2,3) in \<open>auto simp: resolution_def resolved_def Let_def member_names_def dir_entries_paths sort_Nil_iff\<close>)
  have dir: "wpE (read_segment_dir ?gp)
      (\<lambda>entries. wpE (segment_members ?gp (sc_segment c) entries)
        (\<lambda>files. wpE (if files = [] then returnE RsEmpty else returnE (RsFound (sort files))) ?Q ?Q) ?Q) ?Q u"
    if "only_ticks w u" "a_segment api w root c" "exact_component (sc_segment c) \<noteq> None" for u
    unfolding read_segment_dir_def wpE_map_err
    by (rule wp_list_dir)
      (use that members only_ticks_obs [OF that(1)] in
        \<open>auto simp: EIO_def resolution_def a_segment_def segment_in_def segment_dir_of_def\<close>)
  show ?thesis
    unfolding resolve_segment_files_def
    by (intro wp_quiet quiet_resolve [unfolded resolve_segment_files_def])
      (use dir in \<open>auto simp: resolution_def intro!: wpE_mono [OF wp_quiet [OF quiet_locate locate_spec]]\<close>)
qed

text \<open>
  A segment resolves to all of its directory or to nothing: when files are found, they are
  every entry of the segment's directory in order of their names, each of them a regular file
  whose name the uploader accepts. A directory with any other entry does not resolve, and one
  reported empty has no entry. Resolving changes nothing on disk, whatever fails.
\<close>

theorem resolved_files_are_the_directory:
  "case (resolve_segment_files api root c :: ('e, ResolvedSegmentFiles) io) w of
      (Inr r, w') \<Rightarrow> only_ticks w w'
        \<and> (case r of
             RsFound ps \<Rightarrow> ps \<noteq> [] \<and> resolved api w root c ps
           | RsEmpty \<Rightarrow> resolved api w root c [] \<and> member_names w (segment_dir_of root c) = []
           | _ \<Rightarrow> True)
    | (Inl _, w') \<Rightarrow> False"
  using resolve_spec [where 'a = 'e, of api root c w]
  by (auto simp: wpE_def resolution_def split: prod.splits sum.splits)

end
