(* ===== verification/Ledger.thy ===== *)
theory Ledger
  imports Candidates Paths
begin

text \<open>
  The sync ledger (\<open>src/sync.rs\<close>, \<open>JournalIdentity\<close> to \<open>prune_ledger_dirs\<close>): below
  \<open>sync-ledger/day/stream/segment\<close> the uploader keeps the receipt of a segment the journal holds
  (\<open>ack.json\<close>) and the schedule of its retries (\<open>state.json\<close>). Parameters: the JSON encoding of
  the two records.
\<close>

subsection \<open>Records\<close>

record JournalIdentity =
  ji_instance_id :: string
  ji_ca_fp_prefix_hex :: string
  ji_pairing_generation_hex :: string

text \<open>\<open>JournalIdentityRecord\<close> has the same fields; \<open>From\<close> copies them.\<close>

type_synonym JournalIdentityRecord = JournalIdentity

definition identity_record :: "JournalIdentity \<Rightarrow> JournalIdentityRecord" where
  "identity_record i = \<lparr>ji_instance_id = ji_instance_id i, ji_ca_fp_prefix_hex = ji_ca_fp_prefix_hex i,
     ji_pairing_generation_hex = ji_pairing_generation_hex i\<rparr>"

record AckRecord =
  ar_location :: string
  ar_day :: string
  ar_stream :: string
  ar_segment :: string
  ar_stored_key :: string
  ar_instance_id :: string
  ar_ca_fp_prefix_hex :: string
  ar_pairing_generation_hex :: string
  ar_proof :: string
  ar_files :: "AcknowledgedFile list"

record StateRecord =
  sr_next_attempt_unix :: "int option"
  sr_next_attempt_interval_seconds :: "nat option"
  sr_answer :: "string option"
  sr_answer_count :: nat
  sr_journal :: "JournalIdentityRecord option"
  sr_terminal_keep :: "JournalIdentityRecord option"
  sr_retention_recheck_unix :: "int option"
  sr_retention_recheck_interval_seconds :: "nat option"

definition default_state :: StateRecord where
  "default_state = \<lparr>sr_next_attempt_unix = None, sr_next_attempt_interval_seconds = None, sr_answer = None,
     sr_answer_count = 0, sr_journal = None, sr_terminal_keep = None, sr_retention_recheck_unix = None,
     sr_retention_recheck_interval_seconds = None\<rparr>"

text \<open>The JSON codecs of the two records: encoding, decoding.\<close>

record ledger_codec =
  lc_ack :: "AckRecord \<Rightarrow> bytes option"
  lc_unack :: "bytes \<Rightarrow> AckRecord option"
  lc_state :: "StateRecord \<Rightarrow> bytes option"
  lc_unstate :: "bytes \<Rightarrow> StateRecord option"

subsection \<open>Paths\<close>

definition candidate_ledger_dir :: "path \<Rightarrow> SegmentCandidate \<Rightarrow> path" where
  "candidate_ledger_dir ledger c =
     path_join (path_join (path_join ledger (sc_day c)) (sc_stream c)) (sc_segment c)"

text \<open>\<open>Path::to_str\<close>\<close>

definition path_to_str :: "path \<Rightarrow> string option" where
  "path_to_str p = (if list_all valid_utf8 p then Some (concat (map (\<lambda>n. CHR ''/'' # n) p)) else None)"

definition ack_path :: "path \<Rightarrow> SegmentCandidate \<Rightarrow> path" where
  "ack_path ledger c = path_join (candidate_ledger_dir ledger c) ''ack.json''"

definition state_path :: "path \<Rightarrow> SegmentCandidate \<Rightarrow> path" where
  "state_path ledger c = path_join (candidate_ledger_dir ledger c) ''state.json''"

subsection \<open>Receipts\<close>

text \<open>Reading a file whole: \<open>None\<close> is the error \<open>()\<close>.\<close>

definition read_regular :: "path \<Rightarrow> (unit, bytes) io" where
  "read_regular p =
     bindE (unitE (open_regular_readonly p)) (\<lambda>i. unitE (fs_read_fd i))"

definition ack_fits :: "AckRecord \<Rightarrow> SegmentCandidate \<Rightarrow> JournalIdentity \<Rightarrow> bool" where
  "ack_fits a c idt \<longleftrightarrow>
     \<not> (ar_proof a \<noteq> ''upload''
        \<or> ar_day a \<noteq> sc_day c
        \<or> ar_stream a \<noteq> sc_stream c
        \<or> ar_segment a \<noteq> sc_segment c
        \<or> ar_instance_id a \<noteq> ji_instance_id idt
        \<or> ar_ca_fp_prefix_hex a \<noteq> ji_ca_fp_prefix_hex idt
        \<or> ar_pairing_generation_hex a \<noteq> ji_pairing_generation_hex idt)"

text \<open>A \<open>HashMap\<close> of files with different names.\<close>

definition ack_by_submitted :: "AcknowledgedFile list \<Rightarrow> string \<Rightarrow> AcknowledgedFile option" where
  "ack_by_submitted files n = map_of (rev (map (\<lambda>f. (ak_submitted f, f)) files)) n"

definition ack_covers :: "AcknowledgedFile list \<Rightarrow> LocalFile \<Rightarrow> bool" where
  "ack_covers files l \<longleftrightarrow>
     (case ack_by_submitted files (lf_name l) of
        None \<Rightarrow> False
      | Some a \<Rightarrow>
          (ak_disposition a = ''written'' \<or> ak_disposition a = ''already_held'')
          \<and> ak_size a = lf_size l \<and> ak_sha256 a = lf_sha256 l)"

definition read_ack_record ::
  "ledger_codec \<Rightarrow> path \<Rightarrow> SegmentCandidate \<Rightarrow> JournalIdentity \<Rightarrow> LocalFile list \<Rightarrow> (unit, AckRecord) io" where
  "read_ack_record codec ledger c idt files =
     bindE (read_regular (ack_path ledger c)) (\<lambda>b.
     case lc_unack codec b of
       None \<Rightarrow> throwE ()
     | Some ack \<Rightarrow>
         if path_to_str (ack_path ledger c) \<noteq> Some (ar_location ack) then throwE ()
         else if \<not> ack_fits ack c idt then throwE ()
         else if \<not> distinct (map ak_submitted (ar_files ack))
         then bindE (ignoreE (fs_remove_file (ack_path ledger c))) (\<lambda>_. throwE ())
         else if \<not> list_all (ack_covers (ar_files ack)) files
         then bindE (ignoreE (fs_remove_file (ack_path ledger c))) (\<lambda>_. throwE ())
         else returnE ack)"

definition ack_record ::
  "string \<Rightarrow> SegmentCandidate \<Rightarrow> JournalIdentity \<Rightarrow> string \<Rightarrow> AcknowledgedFile list \<Rightarrow> AckRecord" where
  "ack_record location c idt stored_key files =
     \<lparr>ar_location = location, ar_day = sc_day c, ar_stream = sc_stream c, ar_segment = sc_segment c,
      ar_stored_key = stored_key, ar_instance_id = ji_instance_id idt,
      ar_ca_fp_prefix_hex = ji_ca_fp_prefix_hex idt,
      ar_pairing_generation_hex = ji_pairing_generation_hex idt, ar_proof = ''upload'', ar_files = files\<rparr>"

definition write_ack_record ::
  "ledger_codec \<Rightarrow> path \<Rightarrow> SegmentCandidate \<Rightarrow> JournalIdentity \<Rightarrow> string \<Rightarrow> AcknowledgedFile list \<Rightarrow> (unit, unit) io" where
  "write_ack_record codec ledger c idt stored_key files =
     (let dir = candidate_ledger_dir ledger c in
      bindE (unitE (ensure_private_directory dir)) (\<lambda>_.
      case path_to_str (ack_path ledger c) of
        None \<Rightarrow> throwE ()
      | Some location \<Rightarrow>
          (case lc_ack codec (ack_record location c idt stored_key files) of
             None \<Rightarrow> throwE ()
           | Some b \<Rightarrow> unitE (atomic_write_bytes (ack_path ledger c) dir b))))"

subsection \<open>Retry schedules\<close>

definition write_state_record ::
  "ledger_codec \<Rightarrow> path \<Rightarrow> SegmentCandidate \<Rightarrow> StateRecord \<Rightarrow> (unit, unit) io" where
  "write_state_record codec ledger c r =
     (let dir = candidate_ledger_dir ledger c in
      bindE (unitE (ensure_private_directory dir)) (\<lambda>_.
      case lc_state codec r of
        None \<Rightarrow> throwE ()
      | Some b \<Rightarrow> unitE (atomic_write_bytes (state_path ledger c) dir b)))"

definition cleaned_state :: "StateRecord \<Rightarrow> StateRecord" where
  "cleaned_state r =
     \<lparr>sr_next_attempt_unix = sr_next_attempt_unix r,
      sr_next_attempt_interval_seconds = sr_next_attempt_interval_seconds r, sr_answer = sr_answer r,
      sr_answer_count = sr_answer_count r, sr_journal = sr_journal r, sr_terminal_keep = None,
      sr_retention_recheck_unix = None, sr_retention_recheck_interval_seconds = None\<rparr>"

definition read_state_record ::
  "ledger_codec \<Rightarrow> path \<Rightarrow> SegmentCandidate \<Rightarrow> ('e, StateRecord) io" where
  "read_state_record codec ledger c =
     tryE (read_regular (state_path ledger c)) (\<lambda>r.
       case r of
         Inl _ \<Rightarrow> returnE default_state
       | Inr b \<Rightarrow>
           (case lc_unstate codec b of
              None \<Rightarrow> returnE default_state
            | Some r \<Rightarrow>
                if sr_terminal_keep r \<noteq> None \<or> sr_retention_recheck_unix r \<noteq> None
                   \<or> sr_retention_recheck_interval_seconds r \<noteq> None
                then
                  bindE (if cleaned_state r = default_state
                         then ignoreE (fs_remove_file (state_path ledger c))
                         else ignoreE (write_state_record codec ledger c (cleaned_state r))) (\<lambda>_.
                  returnE (cleaned_state r))
                else returnE r))"

subsection \<open>Housekeeping\<close>

fun cleanup_days :: "path \<Rightarrow> (string \<times> node) list \<Rightarrow> ('e, unit) io" where
  "cleanup_days ledger [] = returnE ()"
| "cleanup_days ledger ((day, kind) # es) =
     (if \<not> is_plain_directory kind then cleanup_days ledger es
      else
        let hold_path = path_join (ledger @ [day]) ''hold.json'' in
        bindE (tryE (open_regular_readonly hold_path) (\<lambda>r.
          case r of Inl _ \<Rightarrow> returnE () | Inr _ \<Rightarrow> ignoreE (fs_remove_file hold_path))) (\<lambda>_.
        cleanup_days ledger es))"

definition cleanup_hold_files :: "path \<Rightarrow> ('e, unit) io" where
  "cleanup_hold_files ledger =
     tryE (fs_read_dir ledger) (\<lambda>r. case r of Inl _ \<Rightarrow> returnE () | Inr es \<Rightarrow> cleanup_days ledger es)"

text \<open>Removing the two records of a segment and its directory.\<close>

definition remove_records :: "path \<Rightarrow> ('e, unit) io" where
  "remove_records dir =
     bindE (ignoreE (fs_remove_file (path_join dir ''ack.json''))) (\<lambda>_.
     bindE (ignoreE (fs_remove_file (path_join dir ''state.json''))) (\<lambda>_.
     ignoreE (fs_remove_dir dir)))"

definition remove_segment_ledger_dir :: "path \<Rightarrow> SegmentCandidate \<Rightarrow> ('e, unit) io" where
  "remove_segment_ledger_dir ledger c =
     (let dir = candidate_ledger_dir ledger c in
      bindE (remove_records dir) (\<lambda>_.
      case path_parent dir of
        None \<Rightarrow> returnE ()
      | Some sdir \<Rightarrow>
          bindE (ignoreE (fs_remove_dir sdir)) (\<lambda>_.
          case path_parent sdir of
            None \<Rightarrow> returnE ()
          | Some ddir \<Rightarrow> ignoreE (fs_remove_dir ddir))))"

definition remove_segment_zone_sibling :: "path \<Rightarrow> SegmentCandidate \<Rightarrow> ('e, unit) io" where
  "remove_segment_zone_sibling croot c =
     ignoreE (fs_remove_file
       (capture_time_path (path_join (path_join croot (sc_day c)) (sc_stream c)) (sc_segment c)))"

text \<open>Directory entries whose type is not known are skipped; the model knows all types.\<close>

fun prune_segments ::
  "SegmentCandidate list \<Rightarrow> string \<Rightarrow> string \<Rightarrow> path \<Rightarrow> (string \<times> node) list \<Rightarrow> ('e, unit) io" where
  "prune_segments active day stream stream_path [] = returnE ()"
| "prune_segments active day stream stream_path ((segment, kind) # es) =
     bindE
       (if \<not> is_plain_directory kind \<or> \<not> valid_utf8 segment then returnE ()
        else if \<lparr>sc_day = day, sc_stream = stream, sc_segment = segment\<rparr> \<in> set active then returnE ()
        else remove_records (stream_path @ [segment])) (\<lambda>_.
     prune_segments active day stream stream_path es)"

fun prune_streams ::
  "SegmentCandidate list \<Rightarrow> string \<Rightarrow> path \<Rightarrow> (string \<times> node) list \<Rightarrow> ('e, unit) io" where
  "prune_streams active day day_path [] = returnE ()"
| "prune_streams active day day_path ((stream, kind) # es) =
     bindE
       (if \<not> is_plain_directory kind \<or> \<not> valid_utf8 stream then returnE ()
        else tryE (fs_read_dir (day_path @ [stream])) (\<lambda>r.
          case r of
            Inl _ \<Rightarrow> returnE ()
          | Inr inner \<Rightarrow>
              bindE (prune_segments active day stream (day_path @ [stream]) inner) (\<lambda>_.
              ignoreE (fs_remove_dir (day_path @ [stream]))))) (\<lambda>_.
     prune_streams active day day_path es)"

fun prune_days :: "SegmentCandidate list \<Rightarrow> path \<Rightarrow> (string \<times> node) list \<Rightarrow> ('e, unit) io" where
  "prune_days active ledger [] = returnE ()"
| "prune_days active ledger ((day, kind) # es) =
     bindE
       (if \<not> is_plain_directory kind \<or> \<not> valid_utf8 day then returnE ()
        else tryE (fs_read_dir (ledger @ [day])) (\<lambda>r.
          case r of
            Inl _ \<Rightarrow> returnE ()
          | Inr inner \<Rightarrow>
              bindE (prune_streams active day (ledger @ [day]) inner) (\<lambda>_.
              ignoreE (fs_remove_dir (ledger @ [day]))))) (\<lambda>_.
     prune_days active ledger es)"

definition prune_ledger_dirs :: "path \<Rightarrow> SegmentCandidate list \<Rightarrow> ('e, unit) io" where
  "prune_ledger_dirs ledger active =
     tryE (fs_read_dir ledger) (\<lambda>r. case r of Inl _ \<Rightarrow> returnE () | Inr es \<Rightarrow> prune_days active ledger es)"
subsection \<open>The ledger's own files\<close>

text \<open>Everything at or below a directory.\<close>

definition below :: "path \<Rightarrow> path set" where
  "below d = {p. under d p}"

lemma below_append [simp]: "d @ r \<in> below d"
  by (simp add: below_def under_append)

lemma below_sub: "under d e \<Longrightarrow> below e \<subseteq> below d"
  by (auto simp: below_def under_append)

text \<open>A candidate whose names are path components, as every scanned candidate's are.\<close>

definition plain_candidate :: "SegmentCandidate \<Rightarrow> bool" where
  "plain_candidate c \<longleftrightarrow> plain_name (sc_day c) \<and> plain_name (sc_stream c) \<and> plain_name (sc_segment c)"

lemma exact_plain: "exact_component s \<noteq> None \<Longrightarrow> plain_name s"
  using exact_utf8 [of s] canonical_not_dots [of s] canonical_no_slash [of s]
  by (auto simp: exact_component_iff plain_name_def)

lemma ledger_dir_plain:
  "plain_candidate c \<Longrightarrow> candidate_ledger_dir ledger c = ledger @ [sc_day c, sc_stream c, sc_segment c]"
  by (simp add: plain_candidate_def candidate_ledger_dir_def path_join_plain_name)

lemma record_names: "plain_name ''ack.json''" "plain_name ''state.json''" "plain_name ''hold.json''"
  by (simp_all add: plain_ascii)

lemma record_paths:
  assumes "plain_candidate c"
  shows "ack_path ledger c = candidate_ledger_dir ledger c @ [''ack.json'']"
    "state_path ledger c = candidate_ledger_dir ledger c @ [''state.json'']"
  using assms by (simp_all add: ack_path_def state_path_def path_join_plain_name record_names)

lemma write_scope_below: "write_scope d (d @ [n]) \<subseteq> below d"
  by (auto simp: write_scope_def temporaries_def)

lemma confined_read_regular [confined_intros]: "confinedE S (read_regular p)"
  unfolding read_regular_def by (intro confined_intros)

lemma confined_write_state:
  assumes "plain_candidate c"
  shows "confinedE (write_scope (candidate_ledger_dir ledger c) (state_path ledger c)) (write_state_record codec ledger c r)"
  unfolding write_state_record_def Let_def
  using assms by (intro confined_intros) (simp add: record_paths confined_atomic_write record_names)

lemma confined_write_ack:
  assumes "plain_candidate c"
  shows "confinedE (write_scope (candidate_ledger_dir ledger c) (ack_path ledger c))
    (write_ack_record codec ledger c idt key files)"
  unfolding write_ack_record_def Let_def
  using assms by (intro confined_intros) (simp add: record_paths confined_atomic_write record_names)

lemma confined_read_ack: "confinedE {ack_path ledger c} (read_ack_record codec ledger c idt files)"
  unfolding read_ack_record_def by (intro confined_intros) simp_all

lemma confined_read_state:
  assumes "plain_candidate c"
  shows "confinedE (write_scope (candidate_ledger_dir ledger c) (state_path ledger c)) (read_state_record codec ledger c)"
  unfolding read_state_record_def
  by (intro confined_intros confined_write_state assms) (simp add: write_scope_def)

definition zone_path :: "path \<Rightarrow> SegmentCandidate \<Rightarrow> path" where
  "zone_path croot c =
     capture_time_path (path_join (path_join croot (sc_day c)) (sc_stream c)) (sc_segment c)"

lemma hold_path: "path_join (ledger @ [day]) ''hold.json'' = ledger @ [day, ''hold.json'']"
  by (simp add: path_join_plain_name record_names)

text \<open>The records of candidates that are no longer there.\<close>

definition stale_records :: "SegmentCandidate list \<Rightarrow> path \<Rightarrow> path set" where
  "stale_records active ledger =
     {p. \<exists>d s g n. p = ledger @ [d, s, g, n] \<and> n \<in> {''ack.json'', ''state.json''}
        \<and> \<lparr>sc_day = d, sc_stream = s, sc_segment = g\<rparr> \<notin> set active}"

definition hold_files :: "path \<Rightarrow> path set" where
  "hold_files ledger = {p. \<exists>d. p = ledger @ [d, ''hold.json'']}"

subsection \<open>What housekeeping keeps\<close>

text \<open>
  An invariant that looking, removing directories and removing the files of \<open>R\<close> keep. The
  housekeeping of the ledger keeps it too, as far as the files it removes are of \<open>R\<close>.
\<close>

locale housekeeping =
  fixes I :: "world \<Rightarrow> bool" and R :: "path set"
  assumes looks: "\<And>w u. only_ticks w u \<Longrightarrow> I w \<Longrightarrow> I u"
    and rmdir: "\<And>p. keepsE I (fs_remove_dir p :: (io_error, unit) io)"
    and rmfile: "\<And>p. p \<in> R \<Longrightarrow> keepsE I (fs_remove_file p :: (io_error, unit) io)"
begin

lemma quiet: "quietE m \<Longrightarrow> keepsE I m"
  using looks by (auto simp: keepsE_def quietE_def)

lemma read_dir: "keepsE I (fs_read_dir p)"
  by (intro quiet quiet_intros)

lemma records: "path_join d ''ack.json'' \<in> R \<Longrightarrow> path_join d ''state.json'' \<in> R \<Longrightarrow> keepsE I (remove_records d)"
  unfolding remove_records_def by (intro keeps_intros rmfile rmdir)

lemma ledger_dir:
  "ack_path ledger c \<in> R \<Longrightarrow> state_path ledger c \<in> R \<Longrightarrow> keepsE I (remove_segment_ledger_dir ledger c)"
  unfolding remove_segment_ledger_dir_def Let_def ack_path_def state_path_def
  by (intro keeps_intros records rmdir)

lemma zone: "zone_path croot c \<in> R \<Longrightarrow> keepsE I (remove_segment_zone_sibling croot c)"
  unfolding remove_segment_zone_sibling_def zone_path_def by (intro keeps_intros rmfile)

lemma cleanup_loop:
  assumes "hold_files ledger \<subseteq> R"
  shows "keepsE I (cleanup_days ledger es)"
proof (induction es)
  case (Cons e es)
  have "keepsE I (fs_remove_file (ledger @ [d, ''hold.json'']))" for d
    using assms by (intro rmfile) (auto simp: hold_files_def)
  with Cons show ?case
    by (cases e) (simp only: cleanup_days.simps Let_def hold_path, intro keeps_intros quiet [OF quiet_opens(1)])
qed (simp add: keeps_intros)

lemma cleanup: "hold_files ledger \<subseteq> R \<Longrightarrow> keepsE I (cleanup_hold_files ledger)"
  unfolding cleanup_hold_files_def by (intro keeps_intros read_dir cleanup_loop)

lemma prune_segment_loop:
  assumes "stale_records active ledger \<subseteq> R"
  shows "keepsE I (prune_segments active day stream (ledger @ [day, stream]) es)"
proof (induction es)
  case (Cons e es)
  obtain g k where e: "e = (g, k)" by fastforce
  have "keepsE I (remove_records (ledger @ [day, stream, g]))"
    if "\<lparr>sc_day = day, sc_stream = stream, sc_segment = g\<rparr> \<notin> set active"
    by (rule records) (use that assms in \<open>auto simp: path_join_plain_name record_names stale_records_def\<close>)
  with Cons show ?case
    unfolding e prune_segments.simps by (intro keeps_intros) simp_all
qed (simp add: keeps_intros)

lemma prune_stream_loop:
  assumes "stale_records active ledger \<subseteq> R"
  shows "keepsE I (prune_streams active day (ledger @ [day]) es)"
proof (induction es)
  case (Cons e es)
  obtain s k where e: "e = (s, k)" by fastforce
  have a: "(ledger @ [day]) @ [s] = ledger @ [day, s]" by simp
  from Cons prune_segment_loop [OF assms] show ?case
    unfolding e prune_streams.simps a by (intro keeps_intros read_dir rmdir)
qed (simp add: keeps_intros)

lemma prune_day_loop:
  assumes "stale_records active ledger \<subseteq> R"
  shows "keepsE I (prune_days active ledger es)"
proof (induction es)
  case (Cons e es)
  with prune_stream_loop [OF assms] show ?case
    by (cases e) (simp only: prune_days.simps, intro keeps_intros read_dir rmdir)
qed (simp add: keeps_intros)

lemma prune: "stale_records active ledger \<subseteq> R \<Longrightarrow> keepsE I (prune_ledger_dirs ledger active)"
  unfolding prune_ledger_dirs_def by (intro keeps_intros read_dir prune_day_loop)

end

lemma confined_housekeeping: "housekeeping (confined S w) S"
proof
  show "confined S w v" if "only_ticks u v" "confined S w u" for u v
    using that only_ticks_obs [OF that(1)] by (simp add: confined_def)
qed (use confined_remove_dir confined_remove_file in \<open>auto simp: confinedE_keeps\<close>)

interpretation confined_keeping: housekeeping "confined S w" S for S w
  by (rule confined_housekeeping)

text \<open>Pruning leaves every record of an active candidate and every file outside the ledger.\<close>

lemma pruned: "confinedE (stale_records active ledger) (prune_ledger_dirs ledger active)"
  unfolding confinedE_keeps using confined_keeping.prune by blast

subsection \<open>A receipt is found again\<close>

lemma read_regular_quiet:
  assumes "w_outcomes u = []" "view u p = Some b"
  shows "read_regular p u = (Inr b, u)"
proof -
  obtain i where i: "node_at u p = Some (NFile i)" "contents u i = b" using view_SomeD [OF assms(2)] by blast
  then show ?thesis
    by (simp add: read_regular_def open_regular_readonly_def stage_io_def unitE_def comp_defs fs_open_read_def
        fs_seek_def fs_read_fd_def sys_quiet [OF assms(1)])
qed

lemma write_ack_spec:
  assumes "world_ok w" "plain_candidate c"
  shows "wpE (write_ack_record codec ledger c idt key files)
    (\<lambda>_ u. \<exists>l b. path_to_str (ack_path ledger c) = Some l \<and> lc_ack codec (ack_record l c idt key files) = Some b
        \<and> view u (ack_path ledger c) = Some b)
    (\<lambda>_ u. view u (ack_path ledger c) = view w (ack_path ledger c)
        \<or> (\<exists>l b. lc_ack codec (ack_record l c idt key files) = Some b \<and> view u (ack_path ledger c) = Some b)) w"
proof -
  let ?d = "candidate_ledger_dir ledger c"
  have d: "view v = view w \<and> world_ok v" if "dirs_only w v" for v
    using that by (simp add: dirs_only_def)
  have "wpE (atomic_write_bytes (?d @ [''ack.json'']) ?d b)
      (\<lambda>_ u. view u (?d @ [''ack.json'']) = Some b)
      (\<lambda>_ u. view u (?d @ [''ack.json'']) = view w (?d @ [''ack.json'']) \<or> view u (?d @ [''ack.json'']) = Some b) v"
    if v: "dirs_only w v" for v b
    by (rule wpE_mono [OF atomic_write_bytes_spec [OF conjunct2 [OF d [OF v]] record_names(1)]])
      (use d [OF v] in \<open>auto simp: replaced_ok_def replaced_err_def\<close>)
  note written = wpE_mono [OF this]
  show ?thesis
    unfolding write_ack_record_def Let_def record_paths [OF assms(2)]
    apply simp
    apply (rule wpE_mono [OF ensure_private_directory_spec [OF assms(1)]])
    using d by (auto split: option.split intro!: written)
qed

text \<open>
  The ledger remembers a receipt: once the record of a segment was written, reading it for
  the same segment, journal and pairing, and local files that the receipt covers, returns it,
  as long as the file is as it was written and can be read.
\<close>

theorem ledger_round_trip:
  assumes written: "write_ack_record codec ledger c idt key files w = (Inr (), w1)"
    and ok: "world_ok w" "plain_candidate c"
    and codec: "\<forall>r b. lc_ack codec r = Some b \<longrightarrow> lc_unack codec b = Some r"
    and files: "distinct (map ak_submitted files)" "list_all (ack_covers files) own"
    and u: "view u (ack_path ledger c) = view w1 (ack_path ledger c)" "w_outcomes u = []"
  shows "\<exists>location. read_ack_record codec ledger c idt own u = (Inr (ack_record location c idt key files), u)"
proof -
  from wpE_run [OF write_ack_spec [OF ok] written] obtain l b where
    l: "path_to_str (ack_path ledger c) = Some l" and b: "lc_ack codec (ack_record l c idt key files) = Some b"
    and v: "view w1 (ack_path ledger c) = Some b" by auto
  have r: "read_regular (ack_path ledger c) u = (Inr b, u)"
    by (rule read_regular_quiet) (use u v in simp_all)
  have "lc_unack codec b = Some (ack_record l c idt key files)" using codec b by blast
  with r l files have "read_ack_record codec ledger c idt own u = (Inr (ack_record l c idt key files), u)"
    by (simp add: read_ack_record_def bindE_def ack_fits_def ack_record_def returnE_def)
  then show ?thesis by blast
qed

definition only_ack :: "AckRecord \<Rightarrow> ledger_codec" where
  "only_ack r = \<lparr>lc_ack = (\<lambda>x. if x = r then Some ''a'' else None), lc_unack = (\<lambda>_. Some r),
     lc_state = (\<lambda>_. None), lc_unstate = (\<lambda>_. None)\<rparr>"

definition sample_candidate :: SegmentCandidate where
  "sample_candidate = \<lparr>sc_day = ''20260101'', sc_stream = ''host'', sc_segment = ''120000_300''\<rparr>"

definition sample_journal :: JournalIdentity where
  "sample_journal = \<lparr>ji_instance_id = ''i'', ji_ca_fp_prefix_hex = ''00'', ji_pairing_generation_hex = ''01''\<rparr>"

definition sample_ack_file :: AcknowledgedFile where
  "sample_ack_file = ack_of sample_descriptor"

definition sample_ack :: AckRecord where
  "sample_ack = ack_record ''/l/20260101/host/120000_300/ack.json'' sample_candidate sample_journal ''k'' [sample_ack_file]"

definition ledger_world :: world where
  "ledger_world = \<lparr>w_names = [([], NDir 0), ([''l''], NDir 1), ([''l'', ''20260101''], NDir 2),
       ([''l'', ''20260101'', ''host''], NDir 3), ([''l'', ''20260101'', ''host'', ''120000_300''], NDir 4)],
     w_data = [], w_mode = [(4, 448)], w_next = 5, w_outcomes = [], w_pid = 7, w_counter = 0,
     w_fault = \<lparr>af_fault = None, af_target = None, af_prefix = None, af_remaining = 0\<rparr>\<rparr>"

lemma sample_candidate_plain: "plain_candidate sample_candidate"
  by code_simp

lemma sample_ledger_paths:
  "candidate_ledger_dir [''l''] sample_candidate = [''l'', ''20260101'', ''host'', ''120000_300'']"
  "ack_path [''l''] sample_candidate = [''l'', ''20260101'', ''host'', ''120000_300'', ''ack.json'']"
  by code_simp+

text \<open>Where nothing fails, the target is new and the directory is there, a write succeeds.\<close>

lemma atomic_write_succeeds:
  assumes q: "w_outcomes w = []" "w_fault w = \<lparr>af_fault = None, af_target = None, af_prefix = None, af_remaining = 0\<rparr>"
    and n: "plain_name n" and free: "node_at w (d @ [n]) = None" "node_at w (d @ [temp_name n (w_pid w) (w_counter w)]) = None"
    and dir: "node_at w d = Some (NDir i)"
  shows "fst (atomic_write_bytes (d @ [n]) d b w) = Inr ()"
proof -
  have t: "path_join d (temp_name (utf8_lossy n) (w_pid w) (w_counter w)) = d @ [temp_name n (w_pid w) (w_counter w)]"
    using n by (simp add: plain_name_def utf8_lossy_valid temp_join)
  have r: "resolve 40 v d = (case node_at v d of None \<Rightarrow> Inl NotFound | Some (NLink q) \<Rightarrow> resolve 39 v q
      | Some m \<Rightarrow> Inr m)" for v
    using resolve.simps(2) [of 39 v d] by simp
  have o: "w_outcomes (tick v) = tl (w_outcomes v)" "w_outcomes (put_data j c v) = w_outcomes v"
    "w_outcomes (put_mode j m v) = w_outcomes v" "w_outcomes (new_file p v) = w_outcomes v"
    "w_outcomes (put_node p x v) = w_outcomes v" "w_outcomes (del_node p v) = w_outcomes v" for v j c m p x
    by (simp_all add: tick_def put_data_def put_mode_def new_file_def put_node_def del_node_def)
  have ne: "d @ [n] \<noteq> d @ [temp_name n (w_pid w) (w_counter w)]" by (rule temp_differs [symmetric])
  show ?thesis
    using q free dir ne ne [symmetric] t r
    by (simp add: atomic_write_bytes_def replace_file_def write_temporary_def stage_io_def comp_defs fetch_temp_def
        write_fault_def take_write_fault_def Let_def fs_lstat_def fs_open_excl_def fs_chmod_fd_def fs_write_def
        fs_fsync_def fs_rename_def sync_directory_def fs_open_any_def sys_quiet o world_simps is_dir_def)
qed

lemma sample_ensure:
  "ensure_private_directory [''l'', ''20260101'', ''host'', ''120000_300''] ledger_world = (Inr (), ledger_world)"
  by code_simp

theorem ledger_round_trip_witness:
  "\<exists>w1 location. write_ack_record (only_ack sample_ack) [''l''] sample_candidate sample_journal ''k'' [sample_ack_file] ledger_world = (Inr (), w1)
    \<and> fst (read_ack_record (only_ack sample_ack) [''l''] sample_candidate sample_journal [sample_file]
        (w1\<lparr>w_outcomes := []\<rparr>)) = Inr (ack_record location sample_candidate sample_journal ''k'' [sample_ack_file])"
proof -
  let ?d = "[''l'', ''20260101'', ''host'', ''120000_300'']"
  have loc: "path_to_str (?d @ [''ack.json'']) = Some ''/l/20260101/host/120000_300/ack.json''" by code_simp
  have ok: "world_ok ledger_world" by (rule world_ok_checked) code_simp
  have a: "fst (atomic_write_bytes (?d @ [''ack.json'']) ?d ''a'' ledger_world) = Inr ()"
    by (rule atomic_write_succeeds [where i = 4])
      (simp_all add: ledger_world_def node_at_def record_names)
  then obtain w1 where w1: "atomic_write_bytes (?d @ [''ack.json'']) ?d ''a'' ledger_world = (Inr (), w1)"
    by (metis prod.collapse)
  have codec: "\<forall>r b. lc_ack (only_ack sample_ack) r = Some b \<longrightarrow> lc_unack (only_ack sample_ack) b = Some r"
    by (simp add: only_ack_def)
  have e: "lc_ack (only_ack sample_ack)
      (ack_record ''/l/20260101/host/120000_300/ack.json'' sample_candidate sample_journal ''k'' [sample_ack_file]) = Some ''a''"
    by (simp add: only_ack_def sample_ack_def)
  have run: "write_ack_record (only_ack sample_ack) [''l''] sample_candidate sample_journal ''k'' [sample_ack_file] ledger_world
      = (Inr (), w1)"
    using w1 loc e
    by (simp add: write_ack_record_def Let_def sample_ledger_paths sample_ensure unitE_def bindE_def map_errE_def)
  have covers: "distinct (map ak_submitted [sample_ack_file])" "list_all (ack_covers [sample_ack_file]) [sample_file]"
    by (simp, code_simp)
  have v: "view (w1\<lparr>w_outcomes := []\<rparr>) = view w1"
    by (rule only_ticks_obs(3)) (simp add: only_ticks_def)
  from ledger_round_trip [OF run ok sample_candidate_plain codec covers, of "w1\<lparr>w_outcomes := []\<rparr>"] v run
  show ?thesis by auto
qed

end
