(* ===== verification/Retention.thy ===== *)
theory Retention
  imports Ledger
begin

text \<open>
  Removing what the journal holds (\<open>src/sync.rs\<close>, \<open>RetentionFence\<close>, \<open>delete_confirmed_segment\<close>,
  \<open>delete_empty_segment\<close>, \<open>delete_revalidated_segment\<close>, \<open>restore_expected_files\<close>): a capture
  file is unlinked only while it is the very file that was acknowledged, and when a removal cannot
  be completed the files already unlinked are written back from their open descriptors. A
  directory descriptor is the path it was opened at; \<open>hook\<close> is the \<open>delete_hook\<close> of the tests,
  which stands for what others do to the directory between two unlinks. Parameters: SHA-256
  (\<open>sha\<close>), the calendar and \<open>stamp\<close>.
\<close>

subsection \<open>Operations\<close>

datatype RemovalResult = RrRemoved | RrAbsent | RrRefused | RrFailed

definition open_regular_readonly_at :: "path \<Rightarrow> string \<Rightarrow> path \<Rightarrow> (StorageError, nat) io" where
  "open_regular_readonly_at dir name p =
     bindE (stage_io ''open regular file'' p (fs_open_read (path_join dir name))) (\<lambda>n.
     bindE (stage_io ''inspect regular file'' p fs_seek) (\<lambda>_.
     case n of NFile i \<Rightarrow> returnE i | _ \<Rightarrow> throwE (InvalidTarget p)))"

definition refused :: "('s, 'e, 'a) comp \<Rightarrow> ('s, RemovalResult, 'a) comp" where
  "refused m = map_errE (\<lambda>_. RrRefused) m"

fun retain_files :: "stamp \<Rightarrow> path \<Rightarrow> (path \<times> FileIdentity) list \<Rightarrow> (RemovalResult, nat list) io" where
  "retain_files stamp dir [] = returnE []"
| "retain_files stamp dir ((p, e) # rest) =
     bindE (refused (open_regular_readonly_at dir (fi_name e) p)) (\<lambda>i.
     bindE (refused (fs_metadata stamp i)) (\<lambda>m.
     if \<not> metadata_matches m e then throwE RrRefused
     else bindE (retain_files stamp dir rest) (\<lambda>is. returnE (i # is))))"

text \<open>One file: unlinked only if it is the expected inode and its bytes have the expected digest.\<close>

definition unlink_if_held ::
  "stamp \<Rightarrow> (bytes \<Rightarrow> string) \<Rightarrow> path \<Rightarrow> (string \<Rightarrow> string option) \<Rightarrow> FileIdentity \<Rightarrow> nat \<Rightarrow> ('e, bool) io" where
  "unlink_if_held stamp sha dir digests e i =
     tryE (fs_metadata stamp i) (\<lambda>m.
       case m of
         Inl _ \<Rightarrow> returnE False
       | Inr m \<Rightarrow>
           if \<not> metadata_matches m e then returnE False
           else case digests (fi_name e) of
             None \<Rightarrow> returnE False
           | Some d \<Rightarrow>
               tryE (stream_sha256_hex sha i) (\<lambda>h.
                 case h of
                   Inl _ \<Rightarrow> returnE False
                 | Inr h \<Rightarrow>
                     if h \<noteq> d then returnE False
                     else tryE (fs_remove_file (path_join dir (fi_name e))) (\<lambda>r.
                       case r of Inl _ \<Rightarrow> returnE False | Inr _ \<Rightarrow> returnE True)))"

definition delete_checked ::
  "stamp \<Rightarrow> (bytes \<Rightarrow> string) \<Rightarrow> path \<Rightarrow> (string \<Rightarrow> string option) \<Rightarrow> path \<Rightarrow> FileIdentity \<Rightarrow> ('e, bool) io" where
  "delete_checked stamp sha dir digests p e =
     tryE (open_regular_readonly_at dir (fi_name e) p) (\<lambda>current.
       case current of
         Inl _ \<Rightarrow> returnE False
       | Inr i \<Rightarrow> unlink_if_held stamp sha dir digests e i)"

definition run_hook :: "(nat \<Rightarrow> world \<Rightarrow> world) option \<Rightarrow> nat \<Rightarrow> ('e, unit) io" where
  "run_hook hook i = modifyE (case hook of None \<Rightarrow> (\<lambda>w. w) | Some h \<Rightarrow> h i)"

fun delete_files ::
  "stamp \<Rightarrow> (bytes \<Rightarrow> string) \<Rightarrow> (nat \<Rightarrow> world \<Rightarrow> world) option \<Rightarrow> path \<Rightarrow> (string \<Rightarrow> string option) \<Rightarrow> nat
   \<Rightarrow> (path \<times> FileIdentity) list \<Rightarrow> ('e, bool) io" where
  "delete_files stamp sha hook dir digests i [] = returnE True"
| "delete_files stamp sha hook dir digests i ((p, e) # rest) =
     bindE (run_hook hook i) (\<lambda>_.
     bindE (delete_checked stamp sha dir digests p e) (\<lambda>deleted.
     if \<not> deleted then returnE False
     else delete_files stamp sha hook dir digests (Suc i) rest))"

definition preserved_name :: "nat \<Rightarrow> string" where
  "preserved_name i = ''.retention-conflict-'' @ dec_of_nat i"

definition current_matches :: "stamp \<Rightarrow> path \<Rightarrow> path \<Rightarrow> FileIdentity \<Rightarrow> ('e, bool) io" where
  "current_matches stamp dir p e =
     tryE (open_regular_readonly_at dir (fi_name e) p) (\<lambda>current.
       case current of
         Inl _ \<Rightarrow> returnE False
       | Inr i \<Rightarrow> tryE (fs_metadata stamp i) (\<lambda>m.
           case m of Inl _ \<Rightarrow> returnE False | Inr m \<Rightarrow> returnE (metadata_matches m e)))"

definition rewrite_file :: "path \<Rightarrow> path \<Rightarrow> nat \<Rightarrow> ('e, bool) io" where
  "rewrite_file dir p fd =
     tryE fs_seek (\<lambda>r.
       case r of
         Inl _ \<Rightarrow> returnE False
       | Inr _ \<Rightarrow> tryE (fs_read_fd fd) (\<lambda>b.
           case b of
             Inl _ \<Rightarrow> returnE False
           | Inr b \<Rightarrow> tryE (atomic_write_bytes p dir b) (\<lambda>r.
               case r of Inl _ \<Rightarrow> returnE False | Inr _ \<Rightarrow> returnE True)))"

definition put_file_back :: "path \<Rightarrow> nat \<Rightarrow> path \<Rightarrow> FileIdentity \<Rightarrow> nat \<Rightarrow> ('e, bool) io" where
  "put_file_back dir i p e fd =
     tryE (fs_lstat (path_join dir (fi_name e))) (\<lambda>found.
       case found of
         Inr _ \<Rightarrow>
           tryE (fs_lstat (path_join dir (preserved_name i))) (\<lambda>preserved.
             case preserved of
               Inr _ \<Rightarrow> returnE False
             | Inl _ \<Rightarrow>
                 tryE (fs_rename (path_join dir (fi_name e)) (path_join dir (preserved_name i))) (\<lambda>r.
                   case r of Inl _ \<Rightarrow> returnE False | Inr _ \<Rightarrow> rewrite_file dir p fd))
       | Inl NotFound \<Rightarrow> rewrite_file dir p fd
       | Inl _ \<Rightarrow> returnE False)"

definition restore_file :: "stamp \<Rightarrow> path \<Rightarrow> nat \<Rightarrow> path \<Rightarrow> FileIdentity \<Rightarrow> nat \<Rightarrow> ('e, bool) io" where
  "restore_file stamp dir i p e fd =
     bindE (current_matches stamp dir p e) (\<lambda>same.
     if same then returnE True else put_file_back dir i p e fd)"

fun restore_files ::
  "stamp \<Rightarrow> path \<Rightarrow> nat \<Rightarrow> ((path \<times> FileIdentity) \<times> nat) list \<Rightarrow> ('e, bool) io" where
  "restore_files stamp dir i [] = returnE True"
| "restore_files stamp dir i (((p, e), fd) # rest) =
     bindE (restore_file stamp dir i p e fd) (\<lambda>ok.
     bindE (restore_files stamp dir (Suc i) rest) (\<lambda>oks. returnE (ok \<and> oks)))"

definition restore_expected_files ::
  "stamp \<Rightarrow> path list \<Rightarrow> FileIdentity list \<Rightarrow> path \<Rightarrow> nat list \<Rightarrow> ('e, bool) io" where
  "restore_expected_files stamp paths ids dir retained = restore_files stamp dir 0 (zip (zip paths ids) retained)"

text \<open>The observer of the tests is told of the two stages; it does not act on the files.\<close>

definition remove_revalidated ::
  "stamp \<Rightarrow> (bytes \<Rightarrow> string) \<Rightarrow> (nat \<Rightarrow> world \<Rightarrow> world) option \<Rightarrow> SegmentCandidate \<Rightarrow> path list \<Rightarrow> FileIdentity list
   \<Rightarrow> (string \<Rightarrow> string option) \<Rightarrow> path \<Rightarrow> path \<Rightarrow> (RemovalResult, RemovalResult) io" where
  "remove_revalidated stamp sha hook c paths ids digests segment_path stream_path =
     bindE (refused (open_directory_readonly segment_path)) (\<lambda>_.
     bindE (refused (open_directory_readonly stream_path)) (\<lambda>_.
     bindE (retain_files stamp segment_path (zip paths ids)) (\<lambda>retained.
     bindE (delete_files stamp sha hook segment_path digests 0 (zip paths ids)) (\<lambda>deleted.
     if \<not> deleted
     then bindE (restore_expected_files stamp paths ids segment_path retained) (\<lambda>_. returnE RrFailed)
     else
       tryE (fs_remove_dir (path_join stream_path (sc_segment c))) (\<lambda>r.
         case r of
           Inl _ \<Rightarrow> bindE (restore_expected_files stamp paths ids segment_path retained) (\<lambda>_. returnE RrFailed)
         | Inr _ \<Rightarrow> bindE (ignoreE (sync_directory stream_path)) (\<lambda>_. returnE RrRemoved))))))"

text \<open>The files found are the expected ones, in name and identity.\<close>

definition remove_found ::
  "stamp \<Rightarrow> (bytes \<Rightarrow> string) \<Rightarrow> (nat \<Rightarrow> world \<Rightarrow> world) option \<Rightarrow> SegmentCandidate \<Rightarrow> path list \<Rightarrow> path list
   \<Rightarrow> FileIdentity list \<Rightarrow> (string \<Rightarrow> string option) \<Rightarrow> (RemovalResult, RemovalResult) io" where
  "remove_found stamp sha hook c paths expected_paths expected_ids digests =
     tryE (if paths \<noteq> expected_paths then throwE () else file_identities stamp paths) (\<lambda>found.
       if found \<noteq> Inr expected_ids then throwE RrRefused
       else
         (case Option.bind (case expected_paths of [] \<Rightarrow> None | p # _ \<Rightarrow> Some p) path_parent of
            None \<Rightarrow> throwE RrRefused
          | Some segment_path \<Rightarrow>
              (case path_parent segment_path of
                 None \<Rightarrow> throwE RrRefused
               | Some stream_path \<Rightarrow>
                   remove_revalidated stamp sha hook c paths expected_ids digests segment_path stream_path)))"

definition delete_revalidated_segment ::
  "TimeApi \<Rightarrow> stamp \<Rightarrow> (bytes \<Rightarrow> string) \<Rightarrow> path \<Rightarrow> SegmentCandidate \<Rightarrow> path list \<Rightarrow> FileIdentity list
   \<Rightarrow> (string \<Rightarrow> string option) \<Rightarrow> (nat \<Rightarrow> world \<Rightarrow> world) option \<Rightarrow> ('e, RemovalResult) io" where
  "delete_revalidated_segment api stamp sha root c expected_paths expected_ids digests hook =
     early_return (
       bindE (resolve_segment_files api root c) (\<lambda>resolved.
       case resolved of
         RsFound paths \<Rightarrow> remove_found stamp sha hook c paths expected_paths expected_ids digests
       | RsMissing \<Rightarrow> throwE RrAbsent
       | _ \<Rightarrow> throwE RrRefused))"

definition remove_empty_segment_directory ::
  "TimeApi \<Rightarrow> path \<Rightarrow> SegmentCandidate \<Rightarrow> ('e, RemovalResult) io" where
  "remove_empty_segment_directory api root c =
     early_return (
       bindE (map_errE (\<lambda>e. if e = RsMissing then RrAbsent else RrRefused)
                (bindE (locate_candidate api root c) (\<lambda>(stream_path, segment_path).
                 bindE (read_segment_dir segment_path) (\<lambda>entries. returnE (stream_path, entries))))) (\<lambda>(stream_path, entries).
       if entries \<noteq> [] then throwE RrRefused
       else
         bindE (refused (open_directory_readonly stream_path)) (\<lambda>_.
         tryE (fs_remove_dir (path_join stream_path (sc_segment c))) (\<lambda>r.
           case r of
             Inl _ \<Rightarrow> throwE RrFailed
           | Inr _ \<Rightarrow> bindE (ignoreE (sync_directory stream_path)) (\<lambda>_. returnE RrRemoved)))))"

text \<open>\<open>permit\<close>: whether the fence let the operation begin. The line on stderr is not modelled.\<close>

definition finish_removal :: "path \<Rightarrow> path \<Rightarrow> SegmentCandidate \<Rightarrow> RemovalResult \<Rightarrow> ('e, bool) io" where
  "finish_removal root ledger c r =
     (if r = RrRemoved \<or> r = RrAbsent
      then bindE (remove_segment_ledger_dir ledger c) (\<lambda>_.
           bindE (remove_segment_zone_sibling root c) (\<lambda>_. returnE True))
      else returnE False)"

definition delete_confirmed_segment ::
  "TimeApi \<Rightarrow> stamp \<Rightarrow> (bytes \<Rightarrow> string) \<Rightarrow> path \<Rightarrow> path \<Rightarrow> SegmentCandidate \<Rightarrow> (string \<times> string) list
   \<Rightarrow> FileIdentity list \<Rightarrow> (nat \<Rightarrow> world \<Rightarrow> world) option \<Rightarrow> bool \<Rightarrow> ('e, bool) io" where
  "delete_confirmed_segment api stamp sha root ledger c digests ids hook permit =
     bindE (resolve_segment_files api root c) (\<lambda>resolved.
     case resolved of
       RsFound paths \<Rightarrow>
         if \<not> permit then returnE False
         else
           bindE (delete_revalidated_segment api stamp sha root c paths ids (map_of (rev digests)) hook)
             (finish_removal root ledger c)
     | _ \<Rightarrow> returnE False)"

definition delete_empty_segment ::
  "TimeApi \<Rightarrow> path \<Rightarrow> path \<Rightarrow> SegmentCandidate \<Rightarrow> bool \<Rightarrow> ('e, bool) io" where
  "delete_empty_segment api root ledger c permit =
     (if \<not> permit then returnE False
      else bindE (remove_empty_segment_directory api root c) (finish_removal root ledger c))"
subsection \<open>What others may do meanwhile\<close>

definition children :: "path \<Rightarrow> path set" where
  "children d = {p. \<exists>n. p = d @ [n]}"

text \<open>Others may add files to a directory, but neither remove nor change one, nor make directories.\<close>

definition steady :: "path \<Rightarrow> (nat \<Rightarrow> world \<Rightarrow> world) option \<Rightarrow> bool" where
  "steady seg hook \<longleftrightarrow>
     (\<forall>h i w. hook = Some h \<longrightarrow> world_ok w \<longrightarrow>
        world_ok (h i w) \<and> is_dir (h i w) = is_dir w \<and> (\<forall>p b. view w p = Some b \<longrightarrow> view (h i w) p = Some b)
        \<and> (\<forall>p. p \<notin> children seg \<longrightarrow> view (h i w) p = view w p))"

lemma steady_none [simp]: "steady seg None"
  by (simp add: steady_def)

subsection \<open>Names in a segment\<close>

lemma digit_first: "is_digit x \<Longrightarrow> x \<noteq> CHR ''.'' \<and> x \<noteq> CHR ''r''"
  by (auto simp: is_digit_def)

lemma split_once_digits:
  "split_once c s = Some (a, b) \<Longrightarrow> s = a @ c # b"
  by (induction s arbitrary: a) (auto split: if_splits)

lemma member_first:
  assumes "valid_segment_name g" "valid_member g n"
  shows "n \<noteq> []" "hd n \<noteq> CHR ''.''" "hd n \<noteq> CHR ''r''"
proof -
  obtain t d where s: "split_once (CHR ''_'') g = Some (t, d)" and t: "length t = 6" "list_all is_digit t"
    using assms(1) by (auto simp: valid_segment_name_def split: option.splits)
  have "(\<exists>r. n = ''tmux_'' @ r) \<or> (\<exists>r. n = t @ r)"
    using assms(2) s
    by (auto simp: valid_member_def valid_capture_filename_def valid_activity_filename_def strip_prefix_Some
        split: option.splits if_splits dest!: bind_eq_Some_conv [THEN iffD1])
  moreover obtain x xs where "t = x # xs" "is_digit x" using t by (cases t) auto
  ultimately show "n \<noteq> []" "hd n \<noteq> CHR ''.''" "hd n \<noteq> CHR ''r''" using digit_first by auto
qed

lemma hidden_names: "hd (preserved_name i) = CHR ''.''" "hd (temp_name n a b) = CHR ''.''"
  by (simp_all add: preserved_name_def temp_name_def)

lemma preserved_not_temp: "n \<noteq> [] \<Longrightarrow> hd n \<noteq> CHR ''r'' \<Longrightarrow> preserved_name i \<noteq> temp_name n a b"
  by (cases n) (auto simp: preserved_name_def temp_name_def)

lemma preserved_name_inject: "preserved_name i = preserved_name j \<longleftrightarrow> i = j"
  by (simp add: preserved_name_def dec_of_nat_inject)

lemma preserved_plain: "plain_name (preserved_name i)"
proof (rule plain_ascii)
  have "is_digit x \<Longrightarrow> byte x < 128 \<and> x \<noteq> CHR ''/''" for x by (auto simp: is_digit_def)
  then show "list_all (\<lambda>c. byte c < 128 \<and> c \<noteq> CHR ''/'') (preserved_name i)"
    using dec_of_nat_digit by (auto simp: preserved_name_def list_all_iff)
qed (simp_all add: preserved_name_def)

subsection \<open>Files that must not be lost\<close>

text \<open>What a removal may never disturb.\<close>

definition undisturbed :: "path \<Rightarrow> world \<Rightarrow> world \<Rightarrow> bool" where
  "undisturbed seg w0 w \<longleftrightarrow>
     world_ok w \<and> is_dir w = is_dir w0
     \<and> (\<forall>p. p \<notin> children seg \<longrightarrow> view w p = view w0 p)"

text \<open>The bytes that were under a name are there still, or the journal holds them.\<close>

definition kept_or_held ::
  "(bytes \<Rightarrow> string) \<Rightarrow> (string \<Rightarrow> string option) \<Rightarrow> path \<Rightarrow> world \<Rightarrow> world \<Rightarrow> bool" where
  "kept_or_held sha digests seg w0 w \<longleftrightarrow>
     undisturbed seg w0 w
     \<and> (\<forall>n b. view w0 (seg @ [n]) = Some b \<longrightarrow> view w (seg @ [n]) = Some b \<or> digests n = Some (sha b))"

text \<open>While files are put back, one may also be under its preserved name.\<close>

definition put_back ::
  "(bytes \<Rightarrow> string) \<Rightarrow> (string \<Rightarrow> string option) \<Rightarrow> path \<Rightarrow> string list \<Rightarrow> nat \<Rightarrow> world \<Rightarrow> world \<Rightarrow> bool" where
  "put_back sha digests seg ns k w0 w \<longleftrightarrow>
     undisturbed seg w0 w
     \<and> (\<forall>n b. view w0 (seg @ [n]) = Some b \<longrightarrow> view w (seg @ [n]) = Some b \<or> digests n = Some (sha b)
          \<or> (\<exists>i < k. i < length ns \<and> ns ! i = n \<and> view w (seg @ [preserved_name i]) = Some b))"

lemma undisturbed_tick [simp]: "undisturbed seg w0 (tick w) = undisturbed seg w0 w"
  by (simp add: undisturbed_def world_simps)

lemma held_tick [simp]: "kept_or_held sha digests seg w0 (tick w) = kept_or_held sha digests seg w0 w"
  by (simp add: kept_or_held_def world_simps)

lemma put_back_tick [simp]: "put_back sha digests seg ns k w0 (tick w) = put_back sha digests seg ns k w0 w"
  by (simp add: put_back_def world_simps)

lemma kept_put_back: "kept_or_held sha digests seg w0 w \<Longrightarrow> put_back sha digests seg ns 0 w0 w"
  by (auto simp: kept_or_held_def put_back_def)

lemma put_back_Suc: "put_back sha digests seg ns k w0 w \<Longrightarrow> put_back sha digests seg ns (Suc k) w0 w"
  unfolding put_back_def by (blast intro: less_SucI)

lemma kept_hook:
  assumes "steady seg hook" "kept_or_held sha digests seg w0 w"
  shows "wpE (run_hook hook i) (\<lambda>_. kept_or_held sha digests seg w0) R w"
proof (cases hook)
  case (Some h)
  have ok: "world_ok w" using assms(2) by (simp add: kept_or_held_def undisturbed_def)
  have h: "world_ok (h i w)" "is_dir (h i w) = is_dir w" "\<And>p b. view w p = Some b \<Longrightarrow> view (h i w) p = Some b"
    "\<And>p. p \<notin> children seg \<Longrightarrow> view (h i w) p = view w p"
    using assms(1) ok Some unfolding steady_def by blast+
  then have "kept_or_held sha digests seg w0 (h i w)"
    using assms(2) unfolding kept_or_held_def undisturbed_def by metis
  then show ?thesis by (simp add: run_hook_def Some)
qed (use assms in \<open>simp add: run_hook_def\<close>)

subsection \<open>Unlinking\<close>

lemma wp_open_at:
  assumes "\<And>e u. only_ticks w u \<Longrightarrow> R e u"
    "\<And>i u. only_ticks w u \<Longrightarrow> node_at w (dir @ [n]) = Some (NFile i) \<Longrightarrow> Q i u" "plain_name n"
  shows "wpE (open_regular_readonly_at dir n p) Q R w"
  unfolding open_regular_readonly_at_def stage_io_def path_join_plain_name [OF assms(3)] wpE_bind wpE_map_err
  by (intro wp_intros assms(1))
    (auto simp: EIO_def world_simps split: node.split intro!: wp_seek assms(1,2))

lemma wp_metadata:
  assumes "R EIO (tick w)" "Q \<lparr>mt_inode = i, mt_size = length (contents w i), mt_stamp = stamp (tick w) i\<rparr> (tick w)"
  shows "wpE (fs_metadata stamp i) Q R w"
  unfolding fs_metadata_def by (rule wp_sys) (use assms in \<open>auto simp: wpE_def world_simps\<close>)

lemma kept_unlink:
  assumes k: "kept_or_held sha digests seg w0 w" and i: "node_at w (seg @ [n]) = Some (NFile i)"
    and d: "digests n = Some (sha (contents w i))"
  shows "kept_or_held sha digests seg w0 (del_node (seg @ [n]) w)"
proof -
  have v: "view (del_node (seg @ [n]) w) p = (if p = seg @ [n] then None else view w p)" for p
    by (simp add: view_del_node)
  have dirs: "is_dir (del_node (seg @ [n]) w) = is_dir w"
    using i by (auto simp: is_dir_del_node is_dir_def fun_eq_iff)
  have b: "view w (seg @ [n]) = Some (contents w i)" using i by (simp add: view_def)
  have all: "view w0 (seg @ [m]) = Some c \<Longrightarrow> view w (seg @ [m]) = Some c \<or> digests m = Some (sha c)" for m c
    using k by (simp add: kept_or_held_def)
  have "view (del_node (seg @ [n]) w) (seg @ [m]) = Some c \<or> digests m = Some (sha c)"
    if "view w0 (seg @ [m]) = Some c" for m c
    using all [OF that] b d by (cases "m = n") (auto simp: v)
  moreover have "undisturbed seg w0 (del_node (seg @ [n]) w)"
    using k by (auto simp: kept_or_held_def undisturbed_def dirs v world_ok_del_node children_def)
  ultimately show ?thesis by (simp add: kept_or_held_def)
qed

lemma delete_checked_spec:
  assumes k: "kept_or_held sha digests seg w0 w" and n: "plain_name (fi_name e)"
  shows "wpE (delete_checked stamp sha seg digests p e)
    (\<lambda>_. kept_or_held sha digests seg w0) (\<lambda>_. kept_or_held sha digests seg w0) w"
proof -
  have t: "kept_or_held sha digests seg w0 u" if "only_ticks w u" for u
    using k only_ticks_obs [OF that] by (simp add: kept_or_held_def undisturbed_def)
  have unlink: "wpE (fs_remove_file (path_join seg (fi_name e)))
      (\<lambda>_. kept_or_held sha digests seg w0) (\<lambda>_. kept_or_held sha digests seg w0) u"
    if u: "only_ticks w u" "node_at w (seg @ [fi_name e]) = Some (NFile i)"
      "digests (fi_name e) = Some (sha (contents w i))" for u i
    unfolding path_join_plain_name [OF n]
    by (rule wp_remove_file) (use t u only_ticks_obs [OF u(1)] in \<open>auto simp: world_simps intro!: kept_unlink\<close>)
  have held: "wpE (unlink_if_held stamp sha seg digests e i)
      (\<lambda>_. kept_or_held sha digests seg w0) (\<lambda>_. kept_or_held sha digests seg w0) u"
    if u: "only_ticks w u" and i: "node_at w (seg @ [fi_name e]) = Some (NFile i)" for u i
  proof -
    have s: "only_ticks w (tick u)" "only_ticks w (tick (tick u))" "only_ticks w (tick (tick (tick u)))"
      using u by simp_all
    have c: "contents (tick (tick u)) i = contents w i" using only_ticks_obs(2) [OF u] by (simp add: world_simps)
    show ?thesis
      unfolding unlink_if_held_def wpE_try
      by (rule wp_metadata)
        (use s i t c unlink in \<open>auto simp: stream_sha256_hex_def split: option.split intro!: wp_seek wp_read_fd\<close>)
  qed
  show ?thesis
    unfolding delete_checked_def wpE_try
    by (rule wp_open_at [OF _ _ n]) (simp_all add: t held)
qed
lemma keeps_delete_files:
  assumes "steady seg hook" "\<forall>(p, e) \<in> set es. plain_name (fi_name e)"
  shows "keepsE (kept_or_held sha digests seg w0) (delete_files stamp sha hook seg digests i es)"
  using assms(2)
proof (induction es arbitrary: i)
  case (Cons x es)
  obtain p e where x: "x = (p, e)" by fastforce
  show ?case
    unfolding x delete_files.simps
    by (intro keeps_intros keepsE_I [OF kept_hook [OF assms(1)]] keepsE_I [OF delete_checked_spec] Cons.IH)
      (use Cons.prems x in auto)
qed (simp add: keeps_intros)

subsection \<open>Putting back\<close>

text \<open>The names of the expected files are visible, and so are all names in use.\<close>

definition visible :: "string \<Rightarrow> bool" where
  "visible n \<longleftrightarrow> n \<noteq> [] \<and> hd n \<noteq> CHR ''.'' \<and> hd n \<noteq> CHR ''r''"

definition visible_names :: "path \<Rightarrow> world \<Rightarrow> bool" where
  "visible_names seg w0 \<longleftrightarrow> (\<forall>n b. view w0 (seg @ [n]) = Some b \<longrightarrow> visible n)"

lemma view_put_node:
  "view (put_node q x w) p = (if p = q then (case x of NFile i \<Rightarrow> Some (contents w i) | _ \<Rightarrow> None) else view w p)"
  by (auto simp: view_def world_simps split: node.splits option.splits)

lemma is_dir_put_node: "is_dir (put_node q x w) p = (if p = q then is_plain_directory x else is_dir w p)"
  by (auto simp: is_dir_def is_plain_directory_def world_simps split: node.splits option.splits)

lemma own_scope_children: "own_scope seg n \<subseteq> children seg"
  by (auto simp: own_scope_def children_def)

lemma visible_out_of_scope: "visible m \<Longrightarrow> m \<noteq> n \<Longrightarrow> seg @ [m] \<notin> own_scope seg n"
  using hidden_names by (auto simp: own_scope_def visible_def)

lemma preserved_out_of_scope: "visible n \<Longrightarrow> seg @ [preserved_name i] \<notin> own_scope seg n"
  using hidden_names(1) [of i] preserved_not_temp [of n i] by (auto simp: own_scope_def visible_def)

lemma put_back_write:
  assumes p: "put_back sha digests seg ns k w0 w" and free: "view w (seg @ [n]) = None"
    and t: "only_touches (own_scope seg n) w u" and v: "visible_names seg w0" "visible n"
  shows "put_back sha digests seg ns k w0 u"
proof -
  have same: "view u q = view w q" if "q \<notin> own_scope seg n" for q using t that by (simp add: only_touches_def)
  have "undisturbed seg w0 u"
  proof -
    have out: "view u q = view w q" if "q \<notin> children seg" for q
      using that same own_scope_children [of seg n] by blast
    show ?thesis
      using p t out unfolding put_back_def undisturbed_def only_touches_def by metis
  qed
  moreover have "view u (seg @ [m]) = Some b \<or> digests m = Some (sha b)
      \<or> (\<exists>i < k. i < length ns \<and> ns ! i = m \<and> view u (seg @ [preserved_name i]) = Some b)"
    if m: "view w0 (seg @ [m]) = Some b" for m b
  proof -
    have c: "view u (seg @ [preserved_name i]) = view w (seg @ [preserved_name i])" for i
      using same [OF preserved_out_of_scope [OF v(2)]] by simp
    have "view w (seg @ [m]) = Some b \<or> digests m = Some (sha b)
      \<or> (\<exists>i < k. i < length ns \<and> ns ! i = m \<and> view w (seg @ [preserved_name i]) = Some b)"
      using p m by (simp add: put_back_def)
    moreover have "view u (seg @ [m]) = Some b" if "view w (seg @ [m]) = Some b"
    proof -
      have "m \<noteq> n" using that free by auto
      moreover have "visible m" using v(1) m by (auto simp: visible_names_def)
      ultimately show ?thesis using same visible_out_of_scope that by metis
    qed
    ultimately show ?thesis using c by auto
  qed
  ultimately show ?thesis by (simp add: put_back_def)
qed

lemma put_back_rename:
  assumes p: "put_back sha digests seg ns k w0 w" and x: "node_at w (seg @ [n]) = Some x"
    and nodir: "\<not> is_dir w (seg @ [n])" "\<not> is_dir w (seg @ [preserved_name k])"
    and n: "k < length ns" "ns ! k = n" and v: "visible_names seg w0" "visible n"
    and u: "u = put_node (seg @ [preserved_name k]) x (del_node (seg @ [n]) w)"
  shows "put_back sha digests seg ns (Suc k) w0 u" "view u (seg @ [n]) = None"
proof -
  have ne: "preserved_name k \<noteq> n" using hidden_names(1) v(2) by (auto simp: visible_def)
  have xn: "\<not> is_plain_directory x" using x nodir(1) by (auto simp: is_dir_def is_plain_directory_def split: node.splits)
  have xv': "(case x of NFile i \<Rightarrow> Some (contents (del_node (seg @ [n]) w) i) | _ \<Rightarrow> None) = view w (seg @ [n])"
    using x by (cases x) (simp_all add: view_def world_simps)
  have vw: "view u q = (if q = seg @ [preserved_name k] then view w (seg @ [n]) else if q = seg @ [n] then None else view w q)" for q
    by (simp add: u view_put_node view_del_node xv' )
  have dirs: "is_dir u = is_dir w"
    using nodir xn by (auto simp: u is_dir_put_node is_dir_del_node fun_eq_iff)
  have ok: "world_ok u" using p x by (simp add: u put_back_def undisturbed_def world_ok_rename)
  show "view u (seg @ [n]) = None" using ne by (simp add: vw)
  have "undisturbed seg w0 u"
    using p ok by (auto simp: put_back_def undisturbed_def dirs vw children_def)
  moreover have "view u (seg @ [m]) = Some b \<or> digests m = Some (sha b)
      \<or> (\<exists>i < Suc k. i < length ns \<and> ns ! i = m \<and> view u (seg @ [preserved_name i]) = Some b)"
    if m: "view w0 (seg @ [m]) = Some b" for m b
  proof -
    have mv: "visible m" using v(1) m by (auto simp: visible_names_def)
    then have mk: "m \<noteq> preserved_name k" using hidden_names(1) by (auto simp: visible_def)
    consider "view w (seg @ [m]) = Some b" | "digests m = Some (sha b)"
      | i where "i < k" "i < length ns" "ns ! i = m" "view w (seg @ [preserved_name i]) = Some b"
      using p m unfolding put_back_def by blast
    then show ?thesis
    proof cases
      case 1
      show ?thesis
      proof (cases "m = n")
        case True
        then have "view u (seg @ [preserved_name k]) = Some b" using 1 by (simp add: vw)
        then show ?thesis using n True by blast
      next
        case False
        then show ?thesis using 1 mk by (simp add: vw)
      qed
    next
      case 3
      have "preserved_name i \<noteq> n" using hidden_names(1) v(2) by (auto simp: visible_def)
      with 3 show ?thesis by (auto simp: vw preserved_name_inject intro: less_SucI)
    qed simp
  qed
  ultimately show "put_back sha digests seg ns (Suc k) w0 u" by (simp add: put_back_def)
qed

lemma wp_rename_plain:
  assumes "\<And>e. R e (tick w)" "\<not> is_dir w p" "p \<noteq> q"
    "\<And>x. node_at w p = Some x \<Longrightarrow> \<not> is_dir w q \<Longrightarrow> Q () (put_node q x (del_node p (tick w)))"
  shows "wpE (fs_rename p q) Q R w"
  unfolding fs_rename_def
  by (rule wp_sys)
    (use assms in \<open>auto simp: wpE_def world_simps is_dir_def split: option.splits node.splits\<close>)

lemma put_back_missing:
  assumes "put_back sha digests seg ns k w0 w" "node_at w (seg @ [n]) = None"
  shows "put_back sha digests seg ns (Suc k) w0 w" "view w (seg @ [n]) = None"
  using assms put_back_Suc by (auto simp: view_def)

lemma rewrite_spec:
  assumes p: "put_back sha digests seg ns k w0 w" and free: "view w (seg @ [n]) = None"
    and v: "visible_names seg w0" "visible n" and n: "plain_name n"
  shows "wpE (rewrite_file seg (seg @ [n]) fd) (\<lambda>_. put_back sha digests seg ns k w0)
    (\<lambda>_. put_back sha digests seg ns k w0) w"
proof -
  have t: "put_back sha digests seg ns k w0 (tick (tick w))" "view (tick (tick w)) (seg @ [n]) = None"
    using p free by (simp_all add: world_simps)
  have ok: "world_ok (tick (tick w))" using t(1) by (simp add: put_back_def undisturbed_def)
  have "wpE (atomic_write_bytes (seg @ [n]) seg b) (\<lambda>_. put_back sha digests seg ns k w0)
      (\<lambda>_. put_back sha digests seg ns k w0) (tick (tick w))" for b
    by (rule wpE_mono [OF atomic_write_exact [OF ok n]])
      (auto simp: replaced_ok_def replaced_err_def intro: put_back_write [OF t _ v])
  then show ?thesis
    unfolding rewrite_file_def wpE_try
    using p by (intro wp_seek) (auto intro!: wp_read_fd)
qed

lemma restore_file_spec:
  assumes p: "put_back sha digests seg ns k w0 w" and v: "visible_names seg w0" "visible n"
    and n: "plain_name n" "k < length ns" "ns ! k = n" "fi_name e = n" and nodir: "\<not> is_dir w0 (seg @ [n])"
  shows "wpE (restore_file stamp seg k (seg @ [n]) e fd :: ('e, bool) io) (\<lambda>_. put_back sha digests seg ns (Suc k) w0)
    (\<lambda>_. put_back sha digests seg ns (Suc k) w0) w"
proof -
  let ?P = "put_back sha digests seg ns (Suc k) w0"
  have t: "put_back sha digests seg ns k w0 u" "?P u" if "only_ticks w u" for u
    using p put_back_Suc only_ticks_obs [OF that] by (simp_all add: put_back_def undisturbed_def)
  have again: "wpE (rewrite_file seg (seg @ [n]) fd :: ('e, bool) io) (\<lambda>_. ?P) (\<lambda>_. ?P) u" if "?P u" "view u (seg @ [n]) = None" for u
    by (rule rewrite_spec [OF that v n(1)])
  have rename: "wpE (fs_rename (seg @ [n]) (seg @ [preserved_name k]))
      (\<lambda>_. wpE (rewrite_file seg (seg @ [n]) fd :: ('e, bool) io) (\<lambda>_. ?P) (\<lambda>_. ?P)) (\<lambda>_. ?P) u" if u: "only_ticks w u" for u
  proof (rule wp_rename_plain)
    have d: "is_dir (tick u) = is_dir w0" using t(1) [of "tick u"] u by (simp add: put_back_def undisturbed_def)
    then show "\<not> is_dir u (seg @ [n])" using nodir by (simp add: world_simps)
    show "seg @ [n] \<noteq> seg @ [preserved_name k]" using hidden_names(1) v(2) by (auto simp: visible_def)
    fix x assume x: "node_at u (seg @ [n]) = Some x" "\<not> is_dir u (seg @ [preserved_name k])"
    note r = put_back_rename [OF t(1) [of "tick u"] _ _ _ n(2,3) v refl, of x]
    show "wpE (rewrite_file seg (seg @ [n]) fd :: ('e, bool) io) (\<lambda>_. ?P) (\<lambda>_. ?P)
        (put_node (seg @ [preserved_name k]) x (del_node (seg @ [n]) (tick u)))"
      by (rule again; rule r) (use u x nodir d in \<open>simp_all add: world_simps\<close>)
  qed (use t u in simp)
  have returned: "wpE (put_file_back seg k (seg @ [n]) e fd :: ('e, bool) io) (\<lambda>_. ?P) (\<lambda>_. ?P) u" if u: "only_ticks w u" for u
    unfolding put_file_back_def n(4) path_join_plain_name [OF n(1)] path_join_plain_name [OF preserved_plain] wpE_try
  proof (rule wp_lstat)
    assume "node_at u (seg @ [n]) = None"
    then have "view (tick u) (seg @ [n]) = None" by (simp add: view_def world_simps)
    with again [of "tick u"] t u show "wpE (case Inl NotFound of
         Inr _ \<Rightarrow>
           tryE (fs_lstat (seg @ [preserved_name k])) (\<lambda>preserved.
             case preserved of
               Inr _ \<Rightarrow> returnE False
             | Inl _ \<Rightarrow>
                 tryE (fs_rename (seg @ [n]) (seg @ [preserved_name k])) (\<lambda>r.
                   case r of Inl _ \<Rightarrow> returnE False | Inr _ \<Rightarrow> rewrite_file seg (seg @ [n]) fd))
       | Inl NotFound \<Rightarrow> (rewrite_file seg (seg @ [n]) fd :: ('e, bool) io)
       | Inl _ \<Rightarrow> returnE False) (\<lambda>_. ?P) (\<lambda>_. ?P) (tick u)" by simp
  qed (use t u rename in \<open>auto simp: EIO_def intro!: wp_lstat\<close>)
  show ?thesis
    unfolding restore_file_def current_matches_def n(4) wpE_bind wpE_try
    by (rule wp_open_at [OF _ _ n(1)]) (use returned t in \<open>auto intro!: wp_metadata\<close>)
qed

lemma put_back_mono: "put_back sha digests seg ns j w0 w \<Longrightarrow> j \<le> k \<Longrightarrow> put_back sha digests seg ns k w0 w"
  unfolding put_back_def by (meson order_less_le_trans)

text \<open>The expected files, as the revalidation found them.\<close>

definition expected_files :: "path \<Rightarrow> world \<Rightarrow> (path \<times> FileIdentity) list \<Rightarrow> bool" where
  "expected_files seg w0 es \<longleftrightarrow>
     (\<forall>(p, e) \<in> set es. p = seg @ [fi_name e] \<and> plain_name (fi_name e) \<and> visible (fi_name e)
        \<and> \<not> is_dir w0 (seg @ [fi_name e]))"

lemma restore_files_spec:
  assumes v: "visible_names seg w0" and ns: "ns = map (fi_name \<circ> snd) es" and es: "expected_files seg w0 es"
    and xs: "map fst xs = take (length xs) (drop k es)" and p: "put_back sha digests seg ns k w0 w"
  shows "wpE (restore_files stamp seg k xs :: ('e, bool) io)
    (\<lambda>_. put_back sha digests seg ns (k + length xs) w0) (\<lambda>_. put_back sha digests seg ns (k + length xs) w0) w"
  using xs p
proof (induction xs arbitrary: k w)
  case (Cons x xs)
  obtain pp e fd where x: "x = ((pp, e), fd)" by (metis surj_pair)
  have ne: "drop k es \<noteq> []" using Cons.prems(1) by (cases "drop k es") auto
  then have k: "k < length es" by simp
  then have d: "drop k es = es ! k # drop (Suc k) es" by (simp add: Cons_nth_drop_Suc)
  have nth: "es ! k = (pp, e)" and rest: "map fst xs = take (length xs) (drop (Suc k) es)"
    using Cons.prems(1) x d by simp_all
  then have "(pp, e) \<in> set es" using k nth_mem by metis
  then have e: "pp = seg @ [fi_name e]" "plain_name (fi_name e)" "visible (fi_name e)" "\<not> is_dir w0 (seg @ [fi_name e])"
    using es by (auto simp: expected_files_def)
  have name: "k < length ns" "ns ! k = fi_name e" using k nth by (simp_all add: ns)
  have tail: "wpE (restore_files stamp seg (Suc k) xs :: ('e, bool) io)
      (\<lambda>_. put_back sha digests seg ns (k + length (x # xs)) w0) (\<lambda>_. put_back sha digests seg ns (k + length (x # xs)) w0) u"
    if "put_back sha digests seg ns (Suc k) w0 u" for u
    using Cons.IH [OF rest that] by simp
  have more: "put_back sha digests seg ns (k + length (x # xs)) w0 u" if "put_back sha digests seg ns (Suc k) w0 u" for u
    by (rule put_back_mono [OF that]) simp
  show ?case
    unfolding x restore_files.simps wpE_bind wpE_return e(1)
    by (rule wpE_mono [OF restore_file_spec [OF Cons.prems(2) v e(3,2) name refl e(4)]])
      (use tail more x in auto)
qed simp

definition identifies :: "world \<Rightarrow> path \<Rightarrow> FileIdentity \<Rightarrow> bool" where
  "identifies w p e \<longleftrightarrow> p \<noteq> [] \<and> fi_name e = last p \<and> node_at w p = Some (NFile (fi_inode e))"

lemma file_identity_spec:
  assumes "only_ticks w u"
  shows "wpE (file_identity stamp p) (\<lambda>e _. identifies w p e) (\<lambda>_ _. True) u"
  unfolding file_identity_def open_regular_readonly_def stage_io_def nothing_def
  apply simp
  apply (rule wp_open_read; simp?)
  apply (rule wp_seek; simp?)
  apply (simp split: node.split)
  apply (intro allI impI)
  apply (rule wp_metadata; simp?)
  using only_ticks_obs(1) [OF assms] by (simp add: identifies_def)

lemma file_identities_spec:
  "only_ticks w u \<Longrightarrow> wpE (file_identities stamp ps) (\<lambda>ids _. list_all2 (identifies w) ps ids) (\<lambda>_ _. True) u"
proof (induction ps arbitrary: u)
  case (Cons p ps)
  have rest: "wpE (file_identities stamp ps) (\<lambda>ids. \<lambda>_. list_all2 (identifies w) (p # ps) (i # ids)) (\<lambda>_ _. True) v"
    if "identifies w p i \<and> only_ticks u v" for v i
    by (rule wpE_mono [OF Cons.IH]) (use that Cons.prems only_ticks_trans in auto)
  show ?case
    unfolding file_identities.simps wpE_bind wpE_return
    by (rule wpE_mono [OF wp_quiet [OF quiet_identities(1) file_identity_spec [OF Cons.prems]]])
      (use rest in auto)
qed simp

definition not_lost ::
  "(bytes \<Rightarrow> string) \<Rightarrow> (string \<Rightarrow> string option) \<Rightarrow> path \<Rightarrow> world \<Rightarrow> world \<Rightarrow> bool" where
  "not_lost sha digests seg w0 w \<longleftrightarrow>
     world_ok w
     \<and> (\<forall>p. p \<notin> children seg \<longrightarrow> view w p = view w0 p)
     \<and> (\<forall>n b. view w0 (seg @ [n]) = Some b
          \<longrightarrow> digests n = Some (sha b) \<or> (\<exists>m. view w (seg @ [m]) = Some b))"

lemma put_back_not_lost: "put_back sha digests seg ns k w0 w \<Longrightarrow> not_lost sha digests seg w0 w"
  unfolding put_back_def undisturbed_def not_lost_def children_def mem_Collect_eq by metis

lemma kept_not_lost: "kept_or_held sha digests seg w0 w \<Longrightarrow> not_lost sha digests seg w0 w"
  using kept_put_back put_back_not_lost by blast

lemma not_lost_tick [simp]: "not_lost sha digests seg w0 (tick w) = not_lost sha digests seg w0 w"
  by (simp add: not_lost_def world_simps)

lemma not_lost_quiet: "not_lost sha digests seg w0 w \<Longrightarrow> only_ticks w u \<Longrightarrow> not_lost sha digests seg w0 u"
  using only_ticks_obs by (simp add: not_lost_def)

lemma not_lost_rmdir: "not_lost sha digests seg w0 w \<Longrightarrow> is_dir w p \<Longrightarrow> not_lost sha digests seg w0 (del_node p w)"
proof -
  assume a: "not_lost sha digests seg w0 w" and d: "is_dir w p"
  have "view w p = None" using d by (auto simp: view_def is_dir_def split: option.splits node.splits)
  then have "view (del_node p w) = view w" by (auto simp: view_del_node fun_eq_iff)
  with a show ?thesis by (simp add: not_lost_def world_ok_del_node)
qed

lemma quiet_retain: "quietE (retain_files stamp dir es)"
proof (induction es)
  case (Cons x es)
  obtain p e where x: "x = (p, e)" by fastforce
  have o: "quietE (open_regular_readonly_at dir n p)" for n p
    unfolding open_regular_readonly_at_def stage_io_def by (auto intro!: quiet_intros split: node.split)
  show ?case
    unfolding x retain_files.simps refused_def by (intro quiet_intros o Cons)
qed (simp add: quiet_intros)

lemma remove_revalidated_spec:
  assumes ok: "world_ok w0" and q: "only_ticks w0 w" and hook: "steady seg hook"
    and v: "visible_names seg w0" and es: "expected_files seg w0 (zip paths ids)"
  shows "wpE (remove_revalidated stamp sha hook c paths ids digests seg sp)
    (\<lambda>_. not_lost sha digests seg w0) (\<lambda>_. not_lost sha digests seg w0) w"
proof -
  let ?ns = "map (fi_name \<circ> snd) (zip paths ids)"
  let ?N = "not_lost sha digests seg w0" and ?K = "kept_or_held sha digests seg w0"
  have k: "?K u" if "only_ticks w0 u" for u
    using only_ticks_obs [OF that] ok by (simp add: kept_or_held_def undisturbed_def)
  have names: "\<forall>(p, e) \<in> set (zip paths ids). plain_name (fi_name e)"
    using es by (auto simp: expected_files_def)
  have restore: "wpE (restore_expected_files stamp paths ids seg fds :: (RemovalResult, bool) io) (\<lambda>_. ?N) (\<lambda>_. ?N) u"
    if u: "?K u" for u fds
  proof -
    let ?xs = "zip (zip paths ids) fds"
    have "map fst ?xs = take (length ?xs) (drop 0 (zip paths ids))" by (simp add: map_fst_zip_take)
    from restore_files_spec [OF v refl es this kept_put_back [OF u], of stamp]
    show ?thesis unfolding restore_expected_files_def by (rule wpE_mono) (simp_all add: put_back_not_lost)
  qed
  have rmdir: "wpE (fs_remove_dir p) (\<lambda>_. wpE (bindE (ignoreE (sync_directory sp)) (\<lambda>_. returnE RrRemoved)) (\<lambda>_. ?N) (\<lambda>_. ?N))
      (\<lambda>_. wpE (bindE (restore_expected_files stamp paths ids seg fds :: (RemovalResult, bool) io) (\<lambda>_. returnE RrFailed)) (\<lambda>_. ?N) (\<lambda>_. ?N)) u"
    if u: "?K u" for p u fds
  proof (rule wp_remove_dir)
    fix e show "wpE (bindE (restore_expected_files stamp paths ids seg fds :: (RemovalResult, bool) io) (\<lambda>_. returnE RrFailed)) (\<lambda>_. ?N) (\<lambda>_. ?N) (tick u)"
      using restore [of "tick u"] u by simp
  next
    assume "is_dir u p"
    then have n: "?N (del_node p (tick u))"
      using kept_not_lost [OF u] by (intro not_lost_rmdir) (simp_all add: world_simps)
    show "wpE (bindE (ignoreE (sync_directory sp)) (\<lambda>_. returnE RrRemoved)) (\<lambda>_. ?N) (\<lambda>_. ?N) (del_node p (tick u))"
      using n not_lost_quiet quiet_snd [OF quiet_opens(3)]
      by (auto simp: wpE_def split: prod.splits sum.splits)
  qed
  have files: "wpE (delete_files stamp sha hook seg digests 0 (zip paths ids))
      (\<lambda>deleted. wpE (if \<not> deleted
        then bindE (restore_expected_files stamp paths ids seg fds :: (RemovalResult, bool) io) (\<lambda>_. returnE RrFailed)
        else tryE (fs_remove_dir (path_join sp (sc_segment c))) (\<lambda>r.
          case r of
            Inl _ \<Rightarrow> bindE (restore_expected_files stamp paths ids seg fds :: (RemovalResult, bool) io) (\<lambda>_. returnE RrFailed)
          | Inr _ \<Rightarrow> bindE (ignoreE (sync_directory sp)) (\<lambda>_. returnE RrRemoved))) (\<lambda>_. ?N) (\<lambda>_. ?N))
      (\<lambda>_. ?N) u" if "only_ticks w0 u" for u fds
    by (rule wpE_mono [OF keepsE_D [OF keeps_delete_files [OF hook names] k [OF that]]])
      (use restore rmdir kept_not_lost in auto)
  have looks: "wpE m (\<lambda>_. only_ticks w0) (\<lambda>_. ?N) u" if "quietE m" "only_ticks w0 u" for m u
    using quiet_snd [OF that(1), of u] that(2) only_ticks_trans kept_not_lost [OF k]
    by (auto simp: wpE_def split: prod.splits sum.splits)
  note look = wpE_mono [OF looks]
  show ?thesis
    unfolding remove_revalidated_def wpE_bind refused_def wpE_map_err
    by (rule look [OF quiet_opens(2) q], rule look [OF quiet_opens(2)], assumption,
        rule look [OF quiet_retain], assumption, rule files) simp_all
qed

lemma delete_revalidated_spec:
  assumes ok: "world_ok w" and hook: "steady (segment_dir_of root c) hook"
  shows "wpE (delete_revalidated_segment api stamp sha root c expected_paths expected_ids digests hook)
    (\<lambda>_. not_lost sha digests (segment_dir_of root c) w) (\<lambda>_. not_lost sha digests (segment_dir_of root c) w) w"
proof -
  let ?seg = "segment_dir_of root c"
  let ?N = "not_lost sha digests ?seg w"
  have n: "?N u" if "only_ticks w u" for u
    using only_ticks_obs [OF that] ok by (auto simp: not_lost_def)
  have found: "wpE (remove_found stamp sha hook c ps expected_paths expected_ids digests)
      (\<lambda>_. ?N) (\<lambda>_. ?N) u"
    if r: "resolved api w root c ps" "ps \<noteq> []" and u: "only_ticks w u" for ps u
  proof (cases "ps = expected_paths")
    case True
    have members: "\<exists>n. p = ?seg @ [n] \<and> valid_member (sc_segment c) n \<and> exact_component n \<noteq> None
        \<and> (\<exists>i. node_at w p = Some (NFile i))" if "p \<in> set ps" for p
      using r(1) that by (auto simp: resolved_def Let_def)
    have seg_name: "valid_segment_name (sc_segment c)"
      using r(1) by (simp add: resolved_def Let_def a_segment_def segment_in_def)
    have visible: "visible_names ?seg w"
      unfolding visible_names_def visible_def
    proof (intro allI impI)
      fix n b assume "view w (?seg @ [n]) = Some b"
      then obtain i where "node_at w (?seg @ [n]) = Some (NFile i)" using view_SomeD by blast
      from dir_entries_complete [OF this] have "n \<in> set (member_names w ?seg)"
        by (force simp: member_names_def)
      then have "valid_member (sc_segment c) n" using r(1) by (simp add: resolved_def Let_def)
      then show "n \<noteq> [] \<and> hd n \<noteq> CHR ''.'' \<and> hd n \<noteq> CHR ''r''" using member_first [OF seg_name] by blast
    qed
    have expected: "expected_files ?seg w (zip ps ids)" if "list_all2 (identifies w) ps ids" for ids
      unfolding expected_files_def
    proof (clarify)
      fix p e assume "(p, e) \<in> set (zip ps ids)"
      then have p: "p \<in> set ps" and i: "identifies w p e"
        using that by (auto simp: list_all2_iff dest: set_zip_leftD)
      obtain n where n: "p = ?seg @ [n]" "valid_member (sc_segment c) n" "exact_component n \<noteq> None"
        "\<exists>i. node_at w p = Some (NFile i)" using members [OF p] by blast
      then have "fi_name e = n" using i by (simp add: identifies_def)
      with n exact_plain [OF n(3)] member_first [OF seg_name n(2)]
      show "p = ?seg @ [fi_name e] \<and> plain_name (fi_name e) \<and> visible (fi_name e) \<and> \<not> is_dir w (?seg @ [fi_name e])"
        by (auto simp: visible_def is_dir_def)
    qed
    obtain p0 rest where p0: "ps = p0 # rest" using r(2) by (cases ps) auto
    then have hd: "Option.bind (case expected_paths of [] \<Rightarrow> None | p # _ \<Rightarrow> Some p) path_parent = Some ?seg"
      using members [of p0] True by (auto simp: path_parent_def)
    have parent: "path_parent ?seg = Some (butlast ?seg)" by (simp add: path_parent_def segment_dir_of_def)
    have ids: "wpE (file_identities stamp ps) (\<lambda>ids v. list_all2 (identifies w) ps ids \<and> only_ticks u v)
        (\<lambda>_ v. True \<and> only_ticks u v) u"
      by (rule wp_quiet [OF quiet_identities(2) file_identities_spec [OF u]])
    have last: "wpE (remove_revalidated stamp sha hook c ps ids digests ?seg (butlast ?seg)) (\<lambda>_. ?N) (\<lambda>_. ?N) v"
      if "list_all2 (identifies w) ps ids" "only_ticks u v" for ids v
      by (rule remove_revalidated_spec [OF ok only_ticks_trans [OF u that(2)] hook visible expected [OF that(1)]])
    show ?thesis
      unfolding remove_found_def wpE_try hd parent option.case
      using True by simp (rule wpE_mono [OF ids [unfolded True]]; use last n only_ticks_trans [OF u] hd parent in auto)
  qed (use n [OF u] in \<open>simp add: remove_found_def\<close>)
  show ?thesis
    unfolding delete_revalidated_segment_def wpE_early_return wpE_bind
    by (rule wpE_mono [OF resolve_spec])
      (use found n in \<open>auto simp: resolution_def split: ResolvedSegmentFiles.splits\<close>)
qed

text \<open>
  C30. Deleting needs proof. Whatever fails, and whatever others add to the directory meanwhile,
  \<open>delete_revalidated_segment\<close> changes no file outside the segment's directory, and of each
  file there was in that directory either the digest the caller expects under its name is that of
  its bytes, or its bytes are still in the directory (under its name, or under the name a conflict
  was moved to).
\<close>

theorem deletion_needs_proof:
  assumes "world_ok w" "steady (segment_dir_of root c) hook"
  shows "case (delete_revalidated_segment api stamp sha root c paths ids digests hook :: ('e, RemovalResult) io) w of
    (_, w') \<Rightarrow> (\<forall>p. (\<nexists>n. p = segment_dir_of root c @ [n]) \<longrightarrow> view w' p = view w p)
      \<and> (\<forall>n b. view w (segment_dir_of root c @ [n]) = Some b
           \<longrightarrow> digests n = Some (sha b) \<or> (\<exists>m. view w' (segment_dir_of root c @ [m]) = Some b))"
  using delete_revalidated_spec [OF assms, where 'a = 'e, of api stamp sha paths ids digests]
  by (auto simp: wpE_def not_lost_def children_def split: prod.splits sum.splits)

definition capture_world :: world where
  "capture_world = \<lparr>w_names = [([], NDir 0), ([''c''], NDir 1), ([''c'', ''20260101''], NDir 2),
       ([''c'', ''20260101'', ''host''], NDir 3), ([''c'', ''20260101'', ''host'', ''120000_300''], NDir 4),
       ([''c'', ''20260101'', ''host'', ''120000_300'', ''tmux_a_screen.jsonl''], NFile 5)],
     w_data = [(5, ''x'')], w_mode = [], w_next = 6, w_outcomes = [], w_pid = 7, w_counter = 0,
     w_fault = \<lparr>af_fault = None, af_target = None, af_prefix = None, af_remaining = 0\<rparr>\<rparr>"

definition plain_stamp :: stamp where
  "plain_stamp _ _ = \<lparr>st_device = 1, st_mtime = 0, st_mtime_nsec = 0, st_ctime = 0, st_ctime_nsec = 0\<rparr>"

definition any_calendar :: TimeApi where
  "any_calendar = \<lparr>offset_ok = (\<lambda>_. True), instant_ok = (\<lambda>_. True), calendar_ok = (\<lambda>_ _ _. True)\<rparr>"

text \<open>Without a digest the file stays.\<close>

theorem deletion_needs_proof_witness:
  "\<exists>w'. snd ((delete_revalidated_segment any_calendar plain_stamp (\<lambda>b. b) [''c''] sample_candidate
        [[''c'', ''20260101'', ''host'', ''120000_300'', ''tmux_a_screen.jsonl'']] [] (\<lambda>_. None) None :: (unit, RemovalResult) io) capture_world) = w'
      \<and> (\<exists>m. view w' [''c'', ''20260101'', ''host'', ''120000_300'', m] = Some ''x'')"
proof -
  have ok: "world_ok capture_world" by (rule world_ok_checked) code_simp
  have v: "view capture_world [''c'', ''20260101'', ''host'', ''120000_300'', ''tmux_a_screen.jsonl''] = Some ''x''" by code_simp
  have s: "segment_dir_of [''c''] sample_candidate = [''c'', ''20260101'', ''host'', ''120000_300'']" by code_simp
  from deletion_needs_proof [OF ok steady_none, where 'e = unit and api = any_calendar and stamp = plain_stamp
      and sha = "\<lambda>b. b" and root = "[''c'']" and c = sample_candidate and ids = "[]" and digests = "\<lambda>_. None"
      and paths = "[[''c'', ''20260101'', ''host'', ''120000_300'', ''tmux_a_screen.jsonl'']]"]
  show ?thesis using v by (fastforce simp: s split: prod.splits)
qed

end
