(* ===== verification/Schedule.thy ===== *)
theory Schedule
  imports Ledger
begin

text \<open>
  When to try again (\<open>src/sync.rs\<close>, the error types, \<open>map_journal_error\<close>, \<open>Backoff\<close>,
  \<open>SleepWatch\<close> and the retry schedule of a segment): what a failed request means for the sweep, how
  long the scheduler waits after failures, and when a refused segment is due again. Instants are
  seconds of the monotonic clock.
\<close>

subsection \<open>What a failure means\<close>

datatype SyncFailureClass = FcDirect | FcRelay | FcAuth | FcTimeout | FcContract

datatype SyncOperationError =
    RetainCandidate DiagnosticCode string
  | SegmentGone
  | EndSweep SyncFailureClass
  | EndSweepDiagnostic SyncFailureClass DiagnosticCode

fun diagnostic_for_failure :: "SyncFailureClass \<Rightarrow> DiagnosticCode" where
  "diagnostic_for_failure FcAuth = JournalRevoked"
| "diagnostic_for_failure FcTimeout = JournalTimeout"
| "diagnostic_for_failure FcContract = JournalContractInvalid"
| "diagnostic_for_failure FcDirect = JournalUnavailable"
| "diagnostic_for_failure FcRelay = JournalUnavailable"

fun operation_error_text :: "SyncOperationError \<Rightarrow> string" where
  "operation_error_text (RetainCandidate d _) = diagnostic_message d"
| "operation_error_text (EndSweepDiagnostic _ d) = diagnostic_message d"
| "operation_error_text SegmentGone = ''segment removed on journal; unlinked locally''"
| "operation_error_text (EndSweep f) = diagnostic_message (diagnostic_for_failure f)"

text \<open>\<open>format!("{status}:\<dots>")\<close>, or the given text without a status.\<close>

definition answer_text :: "JournalError \<Rightarrow> string \<Rightarrow> string \<Rightarrow> string" where
  "answer_text e without code =
     (case je_http_status e of Some status \<Rightarrow> dec_of_nat status | None \<Rightarrow> without) @ '':'' @ code"

definition ingest_code :: "JournalReasonCode \<Rightarrow> string" where
  "ingest_code r =
     (if r = IngestNoFiles then ''ingest_no_files''
      else if r = IngestSidecarConflict then ''ingest_sidecar_conflict''
      else ''ingest_contract_invalid'')"

definition map_rejected :: "JournalError \<Rightarrow> SyncOperationError" where
  "map_rejected e =
     (case je_reason_code e of
        Some SegmentRemoved \<Rightarrow> SegmentGone
      | Some ContentConflict \<Rightarrow> RetainCandidate JournalRejected (answer_text e ''409'' ''content_conflict'')
      | Some LinkedDeviceRequired \<Rightarrow> EndSweepDiagnostic FcContract JournalRejected
      | Some ProtocolVersionLegacy \<Rightarrow> EndSweepDiagnostic FcContract JournalRejected
      | Some ProtocolVersionFuture \<Rightarrow> EndSweepDiagnostic FcContract JournalRejected
      | Some AuthKeyInvalid \<Rightarrow> EndSweepDiagnostic FcAuth JournalRevoked
      | Some AuthRequired \<Rightarrow> EndSweepDiagnostic FcAuth JournalRevoked
      | Some PlRevoked \<Rightarrow> EndSweepDiagnostic FcAuth JournalRevoked
      | Some IngestContractInvalid \<Rightarrow>
          RetainCandidate LocalSegmentInvalid (answer_text e ''400'' (ingest_code IngestContractInvalid))
      | Some IngestNoFiles \<Rightarrow>
          RetainCandidate LocalSegmentInvalid (answer_text e ''400'' (ingest_code IngestNoFiles))
      | Some IngestSidecarConflict \<Rightarrow>
          RetainCandidate LocalSegmentInvalid (answer_text e ''400'' (ingest_code IngestSidecarConflict))
      | Some IngestStorageFailed \<Rightarrow> EndSweepDiagnostic FcDirect JournalRejected
      | _ \<Rightarrow> EndSweepDiagnostic FcContract JournalRejected)"

definition map_journal_error :: "JournalError \<Rightarrow> SyncOperationError" where
  "map_journal_error e =
     (case je_diagnostic e of
        RequestTooLarge \<Rightarrow> RetainCandidate RequestTooLarge (answer_text e ''local'' ''request_too_large'')
      | LocalSegmentInvalid \<Rightarrow> RetainCandidate LocalSegmentInvalid (answer_text e ''local'' ''local_segment_invalid'')
      | JournalTimeout \<Rightarrow> EndSweepDiagnostic FcTimeout JournalTimeout
      | JournalRejected \<Rightarrow> map_rejected e
      | JournalContractInvalid \<Rightarrow> EndSweepDiagnostic FcContract JournalContractInvalid
      | JournalResponseTooLarge \<Rightarrow> EndSweepDiagnostic FcContract JournalResponseTooLarge
      | ConfiguredStreamMismatch \<Rightarrow> EndSweepDiagnostic FcContract ConfiguredStreamMismatch
      | PrivateStateInvalid \<Rightarrow> EndSweepDiagnostic FcContract PrivateStateInvalid
      | PrivateStateIo \<Rightarrow> EndSweepDiagnostic FcContract PrivateStateIo
      | d \<Rightarrow> EndSweepDiagnostic FcDirect d)"

text \<open>\<open>stopped\<close>: the bridge has a reason for having stopped.\<close>

definition map_bridge_error :: "JournalError \<Rightarrow> bool \<Rightarrow> SyncOperationError" where
  "map_bridge_error e stopped =
     (if je_diagnostic e = JournalUnavailable \<and> stopped then EndSweepDiagnostic FcAuth JournalRevoked
      else map_journal_error e)"

subsection \<open>Backoff\<close>

definition RETRY_DELAYS :: "nat list" where "RETRY_DELAYS = [5, 30, 120, 300]"

record Backoff =
  bo_next_delay :: nat
  bo_deadline :: "nat option"

definition new_backoff :: Backoff where "new_backoff = \<lparr>bo_next_delay = 0, bo_deadline = None\<rparr>"

definition successful_operation :: "Backoff \<Rightarrow> Backoff" where
  "successful_operation b = b\<lparr>bo_next_delay := 0, bo_deadline := None\<rparr>"

text \<open>\<open>None\<close>: the index is out of range, a panic.\<close>

definition failed_operation :: "nat \<Rightarrow> Backoff \<Rightarrow> Backoff option" where
  "failed_operation now b =
     (if bo_next_delay b < length RETRY_DELAYS
      then Some (b\<lparr>bo_next_delay := min (bo_next_delay b + 1) (length RETRY_DELAYS - 1),
                   bo_deadline := Some (now + RETRY_DELAYS ! bo_next_delay b)\<rparr>)
      else None)"

definition deadline_reached :: "Backoff \<Rightarrow> Backoff" where
  "deadline_reached b = b\<lparr>bo_deadline := None\<rparr>"

subsection \<open>Sleep\<close>

definition WAKE_GAP :: int where "WAKE_GAP = 5"

text \<open>Nanoseconds; \<open>Duration::saturating_sub\<close> stops at zero.\<close>

definition slept_between :: "int \<times> nat \<Rightarrow> int \<times> nat \<Rightarrow> bool" where
  "slept_between before after =
     (let wall = fst after - fst before; monotonic = int (snd after - snd before)
      in wall > monotonic + WAKE_GAP * 1000000000)"

record SleepWatch =
  sl_last :: "int \<times> nat"

text \<open>One round of \<open>SleepWatch::wait\<close>: whether it returns.\<close>

definition watch_round :: "int \<times> nat \<Rightarrow> SleepWatch \<Rightarrow> bool \<times> SleepWatch" where
  "watch_round now s = (slept_between (sl_last s) now, s\<lparr>sl_last := now\<rparr>)"

subsection \<open>When a segment is due\<close>

definition retry_interval :: "nat \<Rightarrow> nat" where
  "retry_interval n = (if n \<ge> 3 then 86400 else 3600)"

text \<open>Counting an answer: the same one again, or a new one.\<close>

definition note_answer :: "string \<Rightarrow> int \<Rightarrow> StateRecord \<Rightarrow> StateRecord" where
  "note_answer answer now s =
     (let n = (if sr_answer s = Some answer then sat_add_u32 (sr_answer_count s) 1 else 1);
          interval = retry_interval n
      in s\<lparr>sr_answer := Some answer, sr_answer_count := n,
           sr_next_attempt_unix := Some (now + int interval),
           sr_next_attempt_interval_seconds := Some interval\<rparr>)"

text \<open>Received, but not written: a day at once.\<close>

definition note_not_written :: "string \<Rightarrow> int \<Rightarrow> StateRecord \<Rightarrow> StateRecord" where
  "note_not_written answer now s =
     s\<lparr>sr_answer := Some answer, sr_answer_count := 1, sr_next_attempt_unix := Some (now + 86400),
       sr_next_attempt_interval_seconds := Some 86400\<rparr>"

text \<open>A schedule another journal set is not followed.\<close>

definition own_state :: "JournalIdentity \<Rightarrow> StateRecord \<Rightarrow> StateRecord" where
  "own_state idt s =
     (if sr_journal s \<noteq> Some (identity_record idt) then default_state\<lparr>sr_journal := Some (identity_record idt)\<rparr> else s)"

text \<open>\<open>u64 as i64\<close>\<close>

definition u64_as_i64 :: "nat \<Rightarrow> int" where
  "u64_as_i64 n = (if int n \<le> i64_max then int n else int n - 18446744073709551616)"

definition disk_next_attempt :: "int \<Rightarrow> StateRecord \<Rightarrow> int option" where
  "disk_next_attempt now s =
     map_option (\<lambda>stored.
       let interval = (case sr_next_attempt_interval_seconds s of None \<Rightarrow> 3600 | Some n \<Rightarrow> n)
       in min stored (now + u64_as_i64 interval)) (sr_next_attempt_unix s)"

definition next_attempt :: "int \<Rightarrow> StateRecord \<Rightarrow> int option \<Rightarrow> int" where
  "next_attempt now s held =
     (case (disk_next_attempt now s, held) of
        (Some d, Some f) \<Rightarrow> max d f
      | (Some d, None) \<Rightarrow> d
      | (None, Some f) \<Rightarrow> f
      | (None, None) \<Rightarrow> 0)"
subsection \<open>What the schedule promises\<close>

text \<open>The delays of a row of failures, from the state a success leaves.\<close>

fun fail_row :: "nat list \<Rightarrow> Backoff \<Rightarrow> Backoff option" where
  "fail_row [] b = Some b"
| "fail_row (now # nows) b = Option.bind (failed_operation now b) (fail_row nows)"

lemma fail_row_steps:
  assumes "bo_next_delay b = min k 3"
  shows "\<exists>b'. fail_row nows b = Some b' \<and> bo_next_delay b' = min (k + length nows) 3
    \<and> (nows \<noteq> [] \<longrightarrow> bo_deadline b' = Some (last nows + RETRY_DELAYS ! min (k + length nows - 1) 3))"
  using assms
proof (induction nows arbitrary: b k)
  case (Cons now nows)
  let ?b = "b\<lparr>bo_next_delay := min (min k 3 + 1) 3, bo_deadline := Some (now + RETRY_DELAYS ! min k 3)\<rparr>"
  have f: "failed_operation now b = Some ?b"
    using Cons.prems by (simp add: failed_operation_def RETRY_DELAYS_def)
  have "bo_next_delay ?b = min (Suc k) 3" by simp
  from Cons.IH [OF this] obtain b' where b': "fail_row nows ?b = Some b'"
    "bo_next_delay b' = min (Suc k + length nows) 3"
    "nows \<noteq> [] \<longrightarrow> bo_deadline b' = Some (last nows + RETRY_DELAYS ! min (Suc k + length nows - 1) 3)" by blast
  moreover have "nows = [] \<Longrightarrow> b' = ?b" using b'(1) by simp
  ultimately show ?case using f by (cases "nows = []") auto
qed simp

text \<open>
  Waiting after failures: from any state a success leaves, no row of failures ever indexes
  beyond the table of delays, the last failure's deadline is 5, 30 or 120 seconds after it for the
  first three and 300 from the fourth on, and one success starts again.
\<close>

theorem backoff_delays:
  assumes "nows \<noteq> []"
  shows "\<exists>b'. fail_row nows (successful_operation b) = Some b'
    \<and> bo_deadline b' = Some (last nows + [5, 30, 120, 300] ! min (length nows - 1) 3)
    \<and> successful_operation b' = new_backoff"
proof -
  have "bo_next_delay (successful_operation b) = min 0 3" by (simp add: successful_operation_def)
  from fail_row_steps [OF this, of nows] assms show ?thesis
    by (auto simp: RETRY_DELAYS_def successful_operation_def new_backoff_def)
qed

theorem backoff_delays_witness:
  "\<exists>b'. fail_row [10, 100] (successful_operation new_backoff) = Some b' \<and> bo_deadline b' = Some 130"
proof -
  have "[10, 100::nat] \<noteq> []" by simp
  from backoff_delays [OF this, of new_backoff] show ?thesis by auto
qed

text \<open>
  What a refused upload leads to. The answer to an upload that is no success, read in full
  while the bridge runs, has one of three consequences: the segment counts as removed exactly if
  the answer's reason is \<open>segment_removed\<close>; the segment is kept for a later try exactly if the
  reason is about this segment (\<open>content_conflict\<close>, \<open>ingest_contract_invalid\<close>,
  \<open>ingest_no_files\<close>, \<open>ingest_sidecar_conflict\<close>); every other answer ends the sweep.
\<close>

theorem refused_upload_outcomes:
  assumes "collect_response_body_limited r MAX_RESPONSE_BODY_BYTES = Inr body" "rs_status r \<noteq> 200"
    and "finish_upload unerror unupload r = Inl e"
  shows "(map_bridge_error e False = SegmentGone \<longleftrightarrow> unerror body = Some ''segment_removed'')
    \<and> ((\<exists>d a. map_bridge_error e False = RetainCandidate d a) \<longleftrightarrow>
        unerror body \<in> Some ` {''content_conflict'', ''ingest_contract_invalid'', ''ingest_no_files'', ''ingest_sidecar_conflict''})"
proof -
  let ?r = "Option.bind (unerror body) parse_reason"
  have e: "e = classify_error_response unerror (rs_status r) body"
    using assms by (simp add: finish_upload_def andR_def)
  have reason: "je_reason_code e = ?r" by (simp add: e classify_error_response_def Let_def)
  have diag: "je_diagnostic e = JournalRejected \<or> je_diagnostic e = JournalUnavailable \<and> ?r = None"
    by (simp add: e classify_error_response_def Let_def)
  have wire: "?r = Some c \<longleftrightarrow> unerror body = Some (wire_str c)" for c
    by (cases "unerror body") (simp_all add: parse_reason_iff)
  show ?thesis
  proof (cases "je_diagnostic e = JournalRejected")
    case True
    then have "map_bridge_error e False = map_rejected e"
      by (simp add: map_bridge_error_def map_journal_error_def)
    moreover have "map_rejected e = SegmentGone \<longleftrightarrow> ?r = Some SegmentRemoved"
      by (simp add: map_rejected_def reason split: option.split JournalReasonCode.split)
    moreover have "(\<exists>d a. map_rejected e = RetainCandidate d a) \<longleftrightarrow>
        ?r \<in> Some ` {ContentConflict, IngestContractInvalid, IngestNoFiles, IngestSidecarConflict}"
      by (auto simp: map_rejected_def reason split: option.splits JournalReasonCode.splits)
    ultimately show ?thesis using wire by (auto simp: image_iff)
  next
    case False
    then have "je_diagnostic e = JournalUnavailable" "?r = None" using diag by auto
    then show ?thesis
      using wire [of SegmentRemoved] wire [of ContentConflict] wire [of IngestContractInvalid]
        wire [of IngestNoFiles] wire [of IngestSidecarConflict]
      by (auto simp: map_bridge_error_def map_journal_error_def)
  qed
qed

theorem refused_upload_outcomes_witness:
  "map_bridge_error (classify_error_response (\<lambda>_. Some ''segment_removed'') 410 []) False = SegmentGone"
proof -
  let ?r = "\<lparr>rs_status = 410, rs_content_length = None, rs_length_header = None, rs_chunks = []\<rparr>"
  have c: "collect_response_body_limited ?r MAX_RESPONSE_BODY_BYTES = Inr []"
    by (simp add: collect_response_body_limited_def declared_length_def is_some_and_def)
  have f: "finish_upload (\<lambda>_. Some ''segment_removed'') (\<lambda>_. None) ?r
      = Inl (classify_error_response (\<lambda>_. Some ''segment_removed'') 410 [])"
    using c by (simp add: finish_upload_def andR_def)
  from refused_upload_outcomes [OF c _ f] show ?thesis by simp
qed

text \<open>
  A refused segment is never parked for good by a bad clock or a foreign record: read back
  from disk, the schedule this journal's answer set delays the segment by at most a day from now,
  however far ahead the stored time is; a schedule of another journal delays it not at all.
\<close>

theorem retry_is_bounded:
  assumes "sr_journal s = Some (identity_record idt)" "s' = note_answer a t s \<or> s' = note_not_written a t s"
    and "sr_journal s2 \<noteq> Some (identity_record idt)"
  shows "next_attempt now (own_state idt s') None \<le> now + 86400
    \<and> next_attempt now (own_state idt s2) None = 0"
proof -
  have "\<exists>t' n. sr_next_attempt_unix s' = Some t' \<and> sr_next_attempt_interval_seconds s' = Some n \<and> n \<le> 86400
      \<and> sr_journal s' = sr_journal s"
    using assms(2) by (auto simp: note_answer_def note_not_written_def Let_def retry_interval_def)
  then show ?thesis
    using assms(1,3)
    by (auto simp: own_state_def next_attempt_def disk_next_attempt_def u64_as_i64_def i64_max_def default_state_def)
qed

theorem retry_is_bounded_witness:
  "next_attempt 1000 (own_state \<lparr>ji_instance_id = ''i'', ji_ca_fp_prefix_hex = [], ji_pairing_generation_hex = []\<rparr>
     (note_answer ''400:ingest_no_files'' 99999999
        (default_state\<lparr>sr_journal := Some \<lparr>ji_instance_id = ''i'', ji_ca_fp_prefix_hex = [], ji_pairing_generation_hex = []\<rparr>\<rparr>))) None
   \<le> 87400"
proof -
  let ?j = "\<lparr>ji_instance_id = ''i'', ji_ca_fp_prefix_hex = [], ji_pairing_generation_hex = []\<rparr>"
  have j: "sr_journal (default_state\<lparr>sr_journal := Some ?j\<rparr>) = Some (identity_record ?j)"
    by (simp add: identity_record_def)
  have o: "sr_journal default_state \<noteq> Some (identity_record ?j)" by (simp add: default_state_def)
  from retry_is_bounded [OF j disjI1 [OF refl] o, of 1000 "''400:ingest_no_files''" 99999999]
  show ?thesis by simp
qed

end
