(* ===== verification/Sweep.thy ===== *)
theory Sweep
  imports Retention Schedule
begin

text \<open>
  The sweep (\<open>src/sync.rs\<close>, \<open>SyncScheduler\<close>): finish what the ledger says the journal holds, find
  what is due, upload it, believe the receipt, record it, delete. The state is the scheduler's
  fields beside the world of files; what the sweep is told by others are schedules consumed answer
  by answer: whether to stop (\<open>sw_stops\<close>), the wall clock (\<open>sw_clock\<close>), the monotonic clock
  (\<open>sw_mono\<close>) and whether the retention fence lets a deletion begin (\<open>sw_permits\<close>). The journal is
  an interface with a state of its own. Not modelled: the counters of \<open>SyncInstrumentation\<close>, the
  lines on stderr and a panicking blocking task.
\<close>

subsection \<open>State\<close>

datatype SyncActivity = ActivityIdle | ActivityWorking

datatype stop = Go | StopNow | StopMidway

record CachedInventory =
  ci_names :: "string list"
  ci_identities :: "FileIdentity list"
  ci_inventory :: "LocalFile list"

record SyncSweepSummary =
  ss_attempted :: nat
  ss_contacted :: bool
  ss_custodied :: nat
  ss_cancelled :: bool
  ss_failure :: "SyncFailureClass option"
  ss_diagnostic :: "DiagnosticCode option"

definition empty_summary :: SyncSweepSummary where
  "empty_summary = \<lparr>ss_attempted = 0, ss_contacted = False, ss_custodied = 0, ss_cancelled = False,
     ss_failure = None, ss_diagnostic = None\<rparr>"

record 'j sweep =
  sw_floors :: "SegmentCandidate \<Rightarrow> int option"
  sw_inventories :: "SegmentCandidate \<Rightarrow> CachedInventory option"
  sw_backoff :: Backoff
  sw_facts :: SyncFacts
  sw_activity :: SyncActivity
  sw_journal :: 'j
  sw_stops :: "stop list"
  sw_clock :: "int list"
  sw_mono :: "nat list"
  sw_permits :: "bool list"

type_synonym ('j, 'e, 'a) sw = "('j sweep \<times> world, 'e, 'a) comp"

text \<open>The trait \<open>SyncJournal\<close> and what a scheduler is built with.\<close>

record 'j sync_env =
  en_api :: TimeApi
  en_stamp :: stamp
  en_sha :: "bytes \<Rightarrow> string"
  en_codec :: ledger_codec
  en_untime :: "bytes \<Rightarrow> CaptureTime option"
  en_home :: path
  en_source :: string
  en_identity :: JournalIdentity
  en_health :: "((HealthSnapshot \<Rightarrow> bytes option) \<times> RunIdentity) option"
  en_hook :: "(nat \<Rightarrow> world \<Rightarrow> world) option"
  en_upload :: "SegmentCandidate \<Rightarrow> path list \<Rightarrow> string \<Rightarrow> CaptureTime option
    \<Rightarrow> ('j \<times> world, SyncOperationError, UploadResult) comp"
  en_status :: "('j \<times> world, SyncOperationError, unit) comp"

definition en_captures :: "'j sync_env \<Rightarrow> path" where
  "en_captures env = path_join (en_home env) ''captures''"

definition en_ledger :: "'j sync_env \<Rightarrow> path" where
  "en_ledger env = path_join (en_home env) ''sync-ledger''"

definition state_mod :: "('j sweep \<Rightarrow> 'j sweep) \<Rightarrow> ('j, 'e, unit) sw" where
  "state_mod f = modifyE (\<lambda>(s, w). (f s, w))"

definition state_get :: "('j sweep \<Rightarrow> 'a) \<Rightarrow> ('j, 'e, 'a) sw" where
  "state_get f = getsE (\<lambda>(s, w). f s)"

definition on_journal :: "('j \<times> world, 'e, 'a) comp \<Rightarrow> ('j, 'e, 'a) sw" where
  "on_journal m = (\<lambda>(s, w). case m (sw_journal s, w) of (r, (j, u)) \<Rightarrow> (r, (s\<lparr>sw_journal := j\<rparr>, u)))"

text \<open>The answers of others.\<close>

definition next_stop :: "('j, 'e, stop) sw" where
  "next_stop = (\<lambda>(s, w). case sw_stops s of [] \<Rightarrow> (Inr Go, (s, w)) | x # xs \<Rightarrow> (Inr x, (s\<lparr>sw_stops := xs\<rparr>, w)))"

definition shutdown_requested :: "('j, 'e, bool) sw" where
  "shutdown_requested = bindE next_stop (\<lambda>x. returnE (x \<noteq> Go))"

definition wall_now :: "('j, 'e, int) sw" where
  "wall_now = (\<lambda>(s, w). case sw_clock s of [] \<Rightarrow> (Inr 0, (s, w)) | x # xs \<Rightarrow> (Inr x, (s\<lparr>sw_clock := xs\<rparr>, w)))"

definition instant_now :: "('j, 'e, nat) sw" where
  "instant_now = (\<lambda>(s, w). case sw_mono s of [] \<Rightarrow> (Inr 0, (s, w)) | x # xs \<Rightarrow> (Inr x, (s\<lparr>sw_mono := xs\<rparr>, w)))"

definition begin_irreversible :: "('j, 'e, bool) sw" where
  "begin_irreversible =
     (\<lambda>(s, w). case sw_permits s of [] \<Rightarrow> (Inr True, (s, w)) | x # xs \<Rightarrow> (Inr x, (s\<lparr>sw_permits := xs\<rparr>, w)))"

text \<open>\<open>cancellable\<close>: \<open>None\<close> when the shutdown came first, before the operation or during it.\<close>

definition cancellable :: "('j, 'x, 'a) sw \<Rightarrow> ('j, 'e, ('x + 'a) option) sw" where
  "cancellable m =
     bindE next_stop (\<lambda>x.
       case x of
         StopNow \<Rightarrow> returnE None
       | Go \<Rightarrow> tryE m (\<lambda>r. returnE (Some r))
       | StopMidway \<Rightarrow> tryE m (\<lambda>_. returnE None))"

subsection \<open>Small steps\<close>

definition map_facts :: "(SyncFacts \<Rightarrow> SyncFacts) \<Rightarrow> ('j, 'e, unit) sw" where
  "map_facts f = state_mod (\<lambda>s. s\<lparr>sw_facts := f (sw_facts s)\<rparr>)"

definition forget_inventory :: "SegmentCandidate \<Rightarrow> ('j, 'e, unit) sw" where
  "forget_inventory c = state_mod (\<lambda>s. s\<lparr>sw_inventories := (sw_inventories s)(c := None)\<rparr>)"

definition retain_inventories :: "SegmentCandidate list \<Rightarrow> ('j, 'e, unit) sw" where
  "retain_inventories cs =
     state_mod (\<lambda>s. s\<lparr>sw_inventories := (\<lambda>c. if c \<in> set cs then sw_inventories s c else None)\<rparr>)"

definition set_floor :: "SegmentCandidate \<Rightarrow> int option \<Rightarrow> ('j, 'e, unit) sw" where
  "set_floor c f = state_mod (\<lambda>s. s\<lparr>sw_floors := (sw_floors s)(c := f)\<rparr>)"

definition sweep_health :: "'j sync_env \<Rightarrow> ('j, 'e, unit) sw" where
  "sweep_health env =
     (case en_health env of
        None \<Rightarrow> returnE ()
      | Some (json, idt) \<Rightarrow>
          bindE (state_get sw_facts) (\<lambda>facts.
          bindE wall_now (\<lambda>now.
          ignoreE (on_world (write_health json (en_home env) idt facts now)))))"

text \<open>\<open>ActivityGuard\<close>: working while it lives.\<close>

definition drop_guard :: "bool \<Rightarrow> ('j, 'e, unit) sw" where
  "drop_guard guard = (if guard then state_mod (\<lambda>s. s\<lparr>sw_activity := ActivityIdle\<rparr>) else returnE ())"

definition cancelled_sweep :: "'j sync_env \<Rightarrow> bool \<Rightarrow> SyncSweepSummary \<Rightarrow> ('j, 'e, SyncSweepSummary) sw" where
  "cancelled_sweep env guard sm =
     bindE (drop_guard guard) (\<lambda>_.
     bindE (map_facts (\<lambda>f. f\<lparr>sf_sync_in_progress := False\<rparr>)) (\<lambda>_.
     bindE (sweep_health env) (\<lambda>_.
     returnE (sm\<lparr>ss_cancelled := True\<rparr>))))"

text \<open>\<open>failed_operation\<close> has a result in every state the scheduler reaches.\<close>

definition end_sweep :: "SyncSweepSummary \<Rightarrow> SyncOperationError \<Rightarrow> ('j, 'e, SyncSweepSummary) sw" where
  "end_sweep sm error =
     bindE instant_now (\<lambda>now.
     bindE (state_mod (\<lambda>s. case failed_operation now (sw_backoff s) of
         None \<Rightarrow> s | Some b \<Rightarrow> s\<lparr>sw_backoff := b\<rparr>)) (\<lambda>_.
     returnE
       (case error of
          RetainCandidate d _ \<Rightarrow> sm\<lparr>ss_diagnostic := Some d, ss_failure := Some FcContract\<rparr>
        | SegmentGone \<Rightarrow> sm\<lparr>ss_failure := Some FcContract\<rparr>
        | EndSweep f \<Rightarrow> sm\<lparr>ss_failure := Some f\<rparr>
        | EndSweepDiagnostic f d \<Rightarrow> sm\<lparr>ss_diagnostic := Some d, ss_failure := Some f\<rparr>)))"

definition inventory_for ::
  "'j sync_env \<Rightarrow> SegmentCandidate \<Rightarrow> path list \<Rightarrow> ('j, unit, LocalFile list) sw" where
  "inventory_for env c paths =
     (if list_ex (\<lambda>p. p = [] \<or> last p = ''..'' \<or> \<not> valid_utf8 (last p)) paths then throwE ()
      else
        bindE (on_world (file_identities (en_stamp env) paths)) (\<lambda>ids.
        bindE (state_get sw_inventories) (\<lambda>inventories.
        let names = map last paths;
            fresh =
              bindE (unitE (on_world (inventory_files (en_sha env) paths))) (\<lambda>inventory.
              bindE (state_mod (\<lambda>s. s\<lparr>sw_inventories := (sw_inventories s)(c \<mapsto>
                  \<lparr>ci_names = names, ci_identities = ids, ci_inventory = inventory\<rparr>)\<rparr>)) (\<lambda>_.
              returnE inventory))
        in case inventories c of
             Some cached \<Rightarrow>
               if ci_names cached = names \<and> ci_identities cached = ids then returnE (ci_inventory cached)
               else fresh
           | None \<Rightarrow> fresh)))"

subsection \<open>Finishing what the journal holds\<close>

definition finish_held :: "'j sync_env \<Rightarrow> SegmentCandidate \<Rightarrow> AcknowledgedFile list \<Rightarrow> ('j, 'e, unit) sw" where
  "finish_held env c files =
     bindE (state_get sw_inventories) (\<lambda>inventories.
     let ids = (case inventories c of None \<Rightarrow> [] | Some cached \<Rightarrow> ci_identities cached) in
     bindE begin_irreversible (\<lambda>permit.
     bindE (on_world (delete_confirmed_segment (en_api env) (en_stamp env) (en_sha env) (en_captures env)
         (en_ledger env) c (map (\<lambda>f. (ak_submitted f, ak_sha256 f)) files) ids (en_hook env) permit)) (\<lambda>removed.
     if removed then forget_inventory c else returnE ())))"

definition finish_local :: "'j sync_env \<Rightarrow> SegmentCandidate \<Rightarrow> ('j, 'e, unit) sw" where
  "finish_local env c =
     bindE (on_world (resolve_segment_files (en_api env) (en_captures env) c)) (\<lambda>resolved.
     case resolved of
       RsEmpty \<Rightarrow>
         bindE (forget_inventory c) (\<lambda>_.
         bindE begin_irreversible (\<lambda>permit.
         bindE (on_world (delete_empty_segment (en_api env) (en_captures env) (en_ledger env) c permit)) (\<lambda>_. returnE ())))
     | RsFound files \<Rightarrow>
         tryE (inventory_for env c files) (\<lambda>inventory.
           case inventory of
             Inl _ \<Rightarrow> returnE ()
           | Inr local_files \<Rightarrow>
               tryE (on_world (read_ack_record (en_codec env) (en_ledger env) c (en_identity env) local_files)) (\<lambda>ack.
                 case ack of
                   Inl _ \<Rightarrow> returnE ()
                 | Inr ack \<Rightarrow> finish_held env c (ar_files ack)))
     | _ \<Rightarrow> returnE ())"

fun finish_loop :: "'j sync_env \<Rightarrow> SegmentCandidate list \<Rightarrow> ('j, 'e, bool) sw" where
  "finish_loop env [] = returnE True"
| "finish_loop env (c # cs) =
     bindE shutdown_requested (\<lambda>stop.
     if stop then returnE False
     else bindE (finish_local env c) (\<lambda>_. finish_loop env cs))"

definition local_finish :: "'j sync_env \<Rightarrow> ('j, 'e, bool) sw" where
  "local_finish env =
     tryE (on_world (scan_candidates (en_api env) (en_captures env))) (\<lambda>scanned.
       case scanned of
         Inl _ \<Rightarrow> returnE True
       | Inr candidates \<Rightarrow>
           bindE (retain_inventories candidates) (\<lambda>_.
           bindE (on_world (cleanup_hold_files (en_ledger env))) (\<lambda>_.
           bindE (on_world (prune_ledger_dirs (en_ledger env) candidates)) (\<lambda>_.
           finish_loop env candidates))))"

subsection \<open>What is due\<close>

record due =
  du_candidate :: SegmentCandidate
  du_files :: "path list"
  du_local :: "LocalFile list"
  du_state :: StateRecord
  du_meta :: "CaptureTime option"

text \<open>A candidate has nothing to upload, cannot be read, waits for its next attempt, or is due.\<close>

datatype verdict = VNothing | VUnusable | VWaiting | VDue due

definition judge_unsent :: "'j sync_env \<Rightarrow> int \<Rightarrow> SegmentCandidate \<Rightarrow> path list \<Rightarrow> LocalFile list \<Rightarrow> ('j, 'e, verdict) sw" where
  "judge_unsent env now c files local_files =
     tryE (on_world (load_capture_time (en_untime env) (zone_path (en_captures env) c))) (\<lambda>loaded.
     bindE (on_world (read_state_record (en_codec env) (en_ledger env) c)) (\<lambda>stored.
     bindE (state_get sw_floors) (\<lambda>floors.
     let meta = (case loaded of Inr (CtPresent ct) \<Rightarrow> Some ct | _ \<Rightarrow> None);
         state = own_state (en_identity env) stored
     in returnE (if next_attempt now state (floors c) > now then VWaiting
          else VDue \<lparr>du_candidate = c, du_files = files, du_local = local_files,
            du_state = state, du_meta = meta\<rparr>))))"

definition consider_candidate :: "'j sync_env \<Rightarrow> int \<Rightarrow> SegmentCandidate \<Rightarrow> ('j, 'e, verdict) sw" where
  "consider_candidate env now c =
     bindE (on_world (resolve_segment_files (en_api env) (en_captures env) c)) (\<lambda>resolved.
     case resolved of
       RsEmpty \<Rightarrow> bindE (forget_inventory c) (\<lambda>_. returnE VNothing)
     | RsMissing \<Rightarrow> bindE (forget_inventory c) (\<lambda>_. returnE VNothing)
     | RsInvalid \<Rightarrow> returnE VUnusable
     | RsFound files \<Rightarrow>
         tryE (inventory_for env c files) (\<lambda>inventory.
           case inventory of
             Inl _ \<Rightarrow> returnE VUnusable
           | Inr local_files \<Rightarrow>
               tryE (on_world (read_ack_record (en_codec env) (en_ledger env) c (en_identity env) local_files)) (\<lambda>ack.
                 case ack of
                   Inr _ \<Rightarrow> returnE VNothing
                 | Inl _ \<Rightarrow> judge_unsent env now c files local_files)))"

definition leave_cancelled ::
  "'j sync_env \<Rightarrow> bool \<Rightarrow> SyncSweepSummary \<Rightarrow> ('j, SyncSweepSummary, 'a) sw" where
  "leave_cancelled env guard sm = bindE (cancelled_sweep env guard sm) throwE"

fun collect_due ::
  "'j sync_env \<Rightarrow> int \<Rightarrow> SegmentCandidate list \<Rightarrow> SyncSweepSummary \<Rightarrow> nat
   \<Rightarrow> ('j, SyncSweepSummary, SyncSweepSummary \<times> nat \<times> due list) sw" where
  "collect_due env now [] sm n = returnE (sm, n, [])"
| "collect_due env now (c # cs) sm n =
     bindE shutdown_requested (\<lambda>stop.
     if stop then leave_cancelled env False sm
     else
       bindE (consider_candidate env now c) (\<lambda>v.
       case v of
         VNothing \<Rightarrow> collect_due env now cs sm n
       | VUnusable \<Rightarrow> collect_due env now cs (sm\<lparr>ss_diagnostic := Some LocalSegmentInvalid\<rparr>) (Suc n)
       | VWaiting \<Rightarrow> collect_due env now cs sm (Suc n)
       | VDue d \<Rightarrow>
           bindE (collect_due env now cs sm (Suc n)) (\<lambda>(sm, n, ds). returnE (sm, n, d # ds))))"

subsection \<open>Uploading\<close>

definition CANDIDATES_PER_BATCH :: nat where "CANDIDATES_PER_BATCH = 8"

text \<open>\<open>slice::chunks\<close>\<close>

function batches :: "'a list \<Rightarrow> 'a list list" where
  "batches [] = []"
| "batches (x # xs) = take CANDIDATES_PER_BATCH (x # xs) # batches (drop CANDIDATES_PER_BATCH (x # xs))"
  by pat_completeness auto
termination by (relation "measure length") (auto simp: CANDIDATES_PER_BATCH_def)

record progress =
  pg_summary :: SyncSweepSummary
  pg_ack_errors :: nat
  pg_requests :: bool
  pg_guard :: bool

definition map_summary :: "(SyncSweepSummary \<Rightarrow> SyncSweepSummary) \<Rightarrow> progress \<Rightarrow> progress" where
  "map_summary f pg = pg\<lparr>pg_summary := f (pg_summary pg)\<rparr>"

text \<open>The journal answered.\<close>

definition contacted :: "progress \<Rightarrow> ('j, 'e, progress) sw" where
  "contacted pg =
     bindE (state_mod (\<lambda>s. s\<lparr>sw_backoff := successful_operation (sw_backoff s)\<rparr>)) (\<lambda>_.
     returnE (map_summary (\<lambda>sm. sm\<lparr>ss_contacted := True\<rparr>) pg))"

text \<open>Keeping a candidate for later; in memory if it cannot be written.\<close>

definition park :: "'j sync_env \<Rightarrow> int \<Rightarrow> SegmentCandidate \<Rightarrow> StateRecord \<Rightarrow> ('j, 'e, unit) sw" where
  "park env now c state =
     tryE (on_world (write_state_record (en_codec env) (en_ledger env) c state)) (\<lambda>r.
       case r of
         Inr _ \<Rightarrow> returnE ()
       | Inl _ \<Rightarrow> set_floor c (Some (case sr_next_attempt_unix state of None \<Rightarrow> now + 3600 | Some d \<Rightarrow> d)))"

text \<open>Recording what the journal holds and removing it; \<open>receipt\<close>: the journal itself said so.\<close>

definition acknowledge ::
  "'j sync_env \<Rightarrow> SegmentCandidate \<Rightarrow> AcknowledgedFile list \<Rightarrow> string \<Rightarrow> bool \<Rightarrow> progress \<Rightarrow> ('j, 'e, progress) sw" where
  "acknowledge env c files stored_key receipt pg =
     tryE (on_world (write_ack_record (en_codec env) (en_ledger env) c (en_identity env) stored_key files)) (\<lambda>r.
       case r of
         Inl _ \<Rightarrow>
           let n = pg_ack_errors pg + 1 in
           returnE (map_summary (\<lambda>sm. if n \<ge> 3 then sm\<lparr>ss_diagnostic := Some PrivateStateIo\<rparr> else sm)
             (pg\<lparr>pg_ack_errors := n\<rparr>))
       | Inr _ \<Rightarrow>
           bindE (ignoreE (on_world (write_state_record (en_codec env) (en_ledger env) c default_state))) (\<lambda>_.
           bindE (set_floor c None) (\<lambda>_.
           bindE (if receipt then bindE wall_now (\<lambda>now. map_facts (successful_contact now)) else returnE ()) (\<lambda>_.
           bindE (map_facts (\<lambda>f. f\<lparr>sf_pending_segments := sf_pending_segments f - 1\<rparr>)) (\<lambda>_.
           bindE (finish_held env c files) (\<lambda>_.
           returnE (map_summary (\<lambda>sm. if receipt then sm\<lparr>ss_custodied := ss_custodied sm + 1\<rparr> else sm)
             (pg\<lparr>pg_ack_errors := 0\<rparr>))))))))"

definition held_as_written :: "LocalFile list \<Rightarrow> AcknowledgedFile list" where
  "held_as_written files =
     map (\<lambda>f. \<lparr>ak_submitted = lf_name f, ak_written = lf_name f, ak_size = lf_size f, ak_sha256 = lf_sha256 f,
       ak_disposition = ''written''\<rparr>) files"

definition settle_receipt ::
  "'j sync_env \<Rightarrow> int \<Rightarrow> due \<Rightarrow> UploadResult \<Rightarrow> progress \<Rightarrow> ('j, 'e, progress) sw" where
  "settle_receipt env now d upload pg =
     (case assess_receipt upload (du_local d) of
        Valid files \<Rightarrow>
          acknowledge env (du_candidate d) files
            (case ur_authoritative_key upload of None \<Rightarrow> sc_segment (du_candidate d) | Some k \<Rightarrow> k) True pg
      | Invalid fault \<Rightarrow>
          let answer = ''invalid:'' @ fault_name fault in
          bindE (park env now (du_candidate d)
            (if fault = ReceivedNotWritten then note_not_written answer now (du_state d)
             else note_answer answer now (du_state d))) (\<lambda>_.
          returnE pg)
      | Absent \<Rightarrow>
          bindE (park env now (du_candidate d) (note_answer ''absent:descriptors_absent'' now (du_state d))) (\<lambda>_.
          returnE pg))"

definition settle_answer ::
  "'j sync_env \<Rightarrow> int \<Rightarrow> due \<Rightarrow> SyncOperationError + UploadResult \<Rightarrow> progress
   \<Rightarrow> ('j, SyncSweepSummary, progress) sw" where
  "settle_answer env now d answer pg =
     (case answer of
        Inr upload \<Rightarrow> bindE (contacted pg) (\<lambda>pg. settle_receipt env now d upload pg)
      | Inl (RetainCandidate diagnostic a) \<Rightarrow>
          bindE (contacted pg) (\<lambda>pg.
          bindE (park env now (du_candidate d) (note_answer a now (du_state d))) (\<lambda>_.
          returnE (map_summary (\<lambda>sm. sm\<lparr>ss_diagnostic := Some diagnostic\<rparr>) pg)))
      | Inl SegmentGone \<Rightarrow>
          bindE (contacted pg) (\<lambda>pg.
          acknowledge env (du_candidate d) (held_as_written (du_local d)) (sc_segment (du_candidate d)) False pg)
      | Inl e \<Rightarrow>
          bindE (drop_guard (pg_guard pg)) (\<lambda>_.
          bindE (end_sweep (pg_summary pg) e) throwE))"

definition upload_one :: "'j sync_env \<Rightarrow> int \<Rightarrow> due \<Rightarrow> progress \<Rightarrow> ('j, SyncSweepSummary, progress) sw" where
  "upload_one env now d pg =
     bindE shutdown_requested (\<lambda>stop.
     if stop then leave_cancelled env (pg_guard pg) (pg_summary pg)
     else
       let pg' = map_summary (\<lambda>sm. sm\<lparr>ss_attempted := ss_attempted sm + 1\<rparr>) (pg\<lparr>pg_guard := True, pg_requests := True\<rparr>) in
       bindE (if pg_guard pg then returnE () else state_mod (\<lambda>s. s\<lparr>sw_activity := ActivityWorking\<rparr>)) (\<lambda>_.
       bindE (cancellable (on_journal
           (en_upload env (du_candidate d) (du_files d) (en_source env) (du_meta d)))) (\<lambda>answer.
       case answer of
         None \<Rightarrow> leave_cancelled env True (pg_summary pg')
       | Some a \<Rightarrow> settle_answer env now d a pg')))"

fun upload_batch :: "'j sync_env \<Rightarrow> int \<Rightarrow> due list \<Rightarrow> progress \<Rightarrow> ('j, SyncSweepSummary, progress) sw" where
  "upload_batch env now [] pg = returnE pg"
| "upload_batch env now (d # ds) pg = bindE (upload_one env now d pg) (\<lambda>pg. upload_batch env now ds pg)"

text \<open>Health is written after each batch, and the others may run between two.\<close>

fun upload_batches :: "'j sync_env \<Rightarrow> int \<Rightarrow> due list list \<Rightarrow> progress \<Rightarrow> ('j, SyncSweepSummary, progress) sw" where
  "upload_batches env now [] pg = returnE pg"
| "upload_batches env now (b # bs) pg =
     bindE (upload_batch env now b pg) (\<lambda>pg.
     bindE (sweep_health env) (\<lambda>_.
     if bs = [] then returnE pg
     else
       bindE shutdown_requested (\<lambda>stop.
       if stop then leave_cancelled env (pg_guard pg) (pg_summary pg)
       else upload_batches env now bs pg)))"

definition upload_all :: "'j sync_env \<Rightarrow> int \<Rightarrow> due list \<Rightarrow> progress \<Rightarrow> ('j, SyncSweepSummary, progress) sw" where
  "upload_all env now ds pg =
     (if ds = [] then returnE pg
      else
        bindE (map_facts (\<lambda>f. f\<lparr>sf_sync_in_progress := True\<rparr>)) (\<lambda>_.
        bindE (sweep_health env) (\<lambda>_.
        upload_batches env now (batches ds) pg)))"

text \<open>A sweep that asked the journal for nothing asks whether it is there.\<close>

definition ask_status :: "'j sync_env \<Rightarrow> progress \<Rightarrow> ('j, SyncSweepSummary, progress) sw" where
  "ask_status env pg =
     (if pg_requests pg then returnE pg
      else
        bindE (cancellable (on_journal (en_status env))) (\<lambda>answer.
        case answer of
          None \<Rightarrow> leave_cancelled env (pg_guard pg) (pg_summary pg)
        | Some (Inr _) \<Rightarrow> contacted pg
        | Some (Inl e) \<Rightarrow>
            bindE (drop_guard (pg_guard pg)) (\<lambda>_.
            bindE (end_sweep (pg_summary pg) e) throwE)))"

definition sweep_candidates :: "'j sync_env \<Rightarrow> ('j, SyncSweepSummary, int \<times> SegmentCandidate list) sw" where
  "sweep_candidates env =
     bindE (local_finish env) (\<lambda>finished.
     if \<not> finished then leave_cancelled env False empty_summary
     else
       bindE wall_now (\<lambda>now.
       tryE (on_world (scan_candidates (en_api env) (en_captures env))) (\<lambda>scanned.
         case scanned of
           Inl _ \<Rightarrow>
             bindE (map_facts (\<lambda>f. f\<lparr>sf_pending_segments := 0\<rparr>)) (\<lambda>_.
             bindE (end_sweep empty_summary (EndSweepDiagnostic FcContract LocalSegmentInvalid)) throwE)
         | Inr candidates \<Rightarrow> bindE (retain_inventories candidates) (\<lambda>_. returnE (now, candidates)))))"

definition run_sweep :: "'j sync_env \<Rightarrow> ('j, 'e, SyncSweepSummary) sw" where
  "run_sweep env =
     early_return (
       bindE (sweep_candidates env) (\<lambda>(now, candidates).
       bindE (collect_due env now candidates empty_summary 0) (\<lambda>(sm, waiting, ds).
       bindE (map_facts (\<lambda>f. f\<lparr>sf_pending_segments := min waiting u64_max\<rparr>)) (\<lambda>_.
       bindE (upload_all env now ds \<lparr>pg_summary = sm, pg_ack_errors = 0, pg_requests = False, pg_guard = False\<rparr>) (\<lambda>pg.
       bindE (ask_status env pg) (\<lambda>pg.
       bindE (drop_guard (pg_guard pg)) (\<lambda>_.
       returnE (pg_summary pg))))))))"

definition update_facts :: "SyncSweepSummary \<Rightarrow> ('j, 'e, unit) sw" where
  "update_facts sm =
     bindE wall_now (\<lambda>now.
     map_facts (\<lambda>f.
       let f = (if ss_custodied sm > 0 then successful_sync now f
                else if ss_contacted sm then successful_contact now f else f);
           f = (case ss_diagnostic sm of
                  Some code \<Rightarrow> sync_failed code f
                | None \<Rightarrow> (case ss_failure sm of Some failure \<Rightarrow> sync_failed (diagnostic_for_failure failure) f | None \<Rightarrow> f))
       in f\<lparr>sf_sync_in_progress := False\<rparr>))"

subsection \<open>The scheduler\<close>

text \<open>\<open>SyncScheduler::new\<close>, for a journal and the schedules of the others.\<close>

definition new_scheduler :: "int \<Rightarrow> 'j \<Rightarrow> stop list \<Rightarrow> int list \<Rightarrow> nat list \<Rightarrow> bool list \<Rightarrow> 'j sweep" where
  "new_scheduler now journal stops clock instants permits =
     \<lparr>sw_floors = (\<lambda>_. None), sw_inventories = (\<lambda>_. None), sw_backoff = new_backoff,
      sw_facts = default_facts\<lparr>sf_paired := True, sf_episode := Some now\<rparr>, sw_activity = ActivityIdle,
      sw_journal = journal, sw_stops = stops, sw_clock = clock, sw_mono = instants, sw_permits = permits\<rparr>"

definition begin_episode :: "('j, 'e, unit) sw" where
  "begin_episode = bindE wall_now (\<lambda>now. map_facts (\<lambda>f. f\<lparr>sf_episode := Some now\<rparr>))"

definition sweep_deadline :: "('j, 'e, unit) sw" where
  "sweep_deadline = state_mod (\<lambda>s. s\<lparr>sw_backoff := deadline_reached (sw_backoff s)\<rparr>)"

text \<open>What a \<open>select!\<close> of the loop sees first; without a deadline there is no deadline to see.\<close>

datatype loop_event = EvShutdown | EvWake | EvTick | EvDeadline | EvSlept

definition wait_backoff :: "'j sync_env \<Rightarrow> loop_event \<Rightarrow> ('j, 'e, bool option) sw" where
  "wait_backoff env ev =
     (case ev of
        EvShutdown \<Rightarrow> returnE None
      | EvWake \<Rightarrow> returnE (Some True)
      | EvTick \<Rightarrow> bindE (sweep_health env) (\<lambda>_. returnE (Some True))
      | EvDeadline \<Rightarrow> bindE sweep_deadline (\<lambda>_. returnE (Some True))
      | EvSlept \<Rightarrow> bindE begin_episode (\<lambda>_. bindE sweep_deadline (\<lambda>_. returnE (Some True))))"

definition wait_idle :: "loop_event \<Rightarrow> ('j, 'e, bool option) sw" where
  "wait_idle ev =
     (case ev of
        EvShutdown \<Rightarrow> returnE None
      | EvWake \<Rightarrow> returnE (Some True)
      | EvTick \<Rightarrow> returnE (Some True)
      | EvDeadline \<Rightarrow> returnE (Some False)
      | EvSlept \<Rightarrow> bindE begin_episode (\<lambda>_. returnE (Some True)))"

text \<open>\<open>pending\<close>: a segment was closed during the sweep.\<close>

definition loop_sweep :: "'j sync_env \<Rightarrow> bool \<Rightarrow> ('j, 'e, bool option) sw" where
  "loop_sweep env pending =
     bindE (run_sweep env) (\<lambda>sm.
     if ss_cancelled sm then returnE None
     else
       bindE (update_facts sm) (\<lambda>_.
       bindE (sweep_health env) (\<lambda>_.
       returnE (Some (ss_failure sm \<noteq> None \<or> pending)))))"

text \<open>One turn of the loop: \<open>None\<close> when it returns, otherwise whether a sweep is requested.\<close>

definition loop_turn :: "'j sync_env \<Rightarrow> bool \<Rightarrow> loop_event \<times> bool \<Rightarrow> ('j, 'e, bool option) sw" where
  "loop_turn env requested turn =
     (case turn of (ev, pending) \<Rightarrow>
       if requested then
         bindE (state_get (\<lambda>s. bo_deadline (sw_backoff s))) (\<lambda>deadline.
         case deadline of
           None \<Rightarrow> loop_sweep env pending
         | Some deadline \<Rightarrow>
             bindE (local_finish env) (\<lambda>finished.
             if \<not> finished then returnE None
             else
               bindE instant_now (\<lambda>now.
               if now \<ge> deadline then bindE sweep_deadline (\<lambda>_. loop_sweep env pending)
               else wait_backoff env ev)))
       else wait_idle ev)"

fun run_with_shutdown :: "'j sync_env \<Rightarrow> bool \<Rightarrow> (loop_event \<times> bool) list \<Rightarrow> ('j, 'e, bool option) sw" where
  "run_with_shutdown env requested [] = returnE (Some requested)"
| "run_with_shutdown env requested (turn # turns) =
     bindE (loop_turn env requested turn) (\<lambda>r.
     case r of None \<Rightarrow> returnE None | Some requested \<Rightarrow> run_with_shutdown env requested turns)"

end
