(* ===== verification/Custody.thy ===== *)
theory Custody
  imports Sweep
begin

text \<open>
  No sweep loses a capture (\<open>src/sync.rs\<close>, \<open>SyncScheduler::run_sweep\<close> with the ledger, the
  deletion and the journal session below it). The interface \<open>SyncJournal\<close> is the locale
  \<open>sync_journal\<close>; it is interpreted on \<open>JournalSession\<close>, whose \<open>upload\<close> is \<open>ingest_upload\<close>
  of the journal client.
\<close>

subsection \<open>Paths\<close>

lemma root_paths:
  "en_captures env = en_home env @ [''captures'']" "en_ledger env = en_home env @ [''sync-ledger'']"
  by (simp_all add: en_captures_def en_ledger_def path_join_plain_name plain_ascii)

lemma segment_name_ascii:
  "valid_segment_name g \<Longrightarrow> list_all (\<lambda>c. byte c < 128 \<and> c \<noteq> CHR ''/'') g \<and> length g > 6"
proof -
  assume g: "valid_segment_name g"
  then obtain t d where s: "split_once (CHR ''_'') g = Some (t, d)" and t: "list_all is_digit t" "list_all is_digit d"
    and l: "length t = 6"
    by (auto simp: valid_segment_name_def split: option.splits)
  have g: "g = t @ CHR ''_'' # d" using split_once_digits [OF s] .
  show ?thesis using t l unfolding g by (auto simp: list_all_iff is_digit_def)
qed

lemma day_plain: "parse_day api d \<noteq> None \<Longrightarrow> plain_name d"
proof -
  assume "parse_day api d \<noteq> None"
  then have d: "length d = 8" "list_all is_digit d" by (auto simp: parse_day_def split: if_splits)
  show ?thesis
    by (rule plain_ascii) (use d in \<open>auto simp: list_all_iff is_digit_def\<close>)
qed

text \<open>A candidate as a scan returns it.\<close>

definition scanned :: "SegmentCandidate \<Rightarrow> bool" where
  "scanned c \<longleftrightarrow> plain_candidate c \<and> valid_segment_name (sc_segment c)"

lemma segment_name_plain: "valid_segment_name g \<Longrightarrow> plain_name g"
  using segment_name_ascii [of g] by (intro plain_ascii) auto

lemma segment_scanned: "a_segment api w root c \<Longrightarrow> scanned c"
  using day_plain [of api "sc_day c"] exact_plain [of "sc_stream c"] segment_name_plain [of "sc_segment c"]
  by (auto simp: a_segment_def segment_in_def plain_candidate_def scanned_def simp del: not_None_eq)

lemma zone_path_plain:
  assumes "scanned c"
  shows "\<exists>n. zone_path root c = root @ [sc_day c, sc_stream c, n]"
proof -
  have "plain_name (sc_segment c @ ''.zone.json'')"
    using assms segment_name_ascii by (intro plain_ascii) (auto simp: scanned_def)
  with assms show ?thesis
    by (simp add: zone_path_def scanned_def plain_candidate_def path_join_plain_name capture_time_path_def)
qed

subsection \<open>Custody\<close>

definition ledger_says :: "'j sync_env \<Rightarrow> world \<Rightarrow> SegmentCandidate \<Rightarrow> string \<Rightarrow> bool" where
  "ledger_says env w c d \<longleftrightarrow>
     (\<exists>b a f. view w (ack_path (en_ledger env) c) = Some b \<and> lc_unack (en_codec env) b = Some a
        \<and> ack_fits a c (en_identity env) \<and> f \<in> set (ar_files a) \<and> ak_sha256 f = d)"

text \<open>
  Since \<open>w0\<close>: the bytes of every capture are in their segment's directory, or the journal holds
  them (\<open>H\<close>); and the receipts of the ledger say nothing the journal does not.
\<close>

definition custody :: "'j sync_env \<Rightarrow> (SegmentCandidate \<Rightarrow> string \<Rightarrow> bool) \<Rightarrow> world \<Rightarrow> world \<Rightarrow> bool" where
  "custody env H w0 w \<longleftrightarrow>
     world_ok w
     \<and> (\<forall>c n b. view w0 (segment_dir_of (en_captures env) c @ [n]) = Some b
          \<longrightarrow> (\<exists>m. view w (segment_dir_of (en_captures env) c @ [m]) = Some b) \<or> H c (en_sha env b))
     \<and> (\<forall>c d. plain_candidate c \<longrightarrow> ledger_says env w c d \<longrightarrow> H c d)"

lemma custodyD:
  assumes "custody env H w0 w"
  shows "world_ok w"
    "view w0 (segment_dir_of (en_captures env) c @ [n]) = Some b
       \<Longrightarrow> (\<exists>m. view w (segment_dir_of (en_captures env) c @ [m]) = Some b) \<or> H c (en_sha env b)"
    "plain_candidate c \<Longrightarrow> ledger_says env w c d \<Longrightarrow> H c d"
  using assms unfolding custody_def by blast+

text \<open>The files of segments.\<close>

definition capture_files :: "'j sync_env \<Rightarrow> path set" where
  "capture_files env = {p. \<exists>c n. p = segment_dir_of (en_captures env) c @ [n]}"

lemma capture_file [simp]: "segment_dir_of (en_captures env) c @ [n] \<in> capture_files env"
  by (auto simp: capture_files_def)

lemma capture_files_length: "p \<in> capture_files env \<Longrightarrow> length p = length (en_home env) + 5"
  by (auto simp: capture_files_def segment_dir_of_def root_paths)

lemma roots_apart [simp]: "en_ledger env @ xs \<noteq> en_captures env @ ys" "en_captures env @ ys \<noteq> en_ledger env @ xs"
  by (simp_all add: root_paths)

lemma ack_file:
  "plain_candidate c \<Longrightarrow> ack_path (en_ledger env) c = en_ledger env @ [sc_day c, sc_stream c, sc_segment c, ''ack.json'']"
  by (simp add: record_paths ledger_dir_plain)

lemma state_file:
  "plain_candidate c \<Longrightarrow> state_path (en_ledger env) c = en_ledger env @ [sc_day c, sc_stream c, sc_segment c, ''state.json'']"
  by (simp add: record_paths ledger_dir_plain)

lemma ledger_not_capture [simp]: "en_ledger env @ p \<notin> capture_files env"
  by (auto simp: capture_files_def segment_dir_of_def)

text \<open>One step keeps custody if it loses no capture file and adds no unfounded receipt.\<close>

lemma custody_step:
  assumes k: "custody env H w0 w" and ok: "world_ok u"
    and files: "\<And>c n b. view w (segment_dir_of (en_captures env) c @ [n]) = Some b
      \<Longrightarrow> (\<exists>m. view u (segment_dir_of (en_captures env) c @ [m]) = Some b) \<or> H c (en_sha env b)"
    and acks: "\<And>c d. plain_candidate c \<Longrightarrow> ledger_says env u c d \<Longrightarrow> ledger_says env w c d \<or> H c d"
  shows "custody env H w0 u"
  unfolding custody_def
proof (intro conjI allI impI)
  fix c n b assume "view w0 (segment_dir_of (en_captures env) c @ [n]) = Some b"
  from custodyD(2) [OF k this] files
  show "(\<exists>m. view u (segment_dir_of (en_captures env) c @ [m]) = Some b) \<or> H c (en_sha env b)" by blast
next
  fix c d assume "plain_candidate c" "ledger_says env u c d"
  with acks custodyD(3) [OF k] show "H c d" by blast
qed (rule ok)

lemma custody_same:
  assumes "custody env H w0 w" "world_ok u" "\<And>p. p \<in> capture_files env \<Longrightarrow> view u p = view w p"
    "\<And>c. plain_candidate c \<Longrightarrow> view u (ack_path (en_ledger env) c) \<in> {None, view w (ack_path (en_ledger env) c)}"
  shows "custody env H w0 u"
proof (rule custody_step [OF assms(1,2)])
  fix c d assume "plain_candidate c" "ledger_says env u c d"
  then show "ledger_says env w c d \<or> H c d" using assms(4) [of c] by (auto simp: ledger_says_def)
qed (use assms(3) in auto)

text \<open>Files that may be written freely.\<close>

definition harmless :: "'j sync_env \<Rightarrow> path set \<Rightarrow> bool" where
  "harmless env S \<longleftrightarrow> S \<inter> capture_files env = {}
     \<and> (\<forall>c. plain_candidate c \<longrightarrow> ack_path (en_ledger env) c \<notin> S)"

lemma custody_confined: "confinedE S m \<Longrightarrow> harmless env S \<Longrightarrow> keepsE (custody env H w0) m"
  by (rule keeps_confined) (auto simp: confined_def harmless_def disjoint_iff custodyD(1) intro: custody_same)

lemma custody_housekeeping: "housekeeping (custody env H w0) (- capture_files env)"
proof
  show "custody env H w0 u" if "only_ticks w u" "custody env H w0 w" for w u
    by (rule custody_same [OF that(2)]) (use that only_ticks_obs [OF that(1)] custodyD(1) in auto)
  show "keepsE (custody env H w0) (fs_remove_dir p :: (io_error, unit) io)" for p
    by (rule custody_confined [OF confined_remove_dir [of "{}"]]) (simp add: harmless_def)
  show "keepsE (custody env H w0) (fs_remove_file p :: (io_error, unit) io)" if p: "p \<in> - capture_files env" for p
  proof (rule keepsE_I, rule wp_remove_file)
    fix w assume k: "custody env H w0 w"
    have t: "custody env H w0 (tick w)"
      by (rule custody_same [OF k]) (use k custodyD(1) in \<open>auto simp: world_simps\<close>)
    then show "custody env H w0 (tick w)" for e :: io_error .
    show "custody env H w0 (del_node p (tick w))"
      by (rule custody_same [OF t world_ok_del_node [OF custodyD(1) [OF t]]]) (use p in \<open>auto simp: view_del_node\<close>)
  qed
qed

interpretation custody_keeping: housekeeping "custody env H w0" "- capture_files env" for env H w0
  by (rule custody_housekeeping)

subsection \<open>The steps of a sweep keep custody\<close>

lemma temp_not_ack: "plain_candidate c \<Longrightarrow> q \<in> temporaries d \<Longrightarrow> ack_path (en_ledger env) c \<noteq> q"
proof
  assume c: "plain_candidate c" and q: "q \<in> temporaries d" and e: "ack_path (en_ledger env) c = q"
  have "last q = ''ack.json''" using c by (simp add: e [symmetric] ack_file)
  with q show False by (auto simp: temporaries_def)
qed

lemma harmless_temporaries: "harmless env (temporaries (en_ledger env @ r))"
proof -
  have "temporaries (en_ledger env @ r) \<inter> capture_files env = {}" by (auto simp: temporaries_def)
  with temp_not_ack show ?thesis unfolding harmless_def by blast
qed

lemma harmless_insert: "harmless env (insert p S) \<longleftrightarrow>
    harmless env S \<and> p \<notin> capture_files env \<and> (\<forall>c. plain_candidate c \<longrightarrow> ack_path (en_ledger env) c \<noteq> p)"
  by (auto simp: harmless_def)

lemma harmless_state:
  assumes "plain_candidate c"
  shows "harmless env (write_scope (candidate_ledger_dir (en_ledger env) c) (state_path (en_ledger env) c))"
  unfolding write_scope_def harmless_insert state_file [OF assms] ledger_dir_plain [OF assms]
  using harmless_temporaries by (auto simp: ack_file)

lemma custody_state:
  assumes "plain_candidate c"
  shows "keepsE (custody env H w0) (write_state_record codec (en_ledger env) c r)"
    "keepsE (custody env H w0) (read_state_record codec (en_ledger env) c)"
  by (rule custody_confined [OF confined_write_state harmless_state], rule assms, rule assms)
    (rule custody_confined [OF confined_read_state harmless_state], rule assms, rule assms)

lemma custody_health: "keepsE (custody env H w0) (write_health json (en_home env) idt f now)"
proof -
  have "harmless env (write_scope (en_home env) (en_home env @ [HEALTH_FILENAME]))"
  proof -
    have "length p = length (en_home env) + 1" if "p \<in> write_scope (en_home env) (en_home env @ [HEALTH_FILENAME])" for p
      using that by (auto simp: write_scope_def temporaries_def)
    moreover have "length (ack_path (en_ledger env) c) = length (en_home env) + 5" if "plain_candidate c" for c
      using that unfolding ack_file [OF that] by (simp add: root_paths)
    ultimately show ?thesis using capture_files_length [of _ env] unfolding harmless_def by fastforce
  qed
  from custody_confined [OF confined_atomic_write [OF health_filename_plain subset_refl] this]
  show ?thesis
    unfolding write_health_def health_path by (auto intro!: keeps_intros split: option.split)
qed

lemma custody_removed:
  assumes k: "custody env H w0 w"
    and n: "not_lost (en_sha env) digests (segment_dir_of (en_captures env) c) w u"
    and d: "\<And>n d. digests n = Some d \<Longrightarrow> H c d"
  shows "custody env H w0 u"
proof (rule custody_step [OF k])
  show "world_ok u" using n by (simp add: not_lost_def)
  have out: "view u p = view w p" if "p \<notin> children (segment_dir_of (en_captures env) c)" for p
    using n that by (simp add: not_lost_def)
  fix c' n' b assume v: "view w (segment_dir_of (en_captures env) c' @ [n']) = Some b"
  show "(\<exists>m. view u (segment_dir_of (en_captures env) c' @ [m]) = Some b) \<or> H c' (en_sha env b)"
  proof (cases "c' = c")
    case True
    then show ?thesis using n d v unfolding not_lost_def by blast
  next
    case False
    then have "segment_dir_of (en_captures env) c' @ [n'] \<notin> children (segment_dir_of (en_captures env) c)"
      by (auto simp: children_def segment_dir_of_def)
    with out v show ?thesis by metis
  qed
next
  have out: "view u p = view w p" if "p \<notin> children (segment_dir_of (en_captures env) c)" for p
    using n that by (simp add: not_lost_def)
  fix c' d' assume "plain_candidate c'" "ledger_says env u c' d'"
  moreover have "ack_path (en_ledger env) c' \<notin> children (segment_dir_of (en_captures env) c)" if "plain_candidate c'"
    using that by (auto simp: ack_file children_def segment_dir_of_def)
  ultimately show "ledger_says env w c' d' \<or> H c' d'" using out by (auto simp: ledger_says_def)
qed

lemma custody_revalidated:
  assumes "en_hook env = None" "\<And>n d. digests n = Some d \<Longrightarrow> H c d"
  shows "keepsE (custody env H w0)
    (delete_revalidated_segment api stamp (en_sha env) (en_captures env) c paths ids digests (en_hook env))"
  unfolding assms(1)
  by (intro keepsE_I wpE_mono [OF delete_revalidated_spec [OF custodyD(1) steady_none]])
    (assumption, (erule custody_removed, assumption, erule assms(2))+)

lemma custody_finish:
  assumes "scanned c"
  shows "keepsE (custody env H w0) (finish_removal (en_captures env) (en_ledger env) c r)"
proof -
  have p: "plain_candidate c" using assms by (simp add: scanned_def)
  have "zone_path (en_captures env) c \<notin> capture_files env"
    using zone_path_plain [OF assms, of "en_captures env"] capture_files_length [of _ env]
    by (force simp: root_paths)
  moreover have "ack_path (en_ledger env) c \<notin> capture_files env" "state_path (en_ledger env) c \<notin> capture_files env"
    using p by (simp_all add: ack_file state_file)
  ultimately show ?thesis
    unfolding finish_removal_def
    by (intro keeps_intros custody_keeping.ledger_dir custody_keeping.zone) simp_all
qed

lemma custody_looks: "quietE m \<Longrightarrow> keepsE (custody env H w0) m"
  by (rule custody_keeping.quiet)

lemma custody_delete:
  assumes "en_hook env = None" "scanned c" "\<And>n d. (n, d) \<in> set digests \<Longrightarrow> H c d"
  shows "keepsE (custody env H w0)
    (delete_confirmed_segment api stamp (en_sha env) (en_captures env) (en_ledger env) c digests ids (en_hook env) permit)"
proof -
  have held: "H c d" if "map_of (rev digests) n = Some d" for n d
    using map_of_SomeD [OF that] assms(3) by simp
  note revalidated = custody_revalidated [where H = H and digests = "map_of (rev digests)", OF assms(1) held]
  show ?thesis
    unfolding delete_confirmed_segment_def
    by (rule keeps_bind [OF custody_looks [OF quiet_resolve]])
      (auto split: ResolvedSegmentFiles.split intro!: keeps_intros revalidated custody_finish assms(2))
qed

lemma custody_ack:
  assumes c: "plain_candidate c" and codec: "\<And>r b. lc_ack (en_codec env) r = Some b \<Longrightarrow> lc_unack (en_codec env) b = Some r"
    and files: "\<And>f. f \<in> set files \<Longrightarrow> H c (ak_sha256 f)"
  shows "keepsE (custody env H w0) (write_ack_record (en_codec env) (en_ledger env) c (en_identity env) key files)"
proof (rule keepsE_I)
  fix w assume k: "custody env H w0 w"
  let ?a = "ack_path (en_ledger env) c" and ?S = "write_scope (candidate_ledger_dir (en_ledger env) c) (ack_path (en_ledger env) c)"
  let ?m = "write_ack_record (en_codec env) (en_ledger env) c (en_identity env) key files"
  have kept: "custody env H w0 u"
    if s: "confined ?S w u"
      and v: "view u ?a = view w ?a \<or> (\<exists>l b. lc_ack (en_codec env) (ack_record l c (en_identity env) key files) = Some b \<and> view u ?a = Some b)"
    for u
  proof (rule custody_step [OF k])
    have a: "?S = insert ?a (temporaries (en_ledger env @ [sc_day c, sc_stream c, sc_segment c]))"
      by (simp add: write_scope_def ledger_dir_plain [OF c])
    have out: "view u p = view w p" if "p \<in> capture_files env" for p
    proof -
      have "p \<notin> ?S"
        using that harmless_temporaries [of env "[sc_day c, sc_stream c, sc_segment c]"] ack_file [OF c, of env]
        unfolding a harmless_def by auto
      then show ?thesis using s by (simp add: confined_def)
    qed
    fix c' n b assume "view w (segment_dir_of (en_captures env) c' @ [n]) = Some b"
    then show "(\<exists>m. view u (segment_dir_of (en_captures env) c' @ [m]) = Some b) \<or> H c' (en_sha env b)"
      using out [OF capture_file] by auto
  next
    fix c' d assume c': "plain_candidate c'" and says: "ledger_says env u c' d"
    show "ledger_says env w c' d \<or> H c' d"
    proof (cases "c' = c")
      case True
      show ?thesis
        using v
      proof
        assume "\<exists>l b. lc_ack (en_codec env) (ack_record l c (en_identity env) key files) = Some b \<and> view u ?a = Some b"
        with codec says files True show ?thesis by (fastforce simp: ledger_says_def ack_record_def)
      qed (use says True in \<open>simp add: ledger_says_def\<close>)
    next
      case False
      then have "ack_path (en_ledger env) c' \<noteq> ?a"
        by (auto simp: ack_file c c' intro: SegmentCandidate.equality)
      then have "ack_path (en_ledger env) c' \<notin> ?S"
        using temp_not_ack [OF c'] by (auto simp: write_scope_def)
      then have "view u (ack_path (en_ledger env) c') = view w (ack_path (en_ledger env) c')"
        using s by (simp add: confined_def)
      with says show ?thesis by (simp add: ledger_says_def)
    qed
  qed (use s in \<open>simp add: confined_def\<close>)
  show "wpE ?m (\<lambda>_. custody env H w0) (\<lambda>_. custody env H w0) w"
    by (rule wpE_mono [OF wpE_conj [OF confinedE_D [OF confined_write_ack [OF c] custodyD(1) [OF k]]
            write_ack_spec [OF custodyD(1) [OF k] c]]])
      (use kept in blast)+
qed

text \<open>A receipt that was read is founded.\<close>

lemma custody_read_ack:
  assumes c: "plain_candidate c"
  shows "givesE (custody env H w0) (\<lambda>a. \<forall>f \<in> set (ar_files a). H c (ak_sha256 f))
    (read_ack_record (en_codec env) (en_ledger env) c (en_identity env) own)"
proof (rule givesE_I)
  fix w assume k: "custody env H w0 w"
  let ?a = "ack_path (en_ledger env) c"
  let ?H = "\<lambda>a. \<forall>f \<in> set (ar_files a). H c (ak_sha256 f)"
  have quiet: "quietE (read_regular ?a)" unfolding read_regular_def by (intro quiet_intros)
  have read: "wpE (read_regular ?a) (\<lambda>b _. view w ?a = Some b) (\<lambda>_ _. True) w"
    unfolding read_regular_def open_regular_readonly_def stage_io_def
    by (auto intro!: wp_open_read wp_seek wp_read_fd simp: world_simps view_def split: node.split)
  have remove: "givesE (custody env H w0) ?H (bindE (ignoreE (fs_remove_file ?a)) (\<lambda>_. throwE ()))"
    by (intro gives_intros keeps_intros custody_keeping.rmfile) (simp add: ack_file [OF c])
  have same: "custody env H w0 u" if "only_ticks w u" for u
    using custody_keeping.looks [OF that k] .
  have gone: "wpE (bindE (ignoreE (fs_remove_file ?a)) (\<lambda>_. throwE ()))
      (\<lambda>x s. ?H x \<and> custody env H w0 s) (\<lambda>_. custody env H w0) u" if "only_ticks w u" for u
    by (rule givesE_D [OF remove same [OF that]])
  have founded: "?H a" if "view w ?a = Some b" "lc_unack (en_codec env) b = Some a" "ack_fits a c (en_identity env)" for a b
    using custodyD(3) [OF k c] that by (auto simp: ledger_says_def)
  show "wpE (read_ack_record (en_codec env) (en_ledger env) c (en_identity env) own)
      (\<lambda>x s. ?H x \<and> custody env H w0 s) (\<lambda>_. custody env H w0) w"
    unfolding read_ack_record_def wpE_bind
    by (rule wpE_mono [OF wp_quiet [OF quiet read]])
      (use gone founded same in \<open>auto simp del: wpE_bind split: option.split\<close>)
qed

subsection \<open>The scheduler's state\<close>

definition in_custody ::
  "'j sync_env \<Rightarrow> (SegmentCandidate \<Rightarrow> string \<Rightarrow> bool) \<Rightarrow> ('j \<Rightarrow> bool) \<Rightarrow> world \<Rightarrow> 'j sweep \<times> world \<Rightarrow> bool" where
  "in_custody env H J w0 = (\<lambda>(s, w). J (sw_journal s) \<and> custody env H w0 w)"

named_theorems sweep_intros \<open>steps of a sweep that keep captures in custody\<close>

lemma keeps_on_world: "keepsE (custody env H w0) m \<Longrightarrow> keepsE (in_custody env H J w0) (on_world m)"
  by (auto simp: keepsE_wp in_custody_def elim!: allE wpE_mono)

lemma gives_on_world: "givesE (custody env H w0) P m \<Longrightarrow> givesE (in_custody env H J w0) P (on_world m)"
  by (auto simp: givesE_def in_custody_def elim!: allE wpE_mono)

lemma keeps_state_mod:
  "(\<And>s. sw_journal (f s) = sw_journal s) \<Longrightarrow> keepsE (in_custody env H J w0) (state_mod f)"
  by (auto simp: keepsE_def in_custody_def state_mod_def modifyE_def)

lemma keeps_schedules [sweep_intros]:
  "keepsE (in_custody env H J w0) next_stop" "keepsE (in_custody env H J w0) wall_now"
  "keepsE (in_custody env H J w0) instant_now" "keepsE (in_custody env H J w0) begin_irreversible"
  by (auto simp: keepsE_def in_custody_def next_stop_def wall_now_def instant_now_def begin_irreversible_def
      split: list.split)

lemma keeps_shutdown [sweep_intros]: "keepsE (in_custody env H J w0) shutdown_requested"
  unfolding shutdown_requested_def by (intro keeps_intros sweep_intros)

lemma keeps_state_get [sweep_intros]: "keepsE (in_custody env H J w0) (state_get f)"
  by (simp add: state_get_def keeps_intros)

lemma keeps_small [sweep_intros]:
  "keepsE (in_custody env H J w0) (map_facts g)" "keepsE (in_custody env H J w0) (forget_inventory c)"
  "keepsE (in_custody env H J w0) (retain_inventories cs)" "keepsE (in_custody env H J w0) (set_floor c f)"
  "keepsE (in_custody env H J w0) (drop_guard guard)" "keepsE (in_custody env H J w0) (contacted pg)"
  unfolding map_facts_def forget_inventory_def retain_inventories_def set_floor_def drop_guard_def contacted_def
  by (intro keeps_intros keeps_state_mod; simp)+

lemma keeps_health [sweep_intros]: "keepsE (in_custody env H J w0) (sweep_health env')"
  if "en_home env' = en_home env"
  unfolding sweep_health_def that
  by (intro keeps_intros sweep_intros keeps_on_world custody_health)

lemma keeps_sweep_ends [sweep_intros]:
  "keepsE (in_custody env H J w0) (cancelled_sweep env guard sm)"
  "keepsE (in_custody env H J w0) (leave_cancelled env guard sm)"
  "keepsE (in_custody env H J w0) (end_sweep sm e)"
  unfolding leave_cancelled_def cancelled_sweep_def end_sweep_def
  by (intro keeps_intros sweep_intros keeps_state_mod; simp split: option.split)+

lemma quiet_prepare_files: "quietE (prepare_files sha paths)"
proof -
  have len: "quietE (stream_sha256_hex sha i)" for i
    unfolding stream_sha256_hex_def by (intro quiet_intros)
  have one: "quietE (prepare_file sha p)" for p
    unfolding prepare_file_def seg_io_def Let_def by (intro quiet_intros len)
  have all: "quietE (prepare_all sha ps)" for ps
    by (induction ps) (auto intro!: quiet_intros one)
  show ?thesis unfolding prepare_files_def by (intro quiet_intros all)
qed

lemma quiet_inventory_files: "quietE (inventory_files sha paths)"
  unfolding inventory_files_def by (intro quiet_intros quiet_prepare_files)

lemma keeps_inventory [sweep_intros]: "keepsE (in_custody env H J w0) (inventory_for env' c paths)"
  unfolding inventory_for_def Let_def
  by (intro keeps_intros sweep_intros keeps_on_world custody_looks quiet_identities quiet_inventory_files keeps_state_mod) simp_all

subsection \<open>Local removals\<close>

lemma gives_candidates:
  "givesE (in_custody env H J w0) (\<lambda>cs. list_all scanned cs) (on_world (scan_candidates api root))"
proof (intro gives_on_world givesE_I)
  fix w assume k: "custody env H w0 w"
  show "wpE (scan_candidates api root) (\<lambda>cs u. list_all scanned cs \<and> custody env H w0 u) (\<lambda>_. custody env H w0) w"
    by (rule wpE_mono [OF scan_spec])
      (use custody_keeping.looks [OF _ k] segment_scanned in \<open>fastforce simp: list_all_iff\<close>)+
qed

lemma keeps_held:
  assumes "en_hook env = None" "scanned c" "\<And>f. f \<in> set files \<Longrightarrow> H c (ak_sha256 f)"
  shows "keepsE (in_custody env H J w0) (finish_held env c files)"
  unfolding finish_held_def Let_def
  by (intro keeps_intros sweep_intros keeps_on_world custody_delete assms(1,2)) (use assms(3) in auto)

lemma custody_delete_empty:
  assumes "scanned c"
  shows "keepsE (custody env H w0) (delete_empty_segment api (en_captures env) (en_ledger env) c permit)"
proof -
  have "keepsE (custody env H w0) (remove_empty_segment_directory api (en_captures env) c)"
    unfolding remove_empty_segment_directory_def refused_def read_segment_dir_def
    by (intro keeps_intros custody_looks quiet_intros custody_keeping.rmdir)
  then show ?thesis
    unfolding delete_empty_segment_def by (intro keeps_intros custody_finish assms)
qed

lemma keeps_finish_local:
  assumes "en_hook env = None" "scanned c"
  shows "keepsE (in_custody env H J w0) (finish_local env c)"
proof -
  have p: "plain_candidate c" using assms(2) by (simp add: scanned_def)
  note ack = gives_on_world [OF custody_read_ack [OF p]]
  have found: "keepsE (in_custody env H J w0)
      (tryE (on_world (read_ack_record (en_codec env) (en_ledger env) c (en_identity env) own))
        (\<lambda>ack. case ack of Inl _ \<Rightarrow> returnE () | Inr ack \<Rightarrow> finish_held env c (ar_files ack)))" for own
    by (rule keeps_try_gives [OF ack]) (auto intro!: keeps_held assms keeps_intros)
  have files: "keepsE (in_custody env H J w0) (tryE (inventory_for env c ps) (\<lambda>inventory.
      case inventory of Inl _ \<Rightarrow> returnE () | Inr own \<Rightarrow>
        tryE (on_world (read_ack_record (en_codec env) (en_ledger env) c (en_identity env) own))
          (\<lambda>ack. case ack of Inl _ \<Rightarrow> returnE () | Inr ack \<Rightarrow> finish_held env c (ar_files ack))))" for ps
    by (rule keeps_try [OF keeps_inventory]) (auto split: sum.split intro: keeps_simple found)
  have empty: "keepsE (in_custody env H J w0)
      (bindE (forget_inventory c) (\<lambda>_.
       bindE begin_irreversible (\<lambda>permit.
       bindE (on_world (delete_empty_segment (en_api env) (en_captures env) (en_ledger env) c permit)) (\<lambda>_. returnE ()))))"
    by (intro keeps_intros sweep_intros keeps_on_world custody_delete_empty assms)
  show ?thesis
    unfolding finish_local_def
  proof (rule keeps_bind [OF keeps_on_world [OF custody_looks [OF quiet_resolve]]])
    show "keepsE (in_custody env H J w0) (case resolved of
       RsEmpty \<Rightarrow>
         bindE (forget_inventory c) (\<lambda>_.
         bindE begin_irreversible (\<lambda>permit.
         bindE (on_world (delete_empty_segment (en_api env) (en_captures env) (en_ledger env) c permit)) (\<lambda>_. returnE ())))
     | RsFound files \<Rightarrow>
         tryE (inventory_for env c files) (\<lambda>inventory.
           case inventory of
             Inl _ \<Rightarrow> returnE ()
           | Inr local_files \<Rightarrow>
               tryE (on_world (read_ack_record (en_codec env) (en_ledger env) c (en_identity env) local_files)) (\<lambda>ack.
                 case ack of
                   Inl _ \<Rightarrow> returnE ()
                 | Inr ack \<Rightarrow> finish_held env c (ar_files ack)))
     | _ \<Rightarrow> returnE ())" for resolved
      by (cases resolved; simp only: ResolvedSegmentFiles.case; rule files empty keeps_simple)
  qed
qed

lemma keeps_local_finish:
  assumes "en_hook env = None"
  shows "keepsE (in_custody env H J w0) (local_finish env)"
proof -
  have loop: "keepsE (in_custody env H J w0) (finish_loop env cs)" if "list_all scanned cs" for cs
    using that
    by (induction cs) (auto intro!: keeps_intros keeps_shutdown keeps_finish_local assms)
  have hold: "keepsE (custody env H w0) (cleanup_hold_files (en_ledger env))"
    by (rule custody_keeping.cleanup) (auto simp: hold_files_def)
  have prune: "keepsE (custody env H w0) (prune_ledger_dirs (en_ledger env) cs)" for cs
    by (rule custody_keeping.prune) (auto simp: stale_records_def)
  show ?thesis
    unfolding local_finish_def
    by (rule keeps_try_gives [OF gives_candidates])
      (auto intro!: keeps_intros keeps_small keeps_on_world hold prune loop)
qed

subsection \<open>What is due\<close>

abbreviation about :: "SegmentCandidate \<Rightarrow> verdict \<Rightarrow> bool" where
  "about c v \<equiv> \<forall>d. v = VDue d \<longrightarrow> du_candidate d = c"

lemma gives_judged:
  assumes "plain_candidate c"
  shows "givesE (in_custody env H J w0) (about c) (judge_unsent env now c files own)"
proof -
  have load: "quietE (load_capture_time parse p)" for parse p
    unfolding load_capture_time_def
    by (auto intro!: quiet_intros split: option.split sum.split StorageError.split io_error.split)
  show ?thesis
    unfolding judge_unsent_def Let_def
    by (intro gives_intros sweep_intros keeps_on_world custody_looks load custody_state(2) [OF assms]) auto
qed

lemma gives_considered:
  assumes "scanned c"
  shows "givesE (in_custody env H J w0) (about c) (consider_candidate env now c)"
proof -
  have p: "plain_candidate c" using assms by (simp add: scanned_def)
  have found: "givesE (in_custody env H J w0) (about c) (tryE (inventory_for env c ps) (\<lambda>inventory.
      case inventory of Inl _ \<Rightarrow> returnE VUnusable | Inr own \<Rightarrow>
        tryE (on_world (read_ack_record (en_codec env) (en_ledger env) c (en_identity env) own))
          (\<lambda>ack. case ack of Inr _ \<Rightarrow> returnE VNothing | Inl _ \<Rightarrow> judge_unsent env now c ps own)))" for ps
    by (intro gives_intros sweep_intros keeps_on_world gives_keeps [OF custody_read_ack [OF p]] gives_judged p) simp_all
  have gone: "givesE (in_custody env H J w0) (about c) (bindE (forget_inventory c) (\<lambda>_. returnE VNothing))"
    by (intro gives_intros sweep_intros) simp
  show ?thesis
    unfolding consider_candidate_def
  proof (rule gives_after [OF keeps_on_world [OF custody_looks [OF quiet_resolve]]])
    show "givesE (in_custody env H J w0) (about c) (case resolved of
       RsEmpty \<Rightarrow> bindE (forget_inventory c) (\<lambda>_. returnE VNothing)
     | RsMissing \<Rightarrow> bindE (forget_inventory c) (\<lambda>_. returnE VNothing)
     | RsInvalid \<Rightarrow> returnE VUnusable
     | RsFound files \<Rightarrow>
         tryE (inventory_for env c files) (\<lambda>inventory.
           case inventory of
             Inl _ \<Rightarrow> returnE VUnusable
           | Inr local_files \<Rightarrow>
               tryE (on_world (read_ack_record (en_codec env) (en_ledger env) c (en_identity env) local_files)) (\<lambda>ack.
                 case ack of
                   Inr _ \<Rightarrow> returnE VNothing
                 | Inl _ \<Rightarrow> judge_unsent env now c files local_files)))" for resolved
      by (cases resolved; simp only: ResolvedSegmentFiles.case; (rule found gone | simp add: gives_simple))
  qed
qed

definition due_ok :: "due list \<Rightarrow> bool" where
  "due_ok ds \<longleftrightarrow> list_all (\<lambda>d. scanned (du_candidate d)) ds"

lemma gives_due:
  "list_all scanned cs \<Longrightarrow> givesE (in_custody env H J w0) (\<lambda>(_, _, ds). due_ok ds) (collect_due env now cs sm n)"
proof (induction cs arbitrary: sm n)
  case (Cons c cs)
  then have c: "scanned c" and rest: "givesE (in_custody env H J w0) (\<lambda>(_, _, ds). due_ok ds) (collect_due env now cs sm n)" for sm n
    by simp_all
  have leave: "givesE (in_custody env H J w0) P (leave_cancelled env False sm)" for P :: "SyncSweepSummary \<times> nat \<times> due list \<Rightarrow> bool"
    unfolding leave_cancelled_def by (intro gives_intros sweep_intros)
  have more: "givesE (in_custody env H J w0) (\<lambda>(_, _, ds). due_ok ds)
      (bindE (collect_due env now cs sm k) (\<lambda>(sm, n, ds). returnE (sm, n, d # ds)))"
    if "du_candidate d = c" for d k
    by (rule gives_bind [OF rest]) (use that c in \<open>auto simp: due_ok_def intro: gives_simple\<close>)
  have all: "givesE (in_custody env H J w0) (\<lambda>(_, _, ds). due_ok ds)
      (case v of VNothing \<Rightarrow> collect_due env now cs sm n
       | VUnusable \<Rightarrow> collect_due env now cs (sm\<lparr>ss_diagnostic := Some LocalSegmentInvalid\<rparr>) (Suc n)
       | VWaiting \<Rightarrow> collect_due env now cs sm (Suc n)
       | VDue d \<Rightarrow> bindE (collect_due env now cs sm (Suc n)) (\<lambda>(sm, n, ds). returnE (sm, n, d # ds)))"
    if "about c v" for v
    by (cases v) (use that in \<open>auto intro: rest more\<close>)
  show ?case
    unfolding collect_due.simps
    by (intro gives_intros keeps_shutdown leave gives_bind [OF gives_considered [OF c]] all)
qed (simp add: due_ok_def gives_simple)

subsection \<open>Believing an answer\<close>

text \<open>What an answer lets the sweep believe is so.\<close>

definition founded ::
  "(SegmentCandidate \<Rightarrow> string \<Rightarrow> bool) \<Rightarrow> SegmentCandidate \<Rightarrow> SyncOperationError + UploadResult \<Rightarrow> bool" where
  "founded H c r \<longleftrightarrow>
     (\<forall>x own files. r = Inr x \<longrightarrow> assess_receipt x own = Valid files \<longrightarrow> (\<forall>f \<in> set files. H c (ak_sha256 f)))
     \<and> (r = Inl SegmentGone \<longrightarrow> (\<forall>d. H c d))"

text \<open>No hook, and a receipt is decoded as it was encoded.\<close>

definition sound_env :: "'j sync_env \<Rightarrow> bool" where
  "sound_env env \<longleftrightarrow> en_hook env = None
     \<and> (\<forall>r b. lc_ack (en_codec env) r = Some b \<longrightarrow> lc_unack (en_codec env) b = Some r)"

lemma keeps_park [sweep_intros]:
  "plain_candidate c \<Longrightarrow> keepsE (in_custody env H J w0) (park env now c state)"
  unfolding park_def by (intro keeps_intros keeps_on_world custody_state keeps_small)

lemma keeps_acknowledge:
  assumes "sound_env env" "scanned c" "\<And>f. f \<in> set files \<Longrightarrow> H c (ak_sha256 f)"
  shows "keepsE (in_custody env H J w0) (acknowledge env c files key receipt pg)"
proof -
  have p: "plain_candidate c" using assms(2) by (simp add: scanned_def)
  have hook: "en_hook env = None" and codec: "lc_ack (en_codec env) r = Some b \<Longrightarrow> lc_unack (en_codec env) b = Some r" for r b
    using assms(1) by (simp_all add: sound_env_def)
  note ack = custody_ack [where H = H and files = files, OF p codec assms(3)]
  show ?thesis
    unfolding acknowledge_def Let_def
    by (intro keeps_intros sweep_intros keeps_on_world ack custody_state(1) [OF p] keeps_held hook assms(2,3))
qed

lemma keeps_settled:
  assumes "sound_env env" "scanned (du_candidate d)" "founded H (du_candidate d) answer"
  shows "keepsE (in_custody env H J w0) (settle_answer env now d answer pg)"
proof -
  have p: "plain_candidate (du_candidate d)" using assms(2) by (simp add: scanned_def)
  have receipt: "keepsE (in_custody env H J w0) (settle_receipt env now d x pg)" if "answer = Inr x" for x pg
    using assms that
    by (auto simp: settle_receipt_def founded_def Let_def split: Receipt.split intro!: keeps_intros keeps_park [OF p] keeps_acknowledge)
  have gone: "keepsE (in_custody env H J w0) (acknowledge env (du_candidate d) files key False pg)" if "answer = Inl SegmentGone" for files key pg
    using assms that by (intro keeps_acknowledge) (auto simp: founded_def)
  show ?thesis
    unfolding settle_answer_def
    by (cases answer) (auto split: SyncOperationError.split intro!: keeps_intros sweep_intros receipt gone p)
qed

subsection \<open>The journal's interface\<close>

text \<open>
  The trait \<open>SyncJournal\<close>: a call only looks at the files, and what it lets the sweep believe is
  so (\<open>held\<close>). \<open>J\<close> is what the journal's own state keeps.
\<close>

locale sync_journal =
  fixes upload :: "SegmentCandidate \<Rightarrow> path list \<Rightarrow> string \<Rightarrow> CaptureTime option
      \<Rightarrow> ('j \<times> world, SyncOperationError, UploadResult) comp"
    and status :: "('j \<times> world, SyncOperationError, unit) comp"
    and J :: "'j \<Rightarrow> bool"
    and held :: "SegmentCandidate \<Rightarrow> string \<Rightarrow> bool"
  assumes upload_law: "J j \<Longrightarrow> upload c fs src meta (j, w) = (r, (j', u))
      \<Longrightarrow> J j' \<and> only_ticks w u \<and> founded held c r"
    and status_law: "J j \<Longrightarrow> status (j, w) = (a, (j', u)) \<Longrightarrow> J j' \<and> only_ticks w u"
begin

lemma on_journal_upload:
  assumes "\<And>c d. held c d \<Longrightarrow> H c d"
  shows "givesE (in_custody env H J w0) (\<lambda>a. \<forall>r. a = Some r \<longrightarrow> founded H c r)
    (cancellable (on_journal (upload c fs src meta)))"
proof -
  have weaken: "founded held c r \<Longrightarrow> founded H c r" for r
    using assms unfolding founded_def by blast
  have called: "wpE (on_journal (upload c fs src meta))
      (\<lambda>x t. founded H c (Inr x) \<and> in_custody env H J w0 t) (\<lambda>e t. founded H c (Inl e) \<and> in_custody env H J w0 t) t"
    if t: "in_custody env H J w0 t" for t
  proof -
    obtain s w where st: "t = (s, w)" by fastforce
    obtain r j' u where run: "upload c fs src meta (sw_journal s, w) = (r, (j', u))" by (metis surj_pair)
    have "J j' \<and> only_ticks w u \<and> founded held c r"
      using upload_law run t by (auto simp: st in_custody_def)
    with weaken custody_keeping.looks t show ?thesis
      by (cases r) (auto simp: st in_custody_def wpE_def on_journal_def run)
  qed
  show ?thesis
    unfolding cancellable_def
    by (rule gives_after [OF keeps_schedules(1)])
      (auto split: stop.split intro!: givesE_I gives_simple wpE_mono [OF called])
qed

lemma on_journal_status: "keepsE (in_custody env H J w0) (cancellable (on_journal status))"
proof -
  have "keepsE (in_custody env H J w0) (on_journal status)"
    using status_law custody_keeping.looks
    by (fastforce simp: keepsE_def in_custody_def on_journal_def split: prod.splits)
  then show ?thesis
    unfolding cancellable_def
    by (intro keeps_bind [OF keeps_schedules(1)]) (auto split: stop.split intro!: keeps_intros)
qed

lemma keeps_upload_one:
  assumes "\<And>c d. held c d \<Longrightarrow> H c d" "sound_env env" "en_upload env = upload" "scanned (du_candidate d)"
  shows "keepsE (in_custody env H J w0) (upload_one env now d pg)"
proof -
  note call = on_journal_upload [where H = H and c = "du_candidate d", OF assms(1)]
  have answer: "keepsE (in_custody env H J w0) (case a of None \<Rightarrow> leave_cancelled env g sm | Some a \<Rightarrow> settle_answer env now d a pg')"
    if "\<forall>r. a = Some r \<longrightarrow> founded H (du_candidate d) r" for a g sm pg'
    using that keeps_settled [OF assms(2,4)] keeps_sweep_ends(2) by (cases a) auto
  have working: "keepsE (in_custody env H J w0) (if pg_guard pg then returnE () else state_mod (\<lambda>s. s\<lparr>sw_activity := ActivityWorking\<rparr>))"
    by (intro keeps_intros keeps_state_mod) simp
  show ?thesis
    unfolding upload_one_def Let_def assms(3)
    by (intro keeps_bind [OF keeps_shutdown] keeps_bind [OF working] keeps_if keeps_sweep_ends
        keeps_bind_gives [OF call] answer) simp_all
qed

lemma keeps_upload_batches:
  assumes "\<And>c d. held c d \<Longrightarrow> H c d" "sound_env env" "en_upload env = upload"
  shows "due_ok ds \<Longrightarrow> keepsE (in_custody env H J w0) (upload_batch env now ds pg)"
    "list_all due_ok bs \<Longrightarrow> keepsE (in_custody env H J w0) (upload_batches env now bs pg)"
proof -
  show batch: "due_ok ds \<Longrightarrow> keepsE (in_custody env H J w0) (upload_batch env now ds pg)" for ds pg
    by (induction ds arbitrary: pg) (auto simp: due_ok_def intro!: keeps_intros keeps_upload_one assms)
  show "list_all due_ok bs \<Longrightarrow> keepsE (in_custody env H J w0) (upload_batches env now bs pg)"
    by (induction bs arbitrary: pg)
      (auto intro!: keeps_intros keeps_shutdown keeps_health keeps_sweep_ends batch)
qed

lemma keeps_ask_status:
  assumes "en_status env = status"
  shows "keepsE (in_custody env H J w0) (ask_status env pg)"
  unfolding ask_status_def assms
  by (intro keeps_intros keeps_bind [OF on_journal_status])
    (auto split: option.split sum.split intro!: keeps_intros sweep_intros)

lemma due_ok_parts: "due_ok ds \<Longrightarrow> due_ok (take n ds)" "due_ok ds \<Longrightarrow> due_ok (drop n ds)"
  by (auto simp: due_ok_def list_all_iff dest: in_set_takeD in_set_dropD)

lemma batches_ok: "due_ok ds \<Longrightarrow> list_all due_ok (batches ds)"
  by (induction ds rule: batches.induct)
    (simp_all only: batches.simps list.pred_inject due_ok_parts simp_thms)

lemma sweep_keeps:
  assumes "\<And>c d. held c d \<Longrightarrow> H c d" "sound_env env" "en_upload env = upload" "en_status env = status"
  shows "keepsE (in_custody env H J w0) (run_sweep env)"
proof -
  let ?I = "in_custody env H J w0"
  have hook: "en_hook env = None" using assms(2) by (simp add: sound_env_def)
  note uploads = keeps_upload_batches [where H = H, OF assms(1-3)]
  have all: "keepsE ?I (upload_all env now ds pg)" if "due_ok ds" for now ds pg
    unfolding upload_all_def using batches_ok [OF that]
    by (intro keeps_intros keeps_small keeps_health uploads) simp_all
  have candidates: "givesE ?I (\<lambda>(_, cs). list_all scanned cs) (sweep_candidates env)"
  proof -
    have scan: "givesE ?I (\<lambda>(_, cs). list_all scanned cs)
        (tryE (on_world (scan_candidates (en_api env) (en_captures env))) (\<lambda>scanned.
         case scanned of
           Inl _ \<Rightarrow>
             bindE (map_facts (\<lambda>f. f\<lparr>sf_pending_segments := 0\<rparr>)) (\<lambda>_.
             bindE (end_sweep empty_summary (EndSweepDiagnostic FcContract LocalSegmentInvalid)) throwE)
         | Inr candidates \<Rightarrow> bindE (retain_inventories candidates) (\<lambda>_. returnE (now, candidates))))" for now
      by (rule gives_try_gives [OF gives_candidates]) (auto intro!: gives_intros sweep_intros)
    show ?thesis
      unfolding sweep_candidates_def leave_cancelled_def
      by (intro gives_intros sweep_intros keeps_local_finish hook scan)
  qed
  have rest: "keepsE ?I (bindE (upload_all env now ds pg) (\<lambda>pg.
       bindE (ask_status env pg) (\<lambda>pg. bindE (drop_guard (pg_guard pg)) (\<lambda>_. returnE (pg_summary pg)))))"
    if "due_ok ds" for now ds pg
    by (intro keeps_intros sweep_intros all that keeps_ask_status assms(4))
  have due: "keepsE ?I (bindE (collect_due env now cs empty_summary 0) (\<lambda>(sm, waiting, ds).
       bindE (map_facts (\<lambda>f. f\<lparr>sf_pending_segments := min waiting u64_max\<rparr>)) (\<lambda>_.
       bindE (upload_all env now ds \<lparr>pg_summary = sm, pg_ack_errors = 0, pg_requests = False, pg_guard = False\<rparr>) (\<lambda>pg.
       bindE (ask_status env pg) (\<lambda>pg. bindE (drop_guard (pg_guard pg)) (\<lambda>_. returnE (pg_summary pg)))))))"
    if "list_all scanned cs" for now cs
    by (rule keeps_bind_gives [OF gives_due [OF that]]) (auto intro!: keeps_bind [OF keeps_small(1)] rest)
  show ?thesis
    unfolding run_sweep_def
    by (intro keeps_wrappers keeps_bind_gives [OF candidates]) (auto intro!: due)
qed

lemma loop_keeps:
  assumes "\<And>c d. held c d \<Longrightarrow> H c d" "sound_env env" "en_upload env = upload" "en_status env = status"
  shows "keepsE (in_custody env H J w0) (run_with_shutdown env requested turns)"
proof -
  let ?I = "in_custody env H J w0"
  have hook: "en_hook env = None" using assms(2) by (simp add: sound_env_def)
  have sweep: "keepsE ?I (run_sweep env)"
    by (rule sweep_keeps [where H = H, OF assms])
  have facts: "keepsE ?I (update_facts sm)" for sm
    unfolding update_facts_def by (intro keeps_intros sweep_intros)
  have swept: "keepsE ?I (loop_sweep env pending)" for pending
    unfolding loop_sweep_def by (intro keeps_intros sweep sweep_intros facts refl)
  have episode: "keepsE ?I begin_episode" "keepsE ?I sweep_deadline"
    unfolding begin_episode_def sweep_deadline_def by (intro keeps_intros sweep_intros keeps_state_mod; simp)+
  have backoff: "keepsE ?I (wait_backoff env ev)" for ev
    by (cases ev; simp only: wait_backoff_def loop_event.case; intro keeps_intros episode sweep_intros refl)
  have idle: "keepsE ?I (wait_idle ev)" for ev
    by (cases ev; simp only: wait_idle_def loop_event.case; intro keeps_intros episode)
  have turn: "keepsE ?I (loop_turn env requested t)" for requested t
    unfolding loop_turn_def
    by (intro keeps_intros swept backoff idle episode keeps_local_finish hook keeps_state_get keeps_schedules)
  show ?thesis
    by (induction turns arbitrary: requested) (auto intro!: keeps_intros turn split: option.split)
qed

end

end
