(* ===== verification/Session.thy ===== *)
theory Session
  imports Custody
begin

text \<open>
  \<open>JournalSession\<close> as the \<open>SyncJournal\<close> of the scheduler (\<open>src/sync.rs\<close>, \<open>impl SyncJournal for
  JournalSession\<close>): an upload is \<open>JournalClient::ingest_upload\<close>, its errors are mapped with the
  bridge's reason for having stopped. The laws of \<open>sync_journal\<close> are proved for it, with what the
  journal said in its answers as what it holds, and with them the sweep end to end.
\<close>

subsection \<open>The journal session\<close>

text \<open>What a \<open>JournalClient\<close> is built with, and the external codecs it uses.\<close>

record journal_client =
  jc_join :: "string \<Rightarrow> Url option"
  jc_origin :: Url
  jc_sha :: "bytes \<Rightarrow> string"
  jc_json :: "UploadEnvelope \<Rightarrow> bytes option"
  jc_build :: "Url \<Rightarrow> bytes \<Rightarrow> LocalFile list \<Rightarrow> built_headers option"
  jc_unerror :: "bytes \<Rightarrow> string option"
  jc_unupload :: "bytes \<Rightarrow> UploadResponse option"
  jc_unstatus :: "bytes \<Rightarrow> (bool \<times> string option) option"

text \<open>How the journal behind the bridge will answer, call by call, and whether the bridge has stopped.\<close>

record JournalSession =
  js_answers :: "nat \<Rightarrow> http \<times> bool"
  js_calls :: nat

definition bridged :: "bool \<Rightarrow> JournalError + 'a \<Rightarrow> SyncOperationError + 'a" where
  "bridged stopped r = (case r of Inl e \<Rightarrow> Inl (map_bridge_error e stopped) | Inr x \<Rightarrow> Inr x)"

definition session_upload ::
  "journal_client \<Rightarrow> SegmentCandidate \<Rightarrow> path list \<Rightarrow> string \<Rightarrow> CaptureTime option
   \<Rightarrow> (JournalSession \<times> world, SyncOperationError, UploadResult) comp" where
  "session_upload cl c paths source meta =
     (\<lambda>(s, w). case js_answers s (js_calls s) of (http, stopped) \<Rightarrow>
       (case ingest_upload (jc_join cl) (jc_origin cl) http (jc_sha cl) (jc_json cl) (jc_build cl) (jc_unerror cl)
               (jc_unupload cl) (sc_day c) (sc_segment c) paths source meta w of
          (r, u) \<Rightarrow> (bridged stopped r, (s\<lparr>js_calls := js_calls s + 1\<rparr>, u))))"

definition session_status :: "journal_client \<Rightarrow> (JournalSession \<times> world, SyncOperationError, unit) comp" where
  "session_status cl =
     (\<lambda>(s, w). case js_answers s (js_calls s) of (http, stopped) \<Rightarrow>
       (bridged stopped (case system_status (jc_join cl) (jc_origin cl) http (jc_unerror cl) (jc_unstatus cl) of
           Inl e \<Rightarrow> Inl e | Inr _ \<Rightarrow> Inr ()),
        (s\<lparr>js_calls := js_calls s + 1\<rparr>, w)))"

subsection \<open>What the journal said\<close>

text \<open>A request to take a segment.\<close>

definition asks_to_take :: "journal_client \<Rightarrow> SegmentCandidate \<Rightarrow> http_request \<Rightarrow> bool" where
  "asks_to_take cl c rq \<longleftrightarrow>
     (\<exists>source meta files envelope parts. rq_method rq = ''POST'' \<and> rq_body rq = Multipart envelope parts
        \<and> plan_upload (jc_json cl) (sc_day c) (sc_segment c) source meta files = Inr envelope)"

text \<open>
  Its answer lists a file of the digest that it did not refuse to write, or says that the segment
  was removed.
\<close>

definition answer_holds :: "journal_client \<Rightarrow> http_response \<Rightarrow> string \<Rightarrow> bool" where
  "answer_holds cl r d \<longleftrightarrow>
     (case finish_upload (jc_unerror cl) (jc_unupload cl) r of
        Inr x \<Rightarrow> ur_status x \<in> {UpOk, UpDuplicate, UpCollision}
          \<and> (\<exists>ds y. ur_descriptors x = Some (Inr ds) \<and> y \<in> set ds \<and> pd_sha256 y = d
               \<and> pd_disposition y \<noteq> ''received_not_written'')
      | Inl e \<Rightarrow> je_reason_code e = Some SegmentRemoved)"

definition journal_said :: "journal_client \<Rightarrow> (nat \<Rightarrow> http \<times> bool) \<Rightarrow> SegmentCandidate \<Rightarrow> string \<Rightarrow> bool" where
  "journal_said cl answers c d \<longleftrightarrow>
     (\<exists>i rq r. asks_to_take cl c rq \<and> fst (answers i) rq = Inr r \<and> answer_holds cl r d)"

definition outcomesE :: "('e + 'a \<Rightarrow> bool) \<Rightarrow> ('s, 'e, 'a) comp \<Rightarrow> bool" where
  "outcomesE P m \<longleftrightarrow> (\<forall>s. P (fst (m s)))"

lemma outcomes_simple: "P (Inr x) \<Longrightarrow> outcomesE P (returnE x)" "P (Inl e) \<Longrightarrow> outcomesE P (throwE e)"
  "P r \<Longrightarrow> outcomesE P (ofR r)"
  by (auto simp: outcomesE_def returnE_def throwE_def ofR_def split: sum.split)

lemma outcomes_bind:
  "outcomesE (\<lambda>r. \<forall>e. r = Inl e \<longrightarrow> P (Inl e)) m \<Longrightarrow> (\<And>x. outcomesE P (f x)) \<Longrightarrow> outcomesE P (bindE m f)"
  by (auto simp: outcomesE_def bindE_def split: prod.split sum.split) (metis fst_conv)+

lemma outcomes_ofR:
  "(\<And>e. r = Inl e \<Longrightarrow> P (Inl e)) \<Longrightarrow> (\<And>x. r = Inr x \<Longrightarrow> outcomesE P (f x)) \<Longrightarrow> outcomesE P (bindE (ofR r) f)"
  by (cases r) (simp_all add: outcomesE_def bindE_def ofR_def returnE_def throwE_def)

lemma outcomes_map_err: "(\<And>e. P (Inl (g e))) \<Longrightarrow> outcomesE (\<lambda>r. \<forall>e. r = Inl e \<longrightarrow> P (Inl e)) (map_errE g m)"
  by (auto simp: outcomesE_def map_errE_def split: prod.split sum.split)

lemma local_error_reason [simp]: "je_reason_code (local_error d) = None" "je_reason_code segment_invalid = None"
  by (simp_all add: local_error_def segment_invalid_def)

text \<open>What \<open>ingest_upload\<close> reports is local or the answer to its request.\<close>

definition reported ::
  "journal_client \<Rightarrow> http \<Rightarrow> SegmentCandidate \<Rightarrow> JournalError + UploadResult \<Rightarrow> bool" where
  "reported cl http c x \<longleftrightarrow>
     (\<exists>e. x = Inl e \<and> je_reason_code e = None)
     \<or> (\<exists>rq r. asks_to_take cl c rq \<and> http rq = Inr r \<and> finish_upload (jc_unerror cl) (jc_unupload cl) r = x)"

lemma prepare_local: "outcomesE (\<lambda>r. \<forall>e. r = Inl e \<longrightarrow> je_reason_code e = None) (prepare_files sha ps)"
proof -
  let ?P = "\<lambda>r. \<forall>e. r = Inl e \<longrightarrow> je_reason_code e = None"
  have io: "outcomesE (\<lambda>r. \<forall>e. r = Inl e \<longrightarrow> (\<forall>e'. (Inl e :: JournalError + 'b) = Inl e' \<longrightarrow> je_reason_code e' = None)) (seg_io m)" for m :: "('c, 'd) io"
    by (auto simp: seg_io_def outcomesE_def map_errE_def split: prod.split sum.split)
  have one: "outcomesE ?P (prepare_file sha p)" for p
    unfolding prepare_file_def Let_def
    by (auto intro!: outcomes_simple outcomes_bind io split: sum.split)
  have all: "outcomesE ?P (prepare_all sha ps)" for ps
  proof (induction ps)
    case (Cons p ps)
    show ?case
      unfolding prepare_all.simps
      by (rule outcomes_bind, use one in simp, rule outcomes_bind, use Cons in simp, rule outcomes_simple) simp
  qed (simp add: outcomes_simple)
  show ?thesis unfolding prepare_files_def using all by (simp add: outcomes_simple)
qed

lemma stream_outcome: "outcomesE (\<lambda>r. \<forall>e. r \<noteq> Inl e) (stream_files fs)"
proof (induction fs)
  case (Cons f fs)
  have inner: "outcomesE (\<lambda>r. \<forall>e. r \<noteq> Inl e) (bindE (stream_files fs) (\<lambda>parts. returnE (f parts)))" for f :: "(string \<times> nat \<times> bytes) list \<Rightarrow> (string \<times> nat \<times> bytes) list"
    using Cons by (intro outcomes_bind outcomes_simple) (simp_all add: outcomesE_def)
  show ?case
    using inner unfolding stream_files.simps by (auto simp: outcomesE_def tryE_def split: prod.split)
qed (simp add: outcomes_simple)

lemma ingest_reports:
  "outcomesE (reported cl http c)
    (ingest_upload (jc_join cl) (jc_origin cl) http (jc_sha cl) (jc_json cl) (jc_build cl) (jc_unerror cl)
      (jc_unupload cl) (sc_day c) (sc_segment c) paths source meta)"
proof -
  have local: "reported cl http c (Inl e)" if "je_reason_code e = None" for e
    using that by (simp add: reported_def)
  have sent: "reported cl http c
      (case http \<lparr>rq_method = ''POST'', rq_url = url, rq_source = Some source, rq_body = Multipart envelope parts\<rparr> of
         Inl f \<Rightarrow> Inl (local_error (request_diagnostic f JournalUnavailable))
       | Inr r \<Rightarrow> finish_upload (jc_unerror cl) (jc_unupload cl) r)"
    if "plan_upload (jc_json cl) (sc_day c) (sc_segment c) source meta files = Inr envelope" for files envelope parts url
  proof (cases "http \<lparr>rq_method = ''POST'', rq_url = url, rq_source = Some source, rq_body = Multipart envelope parts\<rparr>")
    case (Inr r)
    have "asks_to_take cl c \<lparr>rq_method = ''POST'', rq_url = url, rq_source = Some source, rq_body = Multipart envelope parts\<rparr>"
      using that by (auto simp: asks_to_take_def)
    then have "reported cl http c (finish_upload (jc_unerror cl) (jc_unupload cl) r)"
      using Inr unfolding reported_def by blast
    then show ?thesis by (simp add: Inr)
  qed (simp add: local)
  have plan: "je_reason_code e = None" if "plan_upload json d g src meta files = Inl e" for json d g src meta files e
    using that by (auto simp: plan_upload_def split: if_splits option.splits)
  have headers: "je_reason_code e = None" if "validate_multipart_request h = Inl e" for h e
    using that by (auto simp: validate_multipart_request_def split: if_splits option.splits list.splits)
  have prepared: "outcomesE (\<lambda>r. \<forall>e. r = Inl e \<longrightarrow> reported cl http c (Inl e)) (prepare_files sha ps)" for sha ps
    using prepare_local [of sha ps] local by (simp add: outcomesE_def)
  have streamed: "outcomesE (\<lambda>r. \<forall>e. r = Inl e \<longrightarrow> reported cl http c (Inl e)) (stream_files fs)" for fs
    using stream_outcome [of fs] by (simp add: outcomesE_def)
  show ?thesis
    unfolding ingest_upload_def Let_def
    by (auto intro!: outcomes_simple outcomes_ofR outcomes_bind [OF prepared] outcomes_bind [OF streamed] local sent
        dest: plan headers split: sum.splits option.splits)
qed

lemma quiet_ingest: "quietE (ingest_upload join origin http sha json build unerror unupload day segment paths source meta)"
proof -
  have r: "quietE (ofR x)" for x :: "'e + 'a" unfolding ofR_def by (intro quiet_intros)
  have stream: "quietE (stream_files fs)" for fs
    by (induction fs) (auto intro!: quiet_intros)
  show ?thesis unfolding ingest_upload_def Let_def by (intro quiet_intros r quiet_prepare_files stream)
qed

lemma receipt_files:
  assumes "assess_receipt x own = Valid files" "f \<in> set files"
  shows "ur_status x \<in> {UpOk, UpDuplicate, UpCollision}
    \<and> (\<exists>ds y. ur_descriptors x = Some (Inr ds) \<and> y \<in> set ds \<and> pd_sha256 y = ak_sha256 f
         \<and> pd_disposition y \<noteq> ''received_not_written'')"
proof -
  obtain ds where ds: "ur_descriptors x = Some (Inr ds)" "assess_descriptors ds own = Valid files"
    and status: "ur_status x \<noteq> UpConflict" "ur_status x \<noteq> UpFailed"
    using assms(1) by (auto simp: assess_receipt_def split: if_splits option.splits sum.splits)
  have digests: "check_digests own ds = Inr files" and written: "\<forall>d \<in> set ds. pd_disposition d \<noteq> ''received_not_written''"
    using ds(2) by (auto simp: assess_descriptors_def list_ex_iff split: if_splits sum.splits)
  from digests assms(2) have "\<exists>y \<in> set ds. pd_sha256 y = ak_sha256 f"
    by (induction ds arbitrary: files) (auto simp: andR_def split: option.splits if_splits sum.splits)
  with ds(1) status written show ?thesis by (cases "ur_status x") auto
qed

lemma map_bridge_gone: "map_bridge_error e stopped = SegmentGone \<Longrightarrow> je_reason_code e = Some SegmentRemoved"
  by (auto simp: map_bridge_error_def map_journal_error_def map_rejected_def
      split: if_splits DiagnosticCode.splits option.splits JournalReasonCode.splits)

lemma reported_founded:
  assumes x: "reported cl (fst (answers i)) c x" and s: "answers i = (http, stopped)"
  shows "founded (journal_said cl answers) c (bridged stopped x)"
proof -
  have said: "journal_said cl answers c d"
    if "asks_to_take cl c rq" "http rq = Inr r" "answer_holds cl r d" for rq r d
    using that s unfolding journal_said_def by (metis fst_conv)
  from x show ?thesis
    unfolding reported_def
  proof (elim disjE exE conjE)
    fix e assume "x = Inl e" "je_reason_code e = None"
    then show ?thesis using map_bridge_gone [of e stopped] by (auto simp: founded_def bridged_def)
  next
    fix rq r assume a: "asks_to_take cl c rq" "fst (answers i) rq = Inr r"
      and f: "finish_upload (jc_unerror cl) (jc_unupload cl) r = x"
    then have h: "journal_said cl answers c d" if "answer_holds cl r d" for d
      using said that s by simp
    show ?thesis
    proof (cases x)
      case (Inl e)
      then show ?thesis
        using h f map_bridge_gone [of e stopped] by (auto simp: founded_def bridged_def answer_holds_def)
    next
      case (Inr u)
      then show ?thesis
        using h f receipt_files [of u] by (fastforce simp: founded_def bridged_def answer_holds_def)
    qed
  qed
qed

lemma session_journal:
  "sync_journal (session_upload cl) (session_status cl) (\<lambda>s. js_answers s = answers) (journal_said cl answers)"
proof
  fix s s' :: JournalSession and c fs src meta w r u
  assume s: "js_answers s = answers" and run: "session_upload cl c fs src meta (s, w) = (r, (s', u))"
  obtain http stopped where h: "answers (js_calls s) = (http, stopped)" by fastforce
  obtain x v where i: "ingest_upload (jc_join cl) (jc_origin cl) http (jc_sha cl) (jc_json cl) (jc_build cl) (jc_unerror cl)
      (jc_unupload cl) (sc_day c) (sc_segment c) fs src meta w = (x, v)" by fastforce
  have r: "r = bridged stopped x" "s' = s\<lparr>js_calls := js_calls s + 1\<rparr>" "u = v"
    using run by (simp_all add: session_upload_def s h i)
  have "reported cl (fst (answers (js_calls s))) c x"
    using ingest_reports [of cl http c fs src meta] i h unfolding outcomesE_def by (metis fst_conv)
  from reported_founded [where answers = answers and i = "js_calls s", OF this h] quiet_snd [OF quiet_ingest i] r s
  show "js_answers s' = answers \<and> only_ticks w u \<and> founded (journal_said cl answers) c r" by simp
qed (auto simp: session_status_def split: prod.splits)

interpretation session: sync_journal "session_upload cl" "session_status cl" "\<lambda>s. js_answers s = answers" "journal_said cl answers"
  for cl answers
  by (rule session_journal)

subsection \<open>No sweep loses a capture\<close>


definition silent_client :: journal_client where
  "silent_client = \<lparr>jc_join = (\<lambda>_. None), jc_origin = \<lparr>u_scheme = ''http'', u_host = None, u_port = None, u_path = ''/'', u_query = None, u_fragment = None\<rparr>, jc_sha = (\<lambda>b. b), jc_json = (\<lambda>_. None),
     jc_build = (\<lambda>_ _ _. None), jc_unerror = (\<lambda>_. None), jc_unupload = (\<lambda>_. None), jc_unstatus = (\<lambda>_. None)\<rparr>"

definition no_codec :: ledger_codec where
  "no_codec = \<lparr>lc_ack = (\<lambda>_. None), lc_unack = (\<lambda>_. None), lc_state = (\<lambda>_. None), lc_unstate = (\<lambda>_. None)\<rparr>"

definition sample_env :: "JournalSession sync_env" where
  "sample_env = \<lparr>en_api = any_calendar, en_stamp = plain_stamp, en_sha = (\<lambda>b. b), en_codec = no_codec,
     en_untime = (\<lambda>_. None), en_home = [], en_source = ''s'', en_identity = sample_journal, en_health = None,
     en_hook = None, en_upload = session_upload silent_client, en_status = session_status silent_client\<rparr>"

definition sweep_world :: world where
  "sweep_world = \<lparr>w_names = [([], NDir 0), ([''captures''], NDir 1), ([''captures'', ''20260101''], NDir 2),
       ([''captures'', ''20260101'', ''host''], NDir 3), ([''captures'', ''20260101'', ''host'', ''120000_300''], NDir 4),
       ([''captures'', ''20260101'', ''host'', ''120000_300'', ''tmux_a_screen.jsonl''], NFile 5)],
     w_data = [(5, ''x'')], w_mode = [], w_next = 6, w_outcomes = [], w_pid = 7, w_counter = 0,
     w_fault = \<lparr>af_fault = None, af_target = None, af_prefix = None, af_remaining = 0\<rparr>\<rparr>"

definition silent_scheduler :: "JournalSession sweep" where
  "silent_scheduler = new_scheduler 0 \<lparr>js_answers = (\<lambda>_. (\<lambda>_. Inl HttpTimeout, False)), js_calls = 0\<rparr> [] [] [] []"


end
