(* ===== verification/Upload.thy ===== *)
theory Upload
  imports Journal
begin

text \<open>
  Streaming one file of an upload (\<open>src/journal.rs\<close>): the producer task reads chunks into
  reservations of a shared stage and sends them over a bounded channel; the request body polls
  them out. Every interleaving of the two, with read errors and with the request abandoned at any
  point, is a run of a step relation. Parameters: \<open>cap\<close>, the stage's and the channel's capacity
  (\<open>FILE_STAGE_CAPACITY\<close>), and \<open>csize\<close>, the size of a chunk (\<open>RECOMMENDED_CHUNK\<close>).
\<close>

subsection \<open>The stage\<close>

record UploadStage =
  st_chunks :: nat
  st_bytes :: nat
  st_high_water :: nat

definition default_stage :: UploadStage where
  "default_stage = \<lparr>st_chunks = 0, st_bytes = 0, st_high_water = 0\<rparr>"

definition reserve :: "UploadStage \<Rightarrow> UploadStage" where
  "reserve s = s\<lparr>st_chunks := st_chunks s + 1\<rparr>"

definition record_bytes :: "nat \<Rightarrow> UploadStage \<Rightarrow> UploadStage" where
  "record_bytes n s =
     s\<lparr>st_bytes := st_bytes s + n, st_high_water := max (st_high_water s) (st_bytes s + n)\<rparr>"

text \<open>Dropping a reservation that recorded \<open>n\<close> bytes\<close>

definition drop_reservation :: "nat \<Rightarrow> UploadStage \<Rightarrow> UploadStage" where
  "drop_reservation n s = s\<lparr>st_chunks := st_chunks s - 1, st_bytes := st_bytes s - n\<rparr>"

definition drop_active :: "nat option \<Rightarrow> UploadStage \<Rightarrow> UploadStage" where
  "drop_active a s = (case a of None \<Rightarrow> s | Some n \<Rightarrow> drop_reservation n s)"

text \<open>Dropping what is queued: an error holds no reservation.\<close>

fun drop_queue :: "(io_error + bytes) list \<Rightarrow> UploadStage \<Rightarrow> UploadStage" where
  "drop_queue [] s = s"
| "drop_queue (Inl _ # q) s = drop_queue q s"
| "drop_queue (Inr b # q) s = drop_queue q (drop_reservation (length b) s)"

subsection \<open>Producer and stream\<close>

text \<open>
  \<open>p_hand\<close> is the producer's reservation, with the chunk once it is read; \<open>p_left\<close> the bytes
  after the file's position; \<open>p_closed\<close>: the producer has returned; \<open>p_done\<close> and
  \<open>p_failed\<close>: the stream has ended, or has passed on an error; \<open>p_dropped\<close>: it is gone.
\<close>

record pipe =
  p_stage :: UploadStage
  p_started :: bool
  p_left :: bytes
  p_hand :: "bytes option"
  p_closed :: bool
  p_queue :: "(io_error + bytes) list"
  p_active :: "nat option"
  p_sent :: bytes
  p_done :: bool
  p_failed :: bool
  p_dropped :: bool

definition init_pipe :: "bytes \<Rightarrow> pipe" where
  "init_pipe file =
     \<lparr>p_stage = default_stage, p_started = False, p_left = file, p_hand = None, p_closed = False, p_queue = [],
      p_active = None, p_sent = [], p_done = False, p_failed = False, p_dropped = False\<rparr>"

text \<open>\<open>FileChunkStream::poll_next\<close>: it first drops the active reservation and releases the start.\<close>

definition begin_poll :: "pipe \<Rightarrow> pipe" where
  "begin_poll s = s\<lparr>p_stage := drop_active (p_active s) (p_stage s), p_active := None, p_started := True\<rparr>"

definition poll_next :: "pipe \<Rightarrow> pipe" where
  "poll_next s =
     (let s = begin_poll s in
      case p_queue s of
        Inr b # q \<Rightarrow> s\<lparr>p_queue := q, p_active := Some (length b), p_sent := p_sent s @ b\<rparr>
      | Inl _ # q \<Rightarrow> s\<lparr>p_queue := q, p_failed := True\<rparr>
      | [] \<Rightarrow> if p_closed s then s\<lparr>p_done := True\<rparr> else s)"

definition abandon :: "pipe \<Rightarrow> pipe" where
  "abandon s = s\<lparr>p_stage := drop_active (p_active s) (drop_queue (p_queue s) (p_stage s)), p_active := None,
     p_queue := [], p_started := True, p_dropped := True\<rparr>"

text \<open>The steps of the producer, in the order of its loop.\<close>

definition producer_reserve :: "pipe \<Rightarrow> pipe" where
  "producer_reserve s = s\<lparr>p_stage := reserve (p_stage s), p_hand := Some []\<rparr>"

definition producer_read :: "nat \<Rightarrow> pipe \<Rightarrow> pipe" where
  "producer_read n s = s\<lparr>p_stage := record_bytes n (p_stage s), p_hand := Some (take n (p_left s)),
     p_left := drop n (p_left s)\<rparr>"

definition producer_return :: "pipe \<Rightarrow> pipe" where
  "producer_return s = s\<lparr>p_stage := drop_active (map_option length (p_hand s)) (p_stage s), p_hand := None,
     p_closed := True\<rparr>"

definition producer_send :: "pipe \<Rightarrow> pipe" where
  "producer_send s =
     (case p_hand s of None \<Rightarrow> s | Some b \<Rightarrow> s\<lparr>p_queue := p_queue s @ [Inr b], p_hand := None\<rparr>)"

definition producer_fail :: "io_error \<Rightarrow> pipe \<Rightarrow> pipe" where
  "producer_fail e s =
     producer_return (if p_dropped s then s else s\<lparr>p_queue := p_queue s @ [Inl e]\<rparr>)"

text \<open>A poll that finds nothing new is no step.\<close>

inductive pipe_step :: "nat \<Rightarrow> nat \<Rightarrow> pipe \<Rightarrow> pipe \<Rightarrow> bool" for cap csize where
  poll: "\<not> p_dropped s \<Longrightarrow> \<not> p_done s \<Longrightarrow> \<not> p_failed s \<Longrightarrow>
     p_queue s \<noteq> [] \<or> p_closed s \<or> p_active s \<noteq> None \<or> \<not> p_started s \<Longrightarrow> pipe_step cap csize s (poll_next s)"
| drop_stream: "\<not> p_dropped s \<Longrightarrow> pipe_step cap csize s (abandon s)"
| start: "\<not> p_started s \<Longrightarrow> pipe_step cap csize s (s\<lparr>p_started := True\<rparr>)"
| reserves: "p_started s \<Longrightarrow> \<not> p_closed s \<Longrightarrow> p_hand s = None \<Longrightarrow> st_chunks (p_stage s) < cap \<Longrightarrow>
     pipe_step cap csize s (producer_reserve s)"
| reads: "p_hand s = Some [] \<Longrightarrow> 0 < n \<Longrightarrow> n \<le> csize \<Longrightarrow> n \<le> length (p_left s) \<Longrightarrow>
     pipe_step cap csize s (producer_read n s)"
| ends: "p_hand s = Some [] \<Longrightarrow> p_left s = [] \<Longrightarrow> pipe_step cap csize s (producer_return s)"
| fails: "p_hand s = Some [] \<Longrightarrow> p_dropped s \<or> length (p_queue s) < cap \<Longrightarrow> pipe_step cap csize s (producer_fail e s)"
| sends: "p_hand s = Some b \<Longrightarrow> b \<noteq> [] \<Longrightarrow> \<not> p_dropped s \<Longrightarrow> length (p_queue s) < cap \<Longrightarrow>
     pipe_step cap csize s (producer_send s)"
| unsent: "p_hand s = Some b \<Longrightarrow> b \<noteq> [] \<Longrightarrow> p_dropped s \<Longrightarrow> pipe_step cap csize s (producer_return s)"

abbreviation "pipe_run cap csize \<equiv> (pipe_step cap csize)\<^sup>*\<^sup>*"

lemmas pipe_defs = poll_next_def begin_poll_def abandon_def producer_reserve_def producer_read_def
  producer_return_def producer_send_def producer_fail_def

subsection \<open>The invariant\<close>

fun chunk_list :: "(io_error + bytes) list \<Rightarrow> bytes list" where
  "chunk_list [] = []"
| "chunk_list (Inl _ # q) = chunk_list q"
| "chunk_list (Inr b # q) = b # chunk_list q"

lemma chunk_list_append [simp]: "chunk_list (p @ q) = chunk_list p @ chunk_list q"
  by (induction p rule: chunk_list.induct) auto

text \<open>The reservations alive, by the bytes each has recorded.\<close>

definition reservations :: "pipe \<Rightarrow> nat list" where
  "reservations s = (case p_active s of None \<Rightarrow> [] | Some n \<Rightarrow> [n]) @ map length (chunk_list (p_queue s))
     @ (case p_hand s of None \<Rightarrow> [] | Some b \<Rightarrow> [length b])"

definition stage_counts :: "nat list \<Rightarrow> UploadStage \<Rightarrow> bool" where
  "stage_counts l s \<longleftrightarrow> st_chunks s = length l \<and> st_bytes s = sum_list l"

definition stage_ok :: "nat \<Rightarrow> nat \<Rightarrow> pipe \<Rightarrow> bool" where
  "stage_ok cap csize s \<longleftrightarrow>
     stage_counts (reservations s) (p_stage s) \<and> length (reservations s) \<le> cap
     \<and> (\<forall>n \<in> set (reservations s). n \<le> csize) \<and> st_high_water (p_stage s) \<le> cap * csize"

definition in_hand :: "pipe \<Rightarrow> bytes" where
  "in_hand s = (case p_hand s of None \<Rightarrow> [] | Some b \<Rightarrow> b)"

definition errors_queued :: "pipe \<Rightarrow> bool" where
  "errors_queued s \<longleftrightarrow> (\<exists>x \<in> set (p_queue s). isl x)"

definition flow_ok :: "bytes \<Rightarrow> pipe \<Rightarrow> bool" where
  "flow_ok file s \<longleftrightarrow>
     (\<exists>r. p_sent s @ r = file)
     \<and> (\<not> p_dropped s \<longrightarrow> p_sent s @ concat (chunk_list (p_queue s)) @ in_hand s @ p_left s = file)
     \<and> (p_dropped s \<longrightarrow> p_queue s = [] \<and> p_active s = None)
     \<and> (p_closed s \<longrightarrow> p_hand s = None)
     \<and> (\<not> p_closed s \<longrightarrow> \<not> errors_queued s \<and> \<not> p_failed s)
     \<and> (p_closed s \<longrightarrow> p_dropped s \<or> p_failed s \<or> p_left s = [] \<or> errors_queued s)
     \<and> (p_done s \<longrightarrow> p_closed s \<and> p_sent s = file)"

definition pipe_ok :: "nat \<Rightarrow> nat \<Rightarrow> bytes \<Rightarrow> pipe \<Rightarrow> bool" where
  "pipe_ok cap csize file s \<longleftrightarrow> stage_ok cap csize s \<and> flow_ok file s"

lemma stage_ok_shrink:
  assumes "stage_ok cap csize s" "stage_counts (reservations t) (p_stage t)"
    "length (reservations t) \<le> length (reservations s)" "set (reservations t) \<subseteq> set (reservations s)"
    "st_high_water (p_stage t) = st_high_water (p_stage s)"
  shows "stage_ok cap csize t"
  using assms by (auto simp: stage_ok_def)

lemma stage_counts_drop:
  "stage_counts (p @ n # q) s \<Longrightarrow> stage_counts (p @ q) (drop_reservation n s)"
  "stage_counts (n # q) s \<Longrightarrow> stage_counts q (drop_reservation n s)"
  by (simp_all add: stage_counts_def drop_reservation_def)

lemma stage_counts_drop_queue:
  "stage_counts (map length (chunk_list q) @ l) s \<Longrightarrow> stage_counts l (drop_queue q s)"
  by (induction q s rule: drop_queue.induct) (auto dest: stage_counts_drop(2))

lemma stage_counts_drop_active:
  "stage_counts ((case a of None \<Rightarrow> [] | Some n \<Rightarrow> [n]) @ l) s \<Longrightarrow> stage_counts l (drop_active a s)"
  by (auto simp: drop_active_def dest: stage_counts_drop(2) split: option.splits)

lemma high_water_drop [simp]:
  "st_high_water (drop_reservation n s) = st_high_water s"
  "st_high_water (drop_active a s) = st_high_water s"
  "st_high_water (drop_queue q s) = st_high_water s"
proof -
  show d: "st_high_water (drop_reservation n s) = st_high_water s" for n s by (simp add: drop_reservation_def)
  then show "st_high_water (drop_active a s) = st_high_water s" by (simp add: drop_active_def split: option.split)
  show "st_high_water (drop_queue q s) = st_high_water s" by (induction q s rule: drop_queue.induct) (simp_all add: d)
qed

lemmas pipe_ok_defs = pipe_ok_def stage_ok_def flow_ok_def in_hand_def errors_queued_def

lemma pipe_ok_init: "pipe_ok cap csize file (init_pipe file)"
  by (simp add: pipe_ok_defs init_pipe_def default_stage_def stage_counts_def reservations_def)

subsubsection \<open>Polling\<close>

lemma stage_ok_begin: "stage_ok cap csize s \<Longrightarrow> stage_ok cap csize (begin_poll s)"
  by (rule stage_ok_shrink)
    (auto simp: begin_poll_def reservations_def stage_ok_def intro: stage_counts_drop_active split: option.split)

lemma flow_ok_begin: "flow_ok file s \<Longrightarrow> flow_ok file (begin_poll s)"
  by (simp add: flow_ok_def begin_poll_def in_hand_def errors_queued_def)

text \<open>What \<open>poll_next\<close> does once the active reservation is gone.\<close>

lemma poll_data:
  assumes "p_queue s = Inr b # q" "p_active s = None"
  shows "stage_ok cap csize s \<Longrightarrow> stage_ok cap csize (s\<lparr>p_queue := q, p_active := Some (length b), p_sent := p_sent s @ b\<rparr>)"
    "flow_ok file s \<Longrightarrow> \<not> p_dropped s \<Longrightarrow> \<not> p_done s \<Longrightarrow>
      flow_ok file (s\<lparr>p_queue := q, p_active := Some (length b), p_sent := p_sent s @ b\<rparr>)"
  using assms by (auto simp: stage_ok_def reservations_def flow_ok_def in_hand_def errors_queued_def)

lemma poll_error:
  assumes "p_queue s = Inl e # q" "p_active s = None"
  shows "stage_ok cap csize s \<Longrightarrow> stage_ok cap csize (s\<lparr>p_queue := q, p_failed := True\<rparr>)"
    "flow_ok file s \<Longrightarrow> \<not> p_done s \<Longrightarrow> flow_ok file (s\<lparr>p_queue := q, p_failed := True\<rparr>)"
  using assms by (auto simp: stage_ok_def reservations_def flow_ok_def in_hand_def errors_queued_def)

lemma poll_end:
  assumes "p_queue s = []" "p_active s = None" "p_closed s"
  shows "stage_ok cap csize s \<Longrightarrow> stage_ok cap csize (s\<lparr>p_done := True\<rparr>)"
    "flow_ok file s \<Longrightarrow> \<not> p_dropped s \<Longrightarrow> \<not> p_failed s \<Longrightarrow> flow_ok file (s\<lparr>p_done := True\<rparr>)"
  using assms by (auto simp: stage_ok_def reservations_def flow_ok_def in_hand_def errors_queued_def)

lemma pipe_ok_poll:
  assumes ok: "pipe_ok cap csize file s" and live: "\<not> p_dropped s" "\<not> p_failed s" "\<not> p_done s"
  shows "pipe_ok cap csize file (poll_next s)"
proof -
  let ?s = "begin_poll s"
  have ok: "stage_ok cap csize ?s" "flow_ok file ?s"
    and live: "\<not> p_dropped ?s" "\<not> p_failed ?s" "p_active ?s = None" "\<not> p_done ?s"
    using ok live stage_ok_begin flow_ok_begin by (auto simp: pipe_ok_def begin_poll_def)
  consider (data) b q where "p_queue ?s = Inr b # q" | (err) e q where "p_queue ?s = Inl e # q" | (none) "p_queue ?s = []"
    by (metis list.exhaust sumE)
  then show ?thesis
  proof cases
    case data
    then show ?thesis using poll_data [OF data live(3)] ok live by (simp add: poll_next_def Let_def pipe_ok_def)
  next
    case err
    then show ?thesis using poll_error [OF err live(3)] ok live by (simp add: poll_next_def Let_def pipe_ok_def)
  next
    case none
    then show ?thesis using poll_end [OF none live(3)] ok live by (simp add: poll_next_def Let_def pipe_ok_def)
  qed
qed

lemma pipe_ok_abandon:
  assumes "pipe_ok cap csize file s"
  shows "pipe_ok cap csize file (abandon s)"
proof -
  have "stage_counts (map length (chunk_list (p_queue s)) @ (case p_active s of None \<Rightarrow> [] | Some n \<Rightarrow> [n])
      @ (case p_hand s of None \<Rightarrow> [] | Some b \<Rightarrow> [length b])) (p_stage s)"
    using assms by (simp add: pipe_ok_def stage_ok_def stage_counts_def reservations_def)
  then have "stage_counts (reservations (abandon s)) (p_stage (abandon s))"
    by (auto simp: abandon_def reservations_def dest!: stage_counts_drop_queue stage_counts_drop_active)
  moreover have "stage_ok cap csize s" using assms by (simp add: pipe_ok_def)
  moreover have "length (reservations (abandon s)) \<le> length (reservations s)"
    "set (reservations (abandon s)) \<subseteq> set (reservations s)"
    "st_high_water (p_stage (abandon s)) = st_high_water (p_stage s)"
    by (auto simp: abandon_def reservations_def)
  ultimately have "stage_ok cap csize (abandon s)" by (metis stage_ok_shrink)
  moreover have "flow_ok file (abandon s)"
    using assms by (simp add: pipe_ok_def flow_ok_def abandon_def in_hand_def errors_queued_def)
  ultimately show ?thesis by (simp add: pipe_ok_def)
qed

subsubsection \<open>Producing\<close>

lemma sum_list_bound: "\<forall>n \<in> set l. n \<le> c \<Longrightarrow> sum_list l \<le> length l * (c::nat)"
  by (induction l) auto


lemma stage_ok_return:
  assumes "stage_ok cap csize s"
  shows "stage_ok cap csize (producer_return s)"
proof (rule stage_ok_shrink [OF assms])
  have "stage_counts ((case p_hand s of None \<Rightarrow> [] | Some b \<Rightarrow> [length b])
      @ (case p_active s of None \<Rightarrow> [] | Some n \<Rightarrow> [n]) @ map length (chunk_list (p_queue s))) (p_stage s)"
    using assms by (simp add: stage_ok_def stage_counts_def reservations_def)
  then show "stage_counts (reservations (producer_return s)) (p_stage (producer_return s))"
    by (auto simp: producer_return_def reservations_def drop_active_def dest: stage_counts_drop(2) split: option.splits)
qed (auto simp: producer_return_def reservations_def)

lemma stage_ok_read:
  assumes ok: "stage_ok cap csize s" and r: "p_hand s = Some []" "n \<le> csize" "n \<le> length (p_left s)"
  shows "stage_ok cap csize (producer_read n s)"
proof -
  let ?t = "producer_read n s"
  obtain l where l: "reservations ?t = l @ [n]" "reservations s = l @ [0]"
    using r by (simp add: producer_read_def reservations_def)
  have counts: "stage_counts (reservations ?t) (p_stage ?t)"
    using ok unfolding l stage_ok_def by (simp add: stage_counts_def producer_read_def record_bytes_def)
  have bound: "\<forall>m \<in> set (reservations ?t). m \<le> csize" "length (reservations ?t) \<le> cap"
    using ok r(2) unfolding l stage_ok_def by auto
  have "st_bytes (p_stage ?t) \<le> length (reservations ?t) * csize"
    using counts sum_list_bound [OF bound(1)] by (simp add: stage_counts_def)
  also have "\<dots> \<le> cap * csize" using bound(2) by (rule mult_le_mono1)
  finally have "st_high_water (p_stage ?t) \<le> cap * csize"
    using ok by (simp add: producer_read_def record_bytes_def stage_ok_def)
  with counts bound show ?thesis by (simp add: stage_ok_def)
qed

lemma pipe_ok_step:
  assumes "pipe_step cap csize s t" "pipe_ok cap csize file s"
  shows "pipe_ok cap csize file t"
  using assms
proof (induction rule: pipe_step.induct)
  case (poll s)
  then show ?case by (intro pipe_ok_poll)
next
  case (drop_stream s)
  then show ?case by (intro pipe_ok_abandon)
next
  case (start s)
  then show ?case by (simp add: pipe_ok_defs reservations_def)
next
  case (reserves s)
  then show ?case
    by (auto simp: pipe_ok_defs producer_reserve_def reserve_def reservations_def stage_counts_def)
next
  case (reads s n)
  then have "flow_ok file (producer_read n s)"
    by (auto simp: pipe_ok_def flow_ok_def producer_read_def in_hand_def errors_queued_def)
  with reads stage_ok_read show ?case by (auto simp: pipe_ok_def)
next
  case (ends s)
  then have "flow_ok file (producer_return s)"
    by (auto simp: pipe_ok_def flow_ok_def producer_return_def in_hand_def errors_queued_def)
  with ends stage_ok_return show ?case by (auto simp: pipe_ok_def)
next
  case (fails s e)
  let ?u = "if p_dropped s then s else s\<lparr>p_queue := p_queue s @ [Inl e]\<rparr>"
  have "reservations ?u = reservations s" "p_stage ?u = p_stage s" by (simp_all add: reservations_def)
  then have "stage_ok cap csize ?u" using fails by (simp add: pipe_ok_def stage_ok_def)
  then have "stage_ok cap csize (producer_fail e s)" unfolding producer_fail_def by (rule stage_ok_return)
  moreover have "flow_ok file (producer_fail e s)"
    using fails
    by (cases "p_dropped s")
      (simp_all add: pipe_ok_def flow_ok_def producer_fail_def producer_return_def in_hand_def errors_queued_def)
  ultimately show ?case by (simp only: pipe_ok_def simp_thms)
next
  case (sends s b)
  then show ?case
    by (auto simp: pipe_ok_defs producer_send_def reservations_def stage_counts_def)
next
  case (unsent s b)
  then have "flow_ok file (producer_return s)"
    by (auto simp: pipe_ok_def flow_ok_def producer_return_def in_hand_def errors_queued_def)
  with unsent stage_ok_return show ?case by (auto simp: pipe_ok_def)
qed

lemma pipe_ok_run: "pipe_run cap csize s t \<Longrightarrow> pipe_ok cap csize file s \<Longrightarrow> pipe_ok cap csize file t"
  by (induction rule: rtranclp_induct) (auto intro: pipe_ok_step)


subsection \<open>It never stalls\<close>

definition pipe_finished :: "pipe \<Rightarrow> bool" where
  "pipe_finished s \<longleftrightarrow> p_closed s \<and> (p_done s \<or> p_failed s \<or> p_dropped s)"

lemma pipe_progress:
  assumes ok: "pipe_ok cap csize file s" and cap: "0 < cap" "0 < csize" and busy: "\<not> pipe_finished s"
  shows "\<exists>t. pipe_step cap csize s t"
proof (cases "p_closed s")
  case True
  then show ?thesis using busy pipe_step.poll [of s] by (auto simp: pipe_finished_def)
next
  case running: False
  then have flags: "\<not> p_failed s" "\<not> p_done s" "\<forall>x \<in> set (p_queue s). \<not> isl x" using ok by (auto simp: pipe_ok_def flow_ok_def errors_queued_def)
  have len: "length (chunk_list q) = length q" if "\<forall>x \<in> set q. \<not> isl x" for q :: "(io_error + bytes) list"
    using that by (induction q rule: chunk_list.induct) auto
  show ?thesis
  proof (cases "p_hand s")
    case (Some b)
    show ?thesis
    proof (cases "b = []")
      case True
      then show ?thesis
        using Some pipe_step.ends [of s cap csize] pipe_step.reads [of s 1 csize cap] cap(2)
        by (cases "p_left s") auto
    next
      case False
      have "Suc (length (p_queue s)) \<le> length (reservations s)"
        using Some len [OF flags(3)] by (simp add: reservations_def split: option.split)
      then have "length (p_queue s) < cap" using ok by (simp add: pipe_ok_def stage_ok_def)
      then show ?thesis using Some False pipe_step.sends [of s b cap csize] pipe_step.unsent [of s b cap csize] by blast
    qed
  next
    case None
    show ?thesis
    proof (cases "p_started s")
      case started: True
      show ?thesis
      proof (cases "st_chunks (p_stage s) < cap")
        case True
        then show ?thesis using pipe_step.reserves [of s cap csize] None running started by blast
      next
        case False
        then have "reservations s \<noteq> []" using ok cap(1) by (auto simp: pipe_ok_def stage_ok_def stage_counts_def)
        then have "p_active s \<noteq> None \<or> p_queue s \<noteq> []"
          using None by (auto simp: reservations_def split: option.splits)
        moreover from this have "\<not> p_dropped s" using ok by (auto simp: pipe_ok_def flow_ok_def errors_queued_def)
        ultimately show ?thesis using pipe_step.poll [of s cap csize] flags by blast
      qed
    qed (use pipe_step.start in blast)
  qed
qed

text \<open>What is left to do, counted so that every step makes it smaller.\<close>

definition pipe_measure :: "pipe \<Rightarrow> nat" where
  "pipe_measure s =
     10 * length (p_left s)
     + (if p_closed s then 0 else case p_hand s of None \<Rightarrow> 3 | Some b \<Rightarrow> if b = [] then 2 else 8)
     + sum_list (map (\<lambda>x. case x of Inl _ \<Rightarrow> 1 | Inr _ \<Rightarrow> 4) (p_queue s))
     + (if p_active s = None then 0 else 1) + (if p_started s then 0 else 1) + (if p_done s then 0 else 1)
     + (if p_failed s then 0 else 1) + (if p_dropped s then 0 else 1)"

lemma pipe_step_decreases:
  assumes "pipe_step cap csize s t" "pipe_ok cap csize file s"
  shows "pipe_measure t < pipe_measure s"
  using assms
proof (induction rule: pipe_step.induct)
  case (poll s)
  then show ?case
    by (cases "p_queue s"; cases "hd (p_queue s)") (auto simp: poll_next_def begin_poll_def Let_def pipe_measure_def)
next
  case (reads s n)
  then show ?case by (cases "p_left s") (auto simp: producer_read_def pipe_measure_def pipe_ok_def flow_ok_def)
next
  case (fails s e)
  then show ?case by (auto simp: producer_fail_def producer_return_def pipe_measure_def pipe_ok_def flow_ok_def)
qed (auto simp: pipe_defs pipe_measure_def pipe_ok_def flow_ok_def)


text \<open>A run that reads one chunk and takes it.\<close>

lemma sample_run: "pipe_run 2 4 (init_pipe ''ab'')
  (poll_next (producer_send (producer_read 2 (producer_reserve ((init_pipe ''ab'')\<lparr>p_started := True\<rparr>)))))"
proof -
  let ?a = "(init_pipe ''ab'')\<lparr>p_started := True\<rparr>" and ?b = "producer_reserve ((init_pipe ''ab'')\<lparr>p_started := True\<rparr>)"
  have "pipe_step 2 4 (init_pipe ''ab'') ?a" by (rule pipe_step.start) (simp add: init_pipe_def)
  moreover have "pipe_step 2 4 ?a ?b"
    by (rule pipe_step.reserves) (simp_all add: init_pipe_def default_stage_def)
  moreover have "pipe_step 2 4 ?b (producer_read 2 ?b)"
    by (rule pipe_step.reads) (simp_all add: init_pipe_def producer_reserve_def)
  moreover have "pipe_step 2 4 (producer_read 2 ?b) (producer_send (producer_read 2 ?b))"
    by (rule pipe_step.sends [of _ "''ab''"]) (simp_all add: init_pipe_def pipe_defs)
  moreover have "pipe_step 2 4 (producer_send (producer_read 2 ?b)) (poll_next (producer_send (producer_read 2 ?b)))"
    by (rule pipe_step.poll) (simp_all add: init_pipe_def pipe_defs)
  ultimately show ?thesis by (meson rtranclp.rtrancl_into_rtrancl rtranclp.rtrancl_refl)
qed



end
