(* ===== verification/Fence.thy ===== *)
theory Fence
  imports Prelude
begin

text \<open>
  The retention fence (\<open>src/sync.rs\<close>, \<open>RetentionFence\<close>): an asynchronous mutex around
  \<open>accepting\<close> and a semaphore of one permit. A deleter takes the mutex, looks at \<open>accepting\<close> and
  waits for the permit while it holds the mutex; \<open>close_and_drain\<close> takes the mutex, refuses what
  comes later and waits for the permit. Each suspension point is a step, and a future may be
  dropped while it waits.
\<close>

datatype deleter = FIdle | FLocked | FRunning | FRefused | FFinished

datatype closer = CIdle | CDraining | CClosed

datatype holder = Deleter nat | Closer

record RetentionFence =
  fe_accepting :: bool
  fe_lock :: "holder option"
  fe_permit :: "nat option"
  fe_deleters :: "deleter list"
  fe_closer :: closer

definition new_fence :: "nat \<Rightarrow> RetentionFence" where
  "new_fence n = \<lparr>fe_accepting = True, fe_lock = None, fe_permit = None, fe_deleters = replicate n FIdle,
     fe_closer = CIdle\<rparr>"

definition set_deleter :: "nat \<Rightarrow> deleter \<Rightarrow> RetentionFence \<Rightarrow> RetentionFence" where
  "set_deleter i d f = f\<lparr>fe_deleters := (fe_deleters f)[i := d]\<rparr>"

definition deleter_at :: "RetentionFence \<Rightarrow> nat \<Rightarrow> deleter option" where
  "deleter_at f i = (if i < length (fe_deleters f) then Some (fe_deleters f ! i) else None)"

inductive fence_step :: "RetentionFence \<Rightarrow> RetentionFence \<Rightarrow> bool" where
  begin_lock:
    "\<lbrakk> deleter_at f i = Some FIdle; fe_lock f = None \<rbrakk>
     \<Longrightarrow> fence_step f (set_deleter i FLocked f\<lparr>fe_lock := Some (Deleter i)\<rparr>)"
| begin_refused:
    "\<lbrakk> deleter_at f i = Some FLocked; \<not> fe_accepting f \<rbrakk>
     \<Longrightarrow> fence_step f (set_deleter i FRefused f\<lparr>fe_lock := None\<rparr>)"
| begin_permit:
    "\<lbrakk> deleter_at f i = Some FLocked; fe_accepting f; fe_permit f = None \<rbrakk>
     \<Longrightarrow> fence_step f (set_deleter i FRunning f\<lparr>fe_lock := None, fe_permit := Some i\<rparr>)"
| begin_dropped:
    "deleter_at f i = Some FLocked \<Longrightarrow> fence_step f (set_deleter i FIdle f\<lparr>fe_lock := None\<rparr>)"
| finished:
    "deleter_at f i = Some FRunning \<Longrightarrow> fence_step f (set_deleter i FFinished f\<lparr>fe_permit := None\<rparr>)"
| close_lock:
    "\<lbrakk> fe_closer f = CIdle; fe_lock f = None \<rbrakk>
     \<Longrightarrow> fence_step f (f\<lparr>fe_closer := CDraining, fe_accepting := False, fe_lock := Some Closer\<rparr>)"
| close_drained:
    "\<lbrakk> fe_closer f = CDraining; fe_permit f = None \<rbrakk>
     \<Longrightarrow> fence_step f (f\<lparr>fe_closer := CClosed, fe_lock := None\<rparr>)"
| close_dropped:
    "fe_closer f = CDraining \<Longrightarrow> fence_step f (f\<lparr>fe_closer := CIdle, fe_lock := None\<rparr>)"

definition fence_reach :: "nat \<Rightarrow> RetentionFence \<Rightarrow> bool" where
  "fence_reach n f \<longleftrightarrow> fence_step\<^sup>*\<^sup>* (new_fence n) f"

text \<open>Who holds the mutex and the permit, and what closing has established.\<close>

definition fence_ok :: "RetentionFence \<Rightarrow> bool" where
  "fence_ok f \<longleftrightarrow>
     (\<forall>i. deleter_at f i = Some FLocked \<longleftrightarrow> fe_lock f = Some (Deleter i))
     \<and> (\<forall>i. deleter_at f i = Some FRunning \<longleftrightarrow> fe_permit f = Some i)
     \<and> (fe_closer f = CDraining \<longrightarrow> fe_lock f = Some Closer)
     \<and> (fe_accepting f \<longrightarrow> fe_closer f = CIdle)
     \<and> (fe_closer f = CClosed \<longrightarrow> fe_permit f = None)"

lemma deleter_at_simps [simp]:
  "deleter_at (set_deleter i d f) j = (if j = i \<and> i < length (fe_deleters f) then Some d else deleter_at f j)"
  "deleter_at (f\<lparr>fe_lock := l\<rparr>) = deleter_at f" "deleter_at (f\<lparr>fe_permit := p\<rparr>) = deleter_at f"
  "deleter_at (f\<lparr>fe_closer := c\<rparr>) = deleter_at f" "deleter_at (f\<lparr>fe_accepting := a\<rparr>) = deleter_at f"
  by (auto simp: deleter_at_def set_deleter_def fun_eq_iff)

lemma set_deleter_simps [simp]:
  "fe_accepting (set_deleter i d f) = fe_accepting f" "fe_lock (set_deleter i d f) = fe_lock f"
  "fe_permit (set_deleter i d f) = fe_permit f" "fe_closer (set_deleter i d f) = fe_closer f"
  by (simp_all add: set_deleter_def)

lemma deleter_at_length: "deleter_at f i = Some d \<Longrightarrow> i < length (fe_deleters f)"
  by (simp add: deleter_at_def split: if_splits)

lemma fence_okD:
  assumes "fence_ok f"
  shows "deleter_at f i = Some FLocked \<longleftrightarrow> fe_lock f = Some (Deleter i)"
    "deleter_at f i = Some FRunning \<longleftrightarrow> fe_permit f = Some i"
    "fe_closer f = CDraining \<Longrightarrow> fe_lock f = Some Closer" "fe_accepting f \<Longrightarrow> fe_closer f = CIdle"
    "fe_closer f = CClosed \<Longrightarrow> fe_permit f = None"
  using assms by (auto simp: fence_ok_def)

lemma fence_ok_step:
  assumes "fence_step f g" "fence_ok f"
  shows "fence_ok g"
  using assms
proof (induction rule: fence_step.induct)
  case (begin_lock f i)
  note ok = fence_okD [OF begin_lock(3)] and len = deleter_at_length [OF begin_lock(1)]
  have "fe_permit f \<noteq> Some i" using ok(2) [of i] begin_lock(1) by simp
  then show ?case using begin_lock(1,2) ok len by (auto simp: fence_ok_def)
next
  case (begin_refused f i)
  note ok = fence_okD [OF begin_refused(3)] and len = deleter_at_length [OF begin_refused(1)]
  have "fe_permit f \<noteq> Some i" using ok(2) [of i] begin_refused(1) by simp
  then show ?case using begin_refused(1,2) ok len by (auto simp: fence_ok_def)
next
  case (begin_permit f i)
  note ok = fence_okD [OF begin_permit(4)] and len = deleter_at_length [OF begin_permit(1)]
  have "fe_permit f \<noteq> Some i" using ok(2) [of i] begin_permit(1) by simp
  then show ?case using begin_permit(1-3) ok len by (auto simp: fence_ok_def)
next
  case (begin_dropped f i)
  note ok = fence_okD [OF begin_dropped(2)] and len = deleter_at_length [OF begin_dropped(1)]
  have "fe_permit f \<noteq> Some i" using ok(2) [of i] begin_dropped(1) by simp
  then show ?case using begin_dropped(1) ok len by (auto simp: fence_ok_def)
next
  case (finished f i)
  note ok = fence_okD [OF finished(2)] and len = deleter_at_length [OF finished(1)]
  have "fe_lock f \<noteq> Some (Deleter i)" using ok(1) [of i] finished(1) by simp
  then show ?case using finished(1) ok len by (auto simp: fence_ok_def)
next
  case (close_lock f)
  note ok = fence_okD [OF close_lock(3)]
  show ?case using close_lock(1,2) ok by (auto simp: fence_ok_def)
next
  case (close_drained f)
  note ok = fence_okD [OF close_drained(3)]
  show ?case using close_drained(1,2) ok by (auto simp: fence_ok_def)
next
  case (close_dropped f)
  note ok = fence_okD [OF close_dropped(2)]
  show ?case using close_dropped(1) ok by (auto simp: fence_ok_def)
qed

lemma fence_ok_reach: "fence_reach n f \<Longrightarrow> fence_ok f"
  unfolding fence_reach_def
proof (induction rule: rtranclp_induct)
  case base
  show ?case by (auto simp: fence_ok_def new_fence_def deleter_at_def)
next
  case (step f g)
  then show ?case using fence_ok_step by blast
qed

text \<open>
  C31. The fence holds: at every moment at most one deletion runs, the one with the permit, and
  once \<open>close_and_drain\<close> has returned none is running, in whatever order its callers are
  scheduled or dropped; being closed is final.
\<close>

theorem closed_fence_stops_deletions:
  assumes "fence_reach n f"
  shows "(deleter_at f i = Some FRunning \<longleftrightarrow> fe_permit f = Some i)
    \<and> (fe_closer f = CClosed \<longrightarrow> FRunning \<notin> set (fe_deleters f) \<and> \<not> fe_accepting f
         \<and> (\<forall>g. fence_step f g \<longrightarrow> fe_closer g = CClosed))"
proof -
  note ok = fence_okD [OF fence_ok_reach [OF assms]]
  have none: "FRunning \<notin> set (fe_deleters f)" if "fe_closer f = CClosed"
  proof
    assume "FRunning \<in> set (fe_deleters f)"
    then obtain j where "j < length (fe_deleters f)" "fe_deleters f ! j = FRunning" by (auto simp: in_set_conv_nth)
    then have "deleter_at f j = Some FRunning" by (simp add: deleter_at_def)
    with ok(2,5) that show False by simp
  qed
  have final: "fe_closer g = CClosed" if "fe_closer f = CClosed" "fence_step f g" for g
    using that(2,1) by cases auto
  show ?thesis using ok(2,4) none final by auto
qed

text \<open>A fence closed while one deleter waits: the deleter is refused.\<close>

definition drained_fence :: RetentionFence where
  "drained_fence = \<lparr>fe_accepting = False, fe_lock = None, fe_permit = None, fe_deleters = [FFinished, FIdle],
     fe_closer = CClosed\<rparr>"

lemma drained_reach: "fence_reach 2 drained_fence"
proof -
  let ?f = "\<lambda>a l p ds c. \<lparr>fe_accepting = a, fe_lock = l, fe_permit = p, fe_deleters = ds, fe_closer = c\<rparr>"
  have 1: "fence_step (?f True None None [FIdle, FIdle] CIdle) (?f True (Some (Deleter 0)) None [FLocked, FIdle] CIdle)"
    using begin_lock [of "?f True None None [FIdle, FIdle] CIdle" 0] by (simp add: deleter_at_def set_deleter_def)
  have 2: "fence_step (?f True (Some (Deleter 0)) None [FLocked, FIdle] CIdle) (?f True None (Some 0) [FRunning, FIdle] CIdle)"
    using begin_permit [of "?f True (Some (Deleter 0)) None [FLocked, FIdle] CIdle" 0] by (simp add: deleter_at_def set_deleter_def)
  have 3: "fence_step (?f True None (Some 0) [FRunning, FIdle] CIdle) (?f False (Some Closer) (Some 0) [FRunning, FIdle] CDraining)"
    using close_lock [of "?f True None (Some 0) [FRunning, FIdle] CIdle"] by simp
  have 4: "fence_step (?f False (Some Closer) (Some 0) [FRunning, FIdle] CDraining) (?f False (Some Closer) None [FFinished, FIdle] CDraining)"
    using finished [of "?f False (Some Closer) (Some 0) [FRunning, FIdle] CDraining" 0] by (simp add: deleter_at_def set_deleter_def)
  have 5: "fence_step (?f False (Some Closer) None [FFinished, FIdle] CDraining) drained_fence"
    using close_drained [of "?f False (Some Closer) None [FFinished, FIdle] CDraining"] by (simp add: drained_fence_def)
  have "new_fence 2 = ?f True None None [FIdle, FIdle] CIdle" by (simp add: new_fence_def numeral_2_eq_2)
  with 1 2 3 4 5 show ?thesis
    unfolding fence_reach_def by (metis (no_types, lifting) converse_rtranclp_into_rtranclp rtranclp.rtrancl_refl)
qed

theorem closed_fence_stops_deletions_witness:
  "FRunning \<notin> set (fe_deleters drained_fence) \<and> \<not> fe_accepting drained_fence"
  using closed_fence_stops_deletions [OF drained_reach] by (simp add: drained_fence_def)

end
