(* ===== verification/Wake.thy ===== *)
theory Wake
  imports Segment
begin

text \<open>
  The wake-up between the observer and the sync loop (\<open>src/sync.rs\<close>, \<open>SyncWake\<close>): a flag and a
  \<open>Notify\<close>. Closing a segment stores the flag and then notifies; \<open>wait\<close> takes the flag and, where
  it was clear, awaits the \<open>Notify\<close> and looks again. Each atomic access is a step, the closing
  observers and the waiting loop interleave freely, and a waiting future may be dropped at any
  suspension point. The \<open>Notify\<close> is tokio's: \<open>signal\<close> is \<open>notify_one\<close>, \<open>ready\<close> says that an
  awaited \<open>notified()\<close> completes, \<open>consume\<close> is what completing does to it.
\<close>

datatype notifier = NIdle SegmentClose | NStored | NDone

datatype waiter = WIdle | WLooking | WParked | WReturned

record 'n SyncWake =
  wk_pending :: bool
  wk_notify :: 'n
  wk_notifiers :: "notifier list"
  wk_waiter :: waiter

definition new_wake :: "'n \<Rightarrow> SegmentClose list \<Rightarrow> 'n SyncWake" where
  "new_wake fresh closes = \<lparr>wk_pending = False, wk_notify = fresh, wk_notifiers = map NIdle closes, wk_waiter = WIdle\<rparr>"

fun is_finalized :: "SegmentClose \<Rightarrow> bool" where
  "is_finalized (Finalized p) \<longleftrightarrow> True"
| "is_finalized RemovedEmpty \<longleftrightarrow> False"

text \<open>\<open>segment_closed\<close>, one atomic access at a time\<close>

fun close_turn :: "('n \<Rightarrow> 'n) \<Rightarrow> nat \<Rightarrow> 'n SyncWake \<Rightarrow> 'n SyncWake option" where
  "close_turn signal i k =
     (if length (wk_notifiers k) \<le> i then None
      else case wk_notifiers k ! i of
        NIdle close \<Rightarrow>
          if is_finalized close then Some (k\<lparr>wk_pending := True, wk_notifiers := (wk_notifiers k)[i := NStored]\<rparr>)
          else Some (k\<lparr>wk_notifiers := (wk_notifiers k)[i := NDone]\<rparr>)
      | NStored \<Rightarrow> Some (k\<lparr>wk_notify := signal (wk_notify k), wk_notifiers := (wk_notifiers k)[i := NDone]\<rparr>)
      | NDone \<Rightarrow> None)"

text \<open>\<open>wait\<close>: the next access of the loop, \<open>None\<close> where it is suspended or has returned\<close>

fun wait_turn :: "('n \<Rightarrow> bool) \<Rightarrow> ('n \<Rightarrow> 'n) \<Rightarrow> 'n SyncWake \<Rightarrow> 'n SyncWake option" where
  "wait_turn ready consume k =
     (case wk_waiter k of
        WLooking \<Rightarrow>
          if wk_pending k then Some (k\<lparr>wk_pending := False, wk_waiter := WReturned\<rparr>)
          else Some (k\<lparr>wk_waiter := WParked\<rparr>)
      | WParked \<Rightarrow>
          if ready (wk_notify k) then Some (k\<lparr>wk_notify := consume (wk_notify k), wk_waiter := WLooking\<rparr>)
          else None
      | _ \<Rightarrow> None)"

text \<open>\<open>take_pending\<close>\<close>

definition take_pending :: "'n SyncWake \<Rightarrow> bool \<times> 'n SyncWake" where
  "take_pending k = (wk_pending k, k\<lparr>wk_pending := False\<rparr>)"

inductive wake_step ::
  "('n \<Rightarrow> 'n) \<Rightarrow> ('n \<Rightarrow> bool) \<Rightarrow> ('n \<Rightarrow> 'n) \<Rightarrow> 'n SyncWake \<Rightarrow> 'n SyncWake \<Rightarrow> bool"
  for signal ready consume where
  observer: "close_turn signal i k = Some k' \<Longrightarrow> wake_step signal ready consume k k'"
| waits: "wk_waiter k \<in> {WIdle, WReturned} \<Longrightarrow> wake_step signal ready consume k (k\<lparr>wk_waiter := WLooking\<rparr>)"
| turns: "wait_turn ready consume k = Some k' \<Longrightarrow> wake_step signal ready consume k k'"
| dropped: "wake_step signal ready consume k (k\<lparr>wk_waiter := WIdle\<rparr>)"
| takes: "wk_waiter k \<in> {WIdle, WReturned} \<Longrightarrow> wake_step signal ready consume k (snd (take_pending k))"

definition wake_reach ::
  "('n \<Rightarrow> 'n) \<Rightarrow> ('n \<Rightarrow> bool) \<Rightarrow> ('n \<Rightarrow> 'n) \<Rightarrow> 'n \<Rightarrow> SegmentClose list \<Rightarrow> 'n SyncWake \<Rightarrow> bool" where
  "wake_reach signal ready consume fresh closes k \<longleftrightarrow>
     (wake_step signal ready consume)\<^sup>*\<^sup>* (new_wake fresh closes) k"

text \<open>The waiting loop run by itself, for a number of its turns.\<close>

fun wait_alone :: "nat \<Rightarrow> ('n \<Rightarrow> bool) \<Rightarrow> ('n \<Rightarrow> 'n) \<Rightarrow> 'n SyncWake \<Rightarrow> 'n SyncWake" where
  "wait_alone 0 ready consume k = k"
| "wait_alone (Suc n) ready consume k =
     (case wait_turn ready consume k of None \<Rightarrow> k | Some k' \<Rightarrow> wait_alone n ready consume k')"

text \<open>A parked waiter with the flag set has a notification coming or already there.\<close>

definition wake_ok :: "('n \<Rightarrow> bool) \<Rightarrow> 'n SyncWake \<Rightarrow> bool" where
  "wake_ok ready k \<longleftrightarrow>
     (wk_waiter k = WParked \<and> wk_pending k \<longrightarrow> ready (wk_notify k) \<or> NStored \<in> set (wk_notifiers k))"

lemma stored_stays:
  assumes "NStored \<in> set ns" "i < length ns" "ns ! i \<noteq> NStored"
  shows "NStored \<in> set (ns[i := n])"
proof -
  from assms(1) obtain j where j: "j < length ns" "ns ! j = NStored" by (auto simp: in_set_conv_nth)
  with assms(3) have "i \<noteq> j" by auto
  with j have "j < length (ns[i := n])" "ns[i := n] ! j = NStored" by simp_all
  then show ?thesis by (metis nth_mem)
qed

lemma wake_ok_step:
  assumes "wake_step signal ready consume k k'" "\<And>n. ready (signal n)" "wake_ok ready k"
  shows "wake_ok ready k'"
  using assms(1)
proof cases
  case (observer i)
  then have len: "i < length (wk_notifiers k)" by (simp split: if_splits)
  show ?thesis
  proof (cases "wk_notifiers k ! i")
    case (NIdle c)
    with observer len assms(3) show ?thesis
      by (auto simp: wake_ok_def set_update_memI stored_stays split: if_splits)
  next
    case NStored
    with observer len assms(2) show ?thesis by (auto simp: wake_ok_def)
  next
    case NDone
    with observer len show ?thesis by simp
  qed
next
  case turns
  then show ?thesis by (auto simp: wake_ok_def split: waiter.splits if_splits)
qed (auto simp: wake_ok_def take_pending_def)

lemma wake_ok_reach:
  assumes "\<And>n. ready (signal n)" "wake_reach signal ready consume fresh closes k"
  shows "wake_ok ready k"
  using assms(2) unfolding wake_reach_def
proof (induction rule: rtranclp_induct)
  case base
  show ?case by (simp add: wake_ok_def new_wake_def)
next
  case (step k k')
  then show ?case using wake_ok_step assms(1) by blast
qed

text \<open>
  C36. No closed segment is missed: in whatever order observers closing segments, the waiting
  loop, dropped waits and \<open>take_pending\<close> interleave, if the flag is set and no observer stands
  between storing it and notifying, then a loop inside \<open>wait\<close> returns by its own next steps,
  two at most, and takes the flag. All it needs of \<open>Notify\<close> is that a notification given to it
  completes the next await.
\<close>

theorem closed_segment_wakes_the_loop:
  assumes notify: "\<And>n. ready (signal n)"
    and reach: "wake_reach signal ready consume fresh closes k"
    and waiting: "wk_pending k" "NStored \<notin> set (wk_notifiers k)" "wk_waiter k \<in> {WLooking, WParked}"
  shows "wk_waiter (wait_alone 2 ready consume k) = WReturned \<and> \<not> wk_pending (wait_alone 2 ready consume k)"
proof (cases "wk_waiter k = WLooking")
  case True
  with waiting(1) show ?thesis by (simp add: numeral_2_eq_2)
next
  case False
  with waiting(3) have parked: "wk_waiter k = WParked" by simp
  have "wake_ok ready k" using notify reach by (rule wake_ok_reach)
  with parked waiting(1,2) have "ready (wk_notify k)" by (simp add: wake_ok_def)
  with parked waiting(1) show ?thesis by (simp add: numeral_2_eq_2)
qed

text \<open>A loop that parks before the segment closes, with \<open>Notify\<close> as one stored permit.\<close>

definition parked_wake :: "bool SyncWake" where
  "parked_wake = \<lparr>wk_pending = True, wk_notify = True, wk_notifiers = [NDone], wk_waiter = WParked\<rparr>"

lemma parked_wake_reach:
  "wake_reach (\<lambda>_. True) (\<lambda>n. n) (\<lambda>_. False) False [Finalized []] parked_wake"
proof -
  let ?k = "\<lambda>p n c w. \<lparr>wk_pending = p, wk_notify = n, wk_notifiers = [c], wk_waiter = w\<rparr>"
  let ?S = "wake_step (\<lambda>_. True) (\<lambda>n. n) (\<lambda>_. False)"
  let ?i = "NIdle (Finalized [])"
  have 1: "?S (?k False False ?i WIdle) (?k False False ?i WLooking)"
    using waits [where k = "?k False False ?i WIdle"] by simp
  have 2: "?S (?k False False ?i WLooking) (?k False False ?i WParked)"
    by (rule turns) simp
  have 3: "?S (?k False False ?i WParked) (?k True False NStored WParked)"
    by (rule observer [where i = 0]) simp
  have 4: "?S (?k True False NStored WParked) parked_wake"
    by (rule observer [where i = 0]) (simp add: parked_wake_def)
  have "new_wake False [Finalized []] = ?k False False ?i WIdle" by (simp add: new_wake_def)
  with 1 2 3 4 show ?thesis
    unfolding wake_reach_def by (metis (no_types, lifting) converse_rtranclp_into_rtranclp rtranclp.rtrancl_refl)
qed

theorem closed_segment_wakes_the_loop_witness:
  "wk_waiter (wait_alone 2 (\<lambda>n. n) (\<lambda>_. False) parked_wake) = WReturned"
  using closed_segment_wakes_the_loop [OF _ parked_wake_reach] by (simp add: parked_wake_def)

end
