(* ===== verification/Foreground.thy ===== *)
theory Foreground
  imports Text
begin

text \<open>
  The program in the foreground of a pane (\<open>src/foreground.rs\<close>): the process group a terminal
  names in \<open>/proc/<pid>/stat\<close>, the link to its executable and the base name of the link's target.
  What the kernel answers is a parameter.
\<close>

datatype ExeFailure = ExeUnavailable | ExeUnsupported

text \<open>\<open>Path::file_name\<close>: the last component, unless it is \<open>..\<close>\<close>

definition path_file_name :: "bytes \<Rightarrow> bytes option" where
  "path_file_name p =
     (case rev (filter (\<lambda>c. c \<noteq> [] \<and> c \<noteq> ''.'') (split_on (CHR ''/'') p)) of
        [] \<Rightarrow> None
      | c # _ \<Rightarrow> if c = ''..'' then None else Some c)"

definition exe_basename :: "bytes \<Rightarrow> ExeFailure + string" where
  "exe_basename p =
     (case path_file_name p of
        None \<Rightarrow> Inl ExeUnavailable
      | Some name \<Rightarrow>
          if \<not> valid_utf8 name then Inl ExeUnavailable
          else if name = [] then Inl ExeUnavailable
          else Inr name)"

definition linux_exe_link :: "nat \<Rightarrow> string" where
  "linux_exe_link pgrp = ''/proc/'' @ dec_of_nat pgrp @ ''/exe''"

definition is_ascii_whitespace :: "char \<Rightarrow> bool" where
  [byte_simps]: "is_ascii_whitespace c \<longleftrightarrow> byte c \<in> {32, 9, 10, 12, 13}"

text \<open>\<open>split(u8::is_ascii_whitespace)\<close> without its empty fields\<close>

fun ws_fields :: "bytes \<Rightarrow> bytes list" where
  "ws_fields [] = []"
| "ws_fields (c # cs) =
     (if is_ascii_whitespace c then ws_fields cs
      else (case cs of
         [] \<Rightarrow> [[c]]
       | d # _ \<Rightarrow>
           if is_ascii_whitespace d then [c] # ws_fields cs
           else (case ws_fields cs of [] \<Rightarrow> [[c]] | f # fs \<Rightarrow> (c # f) # fs)))"

definition linux_foreground_pgrp :: "bytes \<Rightarrow> ExeFailure + nat" where
  "linux_foreground_pgrp stat =
     (case rsplit_once (CHR '')'') stat of
        None \<Rightarrow> Inl ExeUnavailable
      | Some (_, tail) \<Rightarrow>
          (case drop 5 (ws_fields tail) of
             [] \<Rightarrow> Inl ExeUnavailable
           | tpgid # _ \<Rightarrow>
               if \<not> valid_utf8 tpgid then Inl ExeUnavailable
               else (case parse_i64 tpgid of
                  None \<Rightarrow> Inl ExeUnavailable
                | Some n \<Rightarrow>
                    if n \<le> 0 then Inl ExeUnavailable
                    else if int u32_max < n then Inl ExeUnavailable
                    else Inr (nat n))))"

definition linux_exe_path_for_stat :: "bytes \<Rightarrow> ExeFailure + string" where
  "linux_exe_path_for_stat stat =
     (case linux_foreground_pgrp stat of Inl e \<Rightarrow> Inl e | Inr pgrp \<Rightarrow> Inr (linux_exe_link pgrp))"

definition macos_foreground_pid :: "nat \<Rightarrow> ExeFailure + int" where
  "macos_foreground_pid e_tpgid =
     (if 2147483647 < e_tpgid then Inl ExeUnavailable
      else if e_tpgid = 0 then Inl ExeUnavailable
      else Inr (int e_tpgid))"

text \<open>An \<open>io::Error\<close> as far as it is looked at: its kind and the code of the system.\<close>

datatype failure_kind = PermissionDenied | KindNotFound | KindUnsupported | KindOther

record os_failure =
  of_kind :: failure_kind
  of_code :: "int option"

text \<open>\<open>errnos\<close>: the platform's \<open>ENOTSUP\<close>, \<open>ENOSYS\<close> and \<open>EOPNOTSUPP\<close>\<close>

definition map_io_error :: "int list \<Rightarrow> os_failure \<Rightarrow> ExeFailure" where
  "map_io_error errnos e =
     (if of_kind e = PermissionDenied \<or> of_kind e = KindNotFound then ExeUnavailable
      else case of_code e of
        Some code \<Rightarrow> if code \<in> set errnos then ExeUnsupported else ExeUnavailable
      | None \<Rightarrow> if of_kind e = KindUnsupported then ExeUnsupported else ExeUnavailable)"

text \<open>\<open>blocking_basename\<close> on Linux: \<open>read_file\<close> and \<open>readlink\<close> are the kernel's answers.\<close>

definition blocking_basename ::
  "int list \<Rightarrow> (string \<Rightarrow> os_failure + bytes) \<Rightarrow> (string \<Rightarrow> os_failure + bytes) \<Rightarrow> nat \<Rightarrow> ExeFailure + string" where
  "blocking_basename errnos read_file readlink pane_pid =
     (case read_file (''/proc/'' @ dec_of_nat pane_pid @ ''/stat'') of
        Inl e \<Rightarrow> Inl (map_io_error errnos e)
      | Inr stat \<Rightarrow>
          (case linux_exe_path_for_stat stat of
             Inl e \<Rightarrow> Inl e
           | Inr p \<Rightarrow>
               (case readlink p of
                  Inl e \<Rightarrow> Inl (map_io_error errnos e)
                | Inr target \<Rightarrow> exe_basename target)))"

definition blocking_basename_macos ::
  "(int \<Rightarrow> nat option) \<Rightarrow> (int \<Rightarrow> bytes option) \<Rightarrow> nat \<Rightarrow> ExeFailure + string" where
  "blocking_basename_macos pidinfo pidpath pane_pid =
     (if 2147483647 < pane_pid then Inl ExeUnavailable
      else case pidinfo (int pane_pid) of
        None \<Rightarrow> Inl ExeUnavailable
      | Some e_tpgid \<Rightarrow>
          (case macos_foreground_pid e_tpgid of
             Inl e \<Rightarrow> Inl e
           | Inr pid \<Rightarrow> (case pidpath pid of None \<Rightarrow> Inl ExeUnavailable | Some p \<Rightarrow> exe_basename p)))"

subsection \<open>The process group of a stat line\<close>

text \<open>The line the kernel writes, up to the terminal's process group.\<close>

definition stat_line :: "nat \<Rightarrow> bytes \<Rightarrow> char \<Rightarrow> nat list \<Rightarrow> nat \<Rightarrow> bytes \<Rightarrow> bytes" where
  "stat_line pid comm state ids tpgid tail =
     dec_of_nat pid @ '' ('' @ comm @ '') '' @ [state] @ concat (map (\<lambda>n. CHR '' '' # dec_of_nat n) (ids @ [tpgid])) @ '' '' @ tail"

lemma rsplit_once_absent: "c \<notin> set b \<Longrightarrow> rsplit_once c b = None"
  by (induction b) auto

lemma rsplit_once_append: "c \<notin> set b \<Longrightarrow> rsplit_once c (a @ c # b) = Some (a, b)"
  by (induction a) (auto simp: rsplit_once_absent)

lemma fields_word:
  assumes "w \<noteq> []" "list_all (\<lambda>c. \<not> is_ascii_whitespace c) w"
  shows "ws_fields (w @ CHR '' '' # rest) = w # ws_fields rest"
  using assms
proof (induction w)
  case (Cons c w)
  then show ?case by (cases w) (auto simp: is_ascii_whitespace_def)
qed simp

lemma dec_words: "list_all (\<lambda>c. \<not> is_ascii_whitespace c) (dec_of_nat n)"
  using dec_of_nat_digit by (fastforce simp: list_all_iff byte_simps)

lemma fields_words:
  assumes "w \<noteq> []" "list_all (\<lambda>c. \<not> is_ascii_whitespace c) w"
  shows "ws_fields (w @ concat (map (\<lambda>n. CHR '' '' # dec_of_nat n) ns) @ CHR '' '' # rest) = w # map dec_of_nat ns @ ws_fields rest"
  using assms
proof (induction ns arbitrary: w)
  case (Cons n ns)
  have "ws_fields (w @ CHR '' '' # (dec_of_nat n @ concat (map (\<lambda>n. CHR '' '' # dec_of_nat n) ns) @ CHR '' '' # rest))
      = w # ws_fields (dec_of_nat n @ concat (map (\<lambda>n. CHR '' '' # dec_of_nat n) ns) @ CHR '' '' # rest)"
    using Cons.prems by (rule fields_word)
  also have "\<dots> = w # dec_of_nat n # map dec_of_nat ns @ ws_fields rest"
    using Cons.IH [of "dec_of_nat n"] by (simp add: dec_words)
  finally show ?case by simp
qed (simp add: fields_word)

lemma digits_ascii: "list_all is_digit s \<Longrightarrow> list_all (\<lambda>c. byte c < 128) s"
  by (auto simp: list_all_iff byte_simps)

lemma parse_i64_dec: "int n \<le> i64_max \<Longrightarrow> parse_i64 (dec_of_nat n) = Some (int n)"
proof -
  assume n: "int n \<le> i64_max"
  obtain c cs where s: "dec_of_nat n = c # cs" by (cases "dec_of_nat n") auto
  then have c: "c \<noteq> CHR ''-''" "c \<noteq> CHR ''+''" using dec_of_nat_digit [of c n] by (auto simp: byte_simps)
  have "parse_i64 (c # cs) = (case parse_digits (c # cs) of None \<Rightarrow> None | Some k \<Rightarrow> if int k \<le> i64_max then Some (int k) else None)"
    using c by (simp add: parse_i64_def)
  then show ?thesis using n by (simp add: parse_digits_dec flip: s)
qed
text \<open>Whatever bytes the program chose for its own name, its process group is read from its place.\<close>

lemma stat_line_pgrp:
  assumes "length ids = 4" "0 < tpgid" "tpgid \<le> u32_max" "is_alnum state" "CHR '')'' \<notin> set tail"
  shows "linux_foreground_pgrp (stat_line pid comm state ids tpgid tail) = Inr tpgid"
proof -
  let ?tail = "CHR '' '' # [state] @ concat (map (\<lambda>n. CHR '' '' # dec_of_nat n) (ids @ [tpgid])) @ CHR '' '' # tail"
  have plain: "CHR '')'' \<noteq> state" using assms(4) by (auto simp: byte_simps)
  have "CHR '')'' \<notin> set (dec_of_nat n)" for n
    using dec_of_nat_digit [of "CHR '')''" n] by (auto simp: byte_simps)
  with assms(5) plain have "CHR '')'' \<notin> set ?tail" by auto
  then have "rsplit_once (CHR '')'') ((dec_of_nat pid @ '' ('' @ comm) @ CHR '')'' # ?tail)
      = Some (dec_of_nat pid @ '' ('' @ comm, ?tail)"
    by (rule rsplit_once_append)
  then have split: "rsplit_once (CHR '')'') (stat_line pid comm state ids tpgid tail)
      = Some (dec_of_nat pid @ '' ('' @ comm, ?tail)"
    by (simp add: stat_line_def)
  have "ws_fields ([state] @ concat (map (\<lambda>n. CHR '' '' # dec_of_nat n) (ids @ [tpgid])) @ CHR '' '' # tail)
      = [state] # map dec_of_nat (ids @ [tpgid]) @ ws_fields tail"
    using assms(4) by (intro fields_words) (auto simp: byte_simps)
  then have words: "ws_fields ?tail = [state] # map dec_of_nat (ids @ [tpgid]) @ ws_fields tail"
    by (simp add: is_ascii_whitespace_def)
  have sixth: "drop 5 (ws_fields ?tail) = dec_of_nat tpgid # ws_fields tail"
    unfolding words using assms(1) by (simp add: numeral_eq_Suc)
  have "list_all is_digit (dec_of_nat tpgid)" using dec_of_nat_digit by (auto simp: list_all_iff)
  then have utf8: "valid_utf8 (dec_of_nat tpgid)" by (intro valid_utf8_ascii digits_ascii)
  have parsed: "parse_i64 (dec_of_nat tpgid) = Some (int tpgid)"
    using assms(3) by (intro parse_i64_dec) (simp add: u32_max_def i64_max_def)
  show ?thesis
    using assms(2,3) by (simp only: linux_foreground_pgrp_def split sixth utf8 parsed option.case prod.case list.case) auto
qed

end
