(* ===== verification/Outcomes.thy ===== *)
theory Outcomes
  imports Fs
begin

text \<open>
  What a computation returns, whatever state it runs in: \<open>alwaysE Q R m\<close> says that a result of \<open>m\<close>
  satisfies \<open>Q\<close> and an error \<open>R\<close>. It is what is left of the weakest precondition for the calls
  into an environment about which nothing is known.
\<close>

named_theorems always_intros \<open>results of computations in an unknown state\<close>

definition alwaysE :: "('a \<Rightarrow> bool) \<Rightarrow> ('e \<Rightarrow> bool) \<Rightarrow> ('s, 'e, 'a) comp \<Rightarrow> bool" where
  "alwaysE Q R m \<longleftrightarrow> (\<forall>s. wpE m (\<lambda>x _. Q x) (\<lambda>e _. R e) s)"

lemma always_wp: "alwaysE Q R m \<Longrightarrow> wpE m (\<lambda>x _. Q x) (\<lambda>e _. R e) s"
  by (simp add: alwaysE_def)

lemma always_mono: "alwaysE P S m \<Longrightarrow> (\<And>x. P x \<Longrightarrow> Q x) \<Longrightarrow> (\<And>e. S e \<Longrightarrow> R e) \<Longrightarrow> alwaysE Q R m"
  unfolding alwaysE_def by (blast intro: wpE_mono)

lemma always_any: "alwaysE (\<lambda>_. True) (\<lambda>_. True) m"
  by (simp add: alwaysE_def wpE_def split: prod.split sum.split)

lemma always_return [always_intros]: "Q x \<Longrightarrow> alwaysE Q R (returnE x)"
  by (simp add: alwaysE_def)

lemma always_throw [always_intros]: "R e \<Longrightarrow> alwaysE Q R (throwE e)"
  by (simp add: alwaysE_def)

lemma always_bind: "alwaysE P R m \<Longrightarrow> (\<And>x. P x \<Longrightarrow> alwaysE Q R (f x)) \<Longrightarrow> alwaysE Q R (bindE m f)"
  unfolding alwaysE_def by (fastforce elim: wpE_mono)

lemma always_try:
  "alwaysE P S m \<Longrightarrow> (\<And>x. P x \<Longrightarrow> alwaysE Q R (f (Inr x))) \<Longrightarrow> (\<And>e. S e \<Longrightarrow> alwaysE Q R (f (Inl e)))
   \<Longrightarrow> alwaysE Q R (tryE m f)"
  unfolding alwaysE_def by (fastforce elim: wpE_mono)

lemma always_map_err: "alwaysE Q (\<lambda>e. R (g e)) m \<Longrightarrow> alwaysE Q R (map_errE g m)"
  by (simp add: alwaysE_def)

lemma always_modify [always_intros]: "Q () \<Longrightarrow> alwaysE Q R (modifyE f)"
  by (simp add: alwaysE_def)

lemma always_if [always_intros]:
  "(c \<Longrightarrow> alwaysE Q R a) \<Longrightarrow> (\<not> c \<Longrightarrow> alwaysE Q R b) \<Longrightarrow> alwaysE Q R (if c then a else b)"
  by simp

lemma always_cases [always_intros]:
  "(\<And>x. v = Inl x \<Longrightarrow> alwaysE Q R (f x)) \<Longrightarrow> (\<And>x. v = Inr x \<Longrightarrow> alwaysE Q R (g x)) \<Longrightarrow> alwaysE Q R (case v of Inl x \<Rightarrow> f x | Inr x \<Rightarrow> g x)"
  "(q = None \<Longrightarrow> alwaysE Q R a) \<Longrightarrow> (\<And>x. q = Some x \<Longrightarrow> alwaysE Q R (h x)) \<Longrightarrow> alwaysE Q R (case q of None \<Rightarrow> a | Some x \<Rightarrow> h x)"
  "(\<And>x y. u = (x, y) \<Longrightarrow> alwaysE Q R (k x y)) \<Longrightarrow> alwaysE Q R (case u of (x, y) \<Rightarrow> k x y)"
  by (simp_all split: sum.split option.split prod.split)

end
