(* ===== verification/Tmux.thy ===== *)
theory Tmux
  imports Model Foreground Serialize Outcomes
begin

text \<open>
  The tmux adapter (\<open>src/tmux.rs\<close>, with the types of \<open>src/command.rs\<close>): the commands it runs, how it
  reads their output and one poll of the sessions to record. The runner of commands and the lookup
  of a pane's executable are fields of the adapter, functions of an environment that may change at
  each call. A warning is the value it reports; \<open>expect\<close> on a missing active window is
  \<open>Panicked\<close>.
\<close>

subsection \<open>Commands\<close>

datatype DisplayField = PaneTitle | PaneCurrentPath | PanePid

fun display_format :: "DisplayField \<Rightarrow> string" where
  "display_format PaneTitle = ''#{pane_title}''"
| "display_format PaneCurrentPath = ''#{pane_current_path}''"
| "display_format PanePid = ''#{pane_pid}''"

datatype TmuxOperation = ListClients | ListSessions | ListWindows string | ListPanes string
  | CapturePane string | DisplayMessage string DisplayField | ServerIdentity
  | ShowOption string | SetOption string | UnsetOption string

datatype ServiceOperation = SystemdStop | SystemdDaemonReload | SystemdEnable | SystemdRestart
  | SystemdIsActive | SystemdDisableNow | LaunchdBootout | LaunchdDisable | LaunchdEnable
  | LaunchdBootstrap | LaunchdKill | LaunchdPrint

datatype CommandOperation = TmuxCommand TmuxOperation | ServiceCommand ServiceOperation | HostFact

record CommandInvocation =
  cm_operation :: CommandOperation
  cm_executable :: string
  cm_args :: "string list"
  cm_timeout :: nat

record CommandOutput =
  co_stdout :: bytes
  co_stderr :: bytes
  co_status :: int

datatype CommandError = Spawn io_error | TimedOut CommandOperation nat

datatype TmuxError = ExecutableMustBeAbsolute string | Command CommandError | NoServer TmuxOperation
  | Nonzero TmuxOperation int string | InvalidUtf8 TmuxOperation | Malformed TmuxOperation string

datatype tmux_fault = Panicked | Tmux TmuxError

text \<open>\<open>TMUX_TIMEOUT\<close>, in seconds\<close>

definition TMUX_TIMEOUT :: nat where "TMUX_TIMEOUT = 5"

subsection \<open>The adapter and its calls\<close>

datatype Warning = SessionSkipped string NameError | SessionFailed string TmuxError
  | TitleUnavailable | DirectoryUnavailable | ExecutableUnavailable | ExecutableUnsupported
  | ClientRow string string | SessionRow string string

record 's poll_state =
  ps_warnings :: "Warning list"
  ps_env :: 's

type_synonym ('s, 'e, 'a) tmux = "('s poll_state, 'e, 'a) comp"

record 's TmuxAdapter =
  tx_runner :: "CommandInvocation \<Rightarrow> 's \<Rightarrow> (CommandError + CommandOutput) \<times> 's"
  tx_lookup :: "nat \<Rightarrow> 's \<Rightarrow> (ExeFailure + string) \<times> 's"
  tx_executable :: string
  tx_pane_title :: bool
  tx_working_directory :: bool
  tx_executable_enabled :: bool
  tx_output_sessions :: "string list"

definition warn :: "Warning \<Rightarrow> ('s, 'e, unit) tmux" where
  "warn m = modifyE (\<lambda>p. p\<lparr>ps_warnings := ps_warnings p @ [m]\<rparr>)"

text \<open>A call into the environment, its error in the adapter's type\<close>

definition ask :: "('s \<Rightarrow> ('x + 'a) \<times> 's) \<Rightarrow> ('x \<Rightarrow> 'e) \<Rightarrow> ('s, 'e, 'a) tmux" where
  "ask call err p =
     (case call (ps_env p) of
        (Inl x, s) \<Rightarrow> (Inl (err x), p\<lparr>ps_env := s\<rparr>)
      | (Inr a, s) \<Rightarrow> (Inr a, p\<lparr>ps_env := s\<rparr>))"

definition reports_no_server :: "CommandOutput \<Rightarrow> bool" where
  "reports_no_server out \<longleftrightarrow>
     co_status out \<noteq> 0
     \<and> (let message = trim_end (utf8_lossy (co_stderr out)) in
        starts_with ''no server running on '' message
        \<or> (starts_with ''error connecting to '' message \<and> ends_with '' (No such file or directory)'' message))"

definition run_tmux :: "'s TmuxAdapter \<Rightarrow> TmuxOperation \<Rightarrow> string list \<Rightarrow> ('s, tmux_fault, CommandOutput) tmux" where
  "run_tmux ta operation args =
     bindE (ask (tx_runner ta \<lparr>cm_operation = TmuxCommand operation, cm_executable = tx_executable ta,
                  cm_args = args, cm_timeout = TMUX_TIMEOUT\<rparr>) (\<lambda>e. Tmux (Command e))) (\<lambda>out.
     if reports_no_server out then throwE (Tmux (NoServer operation))
     else if co_status out \<noteq> 0 then throwE (Tmux (Nonzero operation (co_status out) (utf8_lossy (co_stderr out))))
     else returnE out)"

definition run_utf8 :: "'s TmuxAdapter \<Rightarrow> TmuxOperation \<Rightarrow> string list \<Rightarrow> ('s, tmux_fault, string) tmux" where
  "run_utf8 ta operation args =
     bindE (run_tmux ta operation args) (\<lambda>out.
     if valid_utf8 (co_stdout out) then returnE (co_stdout out) else throwE (Tmux (InvalidUtf8 operation)))"

definition display_message :: "'s TmuxAdapter \<Rightarrow> string \<Rightarrow> DisplayField \<Rightarrow> ('s, unit, string) tmux" where
  "display_message ta target field =
     bindE (map_errE (\<lambda>_. ()) (run_tmux ta (DisplayMessage target field)
              [''display-message'', ''-p'', ''-t'', target, display_format field])) (\<lambda>out.
     if \<not> valid_utf8 (co_stdout out) then throwE ()
     else case strip_suffix [LF] (co_stdout out) of None \<Rightarrow> throwE () | Some v \<Rightarrow> returnE v)"

subsection \<open>Clients and output sessions\<close>

definition parse_client_row :: "string \<Rightarrow> string + (string \<times> int)" where
  "parse_client_row row =
     (if row = [] then Inl ''empty row''
      else case rsplit_once (CHR '' '') row of
        None \<Rightarrow> Inl ''missing activity separator''
      | Some (session, activity) \<Rightarrow>
          if session = [] then Inl ''empty session identity''
          else case parse_i64 activity of
            None \<Rightarrow> Inl ''activity is not an integer''
          | Some a \<Rightarrow> Inr (session, a))"

text \<open>\<open>seen\<close> maps a session to its place in \<open>clients\<close>: there is one client per session.\<close>

fun note_client :: "string \<Rightarrow> int \<Rightarrow> ClientInfo list \<Rightarrow> ClientInfo list" where
  "note_client session activity [] = [\<lparr>ci_session = session, ci_activity = activity\<rparr>]"
| "note_client session activity (c # cs) =
     (if ci_session c = session then c\<lparr>ci_activity := max (ci_activity c) activity\<rparr> # cs
      else c # note_client session activity cs)"

fun client_rows :: "string list \<Rightarrow> ClientInfo list \<Rightarrow> ('s, 'e, ClientInfo list) tmux" where
  "client_rows [] clients = returnE clients"
| "client_rows (row # rows) clients =
     (case parse_client_row row of
        Inl reason \<Rightarrow> bindE (warn (ClientRow row reason)) (\<lambda>_. client_rows rows clients)
      | Inr (session, activity) \<Rightarrow> client_rows rows (note_client session activity clients))"

text \<open>No server is an empty answer, any other failure is the caller's.\<close>

definition no_server_empty :: "('s, tmux_fault, string) tmux \<Rightarrow> ('s, tmux_fault, string option) tmux" where
  "no_server_empty m =
     tryE m (\<lambda>r. case r of
       Inr out \<Rightarrow> returnE (Some out)
     | Inl (Tmux (NoServer _)) \<Rightarrow> returnE None
     | Inl e \<Rightarrow> throwE e)"

definition list_clients :: "'s TmuxAdapter \<Rightarrow> ('s, tmux_fault, ClientInfo list) tmux" where
  "list_clients ta =
     bindE (no_server_empty (run_utf8 ta ListClients
              [''list-clients'', ''-F'', ''#{client_session} #{client_activity}''])) (\<lambda>stdout.
     case stdout of None \<Rightarrow> returnE [] | Some s \<Rightarrow> client_rows (str_lines s) [])"

definition list_active_clients :: "'s TmuxAdapter \<Rightarrow> int \<Rightarrow> nat \<Rightarrow> ('s, tmux_fault, ClientInfo list) tmux" where
  "list_active_clients ta now interval_secs =
     bindE (list_clients ta) (\<lambda>clients.
     returnE (filter (\<lambda>c. now - ci_activity c \<le> int interval_secs) clients))"

text \<open>\<open>matches_session_pattern\<close>: the parts between the stars, the middle ones found leftmost\<close>

fun match_middle :: "string list \<Rightarrow> string \<Rightarrow> string option" where
  "match_middle [] rest = Some rest"
| "match_middle (part # parts) rest =
     (case find_sub part rest of
        None \<Rightarrow> None
      | Some index \<Rightarrow> match_middle parts (drop (index + length part) rest))"

definition matches_session_pattern :: "string \<Rightarrow> string \<Rightarrow> bool" where
  "matches_session_pattern pattern session =
     (let parts = split_on (CHR ''*'') pattern in
      case strip_prefix (hd parts) session of
        None \<Rightarrow> False
      | Some rest \<Rightarrow>
          if tl parts = [] then rest = []
          else case match_middle (butlast (tl parts)) rest of
            None \<Rightarrow> False
          | Some rest \<Rightarrow> length (last (tl parts)) \<le> length rest \<and> ends_with (last (tl parts)) rest)"

fun session_rows ::
  "string list \<Rightarrow> int \<Rightarrow> nat \<Rightarrow> string list \<Rightarrow> string list \<Rightarrow> ('s, 'e, string list) tmux" where
  "session_rows patterns now interval_secs [] sessions = returnE sessions"
| "session_rows patterns now interval_secs (row # rows) sessions =
     (case rsplit_once (CHR '' '') row of
        None \<Rightarrow> bindE (warn (SessionRow row ''missing activity separator'')) (\<lambda>_.
                  session_rows patterns now interval_secs rows sessions)
      | Some (session, activity) \<Rightarrow>
          (case parse_i64 activity of
             None \<Rightarrow> bindE (warn (SessionRow row ''activity is not an integer'')) (\<lambda>_.
                       session_rows patterns now interval_secs rows sessions)
           | Some a \<Rightarrow>
               if session = [] \<or> now - a > int interval_secs
                 \<or> \<not> list_ex (\<lambda>pattern. matches_session_pattern pattern session) patterns
               then session_rows patterns now interval_secs rows sessions
               else session_rows patterns now interval_secs rows (sessions @ [session])))"

definition list_output_sessions :: "'s TmuxAdapter \<Rightarrow> int \<Rightarrow> nat \<Rightarrow> ('s, tmux_fault, string list) tmux" where
  "list_output_sessions ta now interval_secs =
     (if tx_output_sessions ta = [] then returnE []
      else
        bindE (no_server_empty (run_utf8 ta ListSessions
                 [''list-sessions'', ''-F'', ''#{session_name} #{window_activity}''])) (\<lambda>stdout.
        case stdout of
          None \<Rightarrow> returnE []
        | Some s \<Rightarrow> session_rows (tx_output_sessions ta) now interval_secs (str_lines s) []))"

subsection \<open>Windows and panes\<close>

fun parse_active :: "string \<Rightarrow> bool option" where
  "parse_active v = (if v = ''0'' then Some False else if v = ''1'' then Some True else None)"

text \<open>The error of a refused row; \<open>row\<close> is quoted by the code.\<close>

definition bad_row :: "TmuxOperation \<Rightarrow> string \<Rightarrow> string \<Rightarrow> TmuxError" where
  "bad_row operation what row = Malformed operation (what @ '' '' @ row)"

definition expect :: "'e \<Rightarrow> 'a option \<Rightarrow> 'e + 'a" where
  "expect e v = (case v of None \<Rightarrow> Inl e | Some x \<Rightarrow> Inr x)"

definition bindS :: "'e + 'a \<Rightarrow> ('a \<Rightarrow> 'e + 'b) \<Rightarrow> 'e + 'b" where
  "bindS r f = (case r of Inl e \<Rightarrow> Inl e | Inr x \<Rightarrow> f x)"

definition parse_window :: "TmuxOperation \<Rightarrow> WindowInfo list \<Rightarrow> string \<Rightarrow> TmuxError + WindowInfo" where
  "parse_window operation windows row =
     (case splitn 4 (CHR '' '') row of
        [active, wid, index, name] \<Rightarrow>
          if wid = [] \<or> name = [] then Inl (bad_row operation ''invalid row'' row)
          else
            bindS (expect (bad_row operation ''invalid row'' row) (parse_active active)) (\<lambda>active.
            bindS (expect (bad_row operation ''invalid row'' row) (parse_u32 index)) (\<lambda>index.
            if wid \<in> set (map win_id windows) \<or> index \<in> set (map win_index windows)
            then Inl (bad_row operation ''duplicate ID or index in row'' row)
            else Inr \<lparr>win_id = wid, win_index = index, win_name = name, win_active = active\<rparr>))
      | _ \<Rightarrow> Inl (bad_row operation ''invalid row'' row))"

fun window_rows :: "TmuxOperation \<Rightarrow> string list \<Rightarrow> WindowInfo list \<Rightarrow> TmuxError + WindowInfo list" where
  "window_rows operation [] windows = Inr windows"
| "window_rows operation (row # rows) windows =
     bindS (parse_window operation windows row) (\<lambda>w. window_rows operation rows (windows @ [w]))"

definition parse_windows :: "string \<Rightarrow> TmuxOperation \<Rightarrow> TmuxError + WindowInfo list" where
  "parse_windows stdout operation =
     (if stdout = [] then Inl (Malformed operation ''empty successful output'')
      else
        bindS (window_rows operation (str_lines stdout) []) (\<lambda>windows.
        if windows = [] then Inl (Malformed operation ''empty successful output'')
        else if length (filter win_active windows) \<noteq> 1
        then Inl (Malformed operation ''expected exactly one active window'')
        else Inr windows))"

definition parse_pane :: "TmuxOperation \<Rightarrow> PaneInfo list \<Rightarrow> string \<Rightarrow> TmuxError + PaneInfo" where
  "parse_pane operation panes row =
     (let invalid = bad_row operation ''invalid row'' row in
      case split_on (CHR '' '') row of
        [pid, index, left, upper, width, height, active, cx, cy, visible, alternate, mode] \<Rightarrow>
          if pid = [] then Inl invalid
          else
            bindS (expect invalid (parse_u32 index)) (\<lambda>index.
            bindS (expect invalid (parse_u32 left)) (\<lambda>left.
            bindS (expect invalid (parse_u32 upper)) (\<lambda>upper.
            bindS (expect invalid (parse_u32 width)) (\<lambda>width.
            bindS (expect invalid (parse_u32 height)) (\<lambda>height.
            if width = 0 \<or> height = 0 then Inl (bad_row operation ''nonpositive pane size in row'' row)
            else
              bindS (expect invalid (parse_active active)) (\<lambda>active.
              if pid \<in> set (map pane_id panes) \<or> index \<in> set (map pane_index panes)
              then Inl (bad_row operation ''duplicate ID or index in row'' row)
              else
                bindS (expect invalid (parse_u32 cx)) (\<lambda>cx.
                bindS (expect invalid (parse_u32 cy)) (\<lambda>cy.
                bindS (expect invalid (parse_active visible)) (\<lambda>visible.
                bindS (expect invalid (parse_active alternate)) (\<lambda>alternate.
                bindS (expect invalid (parse_u32 mode)) (\<lambda>mode.
                Inr \<lparr>pane_id = pid, pane_index = index, pane_left = left, pane_top = upper,
                     pane_width = width, pane_height = height, pane_active = active, cursor_x = cx,
                     cursor_y = cy, cursor_visible = visible, alternate_on = alternate,
                     pane_in_mode = (mode \<noteq> 0), pane_content = []\<rparr>)))))))))))
      | _ \<Rightarrow> Inl invalid)"

fun pane_rows :: "TmuxOperation \<Rightarrow> string list \<Rightarrow> PaneInfo list \<Rightarrow> TmuxError + PaneInfo list" where
  "pane_rows operation [] panes = Inr panes"
| "pane_rows operation (row # rows) panes =
     bindS (parse_pane operation panes row) (\<lambda>p. pane_rows operation rows (panes @ [p]))"

definition parse_panes :: "string \<Rightarrow> TmuxOperation \<Rightarrow> TmuxError + PaneInfo list" where
  "parse_panes stdout operation =
     (if stdout = [] then Inl (Malformed operation ''empty successful output'')
      else
        bindS (pane_rows operation (str_lines stdout) []) (\<lambda>panes.
        if panes = [] then Inl (Malformed operation ''empty successful output'')
        else if length (filter pane_active panes) \<noteq> 1
        then Inl (Malformed operation ''expected exactly one active pane'')
        else Inr panes))"

definition ofS :: "TmuxError + 'a \<Rightarrow> ('s, tmux_fault, 'a) tmux" where
  "ofS r = (case r of Inl e \<Rightarrow> throwE (Tmux e) | Inr x \<Rightarrow> returnE x)"

definition list_windows :: "'s TmuxAdapter \<Rightarrow> string \<Rightarrow> ('s, tmux_fault, WindowInfo list) tmux" where
  "list_windows ta session =
     bindE (run_utf8 ta (ListWindows session)
       [''list-windows'', ''-t'', session, ''-F'',
        ''#{window_active} #{window_id} #{window_index} #{window_name}'']) (\<lambda>stdout.
     ofS (parse_windows stdout (ListWindows session)))"

definition list_panes :: "'s TmuxAdapter \<Rightarrow> string \<Rightarrow> ('s, tmux_fault, PaneInfo list) tmux" where
  "list_panes ta window =
     bindE (run_utf8 ta (ListPanes window)
       [''list-panes'', ''-t'', window, ''-F'',
        ''#{pane_id} #{pane_index} #{pane_left} #{pane_top} #{pane_width} #{pane_height} #{pane_active} #{cursor_x} #{cursor_y} #{cursor_flag} #{alternate_on} #{pane_in_mode}'']) (\<lambda>stdout.
     ofS (parse_panes stdout (ListPanes window)))"

definition capture_pane :: "'s TmuxAdapter \<Rightarrow> string \<Rightarrow> ('s, tmux_fault, string) tmux" where
  "capture_pane ta pane = run_utf8 ta (CapturePane pane) [''capture-pane'', ''-p'', ''-e'', ''-t'', pane]"

fun capture_panes :: "'s TmuxAdapter \<Rightarrow> PaneInfo list \<Rightarrow> ('s, tmux_fault, PaneInfo list) tmux" where
  "capture_panes ta [] = returnE []"
| "capture_panes ta (pane # panes) =
     bindE (capture_pane ta (pane_id pane)) (\<lambda>content.
     bindE (capture_panes ta panes) (\<lambda>rest.
     returnE (pane\<lparr>pane_content := content\<rparr> # rest)))"

definition capture_session :: "'s TmuxAdapter \<Rightarrow> string \<Rightarrow> ('s, tmux_fault, CaptureResult) tmux" where
  "capture_session ta session =
     bindE (list_windows ta session) (\<lambda>windows.
     case find win_active windows of
       None \<Rightarrow> throwE Panicked
     | Some active \<Rightarrow>
         bindE (list_panes ta (win_id active)) (\<lambda>panes.
         bindE (capture_panes ta panes) (\<lambda>panes.
         returnE \<lparr>cap_session = session, cap_window = active, cap_windows = windows, cap_panes = panes,
                  output_only = False\<rparr>)))"

subsection \<open>A poll\<close>

text \<open>What the loops over sessions and panes add up.\<close>

record tally =
  tl_jsonl :: bytes
  tl_failure :: bool
  tl_unavailable :: bool

definition unavailable :: "tally \<Rightarrow> tally" where
  "unavailable t = t\<lparr>tl_failure := True, tl_unavailable := True\<rparr>"

definition no_value :: "Warning \<Rightarrow> tally \<Rightarrow> ('s, 'e, string option \<times> tally) tmux" where
  "no_value m t = bindE (warn m) (\<lambda>_. returnE (None, t))"

definition take_field :: "'s TmuxAdapter \<Rightarrow> bool \<Rightarrow> string \<Rightarrow> DisplayField \<Rightarrow> Warning \<Rightarrow> tally
    \<Rightarrow> ('s, 'e, string option \<times> tally) tmux" where
  "take_field ta enabled pane field m t =
     (if \<not> enabled then returnE (None, t)
      else tryE (display_message ta pane field) (\<lambda>r. case r of
        Inr v \<Rightarrow> returnE (Some v, t)
      | Inl _ \<Rightarrow> no_value m (unavailable t)))"

definition take_executable :: "'s TmuxAdapter \<Rightarrow> string \<Rightarrow> tally \<Rightarrow> ('s, 'e, string option \<times> tally) tmux" where
  "take_executable ta pane t =
     (if \<not> tx_executable_enabled ta then returnE (None, t)
      else tryE (display_message ta pane PanePid) (\<lambda>r.
        let pid = (case r of
            Inl _ \<Rightarrow> None
          | Inr v \<Rightarrow> (case parse_u32 v of None \<Rightarrow> None | Some n \<Rightarrow> if n = 0 then None else Some n))
        in case pid of
          None \<Rightarrow> no_value ExecutableUnavailable (unavailable t)
        | Some pid \<Rightarrow>
            tryE (ask (tx_lookup ta pid) id) (\<lambda>r. case r of
              Inr v \<Rightarrow> if v \<noteq> [] then returnE (Some v, t) else no_value ExecutableUnavailable (unavailable t)
            | Inl ExeUnavailable \<Rightarrow> no_value ExecutableUnavailable (unavailable t)
            | Inl ExeUnsupported \<Rightarrow> no_value ExecutableUnsupported (t\<lparr>tl_failure := True\<rparr>))))"

fun pane_contexts ::
  "(TerminalActivity \<Rightarrow> bytes) \<Rightarrow> 's TmuxAdapter \<Rightarrow> int \<Rightarrow> CaptureResult \<Rightarrow> PaneInfo list \<Rightarrow> tally
   \<Rightarrow> ('s, 'e, tally) tmux" where
  "pane_contexts print ta ts capture [] t = returnE t"
| "pane_contexts print ta ts capture (pane # panes) t =
     bindE (take_field ta (tx_pane_title ta) (pane_id pane) PaneTitle TitleUnavailable t) (\<lambda>(title, t).
     bindE (take_field ta (tx_working_directory ta) (pane_id pane) PaneCurrentPath DirectoryUnavailable t) (\<lambda>(cwd, t).
     bindE (take_executable ta (pane_id pane) t) (\<lambda>(exe, t).
     let t = (if title \<noteq> None \<or> cwd \<noteq> None \<or> exe \<noteq> None
              then t\<lparr>tl_jsonl := tl_jsonl t @ activity_line print
                (terminal_activity ts (cap_session capture) (win_name (cap_window capture)) title cwd exe)\<rparr>
              else t)
     in pane_contexts print ta ts capture panes t)))"

definition enabled :: "'s TmuxAdapter \<Rightarrow> bool" where
  "enabled ta \<longleftrightarrow> tx_pane_title ta \<or> tx_working_directory ta \<or> tx_executable_enabled ta"

fun poll_sessions ::
  "(TerminalActivity \<Rightarrow> bytes) \<Rightarrow> 's TmuxAdapter \<Rightarrow> int \<Rightarrow> (string \<times> bool) list \<Rightarrow> CaptureResult list \<Rightarrow> tally
   \<Rightarrow> ('s, tmux_fault, CaptureResult list \<times> tally) tmux" where
  "poll_sessions print ta ts [] captured t = returnE (captured, t)"
| "poll_sessions print ta ts ((session, only) # sessions) captured t =
     (case derive_component session of
        Inl e \<Rightarrow> bindE (warn (SessionSkipped session e)) (\<lambda>_. poll_sessions print ta ts sessions captured t)
      | Inr _ \<Rightarrow>
          tryE (capture_session ta session) (\<lambda>r. case r of
            Inl Panicked \<Rightarrow> throwE Panicked
          | Inl (Tmux e) \<Rightarrow>
              bindE (warn (SessionFailed session e)) (\<lambda>_. poll_sessions print ta ts sessions captured t)
          | Inr capture \<Rightarrow>
              let capture = capture\<lparr>output_only := only\<rparr> in
              bindE (if enabled ta then pane_contexts print ta ts capture (cap_panes capture) t else returnE t) (\<lambda>t.
              poll_sessions print ta ts sessions (captured @ [capture]) t)))"

fun add_output_sessions :: "string list \<Rightarrow> (string \<times> bool) list \<Rightarrow> (string \<times> bool) list" where
  "add_output_sessions [] sessions = sessions"
| "add_output_sessions (s # ss) sessions =
     add_output_sessions ss
       (if list_ex (\<lambda>(listed, _). listed = s) sessions then sessions else sessions @ [(s, True)])"

text \<open>\<open>wall\<close> is the clock in nanoseconds; the row's time is in milliseconds.\<close>

definition unix_timestamp :: "int \<Rightarrow> int" where "unix_timestamp wall = wall div 1000000000"

definition unix_millis :: "int \<Rightarrow> int" where "unix_millis wall = sgn wall * (\<bar>wall\<bar> div 1000000)"

definition poll_context ::
  "(TerminalActivity \<Rightarrow> bytes) \<Rightarrow> (AvailabilityActivity \<Rightarrow> bytes) \<Rightarrow> 's TmuxAdapter \<Rightarrow> int \<Rightarrow> nat
   \<Rightarrow> ('s, tmux_fault, PollOutcome) tmux" where
  "poll_context print print_status ta wall interval_secs =
     bindE (list_active_clients ta (unix_timestamp wall) interval_secs) (\<lambda>clients.
     bindE (list_output_sessions ta (unix_timestamp wall) interval_secs) (\<lambda>outputs.
     let sessions = add_output_sessions outputs (map (\<lambda>c. (ci_session c, False)) clients) in
     bindE (poll_sessions print ta (unix_millis wall) sessions []
              \<lparr>tl_jsonl = [], tl_failure = False, tl_unavailable = False\<rparr>) (\<lambda>(captured, t).
     let jsonl = (if tl_failure t
         then tl_jsonl t @ activity_line print_status (availability_activity (unix_millis wall)
                (if tl_unavailable t then ''unavailable'' else ''unsupported''))
         else tl_jsonl t)
     in returnE \<lparr>captures = captured, activity_jsonl = jsonl\<rparr>)))"

text \<open>\<open>capture_sessions\<close>\<close>

fun capture_sessions :: "'s TmuxAdapter \<Rightarrow> ClientInfo list \<Rightarrow> ('s, tmux_fault, CaptureResult list) tmux" where
  "capture_sessions ta [] = returnE []"
| "capture_sessions ta (client # clients) =
     (case derive_component (ci_session client) of
        Inl e \<Rightarrow> bindE (warn (SessionSkipped (ci_session client) e)) (\<lambda>_. capture_sessions ta clients)
      | Inr _ \<Rightarrow>
          tryE (capture_session ta (ci_session client)) (\<lambda>r. case r of
            Inl Panicked \<Rightarrow> throwE Panicked
          | Inl (Tmux e) \<Rightarrow>
              bindE (warn (SessionFailed (ci_session client) e)) (\<lambda>_. capture_sessions ta clients)
          | Inr capture \<Rightarrow> bindE (capture_sessions ta clients) (\<lambda>rest. returnE (capture # rest))))"

subsection \<open>Patterns\<close>

text \<open>The meaning of a pattern: a star is any run of bytes, everything else is itself.\<close>

fun glob :: "string \<Rightarrow> string \<Rightarrow> bool" where
  "glob [] s \<longleftrightarrow> s = []"
| "glob (c # p) s \<longleftrightarrow>
     (if c = CHR ''*'' then list_ex (\<lambda>k. glob p (drop k s)) [0..<Suc (length s)]
      else case s of [] \<Rightarrow> False | x # xs \<Rightarrow> x = c \<and> glob p xs)"

text \<open>The same by the parts between the stars: the next part starts somewhere in what is left.\<close>

fun parts_match :: "string list \<Rightarrow> string \<Rightarrow> bool" where
  "parts_match [] s \<longleftrightarrow> False"
| "parts_match [p] s \<longleftrightarrow> s = p"
| "parts_match (p # q # ps) s \<longleftrightarrow> (\<exists>k r. s = p @ r \<and> k \<le> length r \<and> parts_match (q # ps) (drop k r))"

lemma list_ex_upto: "list_ex P [0..<Suc n] \<longleftrightarrow> (\<exists>k\<le>n. P k)"
  by (auto simp: list_ex_iff less_Suc_eq_le simp del: upt_Suc)

lemma parts_match_Cons:
  "parts_match ((c # p) # ps) s \<longleftrightarrow> (case s of [] \<Rightarrow> False | x # xs \<Rightarrow> x = c \<and> parts_match (p # ps) xs)"
proof (cases ps)
  case Nil
  then show ?thesis by (cases s) auto
next
  case (Cons q qs)
  then show ?thesis by (cases s) auto
qed

lemma glob_parts: "glob p s \<longleftrightarrow> parts_match (split_on (CHR ''*'') p) s"
proof (induction p arbitrary: s)
  case (Cons c p)
  obtain q qs where parts: "split_on (CHR ''*'') p = q # qs" by (cases "split_on (CHR ''*'') p") auto
  show ?case
  proof (cases "c = CHR ''*''")
    case True
    then show ?thesis by (simp add: Cons.IH parts list_ex_upto del: upt_Suc)
  next
    case False
    then show ?thesis by (simp add: Cons.IH parts parts_match_Cons split: list.split)
  qed
qed simp

text \<open>Some suffix of what is left matches: what the loop of the code keeps.\<close>

definition floats :: "string list \<Rightarrow> string \<Rightarrow> bool" where
  "floats ps s \<longleftrightarrow> (\<exists>k\<le>length s. parts_match ps (drop k s))"

lemma floats_mono: "floats ps (drop i s) \<Longrightarrow> floats ps s"
  by (auto simp: floats_def) (metis drop_drop add.commute le_diff_conv nat_le_linear drop_all length_drop diff_is_0_eq le_add_diff_inverse2)

lemma floats_last: "floats [p] s \<longleftrightarrow> length p \<le> length s \<and> ends_with p s"
  by (auto simp: floats_def ends_with_def) (metis diff_le_self)

lemma find_sub_leftmost:
  "starts_with p (drop k s) \<Longrightarrow> k \<le> length s \<Longrightarrow> \<exists>i\<le>k. find_sub p s = Some i"
proof (induction s arbitrary: k)
  case Nil
  then show ?case by (simp add: starts_with_def)
next
  case (Cons x s)
  show ?case
  proof (cases "starts_with p (x # s)")
    case True
    then show ?thesis by auto
  next
    case False
    with Cons.prems obtain j where j: "k = Suc j" by (cases k) auto
    with Cons obtain i where "i \<le> j" "find_sub p s = Some i" by auto
    with False j show ?thesis by auto
  qed
qed

lemma floats_next:
  "floats (p # q # ps) s \<longleftrightarrow>
     (case find_sub p s of None \<Rightarrow> False | Some i \<Rightarrow> floats (q # ps) (drop (i + length p) s))"
proof -
  have some: "\<exists>i\<le>k. find_sub p s = Some i \<and> floats (q # ps) (drop (i + length p) s)"
    if k: "k \<le> length s" "drop k s = p @ r" and rest: "floats (q # ps) r" for k r
  proof -
    from k have "starts_with p (drop k s)" by (auto simp: starts_with_iff)
    with k(1) obtain i where i: "i \<le> k" "find_sub p s = Some i" using find_sub_leftmost by blast
    have "r = drop (k + length p) s" using k(2) by (metis add.commute append_eq_conv_conj drop_drop)
    also have "\<dots> = drop (k - i) (drop (i + length p) s)" using i(1) by simp
    finally have "floats (q # ps) (drop (i + length p) s)" using rest floats_mono by metis
    with i show ?thesis by blast
  qed
  have "floats (p # q # ps) s"
    if i: "find_sub p s = Some i" and rest: "floats (q # ps) (drop (i + length p) s)" for i
  proof -
    have "take (length p) (drop i s) = p" "i + length p \<le> length s" using find_sub_Some [OF i] by auto
    then have "drop i s = p @ drop (i + length p) s" by (metis append_take_drop_id drop_drop add.commute)
    moreover obtain k where "k \<le> length (drop (i + length p) s)" "parts_match (q # ps) (drop k (drop (i + length p) s))"
      using rest unfolding floats_def by blast
    ultimately have "parts_match (p # q # ps) (drop i s)" by auto
    moreover have "i \<le> length s" using \<open>i + length p \<le> length s\<close> by simp
    ultimately show ?thesis unfolding floats_def by blast
  qed
  moreover have "\<exists>i. find_sub p s = Some i \<and> floats (q # ps) (drop (i + length p) s)" if "floats (p # q # ps) s"
    using that some unfolding floats_def by (auto; blast)
  ultimately show ?thesis by (auto split: option.split)
qed

lemma match_middle_floats:
  "floats (ps @ [q]) s \<longleftrightarrow> (case match_middle ps s of None \<Rightarrow> False | Some r \<Rightarrow> length q \<le> length r \<and> ends_with q r)"
proof (induction ps arbitrary: s)
  case (Cons p ps)
  obtain r rs where "ps @ [q] = r # rs" by (cases "ps @ [q]") auto
  then have "floats ((p # ps) @ [q]) s \<longleftrightarrow>
      (case find_sub p s of None \<Rightarrow> False | Some i \<Rightarrow> floats (ps @ [q]) (drop (i + length p) s))"
    by (simp only: append_Cons floats_next)
  then show ?case by (simp add: Cons.IH split: option.split)
qed (simp add: floats_last)

text \<open>
  C37. A session is recorded for its output exactly when its name matches the pattern: the search
  the code makes, each part between two stars at its leftmost place and the last one at the end,
  agrees with the meaning of the pattern, in which a star is any run of characters.
\<close>

theorem session_pattern_is_glob: "matches_session_pattern pattern session \<longleftrightarrow> glob pattern session"
proof -
  obtain p ps where parts: "split_on (CHR ''*'') pattern = p # ps" by (cases "split_on (CHR ''*'') pattern") auto
  show ?thesis
  proof (cases ps rule: rev_cases)
    case Nil
    then show ?thesis
      by (auto simp: glob_parts parts matches_session_pattern_def strip_prefix_def starts_with_iff split: option.splits)
  next
    case (snoc qs q)
    obtain a as where as: "qs @ [q] = a # as" by (cases "qs @ [q]") auto
    have "glob pattern session \<longleftrightarrow> (\<exists>r. session = p @ r \<and> floats (qs @ [q]) r)"
      by (auto simp: glob_parts parts snoc as floats_def)
    moreover have "matches_session_pattern pattern session \<longleftrightarrow>
        (case strip_prefix p session of None \<Rightarrow> False | Some r \<Rightarrow> floats (qs @ [q]) r)"
      by (cases "strip_prefix p session") (simp_all add: matches_session_pattern_def Let_def parts snoc match_middle_floats split: option.split)
    ultimately show ?thesis
      by (cases "strip_prefix p session") (auto simp: strip_prefix_Some strip_prefix_None)
  qed
qed

subsection \<open>What a poll returns\<close>

definition windows_ok :: "WindowInfo list \<Rightarrow> bool" where
  "windows_ok ws \<longleftrightarrow> distinct (map win_id ws) \<and> distinct (map win_index ws)
     \<and> (\<forall>w\<in>set ws. win_id w \<noteq> [] \<and> win_name w \<noteq> [] \<and> win_index w \<le> u32_max)"

definition panes_ok :: "PaneInfo list \<Rightarrow> bool" where
  "panes_ok ps \<longleftrightarrow> distinct (map pane_id ps) \<and> distinct (map pane_index ps)
     \<and> (\<forall>p\<in>set ps. pane_id p \<noteq> [] \<and> pane_index p \<le> u32_max
          \<and> 0 < pane_width p \<and> pane_width p \<le> u32_max \<and> 0 < pane_height p \<and> pane_height p \<le> u32_max)"

definition capture_ok :: "CaptureResult \<Rightarrow> bool" where
  "capture_ok c \<longleftrightarrow> windows_ok (cap_windows c) \<and> filter win_active (cap_windows c) = [cap_window c]
     \<and> panes_ok (cap_panes c) \<and> length (filter pane_active (cap_panes c)) = 1"

lemma bindS_Inr: "bindS r f = Inr y \<longleftrightarrow> (\<exists>x. r = Inr x \<and> f x = Inr y)"
  by (auto simp: bindS_def split: sum.split)

lemma expect_Inr: "expect e v = Inr x \<longleftrightarrow> v = Some x"
  by (auto simp: expect_def split: option.split)

lemma parse_u32_max: "parse_u32 s = Some n \<Longrightarrow> n \<le> u32_max"
  by (auto simp: parse_u32_def parse_unsigned_def split: option.splits if_splits)

lemma parse_window_ok:
  "parse_window operation ws row = Inr w \<Longrightarrow> windows_ok ws \<Longrightarrow> windows_ok (ws @ [w])"
  by (auto simp: parse_window_def windows_ok_def bindS_Inr expect_Inr dest: parse_u32_max split: list.splits if_splits)

lemma windows_ok_Nil: "windows_ok []" "panes_ok []"
  by (simp_all add: windows_ok_def panes_ok_def)

lemma window_rows_ok: "window_rows operation rows ws = Inr vs \<Longrightarrow> windows_ok ws \<Longrightarrow> windows_ok vs"
  by (induction rows arbitrary: ws) (auto simp: bindS_Inr dest: parse_window_ok)

lemma parse_windows_ok: "parse_windows out operation = Inr ws \<Longrightarrow> windows_ok ws \<and> length (filter win_active ws) = 1"
  using window_rows_ok [where ws = "[]" and vs = ws]
  by (auto simp: parse_windows_def bindS_Inr windows_ok_Nil split: if_splits)

lemma parse_pane_ok:
  assumes "parse_pane operation ps row = Inr p" "panes_ok ps"
  shows "panes_ok (ps @ [p])"
proof -
  have "pane_id p \<notin> set (map pane_id ps) \<and> pane_index p \<notin> set (map pane_index ps) \<and> pane_id p \<noteq> []
      \<and> pane_index p \<le> u32_max \<and> 0 < pane_width p \<and> pane_width p \<le> u32_max \<and> 0 < pane_height p \<and> pane_height p \<le> u32_max"
    using assms(1) unfolding parse_pane_def
    by (simp add: Let_def bindS_Inr expect_Inr split: list.splits if_splits) (auto dest: parse_u32_max)
  with assms(2) show ?thesis by (auto simp: panes_ok_def)
qed

lemma pane_rows_ok: "pane_rows operation rows ps = Inr qs \<Longrightarrow> panes_ok ps \<Longrightarrow> panes_ok qs"
  by (induction rows arbitrary: ps) (auto simp: bindS_Inr dest: parse_pane_ok)

lemma parse_panes_ok: "parse_panes out operation = Inr ps \<Longrightarrow> panes_ok ps \<and> length (filter pane_active ps) = 1"
  using pane_rows_ok [where ps = "[]" and qs = ps]
  by (auto simp: parse_panes_def bindS_Inr windows_ok_Nil split: if_splits)

subsubsection \<open>The commands\<close>

abbreviation no_panic :: "tmux_fault \<Rightarrow> bool" where "no_panic e \<equiv> e \<noteq> Panicked"

lemma always_ask: "(\<And>x. R (err x)) \<Longrightarrow> alwaysE (\<lambda>_. True) R (ask call err)"
  by (simp add: alwaysE_def wpE_def ask_def split: prod.split sum.split)

lemma always_run_tmux: "alwaysE (\<lambda>_. True) no_panic (run_tmux ta operation args)"
  unfolding run_tmux_def by (auto intro!: always_bind [OF always_ask] always_intros)

lemma always_run_utf8: "alwaysE (\<lambda>_. True) no_panic (run_utf8 ta operation args)"
  unfolding run_utf8_def by (auto intro!: always_bind [OF always_run_tmux] always_intros)

lemma always_ofS: "(\<And>x. r = Inr x \<Longrightarrow> Q x) \<Longrightarrow> alwaysE Q no_panic (ofS r)"
  by (auto simp: ofS_def intro!: always_intros)

lemma always_windows: "alwaysE (\<lambda>ws. windows_ok ws \<and> length (filter win_active ws) = 1) no_panic (list_windows ta session)"
  unfolding list_windows_def
  by (intro always_bind [OF always_run_utf8] always_ofS) (use parse_windows_ok in blast)

lemma always_panes: "alwaysE (\<lambda>ps. panes_ok ps \<and> length (filter pane_active ps) = 1) no_panic (list_panes ta window)"
  unfolding list_panes_def
  by (intro always_bind [OF always_run_utf8] always_ofS) (use parse_panes_ok in blast)

definition bare :: "PaneInfo \<Rightarrow> PaneInfo" where "bare p = p\<lparr>pane_content := []\<rparr>"

lemma always_contents: "alwaysE (\<lambda>qs. map bare qs = map bare ps) no_panic (capture_panes ta ps)"
proof (induction ps)
  case (Cons p ps)
  show ?case
    unfolding capture_panes.simps capture_pane_def
    by (intro always_bind [OF always_run_utf8] always_bind [OF Cons] always_return) (simp add: bare_def)
qed (auto intro: always_intros)

lemma bare_fields [simp]:
  "pane_id (bare p) = pane_id p" "pane_index (bare p) = pane_index p" "pane_width (bare p) = pane_width p"
  "pane_height (bare p) = pane_height p" "pane_active (bare p) = pane_active p"
  by (simp_all add: bare_def)

lemma panes_ok_bare: "panes_ok (map bare ps) \<longleftrightarrow> panes_ok ps"
  by (simp add: panes_ok_def o_def)

lemma active_bare: "length (filter pane_active (map bare ps)) = length (filter pane_active ps)"
  by (simp add: filter_map o_def)

lemma find_unique: "length (filter P xs) = 1 \<Longrightarrow> \<exists>x. find P xs = Some x \<and> filter P xs = [x]"
  by (induction xs) auto

lemma always_capture:
  "alwaysE (\<lambda>c. capture_ok c \<and> cap_session c = session) no_panic (capture_session ta session)"
  unfolding capture_session_def
proof (rule always_bind [OF always_windows])
  fix ws
  assume ws: "windows_ok ws \<and> length (filter win_active ws) = 1"
  then obtain w where w: "find win_active ws = Some w" "filter win_active ws = [w]" using find_unique by blast
  have whole: "capture_ok \<lparr>cap_session = session, cap_window = w, cap_windows = ws, cap_panes = qs, output_only = False\<rparr>"
    if "panes_ok ps \<and> length (filter pane_active ps) = 1" "map bare qs = map bare ps" for ps qs
  proof -
    have "panes_ok qs" using that panes_ok_bare by metis
    moreover have "length (filter pane_active qs) = 1" using that active_bare by metis
    ultimately show ?thesis using ws w by (simp add: capture_ok_def)
  qed
  show "alwaysE (\<lambda>c. capture_ok c \<and> cap_session c = session) no_panic
      (case find win_active ws of None \<Rightarrow> throwE Panicked
       | Some active \<Rightarrow> bindE (list_panes ta (win_id active)) (\<lambda>panes. bindE (capture_panes ta panes) (\<lambda>panes.
           returnE \<lparr>cap_session = session, cap_window = active, cap_windows = ws, cap_panes = panes, output_only = False\<rparr>)))"
    unfolding w(1) option.case
    by (rule always_bind [OF always_panes], rule always_bind [OF always_contents], rule always_return) (simp add: whole)
qed

lemma always_context: "alwaysE (\<lambda>_. True) R (pane_contexts print ta ts capture panes t)"
proof (induction panes arbitrary: t)
  case (Cons pane panes)
  have warns: "alwaysE (\<lambda>_. True) S (no_value m t)" for S :: "'e \<Rightarrow> bool" and m t
    unfolding no_value_def warn_def by (intro always_bind [where P = "\<lambda>_. True"] always_intros) auto
  have one: "alwaysE (\<lambda>_. True) R (take_field ta on pane field m t)" for on pane field m t
    unfolding take_field_def by (intro always_intros always_try [OF always_any] warns) simp_all
  have exe: "alwaysE (\<lambda>_. True) R (take_executable ta pane t)" for pane t
    unfolding take_executable_def Let_def
    by (intro always_intros always_try [OF always_any] warns TrueI) (auto intro!: warns always_intros split: ExeFailure.split)
  show ?case
    unfolding pane_contexts.simps Let_def
    by (intro always_bind [OF one] always_bind [OF exe] always_cases Cons)
qed (auto intro: always_intros)

subsubsection \<open>The sessions\<close>

text \<open>The lines tmux answers with when it is asked for its clients in an environment.\<close>

definition client_listing :: "'s TmuxAdapter \<Rightarrow> CommandInvocation" where
  "client_listing ta = \<lparr>cm_operation = TmuxCommand ListClients, cm_executable = tx_executable ta,
     cm_args = [''list-clients'', ''-F'', ''#{client_session} #{client_activity}''], cm_timeout = TMUX_TIMEOUT\<rparr>"

definition listed_rows :: "'s TmuxAdapter \<Rightarrow> 's \<Rightarrow> string list" where
  "listed_rows ta s =
     (case fst (tx_runner ta (client_listing ta) s) of Inl _ \<Rightarrow> [] | Inr out \<Rightarrow> str_lines (co_stdout out))"

definition client_of_row :: "string list \<Rightarrow> ClientInfo \<Rightarrow> bool" where
  "client_of_row rows c \<longleftrightarrow> (\<exists>row\<in>set rows. parse_client_row row = Inr (ci_session c, ci_activity c))"

lemma note_client_set: "set (note_client s a cs) \<subseteq> insert \<lparr>ci_session = s, ci_activity = a\<rparr> (set cs)"
  by (induction cs) (auto simp: max_def)

lemma note_client_sessions: "ci_session ` set (note_client s a cs) = insert s (ci_session ` set cs)"
  by (induction cs) auto

lemma note_client_distinct:
  "distinct (map ci_session cs) \<Longrightarrow> distinct (map ci_session (note_client s a cs))"
  by (induction cs) (auto simp: note_client_sessions image_iff dest!: equalityD1 [OF note_client_sessions, THEN subsetD, OF imageI])

lemma always_client_rows:
  assumes "distinct (map ci_session clients)" "\<forall>c\<in>set clients. client_of_row all c" "set rows \<subseteq> set all"
  shows "alwaysE (\<lambda>cs. distinct (map ci_session cs) \<and> (\<forall>c\<in>set cs. client_of_row all c)) R (client_rows rows clients)"
  using assms
proof (induction rows arbitrary: clients)
  case (Cons row rows)
  show ?case
  proof (cases "parse_client_row row")
    case (Inl reason)
    show ?thesis
      unfolding client_rows.simps Inl sum.case warn_def
      by (rule always_bind [where P = "\<lambda>_. True"], rule always_modify, simp, rule Cons.IH) (use Cons.prems in auto)
  next
    case (Inr v)
    obtain s a where v: "v = (s, a)" by fastforce
    have "client_of_row all \<lparr>ci_session = s, ci_activity = a\<rparr>"
      using Cons.prems(3) Inr v by (auto simp: client_of_row_def)
    then have "\<forall>c\<in>set (note_client s a clients). client_of_row all c"
      using note_client_set [of s a clients] Cons.prems(2) by auto
    then show ?thesis
      unfolding client_rows.simps Inr v sum.case prod.case
      using Cons.prems note_client_distinct by (intro Cons.IH) auto
  qed
qed (auto intro: always_intros)

lemma list_clients_spec:
  "wpE (list_clients ta)
     (\<lambda>cs _. distinct (map ci_session cs) \<and> (\<forall>c\<in>set cs. client_of_row (listed_rows ta (ps_env p)) c))
     (\<lambda>e _. no_panic e) p"
proof -
  obtain r s where run: "tx_runner ta (client_listing ta) (ps_env p) = (r, s)" by fastforce
  let ?rows = "listed_rows ta (ps_env p)"
  let ?Q = "\<lambda>cs. distinct (map ci_session cs) \<and> (\<forall>c\<in>set cs. client_of_row ?rows c)"
  have rows: "wpE (client_rows (str_lines (co_stdout out)) []) (\<lambda>cs _. ?Q cs) (\<lambda>e _. no_panic e) q" if "r = Inr out" for out q
    using that run by (intro always_wp always_client_rows) (auto simp: listed_rows_def)
  show ?thesis
    unfolding list_clients_def no_server_empty_def run_utf8_def run_tmux_def client_listing_def [symmetric]
    by (cases r) (auto simp: wpE_def [of "ask _ _"] ask_def run rows)
qed

definition recent_client :: "'s TmuxAdapter \<Rightarrow> 's \<Rightarrow> int \<Rightarrow> nat \<Rightarrow> string \<Rightarrow> bool" where
  "recent_client ta s now secs session \<longleftrightarrow>
     (\<exists>row\<in>set (listed_rows ta s). \<exists>a. parse_client_row row = Inr (session, a) \<and> now - a \<le> int secs)"

definition recorded_because :: "'s TmuxAdapter \<Rightarrow> 's \<Rightarrow> int \<Rightarrow> nat \<Rightarrow> string \<times> bool \<Rightarrow> bool" where
  "recorded_because ta s now secs k \<longleftrightarrow>
     (if snd k then list_ex (\<lambda>pattern. matches_session_pattern pattern (fst k)) (tx_output_sessions ta)
      else recent_client ta s now secs (fst k))"

lemma active_clients_spec:
  "wpE (list_active_clients ta now secs)
     (\<lambda>cs _. distinct (map ci_session cs) \<and> (\<forall>c\<in>set cs. recent_client ta (ps_env p) now secs (ci_session c)))
     (\<lambda>e _. no_panic e) p"
  unfolding list_active_clients_def wpE_bind wpE_return
  by (rule wpE_mono [OF list_clients_spec])
    (fastforce simp: distinct_map inj_on_def recent_client_def client_of_row_def)+

lemma always_session_rows:
  assumes "\<forall>s\<in>set sessions. list_ex (\<lambda>pattern. matches_session_pattern pattern s) patterns"
  shows "alwaysE (\<lambda>ss. \<forall>s\<in>set ss. list_ex (\<lambda>pattern. matches_session_pattern pattern s) patterns) R
    (session_rows patterns now secs rows sessions)"
  using assms
proof (induction rows arbitrary: sessions)
  case (Cons row rows)
  show ?case
    unfolding session_rows.simps warn_def
    by (intro always_cases always_if always_bind [where P = "\<lambda>_. True"] always_modify Cons.IH TrueI)
      (use Cons.prems in auto)
qed (auto intro: always_intros)

lemma always_output_sessions:
  "alwaysE (\<lambda>ss. \<forall>s\<in>set ss. list_ex (\<lambda>pattern. matches_session_pattern pattern s) (tx_output_sessions ta)) no_panic
    (list_output_sessions ta now secs)"
proof -
  have empty: "alwaysE (\<lambda>_. True) no_panic (no_server_empty m)" if "alwaysE (\<lambda>_. True) no_panic m" for m :: "('a, tmux_fault, string) tmux"
    unfolding no_server_empty_def
    by (rule always_try [OF that]) (auto intro!: always_intros split: tmux_fault.split TmuxError.split)
  show ?thesis
    unfolding list_output_sessions_def
    by (auto intro!: always_intros always_bind [OF empty [OF always_run_utf8]] always_session_rows)
qed

lemma output_sessions_added:
  "distinct (map fst ks) \<Longrightarrow>
   distinct (map fst (add_output_sessions ss ks)) \<and> set (add_output_sessions ss ks) \<subseteq> set ks \<union> (\<lambda>s. (s, True)) ` set ss"
proof (induction ss arbitrary: ks)
  case (Cons s ss)
  show ?case
  proof (cases "list_ex (\<lambda>(listed, _). listed = s) ks")
    case True
    with Cons.IH [OF Cons.prems] show ?thesis by auto
  next
    case False
    then have "distinct (map fst (ks @ [(s, True)]))" using Cons.prems by (auto simp: list_ex_iff)
    from Cons.IH [OF this] False show ?thesis by auto
  qed
qed simp

definition polled_ok :: "(string \<times> bool) set \<Rightarrow> CaptureResult list \<Rightarrow> bool" where
  "polled_ok K cs \<longleftrightarrow> distinct (map cap_session cs)
     \<and> (\<forall>c\<in>set cs. capture_ok c \<and> (\<exists>n. derive_component (cap_session c) = Inr n) \<and> (cap_session c, output_only c) \<in> K)"

lemma polled_ok_Nil: "polled_ok K []"
  by (simp add: polled_ok_def)

lemma polled_ok_snoc:
  "polled_ok K cs \<Longrightarrow> capture_ok c \<Longrightarrow> derive_component (cap_session c) = Inr n \<Longrightarrow> (cap_session c, only) \<in> K
   \<Longrightarrow> cap_session c \<notin> cap_session ` set cs \<Longrightarrow> polled_ok K (cs @ [c\<lparr>output_only := only\<rparr>])"
  by (auto simp: polled_ok_def capture_ok_def)

lemma always_poll_sessions:
  assumes "distinct (map fst sessions)" "set sessions \<subseteq> K" "polled_ok K captured"
    "cap_session ` set captured \<inter> fst ` set sessions = {}"
  shows "alwaysE (\<lambda>(cs, t). polled_ok K cs) no_panic (poll_sessions print ta ts sessions captured t)"
  using assms
proof (induction sessions arbitrary: captured t)
  case (Cons k sessions)
  obtain session only where k: "k = (session, only)" by fastforce
  have others: "alwaysE (\<lambda>(cs, t). polled_ok K cs) no_panic (poll_sessions print ta ts sessions captured t)" for t
    using Cons.prems by (intro Cons.IH) auto
  show ?case
  proof (cases "derive_component session")
    case (Inl e)
    show ?thesis
      unfolding k poll_sessions.simps Inl sum.case warn_def
      by (rule always_bind [where P = "\<lambda>_. True"], rule always_modify, simp, rule others)
  next
    case (Inr n)
    have more: "alwaysE (\<lambda>(cs, t). polled_ok K cs) no_panic (poll_sessions print ta ts sessions (captured @ [c\<lparr>output_only := only\<rparr>]) t)"
      if "capture_ok c \<and> cap_session c = session" for c t
      using that Cons.prems Inr k by (intro Cons.IH polled_ok_snoc) auto
    show ?thesis
      unfolding k poll_sessions.simps Inr sum.case Let_def warn_def
    proof (rule always_try [OF always_capture], simp only: sum.case)
      fix c
      assume c: "capture_ok c \<and> cap_session c = session"
      show "alwaysE (\<lambda>(cs, t). polled_ok K cs) no_panic
          (bindE (if enabled ta then pane_contexts print ta ts (c\<lparr>output_only := only\<rparr>) (cap_panes (c\<lparr>output_only := only\<rparr>)) t else returnE t)
            (poll_sessions print ta ts sessions (captured @ [c\<lparr>output_only := only\<rparr>])))"
        by (rule always_bind [where P = "\<lambda>_. True"]) (auto intro!: always_intros always_context more [OF c])
    next
      fix e
      assume "no_panic e"
      then show "alwaysE (\<lambda>(cs, t). polled_ok K cs) no_panic
          (case Inl e of Inl Panicked \<Rightarrow> throwE Panicked
           | Inl (Tmux e) \<Rightarrow> bindE (modifyE (\<lambda>p. p\<lparr>ps_warnings := ps_warnings p @ [SessionFailed session e]\<rparr>)) (\<lambda>_. poll_sessions print ta ts sessions captured t)
           | Inr capture \<Rightarrow> bindE (if enabled ta then pane_contexts print ta ts (capture\<lparr>output_only := only\<rparr>) (cap_panes (capture\<lparr>output_only := only\<rparr>)) t else returnE t)
              (poll_sessions print ta ts sessions (captured @ [capture\<lparr>output_only := only\<rparr>])))"
        by (cases e) (auto intro!: always_bind [where P = "\<lambda>_. True"] always_modify others)
    qed
  qed
qed (auto intro: always_intros)

text \<open>
  C38. A poll records only what it may: whatever tmux answers, however each command fails, it never
  panics, and each session it captures has a client whose last activity lies within the interval
  or, marked as output only, a name matching an opted-in pattern; sessions are captured once
  each, under a name a file can be derived from, and each capture is coherent: distinct windows
  and panes, exactly one of each active, the active window the one captured, panes of positive size.
\<close>

theorem poll_records_what_it_may:
  "case poll_context print print_status ta wall secs p of
      (Inr out, _) \<Rightarrow> distinct (map cap_session (captures out))
        \<and> list_all (\<lambda>c. capture_ok c \<and> (\<exists>n. derive_component (cap_session c) = Inr n)
             \<and> recorded_because ta (ps_env p) (unix_timestamp wall) secs (cap_session c, output_only c)) (captures out)
    | (Inl e, _) \<Rightarrow> e \<noteq> Panicked"
proof -
  let ?K = "{k. recorded_because ta (ps_env p) (unix_timestamp wall) secs k}"
  have "wpE (poll_context print print_status ta wall secs) (\<lambda>out _. polled_ok ?K (captures out)) (\<lambda>e _. no_panic e) p"
    unfolding poll_context_def wpE_bind
  proof (rule wpE_mono [OF active_clients_spec])
    fix clients q
    assume clients: "distinct (map ci_session clients) \<and> (\<forall>c\<in>set clients. recent_client ta (ps_env p) (unix_timestamp wall) secs (ci_session c))"
    let ?ks = "map (\<lambda>c. (ci_session c, False)) clients"
    have "distinct (map fst ?ks)" using clients by (simp add: o_def)
    note added = output_sessions_added [OF this]
    show "wpE (list_output_sessions ta (unix_timestamp wall) secs) (\<lambda>outputs.
        wpE (let sessions = add_output_sessions outputs ?ks in
          bindE (poll_sessions print ta (unix_millis wall) sessions [] \<lparr>tl_jsonl = [], tl_failure = False, tl_unavailable = False\<rparr>) (\<lambda>(captured, t).
          let jsonl = (if tl_failure t then tl_jsonl t @ activity_line print_status (availability_activity (unix_millis wall)
                (if tl_unavailable t then ''unavailable'' else ''unsupported'')) else tl_jsonl t)
          in returnE \<lparr>captures = captured, activity_jsonl = jsonl\<rparr>))
        (\<lambda>out _. polled_ok ?K (captures out)) (\<lambda>e _. no_panic e)) (\<lambda>e _. no_panic e) q"
    proof (rule wpE_mono [OF always_wp [OF always_output_sessions]])
      fix outputs u
      assume outputs: "\<forall>s\<in>set outputs. list_ex (\<lambda>pattern. matches_session_pattern pattern s) (tx_output_sessions ta)"
      have "set (add_output_sessions outputs ?ks) \<subseteq> ?K"
        using added [of outputs] clients outputs by (fastforce simp: recorded_because_def)
      then have polled: "alwaysE (\<lambda>(cs, t). polled_ok ?K cs) no_panic
          (poll_sessions print ta (unix_millis wall) (add_output_sessions outputs ?ks) [] t)" for t
        using added [of outputs] by (intro always_poll_sessions) (auto simp: polled_ok_Nil)
      show "wpE (let sessions = add_output_sessions outputs ?ks in
          bindE (poll_sessions print ta (unix_millis wall) sessions [] \<lparr>tl_jsonl = [], tl_failure = False, tl_unavailable = False\<rparr>) (\<lambda>(captured, t).
          let jsonl = (if tl_failure t then tl_jsonl t @ activity_line print_status (availability_activity (unix_millis wall)
                (if tl_unavailable t then ''unavailable'' else ''unsupported'')) else tl_jsonl t)
          in returnE \<lparr>captures = captured, activity_jsonl = jsonl\<rparr>))
        (\<lambda>out _. polled_ok ?K (captures out)) (\<lambda>e _. no_panic e) u"
        unfolding Let_def
        by (intro always_wp [where Q = "\<lambda>out. polled_ok ?K (captures out)" and R = no_panic] always_bind [OF polled])
          (auto intro!: always_return split: prod.splits)
    qed
  qed
  then show ?thesis by (auto simp: wpE_def polled_ok_def list_all_iff split: prod.splits sum.splits)
qed

end
