(* ===== verification/Opening.thy ===== *)
theory Opening
  imports Segment Effects
begin

text \<open>
  Opening a segment (\<open>src/observer.rs\<close>, \<open>open_segment\<close>, with \<open>src/clock.rs\<close>): the local time the segment
  is named after, the directory of its day, and the search for a name nobody has taken. The time
  zone database is a parameter, and so is the calendar: the name of a local day and the last day
  it has. A local time is a day number with hour, minute and second; \<open>wall\<close> is in nanoseconds.
\<close>

record 'z calendar =
  cal_iana :: "'z \<Rightarrow> string option"
  cal_offset :: "'z \<Rightarrow> int \<Rightarrow> int"
  cal_utc :: 'z
  cal_date :: "int \<Rightarrow> string"
  cal_last :: int

record local_time =
  lt_day :: int
  lt_hour :: nat
  lt_minute :: nat
  lt_second :: nat

definition to_offset :: "int \<Rightarrow> int \<Rightarrow> local_time" where
  "to_offset wall offset =
     (let secs = wall div 1000000000 + offset; s = nat (secs mod 86400) in
      \<lparr>lt_day = secs div 86400, lt_hour = s div 3600, lt_minute = s div 60 mod 60, lt_second = s mod 60\<rparr>)"

definition two_digits :: "nat \<Rightarrow> string" where "two_digits n = pad_zero 2 (dec_of_nat n)"

definition time_name :: "local_time \<Rightarrow> string" where
  "time_name t = two_digits (lt_hour t) @ two_digits (lt_minute t) @ two_digits (lt_second t)"

definition local_date_and_time :: "'z calendar \<Rightarrow> int \<Rightarrow> int \<Rightarrow> string \<times> string" where
  "local_date_and_time cal wall offset =
     (let t = to_offset wall offset in (cal_date cal (lt_day t), time_name t))"

text \<open>\<open>stream_directory\<close>, and the directory of a local day in the loop below\<close>

definition day_directory :: "'z calendar \<Rightarrow> path \<Rightarrow> DerivedName \<Rightarrow> int \<Rightarrow> NameError + path" where
  "day_directory cal root stream day =
     join_checked stream (path_join (path_join root ''captures'') (cal_date cal day))"

definition stream_directory :: "'z calendar \<Rightarrow> path \<Rightarrow> DerivedName \<Rightarrow> int \<Rightarrow> int \<Rightarrow> NameError + path" where
  "stream_directory cal root stream wall offset =
     (case local_date_and_time cal wall offset of (date, _) \<Rightarrow>
        join_checked stream (path_join (path_join root ''captures'') date))"

text \<open>The second after a local time; \<open>next_day\<close> of the last day of the calendar is \<open>None\<close>.\<close>

definition next_second :: "'z calendar \<Rightarrow> local_time \<Rightarrow> local_time option" where
  "next_second cal t =
     (if lt_second t < 59 then Some (t\<lparr>lt_second := lt_second t + 1\<rparr>)
      else if lt_minute t < 59 then Some (t\<lparr>lt_second := 0, lt_minute := lt_minute t + 1\<rparr>)
      else if lt_hour t < 23 then Some (t\<lparr>lt_second := 0, lt_minute := 0, lt_hour := lt_hour t + 1\<rparr>)
      else if lt_day t < cal_last cal
      then Some (t\<lparr>lt_second := 0, lt_minute := 0, lt_hour := 0, lt_day := lt_day t + 1\<rparr>)
      else None)"

definition name_taken :: "string \<Rightarrow> (string \<times> node) list \<Rightarrow> bool" where
  "name_taken stem entries \<longleftrightarrow> list_ex (\<lambda>(name, _). valid_utf8 name \<and> starts_with stem name) entries"

text \<open>The loop over names: \<open>None\<close> means that the fuel has run out, which it never does.\<close>

fun bump_name ::
  "'z calendar \<Rightarrow> path \<Rightarrow> DerivedName \<Rightarrow> path \<times> string \<Rightarrow> nat \<Rightarrow> bool \<Rightarrow> local_time
   \<Rightarrow> (SegmentError, (path \<times> string) option) io" where
  "bump_name cal root stream natural 0 bumped t = returnE None"
| "bump_name cal root stream natural (Suc fuel) bumped t =
     (case day_directory cal root stream (lt_day t) of
        Inl e \<Rightarrow> throwE (SegName e)
      | Inr dir \<Rightarrow>
          tryE (ensure_private_directory dir) (\<lambda>r. case r of
            Inl e \<Rightarrow> if bumped then returnE (Some natural) else throwE (SegPath e)
          | Inr _ \<Rightarrow>
              tryE (fs_read_dir dir) (\<lambda>r. case r of
                Inl _ \<Rightarrow> returnE (Some natural)
              | Inr entries \<Rightarrow>
                  if name_taken (time_name t) entries
                  then (case next_second cal t of
                      None \<Rightarrow> throwE SegPanic
                    | Some t' \<Rightarrow> bump_name cal root stream natural fuel True t')
                  else returnE (Some (dir, time_name t)))))"

definition choose_name ::
  "'z calendar \<Rightarrow> path \<Rightarrow> DerivedName \<Rightarrow> local_time \<Rightarrow> (SegmentError, (path \<times> string) option) io" where
  "choose_name cal root stream t =
     (case day_directory cal root stream (lt_day t) of
        Inl e \<Rightarrow> throwE (SegName e)
      | Inr natural \<Rightarrow>
          bindE (map_errE SegPath (ensure_private_directory natural)) (\<lambda>_.
          bindE (getsE (\<lambda>w. Suc (length (w_names w)))) (\<lambda>fuel.
          bump_name cal root stream (natural, time_name t) fuel False t)))"

declare bump_name.simps [simp del]

text \<open>The zone: the source's answer, the last one it gave, or UTC, with one warning per run of failures.\<close>

record 'z zone_state =
  zn_last :: "'z option"
  zn_warned :: bool

definition current_zone ::
  "'z calendar \<Rightarrow> string + 'z \<Rightarrow> 'z zone_state \<Rightarrow> ('z \<times> string option) \<times> 'z zone_state \<times> string option" where
  "current_zone cal answer z =
     (case answer of
        Inr zone \<Rightarrow> ((zone, cal_iana cal zone), \<lparr>zn_last = Some zone, zn_warned = False\<rparr>, None)
      | Inl cause \<Rightarrow>
          ((case zn_last z of
              Some prev \<Rightarrow> (prev, cal_iana cal prev)
            | None \<Rightarrow> (cal_utc cal, Some ''UTC'')),
           z\<lparr>zn_warned := True\<rparr>,
           if zn_warned z then None else Some cause))"

definition open_segment ::
  "(SegmentMetadata \<Rightarrow> string + bytes) \<Rightarrow> 'z calendar \<Rightarrow> path \<Rightarrow> DerivedName \<Rightarrow> int \<Rightarrow> nat \<Rightarrow> nat
   \<Rightarrow> 'z \<times> string option \<Rightarrow> StorageStage list \<Rightarrow> (SegmentError, FileStorage SegmentState) io" where
  "open_segment json cal root stream wall now interval zone plan =
     (case zone of (z, tz) \<Rightarrow>
        let offset = cal_offset cal z wall in
        bindE (choose_name cal root stream (to_offset wall offset)) (\<lambda>chosen.
        case chosen of
          None \<Rightarrow> throwE SegPanic
        | Some (dir, stem) \<Rightarrow> create_with_faults json dir stem wall now offset tz interval plan))"

subsection \<open>Names of seconds\<close>

definition valid_time :: "local_time \<Rightarrow> bool" where
  "valid_time t \<longleftrightarrow> lt_hour t < 24 \<and> lt_minute t < 60 \<and> lt_second t < 60"

definition second_of :: "local_time \<Rightarrow> int" where
  "second_of t = lt_day t * 86400 + int (lt_hour t * 3600 + lt_minute t * 60 + lt_second t)"

lemma valid_to_offset: "valid_time (to_offset wall offset)"
proof -
  have "nat (k mod 86400) < 86400" for k :: int by (simp add: nat_less_iff)
  then show ?thesis by (auto simp: valid_time_def to_offset_def Let_def less_mult_imp_div_less)
qed

lemma next_second_valid: "next_second cal t = Some u \<Longrightarrow> valid_time t \<Longrightarrow> valid_time u"
  by (auto simp: next_second_def valid_time_def split: if_splits)

lemma next_second_of: "next_second cal t = Some u \<Longrightarrow> valid_time t \<Longrightarrow> second_of u = second_of t + 1"
  by (auto simp: next_second_def valid_time_def second_of_def algebra_simps split: if_splits)

lemma two_digits_length: "n < 100 \<Longrightarrow> length (two_digits n) = 2"
proof -
  assume n: "n < 100"
  show ?thesis
  proof (cases "n < 10")
    case True
    then show ?thesis by (simp add: two_digits_def pad_zero_def dec_of_nat.simps)
  next
    case False
    with n have "n div 10 < 10" by auto
    with False show ?thesis by (simp add: two_digits_def pad_zero_def dec_of_nat.simps [of n] dec_of_nat.simps [of "n div 10"])
  qed
qed

lemma time_name_length: "valid_time t \<Longrightarrow> length (time_name t) = 6"
  by (simp add: time_name_def valid_time_def two_digits_length)

lemma two_digits_inject: "two_digits m = two_digits n \<longleftrightarrow> m = n"
  by (simp add: two_digits_def pad_zero_inject)

lemma time_name_inject:
  assumes "valid_time t" "valid_time u" "time_name t = time_name u"
  shows "lt_hour t = lt_hour u \<and> lt_minute t = lt_minute u \<and> lt_second t = lt_second u"
  using assms by (auto simp: time_name_def valid_time_def append_eq_append_conv two_digits_length two_digits_inject)

text \<open>An entry begins with the name of one second only.\<close>

lemma second_of_entry:
  assumes "valid_time t" "valid_time u" "starts_with (time_name t) n" "starts_with (time_name u) n"
  shows "time_name t = time_name u"
  using assms by (simp add: starts_with_def time_name_length)

subsection \<open>Making directories leaves the entries of a day alone\<close>

text \<open>Nothing below a depth has changed.\<close>

definition deep :: "nat \<Rightarrow> world \<Rightarrow> world \<Rightarrow> bool" where
  "deep n w0 w \<longleftrightarrow> world_ok w \<and> (\<forall>q. n < length q \<longrightarrow> node_at w q = node_at w0 q)"

lemma deep_refl: "world_ok w \<Longrightarrow> deep n w w"
  by (simp add: deep_def)

lemma deep_tick [simp]: "deep n w0 (tick w) = deep n w0 w" "deep n w0 (put_mode i m w) = deep n w0 w"
  by (simp_all add: deep_def world_simps)

lemma deep_ticks: "only_ticks w u \<Longrightarrow> deep n w0 u = deep n w0 w"
  by (simp add: deep_def only_ticks_obs)

lemma deep_quiet: "quietE m \<Longrightarrow> keepsE (deep n w0) m"
  unfolding keepsE_def quietE_def using deep_ticks by blast

lemma deep_chmod: "keepsE (deep n w0) (fs_chmod p m)"
  by (rule keepsE_I, rule wp_chmod) simp_all

lemma deep_create_dir: "length p \<le> n \<Longrightarrow> keepsE (deep n w0) (fs_create_dir p)"
  by (rule keepsE_I, rule wp_create_dir) (auto simp: deep_def world_simps world_upd)

lemma deep_set_mode: "keepsE (deep n w0) (set_and_verify_mode p m d)"
  unfolding set_and_verify_mode_def
  by (intro keeps_intros deep_chmod deep_quiet quiet_intros)

lemma deep_missing: "givesE (deep n w0) (\<lambda>ds. \<forall>d\<in>set ds. length d \<le> length c) (missing_dirs t c)"
proof (induction t c rule: missing_dirs.induct)
  case (1 t c)
  have more: "givesE (deep n w0) (\<lambda>ds. \<forall>d\<in>set ds. length d \<le> length c)
      (bindE (missing_dirs t (butlast c)) (\<lambda>more. returnE (c # more)))" if "c \<noteq> []"
    by (rule gives_bind, rule "1.IH") (use that in \<open>force intro: gives_simple\<close>)+
  show ?case
    unfolding missing_dirs.simps [of t c]
    by (rule gives_try, rule deep_quiet, rule quiet_calls)
      (auto intro!: gives_simple more split: sum.split node.split io_error.split)
qed

lemma deep_ensure: "keepsE (deep (length p) w0) (ensure_private_directory p)"
proof -
  have made: "keepsE (deep (length p) w0) (forE create_private ds)" if "\<forall>d\<in>set ds. length d \<le> length p" for ds
    using that
  proof (induction ds)
    case (Cons d ds)
    have "keepsE (deep (length p) w0) (create_private d)"
      unfolding create_private_def using Cons.prems
      by (intro keeps_intros deep_set_mode deep_create_dir) auto
    then show ?case using Cons by (auto intro: keeps_intros)
  qed (auto intro: keeps_intros)
  show ?thesis
    unfolding ensure_private_directory_def ensure_directory_def
    by (intro keeps_if keeps_bind_gives [OF deep_missing] keeps_bind made deep_set_mode keeps_simple) auto
qed

subsection \<open>The search for a free name\<close>

definition calendar_ok :: "'z calendar \<Rightarrow> bool" where
  "calendar_ok cal \<longleftrightarrow> inj (cal_date cal) \<and> (\<forall>d. plain_name (cal_date cal d))"

definition day_dir :: "'z calendar \<Rightarrow> path \<Rightarrow> DerivedName \<Rightarrow> int \<Rightarrow> path" where
  "day_dir cal root n day = root @ [''captures'', cal_date cal day, as_str n]"

fun seconds_after :: "'z calendar \<Rightarrow> nat \<Rightarrow> local_time \<Rightarrow> local_time option" where
  "seconds_after cal 0 t = Some t"
| "seconds_after cal (Suc k) t = (case seconds_after cal k t of None \<Rightarrow> None | Some u \<Rightarrow> next_second cal u)"

text \<open>An entry of the day's directory begins with the name of the second.\<close>

definition second_taken :: "'z calendar \<Rightarrow> path \<Rightarrow> DerivedName \<Rightarrow> world \<Rightarrow> local_time \<Rightarrow> bool" where
  "second_taken cal root n w t \<longleftrightarrow>
     (\<exists>name. node_at w (day_dir cal root n (lt_day t) @ [name]) \<noteq> None
        \<and> valid_utf8 name \<and> starts_with (time_name t) name)"

lemma day_directory_eq:
  assumes "calendar_ok cal" "derive_component raw = Inr n"
  shows "day_directory cal root n day = Inr (day_dir cal root n day)"
  using assms
  by (simp add: day_directory_def day_dir_def calendar_ok_def join_checked_derived path_join_plain_name plain_ascii)

lemma node_at_named: "node_at w p \<noteq> None \<longleftrightarrow> p \<in> fst ` set (w_names w)"
  by (simp add: node_at_def map_of_eq_None_iff)

lemma name_taken_iff: "name_taken stem (dir_entries w dir) \<longleftrightarrow>
    (\<exists>name. node_at w (dir @ [name]) \<noteq> None \<and> valid_utf8 name \<and> starts_with stem name)"
proof
  assume "name_taken stem (dir_entries w dir)"
  then obtain p k where p: "(p, k) \<in> set (w_names w)" "p \<noteq> []" "butlast p = dir"
    and name: "valid_utf8 (last p)" "starts_with stem (last p)"
    by (fastforce simp: name_taken_def dir_entries_def list_ex_iff)
  then have "p = dir @ [last p]" by (metis append_butlast_last_id)
  moreover have "node_at w p \<noteq> None" using p(1) unfolding node_at_named by (rule rev_image_eqI) simp
  ultimately show "\<exists>name. node_at w (dir @ [name]) \<noteq> None \<and> valid_utf8 name \<and> starts_with stem name"
    using name by metis
next
  assume "\<exists>name. node_at w (dir @ [name]) \<noteq> None \<and> valid_utf8 name \<and> starts_with stem name"
  then obtain name k where "(dir @ [name], k) \<in> set (w_names w)" and name: "valid_utf8 name" "starts_with stem name"
    by (auto simp: node_at_def dest: map_of_SomeD)
  then have "(name, k) \<in> set (dir_entries w dir)" by (force simp: dir_entries_def)
  with name show "name_taken stem (dir_entries w dir)" by (auto simp: name_taken_def list_ex_iff)
qed

lemma seconds_after_of:
  "seconds_after cal k t = Some u \<Longrightarrow> valid_time t \<Longrightarrow> valid_time u \<and> second_of u = second_of t + int k"
  by (induction k arbitrary: u) (auto simp: next_second_of next_second_valid split: option.splits)

text \<open>Each second tried in vain has an entry of its own.\<close>

lemma taken_bound:
  assumes "calendar_ok cal" "valid_time t"
    and tried: "\<forall>j<k. \<exists>u. seconds_after cal j t = Some u \<and> second_taken cal root n w u"
  shows "k \<le> length (w_names w)"
proof -
  have "\<forall>j\<in>{..<k}. \<exists>p. node_at w p \<noteq> None \<and> (\<exists>u name. seconds_after cal j t = Some u
      \<and> p = day_dir cal root n (lt_day u) @ [name] \<and> starts_with (time_name u) name)"
    using tried unfolding second_taken_def by blast
  then obtain f where f: "\<forall>j\<in>{..<k}. node_at w (f j) \<noteq> None \<and> (\<exists>u name. seconds_after cal j t = Some u
      \<and> f j = day_dir cal root n (lt_day u) @ [name] \<and> starts_with (time_name u) name)"
    unfolding bchoice_iff by blast
  have "inj_on f {..<k}"
  proof (rule inj_onI)
    fix i j assume ij: "i \<in> {..<k}" "j \<in> {..<k}" "f i = f j"
    obtain u x where u: "seconds_after cal i t = Some u" "f i = day_dir cal root n (lt_day u) @ [x]" "starts_with (time_name u) x"
      using f ij(1) by blast
    obtain v y where v: "seconds_after cal j t = Some v" "f j = day_dir cal root n (lt_day v) @ [y]" "starts_with (time_name v) y"
      using f ij(2) by blast
    have valid: "valid_time u" "valid_time v" using seconds_after_of u(1) v(1) assms(2) by blast+
    have "cal_date cal (lt_day u) = cal_date cal (lt_day v)" "x = y" using u(2) v(2) ij(3) by (auto simp: day_dir_def)
    then have day: "lt_day u = lt_day v" and "time_name u = time_name v"
      using assms(1) second_of_entry [OF valid u(3)] v(3) by (auto simp: calendar_ok_def inj_def)
    then have "second_of u = second_of v" using time_name_inject [OF valid] by (simp add: second_of_def)
    then show "i = j" using seconds_after_of [OF u(1) assms(2)] seconds_after_of [OF v(1) assms(2)] by simp
  qed
  moreover have "f ` {..<k} \<subseteq> fst ` set (w_names w)"
  proof
    fix p assume "p \<in> f ` {..<k}"
    then have "node_at w p \<noteq> None" using f by blast
    then show "p \<in> fst ` set (w_names w)" by (simp only: node_at_named)
  qed
  ultimately have "k \<le> card (fst ` set (w_names w))"
    using card_inj_on_le [of f "{..<k}" "fst ` set (w_names w)"] by simp
  also have "\<dots> \<le> length (w_names w)" by (meson card_image_le card_length finite_set le_trans)
  finally show ?thesis .
qed

definition first_free :: "'z calendar \<Rightarrow> path \<Rightarrow> DerivedName \<Rightarrow> world \<Rightarrow> local_time \<Rightarrow> path \<times> string \<Rightarrow> bool" where
  "first_free cal root n w t chosen \<longleftrightarrow>
     (\<exists>k u. seconds_after cal k t = Some u \<and> chosen = (day_dir cal root n (lt_day u), time_name u)
        \<and> \<not> second_taken cal root n w u
        \<and> (\<forall>j<k. \<exists>v. seconds_after cal j t = Some v \<and> second_taken cal root n w v))"

lemma bump_name_spec:
  assumes cal: "calendar_ok cal" "derive_component raw = Inr n" "valid_time t0"
    and "fuel + k = Suc (length (w_names w0))" "seconds_after cal k t0 = Some t"
    and "\<forall>j<k. \<exists>u. seconds_after cal j t0 = Some u \<and> second_taken cal root n w0 u"
    and "deep (length root + 3) w0 w"
  shows "wpE (bump_name cal root n natural fuel bumped t)
    (\<lambda>r _. \<exists>c. r = Some c \<and> (c = natural \<or> first_free cal root n w0 t0 c)) (\<lambda>_ _. True) w"
  using assms(4-)
proof (induction fuel arbitrary: k bumped t w)
  case 0
  then have "Suc (length (w_names w0)) \<le> length (w_names w0)" using taken_bound [OF cal(1,3)] by simp
  then show ?case by simp
next
  case (Suc fuel)
  let ?dir = "day_dir cal root n (lt_day t)"
  have depth: "length root + 3 = length ?dir" by (simp add: day_dir_def)
  have keeps: "keepsE (deep (length root + 3) w0) (ensure_private_directory ?dir)"
    unfolding depth by (rule deep_ensure)
  have entries: "name_taken (time_name t) (dir_entries u ?dir) \<longleftrightarrow> second_taken cal root n w0 t"
    if "deep (length root + 3) w0 u" for u
    using that depth by (simp add: name_taken_iff second_taken_def deep_def)
  have again: "wpE (bump_name cal root n natural fuel True t')
      (\<lambda>r _. \<exists>c. r = Some c \<and> (c = natural \<or> first_free cal root n w0 t0 c)) (\<lambda>_ _. True) u"
    if "next_second cal t = Some t'" "second_taken cal root n w0 t" "deep (length root + 3) w0 u" for t' u
    by (rule Suc.IH [where k = "Suc k"]) (use Suc.prems that in \<open>auto simp: less_Suc_eq\<close>)
  have found: "first_free cal root n w0 t0 (?dir, time_name t)" if "\<not> second_taken cal root n w0 t"
    using Suc.prems(2,3) that unfolding first_free_def by blast
  show ?case
    unfolding bump_name.simps day_directory_eq [OF cal(1,2)] sum.case wpE_try
  proof (rule wpE_mono [OF keepsE_D [OF keeps Suc.prems(4)]])
    fix u assume u: "deep (length root + 3) w0 u"
    show "wpE (fs_read_dir ?dir) (\<lambda>entries. wpE
          (if name_taken (time_name t) entries
           then case next_second cal t of None \<Rightarrow> throwE SegPanic | Some t' \<Rightarrow> bump_name cal root n natural fuel True t'
           else returnE (Some (?dir, time_name t)))
          (\<lambda>r _. \<exists>c. r = Some c \<and> (c = natural \<or> first_free cal root n w0 t0 c)) (\<lambda>_ _. True))
        (\<lambda>e. wpE (returnE (Some natural))
          (\<lambda>r _. \<exists>c. r = Some c \<and> (c = natural \<or> first_free cal root n w0 t0 c)) (\<lambda>_ _. True)) u"
      by (rule wp_read_dir) (use u entries again found in \<open>auto split: option.split simp del: split_paired_Ex\<close>)
  qed (auto simp del: split_paired_Ex)
qed


text \<open>A day whose first two seconds are taken, in a calendar of numbered days.\<close>

definition day_name :: "int \<Rightarrow> string" where
  "day_name d = (if 0 \<le> d then dec_of_nat (nat d) else ''-'' @ dec_of_nat (nat (- d)))"

definition numbered_days :: "unit calendar" where
  "numbered_days = \<lparr>cal_iana = (\<lambda>_. None), cal_offset = (\<lambda>_ _. 0), cal_utc = (), cal_date = day_name, cal_last = 100\<rparr>"

lemma day_name_chars: "c \<in> set (day_name d) \<Longrightarrow> is_digit c \<or> c = CHR ''-''"
  by (auto simp: day_name_def dest: dec_of_nat_digit split: if_splits)

lemma numbered_days_ok: "calendar_ok numbered_days"
proof -
  have first: "CHR ''-'' \<notin> set (dec_of_nat n)" for n
    using dec_of_nat_digit [of "CHR ''-''" n] by (auto simp: byte_simps)
  have "inj day_name"
  proof (rule injI)
    fix d e assume eq: "day_name d = day_name e"
    then have "0 \<le> d \<longleftrightarrow> 0 \<le> e"
      using first [of "nat d"] first [of "nat e"] by (auto simp: day_name_def split: if_splits) (metis list.set_intros(1))+
    with eq show "d = e" by (auto simp: day_name_def dec_of_nat_inject split: if_splits)
  qed
  moreover have "plain_name (day_name d)" for d
  proof -
    have "list_all (\<lambda>c. byte c < 128) (day_name d)" "CHR ''/'' \<notin> set (day_name d)" "CHR ''.'' \<notin> set (day_name d)"
      using day_name_chars [of _ d] by (force simp: list_all_iff byte_simps)+
    moreover have "day_name d \<noteq> []" by (simp add: day_name_def)
    ultimately show ?thesis by (auto simp: plain_name_def valid_utf8_ascii)
  qed
  ultimately show ?thesis by (simp add: calendar_ok_def numbered_days_def)
qed

definition crowded_world :: world where
  "crowded_world = \<lparr>w_names = [([], NDir 0), ([''captures''], NDir 1), ([''captures'', ''0''], NDir 2), ([''captures'', ''0'', ''host''], NDir 3),
     ([''captures'', ''0'', ''host'', ''000000_300''], NDir 4), ([''captures'', ''0'', ''host'', ''000001.incomplete''], NDir 5)],
     w_data = [], w_mode = [], w_next = 6, w_outcomes = [], w_pid = 1, w_counter = 0,
     w_fault = \<lparr>af_fault = None, af_target = None, af_prefix = None, af_remaining = 0\<rparr>\<rparr>"


lemma crowded_choice:
  "fst (choose_name numbered_days [] (DerivedName ''host'') (to_offset 5 0) crowded_world)
   = Inr (Some ([''captures'', ''0'', ''host''], ''000002''))"
  by code_simp

end
