(* ===== verification/Manager.thy ===== *)
theory Manager
  imports Opening Tmux
begin

text \<open>
  The segment manager of the observer (\<open>src/observer.rs\<close>, \<open>SegmentManager\<close>): the open segment, its
  rotation when the interval is over, and what a poll appends to it. What the operations take from
  outside is an \<open>observer_env\<close>; an error keeps its \<open>SegmentError\<close>, which the code turns into text.
\<close>

datatype ManagerWarning = ZoneUnreadable string | CaptureRolledBack string SegmentError | ActivityRolledBack

record ('z, 'x, 'ts) observer_env =
  ob_json :: "SegmentMetadata \<Rightarrow> string + bytes"
  ob_json_ct :: "CaptureTime \<Rightarrow> string + bytes"
  ob_frame :: "CaptureResult \<Rightarrow> nat \<Rightarrow> 'ts \<Rightarrow> string + bytes"
  ob_hash :: "string \<Rightarrow> nat"
  ob_stamp :: "int \<Rightarrow> int \<Rightarrow> 'ts"
  ob_calendar :: "'z calendar"
  ob_zone :: "'x \<Rightarrow> (string + 'z) \<times> 'x"
  ob_root :: path
  ob_stream :: DerivedName

record ('z, 'x) SegmentManager =
  mg_segment :: "FileStorage SegmentState"
  mg_zone :: "'z zone_state"
  mg_source :: 'x
  mg_warnings :: "ManagerWarning list"
  mg_signals :: "SegmentClose list"

type_synonym ('z, 'x, 'e, 'a) mgr = "(('z, 'x) SegmentManager \<times> world, 'e, 'a) comp"

definition on_segment :: "(FileStorage, 'e, 'a) seg \<Rightarrow> ('z, 'x, 'e, 'a) mgr" where
  "on_segment m s =
     (case s of (g, w) \<Rightarrow> (case m (mg_segment g, w) of (r, (sg, w')) \<Rightarrow> (r, (g\<lparr>mg_segment := sg\<rparr>, w'))))"

definition on_files :: "('e, 'a) io \<Rightarrow> ('z, 'x, 'e, 'a) mgr" where
  "on_files m s = (case s of (g, w) \<Rightarrow> (case m w of (r, w') \<Rightarrow> (r, (g, w'))))"

definition manager_warn :: "ManagerWarning \<Rightarrow> ('z, 'x, 'e, unit) mgr" where
  "manager_warn m = modifyE (\<lambda>(g, w). (g\<lparr>mg_warnings := mg_warnings g @ [m]\<rparr>, w))"

text \<open>\<open>SyncWake::segment_closed\<close>, seen from the manager\<close>

definition signal_close :: "SegmentClose \<Rightarrow> ('z, 'x, 'e, unit) mgr" where
  "signal_close c = modifyE (\<lambda>(g, w). (g\<lparr>mg_signals := mg_signals g @ [c]\<rparr>, w))"

definition read_zone :: "('z, 'x, 'ts) observer_env \<Rightarrow> ('z, 'x, 'e, 'z \<times> string option) mgr" where
  "read_zone env =
     bindE (getsE fst) (\<lambda>g.
     case ob_zone env (mg_source g) of (answer, src) \<Rightarrow>
       (case current_zone (ob_calendar env) answer (mg_zone g) of (zone, z, cause) \<Rightarrow>
          bindE (modifyE (\<lambda>(g, w). (g\<lparr>mg_zone := z, mg_source := src\<rparr>, w))) (\<lambda>_.
          bindE (case cause of None \<Rightarrow> returnE () | Some c \<Rightarrow> manager_warn (ZoneUnreadable c)) (\<lambda>_.
          returnE zone))))"

definition opened :: "('z, 'x, 'ts) observer_env \<Rightarrow> int \<Rightarrow> nat \<Rightarrow> nat
    \<Rightarrow> ('z, 'x, SegmentError, FileStorage SegmentState) mgr" where
  "opened env wall now interval =
     bindE (read_zone env) (\<lambda>zone.
     on_files (open_segment (ob_json env) (ob_calendar env) (ob_root env) (ob_stream env) wall now interval zone []))"

definition close_segment :: "('z, 'x, 'ts) observer_env \<Rightarrow> nat \<Rightarrow> ('z, 'x, SegmentError, SegmentClose) mgr" where
  "close_segment env now =
     on_segment (finalize (write_metadata (ob_json env)) sync_and_close (ob_json_ct env) now)"

definition rotate_segment :: "('z, 'x, 'ts) observer_env \<Rightarrow> int \<Rightarrow> nat \<Rightarrow> nat \<Rightarrow> ('z, 'x, SegmentError, unit) mgr" where
  "rotate_segment env wall now interval =
     bindE (close_segment env now) (\<lambda>close.
     bindE (signal_close close) (\<lambda>_.
     bindE (opened env wall now interval) (\<lambda>segment.
     modifyE (\<lambda>(g, w). (g\<lparr>mg_segment := segment\<rparr>, w)))))"

text \<open>An append that rolled back is retried at the next poll; any other failure ends the poll.\<close>

definition tolerate :: "(SegmentError \<Rightarrow> ManagerWarning) \<Rightarrow> ('z, 'x, SegmentError, 'a) mgr \<Rightarrow> ('z, 'x, SegmentError, unit) mgr" where
  "tolerate warning m =
     tryE m (\<lambda>r. case r of
       Inr _ \<Rightarrow> returnE ()
     | Inl e \<Rightarrow> if is_recoverable_append e then manager_warn (warning e) else throwE e)"

definition append_one :: "('z, 'x, 'ts) observer_env \<Rightarrow> 'ts \<Rightarrow> nat \<Rightarrow> CaptureResult \<Rightarrow> ('z, 'x, SegmentError, unit) mgr" where
  "append_one env timestamp now capture =
     tolerate (CaptureRolledBack (cap_session capture))
       (on_segment (append_capture (append_frame (ob_json env)) (ob_frame env) (ob_hash env) capture timestamp now))"

definition process_poll :: "('z, 'x, 'ts) observer_env \<Rightarrow> PollOutcome \<Rightarrow> int \<Rightarrow> nat \<Rightarrow> nat \<Rightarrow> ('z, 'x, SegmentError, unit) mgr" where
  "process_poll env outcome wall now interval =
     bindE (getsE (\<lambda>(g, _). rotation_due (mg_segment g) now interval)) (\<lambda>due.
     bindE (if due then rotate_segment env wall now interval else returnE ()) (\<lambda>_.
     bindE (getsE (\<lambda>(g, _). ob_stamp env (start_wall_unix_nanos (sg_metadata (mg_segment g))) wall)) (\<lambda>timestamp.
     bindE (forE (append_one env timestamp now) (captures outcome)) (\<lambda>_.
     if activity_jsonl outcome = [] then returnE ()
     else tolerate (\<lambda>_. ActivityRolledBack)
       (on_segment (append_activity (append_frame (ob_json env)) (activity_jsonl outcome) now))))))"

definition manager_shutdown :: "('z, 'x, 'ts) observer_env \<Rightarrow> nat \<Rightarrow> ('z, 'x, SegmentError, SegmentClose) mgr" where
  "manager_shutdown env now = close_segment env now"

text \<open>\<open>SegmentManager::start\<close>\<close>

definition manager_start :: "('z, 'x, 'ts) observer_env \<Rightarrow> 'x \<Rightarrow> int \<Rightarrow> nat \<Rightarrow> nat
    \<Rightarrow> (SegmentError, ('z, 'x) SegmentManager) io" where
  "manager_start env src wall now interval =
     (case ob_zone env src of (answer, src') \<Rightarrow>
        (case current_zone (ob_calendar env) answer \<lparr>zn_last = None, zn_warned = False\<rparr> of (zone, z, cause) \<Rightarrow>
           bindE (open_segment (ob_json env) (ob_calendar env) (ob_root env) (ob_stream env) wall now interval zone []) (\<lambda>segment.
           returnE \<lparr>mg_segment = segment, mg_zone = z, mg_source = src',
                    mg_warnings = (case cause of None \<Rightarrow> [] | Some c \<Rightarrow> [ZoneUnreadable c]), mg_signals = []\<rparr>)))"

subsection \<open>A poll only appends\<close>

lemma wpE_on_segment [simp]:
  "wpE (on_segment m) Q R =
     (\<lambda>(g, w). wpE m (\<lambda>x (sg, w'). Q x (g\<lparr>mg_segment := sg\<rparr>, w')) (\<lambda>e (sg, w'). R e (g\<lparr>mg_segment := sg\<rparr>, w'))
        (mg_segment g, w))"
  by (auto simp: fun_eq_iff wpE_def on_segment_def split: prod.splits sum.splits)

text \<open>Every file of the directory holds what it held, and possibly more after it.\<close>

definition grown :: "path \<Rightarrow> world \<Rightarrow> world \<Rightarrow> bool" where
  "grown d w w' \<longleftrightarrow> (\<forall>f. \<exists>b. file_bytes w' (d @ [f]) = file_bytes w (d @ [f]) @ b)"

lemma grown_refl: "grown d w w"
  by (simp add: grown_def)

lemma grown_grew: "grown d w u \<Longrightarrow> grew d f b u v \<Longrightarrow> grown d w v"
  by (auto simp: grown_def grew_def) (metis append_assoc)

lemma grown_still: "grown d w u \<Longrightarrow> still d u v \<Longrightarrow> grown d w v"
  by (simp add: grown_def still_def)

definition recording :: "('z, 'x, 'ts) observer_env \<Rightarrow> path \<Rightarrow> world \<Rightarrow> ('z, 'x) SegmentManager \<times> world \<Rightarrow> bool" where
  "recording env d w0 s \<longleftrightarrow>
     (case s of (g, w) \<Rightarrow>
        segment_ok storage_ok storage_home (to_bytes (ob_json env)) (mg_segment g, w)
        \<and> \<not> sg_poisoned (mg_segment g) \<and> sg_closed (mg_segment g) = None
        \<and> sg_incomplete_dir (mg_segment g) = d \<and> grown d w0 w)"

definition recording_or_poisoned ::
  "('z, 'x, 'ts) observer_env \<Rightarrow> path \<Rightarrow> world \<Rightarrow> ('z, 'x) SegmentManager \<times> world \<Rightarrow> bool" where
  "recording_or_poisoned env d w0 s \<longleftrightarrow> sg_poisoned (mg_segment (fst s)) \<or> recording env d w0 s"

text \<open>A capture is in the segment, or its append was rolled back with a warning.\<close>

definition accounted :: "('z, 'x, 'ts) observer_env \<Rightarrow> CaptureResult \<Rightarrow> ('z, 'x) SegmentManager \<Rightarrow> bool" where
  "accounted env c g \<longleftrightarrow>
     map_of (sg_digests (mg_segment g)) (cap_session c) = Some (capture_digest (ob_hash env) c)
     \<or> (\<exists>e. is_recoverable_append e \<and> CaptureRolledBack (cap_session c) e \<in> set (mg_warnings g))"

text \<open>What an append does to the table of digests.\<close>

lemma append_capture_digest:
  "wpE (append_capture app ser hash c ts now)
     (\<lambda>r (g', w'). map_of (sg_digests g') (cap_session c) = Some (capture_digest hash c)
        \<and> (\<forall>t. t \<noteq> cap_session c \<longrightarrow> map_of (sg_digests g') t = map_of (sg_digests g) t))
     (\<lambda>e (g', w'). sg_digests g' = sg_digests g \<and> (is_recoverable_append e \<longrightarrow> sg_poisoned g' = sg_poisoned g)) (g, w)"
proof -
  have commit: "wpE (commit_frame app frame note_it)
      (\<lambda>_ (g', w'). sg_digests g' = sg_digests (note_it g))
      (\<lambda>e (g', w'). sg_digests g' = sg_digests g \<and> (is_recoverable_append e \<longrightarrow> sg_poisoned g' = sg_poisoned g)) (g, w)"
    if "\<And>g h m. sg_digests (note_it (g\<lparr>sg_storage := h, sg_metadata := m\<rparr>)) = sg_digests (note_it g)" for frame note_it
    unfolding commit_frame_def
    by (auto simp: wpE_def on_storage_def tryE_def bindE_def modifyE_def throwE_def that
        split: prod.splits sum.splits) (auto elim!: is_recoverable_append.elims)
  show ?thesis
    unfolding append_capture_def Let_def wpE_bind wpE_gets fst_conv
    by (auto simp: update_conv split: sum.split prod.split intro!: wpE_mono [OF commit])
qed

lemma session_lengths:
  assumes "segment_ok storage_ok storage_home enc (g, w)" "derive_component t = Inr k"
  shows "session_offset (sg_metadata g) t = length (file_bytes w (sg_incomplete_dir g @ [session_filename k]))"
  using assms by (simp add: segment_ok_def files_match_def)

definition others_same :: "string \<Rightarrow> ('z, 'x) SegmentManager \<Rightarrow> ('z, 'x) SegmentManager \<Rightarrow> bool" where
  "others_same s g g' \<longleftrightarrow>
     (\<forall>t k. derive_component t = Inr k \<longrightarrow> t \<noteq> s
        \<longrightarrow> session_offset (sg_metadata (mg_segment g')) t = session_offset (sg_metadata (mg_segment g)) t)
     \<and> (\<forall>t. t \<noteq> s \<longrightarrow> map_of (sg_digests (mg_segment g')) t = map_of (sg_digests (mg_segment g)) t)
     \<and> set (mg_warnings g) \<subseteq> set (mg_warnings g')"

lemma lengths_grew:
  assumes "segment_ok storage_ok storage_home enc (g, w)" "segment_ok storage_ok storage_home enc (g', w')"
    and "sg_incomplete_dir g' = sg_incomplete_dir g" "grew (sg_incomplete_dir g) (session_filename n) b w w'"
    and "derive_component s = Inr n" "derive_component t = Inr k" "t \<noteq> s"
  shows "session_offset (sg_metadata g') t = session_offset (sg_metadata g) t"
proof -
  have "session_filename k \<noteq> session_filename n"
    using derived_filename_inject [OF assms(6,5)] assms(7) by blast
  then show ?thesis
    using session_lengths [OF assms(1,6)] session_lengths [OF assms(2,6)] assms(3,4) by (simp add: grew_def)
qed

lemma append_one_step:
  assumes I: "recording env d w0 (g, w)" and n: "derive_component (cap_session c) = Inr n"
    and fits: "\<forall>i b. ob_frame env c i ts = Inr b
      \<longrightarrow> session_offset (sg_metadata (mg_segment g)) (cap_session c) + length b \<le> u64_max"
  shows "wpE (append_one env ts now c)
    (\<lambda>_ s. recording env d w0 s \<and> accounted env c (fst s) \<and> others_same (cap_session c) g (fst s))
    (\<lambda>_. recording_or_poisoned env d w0) (g, w)"
proof -
  let ?sg = "mg_segment g"
  have seg: "segment_ok storage_ok storage_home (to_bytes (ob_json env)) (?sg, w)" "\<not> sg_poisoned ?sg" "sg_closed ?sg = None"
    and d: "sg_incomplete_dir ?sg = d" and grown: "grown d w0 w"
    using I by (auto simp: recording_def)
  have kept: "recording env d w0 (g\<lparr>mg_segment := g'\<rparr>, w')"
    if "same_segment ?sg g'" "segment_ok storage_ok storage_home (to_bytes (ob_json env)) (g', w')" "\<not> sg_poisoned g'" "grown d w w'" for g' w'
  proof -
    have "grown d w0 w'" using grown that(4) by (auto simp: grown_def) (metis append_assoc)
    then show ?thesis using that seg(3) d by (simp add: recording_def same_segment_def)
  qed
  have taken: "recording env d w0 s \<and> accounted env c (fst s) \<and> others_same (cap_session c) g (fst s)"
    if s: "s = (g\<lparr>mg_segment := g'\<rparr>, w')"
      and r: "case r of Unchanged \<Rightarrow> g' = ?sg \<and> w' = w \<and> map_of (sg_digests ?sg) (cap_session c) = Some (capture_digest (ob_hash env) c)
        | Appended i \<Rightarrow> segment_ok storage_ok storage_home (to_bytes (ob_json env)) (g', w') \<and> same_segment ?sg g' \<and> \<not> sg_poisoned g'
          \<and> i = Suc (last_durable_frame_id (sg_metadata ?sg))
          \<and> (\<exists>n b. derive_component (cap_session c) = Inr n \<and> ob_frame env c i ts = Inr b \<and> grew (sg_incomplete_dir ?sg) (session_filename n) b w w')"
      and digest: "map_of (sg_digests g') (cap_session c) = Some (capture_digest (ob_hash env) c)"
        "\<forall>t. t \<noteq> cap_session c \<longrightarrow> map_of (sg_digests g') t = map_of (sg_digests ?sg) t" for s g' w' r
  proof (cases r)
    case (Appended i)
    with r n obtain b where g': "segment_ok storage_ok storage_home (to_bytes (ob_json env)) (g', w')" "same_segment ?sg g'" "\<not> sg_poisoned g'"
      "grew d (session_filename n) b w w'" using d by auto
    have "others_same (cap_session c) g (g\<lparr>mg_segment := g'\<rparr>)"
      using lengths_grew [OF seg(1) g'(1) _ _ n] g'(2,4) digest(2) d by (auto simp: others_same_def same_segment_def)
    then show ?thesis
      using kept [OF g'(2,1,3) grown_grew [OF grown_refl g'(4)]] digest(1) by (simp add: s accounted_def)
  next
    case Unchanged
    with r I digest show ?thesis by (simp add: s accounted_def others_same_def)
  qed
  have failed: "recording_or_poisoned env d w0 (g\<lparr>mg_segment := g'\<rparr>, w')"
    if "same_segment ?sg g'" "sg_poisoned g' \<or> segment_ok storage_ok storage_home (to_bytes (ob_json env)) (g', w') \<and> still (sg_incomplete_dir ?sg) w w'" for g' w'
    using that kept [OF that(1)] grown_still [OF grown_refl, of d w w'] d by (auto simp: recording_or_poisoned_def)
  have rolled: "recording env d w0 s \<and> accounted env c (fst s) \<and> others_same (cap_session c) g (fst s)"
    if e: "is_recoverable_append e" and s: "s = (g\<lparr>mg_segment := g', mg_warnings := mg_warnings g @ [CaptureRolledBack (cap_session c) e]\<rparr>, w')"
      and g': "same_segment ?sg g'" "sg_metadata g' = sg_metadata ?sg" "sg_digests g' = sg_digests ?sg" "sg_poisoned g' = sg_poisoned ?sg"
      and st: "sg_poisoned g' \<or> segment_ok storage_ok storage_home (to_bytes (ob_json env)) (g', w') \<and> still (sg_incomplete_dir ?sg) w w'" for s e g' w'
  proof -
    have "recording env d w0 (g\<lparr>mg_segment := g'\<rparr>, w')"
      using kept [OF g'(1), of w'] st g'(4) seg(2) grown_still [OF grown_refl, of d w w'] d by auto
    then show ?thesis using e g' by (auto simp: s recording_def accounted_def others_same_def)
  qed
  show ?thesis
    unfolding append_one_def tolerate_def wpE_try wpE_on_segment split_conv
    apply (rule wpE_mono [OF wpE_conj [OF file_storage.append_capture_spec [where ser = "ob_frame env", OF seg fits] append_capture_digest]])
    subgoal for r s using taken by (cases s) auto
    subgoal for e s using failed rolled by (cases s) (auto simp: manager_warn_def)
    done
qed

lemma accounted_others:
  "accounted env c g \<Longrightarrow> others_same s g g' \<Longrightarrow> cap_session c \<noteq> s \<Longrightarrow> accounted env c g'"
  by (auto simp: accounted_def others_same_def)

lemma append_all:
  assumes "recording env d w0 (g, w)" "distinct (map cap_session cs)"
    "\<forall>c\<in>set cs. \<exists>n. derive_component (cap_session c) = Inr n"
    and size: "\<forall>c i b. ob_frame env c i ts = Inr b \<longrightarrow> length b \<le> B"
    and room: "\<forall>c\<in>set cs. session_offset (sg_metadata (mg_segment g)) (cap_session c) + B \<le> u64_max"
  shows "wpE (forE (append_one env ts now) cs)
    (\<lambda>_ s. recording env d w0 s \<and> (\<forall>c\<in>set cs. accounted env c (fst s))
       \<and> (\<forall>c. cap_session c \<notin> cap_session ` set cs \<longrightarrow> accounted env c g \<longrightarrow> accounted env c (fst s)))
    (\<lambda>_. recording_or_poisoned env d w0) (g, w)"
  using assms(1,2,3) room
proof (induction cs arbitrary: g w)
  case (Cons c cs)
  obtain n where n: "derive_component (cap_session c) = Inr n" using Cons.prems(3) by auto
  have fits: "\<forall>i b. ob_frame env c i ts = Inr b \<longrightarrow> session_offset (sg_metadata (mg_segment g)) (cap_session c) + length b \<le> u64_max"
  proof (intro allI impI)
    fix i b assume "ob_frame env c i ts = Inr b"
    then have "length b \<le> B" using size by blast
    with Cons.prems(4) show "session_offset (sg_metadata (mg_segment g)) (cap_session c) + length b \<le> u64_max" by auto
  qed
  have later: "wpE (forE (append_one env ts now) cs)
      (\<lambda>_ s. recording env d w0 s \<and> (\<forall>k\<in>set (c # cs). accounted env k (fst s))
         \<and> (\<forall>k. cap_session k \<notin> cap_session ` set (c # cs) \<longrightarrow> accounted env k g \<longrightarrow> accounted env k (fst s)))
      (\<lambda>_. recording_or_poisoned env d w0) s"
    if s: "recording env d w0 s \<and> accounted env c (fst s) \<and> others_same (cap_session c) g (fst s)" for s
  proof -
    obtain g' w' where [simp]: "s = (g', w')" by fastforce
    have room': "\<forall>k\<in>set cs. session_offset (sg_metadata (mg_segment g')) (cap_session k) + B \<le> u64_max"
    proof
      fix k assume k: "k \<in> set cs"
      then have "cap_session k \<in> cap_session ` set cs" "\<exists>n. derive_component (cap_session k) = Inr n" using Cons.prems(3) by auto
      moreover from this have "cap_session k \<noteq> cap_session c" using Cons.prems(2) by auto
      ultimately show "session_offset (sg_metadata (mg_segment g')) (cap_session k) + B \<le> u64_max"
        using s Cons.prems(4) k by (auto simp: others_same_def)
    qed
    have "wpE (forE (append_one env ts now) cs)
      (\<lambda>_ s. recording env d w0 s \<and> (\<forall>k\<in>set cs. accounted env k (fst s))
         \<and> (\<forall>k. cap_session k \<notin> cap_session ` set cs \<longrightarrow> accounted env k g' \<longrightarrow> accounted env k (fst s)))
      (\<lambda>_. recording_or_poisoned env d w0) (g', w')"
      by (rule Cons.IH) (use s Cons.prems room' in auto)
    moreover have "accounted env k g'" if "accounted env k g" "cap_session k \<noteq> cap_session c" for k
      using accounted_others that s by fastforce
    ultimately show ?thesis
      unfolding \<open>s = (g', w')\<close> using s Cons.prems(2) by (elim wpE_mono) auto
  qed
  show ?case
    unfolding forE.simps wpE_bind
    by (rule wpE_mono [OF append_one_step [OF Cons.prems(1) n fits]]) (use later in auto)
qed simp

lemma append_activity_digest:
  "wpE (append_activity app b now) (\<lambda>_ (g', w'). sg_digests g' = sg_digests g)
     (\<lambda>e (g', w'). sg_digests g' = sg_digests g \<and> (is_recoverable_append e \<longrightarrow> sg_poisoned g' = sg_poisoned g)) (g, w)"
proof -
  have commit: "wpE (commit_frame app frame (\<lambda>g. g))
      (\<lambda>_ (g', w'). sg_digests g' = sg_digests g)
      (\<lambda>e (g', w'). sg_digests g' = sg_digests g \<and> (is_recoverable_append e \<longrightarrow> sg_poisoned g' = sg_poisoned g)) (g, w)" for frame
    unfolding commit_frame_def
    by (auto simp: wpE_def on_storage_def tryE_def bindE_def modifyE_def throwE_def
        split: prod.splits sum.splits) (auto elim!: is_recoverable_append.elims)
  show ?thesis
    unfolding append_activity_def Let_def wpE_bind wpE_gets fst_conv
    by (auto split: sum.split intro!: wpE_mono [OF commit])
qed

lemma append_activity_step:
  assumes I: "recording env d w0 (g, w)" and b: "b \<noteq> []"
  shows "wpE (tolerate (\<lambda>_. ActivityRolledBack) (on_segment (append_activity (append_frame (ob_json env)) b now)))
    (\<lambda>_ s. recording env d w0 s \<and> (\<forall>c. accounted env c g \<longrightarrow> accounted env c (fst s)))
    (\<lambda>_. recording_or_poisoned env d w0) (g, w)"
proof -
  let ?sg = "mg_segment g"
  have seg: "segment_ok storage_ok storage_home (to_bytes (ob_json env)) (?sg, w)" "\<not> sg_poisoned ?sg" "sg_closed ?sg = None"
    and d: "sg_incomplete_dir ?sg = d" and grown: "grown d w0 w"
    using I by (auto simp: recording_def)
  obtain stem where stem: "segment_stem (incomplete_name (sg_metadata ?sg)) = Some stem"
    using seg(1) by (auto simp: segment_ok_def stem_ok_def)
  have kept: "recording env d w0 (g\<lparr>mg_segment := g'\<rparr>, w')"
    if "same_segment ?sg g'" "segment_ok storage_ok storage_home (to_bytes (ob_json env)) (g', w')" "\<not> sg_poisoned g'"
      "still d w w' \<or> grew d f b w w'" for g' w' f b
    using that seg(3) d grown_still [OF grown, of w'] grown_grew [OF grown, of f b w']
    by (auto simp: recording_def same_segment_def)
  show ?thesis
    unfolding tolerate_def wpE_try wpE_on_segment split_conv
    apply (rule wpE_mono [OF wpE_conj [OF file_storage.append_activity_spec [OF seg b stem] append_activity_digest]])
    subgoal for r s using kept d by (cases s) (auto simp: accounted_def)
    subgoal for e s
      using kept [where w' = "snd s" and g' = "fst s"] d seg(2)
      by (cases s) (auto simp: manager_warn_def recording_or_poisoned_def recording_def accounted_def)
    done
qed


definition sample_env :: "(unit, unit, unit) observer_env" where
  "sample_env = \<lparr>ob_json = (\<lambda>_. Inr ''{}''), ob_json_ct = (\<lambda>_. Inr ''{}''), ob_frame = (\<lambda>c i t. Inr ''row''), ob_hash = length,
     ob_stamp = (\<lambda>_ _. ()), ob_calendar = numbered_days, ob_zone = (\<lambda>x. (Inr (), x)), ob_root = [], ob_stream = DerivedName ''host''\<rparr>"

definition sample_manager :: "(unit, unit) SegmentManager" where
  "sample_manager = \<lparr>mg_segment = sample_segment, mg_zone = \<lparr>zn_last = None, zn_warned = False\<rparr>, mg_source = (),
     mg_warnings = [], mg_signals = []\<rparr>"

definition polled_capture :: CaptureResult where
  "polled_capture =
     (let w = \<lparr>win_id = ''@1'', win_index = 0, win_name = ''sh'', win_active = True\<rparr> in
      \<lparr>cap_session = ''main'', cap_window = w, cap_windows = [w],
       cap_panes = [\<lparr>pane_id = ''%1'', pane_index = 0, pane_left = 0, pane_top = 0, pane_width = 80, pane_height = 24,
          pane_active = True, cursor_x = 0, cursor_y = 0, cursor_visible = True, alternate_on = False,
          pane_in_mode = False, pane_content = ''x''\<rparr>],
       output_only = False\<rparr>)"

definition sample_outcome :: PollOutcome where
  "sample_outcome = \<lparr>captures = [polled_capture], activity_jsonl = ''{}''\<rparr>"


end
