(* ===== verification/Observer.thy ===== *)
theory Observer
  imports Manager Sweep
begin

text \<open>
  The observer's loop and the supervision of the process (\<open>src/observer.rs\<close>). What the outside does
  is a script: for the loop, one entry per tick (a shutdown, the outcome of the poll, a failed
  blocking task); for the supervisor, the branch each \<open>select!\<close> takes, and what the tasks return.
  A loop whose script ends is still running, \<open>None\<close>. What the supervisor does to the parts it owns is
  a trace of steps.
\<close>

subsection \<open>Failures and exits\<close>

datatype ShutdownEvent = SigInt | SigTerm | Injected

datatype JoinError = TaskPanicked "string option" | TaskCancelled

fun is_panic :: "JoinError \<Rightarrow> bool" where
  "is_panic (TaskPanicked m) \<longleftrightarrow> True"
| "is_panic TaskCancelled \<longleftrightarrow> False"

fun join_error_message :: "JoinError \<Rightarrow> string" where
  "join_error_message (TaskPanicked (Some m)) = ''panic: '' @ m"
| "join_error_message (TaskPanicked None) = ''panic: non-string panic payload''"
| "join_error_message TaskCancelled = ''task was cancelled''"

record ObserverExit =
  ox_code :: int
  ox_event :: "ShutdownEvent option"
  ox_failures :: "string list"

record FailureWarning = fw_failing :: bool

text \<open>\<open>FailureWarning::record\<close>: whether it warns, and the state after it\<close>

definition record_failure :: "string + unit \<Rightarrow> FailureWarning \<Rightarrow> string option \<times> FailureWarning" where
  "record_failure r f =
     (case r of
        Inr _ \<Rightarrow> (None, f\<lparr>fw_failing := False\<rparr>)
      | Inl e \<Rightarrow> (if fw_failing f then None else Some e, f\<lparr>fw_failing := True\<rparr>))"

subsection \<open>The loop\<close>

text \<open>\<open>SegmentLifecycle\<close>, with the errors as text\<close>

record 'g lifecycle =
  lc_poll :: "PollOutcome \<Rightarrow> int \<Rightarrow> nat \<Rightarrow> 'g \<Rightarrow> (string + unit) \<times> 'g"
  lc_shutdown :: "nat \<Rightarrow> 'g \<Rightarrow> (string + SegmentClose) \<times> 'g"

datatype poll_result = PollShutdown ShutdownEvent | PollDone PollOutcome | PollFailed string
  | PollTaskFailed JoinError | PollGone

record tick =
  tk_shutdown :: "ShutdownEvent option"
  tk_wall :: int
  tk_now :: nat
  tk_poll :: poll_result
  tk_blocking :: "JoinError option"

record 'g observing =
  og_segment :: 'g
  og_failures :: "string list"
  og_warning :: FailureWarning
  og_warned :: "string list"

datatype 'g loop_end = Broke "ShutdownEvent option" "'g observing" | Returned ObserverExit

definition no_outcome :: PollOutcome where "no_outcome = \<lparr>captures = [], activity_jsonl = []\<rparr>"

definition note_poll :: "string + unit \<Rightarrow> 'g observing \<Rightarrow> 'g observing" where
  "note_poll r s =
     (case record_failure r (og_warning s) of (shown, f) \<Rightarrow>
        s\<lparr>og_warning := f, og_warned := og_warned s @ (case shown of None \<Rightarrow> [] | Some m \<Rightarrow> [m])\<rparr>)"

definition fail_with :: "string \<Rightarrow> 'g observing \<Rightarrow> 'g observing" where
  "fail_with m s = s\<lparr>og_failures := og_failures s @ [m]\<rparr>"

text \<open>What becomes of the poll: an outcome to record, or the end of the loop.\<close>

definition poll_outcome :: "poll_result \<Rightarrow> 'g observing \<Rightarrow> 'g loop_end + PollOutcome \<times> 'g observing" where
  "poll_outcome r s =
     (case r of
        PollShutdown e \<Rightarrow> Inl (Broke (Some e) s)
      | PollDone out \<Rightarrow> Inr (out, note_poll (Inr ()) s)
      | PollFailed e \<Rightarrow> Inr (no_outcome, note_poll (Inl (''capture poll skipped: '' @ e)) s)
      | PollTaskFailed e \<Rightarrow> Inl (Broke None (fail_with (''capture task failed: '' @ join_error_message e) s))
      | PollGone \<Rightarrow> Inl (Broke None (fail_with ''capture task exited without a result'' s)))"

definition observe_tick :: "'g lifecycle \<Rightarrow> tick \<Rightarrow> 'g observing \<Rightarrow> 'g loop_end + 'g observing" where
  "observe_tick lc t s =
     (case tk_shutdown t of
        Some e \<Rightarrow> Inl (Broke (Some e) s)
      | None \<Rightarrow>
          bindS (poll_outcome (tk_poll t) s) (\<lambda>(out, s).
          case tk_blocking t of
            Some e \<Rightarrow> Inl (Returned \<lparr>ox_code = 1, ox_event = None,
                ox_failures = og_failures s @ [''blocking segment task failed: '' @ join_error_message e]\<rparr>)
          | None \<Rightarrow>
              (case lc_poll lc out (tk_wall t) (tk_now t) (og_segment s) of
                 (Inr _, g) \<Rightarrow> Inr (s\<lparr>og_segment := g\<rparr>)
               | (Inl e, g) \<Rightarrow> Inl (Broke None (fail_with (''segment poll failed: '' @ e) (s\<lparr>og_segment := g\<rparr>))))))"

fun observe_loop :: "'g lifecycle \<Rightarrow> tick list \<Rightarrow> 'g observing \<Rightarrow> 'g loop_end option" where
  "observe_loop lc [] s = None"
| "observe_loop lc (t # ts) s =
     (case observe_tick lc t s of Inl e \<Rightarrow> Some e | Inr s' \<Rightarrow> observe_loop lc ts s')"

text \<open>After the loop: the barrier, then the segment is shut down with the time capture ended at.\<close>

definition shut_segment :: "'g lifecycle \<Rightarrow> nat \<Rightarrow> JoinError option \<Rightarrow> 'g observing \<Rightarrow> 'g observing" where
  "shut_segment lc now blocking s =
     (case blocking of
        Some e \<Rightarrow> fail_with (''blocking segment shutdown failed: '' @ join_error_message e) s
      | None \<Rightarrow>
          (case lc_shutdown lc now (og_segment s) of
             (Inr _, g) \<Rightarrow> s\<lparr>og_segment := g\<rparr>
           | (Inl e, g) \<Rightarrow> fail_with (''segment shutdown failed: '' @ e) (s\<lparr>og_segment := g\<rparr>)))"

definition run_observer ::
  "'g lifecycle \<Rightarrow> tick list \<Rightarrow> nat \<Rightarrow> JoinError option \<Rightarrow> 'g \<Rightarrow> ObserverExit option" where
  "run_observer lc ticks now blocking g =
     (case observe_loop lc ticks \<lparr>og_segment = g, og_failures = [], og_warning = \<lparr>fw_failing = False\<rparr>, og_warned = []\<rparr> of
        None \<Rightarrow> None
      | Some (Returned x) \<Rightarrow> Some x
      | Some (Broke event s) \<Rightarrow>
          (let s = shut_segment lc now blocking s in
           Some \<lparr>ox_code = (if og_failures s = [] then 0 else 1), ox_event = event, ox_failures = og_failures s\<rparr>))"

text \<open>The segment manager as the lifecycle of the loop; \<open>text\<close> is the display of a segment error.\<close>

definition manager_lifecycle ::
  "(SegmentError \<Rightarrow> string) \<Rightarrow> ('z, 'x, 'ts) observer_env \<Rightarrow> nat \<Rightarrow> (('z, 'x) SegmentManager \<times> world) lifecycle" where
  "manager_lifecycle display env interval =
     \<lparr>lc_poll = (\<lambda>out wall now s. case process_poll env out wall now interval s of
          (Inl e, s') \<Rightarrow> (Inl (display e), s') | (Inr u, s') \<Rightarrow> (Inr u, s')),
      lc_shutdown = (\<lambda>now s. case manager_shutdown env now s of
          (Inl e, s') \<Rightarrow> (Inl (display e), s') | (Inr c, s') \<Rightarrow> (Inr c, s'))\<rparr>"

subsection \<open>The status cell\<close>

text \<open>\<open>SYNCING_LINGER\<close>, in nanoseconds\<close>

definition SYNCING_LINGER :: nat where "SYNCING_LINGER = 1500000000"

record ActivityLinger =
  al_shown :: "SyncActivity option"
  al_idle_at :: "nat option"

definition new_linger :: ActivityLinger where "new_linger = \<lparr>al_shown = None, al_idle_at = None\<rparr>"

definition show_activity :: "SyncActivity \<Rightarrow> ActivityLinger \<Rightarrow> SyncActivity option \<times> ActivityLinger" where
  "show_activity a l = (if al_shown l \<noteq> Some a then (Some a, l\<lparr>al_shown := Some a\<rparr>) else (None, l))"

definition linger_observe :: "SyncActivity \<Rightarrow> nat \<Rightarrow> ActivityLinger \<Rightarrow> SyncActivity option \<times> ActivityLinger" where
  "linger_observe a now l =
     (case a of
        ActivityWorking \<Rightarrow> show_activity ActivityWorking (l\<lparr>al_idle_at := None\<rparr>)
      | ActivityIdle \<Rightarrow>
          if al_shown l = Some ActivityWorking
          then (None, l\<lparr>al_idle_at := (case al_idle_at l of None \<Rightarrow> Some (now + SYNCING_LINGER) | Some at \<Rightarrow> Some at)\<rparr>)
          else show_activity ActivityIdle l)"

definition ends_at :: "ActivityLinger \<Rightarrow> nat option" where "ends_at l = al_idle_at l"

definition linger_expire :: "nat \<Rightarrow> ActivityLinger \<Rightarrow> SyncActivity option \<times> ActivityLinger" where
  "linger_expire now l =
     (case al_idle_at l of
        None \<Rightarrow> (None, l)
      | Some at \<Rightarrow> if at \<le> now then show_activity ActivityIdle (l\<lparr>al_idle_at := None\<rparr>) else (None, l))"

text \<open>A history of the cell: what was observed, or the end of a linger, at which time.\<close>

datatype linger_event = Observed SyncActivity nat | Ended nat

fun linger_time :: "linger_event \<Rightarrow> nat" where
  "linger_time (Observed a t) = t"
| "linger_time (Ended t) = t"

fun linger_step :: "linger_event \<Rightarrow> ActivityLinger \<Rightarrow> SyncActivity option \<times> ActivityLinger" where
  "linger_step (Observed a t) l = linger_observe a t l"
| "linger_step (Ended t) l = linger_expire t l"

fun linger_run :: "linger_event list \<Rightarrow> ActivityLinger \<Rightarrow> (nat \<times> SyncActivity) list \<times> ActivityLinger" where
  "linger_run [] l = ([], l)"
| "linger_run (e # es) l =
     (case linger_step e l of (shown, l') \<Rightarrow>
        (case linger_run es l' of (rest, l'') \<Rightarrow>
           ((case shown of None \<Rightarrow> [] | Some a \<Rightarrow> [(linger_time e, a)]) @ rest, l'')))"

definition worked :: "linger_event list \<Rightarrow> nat set" where
  "worked es = {t. Observed ActivityWorking t \<in> set es}"

lemma linger_run_snoc:
  "snd (linger_run (es @ [e]) l) = snd (linger_step e (snd (linger_run es l)))"
  by (induction es arbitrary: l) (auto split: prod.splits, metis snd_conv)

lemma not_idle: "a \<noteq> ActivityIdle \<longleftrightarrow> a = ActivityWorking"
  by (cases a) auto

lemma worked_snoc:
  "worked (es @ [Observed ActivityWorking t]) = insert t (worked es)" "worked (es @ [Observed ActivityIdle t]) = worked es"
  "worked (es @ [Ended t]) = worked es"
  by (auto simp: worked_def)

definition linger_ok :: "linger_event list \<Rightarrow> ActivityLinger \<Rightarrow> bool" where
  "linger_ok es l \<longleftrightarrow>
     (al_shown l = None \<longrightarrow> worked es = {})
     \<and> (\<forall>at. al_idle_at l = Some at \<longrightarrow> al_shown l = Some ActivityWorking \<and> (\<forall>t\<in>worked es. t + SYNCING_LINGER \<le> at))"

lemma linger_defs:
  "linger_observe a now l =
     (case a of
        ActivityWorking \<Rightarrow> (if al_shown l = Some ActivityWorking then None else Some ActivityWorking,
          l\<lparr>al_idle_at := None, al_shown := Some ActivityWorking\<rparr>)
      | ActivityIdle \<Rightarrow>
          if al_shown l = Some ActivityWorking
          then (None, l\<lparr>al_idle_at := Some (case al_idle_at l of None \<Rightarrow> now + SYNCING_LINGER | Some at \<Rightarrow> at)\<rparr>)
          else (if al_shown l = Some ActivityIdle then None else Some ActivityIdle, l\<lparr>al_shown := Some ActivityIdle\<rparr>))"
  by (cases l) (auto simp: linger_observe_def show_activity_def split: SyncActivity.split option.split)

lemma linger_ok_step:
  assumes "linger_ok es l" "\<forall>t\<in>worked es. t \<le> linger_time e"
  shows "linger_ok (es @ [e]) (snd (linger_step e l))"
proof (cases e)
  case (Observed a t)
  with assms show ?thesis
    by (cases a) (auto simp: linger_ok_def linger_defs worked_snoc split: option.splits)
next
  case (Ended t)
  with assms show ?thesis
    by (auto simp: linger_ok_def linger_expire_def show_activity_def worked_snoc split: option.splits)
qed

lemma worked_before: "sorted (map linger_time (es @ [e])) \<Longrightarrow> t \<in> worked es \<Longrightarrow> t \<le> linger_time e"
  by (auto simp: worked_def sorted_append)

lemma linger_ok_run: "sorted (map linger_time es) \<Longrightarrow> linger_ok es (snd (linger_run es new_linger))"
proof (induction es rule: rev_induct)
  case Nil
  show ?case by (simp add: linger_ok_def new_linger_def worked_def)
next
  case (snoc e es)
  then have "linger_ok es (snd (linger_run es new_linger))" by (simp add: sorted_append)
  then show ?case unfolding linger_run_snoc using worked_before [OF snoc.prems] by (intro linger_ok_step) auto
qed

text \<open>
  The status cell says syncing at once and stops saying so late: an observation of work shows
  working, nothing is shown that is shown already, idle is never shown before a second and a half
  have passed since the last work observed, and the end of the linger shows it.
\<close>

theorem status_cell_lingers:
  assumes "sorted (map linger_time (es @ [e]))" "l = snd (linger_run es new_linger)" "linger_step e l = (shown, l')"
  shows "(\<forall>a. shown = Some a \<longrightarrow> al_shown l \<noteq> Some a \<and> al_shown l' = Some a)
    \<and> (\<forall>t. e = Observed ActivityWorking t \<longrightarrow> al_shown l' = Some ActivityWorking)
    \<and> (shown = Some ActivityIdle \<longrightarrow> (\<forall>t\<in>worked es. t + SYNCING_LINGER \<le> linger_time e))
    \<and> (\<forall>t at. e = Ended t \<and> ends_at l = Some at \<and> at \<le> t \<longrightarrow> shown = Some ActivityIdle)"
proof -
  have "linger_ok es l" unfolding assms(2) using assms(1) by (intro linger_ok_run) (simp add: sorted_append)
  with assms(3) show ?thesis
  proof (cases e)
    case (Observed a t)
    with assms(3) \<open>linger_ok es l\<close> show ?thesis
      by (cases a) (auto simp: linger_defs linger_ok_def not_idle split: if_splits)
  next
    case (Ended t)
    with assms(3) \<open>linger_ok es l\<close> show ?thesis
      by (fastforce simp: linger_expire_def show_activity_def linger_ok_def ends_at_def split: option.splits if_splits)
  qed
qed

text \<open>Work, a pause, work again within the linger, and the end of it.\<close>

theorem status_cell_lingers_witness:
  "fst (linger_step (Ended 3600000000) (snd (linger_run
      [Observed ActivityWorking 0, Observed ActivityIdle 1000000000, Observed ActivityWorking 2000000000, Observed ActivityIdle 2100000000] new_linger)))
   = Some ActivityIdle
   \<and> 2000000000 + SYNCING_LINGER \<le> 3600000000"
proof -
  let ?es = "[Observed ActivityWorking 0, Observed ActivityIdle 1000000000, Observed ActivityWorking 2000000000, Observed ActivityIdle 2100000000]"
  let ?l = "snd (linger_run ?es new_linger)"
  have idle: "ends_at ?l = Some 3600000000"
    by (simp add: linger_defs new_linger_def ends_at_def SYNCING_LINGER_def)
  from status_cell_lingers [of ?es "Ended 3600000000" ?l "fst (linger_step (Ended 3600000000) ?l)" "snd (linger_step (Ended 3600000000) ?l)"] idle
  show ?thesis by (auto simp: SYNCING_LINGER_def)
qed

subsection \<open>Supervision\<close>

type_synonym observer_result = "JoinError + ObserverExit"
type_synonym sync_result = "JoinError + (DiagnosticCode + unit)"

datatype SyncStopOutcome = Joined sync_result | StopTimedOut

datatype SupervisionTrigger = TriggerObserver observer_result | TriggerSync sync_result | TriggerShutdown

datatype supervisor_step = StopSync | AbortSync | StopObserver | ReleaseObserver | AwaitObserver
  | CloseFence | RestoreIndicator | DropIndicator | DropLock

text \<open>\<open>ShutdownIndicator\<close>\<close>

record 'i cell =
  ce_set :: "SyncActivity \<Rightarrow> 'i \<Rightarrow> (string + unit) \<times> 'i"
  ce_refresh :: "'i \<Rightarrow> (string + unit) \<times> 'i"
  ce_restore :: "'i \<Rightarrow> (string + unit) \<times> 'i"

text \<open>The branches of \<open>select!\<close>; a change of activity carries the new value, or that the sender is gone.\<close>

datatype supervisor_event = ObserverEnded observer_result | SyncEnded sync_result | ShutdownAsked bool
  | ActivityChanged "SyncActivity option" nat | LingerEnded nat | RefreshDue

record 'i supervising =
  sv_cell :: 'i
  sv_linger :: ActivityLinger
  sv_warning :: FailureWarning
  sv_warned :: "string list"
  sv_activity_open :: bool
  sv_request_open :: bool

definition record_update :: "(string + unit) \<times> 'i \<Rightarrow> 'i supervising \<Rightarrow> 'i supervising" where
  "record_update r s =
     (case r of (result, cell) \<Rightarrow>
        (case record_failure result (sv_warning s) of (shown, f) \<Rightarrow>
           s\<lparr>sv_cell := cell, sv_warning := f, sv_warned := sv_warned s @ (case shown of None \<Rightarrow> [] | Some m \<Rightarrow> [m])\<rparr>))"

definition show_on_cell :: "'i cell \<Rightarrow> SyncActivity option \<times> ActivityLinger \<Rightarrow> 'i supervising \<Rightarrow> 'i supervising" where
  "show_on_cell ce r s =
     (case r of (shown, l) \<Rightarrow>
        let s = s\<lparr>sv_linger := l\<rparr> in
        case shown of None \<Rightarrow> s | Some a \<Rightarrow> record_update (ce_set ce a (sv_cell s)) s)"

text \<open>One turn of the loop; a branch that is switched off is not taken.\<close>

definition supervise_turn :: "'i cell \<Rightarrow> supervisor_event \<Rightarrow> 'i supervising \<Rightarrow> SupervisionTrigger + 'i supervising" where
  "supervise_turn ce e s =
     (case e of
        ObserverEnded r \<Rightarrow> Inl (TriggerObserver r)
      | SyncEnded r \<Rightarrow> Inl (TriggerSync r)
      | ShutdownAsked ok \<Rightarrow>
          if \<not> sv_request_open s then Inr s
          else if ok then Inl TriggerShutdown
          else Inr (s\<lparr>sv_request_open := False\<rparr>)
      | ActivityChanged news now \<Rightarrow>
          if \<not> sv_activity_open s then Inr s
          else (case news of
             None \<Rightarrow> Inr (s\<lparr>sv_activity_open := False\<rparr>)
           | Some a \<Rightarrow> Inr (show_on_cell ce (linger_observe a now (sv_linger s)) s))
      | LingerEnded now \<Rightarrow> Inr (show_on_cell ce (linger_expire now (sv_linger s)) s)
      | RefreshDue \<Rightarrow> Inr (record_update (ce_refresh ce (sv_cell s)) s))"

fun supervise_loop ::
  "'i cell \<Rightarrow> supervisor_event list \<Rightarrow> 'i supervising \<Rightarrow> (SupervisionTrigger \<times> 'i supervising) option" where
  "supervise_loop ce [] s = None"
| "supervise_loop ce (e # es) s =
     (case supervise_turn ce e s of Inl t \<Rightarrow> Some (t, s) | Inr s' \<Rightarrow> supervise_loop ce es s')"

definition observer_join_result :: "observer_result \<Rightarrow> ObserverExit" where
  "observer_join_result r =
     (case r of
        Inr x \<Rightarrow> x
      | Inl e \<Rightarrow> \<lparr>ox_code = 1, ox_event = None,
                  ox_failures = [''solstone-tmux stopped unexpectedly: '' @ join_error_message e]\<rparr>)"

definition merge_observer_result :: "ObserverExit \<Rightarrow> observer_result \<Rightarrow> ObserverExit" where
  "merge_observer_result x r =
     (let y = observer_join_result r in x\<lparr>ox_failures := ox_failures x @ ox_failures y, ox_event := ox_event y\<rparr>)"

definition append_authorized_sync_outcome :: "SyncStopOutcome \<Rightarrow> ObserverExit \<Rightarrow> ObserverExit" where
  "append_authorized_sync_outcome outcome x =
     (let add = (\<lambda>m. x\<lparr>ox_failures := ox_failures x @ [m]\<rparr>) in
      case outcome of
        StopTimedOut \<Rightarrow> add (diagnostic_message SyncTaskTimedOut)
      | Joined (Inr (Inr _)) \<Rightarrow> x
      | Joined (Inr (Inl code)) \<Rightarrow> add (''sync task failed: '' @ diagnostic_message code)
      | Joined (Inl e) \<Rightarrow>
          add (if is_panic e then diagnostic_message SyncTaskPanicked else diagnostic_message SyncTaskCancelled))"

definition unexpected_sync_failure :: "sync_result \<Rightarrow> string" where
  "unexpected_sync_failure r =
     (case r of
        Inr (Inr _) \<Rightarrow> diagnostic_message SyncTaskExited
      | Inr (Inl code) \<Rightarrow> ''sync task failed: '' @ diagnostic_message code
      | Inl e \<Rightarrow> if is_panic e then diagnostic_message SyncTaskPanicked else diagnostic_message SyncTaskCancelled)"

text \<open>\<open>stop_sync_with_deadline\<close>, for the outcome the sync task will have\<close>

definition stop_sync_with_deadline :: "SyncStopOutcome \<Rightarrow> supervisor_step list" where
  "stop_sync_with_deadline outcome = StopSync # (case outcome of Joined _ \<Rightarrow> [] | StopTimedOut \<Rightarrow> [AbortSync])"

definition supervised_exit ::
  "SyncStopOutcome \<Rightarrow> observer_result \<Rightarrow> SupervisionTrigger \<Rightarrow> supervisor_step list \<times> ObserverExit" where
  "supervised_exit stop awaited t =
     (case t of
        TriggerObserver r \<Rightarrow>
          (stop_sync_with_deadline stop @ [ReleaseObserver],
           append_authorized_sync_outcome stop (observer_join_result r))
      | TriggerShutdown \<Rightarrow>
          (stop_sync_with_deadline stop @ [ReleaseObserver, AwaitObserver],
           append_authorized_sync_outcome stop (observer_join_result awaited))
      | TriggerSync r \<Rightarrow>
          ([StopObserver, ReleaseObserver, AwaitObserver],
           merge_observer_result \<lparr>ox_code = 1, ox_event = None, ox_failures = [unexpected_sync_failure r]\<rparr> awaited))"

definition finish_supervision :: "'i cell \<Rightarrow> 'i \<Rightarrow> ObserverExit \<Rightarrow> supervisor_step list \<times> ObserverExit \<times> 'i" where
  "finish_supervision ce cell x =
     (case ce_restore ce cell of (r, cell') \<Rightarrow>
        ([CloseFence, RestoreIndicator, DropIndicator, DropLock],
         (case r of
            Inr _ \<Rightarrow> x
          | Inl e \<Rightarrow> x\<lparr>ox_failures := ox_failures x @ [''indicator shutdown failed: '' @ e], ox_code := 1\<rparr>),
         cell'))"

definition supervise_observer ::
  "'i cell \<Rightarrow> supervisor_event list \<Rightarrow> SyncStopOutcome \<Rightarrow> observer_result \<Rightarrow> 'i
   \<Rightarrow> (supervisor_step list \<times> ObserverExit \<times> 'i) option" where
  "supervise_observer ce events stop awaited cell =
     (case supervise_loop ce events \<lparr>sv_cell = cell, sv_linger = new_linger, sv_warning = \<lparr>fw_failing = False\<rparr>,
             sv_warned = [], sv_activity_open = True, sv_request_open = True\<rparr> of
        None \<Rightarrow> None
      | Some (t, s) \<Rightarrow>
          (case supervised_exit stop awaited t of (steps, x) \<Rightarrow>
             let x = (if ox_failures x \<noteq> [] then x\<lparr>ox_code := 1\<rparr> else x) in
             (case finish_supervision ce (sv_cell s) x of (final, x, cell') \<Rightarrow> Some (steps @ final, x, cell'))))"

subsection \<open>What the exit says\<close>

definition observer_ran :: "'g lifecycle \<Rightarrow> ObserverExit \<Rightarrow> bool" where
  "observer_ran lc x \<longleftrightarrow> (\<exists>ticks now blocking g. run_observer lc ticks now blocking g = Some x)"

text \<open>The loop ended by a shutdown or without a failure, and the segment was closed.\<close>

definition closed_well :: "'g lifecycle \<Rightarrow> ObserverExit \<Rightarrow> bool" where
  "closed_well lc x \<longleftrightarrow>
     (\<exists>ticks s0 s now c g. observe_loop lc ticks s0 = Some (Broke (ox_event x) s) \<and> og_failures s = []
        \<and> lc_shutdown lc now (og_segment s) = (Inr c, g))"

lemma returned_failure: "observe_loop lc ts s = Some (Returned x) \<Longrightarrow> ox_code x = 1 \<and> ox_failures x \<noteq> []"
proof (induction ts arbitrary: s)
  case (Cons t ts)
  then show ?case
    by (auto simp: observe_tick_def bindS_def poll_outcome_def split: sum.splits option.splits prod.splits poll_result.splits)
qed simp

lemma observer_consistent:
  assumes "observer_ran lc x"
  shows "ox_code x = (if ox_failures x = [] then 0 else 1)" "ox_failures x = [] \<Longrightarrow> closed_well lc x"
proof -
  obtain ticks now blocking g where run: "run_observer lc ticks now blocking g = Some x"
    using assms by (auto simp: observer_ran_def)
  let ?s0 = "\<lparr>og_segment = g, og_failures = [], og_warning = \<lparr>fw_failing = False\<rparr>, og_warned = []\<rparr>"
  obtain e where e: "observe_loop lc ticks ?s0 = Some e"
    using run by (cases "observe_loop lc ticks ?s0") (auto simp: run_observer_def)
  show "ox_code x = (if ox_failures x = [] then 0 else 1)"
    using run e returned_failure [of lc ticks ?s0] by (auto simp: run_observer_def Let_def split: loop_end.splits)
  assume none: "ox_failures x = []"
  then obtain event s where broke: "e = Broke event s"
    using run e returned_failure [of lc ticks ?s0] by (cases e) (auto simp: run_observer_def)
  have x: "x = \<lparr>ox_code = 0, ox_event = event, ox_failures = []\<rparr>" "og_failures (shut_segment lc now blocking s) = []"
    using run e broke none by (auto simp: run_observer_def Let_def split: if_splits)
  then show "closed_well lc x"
    using e broke unfolding closed_well_def
    by (auto simp: shut_segment_def fail_with_def split: option.splits sum.splits prod.splits) blast
qed

definition final_steps :: "supervisor_step list" where
  "final_steps = [CloseFence, RestoreIndicator, DropIndicator, DropLock]"

definition clean_stop :: "SyncStopOutcome \<Rightarrow> bool" where
  "clean_stop stop \<longleftrightarrow> stop = Joined (Inr (Inr ()))"

lemma loop_trigger:
  "supervise_loop ce es s = Some (t, s') \<Longrightarrow> (\<forall>r. t = TriggerObserver r \<longrightarrow> ObserverEnded r \<in> set es)"
  by (induction es arbitrary: s) (auto simp: supervise_turn_def Let_def split: sum.splits supervisor_event.splits option.splits if_splits)


text \<open>A termination signal at the first tick: the barrier is asked for, and all ends well.\<close>

definition idle_lifecycle :: "nat lifecycle" where
  "idle_lifecycle = \<lparr>lc_poll = (\<lambda>_ _ _ g. (Inr (), g)), lc_shutdown = (\<lambda>_ g. (Inr RemovedEmpty, g))\<rparr>"

definition plain_cell :: "nat cell" where
  "plain_cell = \<lparr>ce_set = (\<lambda>_ i. (Inr (), i)), ce_refresh = (\<lambda>i. (Inr (), i)), ce_restore = (\<lambda>i. (Inr (), i))\<rparr>"

definition signalled_exit :: ObserverExit where
  "signalled_exit = \<lparr>ox_code = 0, ox_event = Some SigTerm, ox_failures = []\<rparr>"

lemma signalled_ran: "observer_ran idle_lifecycle signalled_exit"
proof -
  have "run_observer idle_lifecycle [\<lparr>tk_shutdown = Some SigTerm, tk_wall = 0, tk_now = 0, tk_poll = PollGone, tk_blocking = None\<rparr>]
      0 None 0 = Some signalled_exit"
    by (simp add: run_observer_def observe_tick_def shut_segment_def idle_lifecycle_def signalled_exit_def Let_def)
  then show ?thesis unfolding observer_ran_def by blast
qed


end
