(* ===== verification/Indicator.thy ===== *)
theory Indicator
  imports Tmux
begin

text \<open>
  The mark in tmux's status line (\<open>src/indicator.rs\<close>): three global options of the tmux server are
  changed while solstone-tmux runs and given back when it stops. \<open>IndicatorIo\<close> is a record of
  operations; \<open>command_io\<close> is the one that runs tmux. \<open>display\<close> is the text of an error.
\<close>

definition STATUS_LEFT :: string where "STATUS_LEFT = ''status-left''"
definition STATUS_LEFT_LENGTH :: string where "STATUS_LEFT_LENGTH = ''status-left-length''"
definition SOLSTONE_OPTION :: string where "SOLSTONE_OPTION = ''@solstone''"
definition OBSERVING_VALUE :: string where "OBSERVING_VALUE = ''observing''"
definition SYNCING_VALUE :: string where "SYNCING_VALUE = ''syncing''"
definition INDICATOR_WIDTH :: nat where "INDICATOR_WIDTH = 1"

text \<open>The sun of the mark is one character of three bytes.\<close>

definition INDICATOR_PREFIX :: string where
  "INDICATOR_PREFIX =
     (let sun = [CHR 0xE2, CHR 0x98, CHR 0xBC] in
      ''#{?@solstone,#{?#{==:#{@solstone},syncing},#[fg=yellow]'' @ sun @ ''#[default],#[fg=colour245]'' @ sun
      @ ''#[default]},}'')"

datatype OptionValue = OptAbsent | OptPresent string

datatype IndicatorError = IndCommand CommandError | IndNoServer | IndNonzero string int string | IndProtocol string

record 's IndicatorIo =
  io_identity :: "('s, IndicatorError, string) comp"
  io_read :: "string \<Rightarrow> ('s, IndicatorError, OptionValue) comp"
  io_write :: "string \<Rightarrow> string \<Rightarrow> ('s, IndicatorError, unit) comp"
  io_clear :: "string \<Rightarrow> ('s, IndicatorError, unit) comp"

subsection \<open>The options of a running tmux\<close>

definition nonzero :: "string \<Rightarrow> CommandOutput \<Rightarrow> IndicatorError" where
  "nonzero name out = IndNonzero name (co_status out) (trim_end (utf8_lossy (co_stderr out)))"

definition run_option ::
  "(CommandInvocation \<Rightarrow> 's \<Rightarrow> (CommandError + CommandOutput) \<times> 's) \<Rightarrow> string \<Rightarrow> TmuxOperation \<Rightarrow> string list
   \<Rightarrow> ('s, IndicatorError, CommandOutput) comp" where
  "run_option runner tmux operation args =
     map_errE IndCommand (runner \<lparr>cm_operation = TmuxCommand operation, cm_executable = tmux, cm_args = args, cm_timeout = TMUX_TIMEOUT\<rparr>)"

definition command_identity where
  "command_identity runner tmux =
     bindE (run_option runner tmux ServerIdentity [''display-message'', ''-p'', ''#{pid} #{start_time}'']) (\<lambda>out.
     if reports_no_server out then throwE IndNoServer
     else if co_status out \<noteq> 0 then throwE (nonzero ''server identity'' out)
     else if \<not> valid_utf8 (co_stdout out) then throwE (IndProtocol ''invalid utf-8'')
     else returnE (trim_end (co_stdout out)))"

definition command_read where
  "command_read runner tmux name =
     bindE (run_option runner tmux (ShowOption name) [''show-options'', ''-gv'', name]) (\<lambda>out.
     if reports_no_server out then throwE IndNoServer
     else if co_status out \<noteq> 0
     then (if name = SOLSTONE_OPTION then returnE OptAbsent else throwE (nonzero name out))
     else if \<not> valid_utf8 (co_stdout out) then throwE (IndProtocol ''invalid utf-8'')
     else returnE (OptPresent (case strip_suffix [LF] (co_stdout out) of None \<Rightarrow> co_stdout out | Some v \<Rightarrow> v)))"

definition command_done :: "string \<Rightarrow> CommandOutput \<Rightarrow> ('s, IndicatorError, unit) comp" where
  "command_done name out =
     (if co_status out = 0 then returnE ()
      else if reports_no_server out then throwE IndNoServer
      else throwE (nonzero name out))"

definition command_write where
  "command_write runner tmux name val =
     bindE (run_option runner tmux (SetOption name) [''set-option'', ''-g'', name, val]) (command_done name)"

definition command_clear where
  "command_clear runner tmux name =
     bindE (run_option runner tmux (UnsetOption name) [''set-option'', ''-gu'', name]) (command_done name)"

definition command_io ::
  "(CommandInvocation \<Rightarrow> 's \<Rightarrow> (CommandError + CommandOutput) \<times> 's) \<Rightarrow> string \<Rightarrow> 's IndicatorIo" where
  "command_io runner tmux =
     \<lparr>io_identity = command_identity runner tmux, io_read = command_read runner tmux,
      io_write = command_write runner tmux, io_clear = command_clear runner tmux\<rparr>"

subsection \<open>Ownership\<close>

record LengthOwnership =
  lo_original :: string
  lo_written :: string

record IndicatorOwnership =
  ow_original_left :: OptionValue
  ow_original_solstone :: OptionValue
  ow_written_left :: string
  ow_written_solstone :: string
  ow_owned :: bool
  ow_length :: "LengthOwnership option"

definition length_from_current :: "OptionValue \<Rightarrow> bool \<Rightarrow> LengthOwnership option" where
  "length_from_current current already_widened =
     (case current of
        OptAbsent \<Rightarrow> None
      | OptPresent v \<Rightarrow>
          (case parse_u32 (trim v) of
             None \<Rightarrow> None
           | Some n \<Rightarrow>
               let original = (if already_widened then n - INDICATOR_WIDTH else n) in
               Some \<lparr>lo_original = dec_of_nat original, lo_written = dec_of_nat (sat_add_u32 original INDICATOR_WIDTH)\<rparr>))"

lemma prefix_nonempty: "INDICATOR_PREFIX \<noteq> []"
  by (simp add: INDICATOR_PREFIX_def Let_def)

text \<open>The loop that strips every mark an earlier run left\<close>

function strip_marks :: "string \<Rightarrow> string" where
  "strip_marks base =
     (case strip_prefix INDICATOR_PREFIX base of None \<Rightarrow> base | Some stripped \<Rightarrow> strip_marks stripped)"
  by pat_completeness auto
termination
  by (relation "measure length") (auto simp: strip_prefix_Some prefix_nonempty)

declare strip_marks.simps [simp del]

definition normalize_status_left :: "OptionValue \<Rightarrow> OptionValue" where
  "normalize_status_left v = (case v of OptAbsent \<Rightarrow> OptAbsent | OptPresent s \<Rightarrow> OptPresent (strip_marks s))"

definition normalize_solstone :: "OptionValue \<Rightarrow> OptionValue" where
  "normalize_solstone v =
     (case v of
        OptAbsent \<Rightarrow> OptAbsent
      | OptPresent s \<Rightarrow> if s = [] \<or> s = OBSERVING_VALUE \<or> s = SYNCING_VALUE then OptAbsent else OptPresent s)"

definition restore_value :: "'s IndicatorIo \<Rightarrow> string \<Rightarrow> OptionValue \<Rightarrow> ('s, IndicatorError, unit) comp" where
  "restore_value io name original = (case original of OptAbsent \<Rightarrow> io_clear io name | OptPresent v \<Rightarrow> io_write io name v)"

fun roll_back ::
  "(IndicatorError \<Rightarrow> string) \<Rightarrow> 's IndicatorIo \<Rightarrow> IndicatorError \<Rightarrow> (string \<times> OptionValue) list \<Rightarrow> ('s, IndicatorError, 'a) comp" where
  "roll_back display io error [] = throwE error"
| "roll_back display io error ((name, original) # written) =
     tryE (restore_value io name original) (\<lambda>r. case r of
       Inl e \<Rightarrow> throwE (IndProtocol (display error @ ''; '' @ name @ '' rollback also failed: '' @ display e))
     | Inr _ \<Rightarrow> roll_back display io error written)"

definition install_with_originals ::
  "(IndicatorError \<Rightarrow> string) \<Rightarrow> 's IndicatorIo \<Rightarrow> OptionValue \<Rightarrow> OptionValue \<Rightarrow> string \<Rightarrow> string \<Rightarrow> LengthOwnership option
   \<Rightarrow> ('s, IndicatorError, IndicatorOwnership) comp" where
  "install_with_originals display io left solstone written_left written_solstone len =
     bindE (io_write io STATUS_LEFT written_left) (\<lambda>_.
     tryE (case len of None \<Rightarrow> returnE () | Some l \<Rightarrow> io_write io STATUS_LEFT_LENGTH (lo_written l)) (\<lambda>r.
     let written = (case (len, r) of
         (Some l, Inr _) \<Rightarrow> [(STATUS_LEFT_LENGTH, OptPresent (lo_original l)), (STATUS_LEFT, left)]
       | _ \<Rightarrow> [(STATUS_LEFT, left)]) in
     tryE (case r of Inl e \<Rightarrow> throwE e | Inr _ \<Rightarrow> io_write io SOLSTONE_OPTION written_solstone) (\<lambda>r. case r of
       Inl IndNoServer \<Rightarrow> throwE IndNoServer
     | Inl e \<Rightarrow> roll_back display io e written
     | Inr _ \<Rightarrow>
         returnE \<lparr>ow_original_left = left, ow_original_solstone = solstone, ow_written_left = written_left,
                  ow_written_solstone = written_solstone, ow_owned = True, ow_length = len\<rparr>)))"

definition install_default ::
  "(IndicatorError \<Rightarrow> string) \<Rightarrow> 's IndicatorIo \<Rightarrow> ('s, IndicatorError, IndicatorOwnership) comp" where
  "install_default display io =
     bindE (io_read io STATUS_LEFT) (\<lambda>current.
     let left = normalize_status_left current in
     bindE (io_read io STATUS_LEFT_LENGTH) (\<lambda>current_length.
     let len = length_from_current current_length (left \<noteq> current) in
     bindE (io_read io SOLSTONE_OPTION) (\<lambda>solstone.
     install_with_originals display io left (normalize_solstone solstone)
       (INDICATOR_PREFIX @ (case left of OptAbsent \<Rightarrow> [] | OptPresent v \<Rightarrow> v)) OBSERVING_VALUE len)))"

definition install ::
  "(IndicatorError \<Rightarrow> string) \<Rightarrow> 's IndicatorIo \<Rightarrow> string \<Rightarrow> string \<Rightarrow> ('s, IndicatorError, IndicatorOwnership) comp" where
  "install display io written_left written_solstone =
     bindE (io_read io STATUS_LEFT) (\<lambda>left.
     bindE (io_read io SOLSTONE_OPTION) (\<lambda>solstone.
     install_with_originals display io left solstone written_left written_solstone None))"

text \<open>\<open>update_solstone\<close>: whether the option is still ours, with the ownership after it\<close>

definition update_solstone ::
  "'s IndicatorIo \<Rightarrow> string \<Rightarrow> IndicatorOwnership \<Rightarrow> ('s, IndicatorError, bool \<times> IndicatorOwnership) comp" where
  "update_solstone io val ow =
     (if \<not> ow_owned ow then returnE (False, ow)
      else
        bindE (io_read io SOLSTONE_OPTION) (\<lambda>current.
        if current \<noteq> OptPresent (ow_written_solstone ow) then returnE (False, ow\<lparr>ow_owned := False\<rparr>)
        else if val = ow_written_solstone ow then returnE (True, ow)
        else bindE (io_write io SOLSTONE_OPTION val) (\<lambda>_. returnE (True, ow\<lparr>ow_written_solstone := val\<rparr>))))"

text \<open>One option given back, if it is still as written: the failures to report.\<close>

definition give_back ::
  "(IndicatorError \<Rightarrow> string) \<Rightarrow> string \<Rightarrow> OptionValue \<Rightarrow> ('s, IndicatorError, unit) comp
   \<Rightarrow> IndicatorError + OptionValue \<Rightarrow> ('s, 'e, string list) comp" where
  "give_back display name written put r =
     (case r of
        Inr current \<Rightarrow>
          if current = written
          then tryE put (\<lambda>r. case r of Inl e \<Rightarrow> returnE [name @ '': '' @ display e] | Inr _ \<Rightarrow> returnE [])
          else returnE []
      | Inl IndNoServer \<Rightarrow> returnE []
      | Inl e \<Rightarrow> returnE [name @ '' read: '' @ display e])"

definition restore ::
  "(IndicatorError \<Rightarrow> string) \<Rightarrow> 's IndicatorIo \<Rightarrow> IndicatorOwnership \<Rightarrow> ('s, string list, unit) comp" where
  "restore display io ow =
     tryE (io_read io STATUS_LEFT) (\<lambda>r. case r of
       Inl IndNoServer \<Rightarrow> returnE ()
     | _ \<Rightarrow>
         bindE (give_back display STATUS_LEFT (OptPresent (ow_written_left ow))
                  (restore_value io STATUS_LEFT (ow_original_left ow)) r) (\<lambda>f1.
         bindE (case ow_length ow of
                  None \<Rightarrow> returnE []
                | Some l \<Rightarrow> tryE (io_read io STATUS_LEFT_LENGTH)
                    (give_back display STATUS_LEFT_LENGTH (OptPresent (lo_written l))
                       (io_write io STATUS_LEFT_LENGTH (lo_original l)))) (\<lambda>f2.
         bindE (if ow_owned ow
                then tryE (io_read io SOLSTONE_OPTION)
                    (give_back display SOLSTONE_OPTION (OptPresent (ow_written_solstone ow))
                       (restore_value io SOLSTONE_OPTION (ow_original_solstone ow)))
                else returnE []) (\<lambda>f3.
         if f1 @ f2 @ f3 = [] then returnE () else throwE (f1 @ f2 @ f3)))))"

subsection \<open>The indicator across servers\<close>

record ServerIndicator =
  si_installed :: "(string \<times> IndicatorOwnership) option"
  si_working :: bool

definition refresh ::
  "(IndicatorError \<Rightarrow> string) \<Rightarrow> 's IndicatorIo \<Rightarrow> ServerIndicator \<Rightarrow> 's \<Rightarrow> (IndicatorError + unit) \<times> ServerIndicator \<times> 's" where
  "refresh display io si s =
     (case io_identity io s of
        (Inl IndNoServer, s) \<Rightarrow> (Inr (), si\<lparr>si_installed := None\<rparr>, s)
      | (Inl e, s) \<Rightarrow> (Inl e, si, s)
      | (Inr server, s) \<Rightarrow>
          if map_option fst (si_installed si) = Some server then (Inr (), si, s)
          else
            let gone = si\<lparr>si_installed := None\<rparr> in
            (case install_default display io s of
               (Inl IndNoServer, s) \<Rightarrow> (Inr (), gone, s)
             | (Inl e, s) \<Rightarrow> (Inl e, gone, s)
             | (Inr ow, s) \<Rightarrow>
                 if \<not> si_working si then (Inr (), gone\<lparr>si_installed := Some (server, ow)\<rparr>, s)
                 else (case update_solstone io SYNCING_VALUE ow s of
                    (Inl IndNoServer, s) \<Rightarrow> (Inr (), gone, s)
                  | (Inl e, s) \<Rightarrow> (Inl e, gone, s)
                  | (Inr (_, ow), s) \<Rightarrow> (Inr (), gone\<lparr>si_installed := Some (server, ow)\<rparr>, s))))"

definition start_indicator ::
  "(IndicatorError \<Rightarrow> string) \<Rightarrow> 's IndicatorIo \<Rightarrow> 's \<Rightarrow> (IndicatorError + ServerIndicator) \<times> 's" where
  "start_indicator display io s =
     (case refresh display io \<lparr>si_installed = None, si_working = False\<rparr> s of
        (Inl e, _, s) \<Rightarrow> (Inl e, s) | (Inr _, si, s) \<Rightarrow> (Inr si, s))"

definition set_working ::
  "'s IndicatorIo \<Rightarrow> bool \<Rightarrow> ServerIndicator \<Rightarrow> 's \<Rightarrow> (IndicatorError + unit) \<times> ServerIndicator \<times> 's" where
  "set_working io working si s =
     (let si = si\<lparr>si_working := working\<rparr> in
      case si_installed si of
        None \<Rightarrow> (Inr (), si, s)
      | Some (server, ow) \<Rightarrow>
          (case update_solstone io (if working then SYNCING_VALUE else OBSERVING_VALUE) ow s of
             (Inr (_, ow), s) \<Rightarrow> (Inr (), si\<lparr>si_installed := Some (server, ow)\<rparr>, s)
           | (Inl IndNoServer, s) \<Rightarrow> (Inr (), si\<lparr>si_installed := None\<rparr>, s)
           | (Inl e, s) \<Rightarrow> (Inl e, si, s)))"

definition restore_indicator ::
  "(IndicatorError \<Rightarrow> string) \<Rightarrow> 's IndicatorIo \<Rightarrow> ServerIndicator \<Rightarrow> 's \<Rightarrow> (string list + unit) \<times> ServerIndicator \<times> 's" where
  "restore_indicator display io si s =
     (case si_installed si of
        None \<Rightarrow> (Inr (), si, s)
      | Some (_, ow) \<Rightarrow> (case restore display io ow s of (r, s) \<Rightarrow> (r, si\<lparr>si_installed := None\<rparr>, s)))"

subsection \<open>Strings the indicator writes\<close>

lemma utf8_front_length: "utf8_front c cs = Inr n \<Longrightarrow> n - 1 \<le> length cs"
  by (auto simp: utf8_front_def Let_def split: if_splits list.splits)

lemma utf8_front_append: "utf8_front c cs = Inr n \<Longrightarrow> utf8_front c (cs @ v) = Inr n"
  by (auto simp: utf8_front_def Let_def split: if_splits list.splits)

lemma valid_utf8_append: "valid_utf8 u \<Longrightarrow> valid_utf8 v \<Longrightarrow> valid_utf8 (u @ v)"
  by (induction u rule: valid_utf8.induct)
    (auto simp: utf8_front_append dest: utf8_front_length split: sum.splits)

lemma dec_of_nat_ascii: "list_all (\<lambda>c. byte c < 128) (dec_of_nat n)"
  using dec_of_nat_digit [of _ n] by (force simp: list_all_iff is_digit_def)

lemma digit_no_space: "is_digit c \<Longrightarrow> \<not> is_space [c]"
  by (auto simp: is_space_def unicode_whitespace_def is_digit_def byte_simps)

lemma trim_digits: "list_all is_digit s \<Longrightarrow> trim s = s"
proof -
  assume d: "list_all is_digit s"
  then have "list_all (\<lambda>c. byte c < 128) s" by (auto simp: list_all_iff is_digit_def)
  then have chars: "utf8_chars s = map (\<lambda>c. [c]) s" by (rule utf8_chars_ascii)
  have none: "dropWhile is_space (map (\<lambda>c. [c]) t) = map (\<lambda>c. [c]) t" if "set t \<subseteq> set s" for t
    using d that by (cases t) (auto simp: list_all_iff digit_no_space)
  have "trim s = concat (map (\<lambda>c. [c]) s)"
    unfolding trim_def chars using none [of "rev s"] none [of s] by (simp add: rev_map)
  then show ?thesis by simp
qed

lemma parse_u32_dec: "n \<le> u32_max \<Longrightarrow> parse_u32 (dec_of_nat n) = Some n"
proof -
  assume "n \<le> u32_max"
  moreover have "\<exists>c cs. dec_of_nat n = c # cs \<and> c \<noteq> CHR ''+''"
  proof (cases "dec_of_nat n")
    case (Cons c cs)
    then have "is_digit c" using dec_of_nat_digit [of c n] by simp
    then have "c \<noteq> CHR ''+''" by (auto simp: is_digit_def)
    with Cons show ?thesis by simp
  qed simp
  ultimately show ?thesis
    using parse_digits_dec [of n] by (auto simp: parse_u32_def parse_unsigned_def)
qed

lemma read_dec: "n \<le> u32_max \<Longrightarrow> parse_u32 (trim (dec_of_nat n)) = Some n"
  by (simp add: parse_u32_dec trim_digits list_all_iff dec_of_nat_digit)

lemma valid_prefix: "valid_utf8 INDICATOR_PREFIX"
proof -
  have sun: "valid_utf8 [CHR 0xE2, CHR 0x98, CHR 0xBC]"
    by (simp add: utf8_front_def utf8_width_def second_ok_def is_cont_def)
  have "valid_utf8 ''#{?@solstone,#{?#{==:#{@solstone},syncing},#[fg=yellow]''"
    "valid_utf8 ''#[default],#[fg=colour245]''" "valid_utf8 ''#[default]},}''"
    by (rule valid_utf8_ascii, simp)+
  with sun show ?thesis
    unfolding INDICATOR_PREFIX_def Let_def by (intro valid_utf8_append)
qed

lemma strip_marks_none: "\<not> starts_with INDICATOR_PREFIX s \<Longrightarrow> strip_marks s = s"
  by (subst strip_marks.simps) (simp add: strip_prefix_def)

lemma strip_marks_one: "\<not> starts_with INDICATOR_PREFIX s \<Longrightarrow> strip_marks (INDICATOR_PREFIX @ s) = s"
  by (subst strip_marks.simps) (simp add: strip_prefix_def starts_with_iff [symmetric] strip_marks_none, auto simp: starts_with_iff)

subsection \<open>A server that keeps options\<close>

text \<open>
  What tmux documents of \<open>show-options\<close>, \<open>set-option\<close> and \<open>set-option -u\<close>, for the options
  \<open>opts\<close> of a running server: a value is printed with a newline, a user option that is not set is an
  error, and only the option named changes.
\<close>

definition option_call :: "string \<Rightarrow> TmuxOperation \<Rightarrow> string list \<Rightarrow> CommandInvocation" where
  "option_call tmux operation args =
     \<lparr>cm_operation = TmuxCommand operation, cm_executable = tmux, cm_args = args, cm_timeout = TMUX_TIMEOUT\<rparr>"

definition answers_options ::
  "(CommandInvocation \<Rightarrow> 's \<Rightarrow> (CommandError + CommandOutput) \<times> 's) \<Rightarrow> string \<Rightarrow> ('s \<Rightarrow> string \<Rightarrow> string option) \<Rightarrow> string \<Rightarrow> bool" where
  "answers_options runner tmux opts server \<longleftrightarrow>
     (\<forall>s. \<exists>out t. runner (option_call tmux ServerIdentity [''display-message'', ''-p'', ''#{pid} #{start_time}'']) s = (Inr out, t)
        \<and> co_status out = 0 \<and> co_stdout out = server @ [LF] \<and> opts t = opts s)
     \<and> (\<forall>s name v. opts s name = Some v \<longrightarrow>
         (\<exists>out t. runner (option_call tmux (ShowOption name) [''show-options'', ''-gv'', name]) s = (Inr out, t)
            \<and> co_status out = 0 \<and> co_stdout out = v @ [LF] \<and> opts t = opts s))
     \<and> (\<forall>s name. opts s name = None \<longrightarrow>
         (\<exists>out t. runner (option_call tmux (ShowOption name) [''show-options'', ''-gv'', name]) s = (Inr out, t)
            \<and> co_status out \<noteq> 0 \<and> \<not> reports_no_server out \<and> opts t = opts s))
     \<and> (\<forall>s name v. \<exists>out t. runner (option_call tmux (SetOption name) [''set-option'', ''-g'', name, v]) s = (Inr out, t)
            \<and> co_status out = 0 \<and> opts t = (opts s)(name \<mapsto> v))
     \<and> (\<forall>s. \<exists>out t. runner (option_call tmux (UnsetOption SOLSTONE_OPTION) [''set-option'', ''-gu'', SOLSTONE_OPTION]) s = (Inr out, t)
            \<and> co_status out = 0 \<and> opts t = (opts s)(SOLSTONE_OPTION := None))"

text \<open>The same for the operations of \<open>IndicatorIo\<close>, as the indicator uses them\<close>

definition keeps_options :: "'s IndicatorIo \<Rightarrow> ('s \<Rightarrow> string \<Rightarrow> string option) \<Rightarrow> string \<Rightarrow> bool" where
  "keeps_options io opts server \<longleftrightarrow>
     (\<forall>s. \<exists>t. io_identity io s = (Inr server, t) \<and> opts t = opts s)
     \<and> (\<forall>s name v. opts s name = Some v \<longrightarrow> valid_utf8 v \<longrightarrow>
         (\<exists>t. io_read io name s = (Inr (OptPresent v), t) \<and> opts t = opts s))
     \<and> (\<forall>s. opts s SOLSTONE_OPTION = None \<longrightarrow>
         (\<exists>t. io_read io SOLSTONE_OPTION s = (Inr OptAbsent, t) \<and> opts t = opts s))
     \<and> (\<forall>s name v. \<exists>t. io_write io name v s = (Inr (), t) \<and> opts t = (opts s)(name \<mapsto> v))
     \<and> (\<forall>s. \<exists>t. io_clear io SOLSTONE_OPTION s = (Inr (), t) \<and> opts t = (opts s)(SOLSTONE_OPTION := None))"

lemma reports_status: "co_status out = 0 \<Longrightarrow> \<not> reports_no_server out"
  by (simp add: reports_no_server_def)

lemma newline_valid: "valid_utf8 v \<Longrightarrow> valid_utf8 (v @ [LF])"
  by (rule valid_utf8_append) (simp_all add: utf8_front_def utf8_width_def)

lemma strip_newline: "strip_suffix [LF] (v @ [LF]) = Some v"
  by (simp add: strip_suffix_Some)

lemma run_option_call:
  "runner (option_call tmux operation args) s = (Inr out, t) \<Longrightarrow> run_option runner tmux operation args s = (Inr out, t)"
  by (simp add: run_option_def option_call_def map_errE_def)

lemma answersD:
  assumes "answers_options runner tmux opts server"
  shows "\<exists>out t. runner (option_call tmux ServerIdentity [''display-message'', ''-p'', ''#{pid} #{start_time}'']) s = (Inr out, t)
      \<and> co_status out = 0 \<and> co_stdout out = server @ [LF] \<and> opts t = opts s"
    "opts s name = Some v \<Longrightarrow>
       \<exists>out t. runner (option_call tmux (ShowOption name) [''show-options'', ''-gv'', name]) s = (Inr out, t)
         \<and> co_status out = 0 \<and> co_stdout out = v @ [LF] \<and> opts t = opts s"
    "opts s name = None \<Longrightarrow>
       \<exists>out t. runner (option_call tmux (ShowOption name) [''show-options'', ''-gv'', name]) s = (Inr out, t)
         \<and> co_status out \<noteq> 0 \<and> \<not> reports_no_server out \<and> opts t = opts s"
    "\<exists>out t. runner (option_call tmux (SetOption name) [''set-option'', ''-g'', name, v]) s = (Inr out, t)
      \<and> co_status out = 0 \<and> opts t = (opts s)(name \<mapsto> v)"
    "\<exists>out t. runner (option_call tmux (UnsetOption SOLSTONE_OPTION) [''set-option'', ''-gu'', SOLSTONE_OPTION]) s = (Inr out, t)
      \<and> co_status out = 0 \<and> opts t = (opts s)(SOLSTONE_OPTION := None)"
  using assms unfolding answers_options_def by (elim conjE; simp only: simp_thms)+

lemma command_keeps_options:
  assumes "answers_options runner tmux opts server" "valid_utf8 server" "trim_end (server @ [LF]) = server"
  shows "keeps_options (command_io runner tmux) opts server"
proof -
  note simps = bindE_def command_io_def reports_status newline_valid strip_newline returnE_def
  have "\<exists>t. io_identity (command_io runner tmux) s = (Inr server, t) \<and> opts t = opts s" for s
  proof -
    obtain out t where r: "runner (option_call tmux ServerIdentity [''display-message'', ''-p'', ''#{pid} #{start_time}'']) s = (Inr out, t)"
      "co_status out = 0" "co_stdout out = server @ [LF]" "opts t = opts s"
      using answersD(1) [OF assms(1)] by blast
    with assms(2,3) run_option_call [where runner = runner, OF r(1)] show ?thesis by (simp add: simps command_identity_def)
  qed
  moreover have "\<exists>t. io_read (command_io runner tmux) name s = (Inr (OptPresent v), t) \<and> opts t = opts s"
    if held: "opts s name = Some v" "valid_utf8 v" for s name v
  proof -
    obtain out t where r: "runner (option_call tmux (ShowOption name) [''show-options'', ''-gv'', name]) s = (Inr out, t)"
      "co_status out = 0" "co_stdout out = v @ [LF]" "opts t = opts s"
      using answersD(2) [OF assms(1) held(1)] by blast
    with held run_option_call [where runner = runner, OF r(1)] show ?thesis by (simp add: simps command_read_def)
  qed
  moreover have "\<exists>t. io_read (command_io runner tmux) SOLSTONE_OPTION s = (Inr OptAbsent, t) \<and> opts t = opts s"
    if unset: "opts s SOLSTONE_OPTION = None" for s
  proof -
    obtain out t where r: "runner (option_call tmux (ShowOption SOLSTONE_OPTION) [''show-options'', ''-gv'', SOLSTONE_OPTION]) s = (Inr out, t)"
      "co_status out \<noteq> 0" "\<not> reports_no_server out" "opts t = opts s"
      using answersD(3) [OF assms(1) unset] by blast
    with run_option_call [where runner = runner, OF r(1)] show ?thesis by (simp add: simps command_read_def)
  qed
  moreover have "\<exists>t. io_write (command_io runner tmux) name v s = (Inr (), t) \<and> opts t = (opts s)(name \<mapsto> v)" for s name v
  proof -
    obtain out t where r: "runner (option_call tmux (SetOption name) [''set-option'', ''-g'', name, v]) s = (Inr out, t)"
      "co_status out = 0" "opts t = (opts s)(name \<mapsto> v)"
      using answersD(4) [OF assms(1)] by blast
    with run_option_call [where runner = runner, OF r(1)] show ?thesis by (simp add: simps command_write_def command_done_def)
  qed
  moreover have "\<exists>t. io_clear (command_io runner tmux) SOLSTONE_OPTION s = (Inr (), t) \<and> opts t = (opts s)(SOLSTONE_OPTION := None)" for s
  proof -
    obtain out t where r: "runner (option_call tmux (UnsetOption SOLSTONE_OPTION) [''set-option'', ''-gu'', SOLSTONE_OPTION]) s = (Inr out, t)"
      "co_status out = 0" "opts t = (opts s)(SOLSTONE_OPTION := None)"
      using answersD(5) [OF assms(1)] by blast
    with run_option_call [where runner = runner, OF r(1)] show ?thesis by (simp add: simps command_clear_def command_done_def)
  qed
  ultimately show ?thesis by (simp add: keeps_options_def)
qed

subsection \<open>The mark on a server\<close>

lemma option_names [simp]:
  "STATUS_LEFT \<noteq> STATUS_LEFT_LENGTH" "STATUS_LEFT \<noteq> SOLSTONE_OPTION" "STATUS_LEFT_LENGTH \<noteq> SOLSTONE_OPTION"
  "STATUS_LEFT_LENGTH \<noteq> STATUS_LEFT" "SOLSTONE_OPTION \<noteq> STATUS_LEFT" "SOLSTONE_OPTION \<noteq> STATUS_LEFT_LENGTH"
  by (simp_all add: STATUS_LEFT_def STATUS_LEFT_LENGTH_def SOLSTONE_OPTION_def)

lemma mark_values_valid: "valid_utf8 OBSERVING_VALUE" "valid_utf8 SYNCING_VALUE"
  unfolding OBSERVING_VALUE_def SYNCING_VALUE_def by (rule valid_utf8_ascii, simp)+

text \<open>The options of a marked server: those from before, but for the three that are owned.\<close>

definition marked :: "(string \<Rightarrow> string option) \<Rightarrow> string \<Rightarrow> LengthOwnership option \<Rightarrow> string \<Rightarrow> string \<Rightarrow> string option" where
  "marked before left len v =
     before(STATUS_LEFT \<mapsto> INDICATOR_PREFIX @ left,
            STATUS_LEFT_LENGTH := (case len of None \<Rightarrow> before STATUS_LEFT_LENGTH | Some l \<Rightarrow> Some (lo_written l)),
            SOLSTONE_OPTION \<mapsto> v)"

definition ownership :: "string \<Rightarrow> OptionValue \<Rightarrow> LengthOwnership option \<Rightarrow> string \<Rightarrow> IndicatorOwnership" where
  "ownership left solstone len v =
     \<lparr>ow_original_left = OptPresent left, ow_original_solstone = solstone, ow_written_left = INDICATOR_PREFIX @ left,
      ow_written_solstone = v, ow_owned = True, ow_length = len\<rparr>"

definition option_of :: "string option \<Rightarrow> OptionValue" where
  "option_of v = (case v of None \<Rightarrow> OptAbsent | Some s \<Rightarrow> OptPresent s)"

lemma keepsD:
  assumes "keeps_options io opts server"
  shows "\<exists>t. io_identity io s = (Inr server, t) \<and> opts t = opts s"
    "opts s name = Some v \<Longrightarrow> valid_utf8 v \<Longrightarrow> \<exists>t. io_read io name s = (Inr (OptPresent v), t) \<and> opts t = opts s"
    "opts s SOLSTONE_OPTION = None \<Longrightarrow> \<exists>t. io_read io SOLSTONE_OPTION s = (Inr OptAbsent, t) \<and> opts t = opts s"
    "\<exists>t. io_write io name v s = (Inr (), t) \<and> opts t = (opts s)(name \<mapsto> v)"
    "\<exists>t. io_clear io SOLSTONE_OPTION s = (Inr (), t) \<and> opts t = (opts s)(SOLSTONE_OPTION := None)"
  using assms by (simp_all add: keeps_options_def)

lemma read_solstone:
  assumes "keeps_options io opts server" "opts s SOLSTONE_OPTION = sol" "pred_option valid_utf8 sol"
  shows "\<exists>t. io_read io SOLSTONE_OPTION s = (Inr (option_of sol), t) \<and> opts t = opts s"
  using keepsD(2,3) [OF assms(1), of s] assms(2,3) by (cases sol) (simp_all add: option_of_def)

lemma install_marks:
  assumes io: "keeps_options io opts server"
    and left: "opts s STATUS_LEFT = Some l" "valid_utf8 l" "strip_marks l = left"
    and len: "opts s STATUS_LEFT_LENGTH = Some n" "valid_utf8 n" "length_from_current (OptPresent n) (left \<noteq> l) = len"
    and sol: "opts s SOLSTONE_OPTION = sol" "pred_option valid_utf8 sol"
  shows "\<exists>t. install_default display io s = (Inr (ownership left (normalize_solstone (option_of sol)) len OBSERVING_VALUE), t)
    \<and> opts t = marked (opts s) left len OBSERVING_VALUE"
proof -
  obtain a where a: "io_read io STATUS_LEFT s = (Inr (OptPresent l), a)" "opts a = opts s"
    using keepsD(2) [OF io left(1,2)] by blast
  obtain b where b: "io_read io STATUS_LEFT_LENGTH a = (Inr (OptPresent n), b)" "opts b = opts s"
    using keepsD(2) [OF io, of a STATUS_LEFT_LENGTH n] len(1,2) a(2) by auto
  obtain c where c: "io_read io SOLSTONE_OPTION b = (Inr (option_of sol), c)" "opts c = opts s"
    using read_solstone [OF io, of b sol] sol b(2) by auto
  obtain d where d: "io_write io STATUS_LEFT (INDICATOR_PREFIX @ left) c = (Inr (), d)"
    "opts d = (opts s)(STATUS_LEFT \<mapsto> INDICATOR_PREFIX @ left)"
    using keepsD(4) [OF io, of STATUS_LEFT "INDICATOR_PREFIX @ left" c] c(2) by auto
  have "\<exists>e. (case len of None \<Rightarrow> returnE () | Some l \<Rightarrow> io_write io STATUS_LEFT_LENGTH (lo_written l)) d = (Inr (), e)
      \<and> opts e = (opts s)(STATUS_LEFT \<mapsto> INDICATOR_PREFIX @ left,
            STATUS_LEFT_LENGTH := (case len of None \<Rightarrow> opts s STATUS_LEFT_LENGTH | Some l \<Rightarrow> Some (lo_written l)))"
    using keepsD(4) [OF io, of STATUS_LEFT_LENGTH _ d] d(2) by (cases len) (auto simp: returnE_def)
  then obtain e where e: "(case len of None \<Rightarrow> returnE () | Some l \<Rightarrow> io_write io STATUS_LEFT_LENGTH (lo_written l)) d = (Inr (), e)"
    "opts e = (opts s)(STATUS_LEFT \<mapsto> INDICATOR_PREFIX @ left,
            STATUS_LEFT_LENGTH := (case len of None \<Rightarrow> opts s STATUS_LEFT_LENGTH | Some l \<Rightarrow> Some (lo_written l)))" by blast
  obtain f where f: "io_write io SOLSTONE_OPTION OBSERVING_VALUE e = (Inr (), f)"
    "opts f = (opts e)(SOLSTONE_OPTION \<mapsto> OBSERVING_VALUE)"
    using keepsD(4) [OF io] by blast
  have "install_default display io s = (Inr (ownership left (normalize_solstone (option_of sol)) len OBSERVING_VALUE), f)"
    using a(1) b(1) c(1) d(1) e(1) f(1) left(3) len(3)
    by (simp add: install_default_def install_with_originals_def bindE_def tryE_def Let_def returnE_def
        normalize_status_left_def ownership_def)
  with f(2) e(2) show ?thesis by (auto simp: marked_def)
qed

lemma update_marks:
  assumes io: "keeps_options io opts server" and "opts s = marked before left len v" "valid_utf8 v"
  shows "\<exists>t. update_solstone io v' (ownership left sol len v) s = (Inr (True, ownership left sol len v'), t)
    \<and> opts t = marked before left len v'"
proof -
  have "opts s SOLSTONE_OPTION = Some v" using assms(2) by (simp add: marked_def)
  then obtain a where a: "io_read io SOLSTONE_OPTION s = (Inr (OptPresent v), a)" "opts a = opts s"
    using keepsD(2) [OF io _ assms(3)] by blast
  obtain b where b: "io_write io SOLSTONE_OPTION v' a = (Inr (), b)" "opts b = (opts a)(SOLSTONE_OPTION \<mapsto> v')"
    using keepsD(4) [OF io] by blast
  have "opts b = marked before left len v'" using a(2) b(2) assms(2) by (simp add: marked_def)
  with a b assms(2) show ?thesis
    by (cases "v' = v") (simp_all add: update_solstone_def ownership_def bindE_def returnE_def)
qed

lemma restore_option:
  assumes io: "keeps_options io opts server" and "name = SOLSTONE_OPTION \<or> sol \<noteq> OptAbsent"
  shows "\<exists>t. restore_value io name sol s = (Inr (), t)
    \<and> opts t = (opts s)(name := (case sol of OptAbsent \<Rightarrow> None | OptPresent v \<Rightarrow> Some v))"
  using keepsD(4) [OF io, of name _ s] keepsD(5) [OF io, of s] assms(2)
  by (cases sol) (auto simp: restore_value_def)

lemma give_back_puts:
  assumes "io_read io name s = (Inr (OptPresent v), a)" "put a = (Inr (), b)"
  shows "tryE (io_read io name) (give_back display name (OptPresent v) put) s = (Inr [] :: string list + string list, b)"
  using assms by (simp add: tryE_def give_back_def returnE_def)

lemma restore_unmarks:
  assumes io: "keeps_options io opts server" and s: "opts s = marked before left len v" "valid_utf8 v"
    and left: "before STATUS_LEFT = Some left" "valid_utf8 left"
    and len: "\<And>l. len = Some l \<Longrightarrow> before STATUS_LEFT_LENGTH = Some (lo_original l) \<and> valid_utf8 (lo_written l)"
    and sol: "sol = option_of (before SOLSTONE_OPTION)"
  shows "\<exists>t. restore display io (ownership left sol len v) s = (Inr (), t) \<and> opts t = before"
proof -
  have "valid_utf8 (INDICATOR_PREFIX @ left)" using valid_prefix left(2) by (rule valid_utf8_append)
  moreover have "opts s STATUS_LEFT = Some (INDICATOR_PREFIX @ left)" using s(1) by (simp add: marked_def)
  ultimately obtain a where a: "io_read io STATUS_LEFT s = (Inr (OptPresent (INDICATOR_PREFIX @ left)), a)" "opts a = opts s"
    using keepsD(2) [OF io] by blast
  obtain b where b: "restore_value io STATUS_LEFT (OptPresent left) a = (Inr (), b)"
    "opts b = (marked before left len v)(STATUS_LEFT \<mapsto> left)"
    using restore_option [OF io, of STATUS_LEFT "OptPresent left" a] a(2) s(1) by auto
  let ?length = "case len of None \<Rightarrow> (returnE [] :: (_, string list, string list) comp) | Some l \<Rightarrow> tryE (io_read io STATUS_LEFT_LENGTH)
      (give_back display STATUS_LEFT_LENGTH (OptPresent (lo_written l)) (io_write io STATUS_LEFT_LENGTH (lo_original l)))"
  have "\<exists>c. ?length b = (Inr [], c) \<and> opts c = (opts b)(STATUS_LEFT_LENGTH := before STATUS_LEFT_LENGTH)"
  proof (cases len)
    case None
    then show ?thesis using b(2) by (auto simp: returnE_def marked_def fun_eq_iff)
  next
    case (Some l)
    then have "opts b STATUS_LEFT_LENGTH = Some (lo_written l)" using b(2) by (simp add: marked_def)
    then obtain x where x: "io_read io STATUS_LEFT_LENGTH b = (Inr (OptPresent (lo_written l)), x)" "opts x = opts b"
      using keepsD(2) [OF io] len [OF Some] by blast
    obtain c where c: "io_write io STATUS_LEFT_LENGTH (lo_original l) x = (Inr (), c)"
      "opts c = (opts x)(STATUS_LEFT_LENGTH \<mapsto> lo_original l)"
      using keepsD(4) [OF io] by blast
    with give_back_puts [OF x(1), where put = "io_write io STATUS_LEFT_LENGTH (lo_original l)"] x(2) Some len [OF Some]
    show ?thesis by auto
  qed
  then obtain c where c: "?length b = (Inr [], c)"
    "opts c = (opts b)(STATUS_LEFT_LENGTH := before STATUS_LEFT_LENGTH)" by blast
  have "opts c SOLSTONE_OPTION = Some v" using b(2) c(2) by (simp add: marked_def)
  then obtain d where d: "io_read io SOLSTONE_OPTION c = (Inr (OptPresent v), d)" "opts d = opts c"
    using keepsD(2) [OF io _ s(2)] by blast
  obtain e where e: "restore_value io SOLSTONE_OPTION sol d = (Inr (), e)"
    "opts e = (opts d)(SOLSTONE_OPTION := (case sol of OptAbsent \<Rightarrow> None | OptPresent v \<Rightarrow> Some v))"
    using restore_option [OF io] by blast
  have "opts e = before"
    using e(2) d(2) c(2) b(2) sol left(1)
    by (auto simp: marked_def option_of_def fun_eq_iff split: option.splits)
  moreover have "restore display io (ownership left sol len v) s = (Inr (), e)"
    using a(1) give_back_puts [OF a(1), where put = "restore_value io STATUS_LEFT (OptPresent left)", OF b(1)] c(1) d(1)
      give_back_puts [OF d(1), where put = "restore_value io SOLSTONE_OPTION sol", OF e(1)]
    by (simp add: restore_def tryE_def bindE_def ownership_def returnE_def)
  ultimately show ?thesis by blast
qed

subsection \<open>The life of an indicator\<close>

text \<open>
  What the supervisor does with the indicator, between its start and the shutdown: the activity
  changes, the server is looked at again, or the process is killed and started anew.
\<close>

datatype indicator_event = Working bool | Refreshed | Restarted

fun indicator_turn ::
  "(IndicatorError \<Rightarrow> string) \<Rightarrow> 's IndicatorIo \<Rightarrow> indicator_event \<Rightarrow> ServerIndicator \<times> 's \<Rightarrow> ServerIndicator \<times> 's" where
  "indicator_turn display io (Working b) (si, s) = snd (set_working io b si s)"
| "indicator_turn display io Refreshed (si, s) = snd (refresh display io si s)"
| "indicator_turn display io Restarted (si, s) =
     (case start_indicator display io s of (Inr si, s) \<Rightarrow> (si, s) | (Inl _, s) \<Rightarrow> (\<lparr>si_installed = None, si_working = False\<rparr>, s))"

definition indicator_life ::
  "(IndicatorError \<Rightarrow> string) \<Rightarrow> 's IndicatorIo \<Rightarrow> indicator_event list \<Rightarrow> 's \<Rightarrow> (string list + unit) \<times> 's" where
  "indicator_life display io events s =
     (case fold (indicator_turn display io) (Restarted # events) (\<lparr>si_installed = None, si_working = False\<rparr>, s) of
        (si, s) \<Rightarrow> (case restore_indicator display io si s of (r, _, s) \<Rightarrow> (r, s)))"

definition plain_length :: "string \<Rightarrow> bool" where
  "plain_length n = (case parse_u32 (trim n) of None \<Rightarrow> True | Some k \<Rightarrow> n = dec_of_nat k \<and> k < u32_max)"

text \<open>The indicator is installed on the server, and an option it will put back was there before.\<close>

definition holds_mark ::
  "('s \<Rightarrow> string \<Rightarrow> string option) \<Rightarrow> string \<Rightarrow> (string \<Rightarrow> string option) \<Rightarrow> string \<Rightarrow> LengthOwnership option \<Rightarrow> ServerIndicator \<times> 's \<Rightarrow> bool" where
  "holds_mark opts server before left len p \<longleftrightarrow>
     (\<exists>v\<in>{OBSERVING_VALUE, SYNCING_VALUE}.
        opts (snd p) = marked before left len v
        \<and> si_installed (fst p) = Some (server, ownership left (option_of (before SOLSTONE_OPTION)) len v))"

lemma length_again:
  assumes "plain_length n" "length_from_current (OptPresent n) False = len"
  shows "\<And>l. len = Some l \<Longrightarrow> lo_original l = n \<and> valid_utf8 (lo_written l)
      \<and> length_from_current (OptPresent (lo_written l)) True = Some l"
    "len = None \<Longrightarrow> length_from_current (OptPresent n) True = None"
  using assms
  by (auto simp: plain_length_def length_from_current_def Let_def read_dec sat_add_u32_def INDICATOR_WIDTH_def min_def
      intro!: valid_utf8_ascii dec_of_nat_ascii split: option.splits)
    (rule arg_cong [where f = dec_of_nat], simp)

lemma turn_holds:
  assumes io: "keeps_options io opts server"
    and left: "before STATUS_LEFT = Some left" "valid_utf8 left" "\<not> starts_with INDICATOR_PREFIX left"
    and n: "before STATUS_LEFT_LENGTH = Some n" "valid_utf8 n" "plain_length n" "length_from_current (OptPresent n) False = len"
    and p: "holds_mark opts server before left len p"
    and again: "e = Restarted \<Longrightarrow> before SOLSTONE_OPTION = None"
  shows "holds_mark opts server before left len (indicator_turn display io e p)"
proof -
  obtain si s where sis: "p = (si, s)" by fastforce
  obtain v where v: "v \<in> {OBSERVING_VALUE, SYNCING_VALUE}" "opts s = marked before left len v"
    "si_installed si = Some (server, ownership left (option_of (before SOLSTONE_OPTION)) len v)"
    using p by (auto simp: holds_mark_def sis)
  have valid: "valid_utf8 v" using v(1) mark_values_valid by auto
  show ?thesis
  proof (cases e)
    case (Working b)
    let ?v = "if b then SYNCING_VALUE else OBSERVING_VALUE"
    obtain t where "update_solstone io ?v (ownership left (option_of (before SOLSTONE_OPTION)) len v) s
        = (Inr (True, ownership left (option_of (before SOLSTONE_OPTION)) len ?v), t)" "opts t = marked before left len ?v"
      using update_marks [OF io v(2) valid] by blast
    with v(3) show ?thesis by (auto simp: Working sis set_working_def Let_def holds_mark_def)
  next
    case Refreshed
    obtain t where "io_identity io s = (Inr server, t)" "opts t = opts s" using keepsD(1) [OF io] by blast
    with v show ?thesis by (auto simp: Refreshed sis refresh_def holds_mark_def)
  next
    case Restarted
    obtain a where a: "io_identity io s = (Inr server, a)" "opts a = opts s" using keepsD(1) [OF io] by blast
    have l: "opts a STATUS_LEFT = Some (INDICATOR_PREFIX @ left)" "valid_utf8 (INDICATOR_PREFIX @ left)"
      "strip_marks (INDICATOR_PREFIX @ left) = left"
      using a(2) v(2) left by (simp_all add: marked_def strip_marks_one valid_utf8_append valid_prefix)
    obtain m where m: "opts a STATUS_LEFT_LENGTH = Some m" "valid_utf8 m"
      "length_from_current (OptPresent m) (left \<noteq> INDICATOR_PREFIX @ left) = len"
      using a(2) v(2) n length_again [OF n(3,4)] prefix_nonempty
      by (cases len) (auto simp: marked_def)
    have sol: "opts a SOLSTONE_OPTION = Some v" "pred_option valid_utf8 (Some v)"
      using a(2) v(2) valid by (simp_all add: marked_def)
    have "normalize_solstone (option_of (Some v)) = option_of (before SOLSTONE_OPTION)"
      using v(1) again [OF Restarted] by (auto simp: normalize_solstone_def option_of_def)
    with install_marks [OF io l m sol, of display]
    obtain t where "install_default display io a
        = (Inr (ownership left (option_of (before SOLSTONE_OPTION)) len OBSERVING_VALUE), t)"
      "opts t = marked (opts a) left len OBSERVING_VALUE" by auto
    moreover have "marked (opts a) left len OBSERVING_VALUE = marked before left len OBSERVING_VALUE"
      using a(2) v(2) by (auto simp: marked_def fun_eq_iff split: option.splits)
    ultimately show ?thesis
      using a(1) by (simp add: Restarted sis start_indicator_def refresh_def Let_def holds_mark_def)
  qed
qed

lemma first_start_holds:
  assumes io: "keeps_options io opts server"
    and left: "opts s STATUS_LEFT = Some left" "valid_utf8 left" "\<not> starts_with INDICATOR_PREFIX left"
    and n: "opts s STATUS_LEFT_LENGTH = Some n" "valid_utf8 n" "length_from_current (OptPresent n) False = len"
    and sol: "opts s SOLSTONE_OPTION = sol" "pred_option valid_utf8 sol" "sol \<notin> Some ` {[], OBSERVING_VALUE, SYNCING_VALUE}"
  shows "holds_mark opts server (opts s) left len (indicator_turn display io Restarted (si, s))"
proof -
  obtain a where a: "io_identity io s = (Inr server, a)" "opts a = opts s" using keepsD(1) [OF io] by blast
  have l: "opts a STATUS_LEFT = Some left" "strip_marks left = left"
    using left a(2) by (simp_all add: strip_marks_none)
  have m: "opts a STATUS_LEFT_LENGTH = Some n" "length_from_current (OptPresent n) (left \<noteq> left) = len"
    and o: "opts a SOLSTONE_OPTION = sol"
    using n sol a(2) by simp_all
  have "normalize_solstone (option_of sol) = option_of sol"
    using sol(3) by (auto simp: normalize_solstone_def option_of_def split: option.splits)
  with install_marks [OF io l(1) left(2) l(2) m(1) n(2) m(2) o sol(2), of display] a sol(1)
  show ?thesis by (auto simp: start_indicator_def refresh_def Let_def holds_mark_def)
qed

lemma mark_comes_off:
  assumes io: "keeps_options io opts server"
    and left: "opts s STATUS_LEFT = Some left" "valid_utf8 left" "\<not> starts_with INDICATOR_PREFIX left"
    and n: "opts s STATUS_LEFT_LENGTH = Some n" "valid_utf8 n" "plain_length n"
    and sol: "opts s SOLSTONE_OPTION = sol" "pred_option valid_utf8 sol" "sol \<notin> Some ` {[], OBSERVING_VALUE, SYNCING_VALUE}"
    and again: "Restarted \<in> set events \<Longrightarrow> sol = None"
  shows "\<exists>t. indicator_life display io events s = (Inr (), t) \<and> opts t = opts s"
proof -
  let ?len = "length_from_current (OptPresent n) False" and ?none = "\<lparr>si_installed = None, si_working = False\<rparr>"
  have "set es \<subseteq> set events \<Longrightarrow> holds_mark opts server (opts s) left ?len
      (fold (indicator_turn display io) es (indicator_turn display io Restarted (?none, s)))" for es
  proof (induction es rule: rev_induct)
    case Nil
    show ?case using first_start_holds [OF io left n(1,2) refl sol, of display ?none] by simp
  next
    case (snoc e es)
    then have "e = Restarted \<Longrightarrow> opts s SOLSTONE_OPTION = None" using again sol(1) by auto
    from turn_holds [OF io left n refl _ this, where display = display] snoc show ?case by simp
  qed
  then obtain si t where p: "fold (indicator_turn display io) (Restarted # events) (?none, s) = (si, t)"
    "holds_mark opts server (opts s) left ?len (si, t)"
    by (metis fold_simps(2) order_refl surj_pair)
  then obtain v where v: "v \<in> {OBSERVING_VALUE, SYNCING_VALUE}" "opts t = marked (opts s) left ?len v"
    "si_installed si = Some (server, ownership left (option_of (opts s SOLSTONE_OPTION)) ?len v)"
    by (auto simp: holds_mark_def)
  then have "valid_utf8 v" using mark_values_valid by auto
  from restore_unmarks [OF io v(2) this left(1,2) _ refl, of display] length_again(1) [OF n(3) refl] n(1)
  obtain u where "restore display io (ownership left (option_of (opts s SOLSTONE_OPTION)) ?len v) t = (Inr (), u)" "opts u = opts s"
    by auto
  with p(1) v(3) show ?thesis by (simp add: indicator_life_def restore_indicator_def)
qed


text \<open>A tmux with one server, whose options are the state\<close>

fun sample_tmux :: "CommandInvocation \<Rightarrow> (string \<Rightarrow> string option) \<Rightarrow> (CommandError + CommandOutput) \<times> (string \<Rightarrow> string option)" where
  "sample_tmux c opts =
     (let put = (\<lambda>r t. (Inr \<lparr>co_stdout = r, co_stderr = [], co_status = 0\<rparr>, t)) in
      case cm_operation c of
        TmuxCommand (ShowOption name) \<Rightarrow>
          (case opts name of
             Some v \<Rightarrow> put (v @ [LF]) opts
           | None \<Rightarrow> (Inr \<lparr>co_stdout = [], co_stderr = ''invalid option'', co_status = 1\<rparr>, opts))
      | TmuxCommand (SetOption name) \<Rightarrow> put [] (opts(name \<mapsto> last (cm_args c)))
      | TmuxCommand (UnsetOption name) \<Rightarrow> put [] (opts(name := None))
      | _ \<Rightarrow> put (''42 7'' @ [LF]) opts)"


end
