(* ===== verification/Credentials.thy ===== *)
theory Credentials
  imports Effects Health
begin

text \<open>
  The pairing on disk (\<open>src/private_link.rs\<close>): \<open>credentials.json\<close> below the configuration root.
  \<open>Credential\<close> is the structure of the transport library with the fields the program sets or reads;
  the contents of two optional ones stay opaque. Its JSON encoding, the digest that names a pairing
  and the certificate reader are parameters.
\<close>

record EndpointAddr =
  ea_host :: string
  ea_port :: nat

record Credential =
  cr_client_key_pem :: string
  cr_client_cert_pem :: string
  cr_ca_chain_pem :: "string list"
  cr_ca_fp_prefix :: bytes
  cr_instance_id :: string
  cr_home_label :: string
  cr_endpoints :: "EndpointAddr list"
  cr_home_attestation :: "bytes option"
  cr_local_endpoints :: "bytes option"
  cr_relay_origin :: "string option"
  cr_device_token :: "string option"
  cr_device_token_expires_at :: "int option"

record credential_codec =
  cc_json :: "Credential \<Rightarrow> bytes option"
  cc_parse :: "bytes \<Rightarrow> Credential option"

definition CREDENTIALS_FILENAME :: string where "CREDENTIALS_FILENAME = ''credentials.json''"

definition hex_encode :: "bytes \<Rightarrow> string" where
  "hex_encode bs = concat (map hex_byte bs)"

text \<open>How the errors of a private file are reported\<close>

definition read_failure :: "StorageError \<Rightarrow> DiagnosticCode" where
  "read_failure e =
     (case e of
        InvalidTarget _ \<Rightarrow> PrivateStateInvalid
      | StorageIo _ _ LoopLink \<Rightarrow> PrivateStateInvalid
      | _ \<Rightarrow> PrivateStateIo)"

definition write_failure :: "StorageError \<Rightarrow> DiagnosticCode" where
  "write_failure e = (case e of InvalidTarget _ \<Rightarrow> PrivateStateInvalid | _ \<Rightarrow> PrivateStateIo)"

definition read_private_file :: "path \<Rightarrow> (DiagnosticCode, bytes option) io" where
  "read_private_file p =
     tryE (open_regular_readonly p) (\<lambda>opened.
       case opened of
         Inl (StorageIo _ _ NotFound) \<Rightarrow> returnE None
       | Inl e \<Rightarrow> throwE (read_failure e)
       | Inr i \<Rightarrow>
           bindE (map_errE (\<lambda>_. PrivateStateIo) (fs_chmod_fd i 384)) (\<lambda>_.
           bindE (map_errE (\<lambda>_. PrivateStateIo) (fs_read_fd i)) (\<lambda>b.
           returnE (Some b))))"

definition persist_private_file :: "path \<Rightarrow> string \<Rightarrow> bytes \<Rightarrow> (DiagnosticCode, unit) io" where
  "persist_private_file root name b = map_errE write_failure (atomic_write_bytes (path_join root name) root b)"

definition load_credential :: "credential_codec \<Rightarrow> path \<Rightarrow> (DiagnosticCode, Credential option) io" where
  "load_credential codec root =
     bindE (read_private_file (path_join root CREDENTIALS_FILENAME)) (\<lambda>found.
     case found of
       None \<Rightarrow> returnE None
     | Some b \<Rightarrow>
         (case cc_parse codec b of
            None \<Rightarrow> throwE PrivateStateInvalid
          | Some c \<Rightarrow> if cr_instance_id c = [] then throwE PrivateStateInvalid else returnE (Some c)))"

definition persist_credential :: "credential_codec \<Rightarrow> path \<Rightarrow> Credential \<Rightarrow> (DiagnosticCode, unit) io" where
  "persist_credential codec root c =
     (case cc_json codec c of
        None \<Rightarrow> throwE PrivateStateInvalid
      | Some b \<Rightarrow> persist_private_file root CREDENTIALS_FILENAME b)"

definition delete_credential_file :: "path \<Rightarrow> (DiagnosticCode, unit) io" where
  "delete_credential_file root =
     (let p = path_join root CREDENTIALS_FILENAME in
      tryE (open_regular_readonly p) (\<lambda>opened.
        case opened of
          Inr _ \<Rightarrow> map_errE (\<lambda>_. PrivateStateIo) (fs_remove_file p)
        | Inl (StorageIo _ _ NotFound) \<Rightarrow> returnE ()
        | Inl e \<Rightarrow> throwE (read_failure e)))"

subsection \<open>What the operations promise\<close>

lemma credentials_name: "plain_name CREDENTIALS_FILENAME"
  unfolding plain_name_def CREDENTIALS_FILENAME_def by (simp del: valid_utf8.simps add: valid_utf8_ascii)

text \<open>Reading a private file gives the bytes there are; no file changes, at most a mode.\<close>

lemma read_private_spec:
  assumes "world_ok w"
  shows "wpE (read_private_file p) (\<lambda>x u. x = view w p \<and> only_touches {} w u) (\<lambda>_. only_touches {} w) w"
proof -
  have same: "only_touches {} w (tick w)" "only_touches {} w (tick (tick w))"
    "\<And>i. only_touches {} w (put_mode i 384 (tick (tick (tick w))))"
    "\<And>i. only_touches {} w (tick (put_mode i 384 (tick (tick (tick w)))))"
    "only_touches {} w (tick (tick (tick w)))"
    using assms by (simp_all add: only_touches_def world_simps)
  show ?thesis
    unfolding read_private_file_def open_regular_readonly_def stage_io_def
    apply simp
    apply (rule wp_open_read)
    subgoal using same by (simp add: EIO_def)
    subgoal using same by (simp add: view_def)
    subgoal using same by simp
    apply (rule wp_seek)
    subgoal using same by (simp add: EIO_def)
    using same by (auto simp: view_def world_simps split: node.split intro!: wp_chmod_fd wp_read_fd)
qed

lemma persist_private_spec:
  assumes "world_ok w" "plain_name n"
  shows "wpE (persist_private_file root n b)
    (\<lambda>_. replaced_ok (write_scope root (root @ [n])) (root @ [n]) b w)
    (\<lambda>_. replaced_err (write_scope root (root @ [n])) (root @ [n]) b w) w"
  using atomic_write_bytes_spec [OF assms, of root b]
  by (simp add: persist_private_file_def path_join_plain_name assms(2))

text \<open>The pairing a disk holds, as bytes\<close>

definition held_pairing :: "path \<Rightarrow> world \<Rightarrow> bytes option" where
  "held_pairing root w = view w (root @ [CREDENTIALS_FILENAME])"

text \<open>
  What its users rely on: a pairing that was persisted is held, one that was not is held or the
  file is as before, and loading shows what is held and changes nothing.
\<close>

locale pairing_store =
  fixes ok :: "'d \<Rightarrow> bool" and held :: "'d \<Rightarrow> bytes option" and codec :: credential_codec
    and persist :: "Credential \<Rightarrow> ('d, DiagnosticCode, unit) comp"
    and load :: "('d, DiagnosticCode, Credential option) comp"
  assumes persisting: "ok d \<Longrightarrow> wpE (persist c) (\<lambda>_ u. ok u \<and> (\<exists>b. cc_json codec c = Some b \<and> held u = Some b))
      (\<lambda>_ u. ok u \<and> (held u = held d \<or> (\<exists>b. cc_json codec c = Some b \<and> held u = Some b))) d"
    and loading: "ok d \<Longrightarrow> wpE load
      (\<lambda>x u. ok u \<and> held u = held d \<and> (case x of None \<Rightarrow> held d = None | Some c \<Rightarrow> \<exists>b. held d = Some b \<and> cc_parse codec b = Some c))
      (\<lambda>_ u. ok u \<and> held u = held d) d"
begin

lemma persistE:
  assumes "ok d" "persist c d = (r, u)"
  shows "ok u" "r = Inr () \<Longrightarrow> \<exists>b. cc_json codec c = Some b \<and> held u = Some b"
    "held u = held d \<or> (\<exists>b. cc_json codec c = Some b \<and> held u = Some b)"
  using persisting [OF assms(1), of c] assms(2) by (auto simp: wpE_def split: sum.splits)

lemma loadE:
  assumes "ok d" "load d = (r, u)"
  shows "ok u" "held u = held d" "r = Inr (Some c) \<Longrightarrow> \<exists>b. held d = Some b \<and> cc_parse codec b = Some c"
  using loading [OF assms(1)] assms(2) by (auto simp: wpE_def split: sum.splits)

end

interpretation pairing_file: pairing_store world_ok "held_pairing root" codec "persist_credential codec root" "load_credential codec root"
  for root codec
proof
  fix d c assume ok: "world_ok d"
  show "wpE (persist_credential codec root c)
      (\<lambda>_ u. world_ok u \<and> (\<exists>b. cc_json codec c = Some b \<and> held_pairing root u = Some b))
      (\<lambda>_ u. world_ok u \<and> (held_pairing root u = held_pairing root d \<or> (\<exists>b. cc_json codec c = Some b \<and> held_pairing root u = Some b))) d"
    using wpE_mono [OF persist_private_spec [OF ok credentials_name, of root]] ok
    by (auto simp: persist_credential_def held_pairing_def replaced_ok_def replaced_err_def only_touches_def split: option.split)
next
  fix d assume ok: "world_ok d"
  show "wpE (load_credential codec root)
      (\<lambda>x u. world_ok u \<and> held_pairing root u = held_pairing root d
        \<and> (case x of None \<Rightarrow> held_pairing root d = None | Some c \<Rightarrow> \<exists>b. held_pairing root d = Some b \<and> cc_parse codec b = Some c))
      (\<lambda>_ u. world_ok u \<and> held_pairing root u = held_pairing root d) d"
    unfolding load_credential_def wpE_bind
    by (rule wpE_mono [OF read_private_spec [OF ok]])
      (auto simp: path_join_plain_name credentials_name held_pairing_def only_touches_def split: option.splits)
qed

end
