(* ===== verification/Store.thy ===== *)
theory Store
  imports Credentials "HOL-Library.Word"
begin

text \<open>
  The live pairing (\<open>CredentialStore\<close> of \<open>src/sync.rs\<close>, \<open>PrivateLinkOpener\<close> of
  \<open>src/private_link.rs\<close>). What changes the pairing is queued and runs one at a time, but the lock
  on the state is given up while a pairing is written to disk: attempts are captured and the session
  is retired in between. So each queued action is two steps, up to the write (\<open>begin_action\<close>) and from it
  on (\<open>finish_action\<close>), and a run is any interleaving of them with captures and retirement. Counters
  are 64-bit words. Parameters: the transport library, which may refuse a pairing, the digest that names
  a pairing, IP addresses, and the two operations on the disk.
\<close>

type_synonym u64 = "64 word"

record TokenUpdate =
  tu_id :: u64
  tu_expected_mutation_gen :: u64

record AccessAttempt =
  aa_pairing_generation :: bytes
  aa_lane_attempt_id :: u64
  aa_owner_attempt_id :: u64
  aa_access_revision :: u64
  aa_relay_origin :: "string option"
  aa_device_token :: "string option"
  aa_deadline :: nat

datatype ReadyPublication = Confirmed | Uncertain

datatype CredentialPersistenceIssue = IssueFailed | IssueUncertain

record CredentialStoreState =
  cs_credential :: Credential
  cs_mutation_generation :: u64
  cs_pending :: "TokenUpdate option"
  cs_durable_clear_pending_gen :: "u64 option"
  cs_shutdown :: bool
  cs_current_access_attempt_id :: u64
  cs_persistence_issue :: "CredentialPersistenceIssue option"

record CredentialStore =
  st_pairing_generation :: bytes
  st_state :: CredentialStoreState
  st_next_pending_id :: u64
  st_next_access_attempt_id :: u64

definition new_store :: "Credential \<Rightarrow> bytes \<Rightarrow> CredentialStore" where
  "new_store c generation =
     \<lparr>st_pairing_generation = generation,
      st_state = \<lparr>cs_credential = c, cs_mutation_generation = 0, cs_pending = None, cs_durable_clear_pending_gen = None,
        cs_shutdown = False, cs_current_access_attempt_id = 0, cs_persistence_issue = None\<rparr>,
      st_next_pending_id = 0, st_next_access_attempt_id = 0\<rparr>"

definition on_state :: "(CredentialStoreState \<Rightarrow> CredentialStoreState) \<Rightarrow> CredentialStore \<Rightarrow> CredentialStore" where
  "on_state f st = st\<lparr>st_state := f (st_state st)\<rparr>"

subsection \<open>The opener\<close>

text \<open>A transport is what the library made of a pairing, with the generation its token hook leases.\<close>

datatype 't OpenerMode =
  Transport (om_transport: 't) (om_credential: Credential) (om_revision: u64)
| Disabled (om_credential: Credential) (om_revision: u64)

record 't OpenerState =
  op_incarnation :: u64
  op_retired :: bool
  op_mode :: "'t OpenerMode"

record 't transports =
  tl_new :: "Credential \<Rightarrow> u64 \<Rightarrow> 't option"
  tl_new_relay_only :: "Credential \<Rightarrow> u64 \<Rightarrow> 't option"

definition new_opener :: "'t \<Rightarrow> Credential \<Rightarrow> 't OpenerState" where
  "new_opener transport c = \<lparr>op_incarnation = 0, op_retired = False, op_mode = Transport transport c 0\<rparr>"

definition install_transport :: "'t \<Rightarrow> Credential \<Rightarrow> u64 \<Rightarrow> 't OpenerState \<Rightarrow> 't OpenerState" where
  "install_transport transport c revision os =
     (if op_retired os then os
      else os\<lparr>op_incarnation := op_incarnation os + 1, op_mode := Transport transport c revision\<rparr>)"

definition install_disabled :: "Credential \<Rightarrow> u64 \<Rightarrow> 't OpenerState \<Rightarrow> 't OpenerState" where
  "install_disabled c revision os =
     (if op_retired os then os
      else os\<lparr>op_incarnation := op_incarnation os + 1, op_mode := Disabled c revision\<rparr>)"

definition retire_opener :: "'t OpenerState \<Rightarrow> 't OpenerState" where
  "retire_opener os = os\<lparr>op_retired := True, op_incarnation := op_incarnation os + 1\<rparr>"

definition live_dial_credential :: "'t OpenerState \<Rightarrow> Credential" where
  "live_dial_credential os = om_credential (op_mode os)"

text \<open>What a dial starts with, and whether its carrier may still be used when it is there.\<close>

definition dial_snapshot :: "'t OpenerState \<Rightarrow> (u64 \<times> u64 \<times> 't) option" where
  "dial_snapshot os =
     (if op_retired os then None
      else case op_mode os of
        Transport t _ revision \<Rightarrow> Some (op_incarnation os, revision, t)
      | Disabled _ _ \<Rightarrow> None)"

definition dial_still_current :: "u64 \<Rightarrow> 't OpenerState \<Rightarrow> bool" where
  "dial_still_current incarnation os \<longleftrightarrow> \<not> (op_retired os \<or> op_incarnation os \<noteq> incarnation)"

subsection \<open>Attempts\<close>

definition capture_access_attempt_until :: "u64 \<Rightarrow> nat \<Rightarrow> CredentialStore \<Rightarrow> AccessAttempt \<times> CredentialStore" where
  "capture_access_attempt_until lane deadline st =
     (let owner = st_next_access_attempt_id st + 1;
          state = (st_state st)\<lparr>cs_current_access_attempt_id := owner\<rparr> in
      (\<lparr>aa_pairing_generation = st_pairing_generation st, aa_lane_attempt_id = lane, aa_owner_attempt_id = owner,
        aa_access_revision = cs_mutation_generation state, aa_relay_origin = cr_relay_origin (cs_credential state),
        aa_device_token = cr_device_token (cs_credential state), aa_deadline = deadline\<rparr>,
       st\<lparr>st_next_access_attempt_id := owner, st_state := state\<rparr>))"

definition access_attempt_is_current :: "nat \<Rightarrow> CredentialStore \<Rightarrow> AccessAttempt \<Rightarrow> bool" where
  "access_attempt_is_current now st a \<longleftrightarrow>
     (let state = st_state st in
      now < aa_deadline a
      \<and> aa_pairing_generation a = st_pairing_generation st
      \<and> aa_lane_attempt_id a \<noteq> 0
      \<and> cs_current_access_attempt_id state = aa_owner_attempt_id a
      \<and> \<not> cs_shutdown state
      \<and> cs_mutation_generation state = aa_access_revision a
      \<and> cr_relay_origin (cs_credential state) = aa_relay_origin a
      \<and> cr_device_token (cs_credential state) = aa_device_token a)"

definition invalidate :: "CredentialStore \<Rightarrow> CredentialStore" where
  "invalidate = on_state (\<lambda>s. s\<lparr>cs_shutdown := True\<rparr>)"

definition record_persistence_issue :: "CredentialPersistenceIssue \<Rightarrow> CredentialStoreState \<Rightarrow> CredentialStoreState" where
  "record_persistence_issue issue s = s\<lparr>cs_persistence_issue := Some issue\<rparr>"

subsection \<open>Addresses\<close>

text \<open>
  \<open>merge_dial_endpoints\<close>: the listed addresses once each, then at most two of the stored ones. \<open>ip\<close> gives
  the canonical text of an IP address; addresses are equal when their texts are.
\<close>

fun merge_listed :: "(string \<Rightarrow> string option) \<Rightarrow> EndpointAddr list \<Rightarrow> (string \<times> nat) list \<Rightarrow> EndpointAddr list
   \<Rightarrow> EndpointAddr list \<times> (string \<times> nat) list" where
  "merge_listed ip [] seen merged = (merged, seen)"
| "merge_listed ip (e # es) seen merged =
     (case ip (ea_host e) of
        None \<Rightarrow> merge_listed ip es seen merged
      | Some a \<Rightarrow>
          if (a, ea_port e) \<in> set seen then merge_listed ip es seen merged
          else merge_listed ip es ((a, ea_port e) # seen) (merged @ [\<lparr>ea_host = a, ea_port = ea_port e\<rparr>]))"

fun merge_stored :: "(string \<Rightarrow> string option) \<Rightarrow> EndpointAddr list \<Rightarrow> (string \<times> nat) list \<Rightarrow> nat \<Rightarrow> EndpointAddr list \<Rightarrow> EndpointAddr list" where
  "merge_stored ip [] seen added merged = merged"
| "merge_stored ip (e # es) seen added merged =
     (if 2 \<le> added then merged
      else case ip (ea_host e) of
        Some a \<Rightarrow>
          if (a, ea_port e) \<in> set seen then merge_stored ip es seen added merged
          else merge_stored ip es ((a, ea_port e) # seen) (Suc added) (merged @ [e])
      | None \<Rightarrow> merge_stored ip es seen (Suc added) (merged @ [e]))"

definition merge_dial_endpoints :: "(string \<Rightarrow> string option) \<Rightarrow> EndpointAddr list \<Rightarrow> EndpointAddr list \<Rightarrow> EndpointAddr list" where
  "merge_dial_endpoints ip listed stored =
     (case merge_listed ip listed [] [] of (merged, seen) \<Rightarrow> merge_stored ip stored seen 0 merged)"

subsection \<open>Queued actions\<close>

record ('t, 'd) store_env =
  se_transports :: "'t transports"
  se_generation :: "string \<Rightarrow> bytes"
  se_ip :: "string \<Rightarrow> string option"
  se_persist :: "Credential \<Rightarrow> ('d, DiagnosticCode, unit) comp"
  se_load :: "('d, DiagnosticCode, Credential option) comp"

datatype owned_action =
  TokenRefresh u64 string int
| SubmitReady AccessAttempt string string int
| SubmitDialEndpoints "EndpointAddr list"
| SubmitDisable AccessAttempt
| PersistPending

text \<open>What an action holds while its pairing is written\<close>

datatype 't flight =
  RefreshFlight Credential
| ReadyFlight Credential u64 't
| EndpointsFlight Credential u64 't
| DisableFlight Credential u64
| PendingFlight Credential

datatype action_result =
  RefreshResult
| ReadyResult "unit + ReadyPublication"
| UnitResult "unit + unit"
| PendingResult "DiagnosticCode + unit"

definition begin_token_refresh :: "u64 \<Rightarrow> string \<Rightarrow> int \<Rightarrow> CredentialStore \<Rightarrow> ('t flight + action_result) \<times> CredentialStore" where
  "begin_token_refresh expected token expires st =
     (let state = st_state st in
      if cs_shutdown state \<or> cs_mutation_generation state \<noteq> expected then (Inr RefreshResult, st)
      else
        let c = (cs_credential state)\<lparr>cr_device_token := Some token, cr_device_token_expires_at := Some expires\<rparr>;
            i = st_next_pending_id st + 1 in
        (Inl (RefreshFlight c),
         st\<lparr>st_next_pending_id := i,
            st_state := state\<lparr>cs_credential := c, cs_pending := Some \<lparr>tu_id = i, tu_expected_mutation_gen = expected\<rparr>\<rparr>\<rparr>))"

definition begin_ready ::
  "('t, 'd) store_env \<Rightarrow> nat \<Rightarrow> AccessAttempt \<Rightarrow> string \<Rightarrow> string \<Rightarrow> int \<Rightarrow> CredentialStore \<Rightarrow> 't flight + action_result" where
  "begin_ready env now a origin token expires st =
     (if \<not> access_attempt_is_current now st a then Inr (ReadyResult (Inl ()))
      else
        let updated = (cs_credential (st_state st))\<lparr>cr_relay_origin := Some origin, cr_device_token := Some token,
              cr_device_token_expires_at := Some expires\<rparr>;
            revision = cs_mutation_generation (st_state st) + 1 in
        case (if cr_endpoints updated = [] then tl_new_relay_only (se_transports env) updated revision
              else tl_new (se_transports env) updated revision) of
          None \<Rightarrow> Inr (ReadyResult (Inl ()))
        | Some t \<Rightarrow> Inl (ReadyFlight updated revision t))"

definition begin_endpoints ::
  "('t, 'd) store_env \<Rightarrow> EndpointAddr list \<Rightarrow> CredentialStore \<Rightarrow> 't flight + action_result" where
  "begin_endpoints env listed st =
     (let state = st_state st; c = cs_credential state in
      if cs_shutdown state \<or> se_generation env (cr_client_cert_pem c) \<noteq> st_pairing_generation st
      then Inr (UnitResult (Inl ()))
      else
        let merged = merge_dial_endpoints (se_ip env) listed (cr_endpoints c) in
        if merged = [] then Inr (UnitResult (Inr ()))
        else if merged = cr_endpoints c then Inr (UnitResult (Inr ()))
        else
          let updated = c\<lparr>cr_endpoints := merged\<rparr>; revision = cs_mutation_generation state in
          case tl_new (se_transports env) updated revision of
            None \<Rightarrow> Inr (UnitResult (Inl ()))
          | Some t \<Rightarrow> Inl (EndpointsFlight updated revision t))"

definition begin_disable ::
  "('t, 'd) store_env \<Rightarrow> nat \<Rightarrow> AccessAttempt \<Rightarrow> CredentialStore \<Rightarrow> 't OpenerState
   \<Rightarrow> ('t flight + action_result) \<times> CredentialStore \<times> 't OpenerState" where
  "begin_disable env now a st os =
     (if \<not> access_attempt_is_current now st a then (Inr (UnitResult (Inl ())), st, os)
      else
        let state = st_state st;
            direct = (cs_credential state)\<lparr>cr_relay_origin := None, cr_device_token := None, cr_device_token_expires_at := None\<rparr>;
            revision = cs_mutation_generation state + 1;
            st = st\<lparr>st_state := state\<lparr>cs_credential := direct, cs_pending := None, cs_mutation_generation := revision,
                     cs_durable_clear_pending_gen := Some revision\<rparr>\<rparr>;
            os = install_disabled direct revision os in
        if cr_endpoints direct = [] then (Inl (DisableFlight direct revision), st, os)
        else case tl_new (se_transports env) direct revision of
          None \<Rightarrow> (Inr (UnitResult (Inl ())), st, os)
        | Some t \<Rightarrow> (Inl (DisableFlight direct revision), st, install_transport t direct revision os))"

definition has_pending :: "CredentialStoreState \<Rightarrow> bool" where
  "has_pending s \<longleftrightarrow>
     is_some_and (cs_pending s) (\<lambda>p. tu_expected_mutation_gen p = cs_mutation_generation s)
     \<or> cs_durable_clear_pending_gen s = Some (cs_mutation_generation s)"

definition begin_action ::
  "('t, 'd) store_env \<Rightarrow> nat \<Rightarrow> owned_action \<Rightarrow> CredentialStore \<Rightarrow> 't OpenerState
   \<Rightarrow> ('t flight + action_result) \<times> CredentialStore \<times> 't OpenerState" where
  "begin_action env now action st os =
     (case action of
        TokenRefresh expected token expires \<Rightarrow> (case begin_token_refresh expected token expires st of (r, st) \<Rightarrow> (r, st, os))
      | SubmitReady a origin token expires \<Rightarrow> (begin_ready env now a origin token expires st, st, os)
      | SubmitDialEndpoints listed \<Rightarrow> (begin_endpoints env listed st, st, os)
      | SubmitDisable a \<Rightarrow> begin_disable env now a st os
      | PersistPending \<Rightarrow>
          (if \<not> has_pending (st_state st) then Inr (PendingResult (Inr ())) else Inl (PendingFlight (cs_credential (st_state st))),
           st, os))"

text \<open>What is on disk after a write that failed, compared in the fields that matter\<close>

definition same_pairing :: "Credential \<Rightarrow> Credential \<Rightarrow> bool" where
  "same_pairing loaded updated \<longleftrightarrow>
     cr_relay_origin loaded = cr_relay_origin updated
     \<and> cr_device_token loaded = cr_device_token updated
     \<and> cr_device_token_expires_at loaded = cr_device_token_expires_at updated
     \<and> cr_client_cert_pem loaded = cr_client_cert_pem updated
     \<and> cr_endpoints loaded = cr_endpoints updated"

definition write_pairing :: "('t, 'd) store_env \<Rightarrow> Credential \<Rightarrow> 'd \<Rightarrow> (ReadyPublication option) \<times> 'd" where
  "write_pairing env updated d =
     (case se_persist env updated d of
        (Inr _, d) \<Rightarrow> (Some Confirmed, d)
      | (Inl _, d) \<Rightarrow>
          (case se_load env d of
             (Inr (Some loaded), d) \<Rightarrow> (if same_pairing loaded updated then Some Uncertain else None, d)
           | (_, d) \<Rightarrow> (None, d)))"

definition finish_refresh ::
  "('t, 'd) store_env \<Rightarrow> Credential \<Rightarrow> CredentialStore \<Rightarrow> 't OpenerState \<Rightarrow> 'd
   \<Rightarrow> action_result \<times> CredentialStore \<times> 't OpenerState \<times> 'd" where
  "finish_refresh env c st os d =
     (case se_persist env c d of (r, d) \<Rightarrow>
        (RefreshResult,
         on_state (\<lambda>s. case r of
             Inr _ \<Rightarrow> s\<lparr>cs_pending := None, cs_persistence_issue := None\<rparr>
           | Inl _ \<Rightarrow> record_persistence_issue IssueFailed s) st, os, d))"

definition finish_ready ::
  "('t, 'd) store_env \<Rightarrow> Credential \<Rightarrow> u64 \<Rightarrow> 't \<Rightarrow> CredentialStore \<Rightarrow> 't OpenerState \<Rightarrow> 'd
   \<Rightarrow> action_result \<times> CredentialStore \<times> 't OpenerState \<times> 'd" where
  "finish_ready env updated revision t st os d =
     (case write_pairing env updated d of
        (None, d) \<Rightarrow> (ReadyResult (Inl ()), on_state (record_persistence_issue IssueFailed) st, os, d)
      | (Some p, d) \<Rightarrow>
          let i = (if p = Confirmed then st_next_pending_id st else st_next_pending_id st + 1);
              state = (st_state st)\<lparr>cs_credential := updated, cs_mutation_generation := revision,
                cs_durable_clear_pending_gen := None,
                cs_pending := (if p = Confirmed then None else Some \<lparr>tu_id = i, tu_expected_mutation_gen = revision\<rparr>)\<rparr>;
              state = (if p = Confirmed then state\<lparr>cs_persistence_issue := None\<rparr>
                       else record_persistence_issue IssueUncertain state) in
          (ReadyResult (Inr p), st\<lparr>st_next_pending_id := i, st_state := state\<rparr>, install_transport t updated revision os, d))"

definition finish_endpoints ::
  "('t, 'd) store_env \<Rightarrow> Credential \<Rightarrow> u64 \<Rightarrow> 't \<Rightarrow> CredentialStore \<Rightarrow> 't OpenerState \<Rightarrow> 'd
   \<Rightarrow> action_result \<times> CredentialStore \<times> 't OpenerState \<times> 'd" where
  "finish_endpoints env updated revision t st os d =
     (case write_pairing env updated d of
        (None, d) \<Rightarrow> (UnitResult (Inl ()), st, os, d)
      | (Some _, d) \<Rightarrow>
          (UnitResult (Inr ()), on_state (\<lambda>s. s\<lparr>cs_credential := updated\<rparr>) st, install_transport t updated revision os, d))"

definition finish_disable ::
  "('t, 'd) store_env \<Rightarrow> Credential \<Rightarrow> u64 \<Rightarrow> CredentialStore \<Rightarrow> 't OpenerState \<Rightarrow> 'd
   \<Rightarrow> action_result \<times> CredentialStore \<times> 't OpenerState \<times> 'd" where
  "finish_disable env direct revision st os d =
     (case se_persist env direct d of
        (Inr _, d) \<Rightarrow>
          (UnitResult (Inr ()),
           on_state (\<lambda>s. if cs_mutation_generation s = revision \<and> cs_durable_clear_pending_gen s = Some revision
             then s\<lparr>cs_durable_clear_pending_gen := None, cs_persistence_issue := None\<rparr> else s) st, os, d)
      | (Inl _, d) \<Rightarrow> (UnitResult (Inl ()), on_state (record_persistence_issue IssueFailed) st, os, d))"

definition finish_pending ::
  "('t, 'd) store_env \<Rightarrow> Credential \<Rightarrow> CredentialStore \<Rightarrow> 't OpenerState \<Rightarrow> 'd
   \<Rightarrow> action_result \<times> CredentialStore \<times> 't OpenerState \<times> 'd" where
  "finish_pending env c st os d =
     (case se_persist env c d of
        (Inr _, d) \<Rightarrow>
          (PendingResult (Inr ()),
           on_state (\<lambda>s. s\<lparr>cs_pending := None, cs_durable_clear_pending_gen := None, cs_persistence_issue := None\<rparr>) st, os, d)
      | (Inl e, d) \<Rightarrow>
          (PendingResult (Inl e),
           on_state (\<lambda>s. record_persistence_issue (case cs_persistence_issue s of None \<Rightarrow> IssueFailed | Some i \<Rightarrow> i) s) st, os, d))"

fun finish_action ::
  "('t, 'd) store_env \<Rightarrow> 't flight \<Rightarrow> CredentialStore \<Rightarrow> 't OpenerState \<Rightarrow> 'd
   \<Rightarrow> action_result \<times> CredentialStore \<times> 't OpenerState \<times> 'd" where
  "finish_action env (RefreshFlight c) st os d = finish_refresh env c st os d"
| "finish_action env (ReadyFlight updated revision t) st os d = finish_ready env updated revision t st os d"
| "finish_action env (EndpointsFlight updated revision t) st os d = finish_endpoints env updated revision t st os d"
| "finish_action env (DisableFlight direct revision) st os d = finish_disable env direct revision st os d"
| "finish_action env (PendingFlight c) st os d = finish_pending env c st os d"

lemmas finish_defs [simp] = finish_refresh_def finish_ready_def finish_endpoints_def finish_disable_def finish_pending_def

subsection \<open>Runs\<close>

text \<open>
  A run remembers every attempt captured, with the number of answers that had taken effect when it
  was, and the answers that took effect, newest first: the attempt, and the relay origin a Ready
  answer brought or \<open>None\<close> for a disable. One queued action runs at a time.
\<close>

record ('t, 'd) store_run =
  ru_store :: CredentialStore
  ru_opener :: "'t OpenerState"
  ru_disk :: 'd
  ru_flight :: "(AccessAttempt option \<times> 't flight) option"
  ru_captured :: "(AccessAttempt \<times> nat) list"
  ru_answers :: "(AccessAttempt \<times> string option) list"

datatype store_event = Captured u64 nat | Retired | Begun nat owned_action | Written

fun attempt_of :: "owned_action \<Rightarrow> AccessAttempt option" where
  "attempt_of (SubmitReady a _ _ _) = Some a"
| "attempt_of (SubmitDisable a) = Some a"
| "attempt_of _ = None"

fun disabling :: "nat \<Rightarrow> CredentialStore \<Rightarrow> owned_action \<Rightarrow> (AccessAttempt \<times> string option) list" where
  "disabling now st (SubmitDisable a) = (if access_attempt_is_current now st a then [(a, None)] else [])"
| "disabling now st _ = []"

fun answered :: "AccessAttempt option \<Rightarrow> 't flight \<Rightarrow> action_result \<Rightarrow> (AccessAttempt \<times> string option) list" where
  "answered (Some a) (ReadyFlight c _ _) (ReadyResult (Inr _)) = [(a, cr_relay_origin c)]"
| "answered _ _ _ = []"

fun store_step :: "('t, 'd) store_env \<Rightarrow> store_event \<Rightarrow> ('t, 'd) store_run \<Rightarrow> ('t, 'd) store_run" where
  "store_step env (Captured lane deadline) ru =
     (case capture_access_attempt_until lane deadline (ru_store ru) of (a, st) \<Rightarrow>
        ru\<lparr>ru_store := st, ru_captured := (a, length (ru_answers ru)) # ru_captured ru\<rparr>)"
| "store_step env Retired ru = ru\<lparr>ru_store := invalidate (ru_store ru), ru_opener := retire_opener (ru_opener ru)\<rparr>"
| "store_step env (Begun now action) ru =
     (if ru_flight ru \<noteq> None \<or> \<not> pred_option (\<lambda>a. a \<in> fst ` set (ru_captured ru)) (attempt_of action) then ru
      else
        let ru' = ru\<lparr>ru_answers := disabling now (ru_store ru) action @ ru_answers ru\<rparr> in
        case begin_action env now action (ru_store ru) (ru_opener ru) of
          (Inl f, st, os) \<Rightarrow> ru'\<lparr>ru_store := st, ru_opener := os, ru_flight := Some (attempt_of action, f)\<rparr>
        | (Inr _, st, os) \<Rightarrow> ru'\<lparr>ru_store := st, ru_opener := os\<rparr>)"
| "store_step env Written ru =
     (case ru_flight ru of
        None \<Rightarrow> ru
      | Some (a, f) \<Rightarrow>
          (case finish_action env f (ru_store ru) (ru_opener ru) (ru_disk ru) of (r, st, os, d) \<Rightarrow>
             ru\<lparr>ru_store := st, ru_opener := os, ru_disk := d, ru_flight := None,
                ru_answers := answered a f r @ ru_answers ru\<rparr>))"

definition store_runs :: "('t, 'd) store_env \<Rightarrow> store_event list \<Rightarrow> ('t, 'd) store_run \<Rightarrow> ('t, 'd) store_run" where
  "store_runs env events ru = fold (store_step env) events ru"

definition started :: "Credential \<Rightarrow> bytes \<Rightarrow> 't \<Rightarrow> 'd \<Rightarrow> ('t, 'd) store_run" where
  "started c generation transport d =
     \<lparr>ru_store = new_store c generation, ru_opener = new_opener transport c, ru_disk = d, ru_flight = None,
      ru_captured = [], ru_answers = []\<rparr>"

definition live :: "('t, 'd) store_run \<Rightarrow> Credential" where
  "live ru = cs_credential (st_state (ru_store ru))"

subsection \<open>Answers take effect in turn\<close>

text \<open>
  The generation counts the answers that took effect, an attempt carries the count at its capture, and
  the answers' attempts carry \<open>0\<close>, \<open>1\<close>, \<open>\<dots>\<close>
\<close>

definition relay_after :: "string option \<Rightarrow> (AccessAttempt \<times> string option) list \<Rightarrow> string option" where
  "relay_after start answers = (case answers of [] \<Rightarrow> start | (_, origin) # _ \<Rightarrow> origin)"

fun flight_fits :: "Credential \<Rightarrow> nat \<Rightarrow> (AccessAttempt option \<times> 't flight) option \<Rightarrow> bool" where
  "flight_fits c n (Some (a, ReadyFlight updated revision t)) \<longleftrightarrow>
     (\<exists>x. a = Some x \<and> aa_access_revision x = of_nat n \<and> revision = of_nat n + 1)"
| "flight_fits c n (Some (a, EndpointsFlight updated revision t)) \<longleftrightarrow> cr_relay_origin updated = cr_relay_origin c"
| "flight_fits c n _ \<longleftrightarrow> True"

definition in_turn :: "string option \<Rightarrow> ('t, 'd) store_run \<Rightarrow> bool" where
  "in_turn start ru \<longleftrightarrow>
     (let n = length (ru_answers ru) in
      cs_mutation_generation (st_state (ru_store ru)) = of_nat n
      \<and> cr_relay_origin (live ru) = relay_after start (ru_answers ru)
      \<and> map (aa_access_revision \<circ> fst) (rev (ru_answers ru)) = map of_nat [0..<n]
      \<and> flight_fits (live ru) n (ru_flight ru)
      \<and> (\<forall>(a, r) \<in> set (ru_captured ru). aa_access_revision a = of_nat r \<and> r \<le> n)
      \<and> fst ` set (ru_answers ru) \<subseteq> fst ` set (ru_captured ru)
      \<and> (case ru_flight ru of Some (Some a, _) \<Rightarrow> a \<in> fst ` set (ru_captured ru) | _ \<Rightarrow> True))"

lemma in_turn_started: "in_turn (cr_relay_origin c) (started c generation transport d)"
  by (simp add: in_turn_def started_def new_store_def live_def relay_after_def)

lemma current_revision: "access_attempt_is_current now st a \<Longrightarrow> cs_mutation_generation (st_state st) = aa_access_revision a"
  by (simp add: access_attempt_is_current_def Let_def)

lemmas begin_defs = begin_action_def begin_token_refresh_def begin_ready_def begin_endpoints_def begin_disable_def Let_def

lemma in_turn_begun:
  assumes "in_turn start ru"
  shows "in_turn start (store_step env (Begun now action) ru)"
proof (cases "ru_flight ru \<noteq> None \<or> \<not> pred_option (\<lambda>a. a \<in> fst ` set (ru_captured ru)) (attempt_of action)")
  case False
  then have idle: "ru_flight ru = None" by blast
  from False have known: "\<And>a. attempt_of action = Some a \<Longrightarrow> a \<in> fst ` set (ru_captured ru)" by auto
  show ?thesis
  proof (cases action)
    case (SubmitDisable a)
    show ?thesis
      using assms idle known [of a] current_revision [of now "ru_store ru" a]
      by (auto simp: SubmitDisable in_turn_def begin_defs live_def relay_after_def image_iff split: option.splits)
  next
    case (SubmitReady a origin token expires)
    show ?thesis
      using assms idle known [of a] current_revision [of now "ru_store ru" a]
      by (auto simp: SubmitReady in_turn_def begin_defs live_def relay_after_def image_iff split: option.splits if_splits)
  qed (use assms idle in \<open>auto simp: in_turn_def begin_defs live_def relay_after_def split: option.splits if_splits prod.splits\<close>)
next
  case True
  then have "store_step env (Begun now action) ru = ru" by (simp only: store_step.simps if_True)
  with assms show ?thesis by simp
qed

lemma in_turn_written:
  assumes "in_turn start ru"
  shows "in_turn start (store_step env Written ru)"
proof (cases "ru_flight ru")
  case (Some p)
  obtain a f where p: "p = (a, f)" by fastforce
  show ?thesis
  proof (cases f)
    case (ReadyFlight updated revision t)
    show ?thesis
      using assms
      by (auto simp: Some p ReadyFlight in_turn_def live_def relay_after_def Let_def on_state_def record_persistence_issue_def
          split: prod.splits option.splits)
  qed (use assms in \<open>auto simp: Some p in_turn_def live_def relay_after_def Let_def on_state_def record_persistence_issue_def
          split: prod.splits sum.splits option.splits\<close>)
qed (use assms in simp)

lemma in_turn_step: "in_turn start ru \<Longrightarrow> in_turn start (store_step env e ru)"
proof (cases e)
  case (Captured lane deadline)
  assume "in_turn start ru"
  then show ?thesis
    by (cases "ru_flight ru"; auto simp: Captured in_turn_def capture_access_attempt_until_def Let_def live_def image_iff split: option.splits)
next
  case Retired
  assume "in_turn start ru"
  then show ?thesis
    by (cases "ru_flight ru"; auto simp: Retired in_turn_def Let_def live_def invalidate_def on_state_def split: option.splits)
qed (simp_all only: in_turn_begun in_turn_written)

lemma in_turn_run: "in_turn start ru \<Longrightarrow> in_turn start (store_runs env events ru)"
  unfolding store_runs_def by (induction events arbitrary: ru) (simp_all only: fold_simps in_turn_step)

lemma answers_bound: "length (ru_answers (store_runs env events ru)) \<le> length (ru_answers ru) + length events"
proof -
  have step: "length (ru_answers (store_step env e ru)) \<le> Suc (length (ru_answers ru))" for e ru
  proof (cases e)
    case (Begun now action)
    have "length (disabling now st action) \<le> 1" for st by (cases action) auto
    from this [of "ru_store ru"] show ?thesis by (auto simp: Begun Let_def split: prod.splits sum.splits)
  next
    case Written
    have "length (answered a f r) \<le> 1" for a :: "AccessAttempt option" and f :: "'a flight" and r
      by (cases "(a, f, r)" rule: answered.cases) auto
    then show ?thesis by (auto simp: Written split: prod.splits option.splits)
  qed (auto split: prod.splits)
  show ?thesis
  proof (induction events arbitrary: ru)
    case (Cons e es)
    from Cons [of "store_step env e ru"] step [of e ru] show ?case by (simp add: store_runs_def)
  qed (simp add: store_runs_def)
qed

lemma u64_inject: "(of_nat a :: u64) = of_nat b \<Longrightarrow> a < 2 ^ 64 \<Longrightarrow> b < 2 ^ 64 \<Longrightarrow> a = b"
  by (simp add: word_of_nat_eq_iff take_bit_nat_eq_self)

text \<open>
  C29. Answers about relay access take effect in turn. However captures, queued actions, slow writes
  and retirement interleave and whatever the disk and the transport library refuse, the live
  pairing's relay is the one of the last answer that took effect; each attempt takes effect at most
  once, and the attempt of an answer was captured when exactly the answers before it had taken
  effect, so that no answer asked for before a change undoes it (for fewer than \<open>2^64\<close> events, the
  range of the generation counter).
\<close>

theorem answers_take_effect_in_turn:
  assumes "length events < 2 ^ 64"
    and "ru = store_runs env events (started c generation transport d)"
    and "k < length (ru_answers ru)"
  shows "cr_relay_origin (live ru) = relay_after (cr_relay_origin c) (ru_answers ru)
    \<and> distinct (map fst (ru_answers ru))
    \<and> (fst (rev (ru_answers ru) ! k), k) \<in> set (ru_captured ru)"
proof -
  let ?n = "length (ru_answers ru)"
  have n: "?n < 2 ^ 64"
    using answers_bound [of env events "started c generation transport d"] assms(1,2) by (simp add: started_def)
  have turn: "in_turn (cr_relay_origin c) ru"
    unfolding assms(2) by (intro in_turn_run in_turn_started)
  then have revisions: "map (aa_access_revision \<circ> fst) (rev (ru_answers ru)) = map of_nat [0..<?n]"
    by (simp add: in_turn_def Let_def)
  have "inj_on (of_nat :: nat \<Rightarrow> u64) {0..<?n}"
    by (rule inj_onI) (use n in \<open>auto intro: u64_inject\<close>)
  then have "distinct (map (aa_access_revision \<circ> fst) (rev (ru_answers ru)))"
    unfolding revisions by (simp add: distinct_map)
  then have "distinct (map fst (rev (ru_answers ru)))"
    by (metis distinct_map map_map)
  then have "distinct (map fst (ru_answers ru))" by (simp add: rev_map [symmetric])
  moreover have "(fst (rev (ru_answers ru) ! k), k) \<in> set (ru_captured ru)"
  proof -
    let ?a = "fst (rev (ru_answers ru) ! k)"
    have "?a \<in> fst ` set (ru_answers ru)" using assms(3) nth_mem [of k "rev (ru_answers ru)"] by (intro imageI) simp
    with turn obtain r where r: "(?a, r) \<in> set (ru_captured ru)" "aa_access_revision ?a = of_nat r" "r \<le> ?n"
      by (fastforce simp: in_turn_def Let_def)
    have "aa_access_revision ?a = of_nat k"
      using arg_cong [OF revisions, of "\<lambda>xs. xs ! k"] assms(3) by simp
    with r n assms(3) have "r = k" by (intro u64_inject) auto
    with r(1) show ?thesis by simp
  qed
  ultimately show ?thesis using turn by (simp add: in_turn_def Let_def)
qed

text \<open>A library and a disk that refuse nothing\<close>

definition sample_env :: "(unit, Credential) store_env" where
  "sample_env = \<lparr>se_transports = \<lparr>tl_new = \<lambda>_ _. Some (), tl_new_relay_only = \<lambda>_ _. Some ()\<rparr>, se_generation = id,
     se_ip = Some, se_persist = \<lambda>c _. (Inr (), c), se_load = \<lambda>d. (Inr (Some d), d)\<rparr>"

definition sample_credential :: Credential where
  "sample_credential = \<lparr>cr_client_key_pem = ''k'', cr_client_cert_pem = ''c'', cr_ca_chain_pem = [], cr_ca_fp_prefix = [],
     cr_instance_id = ''i'', cr_home_label = [], cr_endpoints = [], cr_home_attestation = None, cr_local_endpoints = None,
     cr_relay_origin = None, cr_device_token = None, cr_device_token_expires_at = None\<rparr>"

definition sample_attempt :: "u64 \<Rightarrow> AccessAttempt" where
  "sample_attempt owner = \<lparr>aa_pairing_generation = ''g'', aa_lane_attempt_id = 1, aa_owner_attempt_id = owner,
     aa_access_revision = 0, aa_relay_origin = None, aa_device_token = None, aa_deadline = 100\<rparr>"

text \<open>
  Two attempts, of which the first answers late and is refused; a third is captured while the second's
  answer is written, and its disable is refused.
\<close>

definition sample_answers :: "store_event list" where
  "sample_answers =
     [Captured 1 100, Captured 1 100, Begun 5 (SubmitReady (sample_attempt 1) ''old'' ''t'' 9),
      Begun 5 (SubmitReady (sample_attempt 2) ''new'' ''t'' 9), Captured 1 100, Written,
      Begun 6 (SubmitDisable (sample_attempt 3))]"

lemma sample_answers_run:
  "ru_answers (store_runs sample_env sample_answers (started sample_credential ''g'' () sample_credential))
     = [(sample_attempt 2, Some ''new'')]"
  by (simp add: store_runs_def sample_answers_def started_def new_store_def sample_env_def sample_attempt_def
      sample_credential_def capture_access_attempt_until_def begin_defs access_attempt_is_current_def write_pairing_def on_state_def)

theorem answers_take_effect_in_turn_witness:
  "cr_relay_origin (live (store_runs sample_env sample_answers (started sample_credential ''g'' () sample_credential))) = Some ''new''"
proof -
  have n: "length sample_answers < 2 ^ 64" by (simp add: sample_answers_def)
  have k: "0 < length (ru_answers (store_runs sample_env sample_answers (started sample_credential ''g'' () sample_credential)))"
    by (simp add: sample_answers_run)
  from answers_take_effect_in_turn [OF n refl k] show ?thesis by (simp add: sample_answers_run relay_after_def)
qed

subsection \<open>What is live is on disk, or known not to be\<close>

definition same_access :: "Credential \<Rightarrow> Credential \<Rightarrow> bool" where
  "same_access a b \<longleftrightarrow> cr_relay_origin a = cr_relay_origin b \<and> cr_device_token a = cr_device_token b
     \<and> cr_device_token_expires_at a = cr_device_token_expires_at b"

definition marked_unsaved :: "CredentialStoreState \<Rightarrow> bool" where
  "marked_unsaved s \<longleftrightarrow> has_pending s \<or> cs_persistence_issue s = Some IssueFailed"

definition on_disk :: "credential_codec \<Rightarrow> bytes option \<Rightarrow> Credential \<Rightarrow> bool" where
  "on_disk codec held c \<longleftrightarrow> (\<exists>b c'. held = Some b \<and> cc_parse codec b = Some c' \<and> same_access c' c)"

definition codec_ok :: "credential_codec \<Rightarrow> bool" where
  "codec_ok codec \<longleftrightarrow> (\<forall>c b. cc_json codec c = Some b \<longrightarrow> cc_parse codec b = Some c)"

fun flight_live :: "CredentialStoreState \<Rightarrow> (AccessAttempt option \<times> 't flight) option \<Rightarrow> bool" where
  "flight_live s (Some (_, RefreshFlight c)) \<longleftrightarrow> c = cs_credential s"
| "flight_live s (Some (_, EndpointsFlight c _ _)) \<longleftrightarrow> same_access c (cs_credential s)"
| "flight_live s (Some (_, DisableFlight c revision)) \<longleftrightarrow> c = cs_credential s \<and> revision = cs_mutation_generation s
     \<and> cs_durable_clear_pending_gen s = Some revision"
| "flight_live s (Some (_, PendingFlight c)) \<longleftrightarrow> c = cs_credential s"
| "flight_live s _ \<longleftrightarrow> True"

context pairing_store
begin

definition saved :: "('t, 'd) store_run \<Rightarrow> bool" where
  "saved ru \<longleftrightarrow>
     (let s = st_state (ru_store ru) in
      ok (ru_disk ru)
      \<and> (on_disk codec (held (ru_disk ru)) (cs_credential s) \<or> marked_unsaved s)
      \<and> flight_live s (ru_flight ru))"

definition uses_store :: "('t, 'd) store_env \<Rightarrow> bool" where
  "uses_store env \<longleftrightarrow> se_persist env = persist \<and> se_load env = load"

lemma saved_same:
  assumes "saved ru" "st_state st = st_state (ru_store ru)" "ru_disk ru' = ru_disk ru" "ru_flight ru' = ru_flight ru" "ru_store ru' = st"
  shows "saved ru'"
  using assms by (simp add: saved_def)

lemma saved_begun:
  assumes "saved ru"
  shows "saved (store_step env (Begun now action) ru)"
proof (cases "ru_flight ru \<noteq> None \<or> \<not> pred_option (\<lambda>a. a \<in> fst ` set (ru_captured ru)) (attempt_of action)")
  case True
  then have "store_step env (Begun now action) ru = ru" by (simp only: store_step.simps if_True)
  with assms show ?thesis by simp
next
  case False
  then have idle: "ru_flight ru = None" by blast
  show ?thesis
    by (cases action) (use assms idle in \<open>auto simp: saved_def begin_defs marked_unsaved_def has_pending_def is_some_and_def
        same_access_def split: option.splits if_splits prod.splits\<close>)
qed

lemma write_pairingE:
  assumes env: "uses_store env" and codec: "codec_ok codec" and d: "ok d" and w: "write_pairing env c d = (r, u)"
  shows "ok u" "r \<noteq> None \<Longrightarrow> on_disk codec (held u) c" "held u = held d \<or> on_disk codec (held u) c"
proof -
  obtain q u1 where p: "persist c d = (q, u1)" by fastforce
  note e = persistE [OF d p]
  have round: "\<exists>b. cc_json codec c = Some b \<and> held x = Some b \<Longrightarrow> on_disk codec (held x) c" for x
    using codec by (auto simp: codec_ok_def on_disk_def same_access_def)
  have "ok u \<and> (r \<noteq> None \<longrightarrow> on_disk codec (held u) c) \<and> (held u = held d \<or> on_disk codec (held u) c)"
  proof (cases q)
    case (Inr x)
    with w p env have "u = u1" "r = Some Confirmed" by (auto simp: write_pairing_def uses_store_def)
    with e Inr round [of u1] show ?thesis by simp
  next
    case (Inl x)
    obtain q' u2 where l: "load u1 = (q', u2)" by fastforce
    note f = loadE [OF e(1) l]
    have u: "u = u2" using w p env l Inl by (auto simp: write_pairing_def uses_store_def split: sum.splits option.splits)
    have "r \<noteq> None \<Longrightarrow> \<exists>c'. q' = Inr (Some c') \<and> same_pairing c' c"
      using w p env l Inl by (auto simp: write_pairing_def uses_store_def split: sum.splits option.splits if_splits)
    then have "r \<noteq> None \<Longrightarrow> on_disk codec (held u) c"
      using f(2,3) u by (fastforce simp: on_disk_def same_pairing_def same_access_def)
    moreover have "held u = held d \<or> on_disk codec (held u) c" using e(3) f(2) u round [of u1] by auto
    ultimately show ?thesis using f(1) u by simp
  qed
  then show "ok u" "r \<noteq> None \<Longrightarrow> on_disk codec (held u) c" "held u = held d \<or> on_disk codec (held u) c" by auto
qed

lemma persisted_on_disk:
  assumes "codec_ok codec" "ok d" "persist c d = (r, u)"
  shows "ok u" "r = Inr () \<Longrightarrow> on_disk codec (held u) c" "held u = held d \<or> on_disk codec (held u) c"
  using persistE [OF assms(2,3)] assms(1) by (auto simp: codec_ok_def on_disk_def same_access_def)

lemma on_disk_same: "on_disk codec h c \<Longrightarrow> same_access c c' \<Longrightarrow> on_disk codec h c'"
  by (auto simp: on_disk_def same_access_def)

end

context pairing_store
begin

lemma saved_written:
  assumes saved: "saved ru" and env: "uses_store env" and codec: "codec_ok codec"
  shows "saved (store_step env Written ru)"
proof (cases "ru_flight ru")
  case (Some p)
  obtain a f where p: "p = (a, f)" by fastforce
  let ?s = "st_state (ru_store ru)" and ?d = "ru_disk ru"
  note fl = Some p
  have ok: "ok ?d" and base: "on_disk codec (held ?d) (cs_credential ?s) \<or> marked_unsaved ?s"
    and live: "flight_live ?s (Some (a, f))"
    using saved by (simp_all add: saved_def Let_def fl)
  have se: "se_persist env = persist" using env by (simp add: uses_store_def)
  note defs = saved_def Let_def on_state_def record_persistence_issue_def marked_unsaved_def has_pending_def is_some_and_def
  show ?thesis
  proof (cases f)
    case (RefreshFlight c)
    obtain r u where w: "persist c ?d = (r, u)" by fastforce
    note p = persisted_on_disk [OF codec ok w]
    have c: "c = cs_credential ?s" using live RefreshFlight by simp
    note w = w [unfolded c] and p = p [unfolded c]
    show ?thesis
    proof (cases r)
      case (Inr x)
      then show ?thesis using p c by (simp add: fl RefreshFlight se w defs)
    next
      case (Inl e)
      then show ?thesis using p c by (simp add: fl RefreshFlight se w defs)
    qed
  next
    case (PendingFlight c)
    obtain r u where w: "persist c ?d = (r, u)" by fastforce
    note p = persisted_on_disk [OF codec ok w]
    have c: "c = cs_credential ?s" using live PendingFlight by simp
    note w = w [unfolded c] and p = p [unfolded c]
    show ?thesis
    proof (cases r)
      case (Inr x)
      then show ?thesis using p c by (simp add: fl PendingFlight se w defs)
    next
      case (Inl e)
      then show ?thesis using p base c
        by (cases "cs_persistence_issue ?s"; cases "cs_pending ?s") (auto simp: fl PendingFlight se w defs)
    qed
  next
    case (DisableFlight c revision)
    obtain r u where w: "persist c ?d = (r, u)" by fastforce
    note p = persisted_on_disk [OF codec ok w]
    have c: "c = cs_credential ?s" using live DisableFlight by simp
    note w = w [unfolded c] and p = p [unfolded c]
    show ?thesis
    proof (cases r)
      case (Inr x)
      then show ?thesis using p c live by (auto simp: fl DisableFlight se w defs)
    next
      case (Inl e)
      then show ?thesis using p c by (simp add: fl DisableFlight se w defs)
    qed
  next
    case (ReadyFlight c revision t)
    obtain r u where w: "write_pairing env c ?d = (r, u)" by fastforce
    note p = write_pairingE [OF env codec ok w]
    show ?thesis using p by (cases r) (auto simp: fl ReadyFlight w defs)
  next
    case (EndpointsFlight c revision t)
    obtain r u where w: "write_pairing env c ?d = (r, u)" by fastforce
    note p = write_pairingE [OF env codec ok w]
    have c: "same_access c (cs_credential ?s)" using live EndpointsFlight by simp
    show ?thesis
    proof (cases r)
      case None
      have "on_disk codec (held u) (cs_credential ?s) \<or> marked_unsaved ?s"
        using p(3) base on_disk_same [OF _ c] by auto
      then show ?thesis using p None by (simp add: fl EndpointsFlight w saved_def Let_def)
    qed (use p in \<open>auto simp: fl EndpointsFlight w defs\<close>)
  qed
qed (use saved in simp)

lemma saved_step: "saved ru \<Longrightarrow> uses_store env \<Longrightarrow> codec_ok codec \<Longrightarrow> saved (store_step env e ru)"
proof (cases e)
  case (Captured lane deadline)
  assume "saved ru"
  then show ?thesis
    by (cases "ru_flight ru" rule: option.exhaust [case_names None Some];
        auto simp: Captured saved_def capture_access_attempt_until_def Let_def marked_unsaved_def has_pending_def
          elim!: flight_live.elims)
next
  case Retired
  assume "saved ru"
  then show ?thesis
    by (auto simp: Retired saved_def invalidate_def on_state_def Let_def marked_unsaved_def has_pending_def
        elim!: flight_live.elims)
qed (simp_all only: saved_begun saved_written)

lemma saved_run: "saved ru \<Longrightarrow> uses_store env \<Longrightarrow> codec_ok codec \<Longrightarrow> saved (store_runs env events ru)"
  unfolding store_runs_def by (induction events arbitrary: ru) (simp_all only: fold_simps saved_step)

end

text \<open>
  C11. Access that was accepted is on disk or known not to be. Whatever fails and however things
  interleave, the relay, token and expiry of the live pairing are those of the pairing file, or
  the store still holds a write to repeat for the current generation, or it reports a write that
  failed; the session's own end, with every queued action done, included.
\<close>

theorem access_is_saved_or_marked:
  assumes "codec_ok codec" "world_ok w" "on_disk codec (held_pairing root w) c"
    and "se_persist env = persist_credential codec root" "se_load env = load_credential codec root"
    and "ru = store_runs env events (started c generation transport w)"
  shows "on_disk codec (held_pairing root (ru_disk ru)) (live ru)
    \<or> has_pending (st_state (ru_store ru)) \<or> cs_persistence_issue (st_state (ru_store ru)) = Some IssueFailed"
proof -
  have "pairing_file.saved root codec (started c generation transport w)"
    using assms(2,3) by (simp add: pairing_file.saved_def started_def new_store_def)
  from pairing_file.saved_run [OF this _ assms(1), of env events] assms(4,5,6)
  show ?thesis
    by (auto simp: pairing_file.saved_def pairing_file.uses_store_def live_def marked_unsaved_def Let_def)
qed

definition one_pairing_codec :: credential_codec where
  "one_pairing_codec = \<lparr>cc_json = (\<lambda>c. if c = sample_credential then Some ''x'' else None),
     cc_parse = (\<lambda>b. if b = ''x'' then Some sample_credential else None)\<rparr>"

definition pairing_world :: world where
  "pairing_world = (sample_world [])\<lparr>
     w_names := [([], NDir 1), ([CREDENTIALS_FILENAME], NFile 2)], w_data := [(2, ''x'')], w_next := 3\<rparr>"

text \<open>A refreshed token cannot be written: it is live, and marked.\<close>

theorem access_is_saved_or_marked_witness:
  "let env = \<lparr>se_transports = se_transports sample_env, se_generation = id, se_ip = Some,
         se_persist = persist_credential one_pairing_codec [], se_load = load_credential one_pairing_codec []\<rparr>;
       ru = store_runs env [Begun 0 (TokenRefresh 0 ''t'' 9), Written] (started sample_credential ''g'' () pairing_world) in
   on_disk one_pairing_codec (held_pairing [] (ru_disk ru)) (live ru)
   \<or> has_pending (st_state (ru_store ru)) \<or> cs_persistence_issue (st_state (ru_store ru)) = Some IssueFailed"
proof -
  have codec: "codec_ok one_pairing_codec" by (simp add: codec_ok_def one_pairing_codec_def)
  have ok: "world_ok pairing_world"
    by (rule world_ok_checked) (simp add: world_check_def pairing_world_def sample_world_def CREDENTIALS_FILENAME_def)
  have held: "on_disk one_pairing_codec (held_pairing [] pairing_world) sample_credential"
    by (simp add: on_disk_def held_pairing_def pairing_world_def view_def node_at_def contents_def one_pairing_codec_def same_access_def)
  show ?thesis
    unfolding Let_def by (rule access_is_saved_or_marked [OF codec ok held _ _ refl]) simp_all
qed

end
