(* ===== verification/Lanes.thy ===== *)
theory Lanes
  imports Store Journal
begin

text \<open>
  Optional work after a connection (\<open>src/post_connect.rs\<close>, \<open>src/relay_access.rs\<close>): a burst runs two
  lanes, metadata and access, each at most twice. The coordinator's state is behind one lock, so that
  a run is a sequence of triggers, finished jobs and the shutdown. A job of the access lane is what it
  asks of the store. Parameters: JSON, the shared validation of relay answers, IP addresses.
\<close>

subsection \<open>Bursts\<close>

record LaneBurst =
  ln_pass_count :: nat
  ln_in_flight :: bool
  ln_follow_up_requested :: bool
  ln_attempt_id :: u64

definition idle_lane :: LaneBurst where
  "idle_lane = \<lparr>ln_pass_count = 0, ln_in_flight = False, ln_follow_up_requested = False, ln_attempt_id = 0\<rparr>"

record BurstState =
  bu_active :: bool
  bu_burst_id :: u64
  bu_metadata :: LaneBurst
  bu_access :: LaneBurst
  bu_deferred_metadata :: bool

datatype lane = MetadataLane | AccessLane

text \<open>The jobs that were spawned and have not finished are part of the state.\<close>

record coordinator =
  co_alive :: bool
  co_attempt_counter :: u64
  co_burst :: BurstState
  co_jobs :: "(lane \<times> u64) list"

definition new_coordinator :: coordinator where
  "new_coordinator = \<lparr>co_alive = True, co_attempt_counter = 0,
     co_burst = \<lparr>bu_active = False, bu_burst_id = 0, bu_metadata = idle_lane, bu_access = idle_lane, bu_deferred_metadata = False\<rparr>,
     co_jobs = []\<rparr>"

definition start_lane :: "LaneBurst \<Rightarrow> u64 \<Rightarrow> u64 option \<times> LaneBurst \<times> u64" where
  "start_lane ln counter =
     (if ln_in_flight ln \<or> 2 \<le> ln_pass_count ln then (None, ln, counter)
      else (Some (counter + 1),
            ln\<lparr>ln_pass_count := ln_pass_count ln + 1, ln_in_flight := True, ln_attempt_id := counter + 1\<rparr>, counter + 1))"

definition request_follow_up :: "LaneBurst \<Rightarrow> u64 \<Rightarrow> u64 option \<times> LaneBurst \<times> u64" where
  "request_follow_up ln counter =
     (if 2 \<le> ln_pass_count ln then (None, ln, counter)
      else if ln_in_flight ln then (None, ln\<lparr>ln_follow_up_requested := True\<rparr>, counter)
      else start_lane ln counter)"

definition spawn :: "lane \<Rightarrow> u64 option \<Rightarrow> (lane \<times> u64) list" where
  "spawn k attempt = (case attempt of None \<Rightarrow> [] | Some a \<Rightarrow> [(k, a)])"

definition trigger_external :: "coordinator \<Rightarrow> coordinator" where
  "trigger_external co =
     (if \<not> co_alive co then co
      else
        let b = co_burst co;
            fresh = \<not> bu_active b;
            b = (if fresh then b\<lparr>bu_active := True, bu_burst_id := bu_burst_id b + 1, bu_deferred_metadata := False,
                   bu_metadata := idle_lane, bu_access := idle_lane\<rparr> else b);
            ask = (if fresh then start_lane else request_follow_up) in
        case ask (bu_metadata b) (co_attempt_counter co) of (metadata, m, n) \<Rightarrow>
        case ask (bu_access b) n of (access, a, n) \<Rightarrow>
        co\<lparr>co_attempt_counter := n, co_burst := b\<lparr>bu_metadata := m, bu_access := a\<rparr>,
           co_jobs := co_jobs co @ spawn MetadataLane metadata @ spawn AccessLane access\<rparr>)"

text \<open>A dial that succeeds while no burst runs is a reconnect.\<close>

definition note_successful_dial :: "coordinator \<Rightarrow> coordinator" where
  "note_successful_dial co = (if bu_active (co_burst co) then co else trigger_external co)"

definition finish_if_quiescent :: "BurstState \<Rightarrow> BurstState" where
  "finish_if_quiescent b =
     (if \<not> ln_in_flight (bu_metadata b) \<and> \<not> ln_in_flight (bu_access b)
         \<and> \<not> ln_follow_up_requested (bu_metadata b) \<and> \<not> ln_follow_up_requested (bu_access b)
      then b\<lparr>bu_active := False\<rparr> else b)"

definition finish_pass :: "bool \<Rightarrow> LaneBurst \<Rightarrow> u64 \<Rightarrow> u64 option \<times> LaneBurst \<times> u64" where
  "finish_pass alive ln counter =
     (let ln = ln\<lparr>ln_in_flight := False\<rparr> in
      if ln_follow_up_requested ln \<and> ln_pass_count ln < 2 \<and> alive
      then start_lane (ln\<lparr>ln_follow_up_requested := False\<rparr>) counter
      else (None, ln\<lparr>ln_follow_up_requested := False\<rparr>, counter))"

definition on_metadata_complete :: "u64 \<Rightarrow> coordinator \<Rightarrow> coordinator" where
  "on_metadata_complete attempt co =
     (let b = co_burst co; ln = bu_metadata b in
      if ln_attempt_id ln \<noteq> attempt then co
      else
        let deferred = (ln_follow_up_requested ln \<and> 2 \<le> ln_pass_count ln) in
        case finish_pass (co_alive co) ln (co_attempt_counter co) of (attempt, ln, n) \<Rightarrow>
        let b = b\<lparr>bu_metadata := ln\<rparr>; b = (if deferred then b\<lparr>bu_deferred_metadata := True\<rparr> else b) in
        co\<lparr>co_attempt_counter := n, co_burst := finish_if_quiescent b, co_jobs := co_jobs co @ spawn MetadataLane attempt\<rparr>)"

definition on_access_complete :: "u64 \<Rightarrow> coordinator \<Rightarrow> coordinator" where
  "on_access_complete attempt co =
     (let b = co_burst co; ln = bu_access b in
      if ln_attempt_id ln \<noteq> attempt then co
      else
        case finish_pass (co_alive co) ln (co_attempt_counter co) of (attempt, ln, n) \<Rightarrow>
        co\<lparr>co_attempt_counter := n, co_burst := finish_if_quiescent (b\<lparr>bu_access := ln\<rparr>),
           co_jobs := co_jobs co @ spawn AccessLane attempt\<rparr>)"

text \<open>\<open>shutdown\<close>; the opener and the store are retired with it (\<open>Retired\<close> of a store's run).\<close>

definition shutdown_coordinator :: "coordinator \<Rightarrow> coordinator" where
  "shutdown_coordinator co =
     (let b = co_burst co in
      co\<lparr>co_alive := False,
         co_burst := b\<lparr>bu_metadata := (bu_metadata b)\<lparr>ln_follow_up_requested := False\<rparr>,
                       bu_access := (bu_access b)\<lparr>ln_follow_up_requested := False\<rparr>\<rparr>\<rparr>)"

definition burst_is_active :: "coordinator \<Rightarrow> bool" where
  "burst_is_active co \<longleftrightarrow> bu_active (co_burst co)"

subsection \<open>The coordinator's steps\<close>

inductive coordinator_step :: "coordinator \<Rightarrow> coordinator \<Rightarrow> bool" where
  triggered: "coordinator_step co (trigger_external co)"
| dialled: "coordinator_step co (note_successful_dial co)"
| metadata_done: "co_jobs co = js @ (MetadataLane, a) # ks \<Longrightarrow> coordinator_step co (on_metadata_complete a (co\<lparr>co_jobs := js @ ks\<rparr>))"
| access_done: "co_jobs co = js @ (AccessLane, a) # ks \<Longrightarrow> coordinator_step co (on_access_complete a (co\<lparr>co_jobs := js @ ks\<rparr>))"
| shut: "coordinator_step co (shutdown_coordinator co)"

inductive_cases coordinator_stepE: "coordinator_step co co'"

abbreviation coordinator_reach :: "coordinator \<Rightarrow> bool" where
  "coordinator_reach \<equiv> coordinator_step\<^sup>*\<^sup>* new_coordinator"

subsection \<open>Bursts are bounded\<close>

definition running :: "lane \<Rightarrow> coordinator \<Rightarrow> u64 list" where
  "running k co = map snd (filter (\<lambda>j. fst j = k) (co_jobs co))"

definition lane_ok :: "LaneBurst \<Rightarrow> u64 list \<Rightarrow> bool" where
  "lane_ok ln jobs \<longleftrightarrow> ln_pass_count ln \<le> 2 \<and> jobs = (if ln_in_flight ln then [ln_attempt_id ln] else [])
     \<and> (ln_in_flight ln \<longrightarrow> 1 \<le> ln_pass_count ln)
     \<and> (ln_follow_up_requested ln \<longrightarrow> ln_in_flight ln \<and> ln_pass_count ln < 2)"

definition coordinator_ok :: "coordinator \<Rightarrow> bool" where
  "coordinator_ok co \<longleftrightarrow>
     lane_ok (bu_metadata (co_burst co)) (running MetadataLane co)
     \<and> lane_ok (bu_access (co_burst co)) (running AccessLane co)
     \<and> (bu_active (co_burst co) \<longleftrightarrow> co_jobs co \<noteq> [])
     \<and> \<not> bu_deferred_metadata (co_burst co)"

lemma running_append [simp]:
  "running k (co\<lparr>co_jobs := js @ ks\<rparr>) = running k (co\<lparr>co_jobs := js\<rparr>) @ running k (co\<lparr>co_jobs := ks\<rparr>)"
  by (simp add: running_def)

lemma jobs_split: "co_jobs co = [] \<longleftrightarrow> running MetadataLane co = [] \<and> running AccessLane co = []"
proof (cases "co_jobs co")
  case (Cons j js)
  then show ?thesis by (cases "fst j") (auto simp: running_def)
qed (simp add: running_def)

lemma spawned: "map snd (filter (\<lambda>j. fst j = k) (spawn k' a)) = (case a of None \<Rightarrow> [] | Some x \<Rightarrow> if k = k' then [x] else [])"
  by (auto simp: spawn_def split: option.splits)

lemma lane_ok_idle: "lane_ok idle_lane []"
  by (simp add: lane_ok_def idle_lane_def)

lemma lane_ok_start:
  assumes "lane_ok ln []" "ln_pass_count ln < 2" "start_lane ln n = (r, ln', n')"
  shows "lane_ok ln' (case r of None \<Rightarrow> [] | Some x \<Rightarrow> [x])" "ln_in_flight ln'" "r \<noteq> None"
  using assms by (auto simp: lane_ok_def start_lane_def split: if_splits)

lemma lane_ok_follow_up:
  assumes "lane_ok ln js" "request_follow_up ln n = (r, ln', n')"
  shows "lane_ok ln' (js @ (case r of None \<Rightarrow> [] | Some x \<Rightarrow> [x]))" "ln_in_flight ln \<Longrightarrow> ln_in_flight ln'"
    "r \<noteq> None \<Longrightarrow> ln_in_flight ln'"
  using assms by (auto simp: lane_ok_def request_follow_up_def start_lane_def split: if_splits)

lemma lane_ok_finish:
  assumes "lane_ok ln [a]" "finish_pass alive ln n = (r, ln', n')"
  shows "lane_ok ln' (case r of None \<Rightarrow> [] | Some x \<Rightarrow> [x])" "ln_in_flight ln' \<longleftrightarrow> r \<noteq> None" "\<not> ln_follow_up_requested ln'"
  using assms by (auto simp: lane_ok_def finish_pass_def start_lane_def Let_def split: if_splits)

lemma lane_ok_clear: "lane_ok ln js \<Longrightarrow> lane_ok (ln\<lparr>ln_follow_up_requested := False\<rparr>) js"
  by (auto simp: lane_ok_def)

lemma lane_flight: "lane_ok ln js \<Longrightarrow> ln_in_flight ln \<longleftrightarrow> js \<noteq> []" "lane_ok ln js \<Longrightarrow> ln_follow_up_requested ln \<Longrightarrow> js \<noteq> []"
  by (auto simp: lane_ok_def)

lemma ok_triggered:
  assumes "coordinator_ok co"
  shows "coordinator_ok (trigger_external co)"
proof (cases "co_alive co")
  case True
  let ?b = "co_burst co"
  have ok: "lane_ok (bu_metadata ?b) (running MetadataLane co)" "lane_ok (bu_access ?b) (running AccessLane co)"
    "bu_active ?b \<longleftrightarrow> co_jobs co \<noteq> []" "\<not> bu_deferred_metadata ?b"
    using assms by (simp_all add: coordinator_ok_def)
  show ?thesis
  proof (cases "bu_active ?b")
    case True
    obtain r m n where m: "request_follow_up (bu_metadata ?b) (co_attempt_counter co) = (r, m, n)" by (metis prod.exhaust)
    obtain r' a n' where a: "request_follow_up (bu_access ?b) n = (r', a, n')" by (metis prod.exhaust)
    show ?thesis
      using lane_ok_follow_up(1) [OF ok(1) m] lane_ok_follow_up(1) [OF ok(2) a] ok True \<open>co_alive co\<close>
      by (auto simp: trigger_external_def Let_def m a coordinator_ok_def running_def spawned split: option.splits)
  next
    case False
    obtain r m n where m: "start_lane idle_lane (co_attempt_counter co) = (r, m, n)" by (metis prod.exhaust)
    obtain r' a n' where a: "start_lane idle_lane n = (r', a, n')" by (metis prod.exhaust)
    have idle: "ln_pass_count idle_lane < 2" by (simp add: idle_lane_def)
    show ?thesis
      using lane_ok_start [OF lane_ok_idle idle m] lane_ok_start [OF lane_ok_idle idle a] ok False \<open>co_alive co\<close>
      by (auto simp: trigger_external_def Let_def m a coordinator_ok_def running_def spawned spawn_def split: option.splits)
  qed
qed (use assms in \<open>simp add: trigger_external_def\<close>)

lemma lane_ok_one:
  assumes "lane_ok ln (xs @ a # ys)"
  shows "lane_ok ln [a]" "xs = []" "ys = []" "ln_attempt_id ln = a"
proof -
  have "xs @ a # ys = [ln_attempt_id ln]" using assms by (auto simp: lane_ok_def split: if_splits)
  then show *: "xs = []" "ys = []" "ln_attempt_id ln = a" by (cases xs; simp)+
  show "lane_ok ln [a]" using assms * by simp
qed

lemma ok_metadata_done:
  assumes "coordinator_ok co" "co_jobs co = js @ (MetadataLane, a) # ks"
  shows "coordinator_ok (on_metadata_complete a (co\<lparr>co_jobs := js @ ks\<rparr>))"
proof -
  let ?b = "co_burst co" and ?co = "co\<lparr>co_jobs := js @ ks\<rparr>"
  have ok: "lane_ok (bu_metadata ?b) (running MetadataLane co)" "lane_ok (bu_access ?b) (running AccessLane co)"
    "bu_active ?b" "\<not> bu_deferred_metadata ?b"
    using assms by (simp_all add: coordinator_ok_def)
  have run: "running MetadataLane co = running MetadataLane (co\<lparr>co_jobs := js\<rparr>) @ a # running MetadataLane (co\<lparr>co_jobs := ks\<rparr>)"
    "running AccessLane co = running AccessLane ?co"
    by (simp_all add: running_def assms(2))
  note lane = lane_ok_one [OF ok(1) [unfolded run(1)]]
  have one: "lane_ok (bu_metadata ?b) [a]" "running MetadataLane ?co = []" "ln_attempt_id (bu_metadata ?b) = a"
    using lane by simp_all
  obtain r m n where m: "finish_pass (co_alive co) (bu_metadata ?b) (co_attempt_counter co) = (r, m, n)" by (metis prod.exhaust)
  note f = lane_ok_finish [OF one(1) m]
  have d: "\<not> (ln_follow_up_requested (bu_metadata ?b) \<and> 2 \<le> ln_pass_count (bu_metadata ?b))"
    using one(1) by (auto simp: lane_ok_def)
  note acc = lane_flight [OF ok(2)]
  have jobs: "js @ ks = [] \<longleftrightarrow> running AccessLane co = []"
    using jobs_split [of ?co] one(2) run(2) by simp
  show ?thesis
    using f ok acc jobs one run(2) d
    by (cases r)
      (auto simp: on_metadata_complete_def Let_def m coordinator_ok_def running_def spawned spawn_def finish_if_quiescent_def
        simp del: running_append)
qed

lemma ok_access_done:
  assumes "coordinator_ok co" "co_jobs co = js @ (AccessLane, a) # ks"
  shows "coordinator_ok (on_access_complete a (co\<lparr>co_jobs := js @ ks\<rparr>))"
proof -
  let ?b = "co_burst co" and ?co = "co\<lparr>co_jobs := js @ ks\<rparr>"
  have ok: "lane_ok (bu_metadata ?b) (running MetadataLane co)" "lane_ok (bu_access ?b) (running AccessLane co)"
    "bu_active ?b" "\<not> bu_deferred_metadata ?b"
    using assms by (simp_all add: coordinator_ok_def)
  have run: "running AccessLane co = running AccessLane (co\<lparr>co_jobs := js\<rparr>) @ a # running AccessLane (co\<lparr>co_jobs := ks\<rparr>)"
    "running MetadataLane co = running MetadataLane ?co"
    by (simp_all add: running_def assms(2))
  note lane = lane_ok_one [OF ok(2) [unfolded run(1)]]
  have one: "lane_ok (bu_access ?b) [a]" "running AccessLane ?co = []" "ln_attempt_id (bu_access ?b) = a"
    using lane by simp_all
  obtain r m n where m: "finish_pass (co_alive co) (bu_access ?b) (co_attempt_counter co) = (r, m, n)" by (metis prod.exhaust)
  note f = lane_ok_finish [OF one(1) m]
  note met = lane_flight [OF ok(1)]
  have jobs: "js @ ks = [] \<longleftrightarrow> running MetadataLane co = []"
    using jobs_split [of ?co] one(2) run(2) by simp
  show ?thesis
    using f ok met jobs one run(2)
    by (cases r)
      (auto simp: on_access_complete_def Let_def m coordinator_ok_def running_def spawned spawn_def finish_if_quiescent_def
        simp del: running_append)
qed

lemma ok_shut: "coordinator_ok co \<Longrightarrow> coordinator_ok (shutdown_coordinator co)"
  by (auto simp: coordinator_ok_def shutdown_coordinator_def Let_def running_def intro: lane_ok_clear)

lemma ok_step: "coordinator_step co co' \<Longrightarrow> coordinator_ok co \<Longrightarrow> coordinator_ok co'"
  by (induction rule: coordinator_step.induct)
    (auto simp: note_successful_dial_def ok_triggered ok_metadata_done ok_access_done ok_shut)

lemma ok_reach: "coordinator_reach co \<Longrightarrow> coordinator_ok co"
  by (induction rule: rtranclp_induct)
    (auto simp: ok_step, simp add: coordinator_ok_def new_coordinator_def lane_ok_idle running_def)


lemma two_passes_reach:
  "coordinator_reach (on_metadata_complete 1 (trigger_external (trigger_external new_coordinator)\<lparr>co_jobs := [(AccessLane, 2)]\<rparr>))"
proof -
  let ?co = "trigger_external (trigger_external new_coordinator)"
  have "coordinator_reach ?co" by (meson rtranclp.rtrancl_into_rtrancl rtranclp.rtrancl_refl triggered)
  moreover have "co_jobs ?co = [] @ (MetadataLane, 1) # [(AccessLane, 2)]"
    by (simp add: new_coordinator_def trigger_external_def start_lane_def request_follow_up_def idle_lane_def spawn_def Let_def)
  from metadata_done [OF this] have "coordinator_step ?co (on_metadata_complete 1 (?co\<lparr>co_jobs := [(AccessLane, 2)]\<rparr>))" by simp
  ultimately show ?thesis by (rule rtranclp.rtrancl_into_rtrancl)
qed


subsection \<open>Relay access\<close>

definition RELAY_PROTOCOL_VERSION :: nat where "RELAY_PROTOCOL_VERSION = 2"

record RelayAccess =
  ra_protocol_version :: nat
  ra_status :: string
  ra_instance_id :: string
  ra_relay_origin :: string
  ra_device_token :: string
  ra_expires_at :: string

datatype RelayAccessResponse = ReadyResponse RelayAccess | NotConfiguredResponse nat string

record relay_checks =
  rc_parse :: "bytes \<Rightarrow> RelayAccessResponse option"
  rc_valid_origin :: "string \<Rightarrow> bool"
  rc_same_origin :: "string \<Rightarrow> string \<Rightarrow> bool option"
  rc_claims_exp :: "nat \<Rightarrow> string \<Rightarrow> string \<Rightarrow> string \<Rightarrow> int \<Rightarrow> int option"

text \<open>
  \<open>run_relay_access_job\<close> after its request: what the answer makes it submit to the store, given the
  attempt captured before the request and the live pairing. \<open>Inr None\<close>: nothing is new.
\<close>

definition relay_action ::
  "relay_checks \<Rightarrow> AccessAttempt \<Rightarrow> int \<Rightarrow> nat \<Rightarrow> bytes \<Rightarrow> Credential \<Rightarrow> unit + owned_action option" where
  "relay_action rc a now status body current =
     (if status \<noteq> 200 then Inl ()
      else case rc_parse rc body of
        None \<Rightarrow> Inl ()
      | Some (ReadyResponse ready) \<Rightarrow>
          if ra_status ready \<noteq> ''ready'' \<or> ra_protocol_version ready \<noteq> RELAY_PROTOCOL_VERSION then Inl ()
          else if ra_instance_id ready \<noteq> cr_instance_id current then Inl ()
          else if \<not> rc_valid_origin rc (ra_relay_origin ready) then Inl ()
          else
            (case rc_claims_exp rc (ra_protocol_version ready) (ra_device_token ready) (ra_expires_at ready) (cr_instance_id current) now of
               None \<Rightarrow> Inl ()
             | Some expires \<Rightarrow>
                 (case (case cr_relay_origin current of
                          None \<Rightarrow> Some False
                        | Some origin \<Rightarrow> rc_same_origin rc origin (ra_relay_origin ready)) of
                    None \<Rightarrow> Inl ()
                  | Some same \<Rightarrow>
                      if same \<and> cr_device_token current = Some (ra_device_token ready)
                         \<and> cr_device_token_expires_at current = Some expires
                      then Inr None
                      else Inr (Some (SubmitReady a (ra_relay_origin ready) (ra_device_token ready) expires))))
      | Some (NotConfiguredResponse version status) \<Rightarrow>
          if status \<noteq> ''not_configured'' \<or> version \<noteq> RELAY_PROTOCOL_VERSION then Inl ()
          else Inr (Some (SubmitDisable a)))"

subsection \<open>Dial addresses\<close>

text \<open>A number \<open>as_i64\<close> accepts is one \<open>as_u64\<close> accepts, or is written as a negative one.\<close>

fun as_i64 :: "json \<Rightarrow> int option" where
  "as_i64 (JU64 n) = (if int n \<le> i64_max then Some (int n) else None)"
| "as_i64 (JNumber s) = parse_i64 s"
| "as_i64 _ = None"

datatype DialEndpointsParseResult = Commit "EndpointAddr list" | Leave | Undecodable

fun dial_entry :: "(string \<Rightarrow> string option) \<Rightarrow> json \<Rightarrow> EndpointAddr option" where
  "dial_entry ip (JObject obj) =
     (case Option.bind (map_of obj ''ip'') as_str_json of
        None \<Rightarrow> None
      | Some s \<Rightarrow> (case ip s of
          None \<Rightarrow> None
        | Some host \<Rightarrow> (case Option.bind (map_of obj ''port'') as_u64 of
            None \<Rightarrow> None
          | Some port \<Rightarrow> if \<not> (1 \<le> port \<and> port \<le> 65535) then None else Some \<lparr>ea_host = host, ea_port = port\<rparr>)))"
| "dial_entry ip _ = None"

definition parse_dial_endpoints :: "(bytes \<Rightarrow> json option) \<Rightarrow> (string \<Rightarrow> string option) \<Rightarrow> bytes \<Rightarrow> DialEndpointsParseResult" where
  "parse_dial_endpoints parse ip body =
     (case parse body of
        Some (JObject obj) \<Rightarrow>
          if \<not> is_some_and (Option.bind (map_of obj ''v'') as_i64) (\<lambda>v. 2 \<le> v) then Leave
          else (case map_of obj ''endpoints'' of
            Some (JArray arr) \<Rightarrow>
              let kept = List.map_filter (dial_entry ip) arr in
              if kept = [] then Leave else Commit kept
          | _ \<Rightarrow> Undecodable)
      | _ \<Rightarrow> Undecodable)"

datatype DialAddressJobStep = DialSuccess | DialCommitError | DialFetchError | DialTimeout

text \<open>Whether the stored addresses need no refresh, and what an answer makes the job submit\<close>

definition only_loopback :: "(string \<Rightarrow> bool) \<Rightarrow> EndpointAddr list \<Rightarrow> bool" where
  "only_loopback loopback es \<longleftrightarrow> es \<noteq> [] \<and> list_all (\<lambda>e. loopback (ea_host e)) es"

definition dial_action ::
  "(bytes \<Rightarrow> json option) \<Rightarrow> (string \<Rightarrow> string option) \<Rightarrow> (unit + nat \<times> bytes) \<Rightarrow> DialAddressJobStep + owned_action" where
  "dial_action parse ip fetched =
     (case fetched of
        Inl _ \<Rightarrow> Inl DialFetchError
      | Inr (status, body) \<Rightarrow>
          if status \<noteq> 200 then Inl DialFetchError
          else case parse_dial_endpoints parse ip body of
            Commit es \<Rightarrow> Inr (SubmitDialEndpoints es)
          | Leave \<Rightarrow> Inl DialSuccess
          | Undecodable \<Rightarrow> Inl DialFetchError)"

text \<open>The job's result, and whether it says that the addresses were not refreshed\<close>

definition dial_result :: "DialAddressJobStep \<Rightarrow> (unit + unit) \<times> bool" where
  "dial_result step =
     (case step of
        DialSuccess \<Rightarrow> (Inr (), False)
      | DialCommitError \<Rightarrow> (Inl (), False)
      | DialFetchError \<Rightarrow> (Inl (), True)
      | DialTimeout \<Rightarrow> (Inl (), True))"

end
