(* ===== verification/Answer.thy ===== *)
theory Answer
  imports Credentials
begin

text \<open>
  The owner's answer about a pairing (\<open>src/pairing_answer.rs\<close>): which pairing is confirmed, the files
  that say so, and the question at the terminal. The texts shown to the owner are named, not spelled.
  Parameters: JSON, the digest that names a pairing, the certificate authority a pairing pins, the
  mark of a journal id, and what other processes do to the locks while this one sleeps.
\<close>

datatype message =
  STEP | SUBTEXT | ASK_IDENTIFIED | COULDNT_VERIFY | BODY_UNAVAILABLE | ASK_UNAVAILABLE | PAIRED | NOT_PAIRED
| CONFIRM_MISMATCH_BODY | CONFIRM_CANCEL | CONFIRM_MARK_MISMATCH | MISMATCH_BODY | CANCEL | HELD | RUN_LINE
| CONFIRM_DONE | CONFIRM_UNPAIRED | SETUP_NO_TERMINAL | CONFIRM_NO_TERMINAL | MARK_USAGE | MARK_MISMATCH
| MARK_UNVERIFIABLE_SETUP | MARK_UNVERIFIABLE_CONFIRM | MARK_WORDS_WRONG | PAIRING_KEPT | PAIRING_KEPT_STOPPED

definition ANSWER_FILENAME :: string where "ANSWER_FILENAME = ''pairing-answer.json''"
definition UNVERIFIED_FILENAME :: string where "UNVERIFIED_FILENAME = ''pairing-unverified''"
definition ANSWER_LOCK_FILENAME :: string where "ANSWER_LOCK_FILENAME = ''.solstone-tmux.answer.lock''"

text \<open>Five seconds in sleeps of five milliseconds\<close>

definition ANSWER_LOCK_TRIES :: nat where "ANSWER_LOCK_TRIES = 1000"

record AnswerRecord =
  an_confirmed :: string

datatype MarkOption = MarkAbsent | MissingValue | Repeated | Value string

datatype TerminalDecision = Yes | No | WalkedAway

datatype Outcome = Diagnostic DiagnosticCode | Usage message | Owner int "message list"

record pairing_env =
  pe_codec :: credential_codec
  pe_answer_json :: "AnswerRecord \<Rightarrow> bytes option"
  pe_answer_parse :: "bytes \<Rightarrow> AnswerRecord option"
  pe_generation :: "string \<Rightarrow> bytes"
  pe_pinned :: "string list \<Rightarrow> bytes \<Rightarrow> string option"
  pe_mark :: "string \<Rightarrow> (string \<times> string \<times> string \<times> string) option"
  pe_lowercase :: "string \<Rightarrow> string"
  pe_others :: "locks \<Rightarrow> locks"

definition generation_hex :: "pairing_env \<Rightarrow> Credential \<Rightarrow> string" where
  "generation_hex env c = hex_encode (pe_generation env (cr_client_cert_pem c))"

subsection \<open>The lock on the answer\<close>

fun flock_retry :: "(locks \<Rightarrow> locks) \<Rightarrow> nat \<Rightarrow> nat \<Rightarrow> (DiagnosticCode, nat) lockio" where
  "flock_retry others i n =
     bindE (map_errE (\<lambda>_. PrivateStateIo) (flock_exclusive i)) (\<lambda>got.
     if got then returnE i
     else case n of
       0 \<Rightarrow> throwE PrivateStateIo
     | Suc n \<Rightarrow> bindE (modifyE (\<lambda>(h, w). (others h, w))) (\<lambda>_. flock_retry others i n))"

declare flock_retry.simps [simp del]

definition acquire_answer_lock :: "pairing_env \<Rightarrow> path \<Rightarrow> (DiagnosticCode, nat) lockio" where
  "acquire_answer_lock env root =
     bindE (on_world (map_errE (\<lambda>_. PrivateStateIo) (fs_open_create (path_join root ANSWER_LOCK_FILENAME)))) (\<lambda>i.
     bindE (on_world (ignoreE (fs_chmod_fd i 384))) (\<lambda>_.
     flock_retry (pe_others env) i ANSWER_LOCK_TRIES))"

subsection \<open>The answer file\<close>

definition is_valid_confirmed_value :: "string \<Rightarrow> bool" where
  "is_valid_confirmed_value v \<longleftrightarrow>
     v = [] \<or> (length v = 64 \<and> list_all (\<lambda>b. is_digit b \<or> (97 \<le> byte b \<and> byte b \<le> 102)) v)"

definition read_answer_file :: "pairing_env \<Rightarrow> path \<Rightarrow> (DiagnosticCode, AnswerRecord option) io" where
  "read_answer_file env root =
     tryE (open_regular_readonly (path_join root ANSWER_FILENAME)) (\<lambda>opened.
       case opened of
         Inl (StorageIo _ _ NotFound) \<Rightarrow> returnE None
       | Inl e \<Rightarrow> throwE (read_failure e)
       | Inr i \<Rightarrow>
           bindE (map_errE (\<lambda>_. PrivateStateIo) (fs_read_fd i)) (\<lambda>b.
           case pe_answer_parse env b of
             None \<Rightarrow> throwE PrivateStateInvalid
           | Some r \<Rightarrow> if is_valid_confirmed_value (an_confirmed r) then returnE (Some r) else throwE PrivateStateInvalid))"

definition write_answer_file :: "pairing_env \<Rightarrow> path \<Rightarrow> string \<Rightarrow> (DiagnosticCode, unit) io" where
  "write_answer_file env root confirmed =
     (case pe_answer_json env \<lparr>an_confirmed = confirmed\<rparr> of
        None \<Rightarrow> throwE PrivateStateInvalid
      | Some b \<Rightarrow> map_errE write_failure (atomic_write_bytes (path_join root ANSWER_FILENAME) root b))"

definition grandfather_or_settle :: "pairing_env \<Rightarrow> path \<Rightarrow> (DiagnosticCode, unit) io" where
  "grandfather_or_settle env root =
     tryE (read_answer_file env root) (\<lambda>answer.
       case answer of
         Inr (Some _) \<Rightarrow> returnE ()
       | Inl _ \<Rightarrow> returnE ()
       | Inr None \<Rightarrow>
           tryE (load_credential (pe_codec env) root) (\<lambda>loaded.
             case loaded of
               Inr (Some c) \<Rightarrow> write_answer_file env root (if cr_client_cert_pem c \<noteq> [] then generation_hex env c else [])
             | Inr None \<Rightarrow> write_answer_file env root []
             | Inl PrivateStateInvalid \<Rightarrow> write_answer_file env root []
             | Inl e \<Rightarrow> throwE e))"

subsection \<open>Whether a pairing is confirmed\<close>

definition pinned_ca_jid :: "pairing_env \<Rightarrow> Credential \<Rightarrow> string option" where
  "pinned_ca_jid env c = pe_pinned env (cr_ca_chain_pem c) (cr_ca_fp_prefix c)"

definition mark_jid :: "pairing_env \<Rightarrow> Credential \<Rightarrow> string" where
  "mark_jid env c = (case pinned_ca_jid env c of None \<Rightarrow> [] | Some j \<Rightarrow> j)"

definition unverified_pairing_accepted :: "pairing_env \<Rightarrow> path \<Rightarrow> Credential \<Rightarrow> ('e, bool) io" where
  "unverified_pairing_accepted env root c =
     tryE (bindE (unitE (open_regular_readonly (path_join root UNVERIFIED_FILENAME))) (\<lambda>i. unitE (fs_read_fd i))) (\<lambda>r.
       returnE (case r of Inl _ \<Rightarrow> False | Inr b \<Rightarrow> valid_utf8 b \<and> b = generation_hex env c))"

definition stored_id_needs_asking :: "pairing_env \<Rightarrow> path \<Rightarrow> Credential \<Rightarrow> ('e, bool) io" where
  "stored_id_needs_asking env root c =
     (case pinned_ca_jid env c of
        Some j \<Rightarrow> returnE (j \<noteq> cr_instance_id c)
      | None \<Rightarrow> bindE (unverified_pairing_accepted env root c) (\<lambda>accepted. returnE (\<not> accepted)))"

definition record_confirmation :: "pairing_env \<Rightarrow> path \<Rightarrow> Credential \<Rightarrow> string \<Rightarrow> (DiagnosticCode, unit) io" where
  "record_confirmation env root c generation =
     bindE
       (case pinned_ca_jid env c of
          Some j \<Rightarrow>
            if j \<noteq> cr_instance_id c then persist_credential (pe_codec env) root (c\<lparr>cr_instance_id := j\<rparr>) else returnE ()
        | None \<Rightarrow>
            map_errE (\<lambda>_. PrivateStateIo) (atomic_write_bytes (path_join root UNVERIFIED_FILENAME) root generation))
       (\<lambda>_. write_answer_file env root generation)"

definition is_pairing_confirmed :: "pairing_env \<Rightarrow> path \<Rightarrow> Credential \<Rightarrow> ('e, bool) io" where
  "is_pairing_confirmed env root c =
     (if cr_client_cert_pem c = [] then returnE False
      else bindE (stored_id_needs_asking env root c) (\<lambda>asking.
        if asking then returnE False
        else tryE (read_answer_file env root) (\<lambda>r. returnE (case r of
               Inr (Some a) \<Rightarrow> an_confirmed a \<noteq> [] \<and> an_confirmed a = generation_hex env c
             | _ \<Rightarrow> False))))"

definition is_status_held :: "pairing_env \<Rightarrow> path \<Rightarrow> ('e, bool) io" where
  "is_status_held env root =
     tryE (load_credential (pe_codec env) root) (\<lambda>loaded.
       case loaded of
         Inr (Some c) \<Rightarrow>
           if cr_client_cert_pem c = [] then returnE False
           else bindE (stored_id_needs_asking env root c) (\<lambda>asking.
             if asking then returnE True
             else tryE (read_answer_file env root) (\<lambda>r. returnE (case r of
                    Inr (Some a) \<Rightarrow> an_confirmed a \<noteq> generation_hex env c
                  | Inr None \<Rightarrow> False
                  | Inl _ \<Rightarrow> True)))
       | _ \<Rightarrow> returnE False)"

datatype journal_row = RowNotPaired | RowWaiting | RowUnavailable | RowMark string string

definition journal_status_row :: "pairing_env \<Rightarrow> path \<Rightarrow> ('e, journal_row) io" where
  "journal_status_row env root =
     bindE (is_status_held env root) (\<lambda>held.
     if held then
       tryE (load_credential (pe_codec env) root) (\<lambda>loaded. returnE (case loaded of
         Inr (Some c) \<Rightarrow> if pinned_ca_jid env c = None then RowUnavailable else RowWaiting
       | _ \<Rightarrow> RowWaiting))
     else
       tryE (load_credential (pe_codec env) root) (\<lambda>loaded. returnE (case loaded of
         Inr None \<Rightarrow> RowNotPaired
       | Inr (Some c) \<Rightarrow> (case pe_mark env (mark_jid env c) of Some (_, _, w1, w2) \<Rightarrow> RowMark w1 w2 | None \<Rightarrow> RowUnavailable)
       | Inl _ \<Rightarrow> RowUnavailable)))"

subsection \<open>The mark's words\<close>

definition middle_dot :: string where "middle_dot = [CHR 0xC2, CHR 0xB7]"

definition format_spoken_mark :: "pairing_env \<Rightarrow> string \<Rightarrow> string option" where
  "format_spoken_mark env jid =
     (case pe_mark env jid of
        None \<Rightarrow> None
      | Some (c1, c2, w1, w2) \<Rightarrow> Some (c1 @ '', '' @ c2 @ '' '' @ middle_dot @ '' '' @ w1 @ middle_dot @ w2))"

text \<open>\<open>str::split_once\<close> by a string\<close>

fun split_once_str :: "string \<Rightarrow> string \<Rightarrow> (string \<times> string) option" where
  "split_once_str p [] = (if p = [] then Some ([], []) else None)"
| "split_once_str p (x # xs) =
     (case strip_prefix p (x # xs) of
        Some r \<Rightarrow> Some ([], r)
      | None \<Rightarrow> map_option (\<lambda>(a, b). (x # a, b)) (split_once_str p xs))"

definition mark_separator :: "string \<Rightarrow> bool" where
  "mark_separator g \<longleftrightarrow> g \<in> set [[CHR 0x09], [CHR 0x0A], [CHR 0x0C], [CHR 0x0D], [CHR 0x20], middle_dot]"

fun split_chars :: "(string \<Rightarrow> bool) \<Rightarrow> string list \<Rightarrow> string list" where
  "split_chars sep [] = [[]]"
| "split_chars sep (g # gs) =
     (if sep g then [] # split_chars sep gs
      else case split_chars sep gs of [] \<Rightarrow> [g] | p # ps \<Rightarrow> (g @ p) # ps)"

definition split_mark_words :: "string \<Rightarrow> string list" where
  "split_mark_words v = filter (\<lambda>p. p \<noteq> []) (map trim (split_chars mark_separator (utf8_chars v)))"

definition extract_journal_mark_words :: "pairing_env \<Rightarrow> string \<Rightarrow> (string \<times> string) option" where
  "extract_journal_mark_words env jid =
     (case format_spoken_mark env jid of
        None \<Rightarrow> None
      | Some spoken \<Rightarrow> (case split_once_str ('' '' @ middle_dot @ '' '') spoken of
          None \<Rightarrow> None
        | Some (_, words) \<Rightarrow> (case split_once_str middle_dot words of
            None \<Rightarrow> None
          | Some (w1, w2) \<Rightarrow> Some (pe_lowercase env (trim w1), pe_lowercase env (trim w2)))))"

definition to_ascii_lowercase :: "string \<Rightarrow> string" where
  "to_ascii_lowercase = map (\<lambda>c. if is_upper c then char_of (byte c + 32) else c)"

datatype MarkMatch = Match | Mismatch | MatchUsage

definition evaluate_mark_words :: "pairing_env \<Rightarrow> string \<Rightarrow> string \<Rightarrow> MarkMatch" where
  "evaluate_mark_words env given jid =
     (let words = split_mark_words given in
      case extract_journal_mark_words env jid of
        None \<Rightarrow> if length words = 2 then Mismatch else MatchUsage
      | Some (w1, w2) \<Rightarrow>
          if length words = 2 then
            (if to_ascii_lowercase (words ! 0) = to_ascii_lowercase w1 \<and> to_ascii_lowercase (words ! 1) = to_ascii_lowercase w2
             then Match else Mismatch)
          else MatchUsage)"

subsection \<open>The question at the terminal\<close>

definition terminal_decision :: "bool \<Rightarrow> string \<Rightarrow> TerminalDecision option" where
  "terminal_decision identified trimmed =
     (if identified then
        (if trimmed = ''yes'' \<or> trimmed = ''y'' then Some Yes
         else if trimmed = ''no'' \<or> trimmed = ''n'' then Some No else None)
      else
        (if trimmed = ''continue'' then Some Yes
         else if trimmed = ''cancel'' then Some No else None))"

text \<open>What the prompt may see of the terminal: a read, a failed read, an interrupt or hangup\<close>

datatype terminal_event = TermBytes bytes | TermError | TermSignal

fun ask_production :: "bool \<Rightarrow> terminal_event list \<Rightarrow> bytes \<Rightarrow> TerminalDecision" where
  "ask_production identified [] buf = WalkedAway"
| "ask_production identified (TermSignal # es) buf = WalkedAway"
| "ask_production identified (TermError # es) buf = WalkedAway"
| "ask_production identified (TermBytes bs # es) buf =
     (if bs = [] then WalkedAway
      else
        let buf = buf @ filter (\<lambda>b. b \<noteq> CR) (takeWhile (\<lambda>b. b \<noteq> LF) bs) in
        if LF \<notin> set bs then ask_production identified es buf
        else case terminal_decision identified (to_ascii_lowercase (trim (utf8_lossy buf))) of
          Some d \<Rightarrow> d
        | None \<Rightarrow> ask_production identified es [])"

text \<open>\<open>u8 as char\<close>\<close>

definition latin1 :: "char \<Rightarrow> string" where
  "latin1 c = (if byte c < 128 then [c] else [char_of (192 + byte c div 64), char_of (128 + byte c mod 64)])"

fun ask_scripted :: "bool \<Rightarrow> bytes \<Rightarrow> string \<Rightarrow> TerminalDecision" where
  "ask_scripted identified [] line = WalkedAway"
| "ask_scripted identified (b # bs) line =
     (if b \<noteq> LF then ask_scripted identified bs (if b \<noteq> CR then line @ latin1 b else line)
      else case terminal_decision identified (to_ascii_lowercase (trim line)) of
        Some d \<Rightarrow> d
      | None \<Rightarrow> ask_scripted identified bs [])"

text \<open>\<open>TerminalSeat\<close> with what happens at it: no terminal could be opened, or what it delivers\<close>

datatype TerminalSeat = Production "terminal_event list option" | Scripted "bytes option"

definition ask_terminal :: "pairing_env \<Rightarrow> string \<Rightarrow> TerminalSeat \<Rightarrow> TerminalDecision" where
  "ask_terminal env jid seat =
     (let identified = format_spoken_mark env jid \<noteq> None in
      case seat of
        Production (Some es) \<Rightarrow> ask_production identified es []
      | Scripted (Some bs) \<Rightarrow> ask_scripted identified bs []
      | _ \<Rightarrow> WalkedAway)"

definition has_terminal :: "TerminalSeat \<Rightarrow> bool" where
  "has_terminal seat = (case seat of Production t \<Rightarrow> t \<noteq> None | Scripted t \<Rightarrow> t \<noteq> None)"

end
