(* ===== verification/Setup.thy ===== *)
theory Setup
  imports Answer Paths
begin

text \<open>
  Pairing (\<open>setup\<close> and \<open>confirm\<close> of \<open>src/private_link.rs\<close>): the ceremony behind the link, the owner's
  answer, and what is kept. Parameters beyond those of the answer: the ceremony itself (\<open>pair_from_link\<close>),
  which yields a pairing or fails, and the instance lock's JSON and clock. Telling a journal that a pairing is
  given up (\<open>retire_credential\<close>) is best effort; the pairings given up are listed.
\<close>

record pair_host =
  ph_locks :: locks
  ph_retired :: "Credential list"

type_synonym ('e, 'a) pairio = "(pair_host, 'e, 'a) sto"

definition on_locks :: "('e, 'a) lockio \<Rightarrow> ('e, 'a) pairio" where
  "on_locks m s =
     (case s of (h, w) \<Rightarrow> (case m (ph_locks h, w) of (r, (l, w)) \<Rightarrow> (r, (h\<lparr>ph_locks := l\<rparr>, w))))"

definition retire_credential :: "Credential \<Rightarrow> ('e, unit) pairio" where
  "retire_credential c =
     (if cr_client_cert_pem c = [] then returnE ()
      else modifyE (\<lambda>(h, w). (h\<lparr>ph_retired := ph_retired h @ [c]\<rparr>, w)))"

definition PRIVATE_STATE_LOCK_FILENAME :: string where
  "PRIVATE_STATE_LOCK_FILENAME = ''.solstone-tmux.private-state.lock''"
definition JOURNAL_VERSION_FILENAME :: string where "JOURNAL_VERSION_FILENAME = ''journal-version.json''"
definition MAX_PAIR_LINK_BYTES :: nat where "MAX_PAIR_LINK_BYTES = 4096"
definition MAX_CLIENT_LABEL_BYTES :: nat where "MAX_CLIENT_LABEL_BYTES = 253"
definition FALLBACK_DEVICE_LABEL :: string where "FALLBACK_DEVICE_LABEL = ''tmux''"

definition clear_cached_version :: "path \<Rightarrow> ('e, unit) io" where
  "clear_cached_version root = ignoreE (fs_remove_file (path_join root JOURNAL_VERSION_FILENAME))"

definition acquire_private_state_lock :: "path \<Rightarrow> (DiagnosticCode, nat) lockio" where
  "acquire_private_state_lock root =
     (let p = path_join root PRIVATE_STATE_LOCK_FILENAME in
      bindE (on_world (map_errE (\<lambda>_. SetupUnavailable) (fs_open_create p))) (\<lambda>i.
      bindE (on_world (map_errE (\<lambda>_. SetupUnavailable) fs_seek)) (\<lambda>_.
      bindE (on_world (map_errE (\<lambda>_. SetupUnavailable) (fs_chmod_fd i 384))) (\<lambda>_.
      bindE (map_errE (\<lambda>_. SetupUnavailable) (flock_exclusive i)) (\<lambda>got.
      if got then returnE i else throwE SetupUnavailable)))))"

text \<open>The link is read from at most one byte more than it may have.\<close>

definition read_pair_link :: "unit + bytes \<Rightarrow> DiagnosticCode + string" where
  "read_pair_link input =
     (case input of
        Inl _ \<Rightarrow> Inl SetupInputInvalid
      | Inr b \<Rightarrow>
          let b = take (MAX_PAIR_LINK_BYTES + 1) b; link = trim_end b in
          if MAX_PAIR_LINK_BYTES < length b then Inl SetupInputInvalid
          else if \<not> valid_utf8 b then Inl SetupInputInvalid
          else if link = [] \<or> list_ex is_space (utf8_chars link) then Inl SetupInputInvalid
          else Inr link)"

definition pairing_ceremony_identity :: "PlatformKind \<Rightarrow> string option \<Rightarrow> string \<times> (string \<times> string) list" where
  "pairing_ceremony_identity platform hostname =
     (let platform = (''platform'', pairing_platform platform) in
      case hostname of
        Some h \<Rightarrow>
          if 1 \<le> length h \<and> length h \<le> MAX_CLIENT_LABEL_BYTES then (h, [(''client_label'', h), platform])
          else (FALLBACK_DEVICE_LABEL, [platform])
      | None \<Rightarrow> (FALLBACK_DEVICE_LABEL, [platform]))"

record setup_env =
  su_answer :: pairing_env
  pe_pairer :: "string \<Rightarrow> string \<Rightarrow> (string \<times> string) list \<Rightarrow> DiagnosticCode + Credential"
  pe_lock_json :: "RunIdentity \<Rightarrow> io_error + bytes"
  pe_now :: nat

text \<open>The answer lock, held around an action; closing it releases it.\<close>

definition diag :: "('s, DiagnosticCode, 'a) comp \<Rightarrow> ('s, Outcome, 'a) comp" where
  "diag m = map_errE Diagnostic m"

definition answer_locked :: "setup_env \<Rightarrow> path \<Rightarrow> ('e, 'a) pairio \<Rightarrow> (Outcome, 'e + 'a) pairio" where
  "answer_locked env root action =
     bindE (diag (on_locks (acquire_answer_lock (su_answer env) root))) (\<lambda>i.
     tryE action (\<lambda>r. bindE (on_locks (release i)) (\<lambda>_. returnE r)))"

definition ofD :: "DiagnosticCode + 'a \<Rightarrow> ('s, Outcome, 'a) comp" where
  "ofD r = (case r of Inl e \<Rightarrow> throwE (Diagnostic e) | Inr x \<Rightarrow> returnE x)"

definition existing_pairing_confirmed :: "setup_env \<Rightarrow> path \<Rightarrow> (Outcome, bool) io" where
  "existing_pairing_confirmed env root =
     tryE (load_credential (pe_codec (su_answer env)) root) (\<lambda>loaded.
       case loaded of Inr (Some c) \<Rightarrow> is_pairing_confirmed (su_answer env) root c | _ \<Rightarrow> returnE False)"

text \<open>As \<open>existing_pairing_confirmed\<close> of the source: a lock that cannot be had counts as no.\<close>

definition replacing_confirmed :: "setup_env \<Rightarrow> path \<Rightarrow> ('e, bool) pairio" where
  "replacing_confirmed env root =
     tryE (answer_locked env root (on_world (existing_pairing_confirmed env root))) (\<lambda>r.
       returnE (case r of Inr (Inr b) \<Rightarrow> b | _ \<Rightarrow> False))"

text \<open>The owner said yes: the pairing and then the answer are written under the answer lock.\<close>

definition keep_confirmed :: "setup_env \<Rightarrow> path \<Rightarrow> Credential \<Rightarrow> (Outcome, Outcome) pairio" where
  "keep_confirmed env root c =
     bindE (answer_locked env root (on_world
       (bindE (persist_credential (pe_codec (su_answer env)) root c) (\<lambda>_.
        bindE (clear_cached_version root) (\<lambda>_.
        tryE (record_confirmation (su_answer env) root c (generation_hex (su_answer env) c)) (\<lambda>r. returnE (\<exists>x. r = Inr x)))))))
     (\<lambda>r. case r of
        Inl e \<Rightarrow> throwE (Diagnostic e)
      | Inr written \<Rightarrow> returnE (if written then Owner 0 [PAIRED] else Owner 5 [HELD, RUN_LINE]))"

text \<open>The words or the answer were wrong: the new pairing is given up.\<close>

definition give_up :: "setup_env \<Rightarrow> path \<Rightarrow> Credential \<Rightarrow> (bool \<Rightarrow> Outcome) \<Rightarrow> (Outcome, Outcome) pairio" where
  "give_up env root c outcome =
     bindE (replacing_confirmed env root) (\<lambda>replacing.
     bindE (retire_credential c) (\<lambda>_. returnE (outcome replacing)))"

definition words_wrong :: "bool \<Rightarrow> bool \<Rightarrow> Outcome" where
  "words_wrong identified replacing =
     (if replacing then Owner 1 [if identified then MARK_WORDS_WRONG else COULDNT_VERIFY, PAIRING_KEPT]
      else if \<not> identified then Owner 1 [COULDNT_VERIFY, MARK_UNVERIFIABLE_SETUP]
      else Owner 1 [NOT_PAIRED, MARK_MISMATCH])"

definition answered_no :: "bool \<Rightarrow> bool \<Rightarrow> Outcome" where
  "answered_no identified replacing =
     (if replacing then Owner 1 [if identified then PAIRING_KEPT else PAIRING_KEPT_STOPPED]
      else if identified then Owner 1 [NOT_PAIRED, MISMATCH_BODY]
      else Owner 1 [CANCEL])"

text \<open>No answer: a confirmed pairing stays, or the new one is kept and held.\<close>

definition walked_away :: "setup_env \<Rightarrow> path \<Rightarrow> Credential \<Rightarrow> (Outcome, Outcome) pairio" where
  "walked_away env root c =
     bindE (answer_locked env root (on_world
       (bindE (existing_pairing_confirmed env root) (\<lambda>confirmed.
        if confirmed then returnE None
        else tryE (persist_credential (pe_codec (su_answer env)) root c) (\<lambda>r. returnE (Some r))))))
     (\<lambda>r. case r of
        Inl e \<Rightarrow> throwE e
      | Inr None \<Rightarrow> bindE (retire_credential c) (\<lambda>_. returnE (Owner 1 [PAIRING_KEPT_STOPPED]))
      | Inr (Some (Inl e)) \<Rightarrow> throwE (Diagnostic e)
      | Inr (Some (Inr _)) \<Rightarrow> bindE (on_world (clear_cached_version root)) (\<lambda>_. returnE (Owner 5 [HELD, RUN_LINE])))"

definition settle_pairing ::
  "setup_env \<Rightarrow> path \<Rightarrow> Credential \<Rightarrow> MarkOption \<Rightarrow> TerminalSeat \<Rightarrow> (Outcome, Outcome) pairio" where
  "settle_pairing env root c mark seat =
     (let jid = mark_jid (su_answer env) c; identified = (format_spoken_mark (su_answer env) jid \<noteq> None) in
      case mark of
        Value val \<Rightarrow>
          (case evaluate_mark_words (su_answer env) val jid of
             MatchUsage \<Rightarrow> bindE (retire_credential c) (\<lambda>_. returnE (Usage MARK_USAGE))
           | Match \<Rightarrow> keep_confirmed env root c
           | Mismatch \<Rightarrow> give_up env root c (words_wrong identified))
      | _ \<Rightarrow>
          (case ask_terminal (su_answer env) jid seat of
             Yes \<Rightarrow> keep_confirmed env root c
           | No \<Rightarrow> give_up env root c (answered_no identified)
           | WalkedAway \<Rightarrow> walked_away env root c))"

text \<open>What is checked of the mark option and the terminal before anything else is done\<close>

definition check_mark :: "MarkOption \<Rightarrow> TerminalSeat \<Rightarrow> message \<Rightarrow> Outcome option" where
  "check_mark mark seat no_terminal =
     (case mark of
        MissingValue \<Rightarrow> Some (Usage MARK_USAGE)
      | Repeated \<Rightarrow> Some (Usage MARK_USAGE)
      | Value val \<Rightarrow> if length (split_mark_words val) \<noteq> 2 then Some (Usage MARK_USAGE) else None
      | MarkAbsent \<Rightarrow> if has_terminal seat then None else Some (Owner 1 [no_terminal]))"

definition pair_and_settle ::
  "setup_env \<Rightarrow> PlatformKind \<Rightarrow> path \<Rightarrow> unit + bytes \<Rightarrow> string option \<Rightarrow> TerminalSeat \<Rightarrow> MarkOption \<Rightarrow> (Outcome, Outcome) pairio" where
  "pair_and_settle env platform root input hostname seat mark =
     (case check_mark mark seat SETUP_NO_TERMINAL of
        Some out \<Rightarrow> throwE out
      | None \<Rightarrow>
          bindE (answer_locked env root (on_world (grandfather_or_settle (su_answer env) root))) (\<lambda>settled.
          bindE (ofD settled) (\<lambda>_.
          case pairing_ceremony_identity platform hostname of (label, extra) \<Rightarrow>
          bindE (ofD (read_pair_link input)) (\<lambda>link.
          bindE (ofD (pe_pairer env link label extra)) (\<lambda>c.
          settle_pairing env root c mark seat)))))"

text \<open>The two locks are given back whatever the outcome.\<close>

definition finally_release :: "nat \<Rightarrow> (Outcome, Outcome) pairio \<Rightarrow> (Outcome, Outcome) pairio" where
  "finally_release i m =
     tryE m (\<lambda>r. bindE (on_locks (release i)) (\<lambda>_. case r of Inl e \<Rightarrow> throwE e | Inr x \<Rightarrow> returnE x))"

definition run_setup ::
  "setup_env \<Rightarrow> PlatformKind \<Rightarrow> (string \<Rightarrow> string option) \<Rightarrow> unit + bytes \<Rightarrow> string option \<Rightarrow> TerminalSeat \<Rightarrow> MarkOption
   \<Rightarrow> (unit, Outcome) pairio" where
  "run_setup env platform environment input hostname seat mark =
     (let unavailable = Diagnostic SetupUnavailable in
      tryE
       (case resolve_data_root platform environment of
          Inl _ \<Rightarrow> throwE unavailable
        | Inr data \<Rightarrow>
          bindE (map_errE (\<lambda>_. unavailable) (on_locks (acquire_existing (pe_lock_json env) (pe_now env) data))) (\<lambda>lock.
          (case lock of None \<Rightarrow> (\<lambda>m. m) | Some l \<Rightarrow> finally_release (il_file l))
          (case resolve_config_root platform environment of
             Inl _ \<Rightarrow> throwE unavailable
           | Inr root \<Rightarrow>
             bindE (map_errE (\<lambda>_. unavailable) (on_world (ensure_private_directory root))) (\<lambda>_.
             bindE (diag (on_locks (acquire_private_state_lock root))) (\<lambda>i.
             finally_release i (pair_and_settle env platform root input hostname seat mark))))))
       (\<lambda>r. returnE (case r of Inl out \<Rightarrow> out | Inr out \<Rightarrow> out)))"


subsection \<open>Confirming a held pairing\<close>

text \<open>Whether the pairing on disk is still the one whose mark was shown, under the answer lock\<close>

definition still_shown ::
  "setup_env \<Rightarrow> path \<Rightarrow> string \<Rightarrow> (Credential \<Rightarrow> (DiagnosticCode, unit) io) \<Rightarrow> (DiagnosticCode, unit) io" where
  "still_shown env root shown act =
     tryE (load_credential (pe_codec (su_answer env)) root) (\<lambda>loaded.
       case loaded of
         Inr (Some c) \<Rightarrow> if generation_hex (su_answer env) c \<noteq> shown then throwE PrivateStateIo else act c
       | _ \<Rightarrow> throwE PrivateStateIo)"

definition confirm_yes :: "setup_env \<Rightarrow> path \<Rightarrow> string \<Rightarrow> (Outcome, Outcome) pairio" where
  "confirm_yes env root shown =
     bindE (answer_locked env root (on_world (still_shown env root shown (\<lambda>c. record_confirmation (su_answer env) root c shown)))) (\<lambda>r.
     bindE (ofD r) (\<lambda>_. returnE (Owner 0 [PAIRED])))"

definition confirm_no :: "setup_env \<Rightarrow> path \<Rightarrow> Credential \<Rightarrow> string \<Rightarrow> message list \<Rightarrow> (Outcome, Outcome) pairio" where
  "confirm_no env root saved_pairing shown texts =
     bindE (retire_credential saved_pairing) (\<lambda>_.
     bindE (answer_locked env root (on_world (still_shown env root shown (\<lambda>_. delete_credential_file root)))) (\<lambda>r.
     bindE (ofD r) (\<lambda>_. returnE (Owner 1 texts))))"

definition confirm_answer ::
  "setup_env \<Rightarrow> path \<Rightarrow> Credential \<Rightarrow> MarkOption \<Rightarrow> TerminalSeat \<Rightarrow> (Outcome, Outcome) pairio" where
  "confirm_answer env root c mark seat =
     (let shown = generation_hex (su_answer env) c; jid = mark_jid (su_answer env) c;
          identified = (format_spoken_mark (su_answer env) jid \<noteq> None) in
      case mark of
        Value val \<Rightarrow>
          (case evaluate_mark_words (su_answer env) val jid of
             MatchUsage \<Rightarrow> returnE (Usage MARK_USAGE)
           | Match \<Rightarrow> confirm_yes env root shown
           | Mismatch \<Rightarrow>
               if \<not> identified then returnE (Owner 5 [MARK_UNVERIFIABLE_CONFIRM])
               else confirm_no env root c shown [NOT_PAIRED, CONFIRM_MARK_MISMATCH])
      | _ \<Rightarrow>
          (case ask_terminal (su_answer env) jid seat of
             Yes \<Rightarrow> confirm_yes env root shown
           | No \<Rightarrow> confirm_no env root c shown (if identified then [NOT_PAIRED, CONFIRM_MISMATCH_BODY] else [CONFIRM_CANCEL])
           | WalkedAway \<Rightarrow> returnE (Owner 5 [HELD, RUN_LINE])))"

definition confirm_pairing ::
  "setup_env \<Rightarrow> path \<Rightarrow> TerminalSeat \<Rightarrow> MarkOption \<Rightarrow> (Outcome, Outcome) pairio" where
  "confirm_pairing env root seat mark =
     bindE (on_world (ignoreE (ensure_private_directory root))) (\<lambda>_.
     bindE (answer_locked env root (on_world (grandfather_or_settle (su_answer env) root))) (\<lambda>settled.
     bindE (ofD settled) (\<lambda>_.
     bindE (diag (on_world (load_credential (pe_codec (su_answer env)) root))) (\<lambda>loaded.
     case loaded of
       None \<Rightarrow> returnE (Owner 1 [CONFIRM_UNPAIRED])
     | Some c \<Rightarrow>
         bindE (on_world (is_pairing_confirmed (su_answer env) root c)) (\<lambda>confirmed.
         if confirmed then returnE (Owner 0 [CONFIRM_DONE])
         else if mark = MarkAbsent \<and> \<not> has_terminal seat then returnE (Owner 1 [CONFIRM_NO_TERMINAL])
         else confirm_answer env root c mark seat)))))"

definition confirm ::
  "setup_env \<Rightarrow> PlatformKind \<Rightarrow> (string \<Rightarrow> string option) \<Rightarrow> TerminalSeat \<Rightarrow> MarkOption \<Rightarrow> (unit, Outcome) pairio" where
  "confirm env platform environment seat mark =
     tryE
       (case check_mark mark (Scripted (Some [])) CONFIRM_NO_TERMINAL of
          Some out \<Rightarrow> throwE out
        | None \<Rightarrow>
            (case resolve_config_root platform environment of
               Inl _ \<Rightarrow> throwE (Diagnostic PrivateStateIo)
             | Inr root \<Rightarrow> confirm_pairing env root seat mark))
       (\<lambda>r. returnE (case r of Inl out \<Rightarrow> out | Inr out \<Rightarrow> out))"

end
