(* ===== verification/Held.thy ===== *)
theory Held
  imports Setup Outcomes
begin

text \<open>
  What setup keeps to (\<open>src/private_link.rs\<close>, \<open>src/pairing_answer.rs\<close>): a pairing its owner has not
  confirmed stays held. \<open>watched\<close> is the contract with the file system: an invariant that depends on a
  few files survives every step that cannot reach them.
\<close>

subsection \<open>Invariants over a few files\<close>

locale watched =
  fixes I :: "world \<Rightarrow> bool" and files :: "path set"
  assumes watching: "I w \<Longrightarrow> confined S w u \<Longrightarrow> S \<inter> files = {} \<Longrightarrow> I u"
    and sound: "I w \<Longrightarrow> world_ok w"
begin

definition lifted :: "'h \<times> world \<Rightarrow> bool" where
  "lifted s \<longleftrightarrow> I (snd s)"

lemma lifted_wp: "keepsE lifted m \<Longrightarrow> I (snd s) \<Longrightarrow> wpE m (\<lambda>_ t. I (snd t)) (\<lambda>_ t. I (snd t)) s"
  using keepsE_D [of lifted m s] unfolding lifted_def [abs_def] by simp

lemma keeps_below: "confinedE S m \<Longrightarrow> S \<inter> files = {} \<Longrightarrow> keepsE I m"
  by (rule keeps_confined) (auto intro: watching sound)

lemma keeps_quiet: "confinedE {} m \<Longrightarrow> keepsE I m"
  by (rule keeps_below, assumption, simp)

lemma keeps_lift: "keepsE I m \<Longrightarrow> keepsE lifted (on_world m)"
  by (auto simp: keepsE_wp lifted_def elim!: allE wpE_mono)

lemma keeps_on_locks: "keepsE lifted m \<Longrightarrow> keepsE lifted (on_locks m)"
  unfolding keepsE_def lifted_def on_locks_def by (auto split: prod.splits) (metis snd_conv)

lemma keeps_locks_only: "(\<And>h w. snd (f (h, w)) = w) \<Longrightarrow> keepsE lifted (modifyE f)"
  by (auto simp: keepsE_def lifted_def modifyE_def)

lemma keeps_release: "keepsE lifted (release i)"
  unfolding release_def by (rule keeps_locks_only) simp

lemma keeps_retire: "keepsE lifted (retire_credential c)"
  unfolding retire_credential_def by (auto intro!: keeps_intros keeps_locks_only)

lemma tick_kept: "I w \<Longrightarrow> I (tick w)"
  by (rule watching [where S = "{}" and w = w]) (use sound [of w] in \<open>simp_all add: confined_def world_simps\<close>)

lemma keeps_flock: "keepsE lifted (flock_exclusive i)"
  by (rule keepsE_I) (auto simp: lifted_def tick_kept intro!: wp_flock)

lemma keeps_flock_retry: "keepsE lifted (flock_retry others i n)"
proof (induction n)
  case 0
  show ?case by (subst flock_retry.simps) (intro keeps_intros keeps_flock; simp add: keeps_intros)
next
  case (Suc n)
  then show ?case
    by (subst flock_retry.simps) (intro keeps_intros keeps_flock; simp add: keeps_intros keeps_locks_only)
qed

lemma keeps_answer_lock:
  assumes "path_join root ANSWER_LOCK_FILENAME \<notin> files"
  shows "keepsE lifted (acquire_answer_lock env root)"
  unfolding acquire_answer_lock_def
  by (intro keeps_intros keeps_lift keeps_flock_retry keeps_below [OF confined_open_create [OF singletonI]] keeps_quiet)
    (use assms in \<open>auto intro!: confined_intros\<close>)

lemma keeps_answer_locked:
  assumes "path_join root ANSWER_LOCK_FILENAME \<notin> files" "keepsE lifted m"
  shows "keepsE lifted (answer_locked env root m)"
  unfolding answer_locked_def diag_def
  by (intro keeps_intros keeps_on_locks keeps_answer_lock keeps_release assms)

lemma keeps_ofD: "keepsE lifted (ofD r)"
  by (simp add: ofD_def keeps_intros split: sum.split)

lemma keeps_private_lock:
  assumes "path_join root PRIVATE_STATE_LOCK_FILENAME \<notin> files"
  shows "keepsE lifted (acquire_private_state_lock root)"
proof -
  have "keepsE I (fs_open_create (path_join root PRIVATE_STATE_LOCK_FILENAME))"
    by (rule keeps_below [OF confined_open_create [OF singletonI]]) (use assms in simp)
  moreover have "keepsE I fs_seek" "keepsE I (fs_chmod_fd i m)" for i m by (intro keeps_quiet confined_intros)+
  ultimately show ?thesis
    unfolding acquire_private_state_lock_def Let_def by (intro keeps_intros keeps_lift keeps_flock)
qed

lemma keeps_load: "keepsE I (load_credential codec root)"
  unfolding load_credential_def read_private_file_def
  by (intro keeps_quiet confined_intros) (auto intro!: confined_intros split: StorageError.split io_error.split)

lemma keeps_read_answer: "keepsE I (read_answer_file env root)"
  unfolding read_answer_file_def
  by (intro keeps_quiet confined_intros) (auto intro!: confined_intros split: StorageError.split io_error.split)

lemma keeps_confirmed: "keepsE I (is_pairing_confirmed env root c)"
  unfolding is_pairing_confirmed_def stored_id_needs_asking_def unverified_pairing_accepted_def
  by (intro keeps_intros keeps_read_answer keeps_quiet confined_intros)

lemma keeps_replacing:
  assumes "path_join root ANSWER_LOCK_FILENAME \<notin> files"
  shows "keepsE lifted (replacing_confirmed env root)"
  unfolding replacing_confirmed_def existing_pairing_confirmed_def
  by (intro keeps_intros keeps_answer_locked keeps_lift keeps_load keeps_confirmed assms)

lemma keeps_give_up:
  assumes "path_join root ANSWER_LOCK_FILENAME \<notin> files"
  shows "keepsE lifted (give_up env root c out)"
  unfolding give_up_def by (intro keeps_intros keeps_replacing keeps_retire assms)

end

subsection \<open>Nothing but a yes confirms\<close>

text \<open>The answer file does not name the pairing \<open>g\<close>; the pairing on disk is another one.\<close>

definition unconfirmed :: "pairing_env \<Rightarrow> path \<Rightarrow> string \<Rightarrow> world \<Rightarrow> bool" where
  "unconfirmed env root g w \<longleftrightarrow> world_ok w
     \<and> (\<forall>b. view w (root @ [ANSWER_FILENAME]) = Some b \<longrightarrow> pe_answer_parse env b \<noteq> Some \<lparr>an_confirmed = g\<rparr>)"

definition other_pairing :: "pairing_env \<Rightarrow> path \<Rightarrow> string \<Rightarrow> world \<Rightarrow> bool" where
  "other_pairing env root g w \<longleftrightarrow>
     (\<forall>b c. held_pairing root w = Some b \<longrightarrow> cc_parse (pe_codec env) b = Some c \<longrightarrow> generation_hex env c \<noteq> g)"

definition untouched :: "pairing_env \<Rightarrow> path \<Rightarrow> string \<Rightarrow> world \<Rightarrow> bool" where
  "untouched env root g w \<longleftrightarrow> unconfirmed env root g w \<and> other_pairing env root g w"

interpretation answer_file: watched "unconfirmed env root g" "{root @ [ANSWER_FILENAME]}" for env root g
  by unfold_locales (auto simp: unconfirmed_def confined_def)

interpretation pairing_files: watched "untouched env root g" "{root @ [ANSWER_FILENAME], root @ [CREDENTIALS_FILENAME]}"
  for env root g
  by unfold_locales (auto simp: untouched_def unconfirmed_def other_pairing_def held_pairing_def confined_def)

lemma file_names:
  "plain_name ANSWER_FILENAME" "plain_name ANSWER_LOCK_FILENAME" "plain_name PRIVATE_STATE_LOCK_FILENAME"
  "plain_name JOURNAL_VERSION_FILENAME" "plain_name LOCK_FILENAME"
  unfolding plain_name_def ANSWER_FILENAME_def ANSWER_LOCK_FILENAME_def PRIVATE_STATE_LOCK_FILENAME_def
    JOURNAL_VERSION_FILENAME_def LOCK_FILENAME_def
  by (simp_all del: valid_utf8.simps add: valid_utf8_ascii)

lemmas file_paths = path_join_plain_name [OF file_names(1)] path_join_plain_name [OF file_names(2)]
  path_join_plain_name [OF file_names(3)] path_join_plain_name [OF file_names(4)] path_join_plain_name [OF file_names(5)]

lemmas file_name_defs = ANSWER_FILENAME_def CREDENTIALS_FILENAME_def ANSWER_LOCK_FILENAME_def
  PRIVATE_STATE_LOCK_FILENAME_def JOURNAL_VERSION_FILENAME_def LOCK_FILENAME_def

lemma persist_confined: "confinedE (write_scope root (root @ [CREDENTIALS_FILENAME])) (persist_credential codec root c)"
  unfolding persist_credential_def persist_private_file_def path_join_plain_name [OF credentials_name]
  by (intro confined_intros confined_atomic_write credentials_name order_refl)

lemma out_of_scope:
  "root @ [ANSWER_FILENAME] \<notin> write_scope root (root @ [CREDENTIALS_FILENAME])"
  "root @ [CREDENTIALS_FILENAME] \<notin> write_scope root (root @ [ANSWER_FILENAME])"
  by (simp_all add: write_scope_def temporaries_def file_name_defs)

lemma keeps_persist: "keepsE (unconfirmed env root g) (persist_credential codec root c)"
  by (rule answer_file.keeps_below [OF persist_confined]) (use out_of_scope in auto)

lemma keeps_clear: "keepsE (unconfirmed env root g) (clear_cached_version root)"
proof -
  have "confinedE {root @ [JOURNAL_VERSION_FILENAME]} (fs_remove_file (root @ [JOURNAL_VERSION_FILENAME]))"
    by (rule confined_remove_file) simp
  then have "confinedE {root @ [JOURNAL_VERSION_FILENAME]} (clear_cached_version root)"
    unfolding clear_cached_version_def file_paths by (rule confined_combine)
  then show ?thesis by (rule answer_file.keeps_below) (simp add: file_name_defs)
qed

lemma answer_locks_apart:
  "path_join root ANSWER_LOCK_FILENAME \<notin> {root @ [ANSWER_FILENAME]}"
  "path_join root ANSWER_LOCK_FILENAME \<notin> {root @ [ANSWER_FILENAME], root @ [CREDENTIALS_FILENAME]}"
  "path_join root PRIVATE_STATE_LOCK_FILENAME \<notin> {root @ [ANSWER_FILENAME], root @ [CREDENTIALS_FILENAME]}"
  by (simp_all add: file_paths) (simp_all add: file_name_defs)

text \<open>Writing another answer\<close>

definition answers_decode :: "pairing_env \<Rightarrow> bool" where
  "answers_decode env \<longleftrightarrow> (\<forall>r b. pe_answer_json env r = Some b \<longrightarrow> pe_answer_parse env b = Some r)"

lemma keeps_write_answer:
  assumes "answers_decode env" "v \<noteq> g"
  shows "keepsE (untouched env root g) (write_answer_file env root v)"
proof (rule keepsE_I)
  fix w assume w: "untouched env root g w"
  then have ok: "world_ok w" by (simp add: untouched_def unconfirmed_def)
  show "wpE (write_answer_file env root v) (\<lambda>_. untouched env root g) (\<lambda>_. untouched env root g) w"
  proof (cases "pe_answer_json env \<lparr>an_confirmed = v\<rparr>")
    case (Some b)
    then have b: "pe_answer_parse env b = Some \<lparr>an_confirmed = v\<rparr>" using assms(1) by (simp add: answers_decode_def)
    have kept: "untouched env root g u"
      if touched: "only_touches (write_scope root (root @ [ANSWER_FILENAME])) w u"
        and answer: "view u (root @ [ANSWER_FILENAME]) = view w (root @ [ANSWER_FILENAME]) \<or> view u (root @ [ANSWER_FILENAME]) = Some b" for u
    proof -
      have "held_pairing root u = held_pairing root w" "world_ok u"
        using touched out_of_scope(2) by (simp_all add: only_touches_def held_pairing_def)
      moreover have "pe_answer_parse env x \<noteq> Some \<lparr>an_confirmed = g\<rparr>" if "view u (root @ [ANSWER_FILENAME]) = Some x" for x
        using answer
      proof
        assume "view u (root @ [ANSWER_FILENAME]) = view w (root @ [ANSWER_FILENAME])"
        with that w show ?thesis by (simp add: untouched_def unconfirmed_def)
      next
        assume "view u (root @ [ANSWER_FILENAME]) = Some b"
        with that b assms(2) show ?thesis by simp
      qed
      ultimately show ?thesis using w by (simp add: untouched_def unconfirmed_def other_pairing_def)
    qed
    show ?thesis
      unfolding write_answer_file_def Some option.case wpE_map_err file_paths
      by (rule wpE_mono [OF atomic_write_bytes_spec [OF ok file_names(1), of root b]])
        (auto simp: replaced_ok_def replaced_err_def intro: kept)
  qed (use w in \<open>simp add: write_answer_file_def\<close>)
qed

lemma keeps_grandfather:
  assumes "answers_decode env" "g \<noteq> []"
  shows "keepsE (untouched env root g) (grandfather_or_settle env root)"
proof -
  let ?I = "untouched env root g" and ?load = "load_credential (pe_codec env) root"
  have loaded: "givesE ?I (\<lambda>x. \<forall>c. x = Some c \<longrightarrow> generation_hex env c \<noteq> g) ?load"
  proof (rule givesE_I)
    fix w assume w: "?I w"
    then have ok: "world_ok w" by (simp add: untouched_def unconfirmed_def)
    have "wpE ?load (\<lambda>_. ?I) (\<lambda>_. ?I) w" by (rule keepsE_D [OF pairing_files.keeps_load w])
    from wpE_conj [OF this pairing_file.loading [OF ok, of "pe_codec env" root]]
    show "wpE ?load (\<lambda>x u. (\<forall>c. x = Some c \<longrightarrow> generation_hex env c \<noteq> g) \<and> ?I u) (\<lambda>_. ?I) w"
      by (rule wpE_mono) (use w in \<open>auto simp: untouched_def other_pairing_def split: option.splits\<close>)
  qed
  have settle: "keepsE ?I (write_answer_file env root [])" by (rule keeps_write_answer) (use assms in auto)
  let ?after = "\<lambda>loaded. case loaded of
      Inr (Some c) \<Rightarrow> write_answer_file env root (if cr_client_cert_pem c \<noteq> [] then generation_hex env c else [])
    | Inr None \<Rightarrow> write_answer_file env root []
    | Inl PrivateStateInvalid \<Rightarrow> write_answer_file env root []
    | Inl e \<Rightarrow> throwE e"
  have "keepsE ?I (tryE ?load ?after)"
  proof (rule keeps_try_gives [OF loaded])
    fix x assume "\<forall>c. x = Some c \<longrightarrow> generation_hex env c \<noteq> g"
    then show "keepsE ?I (?after (Inr x))"
      by (cases x) (auto intro!: settle keeps_write_answer [OF assms(1)])
  next
    fix e show "keepsE ?I (?after (Inl e))" by (cases e) (simp_all add: settle keeps_intros)
  qed
  then show ?thesis
    unfolding grandfather_or_settle_def
    by (intro keeps_try pairing_files.keeps_read_answer) (simp add: keeps_intros split: sum.split option.split)
qed

subsection \<open>Setup\<close>

definition said_yes :: "pairing_env \<Rightarrow> Credential \<Rightarrow> MarkOption \<Rightarrow> TerminalSeat \<Rightarrow> bool" where
  "said_yes env c mark seat \<longleftrightarrow>
     (let jid = mark_jid env c in
      case mark of Value val \<Rightarrow> evaluate_mark_words env val jid = Match | _ \<Rightarrow> ask_terminal env jid seat = Yes)"

abbreviation paired :: Outcome where "paired \<equiv> Owner 0 [PAIRED]"

text \<open>After it, the pairing is not confirmed, and it does not say that it is.\<close>

definition stays_held :: "pairing_env \<Rightarrow> path \<Rightarrow> string \<Rightarrow> (Outcome, Outcome) pairio \<Rightarrow> bool" where
  "stays_held env root g m \<longleftrightarrow>
     keepsE (answer_file.lifted env root g) m \<and> alwaysE (\<lambda>out. out \<noteq> paired) (\<lambda>out. out \<noteq> paired) m"

lemma keeps_walked_away: "keepsE (answer_file.lifted env root g) (walked_away senv root c)"
proof -
  have existing: "keepsE (unconfirmed env root g) (existing_pairing_confirmed senv root)"
    unfolding existing_pairing_confirmed_def
    by (intro keeps_intros answer_file.keeps_load answer_file.keeps_confirmed)
  have "keepsE (unconfirmed env root g) (bindE (existing_pairing_confirmed senv root) (\<lambda>confirmed.
      if confirmed then returnE None
      else tryE (persist_credential (pe_codec (su_answer senv)) root c) (\<lambda>r. returnE (Some r))))"
    by (intro keeps_intros keeps_persist existing)
  note locked = answer_file.keeps_answer_locked [OF answer_locks_apart(1) answer_file.keeps_lift [OF this]]
  show ?thesis
    unfolding walked_away_def
    by (rule keeps_bind [OF locked])
      (auto intro!: keeps_intros answer_file.keeps_retire answer_file.keeps_lift keeps_clear split: sum.split option.split)
qed

lemma keeps_settle:
  assumes "\<not> said_yes (su_answer senv) c mark seat"
  shows "keepsE (answer_file.lifted env root g) (settle_pairing senv root c mark seat)"
  using assms unfolding settle_pairing_def said_yes_def Let_def
  by (cases mark)
    (auto intro!: keeps_intros answer_file.keeps_retire answer_file.keeps_give_up answer_locks_apart keeps_walked_away
      split: MarkMatch.split TerminalDecision.split)

lemma always_diag: "alwaysE (\<lambda>_. True) (\<lambda>out. out \<noteq> paired) (diag m)"
  unfolding diag_def by (rule always_map_err, rule always_mono [OF always_any]) simp_all

lemma always_release: "alwaysE (\<lambda>_. True) R (on_locks (release i))"
  by (simp add: alwaysE_def wpE_def on_locks_def release_def modifyE_def split: prod.split)

lemma always_locked: "alwaysE (\<lambda>_. True) (\<lambda>out. out \<noteq> paired) (answer_locked senv root m)"
  unfolding answer_locked_def
  by (rule always_bind [OF always_diag])
    (rule always_try [OF always_any]; rule always_bind [OF always_release]; simp add: always_return)

lemma always_on_world: "alwaysE Q R m \<Longrightarrow> alwaysE Q R (on_world m)"
  by (auto simp: alwaysE_def)

lemma always_locked_result:
  assumes "alwaysE Q R m"
  shows "alwaysE (\<lambda>r. case r of Inl e \<Rightarrow> R e | Inr x \<Rightarrow> Q x) (\<lambda>out. out \<noteq> paired) (answer_locked senv root m)"
  unfolding answer_locked_def
  by (rule always_bind [OF always_diag])
    (rule always_try [OF assms]; rule always_bind [OF always_release]; simp add: always_return)

lemma confirmed_never_fails: "alwaysE (\<lambda>_. True) (\<lambda>_. False) (is_pairing_confirmed env root c)"
proof -
  have "alwaysE (\<lambda>_. True) (\<lambda>_. False) (unverified_pairing_accepted env root c)"
    unfolding unverified_pairing_accepted_def by (rule always_try [OF always_any]) (simp_all add: always_return)
  then have asking: "alwaysE (\<lambda>_. True) (\<lambda>_. False) (stored_id_needs_asking env root c)"
    unfolding stored_id_needs_asking_def
    by (intro always_intros always_bind [where P = "\<lambda>_. True"]) simp_all
  have answer: "alwaysE (\<lambda>_. True) (\<lambda>_. False) (tryE (read_answer_file env root) (\<lambda>r. returnE (f r)))" for f :: "_ \<Rightarrow> bool"
    by (rule always_try [OF always_any]) (simp_all add: always_return)
  show ?thesis
    unfolding is_pairing_confirmed_def
    by (intro always_if always_return always_bind [OF asking] answer) simp_all
qed

lemma existing_never_fails: "alwaysE (\<lambda>_. True) (\<lambda>_. False) (existing_pairing_confirmed senv root)"
  unfolding existing_pairing_confirmed_def
  by (rule always_try [OF always_any]) (auto intro!: always_return always_cases confirmed_never_fails)

lemma always_walked_away: "alwaysE (\<lambda>out. out \<noteq> paired) (\<lambda>out. out \<noteq> paired) (walked_away senv root c)"
proof -
  have "alwaysE (\<lambda>_. True) (\<lambda>_. False) (bindE (existing_pairing_confirmed senv root) (\<lambda>confirmed.
      if confirmed then returnE None
      else tryE (persist_credential (pe_codec (su_answer senv)) root c) (\<lambda>r. returnE (Some r))))"
    by (rule always_bind [OF existing_never_fails]) (auto intro!: always_if always_return always_try [OF always_any])
  note locked = always_locked_result [OF always_on_world [OF this]]
  have retired: "alwaysE (\<lambda>_. True) R (retire_credential c)" for R :: "Outcome \<Rightarrow> bool"
    by (auto simp: retire_credential_def intro!: always_intros)
  have cleared: "alwaysE (\<lambda>_. True) R (on_world (clear_cached_version root))" for R :: "Outcome \<Rightarrow> bool"
    unfolding clear_cached_version_def ignoreE_def
    by (rule always_on_world, rule always_try [OF always_any]) (simp_all add: always_return)
  show ?thesis
    unfolding walked_away_def
    by (rule always_bind [OF locked])
      (auto intro!: always_throw always_return always_bind [OF retired] always_bind [OF cleared] split: sum.splits option.split)
qed

lemma always_give_up:
  assumes "\<And>b. out b \<noteq> paired"
  shows "alwaysE (\<lambda>out. out \<noteq> paired) (\<lambda>out. out \<noteq> paired) (give_up senv root c out)"
proof -
  have replacing: "alwaysE (\<lambda>_. True) R (replacing_confirmed senv root)" for R :: "Outcome \<Rightarrow> bool"
    unfolding replacing_confirmed_def by (rule always_try [OF always_any]) (simp_all add: always_return)
  have retired: "alwaysE (\<lambda>_. True) R (retire_credential c)" for R :: "Outcome \<Rightarrow> bool"
    by (auto simp: retire_credential_def intro!: always_intros)
  show ?thesis
    unfolding give_up_def
    by (rule always_bind [OF replacing], rule always_bind [OF retired], rule always_return) (rule assms)
qed

lemma always_settle:
  assumes "\<not> said_yes (su_answer senv) c mark seat"
  shows "alwaysE (\<lambda>out. out \<noteq> paired) (\<lambda>out. out \<noteq> paired) (settle_pairing senv root c mark seat)"
proof -
  have retired: "alwaysE (\<lambda>_. True) R (retire_credential c)" for R :: "Outcome \<Rightarrow> bool"
    by (auto simp: retire_credential_def intro!: always_intros)
  have wrong: "words_wrong identified b \<noteq> paired" "answered_no identified b \<noteq> paired" for identified b
    by (simp_all add: words_wrong_def answered_no_def)
  note give = always_give_up [where out = "words_wrong _", OF wrong(1)] always_give_up [where out = "answered_no _", OF wrong(2)]
  show ?thesis
    using assms unfolding settle_pairing_def said_yes_def Let_def
    by (cases mark)
      (auto intro!: give always_walked_away always_bind [OF retired] always_return split: MarkMatch.split TerminalDecision.split)
qed

lemma settle_holds: "\<not> said_yes (su_answer senv) c mark seat \<Longrightarrow> stays_held env root g (settle_pairing senv root c mark seat)"
  by (simp add: stays_held_def keeps_settle always_settle)

subsection \<open>The instance lock\<close>

context watched
begin

lemma keeps_acquire_existing:
  assumes "path_join data LOCK_FILENAME \<notin> files"
  shows "keepsE lifted (acquire_existing json now data)"
proof (rule keepsE_I)
  let ?p = "path_join data LOCK_FILENAME" and ?K = "\<lambda>_. lifted"
  fix s :: "locks \<times> world"
  assume s: "lifted s"
  obtain h w where hw: "s = (h, w)" by fastforce
  have I: "I w" using s by (simp add: hw lifted_def)
  define P where "P i v \<longleftrightarrow> I v \<and> node_at v ?p = Some (NFile i)" for i v
  have P: "P i v \<Longrightarrow> P i (tick v)" "P i v \<Longrightarrow> P i (put_data i b v)" "P i v \<Longrightarrow> lifted (h', v)" for i v b and h' :: locks
  proof -
    assume v: "P i v"
    then show "P i (tick v)" by (simp add: P_def tick_kept world_simps)
    have ok: "world_ok v" using v sound by (simp add: P_def)
    have "confined {?p} v (put_data i b v)"
      using v view_put_data [OF ok] ok by (auto simp: confined_def P_def world_simps)
    with v watching [of v "{?p}"] assms show "P i (put_data i b v)" by (simp add: P_def world_simps)
    from v show "lifted (h', v)" by (simp add: P_def lifted_def)
  qed
  have claim: "wpE (claim_lock json now i ?p) ?K ?K (h', v)" if "P i v" for i h' v
    unfolding claim_lock_def wpE_bind wpE_map_err
    apply (rule wp_flock)
    subgoal by (rule P(3) [OF P(1) [OF that]])
    subgoal by (simp add: P(3) [OF P(1) [OF that]])
    apply (simp add: Let_def)
    apply (rule wp_write_identity [where P = "P i"])
    using P that P(3) [of i] by auto
  have opened: "wpE (lock_io op ?p fs_seek) (\<lambda>_. wpE (claim_lock json now i ?p) ?K ?K) ?K (h', v)" if "P i v" for i h' v op
    unfolding lock_io_def
    apply (simp only: wpE_on_world prod.case wpE_map_err)
    apply (rule wp_seek)
    subgoal by (rule P(3) [OF P(1) [OF that]])
    by (rule claim [OF P(1) [OF that]])
  have open_it: "wpE (open_lock json now data False) ?K ?K (h', v)" if "I v" for h' v
    unfolding open_lock_def Let_def wpE_bind if_False wpE_return
    apply (rule wp_check_lock_target)
    subgoal using that tick_kept by (simp add: lifted_def)
    apply (subst lock_io_def)
    apply (simp only: wpE_on_world prod.case wpE_map_err)
    apply (rule wp_open_rdwr)
    subgoal using that tick_kept by (simp add: lifted_def)
    apply (rule opened)
    using that tick_kept by (simp add: P_def world_simps)
  show "wpE (acquire_existing json now data) ?K ?K s"
    unfolding acquire_existing_def hw wpE_try wpE_on_world prod.case
    apply (rule wp_lstat)
    subgoal using I tick_kept by (simp add: lifted_def EIO_def)
    subgoal using I tick_kept by (simp add: lifted_def)
    subgoal for n
      apply (cases n)
      subgoal using I tick_kept by (simp add: lifted_def)
      subgoal
        apply (simp only: sum.case node.case wpE_bind)
        apply (rule wp_check_lock_target)
        subgoal using I tick_kept by (simp add: lifted_def)
        using I tick_kept wpE_mono [OF open_it, where Q' = "\<lambda>_ s. I (snd s)" and R' = "\<lambda>_. lifted"] by (auto simp: lifted_def)
      subgoal using I tick_kept by (simp add: lifted_def)
      done
    done
qed

end

subsection \<open>The whole of setup\<close>

text \<open>The outcome is not that the pairing is made, and the pairing is not confirmed.\<close>

abbreviation held_result :: "pairing_env \<Rightarrow> path \<Rightarrow> string \<Rightarrow> Outcome \<Rightarrow> 'h \<times> world \<Rightarrow> bool" where
  "held_result env root g \<equiv> \<lambda>out s. out \<noteq> paired \<and> unconfirmed env root g (snd s)"

lemma stays_held_wp:
  assumes "stays_held env root g m" "unconfirmed env root g (snd s)"
  shows "wpE m (held_result env root g) (held_result env root g) s"
proof -
  have "keepsE (answer_file.lifted env root g) m" "alwaysE (\<lambda>out. out \<noteq> paired) (\<lambda>out. out \<noteq> paired) m"
    using assms(1) by (simp_all add: stays_held_def)
  from wpE_conj [OF answer_file.lifted_wp [OF this(1) assms(2)] always_wp [OF this(2)]]
  show ?thesis by (rule wpE_mono) auto
qed

lemma untouched_unconfirmed: "untouched env root g w \<Longrightarrow> unconfirmed env root g w"
  by (simp add: untouched_def)

lemma pair_wp:
  assumes pairer: "\<And>link label extra. pe_pairer senv link label extra = Inr c"
    and no: "\<not> said_yes (su_answer senv) c mark seat"
    and env: "answers_decode (su_answer senv)" "g \<noteq> []"
    and s: "untouched (su_answer senv) root g (snd s)"
  shows "wpE (pair_and_settle senv platform root input hostname seat mark)
    (held_result (su_answer senv) root g) (held_result (su_answer senv) root g) s"
proof (cases "check_mark mark seat SETUP_NO_TERMINAL")
  case (Some out)
  then have "out \<noteq> paired" by (auto simp: check_mark_def split: MarkOption.splits if_splits)
  then show ?thesis using s by (simp add: pair_and_settle_def Some untouched_unconfirmed)
next
  case None
  let ?E = "su_answer senv"
  have settled: "wpE (answer_locked senv root (on_world (grandfather_or_settle ?E root)))
      (\<lambda>_ s. untouched ?E root g (snd s)) (\<lambda>out s. out \<noteq> paired \<and> untouched ?E root g (snd s)) s"
    by (rule wpE_mono [OF wpE_conj [OF pairing_files.lifted_wp [OF pairing_files.keeps_answer_locked
            [OF answer_locks_apart(2) pairing_files.keeps_lift [OF keeps_grandfather [OF env]]] s] always_wp [OF always_locked]]])
      auto
  have settle: "wpE (settle_pairing senv root c mark seat) (held_result ?E root g) (held_result ?E root g) u"
    if "untouched ?E root g (snd u)" for u
    by (rule stays_held_wp [OF settle_holds [OF no] untouched_unconfirmed [OF that]])
  obtain label extra where identity: "pairing_ceremony_identity platform hostname = (label, extra)" by fastforce
  show ?thesis
    unfolding pair_and_settle_def None option.case wpE_bind
    by (rule wpE_mono [OF settled])
      (auto simp: ofD_def identity pairer untouched_unconfirmed settle split: sum.split)
qed

lemma finally_wp:
  assumes "wpE m (held_result env root g) (held_result env root g) s"
  shows "wpE (finally_release i m) (held_result env root g) (held_result env root g) s"
proof -
  have rel: "wpE (on_locks (release i)) (\<lambda>_ v. unconfirmed env root g (snd v)) R u" if "unconfirmed env root g (snd u)" for R u
    using that by (auto simp: wpE_def on_locks_def release_def modifyE_def split: prod.splits)
  show ?thesis
    unfolding finally_release_def wpE_try
    by (rule wpE_mono [OF assms]; simp; rule wpE_mono [OF rel]; simp)
qed

lemma setup_wp:
  assumes pairer: "\<And>link label extra. pe_pairer senv link label extra = Inr c"
    and no: "\<not> said_yes (su_answer senv) c mark seat"
    and env: "answers_decode (su_answer senv)" "g \<noteq> []"
    and root: "resolve_config_root platform environment = Inr root"
    and s: "untouched (su_answer senv) root g (snd s)"
  shows "wpE (run_setup senv platform environment input hostname seat mark)
    (held_result (su_answer senv) root g) (\<lambda>_ _. False) s"
proof -
  let ?E = "su_answer senv"
  let ?H = "held_result ?E root g"
  let ?U = "untouched ?E root g"
  note pair = pair_wp [OF pairer no env]
  have inner: "wpE (bindE (map_errE (\<lambda>_. Diagnostic SetupUnavailable) (on_world (ensure_private_directory root))) (\<lambda>_.
        bindE (diag (on_locks (acquire_private_state_lock root))) (\<lambda>i.
        finally_release i (pair_and_settle senv platform root input hostname seat mark)))) ?H ?H u"
    if u: "?U (snd u)" for u
  proof -
    have dir: "wpE (on_world (ensure_private_directory root)) (\<lambda>_ v. ?U (snd v)) (\<lambda>_ v. ?U (snd v)) u"
      by (rule pairing_files.lifted_wp [OF pairing_files.keeps_lift [OF pairing_files.keeps_quiet [OF confined_ensure_private]] u])
    have lock: "wpE (on_locks (acquire_private_state_lock root)) (\<lambda>_ v. ?U (snd v)) (\<lambda>_ v. ?U (snd v)) v" if "?U (snd v)" for v
      by (rule pairing_files.lifted_wp [OF pairing_files.keeps_on_locks [OF pairing_files.keeps_private_lock [OF answer_locks_apart(3)]] that])
    show ?thesis
      unfolding wpE_bind wpE_map_err diag_def
      apply (rule wpE_mono [OF dir])
      subgoal for x v
        by (rule wpE_mono [OF lock]) (auto simp: untouched_unconfirmed intro: finally_wp pair)
      by (simp add: untouched_unconfirmed)
  qed
  have lock: "wpE (on_locks (acquire_existing (pe_lock_json senv) (pe_now senv) data)) (\<lambda>_ v. ?U (snd v)) (\<lambda>_ v. ?U (snd v)) s" for data
  proof -
    have "path_join data LOCK_FILENAME \<notin> {root @ [ANSWER_FILENAME], root @ [CREDENTIALS_FILENAME]}"
      by (simp add: file_paths) (simp add: file_name_defs)
    from pairing_files.lifted_wp [OF pairing_files.keeps_on_locks [OF pairing_files.keeps_acquire_existing [OF this]] s]
    show ?thesis .
  qed
  show ?thesis
  proof (cases "resolve_data_root platform environment")
    case (Inl e)
    then show ?thesis using s by (simp add: run_setup_def Let_def untouched_unconfirmed)
  next
    case (Inr data)
    show ?thesis
      unfolding run_setup_def Let_def Inr sum.case root wpE_try wpE_bind wpE_map_err wpE_return
      apply (rule wpE_mono [OF lock])
      subgoal for l v
        by (cases l)
          (simp_all only: option.case, (rule wpE_mono [OF inner] wpE_mono [OF finally_wp [OF inner]]; simp)+)
      by (simp add: untouched_unconfirmed)
  qed
qed

lemma read_answer_spec:
  "wpE (read_answer_file env root)
     (\<lambda>x _. \<forall>r. x = Some r \<longrightarrow> (\<exists>b. view w (root @ [ANSWER_FILENAME]) = Some b \<and> pe_answer_parse env b = Some r)) (\<lambda>_ _. True) w"
  unfolding read_answer_file_def open_regular_readonly_def stage_io_def file_paths
  apply simp
  apply (rule wp_open_read)
  subgoal by (simp add: EIO_def)
  subgoal by simp
  subgoal by simp
  apply (rule wp_seek)
  subgoal by (simp add: EIO_def)
  by (auto simp: view_def world_simps split: node.split option.split intro!: wp_read_fd)

lemma unconfirmed_not_confirmed:
  assumes "unconfirmed env root (generation_hex env c) w"
  shows "fst ((is_pairing_confirmed env root c :: ('e, bool) io) w) = Inr False"
proof -
  let ?ask = "is_pairing_confirmed env root c :: ('e, bool) io"
  let ?I = "unconfirmed env root (generation_hex env c)"
  have asking: "keepsE ?I (stored_id_needs_asking env root c :: ('e, bool) io)"
    unfolding stored_id_needs_asking_def unverified_pairing_accepted_def
    by (intro keeps_intros answer_file.keeps_quiet confined_intros)
  have answer: "wpE (tryE (read_answer_file env root) (\<lambda>r. returnE (case r of
        Inr (Some a) \<Rightarrow> an_confirmed a \<noteq> [] \<and> an_confirmed a = generation_hex env c | _ \<Rightarrow> False)))
      (\<lambda>b _. \<not> b) (\<lambda>_ _. True :: bool) u" if "?I u" for u
    unfolding wpE_try
    apply (rule wpE_mono [OF read_answer_spec])
    subgoal for x t
      using that by (cases x) (auto simp: unconfirmed_def)
    by simp
  have "wpE ?ask (\<lambda>b _. \<not> b) (\<lambda>_ _. True) w"
    unfolding is_pairing_confirmed_def
    by (auto intro!: wpE_mono [OF keepsE_D [OF asking assms]] answer [simplified])
  moreover have "wpE ?ask (\<lambda>_ _. True) (\<lambda>_ _. False) w"
    by (rule always_wp [OF confirmed_never_fails])
  moreover obtain r u where "?ask w = (r, u)" by (rule prod.exhaust)
  ultimately show ?thesis by (cases r) (simp_all add: wpE_def)
qed


definition new_pairing :: Credential where
  "new_pairing = \<lparr>cr_client_key_pem = ''k'', cr_client_cert_pem = ''c'', cr_ca_chain_pem = [], cr_ca_fp_prefix = [],
     cr_instance_id = ''i'', cr_home_label = [], cr_endpoints = [], cr_home_attestation = None, cr_local_endpoints = None,
     cr_relay_origin = None, cr_device_token = None, cr_device_token_expires_at = None\<rparr>"

definition sample_setup :: setup_env where
  "sample_setup =
     \<lparr>su_answer = \<lparr>pe_codec = \<lparr>cc_json = \<lambda>_. Some ''x'', cc_parse = \<lambda>_. Some new_pairing\<rparr>,
        pe_answer_json = \<lambda>r. Some (an_confirmed r), pe_answer_parse = \<lambda>b. Some \<lparr>an_confirmed = b\<rparr>,
        pe_generation = \<lambda>_. replicate 32 NUL, pe_pinned = \<lambda>_ _. None, pe_mark = \<lambda>_. None, pe_lowercase = id, pe_others = id\<rparr>,
      pe_pairer = \<lambda>_ _ _. Inr new_pairing, pe_lock_json = \<lambda>_. Inr [], pe_now = 0\<rparr>"


end
