(* ===== verification/About.thy ===== *)
theory About
  imports Journal Answer
begin

text \<open>
  What a host says about itself (\<open>src/about.rs\<close>): the line that names a program, its version and its
  machine, the document the journal sends, and the line shown for the journal. JSON is a parameter:
  \<open>parse\<close> reads a value, \<open>unabout\<close> is serde's reading of the document from a value.
\<close>

subsection \<open>Control characters\<close>

text \<open>\<open>char::is_control\<close>: the general category Cc, as UTF-8\<close>

definition is_control :: "string \<Rightarrow> bool" where
  "is_control g =
     (case g of
        [b] \<Rightarrow> byte b < 32 \<or> byte b = 127
      | [a, b] \<Rightarrow> byte a = 194 \<and> 128 \<le> byte b \<and> byte b < 160
      | _ \<Rightarrow> False)"

definition has_control :: "string \<Rightarrow> bool" where
  "has_control s \<longleftrightarrow> list_ex is_control (utf8_chars s)"

definition trim_v :: "string \<Rightarrow> string" where
  "trim_v = dropWhile (\<lambda>c. c = CHR ''v'')"

subsection \<open>The line\<close>

definition SEPARATOR :: string where "SEPARATOR = [CHR 0x20, CHR 0xC2, CHR 0xB7, CHR 0x20]"

record About =
  ab_protocol_version :: nat
  ab_version :: string
  ab_build :: "string option"
  ab_os :: string
  ab_os_version :: string
  ab_arch :: string
  ab_about :: string

definition normalize_arch :: "string \<Rightarrow> string" where
  "normalize_arch raw =
     (if raw \<in> {''aarch64'', ''ARM64'', ''arm64-v8a'', ''arm64''} then ''arm64''
      else if raw \<in> {''amd64'', ''x64'', ''AMD64'', ''x86_64''} then ''x86_64''
      else raw)"

definition render_line :: "string \<Rightarrow> string \<Rightarrow> string option \<Rightarrow> string \<Rightarrow> string \<Rightarrow> string \<Rightarrow> string" where
  "render_line name version build os os_version arch =
     name @ '' '' @ trim_v version
     @ (case build of Some b \<Rightarrow> if b = [] then [] else '' ('' @ b @ '')'' | None \<Rightarrow> [])
     @ (if os = [] then [] else SEPARATOR @ os @ (if os_version = [] then [] else '' '' @ os_version))
     @ (if arch = [] then [] else SEPARATOR @ normalize_arch arch)"

definition about_valid :: "About \<Rightarrow> bool" where
  "about_valid a \<longleftrightarrow>
     ab_protocol_version a = 1
     \<and> ab_version a \<noteq> []
     \<and> (case ab_build a of None \<Rightarrow> True | Some b \<Rightarrow> b \<noteq> [])
     \<and> list_all (\<lambda>v. \<not> has_control v)
         ([ab_version a, ab_os a, ab_os_version a, ab_arch a, ab_about a]
          @ (case ab_build a of None \<Rightarrow> [] | Some b \<Rightarrow> [b]))
     \<and> length (ab_about a) \<le> 8192
     \<and> ab_about a = render_line ''journal'' (ab_version a) (ab_build a) (ab_os a) (ab_os_version a) (ab_arch a)"

definition decode_about :: "(bytes \<Rightarrow> json option) \<Rightarrow> (json \<Rightarrow> About option) \<Rightarrow> bytes \<Rightarrow> About option" where
  "decode_about parse unabout b =
     (case parse b of
        None \<Rightarrow> None
      | Some v \<Rightarrow>
          let build = (case v of JObject obj \<Rightarrow> map_of obj ''build'' | _ \<Rightarrow> None) in
          if is_some_and build (\<lambda>x. as_str_json x = None) then None
          else case unabout v of
            None \<Rightarrow> None
          | Some a \<Rightarrow> if about_valid a then Some a else None)"

subsection \<open>The machine\<close>

definition trim_quotes :: "string \<Rightarrow> string" where
  "trim_quotes s = (let q = (\<lambda>c. c = CHR 0x22 \<or> c = CHR 0x27) in rev (dropWhile q (rev (dropWhile q s))))"

definition release_value :: "string \<Rightarrow> string \<Rightarrow> string option" where
  "release_value key line =
     (case split_once (CHR ''='') line of
        None \<Rightarrow> None
      | Some (found, v) \<Rightarrow>
          if found \<noteq> key then None
          else let v = trim_quotes (trim v) in
            if v \<noteq> [] \<and> list_all (\<lambda>c. is_alnum c \<or> c \<in> set ''._-'') v then Some v else None)"

fun find_map :: "('a \<Rightarrow> 'b option) \<Rightarrow> 'a list \<Rightarrow> 'b option" where
  "find_map f [] = None"
| "find_map f (x # xs) = (case f x of Some y \<Rightarrow> Some y | None \<Rightarrow> find_map f xs)"

definition parse_os_release :: "string \<Rightarrow> string \<times> string" where
  "parse_os_release s =
     ((case find_map (release_value ''ID'') (str_lines s) of Some v \<Rightarrow> v | None \<Rightarrow> ''linux''),
      (case find_map (release_value ''VERSION_ID'') (str_lines s) of Some v \<Rightarrow> v | None \<Rightarrow> []))"

definition native_macos_arch :: "bool option \<Rightarrow> string option \<Rightarrow> string" where
  "native_macos_arch translated machine =
     (case translated of
        Some True \<Rightarrow> ''arm64''
      | Some False \<Rightarrow> (case machine of Some m \<Rightarrow> normalize_arch m | None \<Rightarrow> [])
      | None \<Rightarrow> [])"

subsection \<open>The journal's line\<close>

datatype JournalVersionStatus = VersionUnknown | LastKnown string | Current string

definition relative_age :: "nat \<Rightarrow> string \<Rightarrow> string" where
  "relative_age n unit_name = dec_of_nat n @ '' '' @ unit_name @ (if n = 1 then [] else ''s'') @ '' ago''"

definition age_text :: "nat \<Rightarrow> string" where
  "age_text seconds =
     (if seconds < 60 then ''just now''
      else if seconds < 3600 then relative_age (seconds div 60) ''minute''
      else if seconds < 86400 then relative_age (seconds div 3600) ''hour''
      else relative_age (seconds div 86400) ''day'')"

definition journal_line :: "JournalVersionStatus \<Rightarrow> About option \<Rightarrow> nat option \<Rightarrow> int \<Rightarrow> string" where
  "journal_line status facts seen_at now =
     (case (case status of VersionUnknown \<Rightarrow> None | Current v \<Rightarrow> Some (v, True) | LastKnown v \<Rightarrow> Some (v, False)) of
        None \<Rightarrow> ''journal unknown''
      | Some (version, current) \<Rightarrow>
          (case facts of
             Some a \<Rightarrow> if about_valid a \<and> trim_v (ab_version a) = trim_v version then ab_about a
                       else render_line ''journal'' version None [] [] []
           | None \<Rightarrow> render_line ''journal'' version None [] [] [])
          @ (case seen_at of
               Some seen \<Rightarrow> if current then [] else SEPARATOR @ ''last seen '' @ age_text (nat now - seen)
             | None \<Rightarrow> []))"

subsection \<open>Facts that are believed\<close>

lemma decode_about_valid: "decode_about parse unabout b = Some a \<Longrightarrow> about_valid a"
  by (auto simp: decode_about_def Let_def split: option.splits if_splits)

lemma find_map_Some: "find_map f xs = Some y \<Longrightarrow> \<exists>x\<in>set xs. f x = Some y"
  by (induction xs) (auto split: option.splits)

text \<open>What is read of a release file is a plain word.\<close>

lemma release_value_plain:
  "release_value key line = Some v \<Longrightarrow> v \<noteq> [] \<and> list_all (\<lambda>c. is_alnum c \<or> c \<in> set ''._-'') v"
  by (auto simp: release_value_def Let_def split: option.splits if_splits)

lemma parse_os_release_plain:
  "list_all (\<lambda>c. is_alnum c \<or> c \<in> set ''._-'') (fst (parse_os_release s))
   \<and> list_all (\<lambda>c. is_alnum c \<or> c \<in> set ''._-'') (snd (parse_os_release s)) \<and> fst (parse_os_release s) \<noteq> []"
proof -
  have "find_map (release_value k) (str_lines s) = Some v \<Longrightarrow>
      v \<noteq> [] \<and> list_all (\<lambda>c. is_alnum c \<or> c \<in> set ''._-'') v" for k v
    using find_map_Some [of "release_value k"] release_value_plain by blast
  moreover have "list_all (\<lambda>c. is_alnum c \<or> c \<in> set ''._-'') ''linux''" by code_simp
  ultimately show ?thesis by (auto simp: parse_os_release_def split: option.splits)
qed

text \<open>The line shown is the journal's own only when it is about the version shown.\<close>

lemma journal_line_own:
  assumes "\<And>a. facts = Some a \<Longrightarrow> \<not> (about_valid a \<and> trim_v (ab_version a) = trim_v v)"
  shows "journal_line (Current v) facts seen now = ''journal '' @ trim_v v"
  using assms by (auto simp: journal_line_def render_line_def split: option.splits)

end
