(* ===== verification/Version.thy ===== *)
theory Version
  imports Held About
begin

text \<open>
  The journal's version and facts, kept on disk (\<open>src/journal_version.rs\<close>): what is read of them,
  who may write them, and when. Parameters: the JSON of the record (with the two optional values that a
  corrupt text does not spoil given as JSON values) and of the documents of the lock and the health snapshot.
\<close>

definition JOURNAL_VERSION_LOCK_FILENAME :: string where "JOURNAL_VERSION_LOCK_FILENAME = ''journal-version.lock''"
definition JV_SCHEMA_VERSION :: nat where "JV_SCHEMA_VERSION = 1"

record JournalVersionRecord =
  jv_schema_version :: nat
  jv_instance_id :: string
  jv_ca_fp_prefix_hex :: string
  jv_version :: string
  jv_journal_name :: "string option"
  jv_about :: "About option"
  jv_version_seen_at :: "nat option"
  jv_confirmed :: bool
  jv_run_id :: string
  jv_lock_inode :: nat

record version_env =
  ve_json :: "JournalVersionRecord \<Rightarrow> bytes option"
  ve_parse :: "bytes \<Rightarrow> (JournalVersionRecord \<times> json option \<times> json option) option"
  ve_value :: "bytes \<Rightarrow> json option"
  ve_to_vec :: "json \<Rightarrow> bytes"
  ve_unabout :: "json \<Rightarrow> About option"
  ve_codec :: credential_codec
  ve_identity :: "bytes \<Rightarrow> RunIdentity option"
  ve_snapshot :: "bytes \<Rightarrow> HealthSnapshot option"

record VersionRefreshState =
  vr_config_root :: path
  vr_data_root :: path
  vr_instance_id :: string
  vr_ca_fp_prefix_hex :: string
  vr_run_identity :: RunIdentity

definition new_refresh :: "path \<Rightarrow> path \<Rightarrow> string \<Rightarrow> bytes \<Rightarrow> RunIdentity \<Rightarrow> VersionRefreshState" where
  "new_refresh conf dr instance_id prefix idt =
     \<lparr>vr_config_root = conf, vr_data_root = dr, vr_instance_id = instance_id,
      vr_ca_fp_prefix_hex = hex_encode prefix, vr_run_identity = idt\<rparr>"

subsection \<open>The record on disk\<close>

text \<open>A corrupt optional value is dropped, it does not spoil the record.\<close>

definition decode_optional_about :: "version_env \<Rightarrow> json option \<Rightarrow> About option" where
  "decode_optional_about env v =
     (case v of None \<Rightarrow> None | Some v \<Rightarrow> decode_about (ve_value env) (ve_unabout env) (ve_to_vec env v))"

definition decode_optional_seen_at :: "json option \<Rightarrow> nat option" where
  "decode_optional_seen_at v = Option.bind v as_u64"

definition decode_record :: "version_env \<Rightarrow> bytes \<Rightarrow> JournalVersionRecord option" where
  "decode_record env b =
     (case ve_parse env b of
        None \<Rightarrow> None
      | Some (r, about, seen) \<Rightarrow>
          Some (r\<lparr>jv_about := decode_optional_about env about, jv_version_seen_at := decode_optional_seen_at seen\<rparr>))"

definition read_record :: "version_env \<Rightarrow> path \<Rightarrow> ('e, JournalVersionRecord option) io" where
  "read_record env root =
     tryE (bindE (unitE (open_regular_readonly (path_join root JOURNAL_VERSION_FILENAME))) (\<lambda>i. unitE (fs_read_fd i))) (\<lambda>r.
       returnE (case r of Inl _ \<Rightarrow> None | Inr b \<Rightarrow> decode_record env b))"

definition store_record :: "version_env \<Rightarrow> path \<Rightarrow> JournalVersionRecord \<Rightarrow> (DiagnosticCode, unit) io" where
  "store_record env root r =
     (case ve_json env r of
        None \<Rightarrow> throwE PrivateStateInvalid
      | Some b \<Rightarrow> map_errE write_failure (atomic_write_bytes (path_join root JOURNAL_VERSION_FILENAME) root b))"

subsection \<open>Reading it\<close>

definition live_run :: "ExistingLock \<Rightarrow> string \<Rightarrow> nat \<Rightarrow> bool" where
  "live_run lock run inode = (case lock of Locked idt \<Rightarrow> run_id idt = run \<and> lock_inode idt = inode | _ \<Rightarrow> False)"

definition same_journal :: "JournalVersionRecord \<Rightarrow> string \<Rightarrow> string \<Rightarrow> bool" where
  "same_journal r instance_id prefix_hex \<longleftrightarrow> jv_instance_id r = instance_id \<and> jv_ca_fp_prefix_hex r = prefix_hex"

definition read_journal_about ::
  "version_env \<Rightarrow> path \<Rightarrow> path \<Rightarrow> int \<Rightarrow> ('e, JournalVersionStatus \<times> About option \<times> nat option) lockio" where
  "read_journal_about env conf dr now =
     bindE (on_world (read_record env conf)) (\<lambda>found.
     case found of
       None \<Rightarrow> returnE (VersionUnknown, None, None)
     | Some r \<Rightarrow>
         tryE (on_world (load_credential (ve_codec env) conf)) (\<lambda>loaded.
         case loaded of
           Inr (Some c) \<Rightarrow>
             if \<not> same_journal r (cr_instance_id c) (hex_encode (cr_ca_fp_prefix c))
             then returnE (VersionUnknown, None, None)
             else
               bindE (inspect_existing (ve_identity env) dr) (\<lambda>lock.
               bindE (read_status_health (ve_snapshot env) (ve_identity env) dr now) (\<lambda>health.
               returnE
                 ((if live_run lock (jv_run_id r) (jv_lock_inode r) \<and> jv_confirmed r
                      \<and> (health = StatusLive Connected \<or> health = StatusLive Syncing)
                   then Current (jv_version r) else LastKnown (jv_version r)),
                  jv_about r, jv_version_seen_at r)))
         | _ \<Rightarrow> returnE (VersionUnknown, None, None)))"

definition read_journal_version ::
  "version_env \<Rightarrow> path \<Rightarrow> path \<Rightarrow> int \<Rightarrow> ('e, JournalVersionStatus) lockio" where
  "read_journal_version env conf dr now =
     bindE (read_journal_about env conf dr now) (\<lambda>(status, _, _). returnE status)"

definition sanitize_for_terminal :: "string \<Rightarrow> string" where
  "sanitize_for_terminal v =
     concat (map (\<lambda>g. if is_control g then [] else if g = ''#'' then ''##'' else g) (utf8_chars v))"

definition render_status :: "JournalVersionStatus \<Rightarrow> string" where
  "render_status s =
     (case s of
        VersionUnknown \<Rightarrow> ''unknown''
      | LastKnown v \<Rightarrow> sanitize_for_terminal v @ '' (last known)''
      | Current v \<Rightarrow> sanitize_for_terminal v)"

subsection \<open>Writing it\<close>

definition identity_and_credential_live :: "version_env \<Rightarrow> VersionRefreshState \<Rightarrow> ('e, bool) lockio" where
  "identity_and_credential_live env vr =
     bindE (inspect_existing (ve_identity env) (vr_data_root vr)) (\<lambda>lock.
     if \<not> live_run lock (run_id (vr_run_identity vr)) (lock_inode (vr_run_identity vr)) then returnE False
     else tryE (on_world (load_credential (ve_codec env) (vr_config_root vr))) (\<lambda>loaded.
       returnE (case loaded of
         Inr (Some c) \<Rightarrow> cr_instance_id c = vr_instance_id vr \<and> hex_encode (cr_ca_fp_prefix c) = vr_ca_fp_prefix_hex vr
       | _ \<Rightarrow> False)))"

text \<open>
  What a publication brings: the version (with the journal's name where the answer had one), or the facts.
\<close>

datatype publication =
  JournalInfo (pb_name: "string option option") (pb_version: string)
| JournalFacts (pb_about: About)

definition acceptable :: "publication \<Rightarrow> bool" where
  "acceptable p =
     (case p of
        JournalInfo _ v \<Rightarrow> trim v \<noteq> [] \<and> \<not> has_control (trim v)
      | JournalFacts a \<Rightarrow> about_valid a)"

definition info_record ::
  "VersionRefreshState \<Rightarrow> nat option \<Rightarrow> string option option \<Rightarrow> string \<Rightarrow> JournalVersionRecord option \<Rightarrow> JournalVersionRecord" where
  "info_record vr seen name v existing =
     \<lparr>jv_schema_version = JV_SCHEMA_VERSION, jv_instance_id = vr_instance_id vr,
      jv_ca_fp_prefix_hex = vr_ca_fp_prefix_hex vr, jv_version = v,
      jv_journal_name = (case name of Some n \<Rightarrow> n | None \<Rightarrow> Option.bind existing jv_journal_name),
      jv_about =
        (case existing of
           Some r \<Rightarrow> if same_journal r (vr_instance_id vr) (vr_ca_fp_prefix_hex vr) \<and> trim_v (jv_version r) = trim_v v
                     then jv_about r else None
         | None \<Rightarrow> None),
      jv_version_seen_at = seen, jv_confirmed = True,
      jv_run_id = run_id (vr_run_identity vr), jv_lock_inode = lock_inode (vr_run_identity vr)\<rparr>"

definition facts_record :: "VersionRefreshState \<Rightarrow> About \<Rightarrow> JournalVersionRecord option \<Rightarrow> JournalVersionRecord option" where
  "facts_record vr a existing =
     (case existing of
        None \<Rightarrow> None
      | Some r \<Rightarrow>
          if \<not> same_journal r (vr_instance_id vr) (vr_ca_fp_prefix_hex vr) \<or> trim_v (jv_version r) \<noteq> trim_v (ab_version a)
          then None else Some (r\<lparr>jv_about := Some a\<rparr>))"

definition published_record ::
  "VersionRefreshState \<Rightarrow> int \<Rightarrow> publication \<Rightarrow> JournalVersionRecord option \<Rightarrow> JournalVersionRecord option" where
  "published_record vr now p existing =
     (case p of
        JournalInfo name v \<Rightarrow> Some (info_record vr (if 0 \<le> now then Some (nat now) else None) name (trim v) existing)
      | JournalFacts a \<Rightarrow> facts_record vr a existing)"

subsection \<open>Publications and new sessions\<close>

text \<open>
  A publication takes the guard of this process and then the lock of the file, for which it may wait; with
  both it compares its attempt with the generation, and only then looks at the disk and writes. The
  generation is an atomic of its own: a session that starts, an attempt that is captured, and the
  session's end advance it at any moment, and a deadline advances it if its attempt is still the current one.
\<close>

type_synonym u64 = "64 word"

datatype phase = Free | Waiting u64 publication nat | Publishing u64 publication nat

record version_run =
  vs_generation :: u64
  vs_phase :: phase
  vs_disk :: "locks \<times> world"
  vs_published :: "(u64 \<times> JournalVersionRecord \<times> bool) list"

datatype version_event =
  Refreshed
| Expired u64
| BegunPublication u64 publication
| LockTried
| Published int

definition begin_refresh :: "version_run \<Rightarrow> u64 \<times> version_run" where
  "begin_refresh vs = (let n = vs_generation vs + 1 in (n, vs\<lparr>vs_generation := n\<rparr>))"

definition expire_metadata_attempt :: "u64 \<Rightarrow> version_run \<Rightarrow> version_run" where
  "expire_metadata_attempt a vs = (if vs_generation vs = a then vs\<lparr>vs_generation := a + 1\<rparr> else vs)"

definition metadata_attempt_is_current :: "u64 \<Rightarrow> version_run \<Rightarrow> bool" where
  "metadata_attempt_is_current a vs \<longleftrightarrow> vs_generation vs = a"

definition open_write_lock :: "path \<Rightarrow> (io_error, nat) io" where
  "open_write_lock root = fs_open_create (path_join root JOURNAL_VERSION_LOCK_FILENAME)"

text \<open>Under the locks: what is live, what is there, and the write. \<open>Inr None\<close>: nothing was written.\<close>

definition publish ::
  "version_env \<Rightarrow> VersionRefreshState \<Rightarrow> int \<Rightarrow> publication \<Rightarrow> ('e, (JournalVersionRecord \<times> bool) option) lockio" where
  "publish env vr now p =
     bindE (identity_and_credential_live env vr) (\<lambda>alive.
     if \<not> alive then returnE None
     else
       bindE (on_world (read_record env (vr_config_root vr))) (\<lambda>existing.
       case published_record vr now p existing of
         None \<Rightarrow> returnE None
       | Some r \<Rightarrow>
           tryE (on_world (store_record env (vr_config_root vr) r)) (\<lambda>written.
           returnE (Some (r, case written of Inr _ \<Rightarrow> True | Inl _ \<Rightarrow> False)))))"

fun version_step :: "version_env \<Rightarrow> VersionRefreshState \<Rightarrow> version_event \<Rightarrow> version_run \<Rightarrow> version_run" where
  "version_step env vr Refreshed vs = snd (begin_refresh vs)"
| "version_step env vr (Expired a) vs = expire_metadata_attempt a vs"
| "version_step env vr (BegunPublication a p) vs =
     (if vs_phase vs \<noteq> Free \<or> \<not> acceptable p then vs
      else case on_world (open_write_lock (vr_config_root vr)) (vs_disk vs) of
        (Inl _, d) \<Rightarrow> vs\<lparr>vs_disk := d\<rparr>
      | (Inr i, d) \<Rightarrow> vs\<lparr>vs_disk := d, vs_phase := Waiting a p i\<rparr>)"
| "version_step env vr LockTried vs =
     (case vs_phase vs of
        Waiting a p i \<Rightarrow>
          (case flock_exclusive i (vs_disk vs) of
             (Inl _, d) \<Rightarrow> vs\<lparr>vs_disk := d, vs_phase := Free\<rparr>
           | (Inr False, d) \<Rightarrow> vs\<lparr>vs_disk := d\<rparr>
           | (Inr True, d) \<Rightarrow>
               if metadata_attempt_is_current a vs then vs\<lparr>vs_disk := d, vs_phase := Publishing a p i\<rparr>
               else vs\<lparr>vs_disk := snd ((release i :: (unit, unit) lockio) d), vs_phase := Free\<rparr>)
      | _ \<Rightarrow> vs)"
| "version_step env vr (Published now) vs =
     (case vs_phase vs of
        Publishing a p i \<Rightarrow>
          (case (publish env vr now p :: (unit, _) lockio) (vs_disk vs) of
             (r, d) \<Rightarrow>
               vs\<lparr>vs_disk := snd ((release i :: (unit, unit) lockio) d), vs_phase := Free,
                  vs_published :=
                    (case r of Inr (Some (r, written)) \<Rightarrow> [(a, r, written)] | _ \<Rightarrow> []) @ vs_published vs\<rparr>)
      | _ \<Rightarrow> vs)"

definition version_runs :: "version_env \<Rightarrow> VersionRefreshState \<Rightarrow> version_event list \<Rightarrow> version_run \<Rightarrow> version_run" where
  "version_runs env vr events vs = fold (version_step env vr) events vs"

definition fresh_run :: "locks \<times> world \<Rightarrow> version_run" where
  "fresh_run d = \<lparr>vs_generation = 0, vs_phase = Free, vs_disk = d, vs_published = []\<rparr>"

subsection \<open>No stale publication lands\<close>

context watched
begin

lemma lifted_run: "keepsE lifted m \<Longrightarrow> m s = (r, d) \<Longrightarrow> I (snd s) \<Longrightarrow> I (snd d)"
  unfolding keepsE_def lifted_def by (metis snd_conv)

lemma keeps_open_rdwr: "keepsE I (fs_open_rdwr p)"
  by (rule keepsE_I, rule wp_open_rdwr) (simp_all add: tick_kept)

lemma keeps_inspect: "keepsE lifted (inspect_existing u d)"
  unfolding inspect_existing_def
  by (intro keeps_intros keeps_lift keeps_open_rdwr keeps_flock keeps_release keeps_quiet confined_intros)

lemma keeps_live: "keepsE lifted (identity_and_credential_live env vr)"
  unfolding identity_and_credential_live_def
  by (intro keeps_intros keeps_lift keeps_inspect keeps_load)

lemma keeps_write_lock: "path_join root JOURNAL_VERSION_LOCK_FILENAME \<notin> files \<Longrightarrow> keepsE I (open_write_lock root)"
  unfolding open_write_lock_def by (rule keeps_below [OF confined_open_create [OF singletonI]]) simp

end

definition version_file :: "path \<Rightarrow> path" where
  "version_file root = root @ [JOURNAL_VERSION_FILENAME]"

interpretation version_watch: watched "\<lambda>w. world_ok w \<and> view w (version_file root) = v" "{version_file root}" for root v
  by unfold_locales (auto simp: confined_def)

lemma version_names: "plain_name JOURNAL_VERSION_FILENAME" "plain_name JOURNAL_VERSION_LOCK_FILENAME"
  "JOURNAL_VERSION_FILENAME \<noteq> JOURNAL_VERSION_LOCK_FILENAME"
  unfolding plain_name_def JOURNAL_VERSION_FILENAME_def JOURNAL_VERSION_LOCK_FILENAME_def
  by (simp_all del: valid_utf8.simps add: valid_utf8_ascii)

lemma version_paths: "path_join root JOURNAL_VERSION_FILENAME = version_file root"
  "path_join root JOURNAL_VERSION_LOCK_FILENAME \<notin> {version_file root}"
  using version_names by (simp_all add: version_file_def path_join_plain_name)

lemma read_record_spec:
  assumes "world_ok w"
  shows "wpE (read_record env root)
     (\<lambda>x u. (world_ok u \<and> view u (version_file root) = view w (version_file root))
        \<and> (\<forall>r. x = Some r \<longrightarrow> (\<exists>b. view w (version_file root) = Some b \<and> decode_record env b = Some r))) (\<lambda>_ _. False) w"
  unfolding read_record_def open_regular_readonly_def stage_io_def version_paths
  apply simp
  apply (rule wp_open_read)
  subgoal using assms by (simp add: EIO_def world_simps)
  subgoal using assms by (simp add: world_simps)
  subgoal using assms by (simp add: world_simps)
  apply (rule wp_seek)
  subgoal using assms by (simp add: EIO_def world_simps)
  using assms by (auto simp: view_def world_simps split: node.split option.split intro!: wp_read_fd)

lemma store_record_spec:
  assumes "world_ok w"
  shows "wpE (store_record env root r)
     (\<lambda>_ u. world_ok u \<and> (\<exists>b. ve_json env r = Some b \<and> view u (version_file root) = Some b))
     (\<lambda>_ u. world_ok u \<and> (view u (version_file root) = view w (version_file root)
        \<or> (\<exists>b. ve_json env r = Some b \<and> view u (version_file root) = Some b))) w"
  using wpE_mono [OF atomic_write_bytes_spec [OF assms version_names(1), of root]] assms
  by (auto simp: store_record_def version_paths version_file_def replaced_ok_def replaced_err_def only_touches_def
      split: option.split)

text \<open>Facts that belong to the version they stand beside\<close>

definition facts_fit :: "JournalVersionRecord \<Rightarrow> bool" where
  "facts_fit r \<longleftrightarrow> (\<forall>a. jv_about r = Some a \<longrightarrow> about_valid a \<and> trim_v (ab_version a) = trim_v (jv_version r))"

lemma published_record_fits:
  assumes "published_record vr now p existing = Some r" "acceptable p" "\<And>e. existing = Some e \<Longrightarrow> facts_fit e"
  shows "facts_fit r" "same_journal r (vr_instance_id vr) (vr_ca_fp_prefix_hex vr)"
  using assms
  by (auto simp: published_record_def info_record_def facts_record_def facts_fit_def same_journal_def acceptable_def
      split: publication.splits option.splits if_splits)

definition after_write :: "version_env \<Rightarrow> path \<Rightarrow> bytes option \<Rightarrow> (JournalVersionRecord \<times> bool) option \<Rightarrow> world \<Rightarrow> bool" where
  "after_write env root v x u \<longleftrightarrow> world_ok u \<and>
     (case x of
        None \<Rightarrow> view u (version_file root) = v
      | Some (r, written) \<Rightarrow> (\<not> written \<and> view u (version_file root) = v)
          \<or> (\<exists>b. ve_json env r = Some b \<and> view u (version_file root) = Some b))"

lemma publish_spec:
  fixes env vr
  defines "root \<equiv> vr_config_root vr"
  assumes ok: "world_ok w" "view w (version_file root) = v" and p: "acceptable p"
    and fits: "\<And>b r. v = Some b \<Longrightarrow> decode_record env b = Some r \<Longrightarrow> facts_fit r"
  shows "wpE (publish env vr now p)
     (\<lambda>x s. after_write env root v x (snd s)
        \<and> (\<forall>r b. x = Some (r, b) \<longrightarrow> facts_fit r \<and> same_journal r (vr_instance_id vr) (vr_ca_fp_prefix_hex vr)))
     (\<lambda>_ s. after_write env root v None (snd s)) (h, w)"
proof -
  have live: "wpE (identity_and_credential_live env vr) (\<lambda>_ s. world_ok (snd s) \<and> view (snd s) (version_file root) = v)
      (\<lambda>_ s. world_ok (snd s) \<and> view (snd s) (version_file root) = v) (h, w)"
    using version_watch.lifted_wp [OF version_watch.keeps_live, where s = "(h, w)"] ok by simp
  have put: "wpE (store_record env root r)
      (\<lambda>_ u. after_write env root v (Some (r, True)) u) (\<lambda>_ u. after_write env root v (Some (r, False)) u) u"
    if "world_ok u" "view u (version_file root) = v" for r u
    by (rule wpE_mono [OF store_record_spec [OF that(1)]]) (use that(2) in \<open>auto simp: after_write_def\<close>)
  have rest: "wpE (bindE (on_world (read_record env root)) (\<lambda>existing.
       case published_record vr now p existing of
         None \<Rightarrow> returnE None
       | Some r \<Rightarrow>
           tryE (on_world (store_record env root r)) (\<lambda>written.
           returnE (Some (r, case written of Inr _ \<Rightarrow> True | Inl _ \<Rightarrow> False)))))
     (\<lambda>x s. after_write env root v x (snd s)
        \<and> (\<forall>r b. x = Some (r, b) \<longrightarrow> facts_fit r \<and> same_journal r (vr_instance_id vr) (vr_ca_fp_prefix_hex vr)))
     (\<lambda>_ s. after_write env root v None (snd s)) (l, u)"
    if u: "world_ok u" "view u (version_file root) = v" for l u
    unfolding wpE_bind wpE_on_world prod.case
  proof (rule wpE_mono [OF read_record_spec [OF u(1)]])
    fix x t
    assume x: "(world_ok t \<and> view t (version_file root) = view u (version_file root))
      \<and> (\<forall>r. x = Some r \<longrightarrow> (\<exists>b. view u (version_file root) = Some b \<and> decode_record env b = Some r))"
    then have t: "world_ok t" "view t (version_file root) = v" and e: "\<And>e. x = Some e \<Longrightarrow> facts_fit e"
      using u fits by auto
    show "wpE (case published_record vr now p x of None \<Rightarrow> returnE None
       | Some r \<Rightarrow> tryE (on_world (store_record env root r)) (\<lambda>written.
           returnE (Some (r, case written of Inr _ \<Rightarrow> True | Inl _ \<Rightarrow> False))))
       (\<lambda>x s. after_write env root v x (snd s)
        \<and> (\<forall>r b. x = Some (r, b) \<longrightarrow> facts_fit r \<and> same_journal r (vr_instance_id vr) (vr_ca_fp_prefix_hex vr)))
       (\<lambda>_ s. after_write env root v None (snd s)) (l, t)"
    proof (cases "published_record vr now p x")
      case None
      then show ?thesis using t by (simp add: after_write_def)
    next
      case (Some r)
      with published_record_fits [OF Some p e] t show ?thesis
        by (auto simp: wpE_try intro!: wpE_mono [OF put])
    qed
  qed simp
  show ?thesis
    unfolding publish_def root_def [symmetric]
    apply (subst wpE_bind)
    apply (rule wpE_mono [OF live])
    subgoal for alive s
      using rest [of "snd s" "fst s"] by (cases alive) (simp_all add: after_write_def del: wpE_bind)
    by (simp add: after_write_def)
qed

text \<open>What the file may hold after a row of publications, the newest first\<close>

fun landed :: "version_env \<Rightarrow> bytes option \<Rightarrow> (u64 \<times> JournalVersionRecord \<times> bool) list \<Rightarrow> bytes option set" where
  "landed env v [] = {v}"
| "landed env v ((_, r, written) # ps) =
     {Some b | b. ve_json env r = Some b} \<union> (if written then {} else landed env v ps)"

definition version_codec_ok :: "version_env \<Rightarrow> bool" where
  "version_codec_ok env \<longleftrightarrow> (\<forall>r b. ve_json env r = Some b \<longrightarrow> facts_fit r \<longrightarrow> decode_record env b = Some r)"

definition holds_fitting :: "version_env \<Rightarrow> bytes option \<Rightarrow> bool" where
  "holds_fitting env v \<longleftrightarrow> (\<forall>b r. v = Some b \<longrightarrow> decode_record env b = Some r \<longrightarrow> facts_fit r)"

definition newest_first :: "(u64 \<times> JournalVersionRecord \<times> bool) list \<Rightarrow> bool" where
  "newest_first ps \<longleftrightarrow> sorted_wrt (\<lambda>x y. unat (fst y) \<le> unat (fst x)) ps"

definition genuine :: "VersionRefreshState \<Rightarrow> (u64 \<times> JournalVersionRecord \<times> bool) list \<Rightarrow> bool" where
  "genuine vr ps \<longleftrightarrow>
     list_all (\<lambda>(_, r, _). facts_fit r \<and> same_journal r (vr_instance_id vr) (vr_ca_fp_prefix_hex vr)) ps"

lemma landed_fits:
  assumes "version_codec_ok env" "holds_fitting env v" "genuine vr ps" "x \<in> landed env v ps"
  shows "holds_fitting env x"
  using assms(3,4)
proof (induction ps)
  case (Cons p ps)
  show ?case
    using Cons assms(1) by (cases p) (auto simp: genuine_def holds_fitting_def version_codec_ok_def split: if_splits)
qed (use assms(2) in simp)

definition in_phase :: "version_run \<Rightarrow> bool" where
  "in_phase vs \<longleftrightarrow>
     (case vs_phase vs of
        Free \<Rightarrow> True
      | Waiting a p i \<Rightarrow> acceptable p
      | Publishing a p i \<Rightarrow> acceptable p \<and> unat a \<le> unat (vs_generation vs)
          \<and> (\<forall>x\<in>set (vs_published vs). unat (fst x) \<le> unat a))"

definition version_inv :: "version_env \<Rightarrow> VersionRefreshState \<Rightarrow> bytes option \<Rightarrow> nat \<Rightarrow> version_run \<Rightarrow> bool" where
  "version_inv env vr v n vs \<longleftrightarrow>
     world_ok (snd (vs_disk vs)) \<and> unat (vs_generation vs) + n < 2 ^ 64
     \<and> view (snd (vs_disk vs)) (version_file (vr_config_root vr)) \<in> landed env v (vs_published vs)
     \<and> newest_first (vs_published vs) \<and> genuine vr (vs_published vs)
     \<and> (\<forall>x\<in>set (vs_published vs). unat (fst x) \<le> unat (vs_generation vs)) \<and> in_phase vs"

lemma bump_unat: "unat (g :: u64) + Suc n < 2 ^ 64 \<Longrightarrow> unat (g + 1) = Suc (unat g)"
  using unat_add_lem [of g 1] by simp

lemma genuine_Cons: "genuine vr ((a, r, b) # ps) \<longleftrightarrow>
    facts_fit r \<and> same_journal r (vr_instance_id vr) (vr_ca_fp_prefix_hex vr) \<and> genuine vr ps"
  by (simp add: genuine_def)

text \<open>A step that leaves the file and what was published alone\<close>

lemma version_quiet:
  assumes "version_inv env vr v (Suc n) vs" "vs_published vs' = vs_published vs"
    and "world_ok (snd (vs_disk vs'))
      \<and> view (snd (vs_disk vs')) (version_file (vr_config_root vr)) = view (snd (vs_disk vs)) (version_file (vr_config_root vr))"
    and "vs_generation vs' = vs_generation vs \<or> vs_generation vs' = vs_generation vs + 1"
    and "in_phase vs'"
  shows "version_inv env vr v n vs'"
  using assms bump_unat [of "vs_generation vs" n] by (auto simp: version_inv_def)

lemma version_inv_bump:
  assumes "version_inv env vr v (Suc n) vs"
  shows "version_inv env vr v n (vs\<lparr>vs_generation := vs_generation vs + 1\<rparr>)" "version_inv env vr v n vs"
proof -
  have "in_phase (vs\<lparr>vs_generation := vs_generation vs + 1\<rparr>)"
    using assms bump_unat [of "vs_generation vs" n]
    by (auto simp: version_inv_def in_phase_def split: phase.splits)
  then show "version_inv env vr v n (vs\<lparr>vs_generation := vs_generation vs + 1\<rparr>)"
    by (intro version_quiet [OF assms]) (use assms in \<open>simp_all add: version_inv_def\<close>)
  show "version_inv env vr v n vs" using assms by (auto simp: version_inv_def)
qed

lemma release_disk: "snd ((release i :: (unit, unit) lockio) d) = (fst d\<lparr>lk_held := remove1 i (lk_held (fst d))\<rparr>, snd d)"
  by (cases d) (simp add: release_def modifyE_def)

lemma lock_kept:
  assumes "world_ok (snd d)" "flock_exclusive i d = (r, d')"
  shows "world_ok (snd d') \<and> view (snd d') q = view (snd d) q"
  using assms by (cases d) (auto simp: flock_exclusive_def world_simps split: outcome.splits if_splits)

lemma version_inv_begun:
  assumes "version_inv env vr v (Suc n) vs"
  shows "version_inv env vr v n (version_step env vr (BegunPublication a p) vs)"
proof (cases "vs_phase vs \<noteq> Free \<or> \<not> acceptable p")
  case False
  obtain r d where d: "on_world (open_write_lock (vr_config_root vr)) (vs_disk vs) = (r, d)" by (rule prod.exhaust)
  let ?v = "view (snd (vs_disk vs)) (version_file (vr_config_root vr))"
  have "world_ok (snd d) \<and> view (snd d) (version_file (vr_config_root vr)) = ?v"
    by (rule version_watch.lifted_run [OF version_watch.keeps_lift [OF version_watch.keeps_write_lock [OF version_paths(2)]] d])
      (use assms in \<open>simp add: version_inv_def\<close>)
  with False d assms version_quiet [OF assms] show ?thesis
    by (cases r) (auto simp: in_phase_def version_inv_def)
qed (use version_inv_bump(2) [OF assms] in auto)

lemma version_inv_lock:
  assumes "version_inv env vr v (Suc n) vs"
  shows "version_inv env vr v n (version_step env vr LockTried vs)"
proof (cases "vs_phase vs")
  case (Waiting a p i)
  obtain r d where d: "flock_exclusive i (vs_disk vs) = (r, d)" by (rule prod.exhaust)
  have k: "world_ok (snd d) \<and> view (snd d) q = view (snd (vs_disk vs)) q" for q
    using lock_kept [OF _ d] assms by (simp add: version_inv_def)
  from Waiting assms have "acceptable p" by (simp add: version_inv_def in_phase_def)
  with Waiting d k assms show ?thesis
    by (cases r) (auto simp: metadata_attempt_is_current_def release_disk in_phase_def version_inv_def
        split: bool.splits intro!: version_quiet [OF assms])
qed (use version_inv_bump(2) [OF assms] in auto)

lemma version_inv_published:
  assumes inv: "version_inv env vr v (Suc n) vs" and codec: "version_codec_ok env" and start: "holds_fitting env v"
  shows "version_inv env vr v n (version_step env vr (Published now) vs)"
proof (cases "vs_phase vs")
  case (Publishing a p i)
  let ?root = "vr_config_root vr"
  let ?v = "view (snd (vs_disk vs)) (version_file ?root)"
  obtain r d where d: "(publish env vr now p :: (unit, _) lockio) (vs_disk vs) = (r, d)" by (rule prod.exhaust)
  have p: "acceptable p" "unat a \<le> unat (vs_generation vs)" "\<And>x. x \<in> set (vs_published vs) \<Longrightarrow> unat (fst x) \<le> unat a"
    using inv Publishing by (auto simp: version_inv_def in_phase_def)
  have there: "?v \<in> landed env v (vs_published vs)" "genuine vr (vs_published vs)" "world_ok (snd (vs_disk vs))"
    using inv by (simp_all add: version_inv_def)
  have "wpE (publish env vr now p :: (unit, _) lockio)
     (\<lambda>x s. after_write env ?root ?v x (snd s)
        \<and> (\<forall>r b. x = Some (r, b) \<longrightarrow> facts_fit r \<and> same_journal r (vr_instance_id vr) (vr_ca_fp_prefix_hex vr)))
     (\<lambda>_ s. after_write env ?root ?v None (snd s)) (fst (vs_disk vs), snd (vs_disk vs))"
    by (rule publish_spec) (use there p landed_fits [OF codec start there(2,1)] in \<open>auto simp: holds_fitting_def\<close>)
  then have *: "case r of
      Inr x \<Rightarrow> after_write env ?root ?v x (snd d)
        \<and> (\<forall>r b. x = Some (r, b) \<longrightarrow> facts_fit r \<and> same_journal r (vr_instance_id vr) (vr_ca_fp_prefix_hex vr))
    | Inl _ \<Rightarrow> after_write env ?root ?v None (snd d)"
    using d by (auto simp: wpE_def split: sum.splits)
  let ?new = "case r of Inr (Some (r, written)) \<Rightarrow> [(a, r, written)] | _ \<Rightarrow> []"
  have step: "version_step env vr (Published now) vs =
      vs\<lparr>vs_disk := snd ((release i :: (unit, unit) lockio) d), vs_phase := Free, vs_published := ?new @ vs_published vs\<rparr>"
    using Publishing d by simp
  have "view (snd d) (version_file ?root) \<in> landed env v (?new @ vs_published vs)" "world_ok (snd d)"
      "genuine vr (?new @ vs_published vs)"
    using * there by (auto simp: after_write_def genuine_Cons split: sum.splits option.splits)
  moreover have "newest_first (?new @ vs_published vs)" "\<forall>x\<in>set (?new @ vs_published vs). unat (fst x) \<le> unat (vs_generation vs)"
    using inv p by (auto simp: version_inv_def newest_first_def split: sum.splits option.splits)
  ultimately show ?thesis
    unfolding step using inv by (simp add: version_inv_def release_disk in_phase_def)
qed (use version_inv_bump(2) [OF inv] in auto)

lemma version_inv_step:
  assumes "version_inv env vr v (Suc n) vs" "version_codec_ok env" "holds_fitting env v"
  shows "version_inv env vr v n (version_step env vr e vs)"
proof (cases e)
  case Refreshed
  then show ?thesis using version_inv_bump(1) [OF assms(1)] by (simp add: begin_refresh_def Let_def)
next
  case (Expired a)
  then show ?thesis
    using version_inv_bump [OF assms(1)] by (auto simp: expire_metadata_attempt_def)
next
  case (BegunPublication a p)
  then show ?thesis using version_inv_begun [OF assms(1)] by blast
next
  case LockTried
  then show ?thesis using version_inv_lock [OF assms(1)] by blast
next
  case (Published now)
  then show ?thesis using version_inv_published [OF assms] by blast
qed

lemma version_inv_runs:
  assumes "version_inv env vr v (n + length es) vs" "version_codec_ok env" "holds_fitting env v"
  shows "version_inv env vr v n (version_runs env vr es vs)"
  using assms(1)
proof (induction es arbitrary: vs)
  case (Cons e es)
  from Cons.IH [OF version_inv_step [OF _ assms(2,3)], of vs e] Cons.prems show ?case
    by (simp add: version_runs_def)
qed (simp add: version_runs_def)

text \<open>
  C22. What is kept of the journal's version is never stale. Publications, expired deadlines, new sessions
  and waits for the lock interleave in any way, every call on the disk may fail, and fewer than 2\<open>^\<close>64
  events happen: the publications reach the disk in the order of their attempts, so none overtakes a newer
  one; the file holds the record of the newest that succeeded, or of one after it that failed late;
  and each record is this journal's, with facts only about the version it stands beside.
\<close>

theorem stale_version_never_lands:
  assumes "world_ok w" "length events < 2 ^ 64" "version_codec_ok env"
    and "holds_fitting env (view w (version_file (vr_config_root vr)))"
  shows "let vs = version_runs env vr events (fresh_run (h, w)) in
      newest_first (vs_published vs)
      \<and> view (snd (vs_disk vs)) (version_file (vr_config_root vr))
          \<in> landed env (view w (version_file (vr_config_root vr))) (vs_published vs)
      \<and> genuine vr (vs_published vs)"
proof -
  let ?v = "view w (version_file (vr_config_root vr))"
  have "version_inv env vr ?v (0 + length events) (fresh_run (h, w))"
    using assms(1,2) by (simp add: version_inv_def fresh_run_def newest_first_def genuine_def in_phase_def)
  from version_inv_runs [OF this assms(3,4)] show ?thesis by (simp add: version_inv_def Let_def)
qed

definition seen_record :: JournalVersionRecord where
  "seen_record = info_record
     (new_refresh [] [] ''i'' [] \<lparr>run_id = replicate 32 CHR ''a'', lock_inode = 3\<rparr>) (Some 5) None ''1.2'' None"

definition seen_env :: version_env where
  "seen_env =
     \<lparr>ve_json = (\<lambda>r. if r = seen_record\<lparr>jv_version_seen_at := None\<rparr> then Some ''r'' else None),
      ve_parse = (\<lambda>b. if b = ''r'' then Some (seen_record, None, None) else None),
      ve_value = (\<lambda>_. None), ve_to_vec = (\<lambda>_. []), ve_unabout = (\<lambda>_. None),
      ve_codec = \<lparr>cc_json = \<lambda>_. None, cc_parse = \<lambda>b. if b = ''x'' then Some new_pairing else None\<rparr>,
      ve_identity = (\<lambda>_. Some \<lparr>run_id = replicate 32 CHR ''a'', lock_inode = 3\<rparr>), ve_snapshot = (\<lambda>_. None)\<rparr>"

definition seen_world :: world where
  "seen_world = (bare_world [])\<lparr>
     w_names := [([], NDir 1), ([CREDENTIALS_FILENAME], NFile 2), ([LOCK_FILENAME], NFile 3)],
     w_data := [(2, ''x''), (3, ''l'')], w_next := 4\<rparr>"

theorem stale_version_never_lands_witness:
  "let vr = new_refresh [] [] ''i'' [] \<lparr>run_id = replicate 32 CHR ''a'', lock_inode = 3\<rparr>;
       vs = version_runs seen_env vr [Refreshed, BegunPublication 1 (JournalInfo None ''1.2''), LockTried, Published 5]
              (fresh_run (\<lparr>lk_held = [3], lk_runs = 0\<rparr>, seen_world)) in
   (newest_first (vs_published vs)
    \<and> view (snd (vs_disk vs)) (version_file (vr_config_root vr))
        \<in> landed seen_env (view seen_world (version_file (vr_config_root vr))) (vs_published vs)
    \<and> genuine vr (vs_published vs))
   \<and> length (vs_published vs) = 1"
proof -
  let ?vr = "new_refresh [] [] ''i'' [] \<lparr>run_id = replicate 32 CHR ''a'', lock_inode = 3\<rparr>"
  let ?events = "[Refreshed, BegunPublication 1 (JournalInfo None ''1.2''), LockTried, Published 5]"
  have ok: "world_ok seen_world"
    by (rule world_ok_checked)
      (simp add: world_check_def seen_world_def bare_world_def CREDENTIALS_FILENAME_def LOCK_FILENAME_def)
  have codec: "version_codec_ok seen_env"
    by (auto simp: version_codec_ok_def seen_env_def decode_record_def decode_optional_about_def decode_optional_seen_at_def
        seen_record_def info_record_def new_refresh_def)
  have start: "holds_fitting seen_env (view seen_world (version_file (vr_config_root ?vr)))"
    by (simp add: holds_fitting_def seen_world_def view_def node_at_def version_file_def new_refresh_def
        CREDENTIALS_FILENAME_def LOCK_FILENAME_def JOURNAL_VERSION_FILENAME_def)
  have "length (vs_published (version_runs seen_env ?vr ?events
      (fresh_run (\<lparr>lk_held = [3], lk_runs = 0\<rparr>, seen_world)))) = 1"
    by code_simp
  with stale_version_never_lands [OF ok _ codec start, of ?events "\<lparr>lk_held = [3], lk_runs = 0\<rparr>"]
  show ?thesis by (simp add: Let_def)
qed

end
