(* ===== verification/Metadata.thy ===== *)
theory Metadata
  imports Version Store
begin

text \<open>
  Telling the journal about this device, and learning its version (\<open>src/client_metadata.rs\<close>, the
  publications of \<open>CredentialStore\<close> in \<open>src/sync.rs\<close>). The job runs against an arbitrary adversary: what
  each request is answered, when the deadline cuts it off, whether the attempt is still the current one and
  what the host is called are any functions of what has happened so far. Serde's reading of a response and the
  writing of a request are parameters; the keys a response must have are checked on its JSON value.
\<close>

definition METADATA_PROTOCOL_VERSION :: nat where "METADATA_PROTOCOL_VERSION = 1"
definition MAX_NAME_BYTES :: nat where "MAX_NAME_BYTES = 80"
definition MAX_FIELD_BYTES :: nat where "MAX_FIELD_BYTES = 64"

record ClientsSelfReportedSnapshot =
  rs_name :: "string option"
  rs_platform :: "string option"
  rs_device_type :: "string option"
  rs_app_id :: "string option"
  rs_app_version :: "string option"

record ClientsSelfJournalInfo =
  ji_name :: "string option"
  ji_version :: string

record ClientsSelfGetResponse =
  gr_protocol_version :: nat
  gr_revision :: nat
  gr_reported :: "ClientsSelfReportedSnapshot option"
  gr_owner_label :: "string option"
  gr_display_label :: string
  gr_updated_at :: "string option"
  gr_journal :: ClientsSelfJournalInfo

record ClientsSelfPutRequest =
  pr_protocol_version :: nat
  pr_expected_revision :: nat
  pr_reported :: ClientsSelfReportedSnapshot

subsection \<open>What is reported\<close>

definition sanitize_field :: "string \<Rightarrow> nat \<Rightarrow> string option" where
  "sanitize_field v max_bytes =
     (let trimmed = trim v in
      if trimmed = [] then None
      else if has_control trimmed then None
      else if max_bytes < length trimmed then None
      else Some trimmed)"

definition build_reported_snapshot :: "string option \<Rightarrow> PlatformKind \<Rightarrow> string \<Rightarrow> ClientsSelfReportedSnapshot" where
  "build_reported_snapshot hostname platform version =
     \<lparr>rs_name = Option.bind hostname (\<lambda>h. sanitize_field h MAX_NAME_BYTES),
      rs_platform = sanitize_field (pairing_platform platform) MAX_FIELD_BYTES,
      rs_device_type = sanitize_field ''terminal'' MAX_FIELD_BYTES,
      rs_app_id = sanitize_field ''solstone-tmux'' MAX_FIELD_BYTES,
      rs_app_version = sanitize_field version MAX_FIELD_BYTES\<rparr>"

definition has_keys :: "string list \<Rightarrow> (string \<times> json) list \<Rightarrow> bool" where
  "has_keys ks obj \<longleftrightarrow> list_all (\<lambda>k. map_of obj k \<noteq> None) ks"

definition decode_get_response ::
  "(bytes \<Rightarrow> json option) \<Rightarrow> (bytes \<Rightarrow> ClientsSelfGetResponse option) \<Rightarrow> bytes \<Rightarrow> ClientsSelfGetResponse option" where
  "decode_get_response parse unjson b =
     (case parse b of
        Some (JObject obj) \<Rightarrow>
          if \<not> has_keys [''reported'', ''owner_label'', ''display_label'', ''updated_at'', ''journal''] obj then None
          else if \<not> (case map_of obj ''reported'' of
                       Some (JObject r) \<Rightarrow> has_keys [''name'', ''platform'', ''device_type'', ''app_id'', ''app_version''] r
                     | Some JNull \<Rightarrow> True
                     | _ \<Rightarrow> False) then None
          else (case map_of obj ''journal'' of
                  Some (JObject j) \<Rightarrow>
                    if \<not> has_keys [''name'', ''version''] j then None
                    else (case unjson b of
                            None \<Rightarrow> None
                          | Some r \<Rightarrow> if gr_protocol_version r \<noteq> METADATA_PROTOCOL_VERSION then None else Some r)
                | _ \<Rightarrow> None)
      | _ \<Rightarrow> None)"

subsection \<open>Publishing what the journal said\<close>

text \<open>
  \<open>publish_journal_info\<close> and \<open>publish_journal_about\<close>, once their turn has come: whether the refresh may publish
  at all. Then \<open>publish\<close> of the version record runs, and the shutdown is looked at once more.
\<close>

definition may_publish :: "CredentialStoreState \<Rightarrow> bool \<Rightarrow> DiagnosticCode + Credential option \<Rightarrow> bool" where
  "may_publish s current loaded \<longleftrightarrow>
     current \<and> \<not> cs_shutdown s
     \<and> (case loaded of Inr (Some c) \<Rightarrow> cr_client_cert_pem c = cr_client_cert_pem (cs_credential s) | _ \<Rightarrow> False)"

definition published :: "CredentialStoreState \<Rightarrow> bool \<Rightarrow> bool" where
  "published s persisted \<longleftrightarrow> \<not> cs_shutdown s \<and> persisted"

subsection \<open>The job\<close>

datatype fetched = Elapsed | FetchFailed | Answer nat bytes

datatype call =
  GotSelf fetched
| PutSelf bytes fetched
| GotStatus "string option"
| StatusElapsed
| PublishedInfo "string option option" string
| PublishElapsed

datatype job_stop = TimedOut | JobFailed

record adversary =
  ad_get :: "call list \<Rightarrow> fetched"
  ad_put :: "call list \<Rightarrow> bytes \<Rightarrow> fetched"
  ad_status :: "call list \<Rightarrow> string option option"
  ad_slow :: "call list \<Rightarrow> bool"
  ad_current :: "call list \<Rightarrow> bool"
  ad_hostname :: "call list \<Rightarrow> string option"

record metadata_env =
  me_parse :: "bytes \<Rightarrow> json option"
  me_unjson :: "bytes \<Rightarrow> ClientsSelfGetResponse option"
  me_json :: "ClientsSelfPutRequest \<Rightarrow> bytes option"
  me_platform :: PlatformKind
  me_version :: string

type_synonym 'a job = "(call list, job_stop, 'a) comp"

text \<open>The newest call is first. A request cut off by the deadline ends the job.\<close>

definition get_self :: "adversary \<Rightarrow> (nat \<times> bytes) job" where
  "get_self ad h =
     (let r = ad_get ad h in
      (case r of Elapsed \<Rightarrow> Inl TimedOut | FetchFailed \<Rightarrow> Inl JobFailed | Answer status body \<Rightarrow> Inr (status, body), GotSelf r # h))"

definition put_self :: "adversary \<Rightarrow> bytes \<Rightarrow> (nat \<times> bytes) job" where
  "put_self ad b h =
     (let r = ad_put ad h b in
      (case r of Elapsed \<Rightarrow> Inl TimedOut | FetchFailed \<Rightarrow> Inl JobFailed | Answer status body \<Rightarrow> Inr (status, body), PutSelf b r # h))"

text \<open>The legacy probe: an error of its own is no error of the job.\<close>

definition optional_status :: "adversary \<Rightarrow> string option job" where
  "optional_status ad h =
     (case ad_status ad h of
        None \<Rightarrow> (Inl TimedOut, StatusElapsed # h)
      | Some v \<Rightarrow> (Inr v, GotStatus v # h))"

definition cache_journal_info :: "adversary \<Rightarrow> string option option \<Rightarrow> string \<Rightarrow> unit job" where
  "cache_journal_info ad name version h =
     (if ad_slow ad h then (Inl TimedOut, PublishElapsed # h) else (Inr (), PublishedInfo name version # h))"

definition decoded :: "metadata_env \<Rightarrow> bytes \<Rightarrow> ClientsSelfGetResponse job" where
  "decoded env b =
     (case decode_get_response (me_parse env) (me_unjson env) b of None \<Rightarrow> throwE JobFailed | Some r \<Rightarrow> returnE r)"

definition cache_of :: "adversary \<Rightarrow> ClientsSelfGetResponse \<Rightarrow> unit job" where
  "cache_of ad r =
     (if ji_version (gr_journal r) \<noteq> [] then cache_journal_info ad (Some (ji_name (gr_journal r))) (ji_version (gr_journal r))
      else returnE ())"

definition snapshot_now :: "metadata_env \<Rightarrow> adversary \<Rightarrow> ClientsSelfReportedSnapshot job" where
  "snapshot_now env ad = getsE (\<lambda>h. build_reported_snapshot (ad_hostname ad h) (me_platform env) (me_version env))"

definition put_request :: "metadata_env \<Rightarrow> ClientsSelfGetResponse \<Rightarrow> ClientsSelfReportedSnapshot \<Rightarrow> bytes job" where
  "put_request env r s =
     (case me_json env \<lparr>pr_protocol_version = METADATA_PROTOCOL_VERSION, pr_expected_revision = gr_revision r, pr_reported = s\<rparr> of
        None \<Rightarrow> throwE JobFailed
      | Some b \<Rightarrow> returnE b)"

text \<open>A successful PUT answers with the whole resource.\<close>

definition settle_put :: "metadata_env \<Rightarrow> adversary \<Rightarrow> bytes \<Rightarrow> unit job" where
  "settle_put env ad body =
     bindE (decoded env body) (\<lambda>r.
     bindE (getsE (ad_current ad)) (\<lambda>current.
     if current then cache_of ad r else returnE ()))"

definition retry_put :: "metadata_env \<Rightarrow> adversary \<Rightarrow> unit job" where
  "retry_put env ad =
     bindE (get_self ad) (\<lambda>(status, body).
     if status \<noteq> 200 then throwE JobFailed
     else
       bindE (decoded env body) (\<lambda>r.
       bindE (cache_of ad r) (\<lambda>_.
       bindE (snapshot_now env ad) (\<lambda>newest.
       bindE (getsE (ad_current ad)) (\<lambda>current.
       if \<not> current then returnE ()
       else if gr_reported r = Some newest then returnE ()
       else
         bindE (put_request env r newest) (\<lambda>b.
         bindE (put_self ad b) (\<lambda>(status, body).
         if status = 200 then settle_put env ad body else throwE JobFailed)))))))"

definition metadata_pass :: "metadata_env \<Rightarrow> adversary \<Rightarrow> unit job" where
  "metadata_pass env ad =
     bindE (get_self ad) (\<lambda>(status, body).
     bindE (getsE (ad_current ad)) (\<lambda>current.
     if \<not> current then returnE ()
     else if status = 404 then
       bindE (optional_status ad) (\<lambda>v.
       case v of
         Some version \<Rightarrow> if trim version \<noteq> [] then cache_journal_info ad None version else returnE ()
       | None \<Rightarrow> returnE ())
     else if status \<noteq> 200 then throwE JobFailed
     else
       bindE (decoded env body) (\<lambda>r.
       bindE (cache_of ad r) (\<lambda>_.
       bindE (snapshot_now env ad) (\<lambda>snapshot.
       if gr_reported r = Some snapshot then returnE ()
       else
         bindE (getsE (ad_current ad)) (\<lambda>current.
         if \<not> current then returnE ()
         else
           bindE (put_request env r snapshot) (\<lambda>b.
           bindE (put_self ad b) (\<lambda>(status, body).
           if status = 200 then settle_put env ad body
           else if status = 409 then retry_put env ad
           else throwE JobFailed))))))))"

text \<open>What is left of the job when the pass has ended: a pass cut off expires its attempt.\<close>

definition job_result :: "job_stop + unit \<Rightarrow> bool \<times> bool" where
  "job_result r = (case r of Inr _ \<Rightarrow> (True, False) | Inl JobFailed \<Rightarrow> (False, False) | Inl TimedOut \<Rightarrow> (False, True))"

subsection \<open>What the job does to the journal\<close>

text \<open>The resource as the newest answer gave it, to a GET alone or to a PUT as well\<close>

fun newest_get :: "metadata_env \<Rightarrow> call list \<Rightarrow> ClientsSelfGetResponse option" where
  "newest_get env [] = None"
| "newest_get env (GotSelf (Answer status b) # h) =
     (if status = 200 then decode_get_response (me_parse env) (me_unjson env) b else None)"
| "newest_get env (GotSelf _ # h) = None"
| "newest_get env (_ # h) = newest_get env h"

fun newest_answer :: "metadata_env \<Rightarrow> call list \<Rightarrow> ClientsSelfGetResponse option" where
  "newest_answer env (PutSelf _ (Answer status b) # h) =
     (if status = 200 then decode_get_response (me_parse env) (me_unjson env) b else None)"
| "newest_answer env h = newest_get env h"

definition justified_put :: "metadata_env \<Rightarrow> adversary \<Rightarrow> bytes \<Rightarrow> call list \<Rightarrow> bool" where
  "justified_put env ad b h \<longleftrightarrow>
     ad_current ad h
     \<and> (\<exists>r. newest_get env h = Some r
        \<and> (let s = build_reported_snapshot (ad_hostname ad h) (me_platform env) (me_version env) in
           gr_reported r \<noteq> Some s
           \<and> me_json env \<lparr>pr_protocol_version = METADATA_PROTOCOL_VERSION, pr_expected_revision = gr_revision r, pr_reported = s\<rparr>
              = Some b))"

definition refused_put :: "call \<Rightarrow> bool" where
  "refused_put c \<longleftrightarrow> (\<forall>b r. c = PutSelf b r \<longrightarrow> (\<exists>body. r = Answer 409 body))"

definition justified_info :: "metadata_env \<Rightarrow> string option option \<Rightarrow> string \<Rightarrow> call list \<Rightarrow> bool" where
  "justified_info env name v h \<longleftrightarrow>
     (\<exists>r. newest_answer env h = Some r \<and> name = Some (ji_name (gr_journal r)) \<and> v = ji_version (gr_journal r) \<and> v \<noteq> [])
     \<or> (\<exists>b h'. h = GotStatus (Some v) # GotSelf (Answer 404 b) # h' \<and> name = None \<and> trim v \<noteq> [])"

fun orderly :: "metadata_env \<Rightarrow> adversary \<Rightarrow> call list \<Rightarrow> bool" where
  "orderly env ad [] \<longleftrightarrow> True"
| "orderly env ad (PutSelf b r # h) \<longleftrightarrow> justified_put env ad b h \<and> list_all refused_put h \<and> orderly env ad h"
| "orderly env ad (PublishedInfo name v # h) \<longleftrightarrow> justified_info env name v h \<and> orderly env ad h"
| "orderly env ad (_ # h) \<longleftrightarrow> orderly env ad h"

definition bounded_calls :: "call list \<Rightarrow> bool" where
  "bounded_calls h \<longleftrightarrow>
     length (filter (\<lambda>c. case c of GotSelf _ \<Rightarrow> True | _ \<Rightarrow> False) h) \<le> 2
     \<and> length (filter (\<lambda>c. case c of PutSelf _ _ \<Rightarrow> True | _ \<Rightarrow> False) h) \<le> 2
     \<and> length h \<le> 7"

lemma wp_job [simp]:
  "wpE (get_self ad) Q R h =
     (case ad_get ad h of
        Elapsed \<Rightarrow> R TimedOut (GotSelf Elapsed # h)
      | FetchFailed \<Rightarrow> R JobFailed (GotSelf FetchFailed # h)
      | Answer status body \<Rightarrow> Q (status, body) (GotSelf (Answer status body) # h))"
  "wpE (put_self ad b) Q R h =
     (case ad_put ad h b of
        Elapsed \<Rightarrow> R TimedOut (PutSelf b Elapsed # h)
      | FetchFailed \<Rightarrow> R JobFailed (PutSelf b FetchFailed # h)
      | Answer status body \<Rightarrow> Q (status, body) (PutSelf b (Answer status body) # h))"
  "wpE (optional_status ad) Q1 R h =
     (case ad_status ad h of None \<Rightarrow> R TimedOut (StatusElapsed # h) | Some v \<Rightarrow> Q1 v (GotStatus v # h))"
  "wpE (cache_journal_info ad name v) Q2 R h =
     (if ad_slow ad h then R TimedOut (PublishElapsed # h) else Q2 () (PublishedInfo name v # h))"
  by (simp_all add: wpE_def get_self_def put_self_def optional_status_def cache_journal_info_def Let_def
      split: fetched.split option.split)

lemma wp_decoded [simp]:
  "wpE (decoded env b) Q R h =
     (case decode_get_response (me_parse env) (me_unjson env) b of None \<Rightarrow> R JobFailed h | Some r \<Rightarrow> Q r h)"
  by (simp add: decoded_def split: option.split)

text \<open>What the job has done when it has the newest answer, and after the answer is cached\<close>

definition on_track :: "metadata_env \<Rightarrow> adversary \<Rightarrow> nat \<Rightarrow> nat \<Rightarrow> nat \<Rightarrow> call list \<Rightarrow> bool" where
  "on_track env ad gets puts n h \<longleftrightarrow>
     orderly env ad h
     \<and> length (filter (\<lambda>c. case c of GotSelf _ \<Rightarrow> True | _ \<Rightarrow> False) h) = gets
     \<and> length (filter (\<lambda>c. case c of PutSelf _ _ \<Rightarrow> True | _ \<Rightarrow> False) h) = puts
     \<and> length h \<le> n"

lemma cache_of_spec:
  assumes "on_track env ad g p n h" "newest_answer env h = Some r"
    and "\<And>h'. on_track env ad g p (Suc n) h' \<Longrightarrow> newest_get env h' = newest_get env h
          \<Longrightarrow> (list_all refused_put h \<longrightarrow> list_all refused_put h') \<Longrightarrow> Q () h'"
    and "\<And>h'. on_track env ad g p (Suc n) h' \<Longrightarrow> R TimedOut h'"
  shows "wpE (cache_of ad r) Q R h"
proof (cases "ji_version (gr_journal r) = []")
  case True
  moreover have "on_track env ad g p (Suc n) h" using assms(1) by (auto simp: on_track_def)
  ultimately show ?thesis using assms(3) by (simp add: cache_of_def)
next
  case False
  moreover have "on_track env ad g p (Suc n) (PublishElapsed # h)"
    using assms(1) by (simp add: on_track_def)
  moreover have "on_track env ad g p (Suc n) (PublishedInfo (Some (ji_name (gr_journal r))) (ji_version (gr_journal r)) # h)"
    using assms(1,2) False by (simp add: on_track_def justified_info_def)
  ultimately show ?thesis
    using assms(3,4) by (simp add: cache_of_def refused_put_def)
qed

lemma settle_put_spec:
  assumes "on_track env ad g p n (PutSelf b (Answer 200 body) # h)" "g \<le> 2" "p \<le> 2" "n \<le> 6"
  shows "wpE (settle_put env ad body) (\<lambda>_ h. orderly env ad h \<and> bounded_calls h)
    (\<lambda>_ h. orderly env ad h \<and> bounded_calls h) (PutSelf b (Answer 200 body) # h)"
proof -
  have fin: "orderly env ad h' \<and> bounded_calls h'" if "on_track env ad g p m h'" "m \<le> 7" for m h'
    using that assms(2-4) by (auto simp: on_track_def bounded_calls_def)
  show ?thesis
    unfolding settle_put_def
    using fin [OF assms(1)] assms(4)
    by (auto split: option.split intro!: cache_of_spec [OF assms(1)] fin)
qed

definition in_order :: "metadata_env \<Rightarrow> adversary \<Rightarrow> call list \<Rightarrow> bool" where
  "in_order env ad h \<longleftrightarrow> orderly env ad h \<and> bounded_calls h"

lemma on_track_ends: "on_track env ad g p n h \<Longrightarrow> g \<le> 2 \<Longrightarrow> p \<le> 2 \<Longrightarrow> n \<le> 7 \<Longrightarrow> in_order env ad h"
  by (auto simp: on_track_def bounded_calls_def in_order_def)

lemma on_track_more:
  assumes "on_track env ad g p n h"
  shows "on_track env ad (Suc g) p (Suc n) (GotSelf r # h)"
    and "justified_put env ad b h \<Longrightarrow> list_all refused_put h \<Longrightarrow> on_track env ad g (Suc p) (Suc n) (PutSelf b r # h)"
  using assms by (auto simp: on_track_def)

lemma settle_in_order:
  assumes "on_track env ad g p n (PutSelf b (Answer 200 body) # h)" "g \<le> 2" "p \<le> 2" "n \<le> 6"
  shows "wpE (settle_put env ad body) (\<lambda>_. in_order env ad) (\<lambda>_. in_order env ad) (PutSelf b (Answer 200 body) # h)"
  using settle_put_spec [OF assms] unfolding in_order_def [abs_def] .

lemma retry_put_spec:
  assumes "on_track env ad 1 1 3 h" "list_all refused_put h"
  shows "wpE (retry_put env ad) (\<lambda>_. in_order env ad) (\<lambda>_. in_order env ad) h"
proof -
  have get: "on_track env ad 2 1 4 (GotSelf r # h)" for r
    using on_track_more(1) [OF assms(1)] by (simp add: numeral_2_eq_2 numeral_eq_Suc)
  have put: "wpE (bindE (put_request env r s) (\<lambda>b. bindE (put_self ad b) (\<lambda>(status, body).
         if status = 200 then settle_put env ad body else throwE JobFailed)))
       (\<lambda>_. in_order env ad) (\<lambda>_. in_order env ad) h'"
    if h': "on_track env ad 2 1 5 h'" "list_all refused_put h'" "newest_get env h' = Some r"
      "ad_current ad h'" "s = build_reported_snapshot (ad_hostname ad h') (me_platform env) (me_version env)"
      "gr_reported r \<noteq> Some s" for h' r s
  proof -
    have b: "on_track env ad 2 2 6 (PutSelf b x # h')"
      if "me_json env \<lparr>pr_protocol_version = METADATA_PROTOCOL_VERSION, pr_expected_revision = gr_revision r, pr_reported = s\<rparr> = Some b" for b x
      using on_track_more(2) [OF h'(1) _ h'(2), of b x] that h' by (simp add: justified_put_def Let_def numeral_eq_Suc)
    show ?thesis
      using h'(1) b
      by (auto simp: put_request_def split: option.split fetched.split intro!: settle_in_order on_track_ends [OF h'(1)] on_track_ends [OF b])
  qed
  have rest: "wpE (bindE (decoded env body) (\<lambda>r. bindE (cache_of ad r) (\<lambda>_. bindE (snapshot_now env ad) (\<lambda>newest.
       bindE (getsE (ad_current ad)) (\<lambda>current.
       if \<not> current then returnE ()
       else if gr_reported r = Some newest then returnE ()
       else
         bindE (put_request env r newest) (\<lambda>b.
         bindE (put_self ad b) (\<lambda>(status, body).
         if status = 200 then settle_put env ad body else throwE JobFailed)))))))
     (\<lambda>_. in_order env ad) (\<lambda>_. in_order env ad) (GotSelf (Answer 200 body) # h)" (is "wpE ?m ?Q ?R ?h") for body
  proof (cases "decode_get_response (me_parse env) (me_unjson env) body")
    case None
    then show ?thesis using on_track_ends [OF get] by (subst wpE_bind) simp
  next
    case (Some r)
    show ?thesis
      unfolding wpE_bind wp_decoded Some option.case
    proof (rule cache_of_spec [OF get])
      show "newest_answer env ?h = Some r" using Some by simp
    next
      fix h' assume h': "on_track env ad 2 1 (Suc 4) h'" "newest_get env h' = newest_get env ?h"
        "list_all refused_put ?h \<longrightarrow> list_all refused_put h'"
      then have t: "on_track env ad 2 1 5 h'" "newest_get env h' = Some r" "list_all refused_put h'"
        using Some assms(2) by (simp_all add: refused_put_def)
      show "wpE (snapshot_now env ad) (\<lambda>newest. wpE (getsE (ad_current ad)) (\<lambda>current.
         wpE (if \<not> current then returnE ()
           else if gr_reported r = Some newest then returnE ()
           else bindE (put_request env r newest) (\<lambda>b. bindE (put_self ad b) (\<lambda>(status, body).
             if status = 200 then settle_put env ad body else throwE JobFailed)))
          ?Q ?R) ?R) ?R h'"
        unfolding snapshot_now_def wpE_gets
        using put [OF t(1,3,2)] on_track_ends [OF t(1)] by (simp del: wpE_bind)
    next
      show "in_order env ad h'" if "on_track env ad 2 1 (Suc 4) h'" for h'
        using on_track_ends [OF that] by simp
    qed
  qed
  show ?thesis
    unfolding retry_put_def
    apply (subst wpE_bind)
    using rest on_track_ends [OF get] by (simp del: wpE_bind split: fetched.split)
qed

lemma first_put_spec:
  assumes "on_track env ad 1 0 2 h" "list_all refused_put h" "newest_get env h = Some r"
    and "gr_reported r \<noteq> Some (build_reported_snapshot (ad_hostname ad h) (me_platform env) (me_version env))"
      (is "_ \<noteq> Some ?s")
  shows "wpE (bindE (getsE (ad_current ad)) (\<lambda>current.
      if \<not> current then returnE ()
      else
        bindE (put_request env r ?s) (\<lambda>b.
        bindE (put_self ad b) (\<lambda>(status, body).
        if status = 200 then settle_put env ad body
        else if status = 409 then retry_put env ad
        else throwE JobFailed))))
    (\<lambda>_. in_order env ad) (\<lambda>_. in_order env ad) h"
proof -
  have b: "on_track env ad 1 1 3 (PutSelf b x # h)"
    if "ad_current ad h"
      "me_json env \<lparr>pr_protocol_version = METADATA_PROTOCOL_VERSION, pr_expected_revision = gr_revision r, pr_reported = ?s\<rparr> = Some b" for b x
    using on_track_more(2) [OF assms(1) _ assms(2), of b x] that assms(3,4)
    by (simp add: justified_put_def Let_def numeral_eq_Suc)
  show ?thesis
    using on_track_ends [OF assms(1)] on_track_ends [OF b] assms(2)
    by (auto simp: put_request_def refused_put_def split: option.split fetched.split
        intro!: settle_in_order b retry_put_spec)
qed

lemma legacy_status_spec:
  assumes "on_track env ad 1 0 1 (GotSelf (Answer 404 body) # h)"
  shows "wpE (bindE (optional_status ad) (\<lambda>v.
       case v of
         Some version \<Rightarrow> if trim version \<noteq> [] then cache_journal_info ad None version else returnE ()
       | None \<Rightarrow> returnE ()))
    (\<lambda>_. in_order env ad) (\<lambda>_. in_order env ad) (GotSelf (Answer 404 body) # h)"
  using assms by (auto simp: in_order_def on_track_def bounded_calls_def justified_info_def split: option.split)

lemma metadata_pass_spec: "wpE (metadata_pass env ad) (\<lambda>_. in_order env ad) (\<lambda>_. in_order env ad) []"
proof -
  have get: "on_track env ad 1 0 1 [GotSelf r]" for r by (simp add: on_track_def)
  have read: "wpE (bindE (decoded env body) (\<lambda>r.
       bindE (cache_of ad r) (\<lambda>_.
       bindE (snapshot_now env ad) (\<lambda>snapshot.
       if gr_reported r = Some snapshot then returnE ()
       else
         bindE (getsE (ad_current ad)) (\<lambda>current.
         if \<not> current then returnE ()
         else
           bindE (put_request env r snapshot) (\<lambda>b.
           bindE (put_self ad b) (\<lambda>(status, body).
           if status = 200 then settle_put env ad body
           else if status = 409 then retry_put env ad
           else throwE JobFailed)))))))
     (\<lambda>_. in_order env ad) (\<lambda>_. in_order env ad) [GotSelf (Answer 200 body)]" (is "wpE ?m ?Q ?R ?h") for body
  proof (cases "decode_get_response (me_parse env) (me_unjson env) body")
    case None
    then show ?thesis using on_track_ends [OF get] by (subst wpE_bind) simp
  next
    case (Some r)
    show ?thesis
      unfolding wpE_bind [where m = "decoded env body"] wp_decoded Some option.case
    proof (subst wpE_bind, rule cache_of_spec [OF get])
      show "newest_answer env ?h = Some r" using Some by simp
    next
      fix h' assume h': "on_track env ad 1 0 (Suc 1) h'" "newest_get env h' = newest_get env ?h"
        "list_all refused_put ?h \<longrightarrow> list_all refused_put h'"
      then have t: "on_track env ad 1 0 2 h'" "newest_get env h' = Some r" "list_all refused_put h'"
        using Some by (simp_all add: refused_put_def numeral_2_eq_2)
      show "wpE (bindE (snapshot_now env ad) (\<lambda>snapshot.
           if gr_reported r = Some snapshot then returnE ()
           else bindE (getsE (ad_current ad)) (\<lambda>current.
             if \<not> current then returnE ()
             else bindE (put_request env r snapshot) (\<lambda>b. bindE (put_self ad b) (\<lambda>(status, body).
               if status = 200 then settle_put env ad body
               else if status = 409 then retry_put env ad
               else throwE JobFailed)))))
          ?Q ?R h'"
        unfolding snapshot_now_def wpE_bind [where m = "getsE (\<lambda>h. build_reported_snapshot (ad_hostname ad h) (me_platform env) (me_version env))"] wpE_gets
        using first_put_spec [OF t(1,3,2)] on_track_ends [OF t(1)] by (simp del: wpE_bind)
    next
      show "in_order env ad h'" if "on_track env ad 1 0 (Suc 1) h'" for h'
        using on_track_ends [OF that] by simp
    qed
  qed
  show ?thesis
    unfolding metadata_pass_def
    apply (subst wpE_bind)
    using read legacy_status_spec [OF get] on_track_ends [OF get]
    by (simp del: wpE_bind add: wpE_bind [where m = "getsE (ad_current ad)"] split: fetched.split)
qed


end
