(* ===== verification/Config.thy ===== *)
theory Config
  imports Names Effects Journal Answer Outcomes
begin

text \<open>
  The owner's configuration (\<open>src/config.rs\<close>) and the command line (\<open>src/cli.rs\<close>). Parameters: serde's
  reading of the configuration file (which fills in the defaults below) and the Unicode lower case.
\<close>

subsection \<open>The configuration\<close>

definition CONFIG_FILENAME :: string where "CONFIG_FILENAME = ''config.json''"
definition DEFAULT_CAPTURE_INTERVAL_SECONDS :: nat where "DEFAULT_CAPTURE_INTERVAL_SECONDS = 5"
definition DEFAULT_SEGMENT_INTERVAL_SECONDS :: nat where "DEFAULT_SEGMENT_INTERVAL_SECONDS = 300"
definition DEFAULT_CACHE_RETENTION_DAYS :: int where "DEFAULT_CACHE_RETENTION_DAYS = 7"
definition DEFAULT_SOURCE :: string where "DEFAULT_SOURCE = ''tmux''"
definition MAX_SOURCE_BYTES :: nat where "MAX_SOURCE_BYTES = 64"

datatype OptionalJson = JsonAbsent | JsonPresent json

record ConfigFile =
  cf_stream :: "string option"
  cf_capture_interval :: nat
  cf_segment_interval :: nat
  cf_cache_retention_days :: int
  cf_status_indicator :: bool
  cf_pane_title :: bool
  cf_working_directory :: bool
  cf_executable :: bool
  cf_source :: OptionalJson
  cf_output_sessions :: "string list"

record RuntimeConfig =
  rt_stream :: DerivedName
  rt_capture_interval :: nat
  rt_segment_interval :: nat
  rt_cache_retention_days :: int
  rt_status_indicator :: bool
  rt_pane_title :: bool
  rt_working_directory :: bool
  rt_executable :: bool
  rt_source :: string
  rt_output_sessions :: "string list"

datatype ConfigError =
  ConfigIo string path io_error
| ConfigInvalidTarget path
| InvalidConfig path
| InvalidInterval string
| InvalidHostname string
| InvalidStream string NameError
| InvalidSource
| InvalidOutputSessions

definition default_config :: ConfigFile where
  "default_config =
     \<lparr>cf_stream = None, cf_capture_interval = DEFAULT_CAPTURE_INTERVAL_SECONDS,
      cf_segment_interval = DEFAULT_SEGMENT_INTERVAL_SECONDS, cf_cache_retention_days = DEFAULT_CACHE_RETENTION_DAYS,
      cf_status_indicator = True, cf_pane_title = True, cf_working_directory = True, cf_executable = True,
      cf_source = JsonAbsent, cf_output_sessions = []\<rparr>"

definition is_configured_source :: "string \<Rightarrow> bool" where
  "is_configured_source source =
     (if source = [] \<or> MAX_SOURCE_BYTES < length source then False
      else case source of
        [] \<Rightarrow> False
      | first # rest \<Rightarrow>
          (is_lower first \<or> is_digit first)
          \<and> list_all (\<lambda>b. is_lower b \<or> is_digit b \<or> b = CHR ''_'' \<or> b = CHR ''-'') rest)"

definition configured_source :: "OptionalJson \<Rightarrow> ConfigError + string" where
  "configured_source v =
     (case v of
        JsonAbsent \<Rightarrow> Inr DEFAULT_SOURCE
      | JsonPresent (JStr source) \<Rightarrow> if is_configured_source source then Inr source else Inl InvalidSource
      | JsonPresent _ \<Rightarrow> Inl InvalidSource)"

text \<open>The host name's first label, or all of them when they are numbers, in lower case with single hyphens.\<close>

definition host_base :: "string \<Rightarrow> string" where
  "host_base hostname =
     (let hostname = trim hostname;
          parts = filter (\<lambda>part. part \<noteq> []) (split_on (CHR ''.'') hostname) in
      if parts \<noteq> [] \<and> list_all (list_all is_digit) parts then join_with ''-'' parts
      else hd (split_on (CHR ''.'') hostname))"

fun hyphenate :: "bool \<Rightarrow> string list \<Rightarrow> string" where
  "hyphenate was [] = []"
| "hyphenate was (g # gs) =
     (if is_space g \<or> g = ''/'' \<or> g = [CHR 0x5C]
      then (if was then hyphenate True gs else ''-'' @ hyphenate True gs)
      else g @ hyphenate False gs)"

definition stream_ok :: "string \<Rightarrow> bool" where
  "stream_ok stream \<longleftrightarrow>
     find_sub ''..'' stream = None
     \<and> (case stream of
          [] \<Rightarrow> True
        | first # rest \<Rightarrow>
            (is_lower first \<or> is_digit first)
            \<and> list_all (\<lambda>b. is_lower b \<or> is_digit b \<or> b \<in> set ''._-'') rest)"

definition default_stream :: "(string \<Rightarrow> string) \<Rightarrow> string \<Rightarrow> ConfigError + string" where
  "default_stream lower hostname =
     (let normalized = hyphenate False (utf8_chars (lower (trim (host_base hostname))));
          stream = normalized @ ''.tmux'' in
      if normalized \<noteq> [] \<and> stream_ok stream then Inr stream else Inl (InvalidHostname (trim hostname)))"

definition from_config_file :: "(string \<Rightarrow> string) \<Rightarrow> ConfigFile \<Rightarrow> string \<Rightarrow> ConfigError + RuntimeConfig" where
  "from_config_file lower f hostname =
     (if cf_capture_interval f = 0 then Inl (InvalidInterval ''capture_interval'')
      else if cf_segment_interval f = 0 then Inl (InvalidInterval ''segment_interval'')
      else
        andR (case cf_stream f of None \<Rightarrow> default_stream lower hostname | Some s \<Rightarrow> Inr s) (\<lambda>identity.
        andR (case derive_component identity of Inl e \<Rightarrow> Inl (InvalidStream identity e) | Inr d \<Rightarrow> Inr d) (\<lambda>stream.
        andR (configured_source (cf_source f)) (\<lambda>source.
        if list_ex (\<lambda>s. s = []) (cf_output_sessions f) then Inl InvalidOutputSessions
        else Inr
          \<lparr>rt_stream = stream, rt_capture_interval = cf_capture_interval f, rt_segment_interval = cf_segment_interval f,
           rt_cache_retention_days = cf_cache_retention_days f, rt_status_indicator = cf_status_indicator f,
           rt_pane_title = cf_pane_title f, rt_working_directory = cf_working_directory f,
           rt_executable = cf_executable f, rt_source = source, rt_output_sessions = cf_output_sessions f\<rparr>))))"

definition load_config ::
  "(bytes \<Rightarrow> ConfigFile option) \<Rightarrow> (string \<Rightarrow> string) \<Rightarrow> path \<Rightarrow> string \<Rightarrow> (ConfigError, RuntimeConfig) io" where
  "load_config unjson lower root hostname =
     (let p = path_join root CONFIG_FILENAME in
      bindE
        (tryE (fs_lstat p) (\<lambda>r.
           case r of
             Inr (NFile _) \<Rightarrow>
               bindE (map_errE (ConfigIo ''set native config permissions'' p) (fs_chmod p 384)) (\<lambda>_.
               bindE (map_errE (ConfigIo ''read native config'' p) (fs_read p)) (\<lambda>b.
               case unjson b of None \<Rightarrow> throwE (InvalidConfig p) | Some f \<Rightarrow> returnE f))
           | Inr _ \<Rightarrow> throwE (ConfigInvalidTarget p)
           | Inl NotFound \<Rightarrow> returnE default_config
           | Inl e \<Rightarrow> throwE (ConfigIo ''inspect native config'' p e)))
        (\<lambda>f. case from_config_file lower f hostname of Inl e \<Rightarrow> throwE e | Inr c \<Rightarrow> returnE c))"

subsection \<open>The command line\<close>

datatype CliCommand =
  CliRun | CliSetup MarkOption | CliConfirm MarkOption | CliStatus | CliAbout | CliInstallService
| CliUninstallService | CliHelp | CliVersion

datatype CliError = UnknownCommand string | UnexpectedArgument string

fun parse_mark :: "MarkOption \<Rightarrow> string list \<Rightarrow> CliError + MarkOption" where
  "parse_mark state [] = Inr state"
| "parse_mark state (arg # args) =
     (if arg = ''--mark'' then
        (case (state, args) of
           (MarkAbsent, []) \<Rightarrow> Inr MissingValue
         | (MarkAbsent, val # rest) \<Rightarrow> parse_mark (if val = ''--mark'' then Repeated else Value (utf8_lossy val)) rest
         | (_, []) \<Rightarrow> Inr Repeated
         | (_, _ # rest) \<Rightarrow> parse_mark Repeated rest)
      else Inl (UnexpectedArgument (utf8_lossy arg)))"

definition no_arguments :: "CliCommand \<Rightarrow> string list \<Rightarrow> CliError + CliCommand" where
  "no_arguments command args =
     (case args of [] \<Rightarrow> Inr command | arg # _ \<Rightarrow> Inl (UnexpectedArgument (utf8_lossy arg)))"

definition parse_args :: "string list \<Rightarrow> CliError + CliCommand" where
  "parse_args argv =
     (case tl argv of
        [] \<Rightarrow> Inr CliRun
      | v # args \<Rightarrow>
          if v = ''run'' then no_arguments CliRun args
          else if v = ''setup'' then andR (parse_mark MarkAbsent args) (\<lambda>m. Inr (CliSetup m))
          else if v = ''confirm'' then andR (parse_mark MarkAbsent args) (\<lambda>m. Inr (CliConfirm m))
          else if v = ''status'' then no_arguments CliStatus args
          else if v = ''about'' then no_arguments CliAbout args
          else if v = ''install-service'' then no_arguments CliInstallService args
          else if v = ''uninstall-service'' then no_arguments CliUninstallService args
          else if v = ''-h'' \<or> v = ''--help'' then no_arguments CliHelp args
          else if v = ''-V'' \<or> v = ''--version'' then no_arguments CliVersion args
          else Inl (UnknownCommand (utf8_lossy v)))"

end
