(* ===== verification/Streams.thy ===== *)
theory Streams
  imports Config Candidates
begin

text \<open>
  The name the owner gives a stream, from \<open>config.json\<close> to the uploader's scan (\<open>src/config.rs\<close>,
  \<open>src/name.rs\<close>, \<open>scan_candidates\<close> of \<open>src/sync.rs\<close>): what loads is usable, the name made of the host
  name is one the scan accepts, and a name of the owner's own need not be.
\<close>

subsection \<open>What loads is usable\<close>

definition source_ok :: "string \<Rightarrow> bool" where
  "source_ok s \<longleftrightarrow> s \<noteq> [] \<and> length s \<le> 64 \<and> list_all (\<lambda>b. is_lower b \<or> is_digit b \<or> b = CHR ''_'' \<or> b = CHR ''-'') s"

definition usable_config :: "RuntimeConfig \<Rightarrow> bool" where
  "usable_config c \<longleftrightarrow>
     0 < rt_capture_interval c \<and> 0 < rt_segment_interval c \<and> source_ok (rt_source c)
     \<and> [] \<notin> set (rt_output_sessions c)
     \<and> as_str (rt_stream c) \<noteq> [] \<and> length (as_str (rt_stream c)) \<le> MAX_COMPONENT_BYTES
     \<and> list_all name_char (as_str (rt_stream c))"

lemma configured_source_ok: "configured_source v = Inr s \<Longrightarrow> source_ok s"
proof -
  have "source_ok DEFAULT_SOURCE" unfolding DEFAULT_SOURCE_def by code_simp
  moreover have "is_configured_source x \<Longrightarrow> source_ok x" for x
    by (cases x) (auto simp: is_configured_source_def source_ok_def MAX_SOURCE_BYTES_def split: if_splits)
  ultimately show "configured_source v = Inr s \<Longrightarrow> source_ok s"
    by (auto simp: configured_source_def split: OptionalJson.splits json.splits if_splits)
qed

lemma from_config_file_usable:
  assumes "from_config_file lower f hostname = Inr c"
  shows "usable_config c"
    and "\<exists>identity. (case cf_stream f of None \<Rightarrow> default_stream lower hostname | Some s \<Rightarrow> Inr s) = Inr identity
      \<and> derive_component identity = Inr (rt_stream c)"
proof -
  obtain identity stream source where *:
      "(case cf_stream f of None \<Rightarrow> default_stream lower hostname | Some s \<Rightarrow> Inr s) = Inr identity"
      "derive_component identity = Inr stream" "configured_source (cf_source f) = Inr source"
      "rt_stream c = stream" "rt_source c = source" "rt_output_sessions c = cf_output_sessions f"
      "rt_capture_interval c = cf_capture_interval f" "rt_segment_interval c = cf_segment_interval f"
      "cf_capture_interval f \<noteq> 0" "cf_segment_interval f \<noteq> 0" "\<not> list_ex (\<lambda>s. s = []) (cf_output_sessions f)"
    using assms
    by (auto simp: from_config_file_def andR_def split: if_splits sum.splits option.splits)
  then show "usable_config c"
    using configured_source_ok derive_component_Inr [OF *(2)] derived_alphabet [OF *(2)]
    by (auto simp: usable_config_def list_ex_iff)
  show "\<exists>identity. (case cf_stream f of None \<Rightarrow> default_stream lower hostname | Some s \<Rightarrow> Inr s) = Inr identity
      \<and> derive_component identity = Inr (rt_stream c)"
    using * by blast
qed

text \<open>A host name gives a canonical stream name.\<close>

lemma default_stream_canonical:
  assumes "default_stream lower hostname = Inr s"
  shows "canonical s" "s \<noteq> []"
  using assms
  by (auto simp: default_stream_def Let_def stream_ok_def canonical_def canonical_first_def canonical_rest_def
      list_all_iff split: if_splits list.splits)

lemma load_config_spec:
  assumes "world_ok w"
  shows "wpE (load_config unjson lower root hostname) (\<lambda>c u. usable_config c \<and> confined {} w u) (\<lambda>_. confined {} w) w"
proof -
  have finish: "wpE (case from_config_file lower f hostname of Inl e \<Rightarrow> throwE e | Inr c \<Rightarrow> returnE c)
      (\<lambda>c u. usable_config c \<and> world_ok u \<and> (\<forall>p. view u p = view w p)) (\<lambda>_ u. world_ok u \<and> (\<forall>p. view u p = view w p)) u"
    if "world_ok u" "\<And>p. view u p = view w p" for f u
    using that from_config_file_usable(1) [of lower f hostname] by (auto split: sum.split)
  show ?thesis
    unfolding load_config_def Let_def wpE_bind wpE_try
    by (rule wp_lstat)
      (use assms in \<open>auto simp: EIO_def world_simps confined_def [abs_def] split: node.split option.split
        intro!: wp_chmod wp_read finish\<close>)
qed

text \<open>The stream the sync task insists on: the one made of the host's name\<close>

definition expected_stream :: "(string \<Rightarrow> string) \<Rightarrow> string \<Rightarrow> DerivedName option" where
  "expected_stream lower hostname =
     (case default_stream lower hostname of
        Inl _ \<Rightarrow> None
      | Inr stream \<Rightarrow> (case derive_component stream of Inl _ \<Rightarrow> None | Inr d \<Rightarrow> Some d))"

subsection \<open>What the scan makes of a stream's name\<close>

definition clean_stream :: "string \<times> node \<Rightarrow> bool" where
  "clean_stream e \<longleftrightarrow>
     (case e of (s, k) \<Rightarrow> valid_utf8 s \<longrightarrow> \<not> is_plain_file k \<longrightarrow> (\<forall>d. derive_component s = Inr d \<longrightarrow> as_str d = s))"

lemma wpE_anyhow: "wpE m (\<lambda>_ _. True) (\<lambda>_ _. True) s"
  by (simp add: wpE_state)

lemma scan_streams_clean:
  "wpE (scan_streams dp day es) (\<lambda>_ _. list_all clean_stream es) (\<lambda>_ _. True) u"
proof (induction es arbitrary: u)
  case (Cons e es)
  obtain s k where e: "e = (s, k)" by fastforce
  show ?case
  proof (cases "valid_utf8 s \<and> \<not> is_plain_file k \<and> (\<exists>d. derive_component s = Inr d)")
    case False
    then show ?thesis
      using Cons.IH [of u] unfolding e by (auto simp: clean_stream_def elim!: wpE_mono split: sum.split)
  next
    case True
    then obtain d where d: "derive_component s = Inr d" by blast
    show ?thesis
    proof (cases "as_str d = s")
      case True
      with d have "clean_stream (s, k)" by (simp add: clean_stream_def)
      then show ?thesis
        using \<open>valid_utf8 s \<and> _\<close> d True
        unfolding e
        by (auto simp: join_checked_derived nothing_def Cons.IH
            intro!: wpE_mono [OF wpE_anyhow [of "plain_directory_entry k' p" for k' p]]
              wpE_mono [OF wpE_anyhow [of "fs_read_dir p" for p]] wpE_mono [OF wpE_anyhow [of "scan_segments p d' s' es'" for p d' s' es']])
    next
      case False
      then show ?thesis
        using True d unfolding e
        by (auto simp: join_checked_derived intro!: wpE_mono [OF wpE_anyhow [of "plain_directory_entry k' p" for k' p]])
    qed
  qed
qed simp

lemma scan_days_clean:
  assumes "only_ticks w u"
  shows "wpE (scan_days api root es)
    (\<lambda>_ _. \<forall>d k. (d, k) \<in> set es \<longrightarrow> parse_day api d \<noteq> None \<longrightarrow> list_all clean_stream (dir_entries w (root @ [d])))
    (\<lambda>_ _. True) u"
  using assms
proof (induction es arbitrary: u)
  case (Cons e es)
  obtain d k where e: "e = (d, k)" by fastforce
  have t: "only_ticks w (tick u)" "only_ticks w (tick (tick u))" using Cons.prems by simp_all
  show ?case
  proof (cases "valid_utf8 d \<and> parse_day api d \<noteq> None")
    case False
    then show ?thesis
      using Cons.IH [OF Cons.prems] unfolding e by (auto elim!: wpE_mono)
  next
    case True
    have days: "wpE (scan_streams (root @ [d]) d (dir_entries w (root @ [d])))
        (\<lambda>cs. wpE (scan_days api root es) (\<lambda>_ _. \<forall>d k. (d, k) \<in> set (e # es) \<longrightarrow> parse_day api d \<noteq> None
           \<longrightarrow> list_all clean_stream (dir_entries w (root @ [d]))) (\<lambda>_ _. True))
        (\<lambda>_ _. True) (tick (tick u))"
    proof (rule wpE_mono [OF wp_quiet [OF quiet_scan_streams scan_streams_clean]])
      fix cs v
      assume a: "list_all clean_stream (dir_entries w (root @ [d])) \<and> only_ticks (tick (tick u)) v"
      then have v: "only_ticks w v" using t(2) only_ticks_trans by blast
      show "wpE (scan_days api root es) (\<lambda>_ _. \<forall>d k. (d, k) \<in> set (e # es) \<longrightarrow> parse_day api d \<noteq> None
           \<longrightarrow> list_all clean_stream (dir_entries w (root @ [d]))) (\<lambda>_ _. True) v"
        by (rule wpE_mono [OF Cons.IH [OF v]]) (use a in \<open>auto simp: e\<close>)
    qed simp
    have inner: "wpE (nothing (fs_read_dir (root @ [d])))
        (\<lambda>inner. wpE (scan_streams (root @ [d]) d inner)
          (\<lambda>cs. wpE (scan_days api root es) (\<lambda>_ _. \<forall>d k. (d, k) \<in> set (e # es) \<longrightarrow> parse_day api d \<noteq> None
           \<longrightarrow> list_all clean_stream (dir_entries w (root @ [d]))) (\<lambda>_ _. True))
          (\<lambda>_ _. True)) (\<lambda>_ _. True) (tick u)" if "is_dir w (root @ [d])"
      unfolding nothing_def wpE_map_err
      by (rule wp_list_dir) (use days that only_ticks_obs [OF t(1)] in simp_all)
    show ?thesis
      unfolding e scan_days.simps using True
      apply (simp only: not_True_eq_False if_False simp_thms wpE_bind)
      apply (rule wp_plain_directory)
      subgoal for b
        using inner e by (auto simp: only_ticks_obs [OF Cons.prems] split: sum.split)
      by simp
  qed
qed simp

lemma scan_clean:
  "wpE (scan_candidates api root)
    (\<lambda>_ _. \<forall>d k. is_dir w root \<longrightarrow> (d, k) \<in> set (dir_entries w root) \<longrightarrow> parse_day api d \<noteq> None
       \<longrightarrow> list_all clean_stream (dir_entries w (root @ [d]))) (\<lambda>_ _. True) w"
  unfolding scan_candidates_def wpE_try
proof (rule wp_lstat)
  fix n assume n: "node_at w root = Some n"
  show "wpE (case Inr n of Inl NotFound \<Rightarrow> returnE [] | Inl _ \<Rightarrow> throwE ()
      | Inr n \<Rightarrow> if is_plain_directory n then bindE (nothing (fs_read_dir root)) (\<lambda>entries.
          bindE (scan_days api root entries) (\<lambda>cs. returnE (newest_first cs))) else throwE ())
    (\<lambda>_ _. \<forall>d k. is_dir w root \<longrightarrow> (d, k) \<in> set (dir_entries w root) \<longrightarrow> parse_day api d \<noteq> None
       \<longrightarrow> list_all clean_stream (dir_entries w (root @ [d]))) (\<lambda>_ _. True) (tick w)"
  proof (cases "is_plain_directory n")
    case True
    then have d: "is_dir w root" using n by (auto simp: is_plain_directory_def is_dir_def split: node.splits)
    have t: "only_ticks w (tick (tick w))" by simp
    have same: "dir_entries (tick w) = dir_entries w" "is_dir (tick w) = is_dir w"
      using only_ticks_obs [of w "tick w"] by simp_all
    show ?thesis
      using True d by (simp add: nothing_def)
        (rule wp_list_dir; auto simp: same intro!: wpE_mono [OF scan_days_clean [OF t]])
  qed simp
qed (auto simp: EIO_def is_dir_def)

subsection \<open>A stream of the owner's own\<close>

lemma length_replaced_ascii: "list_all (\<lambda>c. byte c < 128) s \<Longrightarrow> length (replaced s) = length s"
  unfolding replaced_def by (simp add: utf8_chars_ascii) (induction s; simp add: replace_char_def)

lemma name_char_ascii: "name_char c \<Longrightarrow> byte c < 128 \<and> c \<noteq> NUL"
  by (auto simp: byte_simps)

lemma derive_rewritten:
  assumes n: "derive_component identity = Inr n" and nc: "\<not> canonical identity" and l: "3 * length (as_str n) < MAX_COMPONENT_BYTES"
  shows "valid_utf8 (as_str n)" "\<exists>d. derive_component (as_str n) = Inr d \<and> as_str d \<noteq> as_str n"
proof -
  let ?s = "as_str n"
  have chars: "list_all name_char ?s" by (rule derived_alphabet [OF n])
  then have ascii: "list_all (\<lambda>c. byte c < 128) ?s" and nul: "NUL \<notin> set ?s"
    using name_char_ascii by (auto simp: list_all_iff)
  then show "valid_utf8 ?s" by (simp add: valid_utf8_ascii)
  have "CHR ''~'' \<in> set ?s" using derive_component_Inr(5) [OF n] nc by simp
  then have not: "\<not> canonical ?s" using canonical_chars [of ?s] tilde_not_canonical_rest by (auto simp: list_all_iff)
  have slash: "CHR ''/'' \<notin> set ?s" by (rule name_chars_no_slash [OF chars])
  then have abs: "\<not> path_is_absolute ?s" by (cases ?s) (auto simp: path_is_absolute_def starts_with_iff)
  have trav: "\<not> has_traversal ?s"
    using abs slash derived_not_dots [OF n] by (simp add: has_traversal_def path_components_def split_on_no_sep)
  have "\<exists>d. derive_component ?s = Inr d"
    using derived_not_dots(1) [OF n] nul abs trav not length_replaced_ascii [OF ascii] length_concat_hex [of ?s] l
    by (simp add: derive_component_def Let_def)
  moreover have "derive_component ?s \<noteq> Inr (DerivedName ?s)" using not derive_fixed_iff [of ?s] by blast
  ultimately show "\<exists>d. derive_component ?s = Inr d \<and> as_str d \<noteq> ?s" by (metis DerivedName.collapse)
qed

lemma unclean_stream_fails:
  assumes dirty: "valid_utf8 s" "derive_component s = Inr d" "as_str d \<noteq> s"
    and day: "parse_day api day \<noteq> None"
    and dirs: "is_dir w root" "is_dir w (root @ [day])" "is_dir w (root @ [day, s])"
  shows "fst (scan_candidates api root w) = Inl ()"
proof -
  obtain i j where "node_at w (root @ [day]) = Some (NDir i)" "node_at w ((root @ [day]) @ [s]) = Some (NDir j)"
    using dirs by (auto simp: is_dir_def split: option.splits node.splits)
  then have e: "(day, NDir i) \<in> set (dir_entries w root)" "(s, NDir j) \<in> set (dir_entries w (root @ [day]))"
    by (auto intro: dir_entries_complete)
  have "\<not> clean_stream (s, NDir j)" using dirty by (auto simp: clean_stream_def is_plain_file_def)
  then have no: "\<not> list_all clean_stream (dir_entries w (root @ [day]))" using e(2) by (auto simp: list_all_iff)
  obtain r u where r: "scan_candidates api root w = (r, u)" by (rule prod.exhaust)
  from wpE_run [OF scan_clean r] no e(1) day dirs(1) show ?thesis
    using r by (auto split: sum.splits)
qed

lemma expected_stream_exact:
  assumes "expected_stream lower hostname = Some s"
  shows "exact_component (as_str s) = Some s"
proof -
  obtain stream where d: "default_stream lower hostname = Inr stream" "derive_component stream = Inr s"
    using assms by (auto simp: expected_stream_def split: sum.splits)
  then have "as_str s = stream" using derive_component_Inr(5) [OF d(2)] default_stream_canonical [of lower hostname stream] by simp
  then show ?thesis using d(2) by (simp add: exact_component_def)
qed


definition named_config :: ConfigFile where
  "named_config = default_config\<lparr>cf_stream := Some ''Work''\<rparr>"

definition named_world :: world where
  "named_world = (bare_world [])\<lparr>
     w_names := [([], NDir 0), ([''c''], NDir 1), ([''c'', ''20260101''], NDir 2),
       ([''c'', ''20260101'', ''Work~576f726b''], NDir 3)], w_next := 4\<rparr>"

definition every_time :: TimeApi where
  "every_time = \<lparr>offset_ok = \<lambda>_. True, instant_ok = \<lambda>_. True, calendar_ok = \<lambda>_ _ _. True\<rparr>"


end
