(* ===== verification/Task.thy ===== *)
theory Task
  imports Held Streams Schedule
begin

text \<open>
  The sync task (\<open>SyncTask::run\<close> in \<open>src/sync.rs\<close>): it waits for a pairing its owner has confirmed, insists
  on the stream made of the host's name, and keeps starting a session until one runs. What others do to the
  disk while it waits, the clocks, when the shutdown shows and whether a session can be started are any
  functions of what the task has done so far; the scheduler a session runs is modelled by itself
  (theory \<open>Sweep\<close>), here its run, and the health report of a session that did not shut down cleanly, are part of what happens
  to the disk. The loops have fuel; \<open>OutOfFuel\<close> is
  none of the code's results.
\<close>

datatype task_call =
  FoundPairing "DiagnosticCode + Credential option"
| JudgedPairing Credential bool
| Reported SyncFacts int
| Paused bool
| Looked bool
| WaitedUntil nat bool
| StartedSession Credential "DiagnosticCode option"
| RanSession "DiagnosticCode option"

datatype task_stop = TaskStopped | TaskFailed DiagnosticCode | TaskPanicked | OutOfFuel

record task_env =
  tk_pairing :: pairing_env
  tk_config_root :: path
  tk_data_root :: path
  tk_config :: RuntimeConfig
  tk_hostname :: string
  tk_lower :: "string \<Rightarrow> string"
  tk_health_json :: "HealthSnapshot \<Rightarrow> bytes option"
  tk_identity :: RunIdentity

record task_adversary =
  ta_disk :: "task_call list \<Rightarrow> world \<Rightarrow> world"
  ta_wall :: "task_call list \<Rightarrow> int"
  ta_instant :: "task_call list \<Rightarrow> nat"
  ta_stop :: "task_call list \<Rightarrow> bool"
  ta_start :: "task_call list \<Rightarrow> Credential \<Rightarrow> DiagnosticCode option"
  ta_finish :: "task_call list \<Rightarrow> DiagnosticCode option"

record task_run =
  tr_calls :: "task_call list"
  tr_locks :: locks

type_synonym 'a task = "(task_run, task_stop, 'a) sto"

subsection \<open>Single steps\<close>

definition note_call :: "task_call \<Rightarrow> unit task" where
  "note_call c = modifyE (\<lambda>(h, w). (h\<lparr>tr_calls := c # tr_calls h\<rparr>, w))"

definition with_locks :: "('e, 'a) lockio \<Rightarrow> (task_run, 'e, 'a) sto" where
  "with_locks m s =
     (case s of (h, w) \<Rightarrow> (case m (tr_locks h, w) of (r, (l, w)) \<Rightarrow> (r, (h\<lparr>tr_locks := l\<rparr>, w))))"

text \<open>A step at which others may change the disk\<close>

definition meanwhile :: "task_adversary \<Rightarrow> (task_call list \<Rightarrow> 'a) \<Rightarrow> ('a \<Rightarrow> task_call) \<Rightarrow> 'a task" where
  "meanwhile ad answer what s =
     (case s of (h, w) \<Rightarrow>
       let a = answer (tr_calls h) in
       (Inr a, (h\<lparr>tr_calls := what a # tr_calls h\<rparr>, ta_disk ad (tr_calls h) w)))"

definition pause :: "task_adversary \<Rightarrow> bool task" where
  "pause ad = meanwhile ad (ta_stop ad) Paused"

definition task_shutdown_requested :: "task_adversary \<Rightarrow> bool task" where
  "task_shutdown_requested ad = meanwhile ad (ta_stop ad) Looked"

definition wait_for_retry :: "task_adversary \<Rightarrow> nat \<Rightarrow> bool task" where
  "wait_for_retry ad deadline = meanwhile ad (ta_stop ad) (WaitedUntil deadline)"

definition start_session :: "task_adversary \<Rightarrow> Credential \<Rightarrow> DiagnosticCode option task" where
  "start_session ad c = meanwhile ad (\<lambda>h. ta_start ad h c) (StartedSession c)"

definition run_session :: "task_adversary \<Rightarrow> unit task" where
  "run_session ad =
     bindE (meanwhile ad (ta_finish ad) RanSession) (\<lambda>finished.
     case finished of None \<Rightarrow> returnE () | Some code \<Rightarrow> throwE (TaskFailed code))"

definition report_health :: "task_env \<Rightarrow> task_adversary \<Rightarrow> SyncFacts \<Rightarrow> unit task" where
  "report_health tk ad facts =
     bindE (getsE (\<lambda>s. ta_wall ad (tr_calls (fst s)))) (\<lambda>now.
     bindE (on_world (ignoreE (write_health (tk_health_json tk) (tk_data_root tk) (tk_identity tk) facts now))) (\<lambda>_.
     note_call (Reported facts now)))"

text \<open>\<open>refresh_waiting_health\<close>: reports until the shutdown shows.\<close>

fun heartbeat :: "task_env \<Rightarrow> task_adversary \<Rightarrow> SyncFacts \<Rightarrow> nat \<Rightarrow> unit task" where
  "heartbeat tk ad facts 0 = throwE OutOfFuel"
| "heartbeat tk ad facts (Suc n) =
     bindE (pause ad) (\<lambda>stop.
     if stop then returnE ()
     else bindE (report_health tk ad facts) (\<lambda>_. heartbeat tk ad facts n))"

definition refresh_waiting_health :: "task_env \<Rightarrow> task_adversary \<Rightarrow> SyncFacts \<Rightarrow> nat \<Rightarrow> unit task" where
  "refresh_waiting_health tk ad facts n =
     bindE (report_health tk ad facts) (\<lambda>_. heartbeat tk ad facts n)"

subsection \<open>The task\<close>

text \<open>At the start the answer file is settled, under the lock of the answer; a failure is passed over.\<close>

definition settle_answer_file :: "task_env \<Rightarrow> unit task" where
  "settle_answer_file tk =
     ignoreE
       (bindE (with_locks (acquire_answer_lock (tk_pairing tk) (tk_config_root tk))) (\<lambda>i.
        tryE (on_world (grandfather_or_settle (tk_pairing tk) (tk_config_root tk))) (\<lambda>r.
        bindE (with_locks (release i)) (\<lambda>_.
        case r of Inl e \<Rightarrow> throwE e | Inr x \<Rightarrow> returnE x))))"

definition load_now :: "task_env \<Rightarrow> (DiagnosticCode + Credential option) task" where
  "load_now tk =
     tryE (on_world (load_credential (pe_codec (tk_pairing tk)) (tk_config_root tk))) (\<lambda>loaded.
     bindE (note_call (FoundPairing loaded)) (\<lambda>_. returnE loaded))"

definition judge_pairing :: "task_env \<Rightarrow> Credential \<Rightarrow> bool task" where
  "judge_pairing tk c =
     bindE (on_world (is_pairing_confirmed (tk_pairing tk) (tk_config_root tk) c)) (\<lambda>confirmed.
     bindE (note_call (JudgedPairing c confirmed)) (\<lambda>_. returnE confirmed))"

fun find_pairing :: "task_env \<Rightarrow> task_adversary \<Rightarrow> nat \<Rightarrow> Credential task" where
  "find_pairing tk ad 0 = throwE OutOfFuel"
| "find_pairing tk ad (Suc n) =
     bindE (load_now tk) (\<lambda>loaded.
     case loaded of
       Inr (Some c) \<Rightarrow>
         bindE (judge_pairing tk c) (\<lambda>confirmed.
         if confirmed then returnE c
         else
           bindE (report_health tk ad (default_facts\<lparr>sf_paired := True, sf_held := True\<rparr>)) (\<lambda>_.
           bindE (pause ad) (\<lambda>stop. if stop then throwE TaskStopped else find_pairing tk ad n)))
     | Inr None \<Rightarrow>
         bindE (report_health tk ad default_facts) (\<lambda>_.
         bindE (pause ad) (\<lambda>stop. if stop then throwE TaskStopped else find_pairing tk ad n))
     | Inl code \<Rightarrow>
         bindE (refresh_waiting_health tk ad (sync_failed code default_facts) n) (\<lambda>_. throwE TaskStopped))"

text \<open>The retry delays are those of the scheduler's backoff; \<open>expect\<close> on a missing deadline would panic.\<close>

fun keep_starting :: "task_env \<Rightarrow> task_adversary \<Rightarrow> Credential \<Rightarrow> Backoff \<Rightarrow> SyncFacts \<Rightarrow> nat \<Rightarrow> unit task" where
  "keep_starting tk ad c reconnect facts 0 = throwE OutOfFuel"
| "keep_starting tk ad c reconnect facts (Suc n) =
     bindE (task_shutdown_requested ad) (\<lambda>stop.
     if stop then returnE ()
     else
       bindE (start_session ad c) (\<lambda>started.
       case started of
         None \<Rightarrow> run_session ad
       | Some code \<Rightarrow>
           let facts = sync_failed code facts in
           bindE (report_health tk ad facts) (\<lambda>_.
           bindE (getsE (\<lambda>s. ta_instant ad (tr_calls (fst s)))) (\<lambda>now.
           case Option.bind (failed_operation now reconnect) (\<lambda>b. map_option (\<lambda>d. (b, d)) (bo_deadline b)) of
             None \<Rightarrow> throwE TaskPanicked
           | Some (b, deadline) \<Rightarrow>
               bindE (wait_for_retry ad deadline) (\<lambda>stop.
               if stop then returnE () else keep_starting tk ad c (deadline_reached b) facts n)))))"

definition sync_with :: "task_env \<Rightarrow> task_adversary \<Rightarrow> nat \<Rightarrow> Credential \<Rightarrow> unit task" where
  "sync_with tk ad n c =
     (case expected_stream (tk_lower tk) (tk_hostname tk) of
        None \<Rightarrow> throwE (TaskFailed ConfiguredStreamMismatch)
      | Some stream \<Rightarrow>
          if rt_stream (tk_config tk) \<noteq> stream
          then refresh_waiting_health tk ad (sync_failed ConfiguredStreamMismatch default_facts) n
          else
            bindE (getsE (\<lambda>s. ta_wall ad (tr_calls (fst s)))) (\<lambda>now.
            keep_starting tk ad c new_backoff (default_facts\<lparr>sf_paired := True, sf_episode := Some now\<rparr>) n))"

definition run_task :: "task_env \<Rightarrow> task_adversary \<Rightarrow> nat \<Rightarrow> unit task" where
  "run_task tk ad n =
     bindE (settle_answer_file tk) (\<lambda>_.
     bindE (find_pairing tk ad n) (sync_with tk ad n))"

subsection \<open>What the task may do\<close>

definition saw_stop :: "task_call \<Rightarrow> bool" where
  "saw_stop e \<longleftrightarrow> (case e of Paused b \<Rightarrow> b | Looked b \<Rightarrow> b | WaitedUntil _ b \<Rightarrow> b | _ \<Rightarrow> False)"

text \<open>
  A session is started for a pairing found confirmed, on the stream made of the host's name, and not after
  the shutdown was seen. The newest call is first.
\<close>

fun session_rules :: "task_env \<Rightarrow> task_call list \<Rightarrow> bool" where
  "session_rules tk [] \<longleftrightarrow> True"
| "session_rules tk (StartedSession c r # h) \<longleftrightarrow>
     JudgedPairing c True \<in> set h \<and> list_all (\<lambda>e. \<not> saw_stop e) h
     \<and> expected_stream (tk_lower tk) (tk_hostname tk) = Some (rt_stream (tk_config tk))
     \<and> session_rules tk h"
| "session_rules tk (_ # h) \<longleftrightarrow> session_rules tk h"

definition uses_pairing :: "task_env \<Rightarrow> string \<Rightarrow> task_call \<Rightarrow> bool" where
  "uses_pairing tk g e \<longleftrightarrow>
     (case e of StartedSession c _ \<Rightarrow> generation_hex (tk_pairing tk) c = g
      | JudgedPairing c b \<Rightarrow> b \<and> generation_hex (tk_pairing tk) c = g
      | _ \<Rightarrow> False)"

text \<open>There is an answer, and it does not name the pairing.\<close>

definition answered_otherwise :: "task_env \<Rightarrow> string \<Rightarrow> world \<Rightarrow> bool" where
  "answered_otherwise tk g w \<longleftrightarrow>
     unconfirmed (tk_pairing tk) (tk_config_root tk) g w \<and> view w (tk_config_root tk @ [ANSWER_FILENAME]) \<noteq> None"

interpretation answered: watched "answered_otherwise tk g" "{tk_config_root tk @ [ANSWER_FILENAME]}" for tk g
  by unfold_locales (auto simp: answered_otherwise_def unconfirmed_def confined_def)

lemma answer_is_there:
  assumes "answered_otherwise tk g w"
  shows "wpE (read_answer_file (tk_pairing tk) (tk_config_root tk)) (\<lambda>x u. x \<noteq> None) (\<lambda>_ _. True) w"
  unfolding read_answer_file_def open_regular_readonly_def stage_io_def file_paths
  apply simp
  apply (rule wp_open_read)
  subgoal by (simp add: EIO_def)
  subgoal using assms by (simp add: answered_otherwise_def view_def)
  subgoal by simp
  apply (rule wp_seek)
  subgoal by (simp add: EIO_def)
  by (auto simp: split: node.split option.split intro!: wp_read_fd)

lemma keeps_settling: "keepsE (answered_otherwise tk g) (grandfather_or_settle (tk_pairing tk) (tk_config_root tk))"
proof (rule keepsE_I)
  fix w assume w: "answered_otherwise tk g w"
  have "wpE (read_answer_file (tk_pairing tk) (tk_config_root tk)) (\<lambda>_. answered_otherwise tk g) (\<lambda>_. answered_otherwise tk g) w"
    by (rule keepsE_D [OF answered.keeps_read_answer w])
  from wpE_conj [OF this answer_is_there [OF w]]
  show "wpE (grandfather_or_settle (tk_pairing tk) (tk_config_root tk)) (\<lambda>_. answered_otherwise tk g) (\<lambda>_. answered_otherwise tk g) w"
    unfolding grandfather_or_settle_def wpE_try by (rule wpE_mono) auto
qed

definition good :: "task_env \<Rightarrow> string \<Rightarrow> task_run \<times> world \<Rightarrow> bool" where
  "good tk g s \<longleftrightarrow>
     answered_otherwise tk g (snd s) \<and> session_rules tk (tr_calls (fst s))
     \<and> list_all (\<lambda>e. \<not> uses_pairing tk g e) (tr_calls (fst s))"

definition going :: "task_run \<times> world \<Rightarrow> bool" where
  "going s \<longleftrightarrow> list_all (\<lambda>e. \<not> saw_stop e) (tr_calls (fst s))"

definition onward :: "task_env \<Rightarrow> string \<Rightarrow> task_run \<times> world \<Rightarrow> task_run \<times> world \<Rightarrow> bool" where
  "onward tk g s t \<longleftrightarrow>
     good tk g t \<and> (going s \<longrightarrow> going t) \<and> set (tr_calls (fst s)) \<subseteq> set (tr_calls (fst t))"

lemma onward_refl: "good tk g s \<Longrightarrow> onward tk g s s"
  by (simp add: onward_def)

lemma onward_trans: "onward tk g s t \<Longrightarrow> onward tk g t u \<Longrightarrow> onward tk g s u"
  by (auto simp: onward_def)

lemma on_world_onward:
  assumes "keepsE (answered_otherwise tk g) m" "good tk g s"
  shows "wpE (on_world m) (\<lambda>_. onward tk g s) (\<lambda>_. onward tk g s) s"
  using keepsE_D [OF assms(1), of "snd s"] assms(2)
  by (cases s) (auto simp: good_def onward_def going_def elim!: wpE_mono)

lemma with_locks_onward:
  assumes "keepsE (answered.lifted tk g) m" "good tk g s"
  shows "wpE (with_locks m) (\<lambda>_. onward tk g s) (\<lambda>_. onward tk g s) s"
proof -
  obtain h w where s: "s = (h, w)" by (cases s)
  have "wpE m (\<lambda>_ t. answered_otherwise tk g (snd t)) (\<lambda>_ t. answered_otherwise tk g (snd t)) (tr_locks h, w)"
    by (rule answered.lifted_wp [OF assms(1)]) (use assms(2) s in \<open>simp add: good_def\<close>)
  then show ?thesis
    using assms(2) unfolding s
    by (auto simp: wpE_def with_locks_def good_def onward_def going_def split: prod.splits sum.splits)
qed

definition harmless :: "task_call \<Rightarrow> bool" where
  "harmless e \<longleftrightarrow> (case e of StartedSession _ _ \<Rightarrow> False | JudgedPairing _ b \<Rightarrow> \<not> b | _ \<Rightarrow> True)"

lemma harmless_rules: "harmless e \<Longrightarrow> session_rules tk (e # h) = session_rules tk h" "harmless e \<Longrightarrow> \<not> uses_pairing tk g e"
  by (cases e; simp add: harmless_def uses_pairing_def)+

lemma note_call_onward:
  assumes "good tk g s" "harmless e" "\<not> saw_stop e"
  shows "wpE (note_call e) (\<lambda>_. onward tk g s) R s"
  using assms harmless_rules by (cases s) (auto simp: note_call_def good_def onward_def going_def)

lemma meanwhile_spec:
  assumes "good tk g s" "\<And>h u. answered_otherwise tk g u \<Longrightarrow> answered_otherwise tk g (ta_disk ad h u)" "\<And>a. harmless (what a)"
  shows "wpE (meanwhile ad answer what) (\<lambda>a t. good tk g t \<and> (\<not> saw_stop (what a) \<longrightarrow> onward tk g s t)) R s"
  using assms harmless_rules
  by (cases s) (auto simp: wpE_def meanwhile_def good_def onward_def going_def Let_def)

lemma health_keeps: "keepsE (answered_otherwise tk g) (write_health json root idt f now)"
proof -
  have "confinedE (write_scope root (root @ [HEALTH_FILENAME])) (atomic_write_bytes (root @ [HEALTH_FILENAME]) root b)" for b
    by (rule confined_atomic_write [OF health_filename_plain subset_refl])
  moreover have "write_scope root (root @ [HEALTH_FILENAME]) \<inter> {tk_config_root tk @ [ANSWER_FILENAME]} = {}"
    by (auto simp: write_scope_def temporaries_def HEALTH_FILENAME_def ANSWER_FILENAME_def)
  ultimately show ?thesis
    unfolding write_health_def health_path
    by (auto intro!: keeps_intros answered.keeps_below split: option.split)
qed

text \<open>A step that keeps what holds, stops nothing, and never panics\<close>

definition steady :: "task_env \<Rightarrow> string \<Rightarrow> 'a task \<Rightarrow> bool" where
  "steady tk g m \<longleftrightarrow> (\<forall>s. good tk g s \<longrightarrow> wpE m (\<lambda>_. onward tk g s) (\<lambda>e t. good tk g t \<and> e \<noteq> TaskPanicked) s)"

definition safe :: "task_env \<Rightarrow> string \<Rightarrow> 'a task \<Rightarrow> bool" where
  "safe tk g m \<longleftrightarrow> (\<forall>s. good tk g s \<longrightarrow> wpE m (\<lambda>_. good tk g) (\<lambda>e t. good tk g t \<and> e \<noteq> TaskPanicked) s)"

lemma steady_wp: "steady tk g m \<Longrightarrow> good tk g s \<Longrightarrow> wpE m (\<lambda>_. onward tk g s) (\<lambda>e t. good tk g t \<and> e \<noteq> TaskPanicked) s"
  unfolding steady_def by blast

lemma safe_wp: "safe tk g m \<Longrightarrow> good tk g s \<Longrightarrow> wpE m (\<lambda>_. good tk g) (\<lambda>e t. good tk g t \<and> e \<noteq> TaskPanicked) s"
  unfolding safe_def by blast

lemma onward_good: "onward tk g s t \<Longrightarrow> good tk g t"
  by (simp add: onward_def)

lemma steady_safe: "steady tk g m \<Longrightarrow> safe tk g m"
  unfolding safe_def by (auto dest: onward_good elim!: wpE_mono [OF steady_wp])

lemma steady_bind:
  assumes "steady tk g m" "\<And>x. steady tk g (f x)"
  shows "steady tk g (bindE m f)"
  unfolding steady_def wpE_bind
proof (intro allI impI)
  fix s assume s: "good tk g s"
  show "wpE m (\<lambda>x. wpE (f x) (\<lambda>_. onward tk g s) (\<lambda>e t. good tk g t \<and> e \<noteq> TaskPanicked)) (\<lambda>e t. good tk g t \<and> e \<noteq> TaskPanicked) s"
    by (rule wpE_mono [OF steady_wp [OF assms(1) s]])
      (blast intro: onward_trans wpE_mono [OF steady_wp [OF assms(2) onward_good]])+
qed

lemma safe_bind:
  assumes "safe tk g m" "\<And>x. safe tk g (f x)"
  shows "safe tk g (bindE m f)"
  unfolding safe_def wpE_bind
proof (intro allI impI)
  fix s assume s: "good tk g s"
  show "wpE m (\<lambda>x. wpE (f x) (\<lambda>_. good tk g) (\<lambda>e t. good tk g t \<and> e \<noteq> TaskPanicked)) (\<lambda>e t. good tk g t \<and> e \<noteq> TaskPanicked) s"
    by (rule wpE_mono [OF safe_wp [OF assms(1) s]]) (auto elim!: wpE_mono [OF safe_wp [OF assms(2)]])
qed

lemma safe_return: "safe tk g (returnE x)"
  by (simp add: safe_def)

lemma safe_throw: "e \<noteq> TaskPanicked \<Longrightarrow> safe tk g (throwE e)"
  by (simp add: safe_def)

lemma steady_gets: "steady tk g (getsE f)"
  by (simp add: steady_def onward_refl)

lemma on_world_ignore: "wpE (on_world (ignoreE m)) Q R s = wpE (on_world m) (\<lambda>_. Q ()) (\<lambda>_. Q ()) s"
  by (cases s) simp

lemma steady_report: "steady tk g (report_health tk ad facts)"
proof -
  have "steady tk g (on_world (ignoreE (write_health (tk_health_json tk) (tk_data_root tk) (tk_identity tk) facts now)))" for now
    unfolding steady_def on_world_ignore
    by (intro allI impI on_world_onward health_keeps)
  moreover have "steady tk g (note_call (Reported facts now))" for now
    unfolding steady_def by (auto intro!: note_call_onward simp: harmless_def saw_stop_def)
  ultimately show ?thesis
    unfolding report_health_def by (intro steady_bind steady_gets)
qed

definition through :: "task_env \<Rightarrow> string \<Rightarrow> (task_run, 'e, 'a) sto \<Rightarrow> bool" where
  "through tk g m \<longleftrightarrow> (\<forall>s. good tk g s \<longrightarrow> wpE m (\<lambda>_. onward tk g s) (\<lambda>_. onward tk g s) s)"

lemma through_wp: "through tk g m \<Longrightarrow> good tk g s \<Longrightarrow> wpE m (\<lambda>_. onward tk g s) (\<lambda>_. onward tk g s) s"
  unfolding through_def by blast

lemma through_bind:
  assumes "through tk g m" "\<And>x. through tk g (f x)"
  shows "through tk g (bindE m f)"
  unfolding through_def wpE_bind
proof (intro allI impI)
  fix s assume s: "good tk g s"
  show "wpE m (\<lambda>x. wpE (f x) (\<lambda>_. onward tk g s) (\<lambda>_. onward tk g s)) (\<lambda>_. onward tk g s) s"
    by (rule wpE_mono [OF through_wp [OF assms(1) s]])
      (blast intro: onward_trans wpE_mono [OF through_wp [OF assms(2) onward_good]])+
qed

lemma through_try:
  assumes "through tk g m" "\<And>r. through tk g (f r)"
  shows "through tk g (tryE m f)"
  unfolding through_def wpE_try
proof (intro allI impI)
  fix s assume s: "good tk g s"
  show "wpE m (\<lambda>x. wpE (f (Inr x)) (\<lambda>_. onward tk g s) (\<lambda>_. onward tk g s)) (\<lambda>e. wpE (f (Inl e)) (\<lambda>_. onward tk g s) (\<lambda>_. onward tk g s)) s"
    by (rule wpE_mono [OF through_wp [OF assms(1) s]])
      (blast intro: onward_trans wpE_mono [OF through_wp [OF assms(2) onward_good]])+
qed

lemma through_simps: "through tk g (returnE x)" "through tk g (throwE e)"
  by (simp_all add: through_def onward_refl)

lemma through_world: "keepsE (answered_otherwise tk g) m \<Longrightarrow> through tk g (on_world m)"
  unfolding through_def by (blast intro: on_world_onward)

lemma through_locks: "keepsE (answered.lifted tk g) m \<Longrightarrow> through tk g (with_locks m)"
  unfolding through_def by (blast intro: with_locks_onward)

lemma through_steady: "through tk g m \<Longrightarrow> steady tk g (ignoreE m)"
  unfolding through_def steady_def by (simp add: split_paired_all)

lemma steady_return: "steady tk g (returnE x)"
  by (simp add: steady_def onward_refl)

lemma steady_try:
  assumes "through tk g m" "\<And>r. steady tk g (f r)"
  shows "steady tk g (tryE m f)"
  unfolding steady_def wpE_try
proof (intro allI impI)
  fix s assume s: "good tk g s"
  let ?R = "\<lambda>e t. good tk g t \<and> e \<noteq> TaskPanicked"
  show "wpE m (\<lambda>x. wpE (f (Inr x)) (\<lambda>_. onward tk g s) ?R) (\<lambda>e. wpE (f (Inl e)) (\<lambda>_. onward tk g s) ?R) s"
    by (rule wpE_mono [OF through_wp [OF assms(1) s]])
      (blast intro: onward_trans wpE_mono [OF steady_wp [OF assms(2) onward_good]])+
qed

lemma steady_settle: "steady tk g (settle_answer_file tk)"
proof -
  have "path_join (tk_config_root tk) ANSWER_LOCK_FILENAME \<notin> {tk_config_root tk @ [ANSWER_FILENAME]}"
    by (rule answer_locks_apart)
  note lock = answered.keeps_answer_lock [OF this]
  show ?thesis
    unfolding settle_answer_file_def
    by (intro through_steady through_bind through_try through_locks through_world lock answered.keeps_release keeps_settling)
      (simp add: through_simps split: sum.split)
qed

lemma steady_load: "steady tk g (load_now tk)"
proof -
  have "through tk g (on_world (load_credential (pe_codec (tk_pairing tk)) (tk_config_root tk)))"
    by (intro through_world answered.keeps_load)
  moreover have "steady tk g (note_call (FoundPairing r))" for r
    unfolding steady_def by (auto intro!: note_call_onward simp: harmless_def saw_stop_def)
  ultimately show ?thesis
    unfolding load_now_def by (intro steady_try steady_bind steady_return)
qed

lemma judge_spec:
  assumes s: "good tk g s"
  shows "wpE (judge_pairing tk c)
     (\<lambda>b t. onward tk g s t \<and> (b \<longrightarrow> JudgedPairing c True \<in> set (tr_calls (fst t)))) (\<lambda>_ _. False) s"
proof -
  let ?ask = "is_pairing_confirmed (tk_pairing tk) (tk_config_root tk) c :: (task_stop, bool) io"
  obtain h w where hw: "s = (h, w)" by (cases s)
  have w: "answered_otherwise tk g w" using s hw by (simp add: good_def)
  obtain r u where run: "?ask w = (r, u)" by (rule prod.exhaust)
  have "wpE ?ask (\<lambda>_. answered_otherwise tk g) (\<lambda>_. answered_otherwise tk g) w"
    by (rule keepsE_D [OF answered.keeps_confirmed w])
  moreover have "wpE ?ask (\<lambda>_ _. True) (\<lambda>_ _. False) w"
    by (rule always_wp [OF confirmed_never_fails])
  ultimately obtain b where b: "r = Inr b" "answered_otherwise tk g u"
    using run by (cases r) (auto simp: wpE_def)
  have "generation_hex (tk_pairing tk) c \<noteq> g" if "b"
    using unconfirmed_not_confirmed [of "tk_pairing tk" "tk_config_root tk" c w, where 'e = task_stop] w run b that
    by (auto simp: answered_otherwise_def)
  then show ?thesis
    using s run b unfolding hw judge_pairing_def note_call_def
    by (auto simp: wpE_def bindE_def on_world_def modifyE_def good_def onward_def going_def uses_pairing_def saw_stop_def)
qed

locale task_world =
  fixes tk :: task_env and ad :: task_adversary and g :: string
  assumes others_keep: "answered_otherwise tk g u \<Longrightarrow> answered_otherwise tk g (ta_disk ad h u)"
begin

abbreviation stops :: "task_stop \<Rightarrow> task_run \<times> world \<Rightarrow> bool" where
  "stops e t \<equiv> good tk g t \<and> e \<noteq> TaskPanicked"

lemma meanwhile_steps:
  assumes "good tk g s" "\<And>a. harmless (what a)"
  shows "wpE (meanwhile ad answer what) (\<lambda>a t. good tk g t \<and> (\<not> saw_stop (what a) \<longrightarrow> onward tk g s t)) stops s"
  by (rule meanwhile_spec [OF assms(1) others_keep assms(2)])

lemma waits:
  assumes "good tk g s"
  shows "wpE (pause ad) (\<lambda>stop t. good tk g t \<and> (\<not> stop \<longrightarrow> onward tk g s t)) stops s"
    and "wpE (task_shutdown_requested ad) (\<lambda>stop t. good tk g t \<and> (\<not> stop \<longrightarrow> onward tk g s t)) stops s"
    and "wpE (wait_for_retry ad deadline) (\<lambda>stop t. good tk g t \<and> (\<not> stop \<longrightarrow> onward tk g s t)) stops s"
  unfolding pause_def task_shutdown_requested_def wait_for_retry_def
  by (rule wpE_mono [OF meanwhile_steps [OF assms]]; simp add: harmless_def saw_stop_def)+

lemma pause_safe: "safe tk g (pause ad)"
  unfolding safe_def by (auto simp: split_paired_all elim!: wpE_mono [OF waits(1)])

lemma report_safe: "safe tk g (report_health tk ad facts)"
  by (rule steady_safe [OF steady_report])

lemma heartbeat_safe: "safe tk g (heartbeat tk ad facts n)"
  by (induction n) (auto intro!: safe_bind safe_throw safe_return pause_safe report_safe)

lemma refresh_safe: "safe tk g (refresh_waiting_health tk ad facts n)"
  unfolding refresh_waiting_health_def by (intro safe_bind report_safe heartbeat_safe)

lemma find_pairing_spec:
  assumes "good tk g s" "going s"
  shows "wpE (find_pairing tk ad n)
     (\<lambda>c t. good tk g t \<and> going t \<and> JudgedPairing c True \<in> set (tr_calls (fst t))) stops s"
  using assms
proof (induction n arbitrary: s)
  case 0
  then show ?case by simp
next
  case (Suc n)
  let ?Q = "\<lambda>c t. good tk g t \<and> going t \<and> JudgedPairing c True \<in> set (tr_calls (fst t))"
  have again: "wpE (bindE (report_health tk ad facts) (\<lambda>_. bindE (pause ad) (\<lambda>stop.
      if stop then throwE TaskStopped else find_pairing tk ad n))) ?Q stops t" if t: "onward tk g s t" for facts t
    unfolding wpE_bind
    by (rule wpE_mono [OF steady_wp [OF steady_report onward_good [OF t]]])
      (use t Suc.prems in \<open>auto simp: onward_def intro!: wpE_mono [OF waits(1)] Suc.IH\<close>)
  have failed: "wpE (bindE (refresh_waiting_health tk ad facts n) (\<lambda>_. throwE TaskStopped)) ?Q stops t"
    if t: "onward tk g s t" for facts t
    unfolding wpE_bind by (rule wpE_mono [OF safe_wp [OF refresh_safe onward_good [OF t]]]) simp_all
  have judged: "wpE (judge_pairing tk c) (\<lambda>b t. onward tk g s t \<and> (b \<longrightarrow> JudgedPairing c True \<in> set (tr_calls (fst t)))) stops t"
    if t: "onward tk g s t" for c t
    by (rule wpE_mono [OF judge_spec [OF onward_good [OF t]]]) (use t onward_trans in blast)+
  show ?case
    unfolding find_pairing.simps wpE_bind
    apply (rule wpE_mono [OF steady_wp [OF steady_load Suc.prems(1)]])
     prefer 2 apply assumption
    subgoal for loaded t
      apply (cases loaded)
       apply (simp only: sum.case failed)
      subgoal for found
        apply (cases found)
         apply (simp only: sum.case option.case again)
        apply (simp only: sum.case option.case wpE_bind)
        apply (rule wpE_mono [OF judged], assumption)
        subgoal for c b u
          using Suc.prems(2) by (cases b) (simp_all only: if_True if_False again, simp add: onward_def)
        by assumption
      done
    done
qed

abbreviation on_stream :: bool where
  "on_stream \<equiv> expected_stream (tk_lower tk) (tk_hostname tk) = Some (rt_stream (tk_config tk))"

lemma start_spec:
  assumes "good tk g s" "going s" "JudgedPairing c True \<in> set (tr_calls (fst s))" on_stream
  shows "wpE (start_session ad c) (\<lambda>_. onward tk g s) stops s"
proof -
  have "generation_hex (tk_pairing tk) c \<noteq> g"
    using assms(1,3) by (auto simp: good_def list_all_iff uses_pairing_def)
  then show ?thesis
    using assms
    by (cases s) (auto simp: wpE_def start_session_def meanwhile_def Let_def good_def going_def onward_def uses_pairing_def saw_stop_def others_keep)
qed

lemma run_session_safe: "safe tk g (run_session ad)"
  unfolding safe_def run_session_def wpE_bind
  by (intro allI impI, rule wpE_mono [OF meanwhile_steps]) (auto simp: harmless_def split: option.split)

lemma keep_starting_spec:
  assumes "good tk g s" "going s" "JudgedPairing c True \<in> set (tr_calls (fst s))" on_stream "bo_next_delay b \<le> 3"
  shows "wpE (keep_starting tk ad c b facts n) (\<lambda>_. good tk g) stops s"
  using assms
proof (induction n arbitrary: s b facts)
  case 0
  then show ?case by simp
next
  case (Suc n)
  have ready: "good tk g t \<and> going t \<and> JudgedPairing c True \<in> set (tr_calls (fst t))" if "onward tk g s t" for t
    using that Suc.prems by (auto simp: onward_def)
  have backoff: "\<exists>b' d. failed_operation now b = Some b' \<and> bo_deadline b' = Some d \<and> bo_next_delay (deadline_reached b') \<le> 3" for now
    using Suc.prems(5) by (simp add: failed_operation_def deadline_reached_def RETRY_DELAYS_def)
  have retry: "wpE (bindE (report_health tk ad facts) (\<lambda>_.
        bindE (getsE (\<lambda>s. ta_instant ad (tr_calls (fst s)))) (\<lambda>now.
        case Option.bind (failed_operation now b) (\<lambda>b. map_option (\<lambda>d. (b, d)) (bo_deadline b)) of
          None \<Rightarrow> throwE TaskPanicked
        | Some (b, deadline) \<Rightarrow>
            bindE (wait_for_retry ad deadline) (\<lambda>stop.
            if stop then returnE () else keep_starting tk ad c (deadline_reached b) facts n)))) (\<lambda>_. good tk g) stops t"
    if t: "onward tk g s t" for facts t
    unfolding wpE_bind wpE_gets
    apply (rule wpE_mono [OF steady_wp [OF steady_report onward_good [OF t]]])
     prefer 2 apply assumption
    subgoal premises u for y u
    proof -
      have u': "onward tk g s u" by (rule onward_trans [OF t u])
      obtain b' d where b': "failed_operation (ta_instant ad (tr_calls (fst u))) b = Some b'" "bo_deadline b' = Some d"
          "bo_next_delay (deadline_reached b') \<le> 3"
        using backoff by blast
      have "wpE (keep_starting tk ad c (deadline_reached b') facts n) (\<lambda>_. good tk g) stops v" if "onward tk g u v" for v
        using ready [OF onward_trans [OF u' that]] Suc.prems(4) b'(3) by (intro Suc.IH) simp_all
      then show ?thesis
        using b' by (auto intro!: wpE_mono [OF waits(3) [OF onward_good [OF u']]])
    qed
    done
  show ?case
    unfolding keep_starting.simps wpE_bind Let_def
    apply (rule wpE_mono [OF waits(2) [OF Suc.prems(1)]])
     prefer 2 apply assumption
    subgoal for stop t
      apply (cases stop)
       apply simp
      apply (simp only: if_False wpE_bind)
      apply (rule wpE_mono [OF start_spec])
           apply (use ready [of t] Suc.prems(4) in simp_all)
      subgoal for started u
        apply (cases started)
         apply (simp, rule safe_wp [OF run_session_safe], simp add: onward_good)
        apply (simp only: option.case)
        apply (rule retry, erule conjE, rule onward_trans, assumption, assumption)
        done
      done
    done
qed

lemma sync_with_spec:
  assumes "good tk g s" "going s" "JudgedPairing c True \<in> set (tr_calls (fst s))"
  shows "wpE (sync_with tk ad n c) (\<lambda>_. good tk g) stops s"
proof (cases "expected_stream (tk_lower tk) (tk_hostname tk)")
  case (Some stream)
  show ?thesis
  proof (cases "rt_stream (tk_config tk) = stream")
    case True
    then show ?thesis
      using assms Some by (simp add: sync_with_def keep_starting_spec new_backoff_def)
  qed (use assms Some in \<open>simp add: sync_with_def safe_wp [OF refresh_safe]\<close>)
qed (use assms in \<open>simp add: sync_with_def\<close>)

lemma run_task_spec:
  assumes "good tk g s" "going s"
  shows "wpE (run_task tk ad n) (\<lambda>_. good tk g) stops s"
  unfolding run_task_def wpE_bind
  apply (rule wpE_mono [OF steady_wp [OF steady_settle assms(1)]])
   prefer 2 apply assumption
  apply (rule wpE_mono [OF find_pairing_spec])
     apply (use assms in \<open>simp_all add: onward_def sync_with_spec\<close>)
  done

end

text \<open>Any company that leaves the answer as it is; what would break it is left undone.\<close>

definition respectful :: "task_env \<Rightarrow> string \<Rightarrow> task_adversary \<Rightarrow> task_adversary" where
  "respectful tk g ad = ad\<lparr>ta_disk := \<lambda>h u.
     if answered_otherwise tk g u \<and> \<not> answered_otherwise tk g (ta_disk ad h u) then u else ta_disk ad h u\<rparr>"

interpretation company: task_world tk "respectful tk g ad" g for tk g ad
  by unfold_locales (auto simp: respectful_def)

lemma respectful_already:
  assumes "\<And>h u. answered_otherwise tk g u \<Longrightarrow> answered_otherwise tk g (ta_disk ad h u)"
  shows "respectful tk g ad = ad"
  using assms by (auto simp: respectful_def fun_eq_iff intro!: task_adversary.equality)

definition fresh_task :: "locks \<Rightarrow> task_run" where
  "fresh_task l = \<lparr>tr_calls = [], tr_locks = l\<rparr>"

subsection \<open>When the task ends\<close>

abbreviation done_calls :: "task_run \<times> world \<Rightarrow> nat" where
  "done_calls s \<equiv> length (tr_calls (fst s))"

lemma report_counted: "wpE (report_health tk ad facts) (\<lambda>_ t. done_calls t = Suc (done_calls s)) (\<lambda>_ _. False) s"
  by (cases s) (simp add: report_health_def note_call_def wpE_anyhow [THEN wpE_mono])

lemma meanwhile_counted:
  "wpE (meanwhile ad answer what) (\<lambda>a t. a = answer (tr_calls (fst s)) \<and> done_calls t = Suc (done_calls s)) (\<lambda>_ _. False) s"
  by (cases s) (simp add: wpE_def meanwhile_def Let_def)

lemma load_counted: "wpE (load_now tk) (\<lambda>_ t. done_calls t = Suc (done_calls s)) (\<lambda>_ _. False) s"
  by (cases s) (simp add: load_now_def note_call_def wpE_anyhow [THEN wpE_mono])

lemma judge_counted: "wpE (judge_pairing tk c) (\<lambda>_ t. done_calls t = Suc (done_calls s)) (\<lambda>_ _. False) s"
  by (cases s) (simp add: judge_pairing_def note_call_def wpE_mono [OF always_wp [OF confirmed_never_fails]])

definition ends :: "(task_run, task_stop, 'a) sto \<Rightarrow> task_run \<times> world \<Rightarrow> bool" where
  "ends m s \<longleftrightarrow> wpE m (\<lambda>_ _. True) (\<lambda>e _. e \<noteq> OutOfFuel) s"

lemma ends_bind:
  assumes "wpE m (\<lambda>x t. P x t) (\<lambda>_ _. False) s" "\<And>x t. P x t \<Longrightarrow> ends (f x) t"
  shows "ends (bindE m f) s"
  unfolding ends_def wpE_bind by (rule wpE_mono [OF assms(1)]) (use assms(2) in \<open>auto simp: ends_def\<close>)

lemma ends_simps: "ends (returnE x) s" "ends (throwE e) s = (e \<noteq> OutOfFuel)"
  by (simp_all add: ends_def)

text \<open>From the \<open>k\<close>th call on the shutdown shows.\<close>

definition told_by :: "nat \<Rightarrow> task_adversary \<Rightarrow> bool" where
  "told_by k ad \<longleftrightarrow> (\<forall>h. k \<le> length h \<longrightarrow> ta_stop ad h)"

lemma waits_counted:
  assumes "told_by k ad"
  shows "wpE (pause ad) (\<lambda>stop t. (stop \<or> done_calls s < k) \<and> done_calls t = Suc (done_calls s)) (\<lambda>_ _. False) s"
    and "wpE (task_shutdown_requested ad) (\<lambda>stop t. (stop \<or> done_calls s < k) \<and> done_calls t = Suc (done_calls s)) (\<lambda>_ _. False) s"
    and "wpE (wait_for_retry ad d) (\<lambda>stop t. (stop \<or> done_calls s < k) \<and> done_calls t = Suc (done_calls s)) (\<lambda>_ _. False) s"
  using assms unfolding pause_def task_shutdown_requested_def wait_for_retry_def told_by_def
  by - (rule wpE_mono [OF meanwhile_counted]; use not_less in blast)+

lemma heartbeat_ends:
  assumes "told_by k ad" "0 < n" "k < done_calls s + n"
  shows "ends (heartbeat tk ad facts n) s"
  using assms(2,3)
proof (induction n arbitrary: s)
  case (Suc n)
  show ?case
    unfolding heartbeat.simps
    by (rule ends_bind [OF waits_counted(1) [OF assms(1)]])
      (use Suc in \<open>auto intro!: ends_bind [OF report_counted] Suc.IH simp: ends_simps\<close>)
qed simp

lemma refresh_ends:
  assumes "told_by k ad" "0 < n" "k < done_calls s + n"
  shows "ends (refresh_waiting_health tk ad facts n) s"
  unfolding refresh_waiting_health_def
  by (rule ends_bind [OF report_counted]) (use assms in \<open>auto intro!: heartbeat_ends\<close>)

lemma find_pairing_ends:
  assumes "told_by k ad" "1 < n" "k + 1 < done_calls s + n"
  shows "ends (find_pairing tk ad n) s"
  using assms(2,3)
proof (induction n arbitrary: s)
  case (Suc n)
  have again: "ends (bindE (report_health tk ad facts) (\<lambda>_. bindE (pause ad) (\<lambda>stop.
      if stop then throwE TaskStopped else find_pairing tk ad n))) t" if "done_calls s < done_calls t" for facts t
    by (rule ends_bind [OF report_counted], rule ends_bind [OF waits_counted(1) [OF assms(1)]])
      (use Suc.prems that in \<open>auto intro!: Suc.IH simp: ends_simps\<close>)
  have failed: "ends (bindE (refresh_waiting_health tk ad facts n) (\<lambda>_. throwE TaskStopped)) t"
    if "done_calls t = Suc (done_calls s)" for facts t
    using refresh_ends [OF assms(1), of n t] Suc.prems that
    by (auto simp: ends_def elim!: wpE_mono)
  show ?case
    unfolding find_pairing.simps
    apply (rule ends_bind [OF load_counted])
    subgoal for loaded t
      apply (cases loaded)
       apply (simp only: sum.case failed)
      subgoal for found
        apply (cases found)
         apply (simp only: sum.case option.case, rule again, simp)
        apply (simp only: sum.case option.case)
        apply (rule ends_bind [OF judge_counted])
        subgoal for c b u
          by (cases b) (simp_all only: if_True if_False ends_simps, rule again, simp)
        done
      done
    done
qed simp

lemma keep_starting_ends:
  assumes "told_by k ad" "0 < n" "k < done_calls s + n"
  shows "ends (keep_starting tk ad c b facts n) s"
  using assms(2,3)
proof (induction n arbitrary: s b facts)
  case (Suc n)
  have start: "wpE (start_session ad c) (\<lambda>_ t. done_calls t = Suc (done_calls s)) (\<lambda>_ _. False) s" for s
    unfolding start_session_def by (rule wpE_mono [OF meanwhile_counted]) simp_all
  have session: "ends (run_session ad) t" for t
    unfolding run_session_def
    by (rule ends_bind [OF meanwhile_counted]) (simp add: ends_simps split: option.split)
  show ?case
    unfolding keep_starting.simps Let_def
    apply (rule ends_bind [OF waits_counted(2) [OF assms(1)]])
    subgoal for stop t
      apply (cases stop)
       apply (simp add: ends_simps)
      apply (simp only: if_False)
      apply (rule ends_bind [OF start])
      subgoal for started u
        apply (cases started)
         apply (simp add: session)
        apply (simp only: option.case)
        apply (rule ends_bind [OF report_counted])
        apply (rule ends_bind [where P = "\<lambda>_ v. done_calls t < done_calls v"])
         apply simp
        apply (auto simp: ends_simps split: option.split)
        apply (rule ends_bind [OF waits_counted(3) [OF assms(1)]])
        using Suc.prems apply (auto intro!: Suc.IH simp: ends_simps)
        done
      done
    done
qed simp

lemma settle_never_fails: "wpE (settle_answer_file tk) (\<lambda>_ _. True) (\<lambda>_ _. False) s"
  unfolding settle_answer_file_def wpE_ignoreE by (rule wpE_anyhow)

lemma run_task_ends:
  assumes "told_by k ad" "k + 1 < n"
  shows "ends (run_task tk ad n) s"
proof -
  have sync: "ends (sync_with tk ad n c) t" for c t
  proof (cases "expected_stream (tk_lower tk) (tk_hostname tk)")
    case None
    then show ?thesis by (simp add: sync_with_def ends_simps)
  next
    case (Some stream)
    have "ends (bindE (getsE f) (\<lambda>now. keep_starting tk ad c new_backoff (facts now) n)) t" for f :: "_ \<Rightarrow> int" and facts
      by (rule ends_bind [where P = "\<lambda>_ _. True"]) (use assms in \<open>auto intro!: keep_starting_ends\<close>)
    then show ?thesis
      using Some assms by (auto simp: sync_with_def intro!: refresh_ends)
  qed
  have find: "ends (find_pairing tk ad n) t" for t
    by (rule find_pairing_ends [OF assms(1)]) (use assms(2) in simp_all)
  have "ends (bindE (find_pairing tk ad n) (sync_with tk ad n)) t" for t
    unfolding ends_def wpE_bind
    by (rule wpE_mono [OF find [unfolded ends_def]]) (use sync in \<open>simp_all add: ends_def\<close>)
  then show ?thesis
    unfolding run_task_def by (intro ends_bind [OF settle_never_fails])
qed

subsection \<open>The properties of the task\<close>

lemma not_started:
  "list_all (\<lambda>e. \<not> uses_pairing tk g e) h \<Longrightarrow> StartedSession c e \<in> set h \<Longrightarrow> generation_hex (tk_pairing tk) c \<noteq> g"
  by (fastforce simp: list_all_iff uses_pairing_def)

text \<open>
  C9. Nothing is sent for a pairing its owner did not confirm. While there is an answer and it is not for the
  pairing \<open>g\<close>, whatever else happens to the disk, whenever the shutdown shows, whatever the clocks say and
  whichever sessions can be started, the task never starts a session for \<open>g\<close>; every session it starts is for
  a pairing it found confirmed, on the stream made of the host's name and before it saw the shutdown; and the
  deadline of a retry is always there (the \<open>expect\<close> on it never panics).
\<close>

theorem task_syncs_confirmed_pairings_only:
  assumes "answered_otherwise tk g w"
    and "\<And>h u. answered_otherwise tk g u \<Longrightarrow> answered_otherwise tk g (ta_disk ad h u)"
  shows "case run_task tk ad n (fresh_task l, w) of (r, (h, _)) \<Rightarrow>
      r \<noteq> Inl TaskPanicked \<and> session_rules tk (tr_calls h)
      \<and> (\<forall>c e. StartedSession c e \<in> set (tr_calls h) \<longrightarrow> generation_hex (tk_pairing tk) c \<noteq> g)"
proof -
  have "good tk g (fresh_task l, w)" "going (fresh_task l, w)"
    using assms(1) by (simp_all add: good_def going_def fresh_task_def)
  note spec = company.run_task_spec [OF this, of ad n]
  have "respectful tk g ad = ad" by (rule respectful_already) (rule assms(2))
  from spec [unfolded this] show ?thesis
    using not_started by (fastforce simp: wpE_def good_def split: prod.splits sum.splits)
qed

definition waiting_world :: world where
  "waiting_world = (bare_world [])\<lparr>
     w_names := [([], NDir 0), ([''c''], NDir 1), ([''c'', ANSWER_FILENAME], NFile 2)], w_data := [(2, ''no'')], w_next := 3\<rparr>"

definition waiting_task :: task_env where
  "waiting_task = \<lparr>tk_pairing = su_answer sample_setup, tk_config_root = [''c''], tk_data_root = [''d''],
     tk_config = \<lparr>rt_stream = DerivedName ''host.tmux'', rt_capture_interval = 5, rt_segment_interval = 300,
       rt_cache_retention_days = 0, rt_status_indicator = False, rt_pane_title = False, rt_working_directory = False,
       rt_executable = False, rt_source = ''host'', rt_output_sessions = []\<rparr>,
     tk_hostname = ''host'', tk_lower = id, tk_health_json = \<lambda>_. None, tk_identity = \<lparr>run_id = ''r'', lock_inode = 1\<rparr>\<rparr>"

text \<open>Nobody else is there, no session can be started, and the shutdown shows at the tenth call.\<close>

definition quiet_company :: task_adversary where
  "quiet_company = \<lparr>ta_disk = \<lambda>_ w. w, ta_wall = \<lambda>_. 0, ta_instant = \<lambda>_. 0, ta_stop = \<lambda>h. 10 \<le> length h,
     ta_start = \<lambda>_ _. Some JournalTimeout, ta_finish = \<lambda>_. None\<rparr>"

theorem task_syncs_confirmed_pairings_only_witness:
  "case run_task waiting_task quiet_company 20 (fresh_task no_locks, waiting_world) of (r, (h, _)) \<Rightarrow>
      r \<noteq> Inl TaskPanicked \<and> session_rules waiting_task (tr_calls h)
      \<and> StartedSession new_pairing (Some JournalTimeout) \<notin> set (tr_calls h)"
proof -
  have "world_ok waiting_world" by (rule world_ok_checked) code_simp
  moreover have "''no'' \<noteq> hex_encode (replicate 32 NUL)" by code_simp
  ultimately have w: "answered_otherwise waiting_task (hex_encode (replicate 32 NUL)) waiting_world"
    by (simp add: answered_otherwise_def unconfirmed_def waiting_task_def sample_setup_def waiting_world_def view_def
        node_at_def contents_def)
  have q: "answered_otherwise waiting_task (hex_encode (replicate 32 NUL)) (ta_disk quiet_company h u)"
    if "answered_otherwise waiting_task (hex_encode (replicate 32 NUL)) u" for h u
    using that by (simp add: quiet_company_def)
  have "generation_hex (tk_pairing waiting_task) new_pairing = hex_encode (replicate 32 NUL)"
    by (simp add: waiting_task_def sample_setup_def generation_hex_def)
  with task_syncs_confirmed_pairings_only [OF w q, where n = 20 and l = no_locks] show ?thesis
    by (auto split: prod.splits)
qed

text \<open>
  C18. The task ends when it is told to. If the shutdown shows from the \<open>k\<close>th call on, then, whatever state the
  pairing and the disk are in, whoever else changes them and however often a session fails to start, none of the
  task's loops goes round more than \<open>k + 2\<close> times.
\<close>

theorem task_ends_when_told:
  assumes "told_by k ad" "k + 1 < n"
  shows "fst (run_task tk ad n s) \<noteq> Inl OutOfFuel"
  using run_task_ends [OF assms, of tk s] by (auto simp: ends_def wpE_def split: prod.splits sum.splits)

theorem task_ends_when_told_witness:
  "fst (run_task waiting_task quiet_company 12 (fresh_task no_locks, waiting_world)) \<noteq> Inl OutOfFuel"
proof -
  have "told_by 10 quiet_company" by (simp add: told_by_def quiet_company_def)
  from task_ends_when_told [OF this] show ?thesis by simp
qed

end
