(* ===== verification/Service.thy ===== *)
theory Service
  imports Tmux Held About
begin

text \<open>
  The service's files and the systemd manager (\<open>src/service.rs\<close>, \<open>src/service/systemd.rs\<close>). What a
  command answers and how long it takes is any function of the commands before it; the executables on the
  machine, their canonical paths, and the JSON of the local state are parameters of the host. The calls are
  kept, the newest first.
\<close>

definition STATE_FILENAME :: string where "STATE_FILENAME = ''local-observer.json''"
definition COMMAND_TIMEOUT :: nat where "COMMAND_TIMEOUT = 10"
definition tmux_path_marker :: bytes where "tmux_path_marker = [CHR 0x22] @ ''tmux_path'' @ [CHR 0x22]"

datatype ServiceStatus = Active | Restarting | Inactive | AbsentService

definition exit_code :: "ServiceStatus \<Rightarrow> int" where
  "exit_code s = (case s of Active \<Rightarrow> 0 | Restarting \<Rightarrow> 3 | Inactive \<Rightarrow> 3 | AbsentService \<Rightarrow> 4)"

datatype ServiceError =
  SvcPath PathError
| SvcStorage StorageError
| SvcCommand CommandError
| SvcIo path io_error
| InvalidArtifact path
| InvalidExecutable string
| InvalidUtf8Path string
| TmuxNotFound
| ManagerFailed (mf_action: string) int string
| LaunchdRecovery (lr_primary: ServiceError) (lr_reenable: ServiceError) string
| InvalidState string

definition status_exit_code :: "ServiceError + ServiceStatus \<Rightarrow> int" where
  "status_exit_code r = (case r of Inl _ \<Rightarrow> 1 | Inr s \<Rightarrow> exit_code s)"

type_synonym service_call = "CommandInvocation \<times> (CommandError + CommandOutput)"

record service_host =
  sh_runner :: "service_call list \<Rightarrow> CommandInvocation \<Rightarrow> CommandError + CommandOutput"
  sh_delay :: "service_call list \<Rightarrow> nat"
  sh_canonicalize :: "string \<Rightarrow> string option"
  sh_lstat :: "string \<Rightarrow> (bool \<times> bool \<times> nat) option"
  sh_json :: "string \<Rightarrow> bytes option"
  sh_unjson :: "bytes \<Rightarrow> string option"

record service_run =
  sr_calls :: "service_call list"
  sr_now :: nat

type_synonym ('e, 'a) svc = "(service_run, 'e, 'a) sto"

subsection \<open>Files of the service\<close>

text \<open>The file is there; a marker it must carry tells that the program wrote it.\<close>

definition validate_regular_file :: "path \<Rightarrow> bytes option \<Rightarrow> (ServiceError, bool) io" where
  "validate_regular_file p marker =
     tryE (fs_lstat p) (\<lambda>r.
       case r of
         Inl NotFound \<Rightarrow> returnE False
       | Inl e \<Rightarrow> throwE (SvcIo p e)
       | Inr (NFile _) \<Rightarrow>
           (case marker of
              None \<Rightarrow> returnE True
            | Some m \<Rightarrow>
                bindE (map_errE (SvcIo p) (fs_read p)) (\<lambda>b.
                if find_sub m b = None then throwE (InvalidArtifact p) else returnE True))
       | Inr _ \<Rightarrow> throwE (InvalidArtifact p))"

text \<open>The file is there, and holds just these bytes.\<close>

definition holds_already :: "path \<Rightarrow> bool \<Rightarrow> bytes \<Rightarrow> (ServiceError, bool) io" where
  "holds_already p present b =
     (if present then bindE (map_errE (SvcIo p) (fs_read p)) (\<lambda>found. returnE (found = b)) else returnE False)"

definition install_artifact :: "path \<Rightarrow> bytes \<Rightarrow> (ServiceError, bool) io" where
  "install_artifact p b =
     bindE (validate_regular_file p None) (\<lambda>present.
     bindE (holds_already p present b) (\<lambda>same.
     if same then returnE False
     else
       (case path_parent p of
          None \<Rightarrow> throwE (InvalidArtifact p)
        | Some parent \<Rightarrow>
            bindE (map_errE SvcPath (ensure_service_directory parent)) (\<lambda>_.
            bindE (map_errE SvcStorage (atomic_write_bytes p parent b)) (\<lambda>_.
            returnE True)))))"

definition remove_owned_regular_file :: "path \<Rightarrow> bytes option \<Rightarrow> (ServiceError, bool) io" where
  "remove_owned_regular_file p marker =
     bindE (validate_regular_file p marker) (\<lambda>present.
     if \<not> present then returnE False
     else
       bindE (map_errE (SvcIo p) (fs_remove_file p)) (\<lambda>_.
       case path_parent p of
         None \<Rightarrow> throwE (InvalidArtifact p)
       | Some parent \<Rightarrow> bindE (map_errE SvcStorage (sync_directory parent)) (\<lambda>_. returnE True)))"

subsection \<open>Executables\<close>

definition canonical_executable :: "service_host \<Rightarrow> string \<Rightarrow> ServiceError + string" where
  "canonical_executable host p =
     (case sh_canonicalize host p of
        None \<Rightarrow> Inl (InvalidExecutable p)
      | Some c \<Rightarrow>
          if \<not> path_is_absolute c then Inl (InvalidExecutable p)
          else (case sh_lstat host c of
                  None \<Rightarrow> Inl (InvalidExecutable p)
                | Some (is_symlink, is_file, mode) \<Rightarrow>
                    if is_symlink \<or> \<not> is_file \<or> mode div 64 mod 2 + mode div 8 mod 2 + mode mod 2 = 0
                    then Inl (InvalidExecutable p) else Inr c))"

definition standard_directories :: "PlatformKind \<Rightarrow> string list" where
  "standard_directories k =
     (case k of
        Linux \<Rightarrow> [''/usr/local/bin'', ''/usr/bin'', ''/bin'']
      | Macos \<Rightarrow> [''/opt/homebrew/bin'', ''/usr/local/bin'', ''/usr/bin'', ''/bin''])"

definition required_home :: "(string \<Rightarrow> string option) \<Rightarrow> ServiceError + string" where
  "required_home env = (case nonempty (env ''HOME'') of None \<Rightarrow> Inl (SvcPath MissingHome) | Some h \<Rightarrow> Inr h)"

text \<open>The first of each directory, as the environment spells it\<close>

fun first_seen :: "string list \<Rightarrow> string list \<Rightarrow> string list" where
  "first_seen seen [] = []"
| "first_seen seen (d # ds) = (if d \<in> set seen then first_seen seen ds else d # first_seen (d # seen) ds)"

definition search_directories :: "(string \<Rightarrow> string option) \<Rightarrow> string list \<Rightarrow> string list" where
  "search_directories env standards =
     first_seen [] (filter (\<lambda>d. d \<noteq> []) (split_on (CHR '':'') (case env ''PATH'' of None \<Rightarrow> [] | Some p \<Rightarrow> p)) @ standards)"

definition join_text :: "string \<Rightarrow> string \<Rightarrow> string" where
  "join_text d name = (if ends_with ''/'' d then d @ name else d @ ''/'' @ name)"

fun resolve_tmux :: "service_host \<Rightarrow> string list \<Rightarrow> ServiceError + string" where
  "resolve_tmux host [] = Inl TmuxNotFound"
| "resolve_tmux host (d # ds) =
     (case canonical_executable host (join_text d ''tmux'') of Inr p \<Rightarrow> Inr p | Inl _ \<Rightarrow> resolve_tmux host ds)"

text \<open>\<open>Path::parent\<close> of a canonical path\<close>

definition parent_text :: "string \<Rightarrow> string option" where
  "parent_text p =
     (case rsplit_once (CHR ''/'') p of
        None \<Rightarrow> Some []
      | Some (d, name) \<Rightarrow> if d = [] then (if name = [] then None else Some ''/'') else Some d)"

fun add_directories :: "string list \<Rightarrow> string list \<Rightarrow> string list" where
  "add_directories assembled [] = assembled"
| "add_directories assembled (d # ds) =
     add_directories (if list_ex (\<lambda>a. path_components a = path_components d) assembled then assembled else assembled @ [d]) ds"

definition join_paths :: "string list \<Rightarrow> string option" where
  "join_paths ds = (if list_ex (\<lambda>d. CHR '':'' \<in> set d) ds then None else Some (join_with '':'' ds))"

definition assembled_service_path :: "string \<Rightarrow> string list \<Rightarrow> ServiceError + string" where
  "assembled_service_path tmux_path directories =
     (case join_paths (add_directories (case parent_text tmux_path of None \<Rightarrow> [] | Some d \<Rightarrow> [d]) directories) of
        None \<Rightarrow> Inl (InvalidState ''could not assemble service PATH'')
      | Some p \<Rightarrow> Inr p)"

subsection \<open>The local state\<close>

definition persist_local_observer :: "service_host \<Rightarrow> path \<Rightarrow> string \<Rightarrow> (ServiceError, unit) io" where
  "persist_local_observer host root tmux_path =
     bindE (map_errE SvcPath (ensure_private_directory root)) (\<lambda>_.
     case sh_json host tmux_path of
       None \<Rightarrow> throwE (InvalidState ''could not serialize state'')
     | Some b \<Rightarrow> map_errE SvcStorage (atomic_write_bytes (path_join root STATE_FILENAME) root (b @ [LF])))"

definition read_local_observer_state :: "path \<Rightarrow> (ServiceError, bytes option) io" where
  "read_local_observer_state root =
     (let p = path_join root STATE_FILENAME in
      bindE (validate_regular_file p (Some tmux_path_marker)) (\<lambda>present.
      if \<not> present then returnE None
      else bindE (map_errE (SvcIo p) (fs_read p)) (\<lambda>b. returnE (Some b))))"

definition restore_local_observer_state :: "path \<Rightarrow> bytes option \<Rightarrow> (ServiceError, unit) io" where
  "restore_local_observer_state root previous =
     (let p = path_join root STATE_FILENAME in
      case previous of
        Some b \<Rightarrow> map_errE SvcStorage (atomic_write_bytes p root b)
      | None \<Rightarrow> bindE (remove_owned_regular_file p (Some tmux_path_marker)) (\<lambda>_. returnE ()))"

definition load_local_observer :: "service_host \<Rightarrow> path \<Rightarrow> (ServiceError, string) io" where
  "load_local_observer host root =
     (let p = path_join root STATE_FILENAME in
      bindE (validate_regular_file p None) (\<lambda>present.
      if \<not> present then throwE (InvalidState ''is missing'')
      else
        bindE (map_errE (SvcIo p) (fs_read p)) (\<lambda>b.
        case sh_unjson host b of
          None \<Rightarrow> throwE (InvalidState ''does not contain valid local solstone-tmux state'')
        | Some t \<Rightarrow>
            (case canonical_executable host t of
               Inl e \<Rightarrow> throwE e
             | Inr c \<Rightarrow>
                 if path_components c \<noteq> path_components t then throwE (InvalidState ''contains a non-canonical tmux path'')
                 else returnE t))))"

subsection \<open>Commands of a manager\<close>

definition run_service :: "service_host \<Rightarrow> string \<Rightarrow> ServiceOperation \<Rightarrow> string list \<Rightarrow> (ServiceError, CommandOutput) svc" where
  "run_service host exe oper args s =
     (case s of (h, w) \<Rightarrow>
       let inv = \<lparr>cm_operation = ServiceCommand oper, cm_executable = exe, cm_args = args, cm_timeout = COMMAND_TIMEOUT\<rparr>;
           r = sh_runner host (sr_calls h) inv in
       (case r of Inl e \<Rightarrow> Inl (SvcCommand e) | Inr out \<Rightarrow> Inr out,
        (h\<lparr>sr_calls := (inv, r) # sr_calls h, sr_now := sr_now h + sh_delay host (sr_calls h)\<rparr>, w)))"

text \<open>One command has been run, and the disk is as it was.\<close>

definition called :: "ServiceOperation \<Rightarrow> CommandError + CommandOutput \<Rightarrow> service_run \<times> world \<Rightarrow> service_run \<times> world \<Rightarrow> bool" where
  "called oper r s t \<longleftrightarrow>
     snd t = snd s \<and> sr_now (fst s) \<le> sr_now (fst t)
     \<and> (\<exists>ci. cm_operation ci = ServiceCommand oper \<and> sr_calls (fst t) = (ci, r) # sr_calls (fst s))"

lemma wp_run_service:
  assumes "\<And>e t. called oper (Inl e) s t \<Longrightarrow> R (SvcCommand e) t" "\<And>out t. called oper (Inr out) s t \<Longrightarrow> Q out t"
  shows "wpE (run_service host exe oper args) Q R s"
  using assms by (cases s) (auto simp: wpE_def run_service_def called_def Let_def split: sum.split)

definition manager_error :: "string \<Rightarrow> CommandOutput \<Rightarrow> ServiceError" where
  "manager_error action out = ManagerFailed action (co_status out) (trim (utf8_lossy (co_stderr out)))"

definition require_success :: "string \<Rightarrow> CommandOutput \<Rightarrow> ('s, ServiceError, unit) comp" where
  "require_success action out = (if co_status out = 0 then returnE () else throwE (manager_error action out))"

definition reports_absent :: "CommandOutput \<Rightarrow> bool" where
  "reports_absent out =
     (let stderr = to_ascii_lowercase (utf8_lossy (co_stderr out)) in
      co_status out = 3 \<or> co_status out = 4
      \<or> find_sub ''not found'' stderr \<noteq> None
      \<or> find_sub ''not loaded'' stderr \<noteq> None
      \<or> find_sub ''could not be found'' stderr \<noteq> None
      \<or> find_sub ''no such process'' stderr \<noteq> None)"

subsection \<open>systemd\<close>

definition UNIT_NAME :: string where "UNIT_NAME = ''solstone-tmux.service''"
definition OWNERSHIP_MARKER :: bytes where "OWNERSHIP_MARKER = ''Description=Solstone Tmux Observer'' @ [LF]"

definition unit_path :: "string \<Rightarrow> path" where
  "unit_path home = path_join (path_join (path_of home) ''.config/systemd/user'') UNIT_NAME"

definition escape_unit_char :: "char \<Rightarrow> string" where
  "escape_unit_char c =
     (if c = CHR 0x5C then [CHR 0x5C, CHR 0x5C]
      else if c = CHR 0x22 then [CHR 0x5C, CHR 0x22]
      else if c = CHR ''%'' then ''%%''
      else [c])"

definition escape_unit_value :: "string \<Rightarrow> ServiceError + string" where
  "escape_unit_value v =
     (if has_control v then Inl (InvalidState ''service paths must not contain control characters'')
      else Inr (concat (map escape_unit_char v)))"

definition utf8_text :: "string \<Rightarrow> ServiceError + string" where
  "utf8_text v = (if valid_utf8 v then Inr v else Inl (InvalidUtf8Path v))"

definition unit_lines :: "string \<Rightarrow> string \<Rightarrow> string list" where
  "unit_lines binary service_path =
     [''[Unit]'',
      ''Description=Solstone Tmux Observer'',
      ''After=basic.target'',
      ''StartLimitIntervalSec=0'',
      ''StartLimitBurst=5'',
      [],
      ''[Service]'',
      ''Type=simple'',
      ''Environment='' @ [CHR 0x22] @ ''PATH='' @ service_path @ [CHR 0x22],
      ''ExecStart='' @ [CHR 0x22] @ binary @ [CHR 0x22] @ '' run'',
      ''Restart=on-failure'',
      ''RestartSec=5'',
      [],
      ''[Install]'',
      ''WantedBy=default.target'']"

definition render_unit :: "string \<Rightarrow> string \<Rightarrow> ServiceError + bytes" where
  "render_unit binary service_path =
     andR (utf8_text binary) (\<lambda>b.
     andR (escape_unit_value b) (\<lambda>b.
     andR (utf8_text service_path) (\<lambda>p.
     andR (escape_unit_value p) (\<lambda>p.
     Inr (concat (map (\<lambda>l. l @ [LF]) (unit_lines b p)))))))"

definition systemctl :: "service_host \<Rightarrow> ServiceOperation \<Rightarrow> string list \<Rightarrow> (ServiceError, CommandOutput) svc" where
  "systemctl host oper args = run_service host ''systemctl'' oper args"

definition validate_unit :: "path \<Rightarrow> (ServiceError, bool) io" where
  "validate_unit p = validate_regular_file p (Some OWNERSHIP_MARKER)"

definition systemd_reload :: "service_host \<Rightarrow> (ServiceError, unit) svc" where
  "systemd_reload host =
     bindE (systemctl host SystemdDaemonReload [''--user'', ''daemon-reload'']) (require_success ''systemd daemon-reload'')"

definition systemd_stop :: "service_host \<Rightarrow> (ServiceError, unit) svc" where
  "systemd_stop host =
     bindE (systemctl host SystemdStop [''--user'', ''stop'', UNIT_NAME]) (\<lambda>out.
     if co_status out \<noteq> 0 \<and> \<not> reports_absent out then throwE (manager_error ''systemd stop'' out) else returnE ())"

definition systemd_prepare_install :: "service_host \<Rightarrow> string \<Rightarrow> string \<Rightarrow> string \<Rightarrow> (ServiceError, unit) svc" where
  "systemd_prepare_install host home binary service_path =
     (let p = unit_path home in
      case render_unit binary service_path of
        Inl e \<Rightarrow> throwE e
      | Inr b \<Rightarrow>
          bindE (on_world (validate_unit p)) (\<lambda>present.
          bindE (on_world (holds_already p present b)) (\<lambda>unchanged.
          if unchanged then returnE ()
          else
            bindE (systemd_stop host) (\<lambda>_.
            bindE (on_world (install_artifact p b)) (\<lambda>_.
            bindE (systemd_reload host) (\<lambda>_.
            returnE ()))))))"

definition systemd_activate :: "service_host \<Rightarrow> (ServiceError, unit) svc" where
  "systemd_activate host =
     bindE (bindE (systemctl host SystemdEnable [''--user'', ''enable'', UNIT_NAME]) (require_success ''systemd enable'')) (\<lambda>_.
     bindE (bindE (systemctl host SystemdRestart [''--user'', ''restart'', UNIT_NAME]) (require_success ''systemd restart'')) (\<lambda>_.
     bindE (systemctl host SystemdIsActive [''--user'', ''is-active'', UNIT_NAME]) (\<lambda>out.
     if co_status out \<noteq> 0 \<or> trim (utf8_lossy (co_stdout out)) \<noteq> ''active''
     then throwE (manager_error ''systemd active check'' out) else returnE ())))"

definition systemd_uninstall :: "service_host \<Rightarrow> string \<Rightarrow> (ServiceError, unit) svc" where
  "systemd_uninstall host home =
     (let p = unit_path home in
      bindE (on_world (validate_unit p)) (\<lambda>present.
      if \<not> present then returnE ()
      else
        bindE (systemctl host SystemdDisableNow [''--user'', ''disable'', ''--now'', UNIT_NAME]) (\<lambda>out.
        if co_status out \<noteq> 0 \<and> \<not> reports_absent out then throwE (manager_error ''systemd disable'' out)
        else
          bindE (on_world (remove_owned_regular_file p (Some OWNERSHIP_MARKER))) (\<lambda>_.
          systemd_reload host))))"

definition systemd_status :: "service_host \<Rightarrow> string \<Rightarrow> (ServiceError, ServiceStatus) svc" where
  "systemd_status host home =
     bindE (on_world (validate_unit (unit_path home))) (\<lambda>present.
     if \<not> present then returnE AbsentService
     else
       bindE (systemctl host SystemdIsActive [''--user'', ''is-active'', UNIT_NAME]) (\<lambda>out.
       let state = trim (utf8_lossy (co_stdout out)) in
       if co_status out = 0 \<and> state = ''active'' then returnE Active
       else if state = ''activating'' then returnE Restarting
       else if reports_absent out \<or> state \<in> {''inactive'', ''failed'', ''deactivating''} then returnE Inactive
       else throwE (manager_error ''systemd status'' out)))"

subsection \<open>A unit says what it was made from\<close>

text \<open>How systemd reads a value in double quotes: the value and what follows the closing quote.\<close>

fun unquote :: "string \<Rightarrow> (string \<times> string) option" where
  "unquote [] = None"
| "unquote (c # cs) =
     (if c = CHR 0x22 then Some ([], cs)
      else if c = CHR 0x5C then
        (case cs of d # ds \<Rightarrow> map_option (\<lambda>(v, r). (d # v, r)) (unquote ds) | [] \<Rightarrow> None)
      else if c = CHR ''%'' then
        (case cs of d # ds \<Rightarrow> if d = CHR ''%'' then map_option (\<lambda>(v, r). (d # v, r)) (unquote ds) else None | [] \<Rightarrow> None)
      else map_option (\<lambda>(v, r). (c # v, r)) (unquote cs))"

definition unit_setting :: "string \<Rightarrow> bytes \<Rightarrow> string option" where
  "unit_setting key u = find_map (strip_prefix (key @ ''='')) (split_on LF u)"

definition quoted_setting :: "string \<Rightarrow> bytes \<Rightarrow> (string \<times> string) option" where
  "quoted_setting key u =
     (case unit_setting key u of
        Some (c # v) \<Rightarrow> if c = CHR 0x22 then unquote v else None
      | _ \<Rightarrow> None)"

lemma unquote_escaped: "unquote (concat (map escape_unit_char v) @ CHR 0x22 # r) = Some (v, r)"
  by (induction v) (auto simp: escape_unit_char_def)

lemma valid_utf8_first: "valid_utf8 (c # cs) \<Longrightarrow> \<not> is_cont c"
  by (auto simp: utf8_front_def utf8_width_def is_cont_def Let_def)

lemma utf8_front_conts:
  assumes "utf8_front c cs = Inr n"
  shows "n - 1 \<le> length cs" "list_all is_cont (take (n - 1) cs)"
proof -
  have s: "second_ok a b \<Longrightarrow> 128 \<le> b \<and> b \<le> 191" for a b by (auto simp: second_ok_def split: if_splits)
  have width: "utf8_width (byte c) \<in> {0, 1, 2, 3, 4}" by (simp add: utf8_width_def)
  have t: "take 2 (a # b # r) = [a, b]" "take 3 (a # b # d # r) = [a, b, d]" for a b d :: char and r
    by (simp_all add: numeral_eq_Suc)
  from width show "n - 1 \<le> length cs" "list_all is_cont (take (n - 1) cs)"
    by (elim insertE emptyE; insert assms; simp add: utf8_front_def Let_def split: if_splits list.splits;
        auto simp: is_cont_def t dest!: s)+
qed

lemma utf8_chars_valid:
  assumes "valid_utf8 (c # cs)" "utf8_front c cs = Inr n"
  shows "takeWhile is_cont cs = take (n - 1) cs" "dropWhile is_cont cs = drop (n - 1) cs"
proof -
  have "valid_utf8 (drop (n - 1) cs)" using assms by simp
  then have "drop (n - 1) cs = [] \<or> \<not> is_cont (hd (drop (n - 1) cs))"
    using valid_utf8_first by (cases "drop (n - 1) cs") auto
  then have rest: "takeWhile is_cont (drop (n - 1) cs) = []" "dropWhile is_cont (drop (n - 1) cs) = drop (n - 1) cs"
    by (cases "drop (n - 1) cs"; simp)+
  have front: "x \<in> set (take (n - 1) cs) \<Longrightarrow> is_cont x" for x
    using utf8_front_conts(2) [OF assms(2)] by (simp add: list_all_iff)
  have "takeWhile is_cont (take (n - 1) cs @ drop (n - 1) cs) = take (n - 1) cs"
    using takeWhile_append2 [of "take (n - 1) cs" is_cont "drop (n - 1) cs"] front rest(1) by simp
  then show "takeWhile is_cont cs = take (n - 1) cs" by (simp only: append_take_drop_id)
  have "dropWhile is_cont (take (n - 1) cs @ drop (n - 1) cs) = drop (n - 1) cs"
    using dropWhile_append2 [of "take (n - 1) cs" is_cont "drop (n - 1) cs"] front rest(2) by simp
  then show "dropWhile is_cont cs = drop (n - 1) cs" by (simp only: append_take_drop_id)
qed

lemma ascii_is_char: "valid_utf8 v \<Longrightarrow> b \<in> set v \<Longrightarrow> byte b < 128 \<Longrightarrow> [b] \<in> set (utf8_chars v)"
proof (induction v rule: valid_utf8.induct)
  case (2 c cs)
  from 2(2) obtain n where n: "utf8_front c cs = Inr n" and rest: "valid_utf8 (drop (n - 1) cs)"
    by (auto split: sum.splits)
  note split = utf8_chars_valid [OF 2(2) n]
  show ?case
  proof (cases "b = c")
    case True
    then have "n = 1" using n 2(4) by (auto simp: utf8_front_def utf8_width_def)
    with split True show ?thesis by simp
  next
    case False
    have "b \<notin> set (take (n - 1) cs)" using utf8_front_conts(2) [OF n] 2(4) by (auto simp: list_all_iff is_cont_def)
    with False 2(3) have "b \<in> set (drop (n - 1) cs)" by (metis UnE append_take_drop_id set_ConsD set_append)
    from 2(1) [OF n rest this 2(4)] show ?thesis using split by simp
  qed
qed simp

lemma no_line_feed: "valid_utf8 v \<Longrightarrow> \<not> has_control v \<Longrightarrow> LF \<notin> set v"
  using ascii_is_char [of v LF] by (force simp: has_control_def list_ex_iff is_control_def)

lemma render_unit_cases:
  assumes "render_unit binary service_path = Inr u"
  shows "u = concat (map (\<lambda>l. l @ [LF]) (unit_lines (concat (map escape_unit_char binary)) (concat (map escape_unit_char service_path))))"
    and "LF \<notin> set binary" "LF \<notin> set service_path"
  using assms no_line_feed [of binary] no_line_feed [of service_path]
  by (auto simp: render_unit_def andR_def utf8_text_def escape_unit_value_def split: if_splits)

lemma split_lines: "(\<And>l. l \<in> set ls \<Longrightarrow> LF \<notin> set l) \<Longrightarrow> split_on LF (concat (map (\<lambda>l. l @ [LF]) ls)) = ls @ [[]]"
proof (induction ls)
  case (Cons l ls)
  have "split_on LF (l @ LF # r) = l # split_on LF r" if "LF \<notin> set l" for l r
    using that by (induction l) auto
  with Cons show ?case by simp
qed simp

lemma unit_split:
  assumes "render_unit binary service_path = Inr u"
  shows "split_on LF u = unit_lines (concat (map escape_unit_char binary)) (concat (map escape_unit_char service_path)) @ [[]]"
proof -
  have "LF \<notin> set (concat (map escape_unit_char v))" if "LF \<notin> set v" for v
    using that by (auto simp: escape_unit_char_def split: if_splits)
  then show ?thesis
    unfolding render_unit_cases(1) [OF assms]
    using render_unit_cases(2,3) [OF assms] by (intro split_lines) (auto simp: unit_lines_def)
qed

lemma unit_reads_back:
  assumes "render_unit binary service_path = Inr u"
  shows "length (split_on LF u) = 16"
    and "quoted_setting ''ExecStart'' u = Some (binary, '' run'')"
    and "quoted_setting ''Environment'' u = Some (''PATH='' @ service_path, [])"
proof -
  have "unit_setting ''ExecStart'' u = Some (CHR 0x22 # concat (map escape_unit_char binary) @ CHR 0x22 # '' run'')"
    "unit_setting ''Environment'' u = Some (CHR 0x22 # ''PATH='' @ concat (map escape_unit_char service_path) @ [CHR 0x22])"
    unfolding unit_setting_def unit_split [OF assms] unit_lines_def by (simp_all add: strip_prefix_def starts_with_def)
  moreover have "unquote (''PATH='' @ concat (map escape_unit_char service_path) @ [CHR 0x22]) = Some (''PATH='' @ service_path, [])"
    using unquote_escaped [of service_path "[]"] by simp
  ultimately show "quoted_setting ''ExecStart'' u = Some (binary, '' run'')"
    "quoted_setting ''Environment'' u = Some (''PATH='' @ service_path, [])"
    using unquote_escaped [of binary "'' run''"] by (simp_all add: quoted_setting_def)
  show "length (split_on LF u) = 16" by (simp add: unit_split [OF assms] unit_lines_def)
qed

end
