(* ===== verification/Launchd.thy ===== *)
theory Launchd
  imports Service
begin

text \<open>
  The launchd manager (\<open>src/service/launchd.rs\<close>): the property list, what \<open>launchctl print\<close> says, and how a
  job is stopped, unloaded, enabled and loaded again. Times are in milliseconds.
\<close>

definition LABEL :: string where "LABEL = ''com.solstone.tmux''"
definition QUIESCENCE_TIMEOUT :: nat where "QUIESCENCE_TIMEOUT = 5000"
definition QUIESCENCE_POLL_INTERVAL :: nat where "QUIESCENCE_POLL_INTERVAL = 50"

datatype JobState = Running | Quiescent | AbsentJob

definition agent_path :: "string \<Rightarrow> path" where
  "agent_path home = path_join (path_join (path_of home) ''Library/LaunchAgents'') (LABEL @ ''.plist'')"

definition replace_char_with :: "char \<Rightarrow> string \<Rightarrow> string \<Rightarrow> string" where
  "replace_char_with c r v = concat (map (\<lambda>x. if x = c then r else [x]) v)"

definition xml_escape :: "string \<Rightarrow> string" where
  "xml_escape v =
     replace_char_with (CHR 0x27) ''&apos;''
       (replace_char_with (CHR 0x22) ''&quot;''
         (replace_char_with (CHR ''>'') ''&gt;''
           (replace_char_with (CHR ''<'') ''&lt;''
             (replace_char_with (CHR ''&'') ''&amp;'' v))))"

definition DQ :: string where "DQ = [CHR 0x22]"

definition string_line :: "string \<Rightarrow> string" where
  "string_line v = ''<string>'' @ v @ ''</string>''"

text \<open>The values are escaped; a continued line of the literal loses its indentation.\<close>

definition plist_lines :: "string \<Rightarrow> string \<Rightarrow> string \<Rightarrow> string option \<Rightarrow> string list" where
  "plist_lines binary service_path home tmux_tmpdir =
     [''<?xml version='' @ DQ @ ''1.0'' @ DQ @ '' encoding='' @ DQ @ ''UTF-8'' @ DQ @ ''?>'',
      ''<!DOCTYPE plist PUBLIC '' @ DQ @ ''-//Apple//DTD PLIST 1.0//EN'' @ DQ @ '' ''
        @ DQ @ ''http://www.apple.com/DTDs/PropertyList-1.0.dtd'' @ DQ @ ''>'',
      ''<plist version='' @ DQ @ ''1.0'' @ DQ @ ''>'',
      ''<dict>'',
      ''<key>Label</key>'', string_line LABEL,
      ''<key>ProgramArguments</key>'',
      ''<array>'', string_line binary, string_line ''run'', ''</array>'',
      ''<key>EnvironmentVariables</key>'',
      ''<dict>'',
      ''<key>HOME</key>'', string_line home,
      ''<key>PATH</key>'', string_line service_path]
     @ (case tmux_tmpdir of None \<Rightarrow> [] | Some t \<Rightarrow> [''    <key>TMUX_TMPDIR</key>'', string_line t])
     @ [''<key>LC_ALL</key>'', string_line ''UTF-8'',
        ''</dict>'',
        ''<key>RunAtLoad</key>'', ''<true/>'',
        ''<key>KeepAlive</key>'',
        ''<dict>'', ''<key>SuccessfulExit</key>'', ''<false/>'', ''</dict>'',
        ''<key>ThrottleInterval</key>'', ''<integer>5</integer>'',
        ''<key>ProcessType</key>'', string_line ''Background'',
        ''<key>StandardOutPath</key>'', string_line (home @ ''/Library/Logs/solstone-tmux.log''),
        ''<key>StandardErrorPath</key>'', string_line (home @ ''/Library/Logs/solstone-tmux.log''),
        ''</dict>'',
        ''</plist>'']"

definition render_plist :: "string \<Rightarrow> string \<Rightarrow> string \<Rightarrow> string option \<Rightarrow> ServiceError + bytes" where
  "render_plist binary service_path home tmux_tmpdir =
     andR (utf8_text binary) (\<lambda>b.
     andR (utf8_text service_path) (\<lambda>p.
     andR (utf8_text home) (\<lambda>h.
     andR (case tmux_tmpdir of None \<Rightarrow> Inr None | Some t \<Rightarrow> andR (utf8_text t) (\<lambda>t. Inr (Some (xml_escape t)))) (\<lambda>t.
     Inr (concat (map (\<lambda>l. l @ [LF]) (plist_lines (xml_escape b) (xml_escape p) (xml_escape h) t)))))))"

definition ownership_marker :: bytes where "ownership_marker = ''<string>'' @ LABEL @ ''</string>''"

definition gui_domain :: "nat \<Rightarrow> string" where "gui_domain uid = ''gui/'' @ dec_of_nat uid"
definition job_target :: "nat \<Rightarrow> string" where "job_target uid = gui_domain uid @ ''/'' @ LABEL"

subsection \<open>What launchctl says\<close>

definition names_live_pid :: "string \<Rightarrow> bool" where
  "names_live_pid line =
     (case strip_prefix [CHR 0x09] line of
        None \<Rightarrow> False
      | Some fld \<Rightarrow>
          if (case utf8_chars fld of [] \<Rightarrow> False | g # _ \<Rightarrow> is_space g) then False
          else (case find_sub '' = '' fld of
                  None \<Rightarrow> False
                | Some i \<Rightarrow>
                    let v = drop (i + 3) fld in
                    take i fld = ''pid'' \<and> list_all is_digit v \<and> list_ex (\<lambda>b. b \<noteq> CHR ''0'') v))"

definition has_top_level_pid :: "bytes \<Rightarrow> bool" where
  "has_top_level_pid stdout \<longleftrightarrow> list_ex names_live_pid (str_lines (utf8_lossy stdout))"

definition reports_missing_service :: "nat \<Rightarrow> CommandOutput \<Rightarrow> bool" where
  "reports_missing_service uid out \<longleftrightarrow>
     co_status out = 113
     \<and> list_ex (\<lambda>line. line = ''Could not find service '' @ DQ @ LABEL @ DQ @ '' in domain for user gui: '' @ dec_of_nat uid)
         (split_on LF (co_stderr out))"

definition classify_print :: "nat \<Rightarrow> string \<Rightarrow> CommandOutput \<Rightarrow> ServiceError + JobState" where
  "classify_print uid action out =
     (if co_status out = 0 then Inr (if has_top_level_pid (co_stdout out) then Running else Quiescent)
      else if reports_missing_service uid out then Inr AbsentJob
      else Inl (manager_error action out))"

subsection \<open>Commands\<close>

definition launchctl :: "service_host \<Rightarrow> ServiceOperation \<Rightarrow> string list \<Rightarrow> (ServiceError, CommandOutput) svc" where
  "launchctl host oper args = run_service host ''launchctl'' oper args"

definition path_text :: "string \<Rightarrow> string" where
  "path_text home = join_text (join_text home ''Library/LaunchAgents'') (LABEL @ ''.plist'')"

definition launchd_bootout :: "service_host \<Rightarrow> nat \<Rightarrow> string \<Rightarrow> (ServiceError, CommandOutput) svc" where
  "launchd_bootout host uid home = launchctl host LaunchdBootout [''bootout'', gui_domain uid, path_text home]"

definition launchd_disable :: "service_host \<Rightarrow> nat \<Rightarrow> (ServiceError, unit) svc" where
  "launchd_disable host uid =
     bindE (launchctl host LaunchdDisable [''disable'', job_target uid]) (require_success ''launchd disable'')"

definition launchd_enable :: "service_host \<Rightarrow> nat \<Rightarrow> (ServiceError, unit) svc" where
  "launchd_enable host uid =
     bindE (launchctl host LaunchdEnable [''enable'', job_target uid]) (require_success ''launchd enable'')"

definition launchd_kill :: "service_host \<Rightarrow> nat \<Rightarrow> (ServiceError, CommandOutput) svc" where
  "launchd_kill host uid = launchctl host LaunchdKill [''kill'', ''SIGTERM'', job_target uid]"

definition launchd_print :: "service_host \<Rightarrow> nat \<Rightarrow> (ServiceError, CommandOutput) svc" where
  "launchd_print host uid = launchctl host LaunchdPrint [''print'', job_target uid]"

definition launchd_bootstrap :: "service_host \<Rightarrow> nat \<Rightarrow> string \<Rightarrow> (ServiceError, unit) svc" where
  "launchd_bootstrap host uid home =
     bindE (launchctl host LaunchdBootstrap [''bootstrap'', gui_domain uid, path_text home]) (require_success ''launchd bootstrap'')"

definition printed_state :: "service_host \<Rightarrow> nat \<Rightarrow> string \<Rightarrow> (ServiceError, JobState) svc" where
  "printed_state host uid action =
     bindE (launchd_print host uid) (\<lambda>out.
     case classify_print uid action out of Inl e \<Rightarrow> throwE e | Inr state \<Rightarrow> returnE state)"

subsection \<open>Stopping\<close>

definition sleep_until :: "nat \<Rightarrow> service_run \<times> world \<Rightarrow> service_run \<times> world" where
  "sleep_until t s = (case s of (h, w) \<Rightarrow> (h\<lparr>sr_now := max (sr_now h) t\<rparr>, w))"

lemma printed_state_clock:
  "printed_state host uid action s = (r, t) \<Longrightarrow> sr_now (fst s) \<le> sr_now (fst t)"
  by (cases s)
    (auto simp: printed_state_def launchd_print_def launchctl_def run_service_def bindE_def throwE_def returnE_def Let_def
      split: sum.splits)

lemma poll_later: "printed_state host uid action (sleep_until next_poll s) = (r, t) \<Longrightarrow> next_poll \<le> sr_now (fst t)"
  using printed_state_clock [of host uid action "sleep_until next_poll s" r t]
  by (auto simp: sleep_until_def split: prod.splits)

lemma poll_progress:
  assumes "(r, t) = printed_state host uid action (sleep_until next_poll s)" "\<not> deadline \<le> sr_now (fst t)"
  shows "deadline - (next_poll + QUIESCENCE_POLL_INTERVAL) < deadline - next_poll"
  using poll_later [OF assms(1) [symmetric]] assms(2) by (simp add: QUIESCENCE_POLL_INTERVAL_def)

text \<open>The loop of \<open>unload\<close>: it ends, for each poll is later than the one before and none is repeated past the deadline.\<close>

function await_quiescence ::
  "service_host \<Rightarrow> nat \<Rightarrow> nat \<Rightarrow> nat \<Rightarrow> service_run \<times> world \<Rightarrow> (ServiceError + JobState) \<times> service_run \<times> world" where
  "await_quiescence host uid deadline next_poll s =
     (case printed_state host uid ''launchd quiescence check'' (sleep_until next_poll s) of
        (Inl e, t) \<Rightarrow> (Inl e, t)
      | (Inr state, t) \<Rightarrow>
          if state \<noteq> Running then (Inr state, t)
          else if deadline \<le> sr_now (fst t) then (Inl (InvalidState ''still reports a live pid''), t)
          else await_quiescence host uid deadline (next_poll + QUIESCENCE_POLL_INTERVAL) t)"
  by pat_completeness auto

termination
  by (relation "measure (\<lambda>(host, uid, deadline, next_poll, s). deadline - next_poll)")
    (auto intro!: poll_progress dest: sym)

declare await_quiescence.simps [simp del]

definition kill_and_wait :: "service_host \<Rightarrow> nat \<Rightarrow> (ServiceError, JobState) svc" where
  "kill_and_wait host uid =
     bindE (launchd_kill host uid) (\<lambda>out.
     if co_status out \<noteq> 0 \<and> \<not> reports_missing_service uid out then throwE (manager_error ''launchd kill'' out)
     else
       bindE (getsE (\<lambda>s. sr_now (fst s))) (\<lambda>started.
       await_quiescence host uid (started + QUIESCENCE_TIMEOUT) (started + QUIESCENCE_POLL_INTERVAL)))"

definition unload :: "service_host \<Rightarrow> nat \<Rightarrow> string \<Rightarrow> JobState \<Rightarrow> (ServiceError, unit) svc" where
  "unload host uid home state =
     bindE (if state = Running then kill_and_wait host uid else returnE state) (\<lambda>state.
     if state = AbsentJob then returnE ()
     else
       bindE (launchd_bootout host uid home) (\<lambda>out.
       if co_status out = 0 \<or> reports_missing_service uid out then returnE ()
       else throwE (manager_error ''launchd bootout'' out)))"

text \<open>A job that could not be stopped is enabled again, or the error tells that it is not.\<close>

definition graceful_stop :: "service_host \<Rightarrow> nat \<Rightarrow> string \<Rightarrow> string \<Rightarrow> (ServiceError, unit) svc" where
  "graceful_stop host uid home retry_command =
     tryE
       (bindE (launchd_disable host uid) (\<lambda>_.
        bindE (printed_state host uid ''launchd stop inspection'') (unload host uid home)))
       (\<lambda>result.
         case result of
           Inr _ \<Rightarrow> returnE ()
         | Inl failed \<Rightarrow>
             tryE (launchd_enable host uid) (\<lambda>again.
             case again of
               Inr _ \<Rightarrow> throwE failed
             | Inl reenable \<Rightarrow> throwE (LaunchdRecovery failed reenable retry_command)))"

subsection \<open>Installing and uninstalling\<close>

definition launchd_prepare_install ::
  "service_host \<Rightarrow> string \<Rightarrow> nat \<Rightarrow> string \<Rightarrow> string \<Rightarrow> string option \<Rightarrow> (ServiceError, bool) svc" where
  "launchd_prepare_install host home uid binary service_path tmux_tmpdir =
     (let p = agent_path home in
      case render_plist binary service_path home tmux_tmpdir of
        Inl e \<Rightarrow> throwE e
      | Inr b \<Rightarrow>
          bindE (on_world (validate_regular_file p (Some ownership_marker))) (\<lambda>present.
          bindE (on_world (holds_already p present b)) (\<lambda>unchanged.
          if unchanged then returnE False
          else
            bindE (if present then graceful_stop host uid home ''install-service'' else returnE ()) (\<lambda>_.
            bindE (on_world (install_artifact p b)) (\<lambda>_.
            bindE (launchd_enable host uid) (\<lambda>_.
            returnE True))))))"

definition verify_loaded :: "service_host \<Rightarrow> nat \<Rightarrow> (ServiceError, unit) svc" where
  "verify_loaded host uid =
     bindE (launchd_print host uid) (\<lambda>out.
     if co_status out \<noteq> 0 then throwE (manager_error ''launchd loaded check'' out)
     else if \<not> has_top_level_pid (co_stdout out) then throwE (InvalidState ''is loaded but does not report a live pid'')
     else returnE ())"

definition launchd_activate :: "service_host \<Rightarrow> nat \<Rightarrow> string \<Rightarrow> bool \<Rightarrow> (ServiceError, unit) svc" where
  "launchd_activate host uid home bootstrap =
     bindE
       (if bootstrap then returnE ()
        else
          bindE (printed_state host uid ''launchd loaded check'') (\<lambda>state.
          bindE
            (case state of
               Running \<Rightarrow> graceful_stop host uid home ''install-service''
             | Quiescent \<Rightarrow> unload host uid home Quiescent
             | AbsentJob \<Rightarrow> returnE ())
            (\<lambda>_. launchd_enable host uid)))
       (\<lambda>_.
     bindE (launchd_bootstrap host uid home) (\<lambda>_.
     verify_loaded host uid))"

definition launchd_uninstall :: "service_host \<Rightarrow> string \<Rightarrow> nat \<Rightarrow> (ServiceError, unit) svc" where
  "launchd_uninstall host home uid =
     (let p = agent_path home in
      bindE (on_world (validate_regular_file p (Some ownership_marker))) (\<lambda>present.
      if \<not> present then returnE ()
      else
        bindE (graceful_stop host uid home ''uninstall-service'') (\<lambda>_.
        bindE (on_world (remove_owned_regular_file p (Some ownership_marker))) (\<lambda>_.
        returnE ()))))"

definition launchd_status :: "service_host \<Rightarrow> string \<Rightarrow> nat \<Rightarrow> (ServiceError, ServiceStatus) svc" where
  "launchd_status host home uid =
     bindE (on_world (validate_regular_file (agent_path home) (Some ownership_marker))) (\<lambda>present.
     if \<not> present then returnE AbsentService
     else
       bindE (launchd_print host uid) (\<lambda>out.
       if co_status out = 0 then returnE Active
       else if reports_missing_service uid out then returnE Inactive
       else throwE (manager_error ''launchd status'' out)))"

subsection \<open>A property list says what it was made from\<close>

text \<open>Its strings, as an XML reader gives them\<close>

definition entities :: "(string \<times> char) list" where
  "entities = [(''&amp;'', CHR ''&''), (''&lt;'', CHR ''<''), (''&gt;'', CHR ''>''), (''&quot;'', CHR 0x22), (''&apos;'', CHR 0x27)]"

definition entity_at :: "string \<Rightarrow> (char \<times> string) option" where
  "entity_at s = find_map (\<lambda>(e, x). map_option (\<lambda>r. (x, r)) (strip_prefix e s)) entities"

lemma entity_shorter: "entity_at s = Some (x, r) \<Longrightarrow> length r < length s"
  by (auto simp: entity_at_def entities_def strip_prefix_Some split: option.splits)

function xml_decode :: "string \<Rightarrow> string" where
  "xml_decode [] = []"
| "xml_decode (c # cs) =
     (case entity_at (c # cs) of Some (x, r) \<Rightarrow> x # xml_decode r | None \<Rightarrow> c # xml_decode cs)"
  by pat_completeness auto
termination
  by (relation "measure length") (auto dest: entity_shorter)

fun xml_strings :: "string \<Rightarrow> string list" where
  "xml_strings [] = []"
| "xml_strings (c # cs) =
     (case strip_prefix ''<string>'' (c # cs) of
        Some r \<Rightarrow> [xml_decode (takeWhile (\<lambda>x. x \<noteq> CHR ''<'') r)]
      | None \<Rightarrow> []) @ xml_strings cs"

definition escape_xml_char :: "char \<Rightarrow> string" where
  "escape_xml_char c =
     (if c = CHR ''&'' then ''&amp;'' else if c = CHR ''<'' then ''&lt;'' else if c = CHR ''>'' then ''&gt;''
      else if c = CHR 0x22 then ''&quot;'' else if c = CHR 0x27 then ''&apos;'' else [c])"

lemma xml_escape_append: "xml_escape (u @ v) = xml_escape u @ xml_escape v"
  by (simp add: xml_escape_def replace_char_with_def)

lemma xml_escape_chars: "xml_escape v = concat (map escape_xml_char v)"
proof (induction v)
  case (Cons c v)
  have "xml_escape [c] = escape_xml_char c" by (auto simp: xml_escape_def replace_char_with_def escape_xml_char_def)
  with Cons show ?case using xml_escape_append [of "[c]" v] by simp
qed (simp add: xml_escape_def replace_char_with_def)

lemma xml_decode_escaped: "xml_decode (xml_escape v) = v"
proof -
  have "xml_decode (escape_xml_char c @ r) = c # xml_decode r" for c r
    by (auto simp: escape_xml_char_def entity_at_def entities_def strip_prefix_def starts_with_def)
  then show ?thesis unfolding xml_escape_chars by (induction v) simp_all
qed

lemma no_tag_in_escaped: "CHR ''<'' \<notin> set (xml_escape v)"
  unfolding xml_escape_chars by (auto simp: escape_xml_char_def split: if_splits)

lemma xml_strings_no_tag: "CHR ''<'' \<notin> set l \<Longrightarrow> xml_strings (l @ r) = xml_strings r"
proof (induction l)
  case (Cons c l)
  then have "strip_prefix ''<string>'' (c # l @ r) = None" by (auto simp: strip_prefix_None)
  with Cons show ?case by simp
qed simp

lemma xml_strings_other_line: "find_sub ''<string>'' l = None \<Longrightarrow> xml_strings (l @ LF # r) = xml_strings r"
proof (induction l)
  case Nil
  have "strip_prefix ''<string>'' (LF # r) = None" by (simp add: strip_prefix_None)
  then show ?case by simp
next
  case (Cons c l)
  have tag: "LF \<notin> set ''<string>''" by simp
  have "strip_prefix ''<string>'' (c # l @ LF # r) = None"
  proof (rule ccontr)
    assume "\<not> ?thesis"
    then obtain q where q: "(c # l) @ LF # r = ''<string>'' @ q" by (auto simp: strip_prefix_Some)
    show False
    proof (cases "length ''<string>'' \<le> length (c # l)")
      case True
      then have "take (length ''<string>'') (c # l) = ''<string>''"
        using arg_cong [OF q, of "take (length ''<string>'')"] by (simp only: take_append) simp
      with Cons.prems show False by (simp add: starts_with_def split: if_splits)
    next
      case False
      have pos: "n < length t \<Longrightarrow> (t @ q) ! n \<in> set t" for n and t :: string by (simp add: nth_append)
      have "LF = (''<string>'' @ q) ! length (c # l)" unfolding q [symmetric] by (simp only: nth_append_length)
      then show False using tag pos [of "length (c # l)" "''<string>''"] False by (metis not_le)
    qed
  qed
  with Cons show ?case by (simp split: if_splits option.splits)
qed

lemma xml_strings_line:
  assumes "CHR ''<'' \<notin> set v"
  shows "xml_strings (string_line v @ LF # r) = xml_decode v # xml_strings r"
proof -
  have "xml_strings (''</string>'' @ LF # r) = xml_strings r" by (rule xml_strings_other_line) code_simp
  moreover have "xml_strings (''string>'' @ v @ ''</string>'' @ LF # r) = xml_strings (''</string>'' @ LF # r)"
    using xml_strings_no_tag [of "''string>'' @ v"] assms by simp
  moreover have "takeWhile (\<lambda>x. x \<noteq> CHR ''<'') (v @ ''</string>'' @ LF # r) = v"
    by (subst takeWhile_append2) (use assms in auto)
  ultimately show ?thesis by (simp add: string_line_def strip_prefix_def starts_with_def)
qed

definition text_lines :: "string list \<Rightarrow> string" where
  "text_lines ls = concat (map (\<lambda>l. l @ [LF]) ls)"

lemma strings_of_lines:
  "xml_strings (text_lines []) = []"
  "find_sub ''<string>'' l = None \<Longrightarrow> xml_strings (text_lines (l # ls)) = xml_strings (text_lines ls)"
  "CHR ''<'' \<notin> set v \<Longrightarrow> xml_strings (text_lines (string_line v # ls)) = xml_decode v # xml_strings (text_lines ls)"
  by (simp_all add: text_lines_def xml_strings_other_line xml_strings_line)

lemma plain_decode: "CHR ''&'' \<notin> set v \<Longrightarrow> xml_decode v = v"
proof (induction v)
  case (Cons c v)
  then have "entity_at (c # v) = None" by (auto simp: entity_at_def entities_def strip_prefix_def starts_with_def)
  with Cons show ?case by simp
qed simp

lemma escaped_then_plain:
  assumes "CHR ''<'' \<notin> set t" "CHR ''&'' \<notin> set t" "CHR ''>'' \<notin> set t" "CHR 0x22 \<notin> set t" "CHR 0x27 \<notin> set t"
  shows "xml_escape v @ t = xml_escape (v @ t)"
proof -
  have "xml_escape t = t" unfolding xml_escape_chars using assms by (induction t) (auto simp: escape_xml_char_def)
  then show ?thesis by (simp add: xml_escape_append)
qed

lemma plist_reads_back:
  assumes "render_plist binary service_path home tmux_tmpdir = Inr u"
  shows "xml_strings u =
    [LABEL, binary, ''run'', home, service_path] @ (case tmux_tmpdir of None \<Rightarrow> [] | Some t \<Rightarrow> [t])
    @ [''UTF-8'', ''Background'', home @ ''/Library/Logs/solstone-tmux.log'', home @ ''/Library/Logs/solstone-tmux.log'']"
proof -
  have u: "u = text_lines (plist_lines (xml_escape binary) (xml_escape service_path) (xml_escape home) (map_option xml_escape tmux_tmpdir))"
    using assms by (auto simp: render_plist_def andR_def utf8_text_def text_lines_def split: if_splits option.splits)
  have logs: "xml_escape home @ ''/Library/Logs/solstone-tmux.log'' = xml_escape (home @ ''/Library/Logs/solstone-tmux.log'')"
    by (rule escaped_then_plain) simp_all
  have lits: "CHR ''<'' \<notin> set ''run''" "CHR ''<'' \<notin> set ''UTF-8''" "CHR ''<'' \<notin> set ''Background''" "CHR ''<'' \<notin> set LABEL"
    "xml_decode ''run'' = ''run''" "xml_decode ''UTF-8'' = ''UTF-8''" "xml_decode ''Background'' = ''Background''" "xml_decode LABEL = LABEL"
    by (simp_all add: plain_decode LABEL_def del: xml_decode.simps)
  note rules = strings_of_lines no_tag_in_escaped xml_decode_escaped lits starts_with_def DQ_def
  show ?thesis
    unfolding u plist_lines_def logs
    by (cases tmux_tmpdir) (simp_all add: rules del: xml_decode.simps)
qed

subsection \<open>A job is stopped, or enabled again\<close>

text \<open>Whether a command of the run may have left the job disabled; whether its newest command found it gone.\<close>

fun may_be_disabled :: "service_call list \<Rightarrow> bool" where
  "may_be_disabled [] = False"
| "may_be_disabled ((ci, r) # h) =
     (if cm_operation ci = ServiceCommand LaunchdDisable then True
      else if cm_operation ci = ServiceCommand LaunchdEnable \<and> (case r of Inr out \<Rightarrow> co_status out = 0 | Inl _ \<Rightarrow> False) then False
      else may_be_disabled h)"

definition found_gone :: "nat \<Rightarrow> service_call list \<Rightarrow> bool" where
  "found_gone uid h \<longleftrightarrow>
     (case h of
        (ci, Inr out) # _ \<Rightarrow>
          cm_operation ci = ServiceCommand LaunchdPrint \<and> reports_missing_service uid out
          \<or> cm_operation ci = ServiceCommand LaunchdBootout \<and> (co_status out = 0 \<or> reports_missing_service uid out)
      | _ \<Rightarrow> False)"

definition is_recovery :: "ServiceError \<Rightarrow> bool" where
  "is_recovery e \<longleftrightarrow> (case e of LaunchdRecovery _ _ _ \<Rightarrow> True | _ \<Rightarrow> False)"

abbreviation calls_of :: "service_run \<times> world \<Rightarrow> service_call list" where
  "calls_of s \<equiv> sr_calls (fst s)"

text \<open>At most \<open>n\<close> commands later: the disk is as it was.\<close>

definition within :: "nat \<Rightarrow> service_run \<times> world \<Rightarrow> service_run \<times> world \<Rightarrow> bool" where
  "within n s t \<longleftrightarrow> snd t = snd s \<and> length (calls_of t) \<le> length (calls_of s) + n"

lemma called_within: "called oper r t u \<Longrightarrow> within n s t \<Longrightarrow> within (Suc n) s u"
  by (auto simp: called_def within_def)

lemma within_mono: "within m s t \<Longrightarrow> m \<le> n \<Longrightarrow> within n s t"
  by (auto simp: within_def)

lemma within_trans: "within m s t \<Longrightarrow> within n t u \<Longrightarrow> within (m + n) s u"
  by (auto simp: within_def)

lemma within_refl: "within 0 s s"
  by (simp add: within_def)

lemma called_disabled:
  assumes "called oper r s t"
  shows "oper \<noteq> LaunchdEnable \<Longrightarrow> oper \<noteq> LaunchdDisable \<Longrightarrow> may_be_disabled (calls_of t) = may_be_disabled (calls_of s)"
    and "oper = LaunchdEnable \<Longrightarrow> r = Inr out \<Longrightarrow> co_status out = 0 \<Longrightarrow> \<not> may_be_disabled (calls_of t)"
  using assms by (auto simp: called_def)

lemma wp_printed_state:
  assumes "\<And>r t. called LaunchdPrint r s t \<Longrightarrow> E t"
    and "\<And>out t state. called LaunchdPrint (Inr out) s t \<Longrightarrow> classify_print uid action out = Inr state \<Longrightarrow> Q state t"
  shows "wpE (printed_state host uid action) Q (\<lambda>_. E) s"
  unfolding printed_state_def launchd_print_def launchctl_def wpE_bind
  by (rule wp_run_service) (use assms in \<open>auto split: sum.split\<close>)

lemma classified_absent:
  "called LaunchdPrint (Inr out) s t \<Longrightarrow> classify_print uid action out = Inr AbsentJob \<Longrightarrow> found_gone uid (calls_of t)"
  by (auto simp: called_def classify_print_def found_gone_def split: if_splits)

lemma printed_state_run:
  assumes "printed_state host uid action s = (r, t)"
  shows "within 1 s t" "may_be_disabled (calls_of t) = may_be_disabled (calls_of s)"
    and "r = Inr AbsentJob \<Longrightarrow> found_gone uid (calls_of t)"
proof -
  let ?E = "\<lambda>t. within 1 s t \<and> may_be_disabled (calls_of t) = may_be_disabled (calls_of s)"
  have "wpE (printed_state host uid action) (\<lambda>state t. ?E t \<and> (state = AbsentJob \<longrightarrow> found_gone uid (calls_of t))) (\<lambda>_. ?E) s"
    by (rule wp_printed_state)
      (auto simp: called_disabled(1) dest: called_within [OF _ within_refl] classified_absent)
  from wpE_run [OF this assms] show "within 1 s t" "may_be_disabled (calls_of t) = may_be_disabled (calls_of s)"
    "r = Inr AbsentJob \<Longrightarrow> found_gone uid (calls_of t)" by (auto split: sum.splits)
qed

lemma slept [simp]: "within n (sleep_until t s) u = within n s u" "calls_of (sleep_until t s) = calls_of s"
  by (auto simp: sleep_until_def within_def split: prod.split)

text \<open>The number of polls, from the time that is left\<close>

definition polls_left :: "nat \<Rightarrow> nat \<Rightarrow> nat" where
  "polls_left deadline next_poll = Suc ((deadline - next_poll + 49) div 50)"

lemma polls_fewer: "next_poll < deadline \<Longrightarrow> Suc (polls_left deadline (next_poll + QUIESCENCE_POLL_INTERVAL)) \<le> polls_left deadline next_poll"
proof -
  assume "next_poll < deadline"
  then obtain k where "deadline = Suc (next_poll + k)" using less_imp_Suc_add by blast
  then show ?thesis by (cases "49 \<le> k") (simp_all add: polls_left_def QUIESCENCE_POLL_INTERVAL_def)
qed

lemma await_run:
  assumes "await_quiescence host uid deadline next_poll s = (r, t)"
  shows "within (polls_left deadline next_poll) s t \<and> may_be_disabled (calls_of t) = may_be_disabled (calls_of s)
    \<and> r \<noteq> Inr Running \<and> (r = Inr AbsentJob \<longrightarrow> found_gone uid (calls_of t))"
  using assms
proof (induction host uid deadline next_poll s rule: await_quiescence.induct)
  case (1 host uid deadline next_poll s)
  obtain r0 u where u: "printed_state host uid ''launchd quiescence check'' (sleep_until next_poll s) = (r0, u)"
    by (rule prod.exhaust)
  note run = printed_state_run [OF u, unfolded slept]
  have one: "within (polls_left deadline next_poll) s u"
    by (rule within_mono [OF run(1)]) (simp add: polls_left_def)
  show ?case
  proof (cases "r0 = Inr Running \<and> \<not> deadline \<le> sr_now (fst u)")
    case False
    then show ?thesis
      using 1(2) run one by (auto simp: await_quiescence.simps [of host uid deadline next_poll s] u split: sum.splits if_splits)
  next
    case True
    then have again: "await_quiescence host uid deadline (next_poll + QUIESCENCE_POLL_INTERVAL) u = (r, t)"
      using 1(2) by (simp add: await_quiescence.simps [of host uid deadline next_poll s] u)
    have "next_poll < deadline" using poll_later [OF u] True by simp
    note fewer = polls_fewer [OF this]
    have rest: "within (polls_left deadline (next_poll + QUIESCENCE_POLL_INTERVAL)) u t
        \<and> may_be_disabled (calls_of t) = may_be_disabled (calls_of u)
        \<and> r \<noteq> Inr Running \<and> (r = Inr AbsentJob \<longrightarrow> found_gone uid (calls_of t))"
      using 1(1) [OF u [symmetric] _ _ _ again] True by blast
    then have "within (polls_left deadline next_poll) s t"
      using within_mono [OF within_trans [OF run(1), of "polls_left deadline (next_poll + QUIESCENCE_POLL_INTERVAL)" t]] fewer by simp
    with rest run(2) show ?thesis by simp
  qed
qed

lemma wp_await:
  assumes "\<And>e t. within (polls_left deadline next_poll) s t \<Longrightarrow> may_be_disabled (calls_of t) = may_be_disabled (calls_of s) \<Longrightarrow> R e t"
    and "\<And>state t. within (polls_left deadline next_poll) s t \<Longrightarrow> may_be_disabled (calls_of t) = may_be_disabled (calls_of s)
      \<Longrightarrow> (state = AbsentJob \<longrightarrow> found_gone uid (calls_of t)) \<Longrightarrow> Q state t"
  shows "wpE (await_quiescence host uid deadline next_poll) Q R s"
proof -
  obtain r t where "await_quiescence host uid deadline next_poll s = (r, t)" by (rule prod.exhaust)
  with await_run [OF this] assms show ?thesis by (auto simp: wpE_def split: sum.split)
qed

text \<open>The state of the disk and of the enabled flag is that of \<open>s\<close>, \<open>n\<close> commands later.\<close>

definition quietly :: "nat \<Rightarrow> service_run \<times> world \<Rightarrow> service_run \<times> world \<Rightarrow> bool" where
  "quietly n s t \<longleftrightarrow> within n s t \<and> may_be_disabled (calls_of t) = may_be_disabled (calls_of s)"

lemma quietly_call:
  "called oper r t u \<Longrightarrow> quietly n s t \<Longrightarrow> oper \<noteq> LaunchdEnable \<Longrightarrow> oper \<noteq> LaunchdDisable \<Longrightarrow> quietly (Suc n) s u"
  by (simp add: quietly_def called_disabled(1) called_within)

lemma quietly_trans: "quietly m s t \<Longrightarrow> within n t u \<Longrightarrow> may_be_disabled (calls_of u) = may_be_disabled (calls_of t) \<Longrightarrow> quietly (m + n) s u"
  by (auto simp: quietly_def intro: within_trans)

lemma quietly_mono: "quietly m s t \<Longrightarrow> m \<le> n \<Longrightarrow> quietly n s t"
  by (auto simp: quietly_def intro: within_mono)

lemma quietly_refl: "quietly 0 s s"
  by (simp add: quietly_def within_refl)

lemma kill_and_wait_spec:
  "wpE (kill_and_wait host uid) (\<lambda>state t. quietly 101 s t \<and> (state = AbsentJob \<longrightarrow> found_gone uid (calls_of t))) (\<lambda>_. quietly 101 s) s"
  unfolding kill_and_wait_def launchd_kill_def launchctl_def wpE_bind
proof (rule wp_run_service)
  fix e t assume "called LaunchdKill (Inl e) s t"
  then show "quietly 101 s t" using quietly_mono [OF quietly_call [OF _ quietly_refl]] by simp
next
  fix out t assume "called LaunchdKill (Inr out) s t"
  then have one: "quietly 1 s t" using quietly_call [OF _ quietly_refl] by simp
  have polls: "polls_left (x + QUIESCENCE_TIMEOUT) (x + QUIESCENCE_POLL_INTERVAL) = 100" for x
    by (simp add: polls_left_def QUIESCENCE_TIMEOUT_def QUIESCENCE_POLL_INTERVAL_def)
  have upto: "quietly 101 s u" if "within 100 t u" "may_be_disabled (calls_of u) = may_be_disabled (calls_of t)" for u
    using quietly_trans [OF one that] by simp
  show "wpE (if co_status out \<noteq> 0 \<and> \<not> reports_missing_service uid out then throwE (manager_error ''launchd kill'' out)
      else bindE (getsE (\<lambda>s. sr_now (fst s))) (\<lambda>started.
        await_quiescence host uid (started + QUIESCENCE_TIMEOUT) (started + QUIESCENCE_POLL_INTERVAL)))
     (\<lambda>state t. quietly 101 s t \<and> (state = AbsentJob \<longrightarrow> found_gone uid (calls_of t))) (\<lambda>_. quietly 101 s) t"
    using quietly_mono [OF one, of 101] upto by (auto simp: polls intro!: wp_await)
qed

lemma unload_spec:
  assumes "state = AbsentJob \<Longrightarrow> found_gone uid (calls_of s)"
  shows "wpE (unload host uid home state) (\<lambda>_ t. quietly 102 s t \<and> found_gone uid (calls_of t)) (\<lambda>_. quietly 102 s) s"
proof -
  have out: "wpE (if state = AbsentJob then returnE ()
       else bindE (launchd_bootout host uid home) (\<lambda>out.
         if co_status out = 0 \<or> reports_missing_service uid out then returnE ()
         else throwE (manager_error ''launchd bootout'' out)))
     (\<lambda>_ t. quietly 102 s t \<and> found_gone uid (calls_of t)) (\<lambda>_. quietly 102 s) t"
    if "quietly 101 s t" "state = AbsentJob \<longrightarrow> found_gone uid (calls_of t)" for state t
    using that(2) quietly_mono [OF that(1), of 102] quietly_call [OF _ that(1)]
    by (auto simp: launchd_bootout_def launchctl_def found_gone_def called_def intro!: wp_run_service)
  show ?thesis
    unfolding unload_def wpE_bind
    using out assms quietly_mono [OF quietly_refl [of s], of 101]
    by (auto intro!: wpE_mono [OF kill_and_wait_spec] quietly_mono [of 101 s _ 102])
qed

lemma wp_enable:
  assumes "\<And>t. (\<exists>r. called LaunchdEnable r s t) \<Longrightarrow> \<not> may_be_disabled (calls_of t) \<Longrightarrow> Q () t"
    and "\<And>e r t. called LaunchdEnable r s t \<Longrightarrow> R e t"
  shows "wpE (launchd_enable host uid) Q R s"
  unfolding launchd_enable_def launchctl_def wpE_bind require_success_def
  by (rule wp_run_service) (auto intro: assms(2) intro!: assms(1) dest: called_disabled(2) [OF _ refl refl])

lemma stop_inner_spec:
  "wpE (bindE (launchd_disable host uid) (\<lambda>_. bindE (printed_state host uid ''launchd stop inspection'') (unload host uid home)))
     (\<lambda>_ t. within 104 s t \<and> found_gone uid (calls_of t)) (\<lambda>_ t. within 104 s t) s"
proof -
  have unloaded: "wpE (unload host uid home state) (\<lambda>_ t. within 104 s t \<and> found_gone uid (calls_of t)) (\<lambda>_ t. within 104 s t) u"
    if "within 2 s u" "state = AbsentJob \<longrightarrow> found_gone uid (calls_of u)" for state u
  proof (rule wpE_mono [OF unload_spec])
    show "state = AbsentJob \<Longrightarrow> found_gone uid (calls_of u)" using that(2) by simp
    show "within 104 s t \<and> found_gone uid (calls_of t)" if "quietly 102 u t \<and> found_gone uid (calls_of t)" for t
      using that within_trans [OF \<open>within 2 s u\<close>, of 102 t] by (simp add: quietly_def)
    show "within 104 s t" if "quietly 102 u t" for t
      using that within_trans [OF \<open>within 2 s u\<close>, of 102 t] by (simp add: quietly_def)
  qed
  have inspected: "wpE (bindE (printed_state host uid ''launchd stop inspection'') (unload host uid home))
      (\<lambda>_ t. within 104 s t \<and> found_gone uid (calls_of t)) (\<lambda>_ t. within 104 s t) t" if t: "within 1 s t" for t
  proof -
    have two: "called LaunchdPrint r t u \<Longrightarrow> within 2 s u" for r u using called_within [OF _ t] by (simp add: numeral_2_eq_2)
    show ?thesis
      unfolding wpE_bind
      by (rule wp_printed_state) (auto intro!: unloaded two within_mono [OF two, of _ _ 104] dest: classified_absent)
  qed
  have one: "called LaunchdDisable r s t \<Longrightarrow> within 1 s t" for r t using called_within [OF _ within_refl] by simp
  show ?thesis
    unfolding launchd_disable_def launchctl_def require_success_def
    apply (subst wpE_bind, subst wpE_bind, rule wp_run_service)
    using inspected [OF one] within_mono [OF one, of _ _ 104] by (auto simp del: wpE_bind)
qed

lemma graceful_stop_spec:
  "wpE (graceful_stop host uid home retry)
     (\<lambda>_ t. within 105 s t \<and> found_gone uid (calls_of t))
     (\<lambda>e t. within 105 s t \<and> (is_recovery e \<or> \<not> may_be_disabled (calls_of t))) s"
proof -
  have again: "wpE (tryE (launchd_enable host uid) (\<lambda>again.
        case again of Inr _ \<Rightarrow> throwE failed | Inl reenable \<Rightarrow> throwE (LaunchdRecovery failed reenable retry)))
     Q (\<lambda>e t. within 105 s t \<and> (is_recovery e \<or> \<not> may_be_disabled (calls_of t))) t"
    if "within 104 s t" for t failed Q
    using called_within [OF _ that] by (auto simp: is_recovery_def intro!: wp_enable)
  show ?thesis
    unfolding graceful_stop_def wpE_try
    by (rule wpE_mono [OF stop_inner_spec]) (auto simp del: wpE_try intro!: again intro: within_mono)
qed

text \<open>The owner is told that the job may have stayed disabled, or it is not.\<close>

definition enabled_or_told :: "ServiceError \<Rightarrow> service_call list \<Rightarrow> bool" where
  "enabled_or_told e cs = (if may_be_disabled cs then is_recovery e else True)"

text \<open>
  C19. Stopping a launchd job ends, in one of two ways. Whatever launchctl answers and however long it takes,
  after at most 105 commands, 100 of them looks at whether the process is still alive, \<open>graceful_stop\<close>
  returns. If it succeeds, the newest answer was that the job is gone. If it fails, the job has been enabled
  again by the newest command that could have, or the error says that it may have stayed disabled. The disk is
  not touched.
\<close>

theorem stop_is_final_or_undone:
  "case graceful_stop host uid home retry s of
     (Inr _, t) \<Rightarrow> within 105 s t \<and> found_gone uid (calls_of t)
   | (Inl e, t) \<Rightarrow> within 105 s t \<and> enabled_or_told e (calls_of t)"
  using graceful_stop_spec [of host uid home retry s] by (auto simp: wpE_def enabled_or_told_def split: prod.split sum.split)

end
