(* ===== verification/Installer.thy ===== *)
theory Installer
  imports Launchd
begin

text \<open>
  Installing and removing the service (\<open>ServiceController\<close> in \<open>src/service.rs\<close>). Both managers keep the
  same contract towards the files, the locale \<open>manager\<close>: they refuse a service file they do not own, and
  leave no trace; when they are ready to start the service, the file holds what was rendered; and starting it
  changes no file. What an install promises is proved once, under that contract.
\<close>

record ServiceController =
  sc_platform :: PlatformKind
  sc_environment :: "string \<Rightarrow> string option"
  sc_binary :: string
  sc_standard_directories :: "string list"
  sc_user_id :: nat

definition from_result :: "'e + 'a \<Rightarrow> ('s, 'e, 'a) comp" where
  "from_result r = (case r of Inl e \<Rightarrow> throwE e | Inr x \<Rightarrow> returnE x)"

definition resolved_paths :: "ServiceController \<Rightarrow> ServiceError + PlatformPaths" where
  "resolved_paths sc =
     (case resolve_paths (sc_platform sc) (sc_environment sc) of Inl e \<Rightarrow> Inl (SvcPath e) | Inr p \<Rightarrow> Inr p)"

text \<open>
  Activation can start the program at once, so the state is written before it, and the previous one comes
  back when the activation fails.
\<close>

definition install_with ::
  "service_host \<Rightarrow> path \<Rightarrow> string \<Rightarrow> (ServiceError, 'p) svc \<Rightarrow> ('p \<Rightarrow> (ServiceError, unit) svc) \<Rightarrow> (ServiceError, unit) svc" where
  "install_with host root tmux_path prepare activate =
     bindE (on_world (read_local_observer_state root)) (\<lambda>previous.
     bindE prepare (\<lambda>prepared.
     bindE (on_world (persist_local_observer host root tmux_path)) (\<lambda>_.
     tryE (activate prepared) (\<lambda>r.
       case r of
         Inr _ \<Rightarrow> returnE ()
       | Inl e \<Rightarrow> bindE (on_world (restore_local_observer_state root previous)) (\<lambda>_. throwE e)))))"

definition install_service :: "service_host \<Rightarrow> ServiceController \<Rightarrow> (ServiceError, unit) svc" where
  "install_service host sc =
     bindE (from_result (resolved_paths sc)) (\<lambda>paths.
     bindE (from_result (required_home (sc_environment sc))) (\<lambda>home.
     bindE (from_result (canonical_executable host (sc_binary sc))) (\<lambda>binary.
     let directories = search_directories (sc_environment sc) (sc_standard_directories sc) in
     bindE (from_result (resolve_tmux host directories)) (\<lambda>tmux_path.
     bindE (from_result (assembled_service_path tmux_path directories)) (\<lambda>service_path.
     let tmux_tmpdir = nonempty (sc_environment sc ''TMUX_TMPDIR'') in
     case sc_platform sc of
       Linux \<Rightarrow>
         install_with host (config_root paths) tmux_path
           (systemd_prepare_install host home binary service_path) (\<lambda>_. systemd_activate host)
     | Macos \<Rightarrow>
         install_with host (config_root paths) tmux_path
           (launchd_prepare_install host home (sc_user_id sc) binary service_path tmux_tmpdir)
           (launchd_activate host (sc_user_id sc) home))))))"

definition uninstall_service :: "service_host \<Rightarrow> ServiceController \<Rightarrow> string \<Rightarrow> (ServiceError, unit) svc" where
  "uninstall_service host sc home =
     (case sc_platform sc of
        Linux \<Rightarrow> systemd_uninstall host home
      | Macos \<Rightarrow> launchd_uninstall host home (sc_user_id sc))"

definition uninstall :: "service_host \<Rightarrow> ServiceController \<Rightarrow> (ServiceError, unit) svc" where
  "uninstall host sc =
     bindE (from_result (resolved_paths sc)) (\<lambda>paths.
     bindE (from_result (required_home (sc_environment sc))) (\<lambda>home.
     bindE (uninstall_service host sc home) (\<lambda>_.
     bindE (on_world (remove_owned_regular_file (path_join (config_root paths) STATE_FILENAME) (Some tmux_path_marker))) (\<lambda>_.
     returnE ()))))"

definition service_status :: "service_host \<Rightarrow> ServiceController \<Rightarrow> (ServiceError, ServiceStatus) svc" where
  "service_status host sc =
     bindE (from_result (required_home (sc_environment sc))) (\<lambda>home.
     case sc_platform sc of
       Linux \<Rightarrow> systemd_status host home
     | Macos \<Rightarrow> launchd_status host home (sc_user_id sc))"

lemma wpE_from_result [simp]: "wpE (from_result r) Q R = (case r of Inl e \<Rightarrow> R e | Inr x \<Rightarrow> Q x)"
  by (simp add: from_result_def split: sum.split)

subsection \<open>The files\<close>

text \<open>A file that is there without the marker, or something that is no file\<close>

definition foreign :: "world \<Rightarrow> path \<Rightarrow> bytes \<Rightarrow> bool" where
  "foreign w p marker \<longleftrightarrow>
     node_at w p \<noteq> None \<and> (\<forall>b. view w p = Some b \<longrightarrow> find_sub marker b = None)"

lemma validate_quiet: "quietE (validate_regular_file p marker)"
  unfolding validate_regular_file_def by (intro quiet_intros) (auto intro!: quiet_intros split: node.splits option.splits io_error.splits)

lemma resolves_file: "node_at w p = Some (NFile i) \<Longrightarrow> resolve 40 w p = Inr (NFile i)"
  by (simp add: numeral_eq_Suc)

lemma validate_result:
  "wpE (validate_regular_file p marker)
     (\<lambda>x _. (x \<longrightarrow> (\<exists>b. view w p = Some b \<and> (\<forall>m. marker = Some m \<longrightarrow> find_sub m b \<noteq> None))) \<and> (\<not> x \<longrightarrow> node_at w p = None)) (\<lambda>_ _. True) w"
  unfolding validate_regular_file_def wpE_try
  by (rule wp_lstat)
    (auto simp: EIO_def world_simps view_file resolves_file split: node.split option.split intro!: wp_read)

lemma validate_spec:
  "wpE (validate_regular_file p marker)
     (\<lambda>x u. ((x \<longrightarrow> (\<exists>b. view w p = Some b \<and> (\<forall>m. marker = Some m \<longrightarrow> find_sub m b \<noteq> None))) \<and> (\<not> x \<longrightarrow> node_at w p = None))
        \<and> only_ticks w u) (\<lambda>_ u. True \<and> only_ticks w u) w"
  by (rule wp_quiet [OF validate_quiet validate_result])

lemma validate_foreign: "foreign w p marker \<Longrightarrow> wpE (validate_regular_file p (Some marker)) (\<lambda>_ _. False) (\<lambda>_. only_ticks w) w"
  by (rule wpE_mono [OF validate_spec]) (auto simp: foreign_def)

lemma holds_already_spec:
  assumes "present \<Longrightarrow> view w p \<noteq> None"
  shows "wpE (holds_already p present b) (\<lambda>x u. (x \<longrightarrow> view w p = Some b) \<and> only_ticks w u) (\<lambda>_ u. True \<and> only_ticks w u) w"
proof (rule wp_quiet)
  show "quietE (holds_already p present b)"
    unfolding holds_already_def by (intro quiet_intros)
  show "wpE (holds_already p present b) (\<lambda>x _. x \<longrightarrow> view w p = Some b) (\<lambda>_ _. True) w"
    using assms by (auto simp: holds_already_def world_simps view_file resolves_file intro!: wp_read dest!: view_SomeD)
qed

definition state_file :: "path \<Rightarrow> path" where
  "state_file root = root @ [STATE_FILENAME]"

lemma state_names: "plain_name STATE_FILENAME"
  unfolding plain_name_def STATE_FILENAME_def by (simp_all del: valid_utf8.simps add: valid_utf8_ascii)

lemma state_path: "path_join root STATE_FILENAME = state_file root"
  using state_names by (simp add: path_join_plain_name state_file_def)

lemma read_state_spec:
  "wpE (read_local_observer_state root) (\<lambda>x u. x = view w (state_file root) \<and> only_ticks w u) (\<lambda>_. only_ticks w) w"
proof -
  have "wpE (read_local_observer_state root) (\<lambda>x _. x = view w (state_file root)) (\<lambda>_ _. True) w"
    unfolding read_local_observer_state_def Let_def state_path wpE_bind
    by (rule wpE_mono [OF validate_spec])
      (auto simp: view_def resolves_file only_ticks_obs world_simps split: option.splits node.splits intro!: wp_read)
  moreover have "quietE (read_local_observer_state root)"
    unfolding read_local_observer_state_def Let_def by (intro quiet_intros validate_quiet)
  ultimately have "wpE (read_local_observer_state root) (\<lambda>x u. x = view w (state_file root) \<and> only_ticks w u)
      (\<lambda>_ u. True \<and> only_ticks w u) w" by - (rule wp_quiet)
  then show ?thesis by simp
qed

lemma service_directory_spec:
  assumes "world_ok w"
  shows "wpE (ensure_service_directory p) (\<lambda>_. dirs_only w) (\<lambda>_. dirs_only w) w"
proof (cases "p = []")
  case False
  have loop: "wpE (forE create_private ds) (\<lambda>_. dirs_only w) (\<lambda>_. dirs_only w) u" if "dirs_only w u" for ds u
    using that by (intro wpE_forE create_private_spec) auto
  show ?thesis
    using False assms
    by (auto simp: ensure_service_directory_def ensure_directory_def dirs_only_refl
        intro!: wpE_mono [OF missing_dirs_spec] wpE_mono [OF set_and_verify_spec] wpE_mono [OF loop])
qed (simp add: ensure_service_directory_def ensure_directory_def assms dirs_only_refl)

lemma confined_service_directory: "confinedE S (ensure_service_directory p)"
  by (rule confinedE_I, rule wpE_mono [OF service_directory_spec]) (auto simp: confined_def dirs_only_def)

text \<open>A write of \<open>b\<close> to \<open>p\<close> that succeeded, or failed at some point\<close>

definition wrote :: "path \<Rightarrow> path \<Rightarrow> bytes \<Rightarrow> world \<Rightarrow> world \<Rightarrow> bool" where
  "wrote parent p b w u \<longleftrightarrow> confined (write_scope parent p) w u \<and> view u p = Some b"

definition may_have_written :: "path \<Rightarrow> path \<Rightarrow> bytes \<Rightarrow> world \<Rightarrow> world \<Rightarrow> bool" where
  "may_have_written parent p b w u \<longleftrightarrow>
     confined (write_scope parent p) w u \<and> (view u p = view w p \<or> view u p = Some b)"

lemma atomic_write_wrote:
  assumes "world_ok w" "plain_name n"
  shows "wpE (atomic_write_bytes (parent @ [n]) parent b) (\<lambda>_. wrote parent (parent @ [n]) b w)
    (\<lambda>_. may_have_written parent (parent @ [n]) b w) w"
  by (rule wpE_mono [OF atomic_write_bytes_spec [OF assms]])
    (auto simp: wrote_def may_have_written_def confined_def replaced_ok_def replaced_err_def only_touches_def)

lemma wrote_after:
  assumes "world_ok u" "view u = view w"
  shows "wrote parent p b u v \<Longrightarrow> wrote parent p b w v" "may_have_written parent p b u v \<Longrightarrow> may_have_written parent p b w v"
    "may_have_written parent p b w u"
  using assms by (auto simp: wrote_def may_have_written_def confined_def)

lemma install_artifact_spec:
  assumes "world_ok w" "plain_name n"
  shows "wpE (install_artifact (parent @ [n]) b) (\<lambda>_. wrote parent (parent @ [n]) b w)
    (\<lambda>_. may_have_written parent (parent @ [n]) b w) w"
proof -
  let ?p = "parent @ [n]"
  have same: "view u = view w" "world_ok u" if "only_ticks w u" for u using only_ticks_obs [OF that] assms(1) by simp_all
  have written: "wpE (bindE (map_errE SvcPath (ensure_service_directory parent)) (\<lambda>_.
        bindE (map_errE SvcStorage (atomic_write_bytes ?p parent b)) (\<lambda>_. returnE True)))
      (\<lambda>_. wrote parent ?p b w) (\<lambda>_. may_have_written parent ?p b w) u" if "only_ticks w u" for u
    using same [OF that]
    by (auto simp: dirs_only_def intro!: wpE_mono [OF service_directory_spec] wpE_mono [OF atomic_write_wrote [OF _ assms(2)]]
        intro: wrote_after)
  have after: "wpE (if x then returnE False
        else bindE (map_errE SvcPath (ensure_service_directory parent)) (\<lambda>_.
          bindE (map_errE SvcStorage (atomic_write_bytes ?p parent b)) (\<lambda>_. returnE True)))
      (\<lambda>_. wrote parent ?p b w) (\<lambda>_. may_have_written parent ?p b w) v"
    if "only_ticks w u" "only_ticks u v" "x \<longrightarrow> view u ?p = Some b" for x u v
  proof (cases x)
    case True
    then have "wrote parent ?p b w v"
      using that same [OF only_ticks_trans [OF that(1,2)]] same(1) [OF that(1)] by (simp add: wrote_def confined_def)
    with True show ?thesis by simp
  next
    case False
    then show ?thesis using written [OF only_ticks_trans [OF that(1,2)]] by simp
  qed
  have kept: "may_have_written parent ?p b w u" if "only_ticks w u" for u
    using same [OF that] by (simp add: may_have_written_def confined_def)
  have held: "wpE (bindE (holds_already ?p present b) (\<lambda>same. if same then returnE False
        else bindE (map_errE SvcPath (ensure_service_directory parent)) (\<lambda>_.
          bindE (map_errE SvcStorage (atomic_write_bytes ?p parent b)) (\<lambda>_. returnE True))))
      (\<lambda>_. wrote parent ?p b w) (\<lambda>_. may_have_written parent ?p b w) u"
    if "only_ticks w u" "present \<Longrightarrow> view w ?p \<noteq> None" for present u
    apply (subst wpE_bind, rule wpE_mono [OF holds_already_spec])
    subgoal using that same(1) [OF that(1)] by simp
    subgoal using after [OF that(1)] by simp
    subgoal using kept only_ticks_trans [OF that(1)] by simp
    done
  have parent: "path_parent ?p = Some parent" by (simp add: path_parent_def)
  show ?thesis
    unfolding install_artifact_def parent option.case
    apply (subst wpE_bind, rule wpE_mono [OF validate_spec])
    subgoal for x u by (rule held) auto
    using kept by simp
qed

text \<open>An error of the disk, after which the state may be the old one or the new one\<close>

definition disk_error :: "ServiceError \<Rightarrow> bool" where
  "disk_error e \<longleftrightarrow> (case e of SvcStorage _ \<Rightarrow> True | SvcIo _ _ \<Rightarrow> True | InvalidArtifact _ \<Rightarrow> True | _ \<Rightarrow> False)"

definition state_says :: "service_host \<Rightarrow> path \<Rightarrow> string \<Rightarrow> world \<Rightarrow> bool" where
  "state_says host root tmux_path u \<longleftrightarrow>
     (\<exists>b. sh_json host tmux_path = Some b \<and> view u (state_file root) = Some (b @ [LF]))"

definition state_scope :: "path \<Rightarrow> path set" where
  "state_scope root = write_scope root (state_file root)"

lemma persist_spec:
  assumes "world_ok w"
  shows "wpE (persist_local_observer host root tmux_path)
    (\<lambda>_ u. state_says host root tmux_path u \<and> confined (state_scope root) w u)
    (\<lambda>e u. confined (state_scope root) w u
       \<and> (view u (state_file root) = view w (state_file root) \<or> disk_error e \<and> state_says host root tmux_path u)) w"
proof -
  have same: "confined S w u \<and> view u = view w" if "dirs_only w u" for S u
    using that by (simp add: dirs_only_def confined_def)
  have written: "wpE (atomic_write_bytes (state_file root) root (b @ [LF]))
      (\<lambda>_ u. state_says host root tmux_path u \<and> confined (state_scope root) w u)
      (\<lambda>_ u. confined (state_scope root) w u
         \<and> (view u (state_file root) = view w (state_file root) \<or> state_says host root tmux_path u)) v"
    if "dirs_only w v" "sh_json host tmux_path = Some b" for v b
    unfolding state_file_def
    by (rule wpE_mono [OF atomic_write_wrote [OF _ state_names]])
      (use same [OF that(1)] that in \<open>auto simp: dirs_only_def wrote_def may_have_written_def state_says_def state_scope_def
         state_file_def confined_def\<close>)
  show ?thesis
    unfolding persist_local_observer_def state_path wpE_bind wpE_map_err
  proof (rule wpE_mono [OF ensure_private_directory_spec [OF assms]])
    fix x v assume "dirs_only w v \<and> private_dir v root"
    then have v: "dirs_only w v" by simp
    show "wpE (case sh_json host tmux_path of None \<Rightarrow> throwE (InvalidState ''could not serialize state'')
        | Some b \<Rightarrow> map_errE SvcStorage (atomic_write_bytes (state_file root) root (b @ [LF])))
      (\<lambda>_ u. state_says host root tmux_path u \<and> confined (state_scope root) w u)
      (\<lambda>e u. confined (state_scope root) w u
         \<and> (view u (state_file root) = view w (state_file root) \<or> disk_error e \<and> state_says host root tmux_path u)) v"
    proof (cases "sh_json host tmux_path")
      case None
      then show ?thesis using same [OF v] by simp
    next
      case (Some b)
      show ?thesis
        unfolding Some option.case wpE_map_err by (rule wpE_mono [OF written [OF v Some]]) (auto simp: disk_error_def)
    qed
  qed (use same in \<open>auto simp: disk_error_def\<close>)
qed

lemma remove_owned_spec:
  assumes "world_ok w" "path_parent p \<noteq> None"
  shows "wpE (remove_owned_regular_file p marker)
    (\<lambda>_ u. view u p = None \<and> confined {p} w u)
    (\<lambda>e u. disk_error e \<and> confined {p} w u \<and> (view u p = view w p \<or> view u p = None)) w"
proof -
  obtain parent where p: "path_parent p = Some parent" using assms(2) by blast
  have same: "view u = view w \<and> world_ok u" if "only_ticks w u" for u using only_ticks_obs [OF that] assms(1) by simp
  have removed: "wpE (bindE (map_errE (SvcIo p) (fs_remove_file p)) (\<lambda>_.
       bindE (map_errE SvcStorage (sync_directory parent)) (\<lambda>_. returnE True)))
     (\<lambda>_ u. view u p = None \<and> confined {p} w u) (\<lambda>e u. disk_error e \<and> confined {p} w u \<and> (view u p = view w p \<or> view u p = None)) u" if "only_ticks w u" for u
  proof -
    have sync: "wpE (sync_directory parent) (\<lambda>_ v. view v = view t \<and> world_ok v) (\<lambda>_ v. view v = view t \<and> world_ok v) t"
      if "world_ok t" for t
      using quiet_opens(3) [of parent] only_ticks_obs(3,5) [of t "snd (sync_directory parent t)"] that by (simp add: wpE_state quietE_def)
    show ?thesis
      using same [OF that]
      by (auto simp: disk_error_def confined_def world_simps world_upd
          intro!: wp_remove_file wpE_mono [OF sync])
  qed
  have none: "node_at w p = None \<Longrightarrow> view w p = None" by (simp add: view_def)
  have errs: "wpE (validate_regular_file p marker) (\<lambda>_ _. True) (\<lambda>e _. disk_error e) w"
    unfolding validate_regular_file_def wpE_try
    by (rule wp_lstat) (auto simp: disk_error_def EIO_def split: node.split option.split intro!: wp_read)
  have after: "wpE (if \<not> x then returnE False
        else bindE (map_errE (SvcIo p) (fs_remove_file p)) (\<lambda>_.
          bindE (map_errE SvcStorage (sync_directory parent)) (\<lambda>_. returnE True)))
      (\<lambda>_ u. view u p = None \<and> confined {p} w u)
      (\<lambda>e u. disk_error e \<and> confined {p} w u \<and> (view u p = view w p \<or> view u p = None)) u"
    if "only_ticks w u" "\<not> x \<longrightarrow> node_at w p = None" for x u
  proof (cases x)
    case True
    then show ?thesis using removed [OF that(1)] by (simp del: wpE_bind)
  next
    case False
    then show ?thesis using that(2) same [OF that(1)] none by (simp add: confined_def)
  qed
  show ?thesis
    unfolding remove_owned_regular_file_def p option.case
    unfolding wpE_bind [where m = "validate_regular_file p marker"]
  proof (rule wpE_mono [OF wpE_conj [OF validate_spec errs]], elim conjE)
    fix x u assume "only_ticks w u" "\<not> x \<longrightarrow> node_at w p = None"
    then show "wpE (if \<not> x then returnE False
        else bindE (map_errE (SvcIo p) (fs_remove_file p)) (\<lambda>_.
          bindE (map_errE SvcStorage (sync_directory parent)) (\<lambda>_. returnE True)))
      (\<lambda>_ u. view u p = None \<and> confined {p} w u)
      (\<lambda>e u. disk_error e \<and> confined {p} w u \<and> (view u p = view w p \<or> view u p = None)) u" by (rule after)
  next
    fix e u assume "(True \<and> only_ticks w u) \<and> disk_error e"
    then show "disk_error e \<and> confined {p} w u \<and> (view u p = view w p \<or> view u p = None)"
      using same [of u] by (simp add: confined_def)
  qed
qed

lemma restore_spec:
  assumes "world_ok w"
  shows "wpE (restore_local_observer_state root previous)
    (\<lambda>_ u. view u (state_file root) = previous \<and> confined (state_scope root) w u)
    (\<lambda>e u. disk_error e \<and> confined (state_scope root) w u
       \<and> (view u (state_file root) = view w (state_file root) \<or> view u (state_file root) = previous)) w"
proof (cases previous)
  case None
  have "path_parent (state_file root) \<noteq> None" by (simp add: path_parent_def state_file_def)
  from remove_owned_spec [OF assms this, of "Some tmux_path_marker"] None show ?thesis
    unfolding restore_local_observer_state_def state_path Let_def
    by (auto simp: state_scope_def write_scope_def confined_def elim!: wpE_mono)
next
  case (Some b)
  then show ?thesis
    unfolding restore_local_observer_state_def state_path Let_def option.case wpE_map_err state_file_def
    by (auto simp: disk_error_def wrote_def may_have_written_def state_scope_def state_file_def
        intro!: wpE_mono [OF atomic_write_wrote [OF assms state_names]])
qed

subsection \<open>The contract of a manager\<close>

locale manager =
  fixes unit_file :: path and marker :: bytes and rendered :: "ServiceError + bytes"
    and prepare :: "(ServiceError, 'p) svc" and activate :: "'p \<Rightarrow> (ServiceError, unit) svc"
    and remove_service :: "(ServiceError, unit) svc"
  assumes refuses_foreign:
      "foreign w unit_file marker \<Longrightarrow> wpE prepare (\<lambda>_ _. False) (\<lambda>_ t. fst t = h \<and> only_ticks w (snd t)) (h, w)"
      "foreign w unit_file marker \<Longrightarrow> wpE remove_service (\<lambda>_ _. False) (\<lambda>_ t. fst t = h \<and> only_ticks w (snd t)) (h, w)"
    and prepares: "world_ok w \<Longrightarrow>
      wpE prepare
        (\<lambda>_ t. confined (write_scope (butlast unit_file) unit_file) w (snd t) \<and> (\<exists>b. rendered = Inr b \<and> view (snd t) unit_file = Some b))
        (\<lambda>_ t. confined (write_scope (butlast unit_file) unit_file) w (snd t)) (h, w)"
    and activates: "wpE (activate x) (\<lambda>_ t. snd t = snd s) (\<lambda>_ t. snd t = snd s) s"
begin

lemma installed:
  assumes "world_ok w" "state_file root \<notin> write_scope (butlast unit_file) unit_file" "unit_file \<notin> state_scope root"
  shows "wpE (install_with host root tmux_path prepare activate)
    (\<lambda>_ t. state_says host root tmux_path (snd t) \<and> (\<exists>b. rendered = Inr b \<and> view (snd t) unit_file = Some b))
    (\<lambda>e t. view (snd t) (state_file root) = view w (state_file root)
       \<or> disk_error e \<and> state_says host root tmux_path (snd t)) (h, w)"
    (is "wpE _ ?Q ?R _")
proof -
  define previous where "previous = view w (state_file root)"
  let ?there = "\<lambda>u. \<exists>b. rendered = Inr b \<and> view u unit_file = Some b"
  have restored: "wpE (bindE (on_world (restore_local_observer_state root previous)) (\<lambda>_. throwE e)) ?Q ?R t"
    if "world_ok (snd t)" "state_says host root tmux_path (snd t)" for e t
    using that
    by (cases t) (auto simp: previous_def state_says_def intro!: wpE_mono [OF restore_spec])
  have activated: "wpE (tryE (activate x) (\<lambda>r. case r of Inr _ \<Rightarrow> returnE ()
        | Inl e \<Rightarrow> bindE (on_world (restore_local_observer_state root previous)) (\<lambda>_. throwE e))) ?Q ?R t"
    if "world_ok (snd t)" "state_says host root tmux_path (snd t)" "?there (snd t)" for x t
    unfolding wpE_try
    by (rule wpE_mono [OF activates]) (use that restored in \<open>auto simp del: wpE_bind\<close>)
  have persisted: "wpE (bindE (on_world (persist_local_observer host root tmux_path)) (\<lambda>_.
      tryE (activate x) (\<lambda>r. case r of Inr _ \<Rightarrow> returnE ()
        | Inl e \<Rightarrow> bindE (on_world (restore_local_observer_state root previous)) (\<lambda>_. throwE e)))) ?Q ?R t"
    if "world_ok (snd t)" "view (snd t) (state_file root) = previous" "?there (snd t)" for x t
  proof -
    have "wpE (persist_local_observer host root tmux_path)
       (\<lambda>_ u. world_ok u \<and> state_says host root tmux_path u \<and> ?there u)
       (\<lambda>e u. view u (state_file root) = previous \<or> disk_error e \<and> state_says host root tmux_path u) (snd t)"
      by (rule wpE_mono [OF persist_spec [OF that(1)]]) (use that assms(3) in \<open>auto simp: confined_def\<close>)
    from wpE_mono [OF this] activated show ?thesis
      by (cases t) (auto simp: previous_def simp del: wpE_try elim!: wpE_mono)
  qed
  have prepared: "wpE (bindE prepare (\<lambda>x. bindE (on_world (persist_local_observer host root tmux_path)) (\<lambda>_.
      tryE (activate x) (\<lambda>r. case r of Inr _ \<Rightarrow> returnE ()
        | Inl e \<Rightarrow> bindE (on_world (restore_local_observer_state root previous)) (\<lambda>_. throwE e))))) ?Q ?R (h, u)"
    if "only_ticks w u" for u
  proof -
    note same = only_ticks_obs(3,5) [OF that]
    show ?thesis
      unfolding wpE_bind [where m = prepare]
      by (rule wpE_mono [OF prepares])
        (use assms(1,2) same persisted in \<open>auto simp: confined_def previous_def simp del: wpE_bind\<close>)
  qed
  show ?thesis
    unfolding install_with_def
    apply (subst wpE_bind, simp only: wpE_on_world split_conv)
    apply (rule wpE_mono [OF read_state_spec])
    subgoal for x u using prepared [of u] by (simp add: previous_def del: wpE_bind wpE_try)
    subgoal for e u using only_ticks_obs(3) [of w u] by simp
    done
qed

lemma foreign_install:
  assumes "foreign w unit_file marker"
  shows "wpE (install_with host root tmux_path prepare activate) (\<lambda>_ _. False) (\<lambda>_ t. fst t = h \<and> only_ticks w (snd t)) (h, w)"
proof -
  have stopped: "wpE prepare (\<lambda>_ _. False) (\<lambda>_ t. fst t = h \<and> only_ticks w (snd t)) (h, u)" if "only_ticks w u" for u
  proof -
    have "foreign u unit_file marker" using assms only_ticks_obs [OF that] by (simp add: foreign_def)
    from refuses_foreign(1) [OF this] show ?thesis by (rule wpE_mono) (auto intro: only_ticks_trans [OF that])
  qed
  show ?thesis
    unfolding install_with_def
    apply (subst wpE_bind, simp only: wpE_on_world split_conv)
    apply (rule wpE_mono [OF read_state_spec])
    subgoal for x u by (subst wpE_bind, rule wpE_mono [OF stopped]) auto
    by simp
qed

end

subsection \<open>Both managers keep it\<close>

text \<open>A command leaves the disk alone.\<close>

definition on_disk :: "world \<Rightarrow> service_run \<times> world \<Rightarrow> bool" where
  "on_disk w t \<longleftrightarrow> snd t = w"

lemma keeps_run: "keepsE (on_disk w) (run_service host exe oper args)"
  by (rule keepsE_I, rule wp_run_service) (auto simp: called_def on_disk_def)

lemma keeps_success: "keepsE I (require_success action out)"
  by (simp add: require_success_def keeps_intros)

lemma keeps_launchctl: "keepsE (on_disk w) (launchctl host oper args)"
  "keepsE (on_disk w) (systemctl host oper args)"
  by (simp_all add: launchctl_def systemctl_def keeps_run)

lemma keeps_graceful_stop: "keepsE (on_disk w) (graceful_stop host uid home retry)"
  by (rule keepsE_I, rule wpE_mono [OF graceful_stop_spec]) (auto simp: on_disk_def within_def)

lemma keeps_unload: "state \<noteq> AbsentJob \<Longrightarrow> keepsE (on_disk w) (unload host uid home state)"
  by (rule keepsE_I, rule wpE_mono [OF unload_spec]) (auto simp: on_disk_def within_def quietly_def)

lemma keeps_printed_state: "keepsE (on_disk w) (printed_state host uid action)"
  unfolding printed_state_def launchd_print_def
  by (intro keeps_intros keeps_launchctl)

lemma keeps_enable: "keepsE (on_disk w) (launchd_enable host uid)"
  unfolding launchd_enable_def by (intro keeps_intros keeps_launchctl keeps_success)

lemma keeps_systemd_activate: "keepsE (on_disk w) (systemd_activate host)"
  unfolding systemd_activate_def by (intro keeps_intros keeps_launchctl keeps_success)

lemma keeps_systemd_reload: "keepsE (on_disk w) (systemd_reload host)"
  unfolding systemd_reload_def by (intro keeps_intros keeps_launchctl keeps_success)

lemma keeps_launchd_activate: "keepsE (on_disk w) (launchd_activate host uid home bootstrap)"
proof -
  have "keepsE (on_disk w) (case state of Running \<Rightarrow> graceful_stop host uid home ''install-service''
      | Quiescent \<Rightarrow> unload host uid home Quiescent | AbsentJob \<Rightarrow> returnE ())" for state
    by (cases state) (simp_all add: keeps_graceful_stop keeps_unload keeps_intros)
  then show ?thesis
    unfolding launchd_activate_def launchd_bootstrap_def verify_loaded_def launchd_print_def
    by (intro keeps_intros keeps_launchctl keeps_success keeps_printed_state keeps_enable)
qed

lemma keeps_disk: "keepsE (on_disk (snd s)) m \<Longrightarrow> wpE m (\<lambda>_ t. snd t = snd s) (\<lambda>_ t. snd t = snd s) s"
  using keepsE_D [of "on_disk (snd s)" m s] by (simp add: on_disk_def [abs_def])

lemma foreign_on_world:
  assumes "foreign w p marker"
  shows "wpE (bindE (on_world (validate_regular_file p (Some marker))) f) (\<lambda>_ _. False)
    (\<lambda>_ t. fst t = h \<and> only_ticks w (snd t)) (h, w)"
  using validate_foreign [OF assms] by (auto elim!: wpE_mono)

text \<open>Either the file is already as it should be, or something is done first and then it is written.\<close>

lemma file_made:
  assumes "world_ok w" "plain_name n"
    and first: "\<And>present h u. wpE (first present) (\<lambda>_ t. snd t = u) (\<lambda>_ t. snd t = u) (h, u)"
    and finish: "\<And>h u. wpE finish (\<lambda>_ t. snd t = u) (\<lambda>_ t. snd t = u) (h, u)"
  shows "wpE
    (bindE (on_world (validate_regular_file (parent @ [n]) (Some marker))) (\<lambda>present.
     bindE (on_world (holds_already (parent @ [n]) present b)) (\<lambda>unchanged.
     if unchanged then returnE x
     else
       bindE (first present) (\<lambda>_.
       bindE (on_world (install_artifact (parent @ [n]) b)) (\<lambda>_. bindE finish (\<lambda>_. returnE y))))))
    (\<lambda>_ t. confined (write_scope parent (parent @ [n])) w (snd t) \<and> view (snd t) (parent @ [n]) = Some b)
    (\<lambda>_ t. confined (write_scope parent (parent @ [n])) w (snd t)) (h, w)" (is "wpE _ ?Q ?R _")
proof -
  let ?p = "parent @ [n]"
  have same: "view u = view w \<and> world_ok u" if "only_ticks w u" for u using only_ticks_obs [OF that] assms(1) by simp
  have written: "wpE (bindE (on_world (install_artifact ?p b)) (\<lambda>_. bindE finish (\<lambda>_. returnE y))) ?Q ?R (h, u)"
    if "only_ticks w u" for h u
  proof -
    have ends: "wpE (bindE finish (\<lambda>_. returnE y)) ?Q ?R (h, v)" if "wrote parent ?p b w v" for v
      by (subst wpE_bind, rule wpE_mono [OF finish]) (use that in \<open>auto simp: wrote_def\<close>)
    show ?thesis
      apply (subst wpE_bind, simp only: wpE_on_world split_conv)
      apply (rule wpE_mono [OF install_artifact_spec [OF _ assms(2)]])
      subgoal using same [OF that] by simp
      subgoal for z v using ends [of v] wrote_after(1) [of u w parent ?p b v] same [OF that] by simp
      subgoal for e v using wrote_after(2) [of u w parent ?p b v] same [OF that] by (simp add: may_have_written_def)
      done
  qed
  have changed: "wpE (bindE (first present) (\<lambda>_.
       bindE (on_world (install_artifact ?p b)) (\<lambda>_. bindE finish (\<lambda>_. returnE y)))) ?Q ?R (h, u)"
    if "only_ticks w u" for present h u
    apply (subst wpE_bind, rule wpE_mono [OF first])
    subgoal for z t using written [OF that] by (cases t) simp
    subgoal for e t using same [OF that] by (simp add: confined_def)
    done
  have held: "wpE (bindE (on_world (holds_already ?p present b)) (\<lambda>unchanged.
     if unchanged then returnE x
     else bindE (first present) (\<lambda>_.
       bindE (on_world (install_artifact ?p b)) (\<lambda>_. bindE finish (\<lambda>_. returnE y))))) ?Q ?R (h, u)"
    if u: "only_ticks w u" "present \<longrightarrow> view w ?p \<noteq> None" for present u
    apply (subst wpE_bind, simp only: wpE_on_world split_conv)
    apply (rule wpE_mono [OF holds_already_spec])
    subgoal using u same [OF u(1)] by simp
    subgoal for z v using changed [where u = v and h = h and present = present] only_ticks_trans [OF u(1), of v] same [of u] same [of v] u(1)
      by (cases z) (auto simp: confined_def simp del: wpE_bind)
    subgoal for e v using only_ticks_trans [OF u(1), of v] same [of v] by (simp add: confined_def)
    done
  show ?thesis
    apply (subst wpE_bind, simp only: wpE_on_world split_conv)
    apply (rule wpE_mono [OF validate_spec])
    subgoal for z u using held [where u = u and present = z] by (auto simp del: wpE_bind)
    subgoal for e u using same [of u] by (simp add: confined_def)
    done
qed

lemma unit_path_split: "unit_path home = (path_of home @ [''.config'', ''systemd'', ''user'']) @ [UNIT_NAME]" "plain_name UNIT_NAME"
  unfolding unit_path_def plain_name_def UNIT_NAME_def
  by (simp_all add: path_join_def path_is_absolute_def starts_with_def del: valid_utf8.simps add: valid_utf8_ascii)

lemma agent_path_split: "agent_path home = (path_of home @ [''Library'', ''LaunchAgents'']) @ [LABEL @ ''.plist'']" "plain_name (LABEL @ ''.plist'')"
  unfolding agent_path_def plain_name_def LABEL_def
  by (simp_all add: path_join_def path_is_absolute_def starts_with_def del: valid_utf8.simps add: valid_utf8_ascii)

lemma keeps_systemd_stop: "keepsE (on_disk w) (systemd_stop host)"
  unfolding systemd_stop_def by (intro keeps_intros keeps_launchctl)

interpretation systemd: manager "unit_path home" OWNERSHIP_MARKER "render_unit binary service_path"
    "systemd_prepare_install host home binary service_path" "\<lambda>_. systemd_activate host" "systemd_uninstall host home"
  for host home binary service_path
proof unfold_locales
  fix w h assume f: "foreign w (unit_path home) OWNERSHIP_MARKER"
  show "wpE (systemd_prepare_install host home binary service_path) (\<lambda>_ _. False) (\<lambda>_ t. fst t = h \<and> only_ticks w (snd t)) (h, w)"
    unfolding systemd_prepare_install_def Let_def validate_unit_def
    by (cases "render_unit binary service_path") (simp, simp only: sum.case foreign_on_world [OF f])
  show "wpE (systemd_uninstall host home) (\<lambda>_ _. False) (\<lambda>_ t. fst t = h \<and> only_ticks w (snd t)) (h, w)"
    unfolding systemd_uninstall_def Let_def validate_unit_def by (rule foreign_on_world [OF f])
next
  fix w h assume ok: "world_ok w"
  show "wpE (systemd_prepare_install host home binary service_path)
      (\<lambda>_ t. confined (write_scope (butlast (unit_path home)) (unit_path home)) w (snd t)
         \<and> (\<exists>b. render_unit binary service_path = Inr b \<and> view (snd t) (unit_path home) = Some b))
      (\<lambda>_ t. confined (write_scope (butlast (unit_path home)) (unit_path home)) w (snd t)) (h, w)"
  proof (cases "render_unit binary service_path")
    case (Inl e)
    then show ?thesis using ok by (simp add: systemd_prepare_install_def confined_refl)
  next
    case (Inr b)
    show ?thesis
      unfolding systemd_prepare_install_def Let_def validate_unit_def Inr sum.case unit_path_split(1) butlast_snoc
      by (rule wpE_mono [OF file_made [OF ok unit_path_split(2), where first = "\<lambda>_. systemd_stop host"]])
        (use keeps_disk [OF keeps_systemd_stop] keeps_disk [OF keeps_systemd_reload] in auto)
  qed
next
  fix x s
  show "wpE (systemd_activate host) (\<lambda>_ t. snd t = snd s) (\<lambda>_ t. snd t = snd s) s"
    by (rule keeps_disk [OF keeps_systemd_activate])
qed

interpretation launchd: manager "agent_path home" ownership_marker "render_plist binary service_path home tmux_tmpdir"
    "launchd_prepare_install host home uid binary service_path tmux_tmpdir" "launchd_activate host uid home"
    "launchd_uninstall host home uid"
  for host home uid binary service_path tmux_tmpdir
proof unfold_locales
  fix w h assume f: "foreign w (agent_path home) ownership_marker"
  show "wpE (launchd_prepare_install host home uid binary service_path tmux_tmpdir) (\<lambda>_ _. False)
      (\<lambda>_ t. fst t = h \<and> only_ticks w (snd t)) (h, w)"
    unfolding launchd_prepare_install_def Let_def
    by (cases "render_plist binary service_path home tmux_tmpdir") (simp, simp only: sum.case foreign_on_world [OF f])
  show "wpE (launchd_uninstall host home uid) (\<lambda>_ _. False) (\<lambda>_ t. fst t = h \<and> only_ticks w (snd t)) (h, w)"
    unfolding launchd_uninstall_def Let_def by (rule foreign_on_world [OF f])
next
  fix w h assume ok: "world_ok w"
  show "wpE (launchd_prepare_install host home uid binary service_path tmux_tmpdir)
      (\<lambda>_ t. confined (write_scope (butlast (agent_path home)) (agent_path home)) w (snd t)
         \<and> (\<exists>b. render_plist binary service_path home tmux_tmpdir = Inr b \<and> view (snd t) (agent_path home) = Some b))
      (\<lambda>_ t. confined (write_scope (butlast (agent_path home)) (agent_path home)) w (snd t)) (h, w)"
  proof (cases "render_plist binary service_path home tmux_tmpdir")
    case (Inl e)
    then show ?thesis using ok by (simp add: launchd_prepare_install_def confined_refl)
  next
    case (Inr b)
    show ?thesis
      unfolding launchd_prepare_install_def Let_def Inr sum.case agent_path_split(1) butlast_snoc
      by (rule wpE_mono [OF file_made [OF ok agent_path_split(2),
            where first = "\<lambda>present. if present then graceful_stop host uid home ''install-service'' else returnE ()"]])
        (use keeps_disk [OF keeps_graceful_stop] keeps_disk [OF keeps_enable] in auto)
  qed
next
  fix x s
  show "wpE (launchd_activate host uid home x) (\<lambda>_ t. snd t = snd s) (\<lambda>_ t. snd t = snd s) s"
    by (rule keeps_disk [OF keeps_launchd_activate])
qed

subsection \<open>What an install promises\<close>

text \<open>The service's file, how the program knows it, and what it should hold\<close>

definition service_file :: "PlatformKind \<Rightarrow> string \<Rightarrow> path" where
  "service_file k home = (case k of Linux \<Rightarrow> unit_path home | Macos \<Rightarrow> agent_path home)"

definition service_marker :: "PlatformKind \<Rightarrow> bytes" where
  "service_marker k = (case k of Linux \<Rightarrow> OWNERSHIP_MARKER | Macos \<Rightarrow> ownership_marker)"

definition service_text :: "service_host \<Rightarrow> ServiceController \<Rightarrow> string \<Rightarrow> string \<Rightarrow> bytes \<Rightarrow> bool" where
  "service_text host sc home tmux_path b \<longleftrightarrow>
     (\<exists>binary service_path.
        canonical_executable host (sc_binary sc) = Inr binary
        \<and> assembled_service_path tmux_path (search_directories (sc_environment sc) (sc_standard_directories sc)) = Inr service_path
        \<and> (case sc_platform sc of
             Linux \<Rightarrow> render_unit binary service_path
           | Macos \<Rightarrow> render_plist binary service_path home (nonempty (sc_environment sc ''TMUX_TMPDIR''))) = Inr b)"

lemma config_root_last: "resolve_paths k env = Inr paths \<Longrightarrow> \<exists>r. config_root paths = r @ [''solstone-tmux'']"
  by (cases k)
    (auto simp: resolve_paths_def resolve_config_root_def resolve_data_root_def linux_config_root_def linux_data_root_def
      linux_root_def macos_root_def path_join_def path_is_absolute_def starts_with_def split: sum.splits option.splits)

lemma files_apart:
  assumes "resolve_paths k env = Inr paths"
  shows "state_file (config_root paths) \<notin> write_scope (butlast (service_file k' home)) (service_file k' home)"
    and "service_file k' home \<notin> state_scope (config_root paths)"
proof -
  obtain r where r: "config_root paths = r @ [''solstone-tmux'']" using config_root_last [OF assms] by blast
  have l: "STATE_FILENAME \<noteq> UNIT_NAME" "STATE_FILENAME \<noteq> LABEL @ ''.plist''" "hd UNIT_NAME \<noteq> CHR ''.''" "hd (LABEL @ ''.plist'') \<noteq> CHR ''.''"
    "\<And>s. STATE_FILENAME \<noteq> CHR ''.'' # s"
    by (simp_all add: STATE_FILENAME_def UNIT_NAME_def LABEL_def)
  show "state_file (config_root paths) \<notin> write_scope (butlast (service_file k' home)) (service_file k' home)"
    using l by (cases k') (auto simp: service_file_def unit_path_split(1) agent_path_split(1) write_scope_def temporaries_def state_file_def r
        dest: arg_cong [of _ _ last] arg_cong [of _ _ "\<lambda>p. last (butlast p)"])
  show "service_file k' home \<notin> state_scope (config_root paths)"
    using l by (cases k') (auto simp: service_file_def unit_path_split(1) agent_path_split(1) write_scope_def temporaries_def state_file_def
        state_scope_def r dest: arg_cong [of _ _ last])
qed

definition tmux_found :: "service_host \<Rightarrow> ServiceController \<Rightarrow> string \<Rightarrow> bool" where
  "tmux_found host sc tmux_path \<longleftrightarrow>
     resolve_tmux host (search_directories (sc_environment sc) (sc_standard_directories sc)) = Inr tmux_path"

lemma install_cases:
  assumes paths: "resolve_paths (sc_platform sc) (sc_environment sc) = Inr paths" and home: "sc_environment sc ''HOME'' = Some home"
    and early: "\<And>e. R e s"
    and main: "\<And>binary tmux_path service_path.
      canonical_executable host (sc_binary sc) = Inr binary \<Longrightarrow> tmux_found host sc tmux_path
      \<Longrightarrow> assembled_service_path tmux_path (search_directories (sc_environment sc) (sc_standard_directories sc)) = Inr service_path
      \<Longrightarrow> wpE (case sc_platform sc of
           Linux \<Rightarrow>
             install_with host (config_root paths) tmux_path
               (systemd_prepare_install host home binary service_path) (\<lambda>_. systemd_activate host)
         | Macos \<Rightarrow>
             install_with host (config_root paths) tmux_path
               (launchd_prepare_install host home (sc_user_id sc) binary service_path (nonempty (sc_environment sc ''TMUX_TMPDIR'')))
               (launchd_activate host (sc_user_id sc) home)) Q R s"
  shows "wpE (install_service host sc) Q R s"
proof -
  have h: "nonempty (sc_environment sc ''HOME'') = (if home = [] then None else Some home)" by (simp add: home nonempty_def)
  show ?thesis
    using main early by (auto simp: install_service_def resolved_paths_def paths required_home_def h Let_def tmux_found_def split: sum.split)
qed

lemma install_spec:
  assumes w: "world_ok w" and paths: "resolve_paths (sc_platform sc) (sc_environment sc) = Inr paths"
    and home: "sc_environment sc ''HOME'' = Some home"
  shows "wpE (install_service host sc)
    (\<lambda>_ t. \<exists>tmux_path b. tmux_found host sc tmux_path \<and> service_text host sc home tmux_path b
       \<and> state_says host (config_root paths) tmux_path (snd t) \<and> view (snd t) (service_file (sc_platform sc) home) = Some b)
    (\<lambda>e t. view (snd t) (state_file (config_root paths)) = view w (state_file (config_root paths))
       \<or> disk_error e \<and> (\<exists>tmux_path. tmux_found host sc tmux_path \<and> state_says host (config_root paths) tmux_path (snd t))) (h, w)"
proof (rule install_cases [OF paths home])
  fix binary tmux_path service_path
  assume b: "canonical_executable host (sc_binary sc) = Inr binary" and t: "tmux_found host sc tmux_path"
    and p: "assembled_service_path tmux_path (search_directories (sc_environment sc) (sc_standard_directories sc)) = Inr service_path"
  note apart = files_apart [OF paths]
  show "wpE (case sc_platform sc of
       Linux \<Rightarrow>
         install_with host (config_root paths) tmux_path
           (systemd_prepare_install host home binary service_path) (\<lambda>_. systemd_activate host)
     | Macos \<Rightarrow>
         install_with host (config_root paths) tmux_path
           (launchd_prepare_install host home (sc_user_id sc) binary service_path (nonempty (sc_environment sc ''TMUX_TMPDIR'')))
           (launchd_activate host (sc_user_id sc) home))
    (\<lambda>_ t. \<exists>tmux_path b. tmux_found host sc tmux_path \<and> service_text host sc home tmux_path b
       \<and> state_says host (config_root paths) tmux_path (snd t) \<and> view (snd t) (service_file (sc_platform sc) home) = Some b)
    (\<lambda>e t. view (snd t) (state_file (config_root paths)) = view w (state_file (config_root paths))
       \<or> disk_error e \<and> (\<exists>tmux_path. tmux_found host sc tmux_path \<and> state_says host (config_root paths) tmux_path (snd t))) (h, w)"
  proof (cases "sc_platform sc")
    case Linux
    have "wpE (install_with host (config_root paths) tmux_path
           (systemd_prepare_install host home binary service_path) (\<lambda>_. systemd_activate host))
      (\<lambda>_ t. state_says host (config_root paths) tmux_path (snd t)
         \<and> (\<exists>b. render_unit binary service_path = Inr b \<and> view (snd t) (unit_path home) = Some b))
      (\<lambda>e t. view (snd t) (state_file (config_root paths)) = view w (state_file (config_root paths))
         \<or> disk_error e \<and> state_says host (config_root paths) tmux_path (snd t)) (h, w)"
      by (rule systemd.installed [OF w]) (use apart [of Linux home] in \<open>simp_all add: service_file_def\<close>)
    then show ?thesis
      unfolding Linux PlatformKind.case by (rule wpE_mono) (use b p t Linux in \<open>auto simp: service_text_def service_file_def\<close>)
  next
    case Macos
    let ?tmp = "nonempty (sc_environment sc ''TMUX_TMPDIR'')"
    have "wpE (install_with host (config_root paths) tmux_path
           (launchd_prepare_install host home (sc_user_id sc) binary service_path ?tmp) (launchd_activate host (sc_user_id sc) home))
      (\<lambda>_ t. state_says host (config_root paths) tmux_path (snd t)
         \<and> (\<exists>b. render_plist binary service_path home ?tmp = Inr b \<and> view (snd t) (agent_path home) = Some b))
      (\<lambda>e t. view (snd t) (state_file (config_root paths)) = view w (state_file (config_root paths))
         \<or> disk_error e \<and> state_says host (config_root paths) tmux_path (snd t)) (h, w)"
      by (rule launchd.installed [OF w]) (use apart [of Macos home] in \<open>simp_all add: service_file_def\<close>)
    then show ?thesis
      unfolding Macos PlatformKind.case by (rule wpE_mono) (use b p t Macos in \<open>auto simp: service_text_def service_file_def\<close>)
  qed
qed simp

lemma foreign_install_spec:
  assumes home: "sc_environment sc ''HOME'' = Some home"
    and f: "foreign w (service_file (sc_platform sc) home) (service_marker (sc_platform sc))"
  shows "wpE (install_service host sc) (\<lambda>_ _. False) (\<lambda>_ t. fst t = h \<and> only_ticks w (snd t)) (h, w)"
proof (cases "resolve_paths (sc_platform sc) (sc_environment sc)")
  case (Inl e)
  then show ?thesis by (simp add: install_service_def resolved_paths_def)
next
  case (Inr paths)
  show ?thesis
  proof (rule install_cases [OF Inr home])
    fix binary tmux_path service_path
    show "wpE (case sc_platform sc of
         Linux \<Rightarrow>
           install_with host (config_root paths) tmux_path
             (systemd_prepare_install host home binary service_path) (\<lambda>_. systemd_activate host)
       | Macos \<Rightarrow>
           install_with host (config_root paths) tmux_path
             (launchd_prepare_install host home (sc_user_id sc) binary service_path (nonempty (sc_environment sc ''TMUX_TMPDIR'')))
             (launchd_activate host (sc_user_id sc) home))
       (\<lambda>_ _. False) (\<lambda>_ t. fst t = h \<and> only_ticks w (snd t)) (h, w)"
      using f
      by (cases "sc_platform sc")
        (simp_all add: service_file_def service_marker_def systemd.foreign_install launchd.foreign_install)
  qed simp
qed

lemma foreign_uninstall_spec:
  assumes home: "sc_environment sc ''HOME'' = Some home"
    and f: "foreign w (service_file (sc_platform sc) home) (service_marker (sc_platform sc))"
  shows "wpE (uninstall host sc) (\<lambda>_ _. False) (\<lambda>_ t. fst t = h \<and> only_ticks w (snd t)) (h, w)"
proof -
  have "wpE (uninstall_service host sc home) (\<lambda>_ _. False) (\<lambda>_ t. fst t = h \<and> only_ticks w (snd t)) (h, w)"
    using f systemd.refuses_foreign(2)
      launchd.refuses_foreign(2)
    by (cases "sc_platform sc") (simp_all add: uninstall_service_def service_file_def service_marker_def)
  then show ?thesis
    using home by (auto simp: uninstall_def resolved_paths_def required_home_def nonempty_def split: sum.split elim!: wpE_mono)
qed

text \<open>
  C34. An install is done or undone. From any state of the disk, whatever the manager answers and whichever
  call on the disk fails: if \<open>install_service\<close> succeeds, the local state names the tmux it found, and the service's
  file holds the definition of the executable, the search path and the home it was given. If it fails, the
  local state is what it was before; only an error of the disk itself can leave the new state behind, and it is
  reported as such.
\<close>

theorem install_is_done_or_undone:
  assumes "world_ok w" "resolve_paths (sc_platform sc) (sc_environment sc) = Inr paths"
    and "sc_environment sc ''HOME'' = Some home"
  shows "case install_service host sc (h, w) of
      (Inr _, t) \<Rightarrow>
        \<exists>tmux_path b. tmux_found host sc tmux_path \<and> service_text host sc home tmux_path b
          \<and> state_says host (config_root paths) tmux_path (snd t)
          \<and> view (snd t) (service_file (sc_platform sc) home) = Some b
    | (Inl e, t) \<Rightarrow>
        view (snd t) (state_file (config_root paths)) = view w (state_file (config_root paths))
        \<or> disk_error e \<and> (\<exists>tmux_path. tmux_found host sc tmux_path \<and> state_says host (config_root paths) tmux_path (snd t))"
  using install_spec [OF assms, of host h] by (auto simp: wpE_def split: prod.split sum.split)

text \<open>
  C16. The program alters no service definition that is not its own. If there is anything at the place of
  the unit or the property list that is no regular file, or a file without the program's mark, then
  installing and uninstalling the service fail, no command of the manager has been run, and nothing on the
  disk has changed.
\<close>

theorem foreign_service_files_are_kept:
  assumes "sc_environment sc ''HOME'' = Some home"
    and "foreign w (service_file (sc_platform sc) home) (service_marker (sc_platform sc))"
  shows "(case install_service host sc (h, w) of (r, (h', u)) \<Rightarrow> isl r \<and> h' = h \<and> only_ticks w u)
    \<and> (case uninstall host sc (h, w) of (r, (h', u)) \<Rightarrow> isl r \<and> h' = h \<and> only_ticks w u)"
  using foreign_install_spec [OF assms, of host h] foreign_uninstall_spec [OF assms, of host h]
  by (auto simp: wpE_def split: prod.splits sum.splits)

text \<open>
  C5. A service definition says what it was made from. Whatever the paths contain, a rendered unit has its
  fifteen lines, and its two quoted values, read the way systemd reads them, are the executable followed by
  \<open>run\<close> and the search path; a rendered property list, its entities read back, has the executable,
  the home, the search path and the directory of the tmux sockets as its strings, and no others.
\<close>

theorem service_definitions_read_back:
  assumes "render_unit binary service_path = Inr u" "render_plist binary service_path home tmux_tmpdir = Inr d"
  shows "length (split_on LF u) = 16
    \<and> quoted_setting ''ExecStart'' u = Some (binary, '' run'')
    \<and> quoted_setting ''Environment'' u = Some (''PATH='' @ service_path, [])
    \<and> xml_strings d =
        [LABEL, binary, ''run'', home, service_path] @ (case tmux_tmpdir of None \<Rightarrow> [] | Some t \<Rightarrow> [t])
        @ [''UTF-8'', ''Background'', home @ ''/Library/Logs/solstone-tmux.log'', home @ ''/Library/Logs/solstone-tmux.log'']"
  using unit_reads_back [OF assms(1)] plist_reads_back [OF assms(2)] by simp

theorem service_definitions_read_back_witness:
  "\<exists>u d. render_unit ''/o%/s<t'' ''/usr/bin:/bin'' = Inr u \<and> quoted_setting ''ExecStart'' u = Some (''/o%/s<t'', '' run'')
     \<and> render_plist ''/o%/s<t'' ''/usr/bin:/bin'' ''/Users/a'' (Some ''/tmp'') = Inr d
     \<and> xml_strings d = [LABEL, ''/o%/s<t'', ''run'', ''/Users/a'', ''/usr/bin:/bin'', ''/tmp'', ''UTF-8'', ''Background'',
         ''/Users/a/Library/Logs/solstone-tmux.log'', ''/Users/a/Library/Logs/solstone-tmux.log'']"
proof -
  have v: "valid_utf8 ''/o%/s<t''" "valid_utf8 ''/usr/bin:/bin''" "valid_utf8 ''/Users/a''" "valid_utf8 ''/tmp''" by code_simp+
  have c: "\<not> has_control ''/o%/s<t''" "\<not> has_control ''/usr/bin:/bin''" by code_simp+
  obtain u where u: "render_unit ''/o%/s<t'' ''/usr/bin:/bin'' = Inr u"
    using v c by (auto simp: render_unit_def andR_def utf8_text_def escape_unit_value_def simp del: valid_utf8.simps)
  obtain d where d: "render_plist ''/o%/s<t'' ''/usr/bin:/bin'' ''/Users/a'' (Some ''/tmp'') = Inr d"
    using v by (auto simp: render_plist_def andR_def utf8_text_def simp del: valid_utf8.simps)
  from service_definitions_read_back [OF u d] u d show ?thesis by (auto simp del: xml_strings.simps)
qed

text \<open>A machine with tmux, on which systemd cannot enable the unit; and one where someone else's unit is in place\<close>

definition sample_host :: service_host where
  "sample_host =
     \<lparr>sh_runner = (\<lambda>_ _. Inr \<lparr>co_stdout = [], co_stderr = [], co_status = 1\<rparr>), sh_delay = (\<lambda>_. 0),
      sh_canonicalize = Some, sh_lstat = (\<lambda>_. Some (False, True, 493)), sh_json = (\<lambda>_. None), sh_unjson = (\<lambda>_. None)\<rparr>"

definition sample_controller :: ServiceController where
  "sample_controller =
     \<lparr>sc_platform = Linux, sc_environment = (\<lambda>v. if v = ''HOME'' then Some ''/h'' else None),
      sc_binary = ''/b'', sc_standard_directories = [''/bin''], sc_user_id = 1\<rparr>"

definition sample_paths :: PlatformPaths where
  "sample_paths = \<lparr>data_root = [''h'', ''.local'', ''share'', ''solstone-tmux''], config_root = [''h'', ''.config'', ''solstone-tmux'']\<rparr>"

definition taken_world :: world where
  "taken_world = (bare_world [])\<lparr>w_names := [([], NDir 1), (unit_path ''/h'', NLink [''x''])], w_next := 4\<rparr>"

lemma sample_resolved: "resolve_paths (sc_platform sample_controller) (sc_environment sample_controller) = Inr sample_paths"
  by (simp add: resolve_paths_def resolve_data_root_def resolve_config_root_def linux_data_root_def linux_config_root_def
      linux_root_def nonempty_def sample_controller_def sample_paths_def path_of_def path_join_def path_is_absolute_def starts_with_def)

theorem install_is_done_or_undone_witness:
  "world_ok (bare_world []) \<and> sc_environment sample_controller ''HOME'' = Some ''/h''
   \<and> (case install_service sample_host sample_controller (\<lparr>sr_calls = [], sr_now = 0\<rparr>, bare_world []) of
      (Inr _, t) \<Rightarrow> False
    | (Inl e, t) \<Rightarrow> view (snd t) (state_file (config_root sample_paths)) = None)"
proof -
  have home: "sc_environment sample_controller ''HOME'' = Some ''/h''" by (simp add: sample_controller_def)
  have none: "view (bare_world []) p = None" if "p \<noteq> []" for p using that by (simp add: bare_world_def view_def node_at_def)
  have "\<not> state_says sample_host r t u" for r t u by (simp add: state_says_def sample_host_def)
  then show ?thesis
    using install_is_done_or_undone [OF bare_world_ok [of "[]"] sample_resolved home, where host = sample_host and h = "\<lparr>sr_calls = [], sr_now = 0\<rparr>"]
      none home bare_world_ok
    by (auto simp: state_file_def split: prod.splits sum.splits)
qed

theorem foreign_service_files_are_kept_witness:
  "case install_service sample_host sample_controller (\<lparr>sr_calls = [], sr_now = 0\<rparr>, taken_world) of
     (r, (h', u)) \<Rightarrow> isl r \<and> sr_calls h' = [] \<and> only_ticks taken_world u"
proof -
  have home: "sc_environment sample_controller ''HOME'' = Some ''/h''" by (simp add: sample_controller_def)
  have "foreign taken_world (service_file (sc_platform sample_controller) ''/h'') (service_marker (sc_platform sample_controller))"
    by (simp add: foreign_def sample_controller_def service_file_def taken_world_def node_at_def view_def unit_path_split(1))
  from foreign_service_files_are_kept [OF home this, where host = sample_host and h = "\<lparr>sr_calls = [], sr_now = 0\<rparr>"] show ?thesis
    by (auto split: prod.splits)
qed

end
