(* ===== verification/Startup.thy ===== *)
theory Startup
  imports Held Installer Manager Recovery Indicator Streams
begin

text \<open>
  The start of the observer (\<open>run_native\<close> in \<open>src/main.rs\<close>), up to the point where the supervisor takes over
  (theory \<open>Observer\<close>): the roots, the two locks, the settings, the recovery of what an earlier run left, the
  first segment and the indicator. Starting the runtime, the signal handlers and the indicator touch no
  file; they are answers in the environment. An early return drops the locks taken so far.
\<close>

datatype start_error =
  StartPath PathError
| StartLocked InstanceLockError
| PrivateStateInUse
| StartConfig ConfigError
| StartService ServiceError
| StartTmux TmuxError
| StartRecovery RecoveryError
| StartRuntime string
| StartSegment SegmentError
| StartIndicator string "SegmentError option"

record ('z, 'x, 'ts, 's) start_env =
  st_platform :: PlatformKind
  st_environment :: "string \<Rightarrow> string option"
  st_lock_json :: "RunIdentity \<Rightarrow> io_error + bytes"
  st_now :: nat
  st_hostname :: "ConfigError + string"
  st_unconfig :: "bytes \<Rightarrow> ConfigFile option"
  st_lower :: "string \<Rightarrow> string"
  st_host :: service_host
  st_runner :: "CommandInvocation \<Rightarrow> 's \<Rightarrow> (CommandError + CommandOutput) \<times> 's"
  st_lookup :: "nat \<Rightarrow> 's \<Rightarrow> (ExeFailure + string) \<times> 's"
  st_recovery :: RecoveryApi
  st_runtime :: "string + unit"
  st_observer :: "('z, 'x, 'ts) observer_env"
  st_zone :: 'x
  st_wall :: int
  st_instant :: nat
  st_indicator :: "string \<Rightarrow> nat \<Rightarrow> string + ServerIndicator"

record ('z, 'x, 's) started =
  sd_data_root :: path
  sd_config_root :: path
  sd_lock :: InstanceLock
  sd_private_lock :: nat
  sd_config :: RuntimeConfig
  sd_adapter :: "'s TmuxAdapter"
  sd_recovered :: "RecoveryRecord list"
  sd_manager :: "('z, 'x) SegmentManager"
  sd_indicator :: "ServerIndicator option"

definition ofE :: "('x \<Rightarrow> 'e) \<Rightarrow> 'x + 'a \<Rightarrow> ('s, 'e, 'a) comp" where
  "ofE err r = (case r of Inl x \<Rightarrow> throwE (err x) | Inr a \<Rightarrow> returnE a)"

text \<open>A lock that is a local variable: an error that leaves the function drops it.\<close>

definition holding :: "nat \<Rightarrow> ('e, 'a) lockio \<Rightarrow> ('e, 'a) lockio" where
  "holding i m = tryE m (\<lambda>r. case r of Inl e \<Rightarrow> bindE (release i) (\<lambda>_. throwE e) | Inr x \<Rightarrow> returnE x)"

definition on_manager_segment ::
  "('z, 'x) SegmentManager \<Rightarrow> (FileStorage, SegmentError, 'a) seg \<Rightarrow> ('e, SegmentError + 'a) io" where
  "on_manager_segment g m w = (case m (mg_segment g, w) of (r, (_, w)) \<Rightarrow> (Inr r, w))"

definition startup_error :: "('z, 'x) SegmentManager \<Rightarrow> string \<Rightarrow> (start_error, 'a) io" where
  "startup_error g error =
     bindE (on_manager_segment g (remove_confirmed_empty sync_and_close)) (\<lambda>r.
     throwE (StartIndicator error (case r of Inl cleanup \<Rightarrow> Some cleanup | Inr _ \<Rightarrow> None)))"

definition with_context ::
  "string \<Rightarrow> (CommandInvocation \<Rightarrow> 's \<Rightarrow> (CommandError + CommandOutput) \<times> 's) \<Rightarrow> bool \<Rightarrow> bool \<Rightarrow> bool
   \<Rightarrow> (nat \<Rightarrow> 's \<Rightarrow> (ExeFailure + string) \<times> 's) \<Rightarrow> TmuxError + 's TmuxAdapter" where
  "with_context executable runner pane_title working_directory executable_enabled lookup =
     (if \<not> path_is_absolute executable then Inl (ExecutableMustBeAbsolute executable)
      else Inr \<lparr>tx_runner = runner, tx_lookup = lookup, tx_executable = executable, tx_pane_title = pane_title,
        tx_working_directory = working_directory, tx_executable_enabled = executable_enabled, tx_output_sessions = []\<rparr>)"

definition with_output_sessions :: "string list \<Rightarrow> 's TmuxAdapter \<Rightarrow> 's TmuxAdapter" where
  "with_output_sessions patterns ta = ta\<lparr>tx_output_sessions := patterns\<rparr>"

text \<open>The adapter the observer polls with\<close>

definition start_adapter ::
  "(CommandInvocation \<Rightarrow> 's \<Rightarrow> (CommandError + CommandOutput) \<times> 's) \<Rightarrow> (nat \<Rightarrow> 's \<Rightarrow> (ExeFailure + string) \<times> 's)
   \<Rightarrow> RuntimeConfig \<Rightarrow> string \<Rightarrow> TmuxError + 's TmuxAdapter" where
  "start_adapter runner lookup c tmux =
     map_sum id (with_output_sessions (rt_output_sessions c))
       (with_context tmux runner (rt_pane_title c) (rt_working_directory c) (rt_executable c) lookup)"

subsection \<open>The start\<close>

definition read_settings :: "('z, 'x, 'ts, 's) start_env \<Rightarrow> path \<Rightarrow> (start_error, RuntimeConfig \<times> string \<times> 's TmuxAdapter) lockio" where
  "read_settings se conf =
     bindE (ofE StartConfig (st_hostname se)) (\<lambda>hostname.
     bindE (on_world (map_errE StartConfig (load_config (st_unconfig se) (st_lower se) conf hostname))) (\<lambda>c.
     bindE (on_world (map_errE StartService (load_local_observer (st_host se) conf))) (\<lambda>tmux.
     bindE (ofE StartTmux (start_adapter (st_runner se) (st_lookup se) c tmux)) (\<lambda>adapter.
     returnE (c, tmux, adapter)))))"

definition start_recording ::
  "('z, 'x, 'ts, 's) start_env \<Rightarrow> path \<Rightarrow> RuntimeConfig \<Rightarrow> string
   \<Rightarrow> (start_error, RecoveryRecord list \<times> ('z, 'x) SegmentManager \<times> ServerIndicator option) io" where
  "start_recording se dr c tmux =
     bindE (map_errE StartRecovery
       (recover_capture_streams (st_recovery se) dr (rt_segment_interval c * NANOS))) (\<lambda>records.
     bindE (ofE StartRuntime (st_runtime se)) (\<lambda>_.
     bindE (map_errE StartSegment
       (manager_start ((st_observer se)\<lparr>ob_root := dr, ob_stream := rt_stream c\<rparr>)
         (st_zone se) (st_wall se) (st_instant se) (rt_segment_interval c * NANOS))) (\<lambda>manager.
     if \<not> rt_status_indicator c then returnE (records, manager, None)
     else if \<not> path_is_absolute tmux then throwE (StartIndicator ''tmux executable must be absolute'' None)
     else (case st_indicator se tmux (rt_capture_interval c) of
             Inr indicator \<Rightarrow> returnE (records, manager, Some indicator)
           | Inl error \<Rightarrow> startup_error manager error))))"

text \<open>What is done under both locks, under the first of them, and all of it\<close>

definition start_inside ::
  "('z, 'x, 'ts, 's) start_env \<Rightarrow> path \<Rightarrow> path \<Rightarrow> InstanceLock \<Rightarrow> nat \<Rightarrow> (start_error, ('z, 'x, 's) started) lockio" where
  "start_inside se dr conf lock inner =
     bindE (read_settings se conf) (\<lambda>(c, tmux, adapter).
     bindE (on_world (start_recording se dr c tmux)) (\<lambda>(records, manager, indicator).
     returnE \<lparr>sd_data_root = dr, sd_config_root = conf, sd_lock = lock, sd_private_lock = inner,
       sd_config = c, sd_adapter = adapter, sd_recovered = records, sd_manager = manager, sd_indicator = indicator\<rparr>))"

definition start_locked ::
  "('z, 'x, 'ts, 's) start_env \<Rightarrow> path \<Rightarrow> InstanceLock \<Rightarrow> (start_error, ('z, 'x, 's) started) lockio" where
  "start_locked se dr lock =
     bindE (ofE StartPath (resolve_config_root (st_platform se) (st_environment se))) (\<lambda>conf.
     bindE (on_world (map_errE StartPath (ensure_private_directory conf))) (\<lambda>_.
     bindE (map_errE (\<lambda>_. PrivateStateInUse) (acquire_private_state_lock conf)) (\<lambda>inner.
     holding inner (start_inside se dr conf lock inner))))"

definition run_native :: "('z, 'x, 'ts, 's) start_env \<Rightarrow> (start_error, ('z, 'x, 's) started) lockio" where
  "run_native se =
     bindE (ofE StartPath (resolve_data_root (st_platform se) (st_environment se))) (\<lambda>dr.
     bindE (on_world (map_errE StartPath (ensure_private_directory dr))) (\<lambda>_.
     bindE (map_errE StartLocked (acquire (st_lock_json se) (st_now se) dr)) (\<lambda>lock.
     holding (il_file lock) (start_locked se dr lock))))"

subsection \<open>Before the locks are held, and without the settings, no file is touched\<close>

text \<open>No file outside \<open>S\<close> differs, and no file was replaced or removed.\<close>

definition spared :: "path set \<Rightarrow> world \<Rightarrow> world \<Rightarrow> bool" where
  "spared S w u \<longleftrightarrow> confined S w u \<and> (\<forall>p i. node_at w p = Some (NFile i) \<longrightarrow> node_at u p = Some (NFile i))"

lemma spared_refl: "world_ok w \<Longrightarrow> spared S w w"
  by (simp add: spared_def confined_refl)

lemma spared_trans: "spared S w u \<Longrightarrow> spared S u v \<Longrightarrow> spared S w v"
  by (auto simp: spared_def intro: confined_trans)

lemma spared_mono: "spared S w u \<Longrightarrow> S \<subseteq> T \<Longrightarrow> spared T w u"
  by (auto simp: spared_def confined_def)

lemma spared_ok: "spared S w u \<Longrightarrow> world_ok u"
  by (simp add: spared_def confined_def)

lemma spared_tick: "spared S w u \<Longrightarrow> spared S w (tick u)"
  by (simp add: spared_def confined_def world_simps)

lemma spared_mode: "spared S w u \<Longrightarrow> spared S w (put_mode i m u)"
  by (simp add: spared_def confined_def world_simps)

lemma spared_dirs: "dirs_only w u \<Longrightarrow> spared S w u"
  by (auto simp: spared_def confined_def dirs_only_def)

lemma spared_new: "spared S w u \<Longrightarrow> node_at u p = None \<Longrightarrow> p \<in> S \<Longrightarrow> spared S w (new_file p u)"
  by (auto simp: spared_def confined_def world_simps world_upd)

lemma spared_data: "spared S w u \<Longrightarrow> node_at u p = Some (NFile i) \<Longrightarrow> p \<in> S \<Longrightarrow> spared S w (put_data i b u)"
  by (auto simp: spared_def confined_def world_simps world_upd view_put_data)

lemma claim_spared:
  assumes "spared S w u" "node_at u p = Some (NFile i)" "p \<in> S"
  shows "wpE (claim_lock json now i p) (\<lambda>_ s. spared S w (snd s)) (\<lambda>_ s. spared S w (snd s)) (h, u)"
proof -
  define P where "P v \<longleftrightarrow> spared S w v \<and> node_at v p = Some (NFile i)" for v
  have keep: "P u" "\<And>v. P v \<Longrightarrow> P (tick v)" "\<And>b v. P v \<Longrightarrow> P (put_data i b v)"
    using assms by (auto simp: P_def world_simps intro: spared_tick spared_data)
  show ?thesis
    unfolding claim_lock_def wpE_bind wpE_map_err
    apply (rule wp_flock)
    subgoal using keep by (auto simp: P_def)
    subgoal using keep by (auto simp: P_def)
    apply (simp add: Let_def)
    apply (rule wp_write_identity [where P = P])
    using keep by (auto simp: P_def)
qed

lemma acquire_spared:
  assumes ok: "world_ok w" and S: "path_join root LOCK_FILENAME \<in> S"
  shows "wpE (acquire json now root) (\<lambda>_ s. spared S w (snd s)) (\<lambda>_ s. spared S w (snd s)) (h, w)"
proof -
  let ?p = "path_join root LOCK_FILENAME"
  let ?R = "\<lambda>_ s. spared S w (snd s)"
  have opened: "wpE (lock_io op ?p (fs_chmod_fd i 384))
      (\<lambda>_. wpE (lock_io op' ?p fs_seek) (\<lambda>_. wpE (claim_lock json now i ?p) ?R ?R) ?R) ?R (h, u)"
    if "spared S w u" "node_at u ?p = Some (NFile i)" for i u op op'
    using that S
    by (auto simp: lock_io_def world_simps intro!: wp_intros claim_spared spared_tick spared_mode)
  show ?thesis
    unfolding acquire_def open_lock_def Let_def wpE_bind if_True
    apply (rule wp_check_lock_target)
    subgoal using ok by (simp add: spared_refl spared_tick)
    apply (subst lock_io_def)
    apply (simp only: wpE_on_world prod.case wpE_map_err)
    apply (rule wp_open_create)
    subgoal using ok by (simp add: spared_refl spared_tick)
    subgoal using ok by (intro opened) (simp_all add: spared_refl spared_tick world_simps)
    subgoal using ok S by (intro opened spared_new spared_tick spared_refl) (simp_all add: world_simps)
    done
qed

lemma private_lock_spec:
  assumes w: "spared S w u" and S: "path_join root PRIVATE_STATE_LOCK_FILENAME \<in> S"
  shows "wpE (acquire_private_state_lock root)
    (\<lambda>i s. spared S w (snd s) \<and> node_at (snd s) (path_join root PRIVATE_STATE_LOCK_FILENAME) = Some (NFile i)
       \<and> i \<notin> set (lk_held h) \<and> lk_held (fst s) = i # lk_held h)
    (\<lambda>_ s. spared S w (snd s) \<and> lk_held (fst s) = lk_held h) (h, u)"
proof -
  let ?p = "path_join root PRIVATE_STATE_LOCK_FILENAME"
  let ?Q = "\<lambda>i s. spared S w (snd s) \<and> node_at (snd s) ?p = Some (NFile i) \<and> i \<notin> set (lk_held h) \<and> lk_held (fst s) = i # lk_held h"
  let ?R = "\<lambda>_ s. spared S w (snd s) \<and> lk_held (fst s) = lk_held h"
  have got: "wpE (flock_exclusive i) (\<lambda>b. wpE (if b then returnE i else throwE SetupUnavailable) ?Q ?R) (\<lambda>_. ?R SetupUnavailable) (h, v)"
    if "spared S w v" "node_at v ?p = Some (NFile i)" for i v
    by (rule wp_flock) (use that in \<open>auto intro: spared_tick simp: world_simps\<close>)
  have opened: "wpE fs_seek (\<lambda>_ v. wpE (fs_chmod_fd i 384) (\<lambda>_ v. wpE (flock_exclusive i)
        (\<lambda>b. wpE (if b then returnE i else throwE SetupUnavailable) ?Q ?R) (\<lambda>_. ?R SetupUnavailable) (h, v))
      (\<lambda>_ v. ?R SetupUnavailable (h, v)) v) (\<lambda>_ v. ?R SetupUnavailable (h, v)) v"
    if "spared S w v" "node_at v ?p = Some (NFile i)" for i v
    by (intro wp_intros got) (use that in \<open>simp_all add: spared_tick spared_mode world_simps\<close>)
  show ?thesis
    unfolding acquire_private_state_lock_def Let_def wpE_bind wpE_on_world prod.case wpE_map_err
    apply (rule wp_open_create)
    subgoal using w by (simp add: spared_tick)
    subgoal using w by (intro opened) (simp_all add: spared_tick world_simps)
    subgoal using w S by (intro opened spared_new spared_tick) (simp_all add: world_simps)
    done
qed

text \<open>Errors that end the start before anything is recovered or recorded\<close>

definition started_nothing :: "start_error \<Rightarrow> bool" where
  "started_nothing e \<longleftrightarrow> (case e of StartRecovery _ \<Rightarrow> False | StartRuntime _ \<Rightarrow> False | StartSegment _ \<Rightarrow> False
     | StartIndicator _ _ \<Rightarrow> False | _ \<Rightarrow> True)"

text \<open>Someone holds the lock of this file.\<close>

definition taken :: "locks \<Rightarrow> world \<Rightarrow> path \<Rightarrow> bool" where
  "taken l w p \<longleftrightarrow> (case node_at w p of Some (NFile i) \<Rightarrow> i \<in> set (lk_held l) | _ \<Rightarrow> False)"

lemma spared_ticks: "only_ticks u v \<Longrightarrow> spared S w u \<Longrightarrow> spared S w v"
  using only_ticks_obs [of u v] by (simp add: spared_def confined_def)

lemma quiet_spares: "quietE m \<Longrightarrow> keepsE (spared S w) m"
  unfolding quietE_def keepsE_def by (blast intro: spared_ticks)

lemma chmod_spares: "keepsE (spared S w) (fs_chmod p m)"
  by (rule keepsE_I, rule wp_chmod) (simp_all add: spared_tick spared_mode)

lemma settings_spare:
  "keepsE (spared S w) (load_config unjson lower root hostname)" "keepsE (spared S w) (load_local_observer host root)"
proof -
  show "keepsE (spared S w) (load_config unjson lower root hostname)"
    unfolding load_config_def Let_def
    by (auto intro!: keeps_intros chmod_spares quiet_calls [THEN quiet_spares]
        split: sum.split node.split option.split io_error.split)
  have "quietE (load_local_observer host root)"
    unfolding load_local_observer_def Let_def
    by (intro quiet_intros validate_quiet)
  then show "keepsE (spared S w) (load_local_observer host root)" by (rule quiet_spares)
qed

lemma holding_wp:
  assumes "wpE m Q (\<lambda>e (l, w). R e (l\<lparr>lk_held := remove1 i (lk_held l)\<rparr>, w)) s"
  shows "wpE (holding i m) Q R s"
  unfolding holding_def wpE_try
  by (rule wpE_mono [OF assms]) auto

definition lock_files :: "('z, 'x, 'ts, 's) start_env \<Rightarrow> path set" where
  "lock_files se =
     {path_join dr LOCK_FILENAME | dr. resolve_data_root (st_platform se) (st_environment se) = Inr dr}
     \<union> {path_join conf PRIVATE_STATE_LOCK_FILENAME | conf. resolve_config_root (st_platform se) (st_environment se) = Inr conf}"

definition ends_clean ::
  "('z, 'x, 'ts, 's) start_env \<Rightarrow> locks \<Rightarrow> world \<Rightarrow> start_error \<Rightarrow> locks \<times> world \<Rightarrow> bool" where
  "ends_clean se l w e s \<longleftrightarrow>
     lk_held (fst s) = lk_held l
     \<and> (started_nothing e \<longrightarrow> spared (lock_files se) w (snd s))
     \<and> ((\<exists>p\<in>lock_files se. taken l w p) \<longrightarrow> started_nothing e)"

definition ends_holding :: "('z, 'x, 'ts, 's) start_env \<Rightarrow> locks \<Rightarrow> world \<Rightarrow> ('z, 'x, 's) started \<Rightarrow> locks \<times> world \<Rightarrow> bool" where
  "ends_holding se l w d s \<longleftrightarrow> (\<forall>p\<in>lock_files se. \<not> taken l w p) \<and> lk_held (fst s) = sd_private_lock d # il_file (sd_lock d) # lk_held l
     \<and> distinct [sd_private_lock d, il_file (sd_lock d)] \<and> sd_private_lock d \<notin> set (lk_held l) \<and> il_file (sd_lock d) \<notin> set (lk_held l)"

lemma taken_kept: "spared S w u \<Longrightarrow> taken l w p \<Longrightarrow> node_at u p = Some (NFile i) \<Longrightarrow> i \<in> set (lk_held l)"
  by (auto simp: taken_def spared_def split: option.splits node.splits)

lemma settings_spec:
  assumes "spared S w u" "\<And>x v. spared S w v \<Longrightarrow> Q x (l, v)" "\<And>e v. started_nothing e \<Longrightarrow> spared S w v \<Longrightarrow> R e (l, v)"
  shows "wpE (read_settings se conf) Q R (l, u)"
proof -
  note kept = keepsE_D [OF settings_spare(1)] keepsE_D [OF settings_spare(2)]
  have ask: "wpE (ofE err r) Q' R' s \<longleftrightarrow> (case r of Inl x \<Rightarrow> R' (err x) s | Inr x \<Rightarrow> Q' x s)" for err :: "'x \<Rightarrow> 'e" and r :: "'x + 'y" and Q' R' and s :: 't
    by (simp add: ofE_def split: sum.split)
  have fails: "R (StartConfig a) (l, v)" "R (StartService b) (l, v)" "R (StartTmux c) (l, v)" if "spared S w v" for a b c v
    using that assms(3) by (simp_all add: started_nothing_def)
  show ?thesis
    unfolding read_settings_def wpE_bind ask wpE_on_world prod.case wpE_map_err
    using assms(1,2) fails
    by (auto split: sum.split intro!: wpE_mono [OF kept(1)] wpE_mono [OF kept(2)])
qed

text \<open>From the recovery on the errors are others.\<close>

lemma startup_error_late: "wpE (startup_error g error) Q (\<lambda>e _. \<not> started_nothing e) w"
  by (simp add: startup_error_def wpE_def bindE_def on_manager_segment_def throwE_def started_nothing_def split: prod.split)

lemma recording_fails_late: "wpE (start_recording se dr c tmux) (\<lambda>_ _. True) (\<lambda>e _. \<not> started_nothing e) w"
proof -
  have late: "\<not> started_nothing (StartRecovery a)" "\<not> started_nothing (StartRuntime b)"
    "\<not> started_nothing (StartSegment x)" "\<not> started_nothing (StartIndicator y z)" for a b x y z
    by (simp_all add: started_nothing_def)
  have go: "wpE (if \<not> rt_status_indicator c then returnE (records, manager, None)
     else if \<not> path_is_absolute tmux then throwE (StartIndicator ''tmux executable must be absolute'' None)
     else (case st_indicator se tmux (rt_capture_interval c) of
             Inr indicator \<Rightarrow> returnE (records, manager, Some indicator)
           | Inl error \<Rightarrow> startup_error manager error)) (\<lambda>_ _. True) (\<lambda>e _. \<not> started_nothing e) v" for records manager v
    using late by (simp add: startup_error_late split: sum.split)
  show ?thesis
    unfolding start_recording_def wpE_bind wpE_map_err
    apply (rule wpE_mono [OF wpE_anyhow])
    subgoal
      apply (cases "st_runtime se")
       apply (simp add: ofE_def late)
      apply (simp only: ofE_def sum.case wpE_return)
      apply (rule wpE_mono [OF wpE_anyhow])
       apply (rule go)
      apply (rule late)
      done
    by (rule late)
qed

lemma locked_part:
  assumes dr: "resolve_data_root (st_platform se) (st_environment se) = Inr dr"
    and u: "spared (lock_files se) w u" and held: "acquired json (path_join dr LOCK_FILENAME) l lock (l1, u)"
  shows "wpE (start_locked se dr lock)
     (\<lambda>d s. ends_holding se l w d s) (\<lambda>e (l', v). ends_clean se l w e (l'\<lparr>lk_held := remove1 (il_file lock) (lk_held l')\<rparr>, v)) (l1, u)"
    (is "wpE ?m ?Q ?R _")
proof -
  let ?S = "lock_files se" and ?j = "il_file lock"
  let ?data = "path_join dr LOCK_FILENAME"
  have l1: "lk_held l1 = ?j # lk_held l" "?j \<notin> set (lk_held l)" using held by (simp_all add: acquired_def)
  have data_free: "\<not> taken l w ?data"
  proof
    assume "taken l w ?data"
    with u held l1(2) show False using taken_kept [of ?S w u l ?data ?j] by (simp add: acquired_def)
  qed
  have early: "?R e (l', v)" if "lk_held l' = lk_held l1" "started_nothing e" "spared ?S w v" for e l' v
    using that l1 by (simp add: ends_clean_def)
  show ?thesis
  proof (cases "resolve_config_root (st_platform se) (st_environment se)")
    case (Inl x)
    then show ?thesis using early [of l1 "StartPath x" u] u by (simp add: start_locked_def ofE_def started_nothing_def)
  next
    case (Inr conf)
    let ?conf = "path_join conf PRIVATE_STATE_LOCK_FILENAME"
    have S: "?conf \<in> ?S" "?S = {?data, ?conf}" using dr Inr by (auto simp: lock_files_def)
    have late: "wpE (holding i (start_inside se dr conf lock i))
        ?Q ?R (l2, v)"
      if v: "spared ?S w v" "node_at v ?conf = Some (NFile i)" "i \<notin> set (lk_held l1)" "lk_held l2 = i # lk_held l1" for i l2 v
    proof (rule holding_wp, subst start_inside_def, subst wpE_bind, rule settings_spec [OF v(1)])
      fix e v' assume "started_nothing e" "spared ?S w v'"
      then show "case (l2, v') of (l, w) \<Rightarrow> ?R e (l\<lparr>lk_held := remove1 i (lk_held l)\<rparr>, w)"
        using early [of "l2\<lparr>lk_held := remove1 i (lk_held l2)\<rparr>" e v'] v(4) by simp
    next
      fix x v' assume v': "spared ?S w v'"
      have "\<not> taken l w ?conf" using taken_kept [OF v(1) _ v(2)] v(3) l1 by auto
      then have free: "\<not> (\<exists>p\<in>?S. taken l w p)" using data_free S(2) by auto
      note records = recording_fails_late [of se dr _ _ v']
      show "wpE ((\<lambda>(c, tmux, adapter).
           bindE (on_world (start_recording se dr c tmux)) (\<lambda>(records, manager, indicator).
           returnE \<lparr>sd_data_root = dr, sd_config_root = conf, sd_lock = lock, sd_private_lock = i,
             sd_config = c, sd_adapter = adapter, sd_recovered = records, sd_manager = manager, sd_indicator = indicator\<rparr>)) x)
          ?Q (\<lambda>e (l, w). ?R e (l\<lparr>lk_held := remove1 i (lk_held l)\<rparr>, w)) (l2, v')"
        using v l1 free
        by (auto simp: ends_holding_def ends_clean_def split: prod.split intro!: wpE_mono [OF records])
    qed
    have lock: "wpE (acquire_private_state_lock conf) (\<lambda>inner. wpE (holding inner
          (start_inside se dr conf lock inner))
        ?Q ?R) (\<lambda>e. ?R PrivateStateInUse) (l1, v)" if v: "spared ?S w v" for v
      apply (rule wpE_mono [OF private_lock_spec [OF v S(1)]])
      subgoal for i s by (cases s) (use late in simp)
      subgoal for e s by (cases s) (use early [of "fst s" PrivateStateInUse "snd s"] in \<open>simp add: started_nothing_def\<close>)
      done
    show ?thesis
      unfolding start_locked_def Inr
      apply (simp only: ofE_def sum.case)
      apply (subst wpE_bind, subst wpE_return, subst wpE_bind, simp only: wpE_on_world prod.case wpE_map_err)
      apply (rule wpE_mono [OF ensure_private_directory_spec])
      subgoal using u by (rule spared_ok)
      subgoal for y v
        unfolding wpE_bind wpE_map_err by (rule lock) (use spared_trans [OF u spared_dirs] in blast)
      subgoal for e v
        using early [of l1 "StartPath e" v] spared_trans [OF u spared_dirs] by (auto simp: started_nothing_def)
      done
  qed
qed

lemma run_native_spec:
  assumes ok: "world_ok w"
  shows "wpE (run_native se) (\<lambda>d s. ends_holding se l w d s) (\<lambda>e s. ends_clean se l w e s) (l, w)"
proof (cases "resolve_data_root (st_platform se) (st_environment se)")
  case (Inl x)
  then show ?thesis using ok by (simp add: run_native_def ofE_def ends_clean_def started_nothing_def spared_refl)
next
  case (Inr dr)
  let ?S = "lock_files se" and ?p = "path_join dr LOCK_FILENAME"
  have S: "?p \<in> ?S" using Inr by (auto simp: lock_files_def)
  have early: "ends_clean se l w e (l', v)" if "lk_held l' = lk_held l" "started_nothing e" "spared ?S w v" for e l' v
    using that by (simp add: ends_clean_def)
  have lock: "wpE (acquire (st_lock_json se) (st_now se) dr) (\<lambda>lock. wpE (holding (il_file lock) (start_locked se dr lock))
      (\<lambda>d s. ends_holding se l w d s) (\<lambda>e s. ends_clean se l w e s)) (\<lambda>e. ends_clean se l w (StartLocked e)) (l, v)"
    if v: "dirs_only w v" for v
  proof -
    have sv: "spared ?S w v" by (rule spared_dirs [OF v])
    note both = wpE_conj [OF acquire_spec [of "st_lock_json se" "st_now se" dr l v] acquire_spared [OF spared_ok [OF sv] S, of "st_lock_json se" "st_now se" l]]
    show ?thesis
      apply (rule wpE_mono [OF both])
      subgoal for lock s
        by (cases s, simp only: prod.sel snd_conv, elim conjE, rule holding_wp)
          (rule wpE_mono [OF locked_part [OF Inr]]; use spared_trans [OF sv] in \<open>auto\<close>)
      subgoal for e s
        using early [of "fst s" "StartLocked e" "snd s"] spared_trans [OF sv] by (cases s) (simp add: started_nothing_def)
      done
  qed
  show ?thesis
    unfolding run_native_def Inr
    apply (simp only: ofE_def sum.case)
    apply (subst wpE_bind, subst wpE_return, subst wpE_bind, simp only: wpE_on_world prod.case wpE_map_err)
    apply (rule wpE_mono [OF ensure_private_directory_spec [OF ok]])
    subgoal for y v unfolding wpE_bind wpE_map_err by (rule lock) simp
    subgoal for e v using early [of l "StartPath e" v] spared_dirs by (auto simp: started_nothing_def)
    done
qed

text \<open>
  C17. A second instance touches nothing. The start takes the lock of the data root and then that of the private
  state before it reads the settings, recovers or records anything. If it succeeds it holds both, and nobody held
  either before. If it fails, for whatever reason and at whatever call, it has dropped every lock it took; if
  someone held one of the two, or a root, a lock or the settings are why it failed, no file but the two lock
  files differs, and none was replaced or removed.
\<close>

theorem start_takes_both_locks_first:
  assumes "world_ok w"
  shows "case run_native se (l, w) of
      (Inr d, s) \<Rightarrow> ends_holding se l w d s
    | (Inl e, s) \<Rightarrow> ends_clean se l w e s"
  using run_native_spec [OF assms, of se l] by (auto simp: wpE_def split: prod.splits sum.splits)

definition second_start :: "(unit, unit, unit, unit) start_env" where
  "second_start = \<lparr>st_platform = Linux, st_environment = [''HOME'' \<mapsto> ''/home''], st_lock_json = unary_json, st_now = 5,
     st_hostname = Inr ''host'', st_unconfig = \<lambda>_. None, st_lower = id, st_host = sample_host,
     st_runner = \<lambda>_ s. (Inl (Spawn EIO), s), st_lookup = \<lambda>_ s. (Inl ExeUnavailable, s), st_recovery =
       \<lparr>api_time = every_time, api_frame_id = \<lambda>_. None, api_parse = \<lambda>_. None, api_json = \<lambda>_. Inr [], api_json_ct = \<lambda>_. Inr []\<rparr>,
      st_runtime = Inr (),
     st_observer = Manager.sample_env, st_zone = (), st_wall = 0, st_instant = 0, st_indicator = \<lambda>_ _. Inl ''no server''\<rparr>"

definition occupied_world :: world where
  "occupied_world = (bare_world [])\<lparr>
     w_names := [([], NDir 0), ([''home''], NDir 1), ([''home'', ''.local'', ''share'', ''solstone-tmux'', LOCK_FILENAME], NFile 2)],
     w_data := [(2, ''running'')], w_next := 3\<rparr>"

theorem start_takes_both_locks_first_witness:
  "case run_native second_start (no_locks\<lparr>lk_held := [2]\<rparr>, occupied_world) of
     (Inr _, _) \<Rightarrow> False
   | (Inl e, (l, w)) \<Rightarrow> lk_held l = [2] \<and> started_nothing e \<and> view w [''home'', ''.config'', ''x''] = None"
proof -
  let ?l = "no_locks\<lparr>lk_held := [2]\<rparr>" and ?p = "[''home'', ''.local'', ''share'', ''solstone-tmux'', LOCK_FILENAME]"
  have ok: "world_ok occupied_world" by (rule world_ok_checked) code_simp
  have roots: "resolve_data_root Linux [''HOME'' \<mapsto> ''/home''] = Inr [''home'', ''.local'', ''share'', ''solstone-tmux'']"
    "resolve_config_root Linux [''HOME'' \<mapsto> ''/home''] = Inr [''home'', ''.config'', ''solstone-tmux'']" by code_simp+
  have files: "lock_files second_start = {?p, [''home'', ''.config'', ''solstone-tmux'', PRIVATE_STATE_LOCK_FILENAME]}"
    using roots by (auto simp: lock_files_def second_start_def lock_path file_paths)
  have "taken ?l occupied_world ?p"
    by (simp add: taken_def occupied_world_def node_at_def no_locks_def)
  then have held: "\<exists>p\<in>lock_files second_start. taken ?l occupied_world p" by (simp add: files)
  have view: "view occupied_world [''home'', ''.config'', ''x''] = None"
    by (simp add: view_def occupied_world_def bare_world_def node_at_def)
  have apart: "[''home'', ''.config'', ''x''] \<notin> lock_files second_start" by (simp add: files)
  obtain r l w where run: "run_native second_start (?l, occupied_world) = (r, (l, w))" by (metis prod.exhaust)
  note claim = start_takes_both_locks_first [OF ok, of second_start ?l, unfolded run prod.case]
  show ?thesis
  proof (cases r)
    case (Inl e)
    with claim have c: "ends_clean second_start ?l occupied_world e (l, w)" by simp
    then have "started_nothing e" using held by (simp add: ends_clean_def)
    with c show ?thesis using view apart unfolding run Inl by (simp add: ends_clean_def spared_def confined_def)
  next
    case (Inr d)
    with claim held show ?thesis by (simp add: ends_holding_def)
  qed
qed

end
