(* ===== verification/Report.thy ===== *)
theory Report
  imports Held Installer Metadata
begin

text \<open>
  What the program tells its owner: the facts about the machine and the two lines of \<open>about\<close>
  (\<open>src/about.rs\<close>), the link for a problem report (\<open>src/support.rs\<close>), and the \<open>status\<close> command and the exit
  codes of \<open>src/main.rs\<close>. The version of the package is a parameter, as are the answers of the
  operating system (\<open>uname\<close>, the release files, \<open>sysctl\<close>).
\<close>

subsection \<open>The machine\<close>

record HostFacts =
  hf_os :: string
  hf_os_version :: string
  hf_arch :: string

text \<open>On Linux: the release and the machine of \<open>uname\<close>, and the first release file that can be read\<close>

definition linux_host_facts :: "bytes \<Rightarrow> bytes \<Rightarrow> string option \<Rightarrow> string option \<Rightarrow> HostFacts" where
  "linux_host_facts rel machine etc_release usr_release =
     (let (os, version) =
        (case etc_release of
           Some t \<Rightarrow> parse_os_release t
         | None \<Rightarrow> (case usr_release of Some t \<Rightarrow> parse_os_release t | None \<Rightarrow> (''linux'', utf8_lossy rel))) in
      \<lparr>hf_os = os, hf_os_version = version, hf_arch = normalize_arch (utf8_lossy machine)\<rparr>)"

text \<open>On macOS: the answers of \<open>sysctl\<close>, \<open>None\<close> where it could not be run\<close>

definition sysctl_text :: "CommandOutput option \<Rightarrow> string option" where
  "sysctl_text out =
     (case out of
        None \<Rightarrow> None
      | Some r \<Rightarrow>
          if co_status r \<noteq> 0 \<or> \<not> valid_utf8 (co_stdout r) then None
          else let v = trim (co_stdout r) in if v \<noteq> [] \<and> \<not> has_control v then Some v else None)"

definition translated_of :: "CommandOutput option \<Rightarrow> bool option" where
  "translated_of out =
     (case out of
        None \<Rightarrow> None
      | Some r \<Rightarrow>
          if co_status r = 0 then
            (if co_stdout r = ''1'' @ [LF] then Some True else if co_stdout r = ''0'' @ [LF] then Some False else None)
          else if find_sub ''unknown oid'' (utf8_lossy (co_stderr r)) \<noteq> None then Some False
          else None)"

definition macos_host_facts :: "(string \<Rightarrow> CommandOutput option) \<Rightarrow> HostFacts" where
  "macos_host_facts observe =
     \<lparr>hf_os = ''macos'',
      hf_os_version =
        (case sysctl_text (observe ''kern.osproductversion'') of
           Some v \<Rightarrow> if list_all (\<lambda>c. is_digit c \<or> c = CHR ''.'') v then v else []
         | None \<Rightarrow> []),
      hf_arch = native_macos_arch (translated_of (observe ''sysctl.proc_translated'')) (sysctl_text (observe ''hw.machine''))\<rparr>"

subsection \<open>The lines of about\<close>

record AboutBlock =
  bk_text :: string
  bk_host :: HostFacts

definition about_snapshot ::
  "version_env \<Rightarrow> string \<Rightarrow> HostFacts \<Rightarrow> path option \<Rightarrow> path option \<Rightarrow> int \<Rightarrow> ('e, AboutBlock) lockio" where
  "about_snapshot ve pkg host conf dr now =
     bindE
       (case (conf, dr) of
          (Some conf, Some dr) \<Rightarrow>
            bindE (read_journal_about ve conf dr now) (\<lambda>(status, facts, seen_at).
            returnE (journal_line status facts seen_at now))
        | _ \<Rightarrow> returnE ''journal unknown'')
       (\<lambda>journal.
        returnE \<lparr>bk_text = render_line ''tmux app'' pkg None (hf_os host) (hf_os_version host) (hf_arch host) @ [LF] @ journal,
          bk_host = host\<rparr>)"

subsection \<open>The link for a report\<close>

definition HELP_URL :: string where "HELP_URL = ''https://support.solstone.app''"

definition limited :: "string \<Rightarrow> nat \<Rightarrow> string" where
  "limited v n = concat (take n (utf8_chars v))"

definition upper_hex_digit :: "nat \<Rightarrow> char" where
  "upper_hex_digit n = char_of (if n < 10 then 48 + n else 55 + n)"

definition form_byte :: "char \<Rightarrow> string" where
  "form_byte c =
     (if c = CHR '' '' then ''+''
      else if is_alnum c \<or> c \<in> set ''*-._'' then [c]
      else [CHR ''%'', upper_hex_digit (byte c div 16), upper_hex_digit (byte c mod 16)])"

definition form_encode :: "string \<Rightarrow> string" where
  "form_encode v = concat (map form_byte v)"

definition report_fields :: "string \<Rightarrow> string \<Rightarrow> AboutBlock \<Rightarrow> (string \<times> string) list" where
  "report_fields pkg last_state block =
     [(''report'', ''v1''), (''app'', ''solstone for tmux'')]
     @ (if pkg = [] then [] else [(''version'', limited pkg 120)])
     @ (if hf_os (bk_host block) = [] then [] else [(''os'', limited (hf_os (bk_host block)) 120)])
     @ (if hf_os_version (bk_host block) = [] then [] else [(''os_version'', limited (hf_os_version (bk_host block)) 120)])
     @ (if last_state = [] then [] else [(''state'', limited last_state 500)])
     @ [(''about'', bk_text block)]"

definition form_field :: "string \<times> string \<Rightarrow> string" where
  "form_field f = form_encode (fst f) @ ''='' @ form_encode (snd f)"

definition report_url :: "string \<Rightarrow> string \<Rightarrow> AboutBlock \<Rightarrow> string" where
  "report_url pkg last_state block =
     HELP_URL @ ''/#'' @ join_with ''&'' (map form_field (report_fields pkg last_state block))"

subsection \<open>A report link reads back\<close>

text \<open>What a page makes of the fragment: \<open>application/x-www-form-urlencoded\<close>, as \<open>URLSearchParams\<close> reads it\<close>

definition hex_value :: "char \<Rightarrow> nat" where
  "hex_value c = (if is_digit c then byte c - 48 else byte c - 55)"

fun form_decode :: "string \<Rightarrow> string" where
  "form_decode [] = []"
| "form_decode (c # cs) =
     (if c = CHR ''+'' then CHR '' '' # form_decode cs
      else if c = CHR ''%'' then
        (case cs of
           a # b # rest \<Rightarrow> char_of (16 * hex_value a + hex_value b) # form_decode rest
         | _ \<Rightarrow> c # form_decode cs)
      else c # form_decode cs)"

definition read_field :: "string \<Rightarrow> string \<times> string" where
  "read_field s = (case split_once (CHR ''='') s of Some (k, v) \<Rightarrow> (form_decode k, form_decode v) | None \<Rightarrow> (form_decode s, []))"

definition read_report :: "string \<Rightarrow> (string \<times> string) list" where
  "read_report url = (case split_once (CHR ''#'') url of None \<Rightarrow> [] | Some (_, fragment) \<Rightarrow> map read_field (split_on (CHR ''&'') fragment))"

lemma hex_digits_back: "n < 16 \<Longrightarrow> hex_value (upper_hex_digit n) = n" "n < 16 \<Longrightarrow> is_alnum (upper_hex_digit n)"
  by (auto simp: hex_value_def upper_hex_digit_def byte_simps)

lemma form_decode_byte: "form_decode (form_byte c @ s) = c # form_decode s"
proof -
  have "byte c div 16 < 16" using byte_less_256 [of c] by (simp add: less_mult_imp_div_less)
  then have "char_of (16 * hex_value (upper_hex_digit (byte c div 16)) + hex_value (upper_hex_digit (byte c mod 16))) = c"
    by (simp add: hex_digits_back)
  moreover have "\<not> is_alnum (CHR ''+'') \<and> \<not> is_alnum (CHR ''%'')" by code_simp
  ultimately show ?thesis
    by (auto simp: form_byte_def)
qed

lemma form_decode_encode: "form_decode (form_encode v) = v"
  by (induction v) (simp_all add: form_encode_def form_decode_byte)

lemma form_encode_plain: "x \<in> set (form_encode v) \<Longrightarrow> is_alnum x \<or> x \<in> set ''*-._+%''"
proof -
  have "byte c div 16 < 16" for c using byte_less_256 [of c] by (simp add: less_mult_imp_div_less)
  then show "x \<in> set (form_encode v) \<Longrightarrow> is_alnum x \<or> x \<in> set ''*-._+%''"
    by (auto simp: form_encode_def form_byte_def hex_digits_back(2) split: if_splits)
qed

lemma split_once_first: "c \<notin> set a \<Longrightarrow> split_once c (a @ c # b) = Some (a, b)"
  by (induction a) auto

lemma split_on_append: "c \<notin> set a \<Longrightarrow> split_on c (a @ c # b) = a # split_on c b"
  by (induction a) auto

lemma split_on_join: "ps \<noteq> [] \<Longrightarrow> \<forall>p\<in>set ps. c \<notin> set p \<Longrightarrow> split_on c (join_with [c] ps) = ps"
  by (induction "[c]" ps rule: join_with.induct) (simp_all add: split_on_no_sep split_on_append)

lemma field_reads_back: "read_field (form_field f) = f"
proof -
  have "CHR ''='' \<notin> set (form_encode (fst f))" using form_encode_plain [of "CHR ''=''" "fst f"] by (auto simp: byte_simps)
  then show ?thesis by (simp add: read_field_def form_field_def split_once_first form_decode_encode)
qed

text \<open>
  The link is the support page with everything in the fragment, so nothing of it reaches the server by the
  request; and the page reads back exactly the fields that were put in: no value, whatever it contains, adds
  a field or runs into another.
\<close>

theorem report_reads_back:
  "read_report (report_url pkg last_state block) = report_fields pkg last_state block
   \<and> CHR ''?'' \<notin> set (report_url pkg last_state block)"
proof -
  let ?fields = "map form_field (report_fields pkg last_state block)"
  have plain: "x \<in> set (form_field f) \<Longrightarrow> is_alnum x \<or> x \<in> set ''*-._+%=''" for x f
    using form_encode_plain by (auto simp: form_field_def)
  have "CHR ''&'' \<notin> set p" if "p \<in> set ?fields" for p
    using that plain [of "CHR ''&''"] by (auto simp: byte_simps)
  then have split: "split_on (CHR ''&'') (join_with ''&'' ?fields) = ?fields"
    by (intro split_on_join) (simp_all add: report_fields_def)
  have "CHR ''#'' \<notin> set (HELP_URL @ ''/'')" "CHR ''?'' \<notin> set (HELP_URL @ ''/#'')" by code_simp+
  moreover have "CHR ''?'' \<notin> set (join_with ''&'' ?fields)"
  proof -
    have "x \<in> set (join_with sep ps) \<Longrightarrow> x \<in> set sep \<or> (\<exists>p\<in>set ps. x \<in> set p)" for x sep ps
      by (induction sep ps rule: join_with.induct) auto
    from this [of "CHR ''?''" "''&''" ?fields] plain [of "CHR ''?''"] show ?thesis by (auto simp: byte_simps)
  qed
  ultimately show ?thesis
    using split_once_first [of "CHR ''#''" "HELP_URL @ ''/''" "join_with ''&'' ?fields"] split
    by (simp add: report_url_def read_report_def field_reads_back o_def)
qed

subsection \<open>The status command\<close>

datatype status_line =
  ServiceLine string
| SyncHealthLine string
| HeldPairingLine
| HeldConfirmLine
| JournalLine journal_row
| JournalVersionLine string
| AboutLines string
| HelpLine string
| ReportLine string

record status_env =
  sv_controller :: ServiceController
  sv_host :: service_host
  sv_pairing :: pairing_env
  sv_version :: version_env
  sv_facts :: HostFacts
  sv_package :: string
  sv_now :: int

record status_run =
  sn_service :: service_run
  sn_locks :: locks

definition with_service :: "('e, 'a) svc \<Rightarrow> (status_run, 'e, 'a) sto" where
  "with_service m s = (case s of (h, w) \<Rightarrow> (case m (sn_service h, w) of (r, (x, w)) \<Rightarrow> (r, (h\<lparr>sn_service := x\<rparr>, w))))"

definition with_status_locks :: "('e, 'a) lockio \<Rightarrow> (status_run, 'e, 'a) sto" where
  "with_status_locks m s = (case s of (h, w) \<Rightarrow> (case m (sn_locks h, w) of (r, (x, w)) \<Rightarrow> (r, (h\<lparr>sn_locks := x\<rparr>, w))))"

definition service_line :: "ServiceError + ServiceStatus \<Rightarrow> string" where
  "service_line status =
     (case status of
        Inl _ \<Rightarrow> ''error''
      | Inr Active \<Rightarrow> ''active'' | Inr Restarting \<Rightarrow> ''restarting'' | Inr Inactive \<Rightarrow> ''inactive'' | Inr AbsentService \<Rightarrow> ''absent'')"

definition to_option :: "'e + 'a \<Rightarrow> 'a option" where
  "to_option r = (case r of Inl _ \<Rightarrow> None | Inr x \<Rightarrow> Some x)"

text \<open>What is read of the disk: whether a pairing is held, the health, the journal's row, its version and the about lines\<close>

definition read_health_line ::
  "status_env \<Rightarrow> path option \<Rightarrow> path option \<Rightarrow> ('e, bool \<times> string) lockio" where
  "read_health_line sv conf dr =
     bindE (case conf of None \<Rightarrow> returnE False | Some root \<Rightarrow> on_world (is_status_held (sv_pairing sv) root)) (\<lambda>held.
     if held then returnE (True, ''held'')
     else
       bindE (case dr of
           None \<Rightarrow> returnE StatusUnknown
         | Some root \<Rightarrow> read_status_health (ve_snapshot (sv_version sv)) (ve_identity (sv_version sv)) root (sv_now sv)) (\<lambda>health.
       returnE (False, status_name health)))"

definition read_disk ::
  "status_env \<Rightarrow> path option \<Rightarrow> path option
   \<Rightarrow> ('e, (bool \<times> string) \<times> JournalVersionStatus \<times> journal_row \<times> AboutBlock) lockio" where
  "read_disk sv conf dr =
     bindE (read_health_line sv conf dr) (\<lambda>health.
     bindE (case (conf, dr) of
         (Some c, Some d) \<Rightarrow> read_journal_version (sv_version sv) c d (sv_now sv)
       | _ \<Rightarrow> returnE VersionUnknown) (\<lambda>version.
     bindE (case conf of
         None \<Rightarrow> returnE RowUnavailable
       | Some root \<Rightarrow> on_world (journal_status_row (sv_pairing sv) root)) (\<lambda>row.
     bindE (about_snapshot (sv_version sv) (sv_package sv) (sv_facts sv) conf dr (sv_now sv)) (\<lambda>block.
     returnE (health, version, row, block)))))"

definition status_text ::
  "status_env \<Rightarrow> ServiceError + ServiceStatus \<Rightarrow> (bool \<times> string) \<times> JournalVersionStatus \<times> journal_row \<times> AboutBlock
   \<Rightarrow> status_line list" where
  "status_text sv status found =
     (case found of ((held, health), version, row, block) \<Rightarrow>
        [ServiceLine (service_line status), SyncHealthLine health]
        @ (if held then [HeldPairingLine, HeldConfirmLine] else [])
        @ [JournalLine row, JournalVersionLine (render_status version), AboutLines (bk_text block), HelpLine HELP_URL,
           ReportLine (report_url (sv_package sv) health block)])"

text \<open>The lines, the error shown after them, and the exit code\<close>

definition run_status ::
  "status_env \<Rightarrow> (status_run, 'e, status_line list \<times> ServiceError option \<times> int) sto" where
  "run_status sv =
     tryE (with_service (service_status (sv_host sv) (sv_controller sv))) (\<lambda>status.
     let conf = to_option (resolve_config_root (sc_platform (sv_controller sv)) (sc_environment (sv_controller sv)));
         dr = to_option (resolve_data_root (sc_platform (sv_controller sv)) (sc_environment (sv_controller sv))) in
     bindE (with_status_locks (read_disk sv conf dr)) (\<lambda>found.
     returnE (status_text sv status found,
              (case status of Inl e \<Rightarrow> Some e | Inr _ \<Rightarrow> None), status_exit_code status)))"

subsection \<open>What a command leaves the shell\<close>

text \<open>\<open>handle_outcome\<close>: the lines on stdout, what goes to stderr, and the exit code\<close>

datatype error_line = CodeLine DiagnosticCode | UsageLine message

definition handle_outcome :: "Outcome \<Rightarrow> message list \<times> error_line option \<times> int" where
  "handle_outcome out =
     (case out of
        Owner code lines \<Rightarrow> (lines, None, code)
      | Diagnostic code \<Rightarrow> ([], Some (CodeLine code), 1)
      | Usage text \<Rightarrow> ([], Some (UsageLine text), 2))"

text \<open>\<open>write_stdout\<close>: a reader that has gone away is no error.\<close>

definition write_stdout :: "io_error option \<Rightarrow> bool \<Rightarrow> string + unit" where
  "write_stdout failed broken_pipe =
     (case failed of None \<Rightarrow> Inr () | Some _ \<Rightarrow> if broken_pipe then Inr () else Inl ''could not write output'')"

subsection \<open>The status command only looks\<close>

text \<open>
  The locks that are held, the directories and the files are as they were. Modes are not: whoever reads the
  pairing makes its file private.
\<close>

definition as_found :: "world \<Rightarrow> world \<Rightarrow> bool" where
  "as_found w u \<longleftrightarrow> node_at u = node_at w \<and> view u = view w"

definition looked :: "locks \<Rightarrow> world \<Rightarrow> locks \<times> world \<Rightarrow> bool" where
  "looked l w s \<longleftrightarrow> lk_held (fst s) = lk_held l \<and> as_found w (snd s)"

lemma as_found_simps [simp]:
  "as_found w w" "as_found w (tick u) = as_found w u" "as_found w (put_mode i m u) = as_found w u"
  by (simp_all add: as_found_def world_simps)

lemma as_found_ticks: "only_ticks u v \<Longrightarrow> as_found w u \<Longrightarrow> as_found w v"
  using only_ticks_obs [of u v] by (simp add: as_found_def)

lemma quiet_same: "quietE m \<Longrightarrow> keepsE (as_found w) m"
  unfolding quietE_def keepsE_def by (blast intro: as_found_ticks)

lemma chmod_fd_same: "keepsE (as_found w) (fs_chmod_fd i m)"
  by (rule keepsE_I, rule wp_chmod_fd) simp_all

lemmas same_intros = keeps_intros chmod_fd_same quiet_calls [THEN quiet_same] quiet_opens [THEN quiet_same]

definition looksE :: "('e, 'a) lockio \<Rightarrow> bool" where
  "looksE m \<longleftrightarrow> (\<forall>l w. keepsE (looked l w) m)"

lemma looks_world: "(\<And>w. keepsE (as_found w) m) \<Longrightarrow> looksE (on_world m)"
  by (auto simp: looksE_def keepsE_def looked_def on_world_def split: prod.split) (metis snd_conv)

named_theorems looks_intros \<open>computations that change neither the disk nor the locks held\<close>

lemma looks_combine [looks_intros]:
  "looksE (returnE x)" "looksE (throwE e)"
  "looksE m \<Longrightarrow> (\<And>x. looksE (f x)) \<Longrightarrow> looksE (bindE m f)"
  "looksE m' \<Longrightarrow> (\<And>r. looksE (k r)) \<Longrightarrow> looksE (tryE m' k)"
  "(c \<Longrightarrow> looksE a) \<Longrightarrow> (\<not> c \<Longrightarrow> looksE b) \<Longrightarrow> looksE (if c then a else b)"
  unfolding looksE_def by (blast intro: keeps_intros)+

lemma looks_cases [looks_intros]:
  "(\<And>x. v = Inl x \<Longrightarrow> looksE (f x)) \<Longrightarrow> (\<And>x. v = Inr x \<Longrightarrow> looksE (g x)) \<Longrightarrow> looksE (case v of Inl x \<Rightarrow> f x | Inr x \<Rightarrow> g x)"
  "(q = None \<Longrightarrow> looksE a) \<Longrightarrow> (\<And>x. q = Some x \<Longrightarrow> looksE (h x)) \<Longrightarrow> looksE (case q of None \<Rightarrow> a | Some x \<Rightarrow> h x)"
  "(\<And>x y. u = (x, y) \<Longrightarrow> looksE (k x y)) \<Longrightarrow> looksE (case u of (x, y) \<Rightarrow> k x y)"
  by (auto split: sum.splits option.splits prod.splits)

text \<open>The inspection takes the lock for a moment, and gives it back.\<close>

lemma looks_inspect [looks_intros]: "looksE (inspect_existing unjson root)"
proof -
  have "wpE (inspect_existing unjson root) (\<lambda>_. looked l w) (\<lambda>_. looked l w) (h, u)" if "looked l w (h, u)" for l w h u
  proof -
    have l: "lk_held h = lk_held l" "as_found w u" using that by (simp_all add: looked_def)
    have asked: "wpE (flock_exclusive i) (\<lambda>got. wpE (if got then bindE (release i) (\<lambda>_. returnE (Unlocked idt)) else returnE (Locked idt) :: (io_error, ExistingLock) lockio)
        (\<lambda>_. looked l w) (\<lambda>_. looked l w)) (\<lambda>_. looked l w) (h, v)" if "as_found w v" for i v idt
      by (rule wp_flock) (use l that in \<open>auto simp: looked_def\<close>)
    show ?thesis
      unfolding inspect_existing_def wpE_try
      apply simp
      apply (rule wp_open_rdwr)
      subgoal using l by (simp add: looked_def)
      subgoal for i
        using l asked
        by (auto simp: looked_def split: option.split intro!: wp_seek wp_read_fd)
      done
  qed
  then show ?thesis by (auto simp: looksE_def keepsE_wp)
qed

lemma same_reads:
  "keepsE (as_found w) (load_credential codec root)" "keepsE (as_found w) (read_answer_file env root)"
  "keepsE (as_found w) (read_record ve root)" "keepsE (as_found w) (read_snapshot unjson root)"
  unfolding load_credential_def read_private_file_def read_answer_file_def read_record_def read_snapshot_def
  by (auto intro!: same_intros split: StorageError.split io_error.split option.split sum.split)

lemma same_held: "keepsE (as_found w) (is_status_held env root)" "keepsE (as_found w) (journal_status_row env root)"
proof -
  show "keepsE (as_found w) (is_status_held env root)"
    unfolding is_status_held_def stored_id_needs_asking_def unverified_pairing_accepted_def
    by (auto intro!: same_intros same_reads split: sum.split option.split)
  then show "keepsE (as_found w) (journal_status_row env root)"
    unfolding journal_status_row_def by (auto intro!: same_intros same_reads split: sum.split option.split)
qed

lemmas looks_reads [looks_intros] = same_reads [THEN looks_world] same_held [THEN looks_world]
  quiet_calls [THEN quiet_same, THEN looks_world]

lemma looks_status: "looksE (read_status_health unjson unlock root now)"
  unfolding read_status_health_def by (auto intro!: looks_intros split: sum.split node.split)

lemma looks_about: "looksE (read_journal_about ve conf dr now)"
  unfolding read_journal_about_def
  by (auto intro!: looks_intros looks_status split: option.split sum.split)

lemma looks_disk: "looksE (read_disk sv conf dr)"
  unfolding read_disk_def read_health_line_def about_snapshot_def read_journal_version_def
  by (intro looks_intros looks_status looks_about)

lemma service_status_looks: "keepsE (\<lambda>s. as_found w (snd s)) (service_status host sc)"
proof -
  have disk: "keepsE (\<lambda>s. as_found w (snd s)) (on_world m)" if "quietE m" for m :: "(ServiceError, bool) io"
    using keepsE_D [OF quiet_same [OF that]] by (auto simp: keepsE_wp)
  have run: "keepsE (\<lambda>s. as_found w (snd s)) (run_service host exe oper args)" for exe oper args
    by (rule keepsE_I, rule wp_run_service) (auto simp: called_def)
  have unit: "quietE (validate_unit p)" for p
    unfolding validate_unit_def by (intro validate_quiet)
  show ?thesis
    unfolding service_status_def from_result_def systemd_status_def launchd_status_def systemctl_def launchd_print_def launchctl_def Let_def
    by (auto intro!: keeps_intros disk run unit validate_quiet split: PlatformKind.split sum.split)
qed

text \<open>Every failure to read is an answer.\<close>

abbreviation never_fails :: "('s, 'e, 'a) comp \<Rightarrow> bool" where
  "never_fails m \<equiv> alwaysE (\<lambda>_. True) (\<lambda>_. False) m"

lemma never_try: "(\<And>r. never_fails (f r)) \<Longrightarrow> never_fails (tryE m f)"
  by (rule always_try [OF always_any]) simp_all

lemma never_bind: "never_fails m \<Longrightarrow> (\<And>x. never_fails (f x)) \<Longrightarrow> never_fails (bindE m f)"
  by (rule always_bind) simp_all

lemma never_return: "never_fails (returnE x)"
  by (rule always_return) simp

lemma never_world: "never_fails m \<Longrightarrow> never_fails (on_world m)"
  by (rule always_on_world)

lemma never_inspect: "never_fails (inspect_existing unjson root)"
  unfolding inspect_existing_def by (rule never_try) (simp add: never_return split: sum.split)

lemma never_held: "never_fails (is_status_held env root)" "never_fails (journal_status_row env root)"
proof -
  show "never_fails (is_status_held env root)"
    unfolding is_status_held_def stored_id_needs_asking_def unverified_pairing_accepted_def
    by (auto intro!: never_try never_bind never_return split: sum.split option.split)
  then show "never_fails (journal_status_row env root)"
    unfolding journal_status_row_def by (auto intro!: never_try never_bind never_return)
qed

lemma never_snapshot: "never_fails (read_snapshot unjson root)"
  unfolding read_snapshot_def by (auto intro!: never_try never_return split: sum.split)

lemma never_status: "never_fails (read_status_health unjson unlock root now)"
  unfolding read_status_health_def
  by (auto intro!: never_try never_bind never_return never_world never_snapshot never_inspect split: sum.split node.split option.split)

lemma never_about: "never_fails (read_journal_about ve conf dr now)"
  unfolding read_journal_about_def read_record_def
  by (auto intro!: never_try never_bind never_return never_world never_inspect never_status split: option.split sum.split)

lemma never_health: "alwaysE (\<lambda>x. fst x \<longrightarrow> snd x = ''held'') (\<lambda>_. False) (read_health_line sv conf dr)"
  unfolding read_health_line_def
  by (rule always_bind [where P = "\<lambda>_. True"])
    (auto intro!: never_world never_held never_return always_return always_bind [where P = "\<lambda>_. True"] never_status split: option.split)

lemma never_disk: "alwaysE (\<lambda>x. fst (fst x) \<longrightarrow> snd (fst x) = ''held'') (\<lambda>_. False) (read_disk sv conf dr)"
  unfolding read_disk_def about_snapshot_def read_journal_version_def
  by (rule always_bind [OF never_health])
    (auto intro!: never_world never_held never_return never_bind always_return always_bind [where P = "\<lambda>_. True"] never_about split: option.split)

text \<open>
  \<open>status\<close> always answers, and only looks: whatever fails, no lock stays taken and no file or directory
  appears, goes or changes. Its exit code is 1 exactly if the service manager could not be asked, and then the
  error follows; and the owner is told how to confirm only where the health line says that the pairing is held.
\<close>

theorem status_only_looks:
  "case (run_status sv (h, w) :: ('e + _) \<times> _) of
     (Inl _, _) \<Rightarrow> False
   | (Inr (lines, error, code), (h', w')) \<Rightarrow>
       lk_held (sn_locks h') = lk_held (sn_locks h) \<and> as_found w w'
       \<and> (code = 1) = (error \<noteq> None) \<and> (error \<noteq> None) = (ServiceLine ''error'' \<in> set lines)
       \<and> (if HeldConfirmLine \<in> set lines then SyncHealthLine ''held'' \<in> set lines else True)"
proof -
  let ?conf = "to_option (resolve_config_root (sc_platform (sv_controller sv)) (sc_environment (sv_controller sv)))"
  let ?dr = "to_option (resolve_data_root (sc_platform (sv_controller sv)) (sc_environment (sv_controller sv)))"
  obtain status h1 w1 where s: "service_status (sv_host sv) (sv_controller sv) (sn_service h, w) = (status, (h1, w1))"
    by (metis prod.exhaust)
  have w1: "as_found w w1"
    using service_status_looks [of w "sv_host sv" "sv_controller sv"] s by (simp add: keepsE_def)
      (metis as_found_simps(1) snd_conv)
  obtain found h2 w2 where r: "(read_disk sv ?conf ?dr (sn_locks h, w1) :: ('e + _) \<times> _) = (found, (h2, w2))" by (metis prod.exhaust)
  have "alwaysE (\<lambda>x. fst (fst x) \<longrightarrow> snd (fst x) = ''held'') (\<lambda>_. False) (read_disk sv ?conf ?dr :: ('e, _) lockio)"
    by (rule never_disk)
  from always_wp [OF this, of "(sn_locks h, w1)"] r obtain x where
    x: "found = Inr x" "fst (fst x) \<longrightarrow> snd (fst x) = ''held''" by (auto simp: wpE_def split: sum.splits)
  have "looked (sn_locks h) w1 (h2, w2)"
    using looks_disk [of sv ?conf ?dr] r unfolding looksE_def keepsE_def looked_def by (metis as_found_simps(1) fst_conv snd_conv)
  then have kept: "lk_held h2 = lk_held (sn_locks h)" "as_found w w2" using w1 by (simp_all add: looked_def as_found_def)
  have run: "(run_status sv (h, w) :: ('e + _) \<times> _) = (Inr (status_text sv status x, (case status of Inl e \<Rightarrow> Some e | Inr _ \<Rightarrow> None), status_exit_code status),
      (h\<lparr>sn_service := h1, sn_locks := h2\<rparr>, w2))"
    using s r x(1) by (simp add: run_status_def tryE_def with_service_def with_status_locks_def bindE_def returnE_def Let_def)
  obtain held health version row block where found: "x = ((held, health), version, row, block)"
    by (metis prod.exhaust)
  show ?thesis
    unfolding run found using kept x(2) found
    by (auto simp: status_text_def service_line_def status_exit_code_def exit_code_def split: sum.split prod.split ServiceStatus.split)
qed

end
