(* ===== verification/Lifecycle.thy ===== *)
theory Lifecycle
  imports Journal Answer Setup Store
begin

text \<open>
  How a session with the journal begins and ends (\<open>JournalSession\<close> in \<open>src/sync.rs\<close>,
  \<open>PrivateLinkBridge\<close> in \<open>src/private_link.rs\<close>, \<open>JournalClient::bootstrap\<close> in \<open>src/journal.rs\<close>), and the input
  the pairing link is read from (\<open>TerminalLinkInput\<close> in \<open>src/pairing_answer.rs\<close>). What the transport library, the
  URL parser and the HTTP client answer is given by \<open>session_env\<close>; the session is the trace of what it does.
\<close>

subsection \<open>The bridge\<close>

definition CAPABILITY_COOKIE_NAME :: string where "CAPABILITY_COOKIE_NAME = ''solstone_tmux_cap''"
definition UPSTREAM_COOKIE_PREFIX :: string where "UPSTREAM_COOKIE_PREFIX = ''solstone_tmux_''"
definition OBSERVER_HEADER_NAME :: string where "OBSERVER_HEADER_NAME = ''x-solstone-observer''"
definition PROTOCOL_VERSION_HEADER_NAME :: string where "PROTOCOL_VERSION_HEADER_NAME = ''x-solstone-protocol-version''"
definition PROTOCOL_VERSION :: string where "PROTOCOL_VERSION = ''3''"

datatype transport_kind = RelayOnly | FullTransport

record bridge_names =
  bn_capability_cookie :: string
  bn_upstream_prefix :: string
  bn_observer_header :: string
  bn_protocol_header :: string

record bridge_config =
  bc_names :: bridge_names
  bc_hosts :: "string list"
  bc_port :: nat
  bc_one_time_token :: bool
  bc_max_body :: nat

record session_env =
  se_transport :: "transport_kind \<Rightarrow> Credential \<Rightarrow> bool"
  se_bridge :: "bridge_config \<Rightarrow> nat option"
  se_cookie :: "string option"
  se_url :: "string \<Rightarrow> bool"
  se_client :: bool

datatype session_event =
  NotedSession
| MadeStore "char list"
| StartedBridge transport_kind nat
| MadeClient string
| AttachedCoordinator
| TriggeredBootstrap
| ShutCoordinator
| PersistedPending
| RetiredOpener
| StoppedBridge

record JournalSession_run =
  js_port :: nat
  js_origin :: string
  js_coordinator :: bool

type_synonym ('e, 'a) trace = "(session_event list, 'e, 'a) comp"

definition event :: "session_event \<Rightarrow> ('e, unit) trace" where
  "event e = modifyE (\<lambda>t. e # t)"

definition transport_for :: "Credential \<Rightarrow> transport_kind" where
  "transport_for c = (if cr_endpoints c = [] then RelayOnly else FullTransport)"

definition bridge_config_for :: "Credential \<Rightarrow> bridge_config" where
  "bridge_config_for c =
     \<lparr>bc_names = \<lparr>bn_capability_cookie = CAPABILITY_COOKIE_NAME, bn_upstream_prefix = UPSTREAM_COOKIE_PREFIX,
        bn_observer_header = OBSERVER_HEADER_NAME, bn_protocol_header = PROTOCOL_VERSION_HEADER_NAME\<rparr>,
      bc_hosts = map ea_host (cr_endpoints c), bc_port = 0, bc_one_time_token = True, bc_max_body = MAX_REQUEST_BODY_BYTES\<rparr>"

text \<open>The headers the bridge adds to a request to the journal\<close>

definition proxy_headers :: "(string \<times> string) list \<Rightarrow> (string \<times> string) list" where
  "proxy_headers upstream = upstream @ [(PROTOCOL_VERSION_HEADER_NAME, PROTOCOL_VERSION)]"

definition bridge_start :: "session_env \<Rightarrow> Credential \<Rightarrow> (DiagnosticCode, nat) trace" where
  "bridge_start env c =
     (if \<not> se_transport env (transport_for c) c then throwE BridgeUnavailable
      else (case se_bridge env (bridge_config_for c) of
              None \<Rightarrow> throwE BridgeUnavailable
            | Some port \<Rightarrow> bindE (event (StartedBridge (transport_for c) port)) (\<lambda>_. returnE port)))"

definition loopback_origin :: "nat \<Rightarrow> string" where
  "loopback_origin port = ''http://127.0.0.1:'' @ dec_of_nat port"

definition bridge_shutdown :: "('e, unit) trace" where
  "bridge_shutdown = bindE (event RetiredOpener) (\<lambda>_. event StoppedBridge)"

definition bootstrap :: "session_env \<Rightarrow> nat \<Rightarrow> (DiagnosticCode, string) trace" where
  "bootstrap env port =
     (if \<not> se_url env (loopback_origin port) then throwE BridgeUnavailable
      else if se_cookie env = None then throwE BridgeUnavailable
      else if \<not> se_client env then throwE BridgeUnavailable
      else bindE (event (MadeClient (loopback_origin port))) (\<lambda>_. returnE (loopback_origin port)))"

subsection \<open>The session\<close>

definition session_start :: "session_env \<Rightarrow> pairing_env \<Rightarrow> Credential \<Rightarrow> (DiagnosticCode, JournalSession_run) trace" where
  "session_start env pe c =
     bindE (event NotedSession) (\<lambda>_.
     bindE (event (MadeStore (pe_generation pe (cr_client_cert_pem c)))) (\<lambda>_.
     bindE (bridge_start env c) (\<lambda>port.
     tryE (bootstrap env port) (\<lambda>journal.
       case journal of
         Inl code \<Rightarrow> bindE bridge_shutdown (\<lambda>_. throwE code)
       | Inr origin \<Rightarrow>
           bindE (event AttachedCoordinator) (\<lambda>_.
           bindE (event TriggeredBootstrap) (\<lambda>_.
           returnE \<lparr>js_port = port, js_origin = origin, js_coordinator = True\<rparr>))))))"

definition session_shutdown :: "JournalSession_run \<Rightarrow> (DiagnosticCode, unit) trace" where
  "session_shutdown js =
     bindE (if js_coordinator js then event ShutCoordinator else returnE ()) (\<lambda>_.
     bindE (event PersistedPending) (\<lambda>_.
     bindE bridge_shutdown (\<lambda>_. returnE ())))"

text \<open>The events of a start, its use and its end, oldest first\<close>

definition bridges_left :: "session_event list \<Rightarrow> int" where
  "bridges_left t = (\<Sum>e\<leftarrow>t. case e of StartedBridge _ _ \<Rightarrow> 1 | StoppedBridge \<Rightarrow> - 1 | _ \<Rightarrow> 0)"

text \<open>
  No bridge outlives its session. A start that fails, whatever of it failed, has stopped the bridge it
  started and begun no work after the connection. A session that started listens on the loopback interface only;
  its shutdown never fails, and stops the work before the pairing is written for the last time, and the bridge
  last.
\<close>

theorem no_bridge_is_left:
  "case session_start env pe c [] of
     (Inl code, t) \<Rightarrow> code = BridgeUnavailable \<and> bridges_left t = 0 \<and> AttachedCoordinator \<notin> set t
   | (Inr js, t) \<Rightarrow> bridges_left t = 1 \<and> js_origin js = ''http://127.0.0.1:'' @ dec_of_nat (js_port js)
       \<and> (case session_shutdown js t of
            (r, u) \<Rightarrow> r = Inr () \<and> bridges_left u = 0
              \<and> u = [StoppedBridge, RetiredOpener, PersistedPending, ShutCoordinator] @ t)"
  by (auto simp: session_start_def session_shutdown_def bridge_start_def bridge_shutdown_def bootstrap_def event_def
      loopback_origin_def bindE_def tryE_def modifyE_def throwE_def returnE_def bridges_left_def split: option.splits)

subsection \<open>Reading the pairing link from a terminal\<close>

record link_input =
  li_input :: bytes
  li_prompt :: bool
  li_finished :: bool

text \<open>One \<open>read\<close> into a buffer of \<open>n\<close> bytes: what it gives, whether it prompts, and the reader afterwards\<close>

definition link_read :: "nat \<Rightarrow> link_input \<Rightarrow> bytes \<times> bool \<times> link_input" where
  "link_read n li =
     (if li_finished li \<or> n = 0 then ([], False, li)
      else
        let got = take 1 (li_input li) in
        (got, li_prompt li,
         li\<lparr>li_input := drop 1 (li_input li), li_prompt := False, li_finished := got = [] \<or> hd got = LF\<rparr>))"

text \<open>\<open>read_to_end\<close>: until a read gives nothing. The bytes, and how often the owner was asked\<close>

fun link_read_all :: "nat \<Rightarrow> link_input \<Rightarrow> bytes \<times> nat" where
  "link_read_all 0 li = ([], 0)"
| "link_read_all (Suc fuel) li =
     (case link_read 32 li of (got, asked, li) \<Rightarrow>
        if got = [] then ([], of_bool asked)
        else (case link_read_all fuel li of (rest, n) \<Rightarrow> (got @ rest, of_bool asked + n)))"

lemma link_read_all_finished: "li_finished li \<Longrightarrow> link_read_all n li = ([], 0)"
  by (cases n) (simp_all add: link_read_def)

lemma link_read_all_spec:
  "\<not> li_finished li \<Longrightarrow> length (li_input li) < n \<Longrightarrow>
   link_read_all n li = (takeWhile (\<lambda>c. c \<noteq> LF) (li_input li) @ (if LF \<in> set (li_input li) then [LF] else []), of_bool (li_prompt li))"
proof (induction n arbitrary: li)
  case (Suc n)
  show ?case
  proof (cases "li_input li")
    case (Cons c cs)
    let ?next = "li\<lparr>li_input := cs, li_prompt := False, li_finished := c = LF\<rparr>"
    show ?thesis
    proof (cases "c = LF")
      case True
      then show ?thesis using Suc.prems Cons by (simp add: link_read_def Let_def link_read_all_finished)
    next
      case False
      then have "link_read_all n ?next = (takeWhile (\<lambda>c. c \<noteq> LF) cs @ (if LF \<in> set cs then [LF] else []), 0)"
        using Suc.IH [of ?next] Suc.prems Cons by simp
      then show ?thesis using False Suc.prems Cons by (simp add: link_read_def Let_def)
    qed
  qed (use Suc.prems in \<open>simp add: link_read_def Let_def\<close>)
qed simp

text \<open>From a terminal the link ends with its line: what follows it is left unread, and the owner is asked once.\<close>

lemma terminal_link_is_one_line:
  "link_read_all (Suc (length input)) \<lparr>li_input = input, li_prompt = True, li_finished = False\<rparr>
   = (takeWhile (\<lambda>c. c \<noteq> LF) input @ (if LF \<in> set input then [LF] else []), 1)"
  by (simp add: link_read_all_spec del: link_read_all.simps)

end
