(* ===== verification/Spec2Isabelle.thy ===== *)
theory Spec2Isabelle
imports Session Upload Serialize Fence Wake Tmux Observer Indicator Lanes Held Metadata Task Startup Report Lifecycle
begin

text \<open>
  Verification of solstone-tmux, the program under \<open>src/native/solstone-tmux\<close>. Paths below are relative to its
  \<open>src\<close> directory. This theory only collects the others; the properties C1 to C40 stand in the theory of the
  component they are about, each after a text that says what it states.

  \<^bold>\<open>The program.\<close> A daemon records what happens in the tmux sessions of one user and sends it to a journal its owner
  has paired it with. \<open>main.rs\<close> starts it: two locks, the settings, the recovery of what an earlier run left, and
  then two tasks under one supervisor. The observer polls tmux and appends frames to the files of an open segment;
  when the interval is over it closes the segment by renaming its directory and wakes the sync task. The sync task
  waits for a confirmed pairing, opens a session with the journal through a bridge of the transport library, and
  sweeps: it finds closed segments, uploads them, believes a receipt, writes it to its ledger and deletes what the
  journal holds. Beside the session run optional jobs: they tell the journal about the device and keep relay access
  up to date. Other processes of the same program pair (\<open>setup\<close>, \<open>confirm\<close>), show the status, and install the
  service. They meet the daemon only on disk: in the lock files, the health snapshot, the answer about a pairing, the
  credentials and the cached version of the journal.

  \<^bold>\<open>How code becomes definitions.\<close> A \<open>String\<close> or \<open>Vec<u8>\<close> is the list of its bytes, a path the list of its components, a
  struct a \<open>record\<close>, an enum a \<open>datatype\<close> with the source's constructors, \<open>Result\<close> a sum with \<open>Inl\<close> the error. Fallible
  code that changes state is a function from a state to a result and the state after it, put together with
  \<open>bindE\<close>, \<open>tryE\<close> and \<open>map_errE\<close> (theory \<open>Fs\<close>): \<open>?\<close> is \<open>bindE\<close>, a \<open>match\<close> on a result is \<open>tryE\<close>, \<open>let _ =\<close> is \<open>ignoreE\<close>,
  \<open>expect\<close> and \<open>unwrap\<close> are errors named Panic. The disk is an inode store; every system call takes one outcome from a schedule and
  fails where it says so, a write after any prefix of its bytes. A theorem about all worlds is therefore about
  every failure at every call. \<open>wpE\<close> is the weakest precondition by which the proofs go through the code. Integers keep the
  width the code gives them where it can be exceeded: \<open>u64\<close> counters wrap (\<open>u64_max\<close>, words in \<open>Lock\<close> and \<open>Store\<close>),
  \<open>checked_add\<close> and \<open>saturating_sub\<close> are functions of \<open>Prelude\<close>.
  Concurrency is an explicit step relation (\<open>Fence\<close>, \<open>Wake\<close>, \<open>Upload\<close>, \<open>Lanes\<close>, \<open>Store\<close>, \<open>Version\<close>) or an arbitrary adversary
  asked at every point where another task or process could act (\<open>Metadata\<close>, \<open>Task\<close>, \<open>Service\<close>).

  \<^bold>\<open>Theories, the code they model, and what their lemmas show.\<close>

  \<^item> \<open>Prelude\<close>, \<open>Text\<close>: the part of Rust's library the parsers use (UTF-8, trimming, splitting, number formats).
    \<open>Fs\<close>, \<open>Effects\<close>, \<open>Outcomes\<close>: the disk, and the collections \<open>quiet_intros\<close>, \<open>keeps_intros\<close>, \<open>confined_intros\<close>, \<open>always_intros\<close>:
    what only looks, keeps an invariant, stays inside a set of paths, and which results can occur at all.
  \<^item> \<open>Names\<close> (\<open>name.rs\<close>), \<open>Paths\<close> (\<open>paths.rs\<close>, \<open>paths/\<close>), \<open>Config\<close> (\<open>config.rs\<close>, \<open>cli.rs\<close>): names on disk never alias (C1), the
    roots and their private directories, the settings and the command line.
  \<^item> \<open>Storage\<close> (\<open>storage.rs\<close>): atomic replacement (C3) and the append of a frame, all or nothing (C4); the locale
    \<open>durable_storage\<close> is the trait \<open>DurableStorage\<close>, interpreted on \<open>FileStorage\<close>. \<open>Segment\<close> (\<open>segment.rs\<close>) rests on that contract only:
    an append keeps the segment's invariant (C7), closing it keeps the recordings (C8).
  \<^item> \<open>Model\<close>, \<open>Serialize\<close> (\<open>model.rs\<close>, \<open>serialize.rs\<close>): frames as ASCII JSON that reads back (C6).
  \<^item> \<open>Opening\<close>, \<open>Manager\<close>, \<open>Observer\<close> (\<open>observer.rs\<close>, \<open>clock.rs\<close>): the search for a free name ends (C39), a poll only appends
    (C40), and the exit code tells the truth (C10). \<open>Recovery\<close> (\<open>recovery.rs\<close>): repair (C12, C13) and quarantine (C14).
  \<^item> \<open>Foreground\<close>, \<open>Tmux\<close>, \<open>Indicator\<close> (\<open>foreground.rs\<close>, \<open>tmux.rs\<close>, \<open>indicator.rs\<close>, \<open>command.rs\<close>): which session is recorded (C37), what a
    poll may record (C38), and the mark in the status line, which leaves no trace (C32).
  \<^item> \<open>Lock\<close>, \<open>Health\<close> (\<open>instance_lock.rs\<close>, \<open>health.rs\<close>): mutual exclusion (C15), and what another process may conclude
    from the snapshot.
  \<^item> \<open>Startup\<close> (\<open>main.rs\<close>): the start takes both locks before it touches anything (C17). \<open>Report\<close> (\<open>main.rs\<close>, \<open>about.rs\<close>, \<open>support.rs\<close>):
    the status command only looks, and the link of a problem report reads back. \<open>About\<close> (\<open>about.rs\<close>): the facts of a journal.
  \<^item> \<open>Journal\<close>, \<open>Upload\<close> (\<open>journal.rs\<close>): when a receipt is believed (C20), what an answer can contain (C21), and the stage of an
    upload: bounded (C24) and never stalled (C25). \<open>Lifecycle\<close>: no bridge outlives its session.
  \<^item> \<open>Candidates\<close>, \<open>Streams\<close>, \<open>Ledger\<close>, \<open>Schedule\<close>, \<open>Retention\<close>, \<open>Sweep\<close>, \<open>Custody\<close>, \<open>Session\<close>, \<open>Fence\<close>, \<open>Wake\<close>, \<open>Task\<close> (\<open>sync.rs\<close>): the scan (C26, C27,
    C28), deletion only with proof (C30) and behind the fence (C31), no capture lost by any run of the scheduler (C35), no closed segment
    missed (C36), sessions for confirmed pairings only (C9), and a task that ends when it is told to (C18). \<open>Custody\<close> states the trait
    \<open>SyncJournal\<close> as the locale \<open>sync_journal\<close> and proves the sweep against it; \<open>Session\<close> interprets it on the journal client.
    \<open>Ledger\<close> has the locale \<open>housekeeping\<close> for the maintenance of its directories.
  \<^item> \<open>Credentials\<close>, \<open>Answer\<close>, \<open>Setup\<close>, \<open>Held\<close> (\<open>private_link.rs\<close>, \<open>pairing_answer.rs\<close>): pairing, and that an unanswered pairing stays held
    (C23). \<open>Credentials\<close> has the locale \<open>pairing_store\<close>, \<open>Held\<close> the locale \<open>watched\<close> (an invariant of a few files), which \<open>Version\<close> and
    \<open>Task\<close> use again for theirs.
  \<^item> \<open>Store\<close>, \<open>Lanes\<close>, \<open>Version\<close>, \<open>Metadata\<close> (\<open>sync.rs\<close>, \<open>post_connect.rs\<close>, \<open>relay_access.rs\<close>, \<open>journal_version.rs\<close>, \<open>client_metadata.rs\<close>): the live
    pairing, whose answers take effect in turn (C29) and are saved or marked (C11), the bounded optional jobs (C2), a cached version that is never
    stale (C22), and an orderly report of the device (C33).
  \<^item> \<open>Service\<close>, \<open>Launchd\<close>, \<open>Installer\<close> (\<open>service.rs\<close>, \<open>service/\<close>): both managers satisfy the locale \<open>manager\<close>; under it an install is done
    or undone (C34), foreign files are kept (C16), definitions read back (C5), and stopping a job ends (C19).

  \<^bold>\<open>Fuel and bounds.\<close> The search for a name to put a contradictory segment aside tries one more name than there are files, and
  one of so many distinct names is free; resolving a path follows 40 links, more than which \<open>open\<close> refuses; the answer's
  lock is tried 1000 times at 5 ms, which is its timeout; a launchd job is looked at 100 times, and all of stopping it takes 105 commands. The
  loops of the sync task take fuel, and C18 says how much is enough for any shutdown. The observer's loop and the
  supervisor are functions of a script of what happens; a script that ends before the process does gives \<open>None\<close>, which
  is no result. Times are in the unit the code compares them in.

  \<^bold>\<open>What the environment may do.\<close> JSON encoders and decoders, SHA-256, the HTTP client, the transport library, the time zone
  database, the ceremony of pairing, the commands of tmux, systemd and launchd, and the clocks are arguments. Where a property
  needs one of them to behave (a decoder that reads what the encoder wrote, a digest without collisions on the files at hand), that is
  a named hypothesis, and its witness instantiates it.

  \<^bold>\<open>Findings.\<close> C13: a torn record below further bytes is truncated and then padded with zeros. C26: a session whose name is not
  canonical is recorded under a file name the uploader rejects, so its segment is never sent. C28: the directory of a stream with such a name
  stops every sweep, also after the name was given up. C2: a description that arrives after pass two is dropped, not deferred as the comment says.

  \<^bold>\<open>Not modelled.\<close> The request that retires a pairing and the terminal device (network and terminal I/O whose result nothing depends
  on); the runner of processes, system clocks and the zone database (calls of libraries); the lines on stderr; the dispatch of commands that only
  call one component; the counters and hooks that only tests read; the tests. Cancellation is modelled where the code relies on it (the fence, the wake-up,
  the upload, the optional jobs, the session of the scheduler), not for every future. Reads and writes of one system call are atomic, and other processes
  act on the disk only at the points named above.
\<close>

end
